(* ===== verification/Prelude.thy ===== *)
theory Prelude
  imports Main "HOL-Library.Word" "HOL-Library.List_Lexorder" "HOL-Library.Char_ord"
begin

text \<open>
  The shared vocabulary of the development: Go strings as byte lists, error results as sums,
  the list helpers that correspond to the Go standard library functions the sources call
  (\<^verbatim>\<open>strings.HasPrefix\<close>, \<^verbatim>\<open>strings.TrimPrefix\<close>, \<^verbatim>\<open>strings.Split\<close>), and the generic lemmas the
  component theories use.
\<close>

section \<open>Collections of facts\<close>

named_theorems go_strings \<open>evaluation rules for the Go string helpers\<close>
named_theorems frame_simps \<open>fields an operation leaves unchanged\<close>

section \<open>Types\<close>

text \<open>A Go string is a sequence of bytes; \<^typ>\<open>char\<close> is a byte, so \<open>length\<close> is Go's \<open>len\<close>.\<close>

type_synonym bytes = "char list"
type_synonym u8 = "8 word"
type_synonym u16 = "16 word"
type_synonym u32 = "32 word"
type_synonym u64 = "64 word"

text \<open>An operation that returns \<open>(value, error)\<close>: \<open>Inl\<close> is the error, \<open>Inr\<close> the value.\<close>

type_synonym ('e, 'a) result = "'e + 'a"

abbreviation succeeds :: "'e + 'a \<Rightarrow> bool" where
  "succeeds r \<equiv> (\<exists>v. r = Inr v)"

abbreviation KiB :: "int" where "KiB \<equiv> 1024"
abbreviation MiB :: "int" where "MiB \<equiv> 1048576"
abbreviation GiB :: "int" where "GiB \<equiv> 1073741824"

text \<open>The range of Go's \<open>int64\<close>.\<close>

definition int64_ok :: "int \<Rightarrow> bool" where
  "int64_ok x \<longleftrightarrow> - (2 ^ 63) \<le> x \<and> x < 2 ^ 63"

section \<open>Go string helpers\<close>

fun has_prefix :: "'a list \<Rightarrow> 'a list \<Rightarrow> bool" where
  "has_prefix s [] = True"
| "has_prefix [] (p # ps) = False"
| "has_prefix (c # s) (p # ps) = (c = p \<and> has_prefix s ps)"

definition has_suffix :: "'a list \<Rightarrow> 'a list \<Rightarrow> bool" where
  "has_suffix s p = has_prefix (rev s) (rev p)"

definition trim_prefix :: "'a list \<Rightarrow> 'a list \<Rightarrow> 'a list" where
  "trim_prefix s p = (if has_prefix s p then drop (length p) s else s)"

definition trim_suffix :: "'a list \<Rightarrow> 'a list \<Rightarrow> 'a list" where
  "trim_suffix s p = (if has_suffix s p then take (length s - length p) s else s)"

text \<open>\<^verbatim>\<open>strings.Split(s, sep)\<close> for a one-byte separator: always at least one piece.\<close>

fun split_on :: "'a \<Rightarrow> 'a list \<Rightarrow> 'a list list" where
  "split_on sep [] = [[]]"
| "split_on sep (c # s) =
     (if c = sep then [] # split_on sep s
      else case split_on sep s of [] \<Rightarrow> [[c]] | w # ws \<Rightarrow> (c # w) # ws)"

text \<open>\<^verbatim>\<open>strings.Join(ws, sep)\<close> for a one-byte separator.\<close>

fun join_with :: "'a \<Rightarrow> 'a list list \<Rightarrow> 'a list" where
  "join_with sep [] = []"
| "join_with sep [w] = w"
| "join_with sep (w # v # ws) = w @ sep # join_with sep (v # ws)"

lemma has_prefix_iff: "has_prefix s p \<longleftrightarrow> (\<exists>r. s = p @ r)"
  by (induction s p rule: has_prefix.induct) auto

lemma has_prefix_append [simp]: "has_prefix (p @ r) p"
  by (auto simp: has_prefix_iff)

lemma has_suffix_iff: "has_suffix s p \<longleftrightarrow> (\<exists>r. s = r @ p)"
  unfolding has_suffix_def has_prefix_iff
  by (metis rev_append rev_rev_ident)

lemma trim_prefix_append [simp]: "trim_prefix (p @ r) p = r"
  by (simp add: trim_prefix_def)

lemma trim_suffix_append [simp]: "trim_suffix (r @ p) p = r"
  by (auto simp: trim_suffix_def has_suffix_iff)

lemma split_on_nonempty [simp]: "split_on sep s \<noteq> []"
  by (induction s) (auto split: list.splits)

lemma join_split [simp]: "join_with sep (split_on sep s) = s"
proof (induction s)
  case (Cons c s)
  show ?case
  proof (cases "split_on sep s")
    case Nil
    then show ?thesis by simp
  next
    case (Cons w ws)
    then show ?thesis using Cons.IH by (cases ws) auto
  qed
qed simp

lemma split_on_no_sep: "w \<in> set (split_on sep s) \<Longrightarrow> sep \<notin> set w"
proof (induction s arbitrary: w)
  case (Cons c s)
  then show ?case by (cases "split_on sep s") (auto split: if_splits)
qed simp

lemma split_on_free: "sep \<notin> set w \<Longrightarrow> split_on sep w = [w]"
  by (induction w) auto

lemma split_on_append:
  "sep \<notin> set w \<Longrightarrow> split_on sep (w @ sep # s) = w # split_on sep s"
  by (induction w) auto

lemma split_join:
  "ws \<noteq> [] \<Longrightarrow> \<forall>w \<in> set ws. sep \<notin> set w \<Longrightarrow> split_on sep (join_with sep ws) = ws"
  by (induction sep ws rule: join_with.induct) (auto simp: split_on_free split_on_append)

section \<open>Lists\<close>

lemma drop_Suc_nth: "i < length xs \<Longrightarrow> drop i xs = xs ! i # drop (Suc i) xs"
  by (rule Cons_nth_drop_Suc [symmetric])

lemma sum_list_filter_split:
  "sum_list (map f xs) =
     sum_list (map f (filter P xs)) + (sum_list (map f (filter (\<lambda>x. \<not> P x) xs)) :: 'b::comm_monoid_add)"
  by (induction xs) (auto simp: algebra_simps)

lemma sorted_hd_le:
  "sorted_wrt (<) (xs :: 'a :: linorder list) \<Longrightarrow> x \<in> set xs \<Longrightarrow> hd xs \<le> x"
  by (cases xs) auto

lemma sorted_le_last:
  "sorted_wrt (<) (xs :: 'a :: linorder list) \<Longrightarrow> x \<in> set xs \<Longrightarrow> x \<le> last xs"
  by (induction xs) (auto, metis last_in_set less_imp_le)

text \<open>In a strictly sorted concatenation an element belongs to one piece only.\<close>

lemma sorted_concat_index:
  assumes "sorted_wrt (<) (concat (map f rs) :: 'a :: linorder list)"
    and "i < length rs" and "j < length rs" and "x \<in> set (f (rs ! i))" and "x \<in> set (f (rs ! j))"
  shows "i = j"
proof -
  have "i < length rs \<Longrightarrow> j < length rs \<Longrightarrow> x \<in> set (f (rs ! i)) \<Longrightarrow> y \<in> set (f (rs ! j)) \<Longrightarrow>
        i < j \<Longrightarrow> sorted_wrt (<) (concat (map f rs)) \<Longrightarrow> x < y" for i j x y
  proof (induction rs arbitrary: i j)
    case (Cons r rs)
    then show ?case by (cases i; cases j) (auto simp: sorted_wrt_append, metis nth_mem)
  qed simp
  with assms show ?thesis by (metis less_irrefl linorder_neqE_nat)
qed

text \<open>A call or a check that may end the operation.\<close>

definition guard :: "bool \<Rightarrow> unit option" where
  "guard b = (if b then Some () else None)"

lemma guard_Some [simp]: "guard b = Some u \<longleftrightarrow> b" "guard True = Some ()"
  by (auto simp: guard_def)

end
