(* ===== verification/Identifiers.thy ===== *)
theory Identifiers
  imports Prelude
begin

text \<open>
  The reference grammars and path rules that every boundary of the platform checks:
  the regular expressions \<open>reference\<close> (executionqueue/store.go) and \<open>workerID\<close>
  (workercredential/store.go), \<open>validOpaqueIdentifier\<close> and \<open>profileDigest\<close>
  (sandboxsupervisor/references.go), \<open>validAttachmentName\<close> (attachments_linux.go), and Go's
  \<^verbatim>\<open>path.Clean\<close>, \<^verbatim>\<open>path.Join\<close>, \<^verbatim>\<open>path.Dir\<close> with the path rules built on them
  (\<open>validOutputPaths\<close>, \<open>validateRelativePath\<close>, \<open>validateSymlink\<close>).

  Go ranges over a string by runes. A rune below 128 is one byte and every byte of a longer or an
  invalid sequence yields a rune of at least 128, which all these grammars reject, so the checks
  are written on bytes.
\<close>

section \<open>Character classes\<close>

definition is_lower :: "char \<Rightarrow> bool" where
  "is_lower c \<longleftrightarrow> CHR ''a'' \<le> c \<and> c \<le> CHR ''z''"

definition is_upper :: "char \<Rightarrow> bool" where
  "is_upper c \<longleftrightarrow> CHR ''A'' \<le> c \<and> c \<le> CHR ''Z''"

definition is_digit :: "char \<Rightarrow> bool" where
  "is_digit c \<longleftrightarrow> CHR ''0'' \<le> c \<and> c \<le> CHR ''9''"

definition is_hex_letter :: "char \<Rightarrow> bool" where
  "is_hex_letter c \<longleftrightarrow> CHR ''a'' \<le> c \<and> c \<le> CHR ''f''"

lemmas char_class_defs = is_lower_def is_upper_def is_digit_def is_hex_letter_def

section \<open>Identifiers\<close>

text \<open>\<^verbatim>\<open>^[a-z0-9][a-z0-9_-]{0,63}$\<close>\<close>

definition reference :: "bytes \<Rightarrow> bool" where
  "reference s \<longleftrightarrow> (case s of
      [] \<Rightarrow> False
    | c # cs \<Rightarrow> (is_lower c \<or> is_digit c) \<and> length cs \<le> 63 \<and>
        (\<forall>d \<in> set cs. is_lower d \<or> is_digit d \<or> d = CHR ''_'' \<or> d = CHR ''-''))"

text \<open>\<^verbatim>\<open>^[A-Za-z0-9][A-Za-z0-9._-]{0,63}$\<close>\<close>

definition workerID :: "bytes \<Rightarrow> bool" where
  "workerID s \<longleftrightarrow> (case s of
      [] \<Rightarrow> False
    | c # cs \<Rightarrow> (is_upper c \<or> is_lower c \<or> is_digit c) \<and> length cs \<le> 63 \<and>
        (\<forall>d \<in> set cs. is_upper d \<or> is_lower d \<or> is_digit d \<or>
           d = CHR ''.'' \<or> d = CHR ''_'' \<or> d = CHR ''-''))"

text \<open>The loop of \<open>validOpaqueIdentifier\<close>; \<open>index\<close> is the byte index.\<close>

fun opaque_loop :: "nat \<Rightarrow> bytes \<Rightarrow> bool" where
  "opaque_loop index [] = True"
| "opaque_loop index (c # cs) =
     (if is_lower c \<or> is_digit c \<or> (index > 0 \<and> (c = CHR ''-'' \<or> c = CHR ''_''))
      then opaque_loop (index + 1) cs else False)"

definition validOpaqueIdentifier :: "bytes \<Rightarrow> bool" where
  "validOpaqueIdentifier identifier =
     (if length identifier = 0 \<or> length identifier > 64 then False else opaque_loop 0 identifier)"

definition profileDigest :: "bytes \<Rightarrow> bytes option" where
  "profileDigest identity =
     (if \<not> has_prefix identity ''sha256:'' then None
      else let digest = trim_prefix identity ''sha256:'' in
        if length digest \<noteq> 64 then None
        else if \<exists>c \<in> set digest. \<not> is_digit c \<and> \<not> is_hex_letter c then None
        else Some digest)"

definition validAttachmentName :: "bytes \<Rightarrow> bool" where
  "validAttachmentName name =
     (if length name = 0 \<or> length name > 128 \<or> name = ''.'' \<or> name = ''..'' then False
      else (\<forall>c \<in> set name. is_lower c \<or> is_upper c \<or> is_digit c \<or>
              c = CHR ''.'' \<or> c = CHR ''_'' \<or> c = CHR ''-''))"

lemma opaque_loop_Suc:
  "opaque_loop (Suc i) s \<longleftrightarrow> (\<forall>d \<in> set s. is_lower d \<or> is_digit d \<or> d = CHR ''_'' \<or> d = CHR ''-'')"
  by (induction s arbitrary: i) auto

lemma reference_iff_opaque: "validOpaqueIdentifier s \<longleftrightarrow> reference s"
  by (cases s) (auto simp: validOpaqueIdentifier_def reference_def opaque_loop_Suc)

lemma reference_workerID: "reference s \<Longrightarrow> workerID s"
  by (cases s) (auto simp: reference_def workerID_def)

lemma reference_no_slash: "reference s \<Longrightarrow> CHR ''/'' \<notin> set s \<and> CHR ''.'' \<notin> set s \<and> s \<noteq> []"
  by (cases s) (auto simp: reference_def char_class_defs less_eq_char_def)

section \<open>Go paths\<close>

abbreviation slash :: char where "slash \<equiv> CHR ''/''"

definition proper_segment :: "bytes \<Rightarrow> bool" where
  "proper_segment s \<longleftrightarrow> s \<noteq> [] \<and> s \<noteq> ''.'' \<and> s \<noteq> ''..''"

text \<open>
  \<^verbatim>\<open>path.Clean\<close> on the slash-separated segments, with the output kept reversed: empty and
  dot segments disappear, a dot-dot segment removes the last real output segment, is dropped at the
  root of an absolute path, and is kept at the start of a relative one.
\<close>

fun clean_segments :: "bool \<Rightarrow> bytes list \<Rightarrow> bytes list \<Rightarrow> bytes list" where
  "clean_segments rooted out [] = rev out"
| "clean_segments rooted out (s # ss) =
     (if s = [] \<or> s = ''.'' then clean_segments rooted out ss
      else if s = ''..'' then
        (case out of
           [] \<Rightarrow> clean_segments rooted (if rooted then [] else [''..'']) ss
         | o1 # os \<Rightarrow> clean_segments rooted (if o1 = ''..'' then ''..'' # out else os) ss)
      else clean_segments rooted (s # out) ss)"

definition is_abs :: "bytes \<Rightarrow> bool" where
  "is_abs p \<longleftrightarrow> has_prefix p ''/''"

definition path_clean :: "bytes \<Rightarrow> bytes" where
  "path_clean p =
     (if p = [] then ''.''
      else let body = join_with slash (clean_segments (is_abs p) [] (split_on slash p)) in
        if is_abs p then slash # body
        else if body = [] then ''.'' else body)"

definition path_join :: "bytes \<Rightarrow> bytes \<Rightarrow> bytes" where
  "path_join a b =
     (if a = [] \<and> b = [] then [] else if a = [] then path_clean b
      else if b = [] then path_clean a else path_clean (a @ slash # b))"

text \<open>\<^verbatim>\<open>path.Dir\<close>: everything up to and including the last slash, cleaned.\<close>

definition path_dir :: "bytes \<Rightarrow> bytes" where
  "path_dir p = path_clean (rev (dropWhile (\<lambda>c. c \<noteq> slash) (rev p)))"

lemma clean_segments_proper:
  "\<forall>s \<in> set ss. proper_segment s \<Longrightarrow> clean_segments r out ss = rev out @ ss"
  by (induction ss arbitrary: out) (auto simp: proper_segment_def)

text \<open>A cleaned relative path is some dot-dot segments followed by proper ones.\<close>

lemma clean_segments_shape:
  assumes "out = rev ps @ replicate k ''..''" and "\<forall>s \<in> set ps. proper_segment s"
  shows "\<exists>j qs. clean_segments False out ss = replicate j ''..'' @ qs \<and> (\<forall>s \<in> set qs. proper_segment s)"
  using assms
proof (induction ss arbitrary: out ps k)
  case Nil
  then show ?case by (intro exI [of _ k] exI [of _ ps]) simp
next
  case (Cons s ss)
  consider "s = [] \<or> s = ''.''" | "s = ''..''" | "proper_segment s" by (auto simp: proper_segment_def)
  then show ?case
  proof cases
    case 1
    with Cons show ?thesis by (auto simp del: not_Cons_self2)
  next
    case 2
    show ?thesis
    proof (cases ps rule: rev_cases)
      case Nil
      then have "clean_segments False out (s # ss) = clean_segments False (replicate (Suc k) ''..'') ss"
        using Cons.prems 2 by (cases k) auto
      then show ?thesis using Cons.IH [of _ "[]" "Suc k"] by simp
    next
      case (snoc qs q)
      then have "q \<noteq> ''..''" using Cons.prems by (auto simp: proper_segment_def)
      then have "clean_segments False out (s # ss) = clean_segments False (rev qs @ replicate k ''..'') ss"
        using Cons.prems 2 snoc by simp
      then show ?thesis using Cons.IH [OF refl, of qs k] Cons.prems snoc by simp
    qed
  next
    case 3
    then have "clean_segments False out (s # ss) = clean_segments False (rev (ps @ [s]) @ replicate k ''..'') ss"
      using Cons.prems by (auto simp: proper_segment_def)
    then show ?thesis using Cons.IH [OF refl, of "ps @ [s]" k] Cons.prems 3 by simp
  qed
qed

lemma clean_segments_subset:
  "set (clean_segments r out ss) \<subseteq> set out \<union> set ss \<union> {''..''}"
  by (induction r out ss rule: clean_segments.induct) (fastforce split: list.splits if_splits)+

lemma join_proper_nonempty:
  "ws \<noteq> [] \<Longrightarrow> \<forall>w \<in> set ws. w \<noteq> [] \<Longrightarrow> join_with sep ws \<noteq> []"
  by (cases ws; cases "tl ws") auto

lemma is_abs_iff: "is_abs p \<longleftrightarrow> (\<exists>q. p = slash # q)"
  by (auto simp: is_abs_def has_prefix_iff)

lemma proper_pieces:
  assumes "\<forall>s \<in> set (split_on slash p). proper_segment s"
  shows "[] \<notin> set (split_on slash p)" and "''.'' \<notin> set (split_on slash p)"
    and "''..'' \<notin> set (split_on slash p)"
  using assms unfolding proper_segment_def by blast+

lemma not_abs_proper:
  assumes "\<forall>s \<in> set (split_on slash p). proper_segment s"
  shows "\<not> is_abs p" and "p \<noteq> []" and "p \<noteq> ''.''" and "p \<noteq> ''..''"
proof -
  note n = proper_pieces [OF assms]
  show "\<not> is_abs p"
  proof
    assume "is_abs p"
    then obtain q where "p = slash # q" by (auto simp: is_abs_iff)
    with n(1) show False by simp
  qed
  show "p \<noteq> []" using n(1) by (intro notI) simp
  show "p \<noteq> ''.''" using n(2) by (intro notI) simp
  show "p \<noteq> ''..''" using n(3) by (intro notI) simp
qed

text \<open>The segments of an accepted relative path.\<close>

lemma clean_relative_segments:
  assumes "path_clean p = p" and "\<not> is_abs p" and "p \<noteq> ''.''"
  shows "\<exists>j qs. split_on slash p = replicate j ''..'' @ qs \<and> (\<forall>s \<in> set qs. proper_segment s)"
proof -
  let ?c = "clean_segments False [] (split_on slash p)"
  obtain j qs where shape: "?c = replicate j ''..'' @ qs" "\<forall>s \<in> set qs. proper_segment s"
    using clean_segments_shape [of "[]" "[]" 0 "split_on slash p"] by auto
  have p: "p = join_with slash ?c" "?c \<noteq> []"
    using assms by (auto simp: path_clean_def Let_def split: if_splits)
  have "\<forall>w \<in> set ?c. slash \<notin> set w"
    using clean_segments_subset [of False "[]" "split_on slash p"] split_on_no_sep [of _ slash p]
    by fastforce
  then have "split_on slash p = ?c" using p split_join [OF p(2)] by metis
  with shape show ?thesis by auto
qed

lemma join_cons_prefix:
  "ws \<noteq> [] \<Longrightarrow> join_with sep (w # ws) = w @ sep # join_with sep ws"
  by (cases ws) auto

lemma clean_proper_iff:
  assumes "p \<noteq> []"
  shows "(path_clean p = p \<and> \<not> is_abs p \<and> p \<noteq> ''.'' \<and> p \<noteq> ''..'' \<and> \<not> has_prefix p ''../'')
    \<longleftrightarrow> (\<forall>s \<in> set (split_on slash p). proper_segment s)" (is "?l \<longleftrightarrow> ?r")
proof
  assume l: ?l
  obtain j qs where sh: "split_on slash p = replicate j ''..'' @ qs" "\<forall>s \<in> set qs. proper_segment s"
    using clean_relative_segments l by blast
  show ?r
  proof (cases j)
    case 0
    then show ?thesis using sh by simp
  next
    case (Suc i)
    have "p = join_with slash (''..'' # replicate i ''..'' @ qs)"
      using join_split [of slash p] sh(1) Suc by simp
    then have "p = ''..'' \<or> has_prefix p ''../''"
      by (metis join_cons_prefix join_with.simps(2) append_Cons append_Nil has_prefix_append)
    with l show ?thesis by blast
  qed
next
  assume r: ?r
  have segs: "clean_segments False [] (split_on slash p) = split_on slash p"
    using clean_segments_proper [OF r] by simp
  note na = not_abs_proper [OF r]
  have clean: "path_clean p = p" using assms na(1) segs by (simp add: path_clean_def)
  moreover have "\<not> has_prefix p ''../''"
  proof
    assume "has_prefix p ''../''"
    then obtain q where "p = ''..'' @ slash # q" by (auto simp: has_prefix_iff)
    then have "''..'' \<in> set (split_on slash p)" using split_on_append [of slash "''..''" q] by simp
    with proper_pieces(3) [OF r] show False by contradiction
  qed
  ultimately show ?l using clean na by blast
qed

section \<open>UTF-8\<close>

text \<open>
  \<^verbatim>\<open>utf8.ValidString\<close>: the number of bytes of the valid sequence at the head of the string,
  0 when there is none (overlong forms, surrogates and code points above 0x10FFFF are invalid).
\<close>

definition byte :: "char \<Rightarrow> nat" where "byte c = of_char c"

definition cont_byte :: "char \<Rightarrow> bool" where
  "cont_byte c \<longleftrightarrow> 0x80 \<le> byte c \<and> byte c \<le> 0xBF"

definition second_ok :: "nat \<Rightarrow> char \<Rightarrow> bool" where
  "second_ok b c \<longleftrightarrow>
     (if b = 0xE0 then 0xA0 \<le> byte c \<and> byte c \<le> 0xBF
      else if b = 0xED then 0x80 \<le> byte c \<and> byte c \<le> 0x9F
      else if b = 0xF0 then 0x90 \<le> byte c \<and> byte c \<le> 0xBF
      else if b = 0xF4 then 0x80 \<le> byte c \<and> byte c \<le> 0x8F
      else cont_byte c)"

definition utf8_width :: "bytes \<Rightarrow> nat" where
  "utf8_width s = (case s of
      [] \<Rightarrow> 0
    | c # r \<Rightarrow>
       (let b = byte c in
        if b < 0x80 then 1
        else if 0xC2 \<le> b \<and> b \<le> 0xDF then
          (case r of c1 # _ \<Rightarrow> if second_ok b c1 then 2 else 0 | _ \<Rightarrow> 0)
        else if 0xE0 \<le> b \<and> b \<le> 0xEF then
          (case r of c1 # c2 # _ \<Rightarrow> if second_ok b c1 \<and> cont_byte c2 then 3 else 0 | _ \<Rightarrow> 0)
        else if 0xF0 \<le> b \<and> b \<le> 0xF4 then
          (case r of c1 # c2 # c3 # _ \<Rightarrow>
             if second_ok b c1 \<and> cont_byte c2 \<and> cont_byte c3 then 4 else 0 | _ \<Rightarrow> 0)
        else 0))"

function utf8_valid :: "bytes \<Rightarrow> bool" where
  "utf8_valid s =
     (if s = [] then True
      else if utf8_width s = 0 then False
      else utf8_valid (drop (utf8_width s) s))"
  by pat_completeness auto
termination by (relation "measure length") auto

declare utf8_valid.simps [simp del]

lemma utf8_valid_Nil [simp]: "utf8_valid []" by (simp add: utf8_valid.simps)

lemma utf8_valid_ascii_Cons:
  assumes "byte c < 0x80" shows "utf8_valid (c # s) = utf8_valid s"
proof -
  have "utf8_width (c # s) = 1" using assms by (simp add: utf8_width_def Let_def)
  then show ?thesis by (subst utf8_valid.simps) simp
qed

lemma utf8_valid_ascii: "\<forall>c \<in> set s. byte c < 0x80 \<Longrightarrow> utf8_valid s"
  by (induction s) (simp_all add: utf8_valid_ascii_Cons)

section \<open>Path rules of the platform\<close>

definition maximumPathLength :: nat where "maximumPathLength = 4096"

definition contains_any :: "bytes \<Rightarrow> bytes \<Rightarrow> bool" where
  "contains_any s cs \<longleftrightarrow> (\<exists>c \<in> set s. c \<in> set cs)"

abbreviation nul :: char where "nul \<equiv> CHR 0x00"
abbreviation backslash :: char where "backslash \<equiv> CHR 0x5C"

text \<open>profilebundle/build.go \<open>validateRelativePath\<close>; \<open>True\<close> is a nil error.\<close>

definition validateRelativePath :: "bytes \<Rightarrow> bool" where
  "validateRelativePath value =
     (if value = [] \<or> length value > maximumPathLength \<or> is_abs value
         \<or> backslash \<in> set value \<or> nul \<in> set value then False
      else if path_clean value \<noteq> value then False
      else (\<forall>segment \<in> set (split_on slash value).
              \<not> (segment = [] \<or> length segment > 255 \<or> segment = ''.'' \<or> segment = ''..'')))"

definition safeArchivePrefix :: "bytes \<Rightarrow> bool" where
  "safeArchivePrefix value \<longleftrightarrow> has_suffix value ''/'' \<and> validateRelativePath (trim_suffix value ''/'')"

definition validateSymlink :: "bytes \<Rightarrow> bytes \<Rightarrow> bool" where
  "validateSymlink name target =
     (if target = [] \<or> is_abs target \<or> backslash \<in> set target then False
      else let resolved = path_clean (path_join (path_dir name) target) in
        \<not> (resolved = ''..'' \<or> has_prefix resolved ''../''))"

text \<open>
  The path loop of \<open>validExecution\<close> (executionqueue/store.go) with the names seen so far.
\<close>

fun queue_paths_ok :: "bytes list \<Rightarrow> bytes list \<Rightarrow> bool" where
  "queue_paths_ok seen [] = True"
| "queue_paths_ok seen (p # ps) =
     (if p = [] \<or> length p > 1024 \<or> p = ''.'' \<or> is_abs p \<or> path_clean p \<noteq> p
         \<or> contains_any p [backslash, nul] \<or> p = ''..'' \<or> has_prefix p ''../'' \<or> p \<in> set seen
      then False else queue_paths_ok (p # seen) ps)"

text \<open>
  The loop of \<open>validOutputPaths\<close> (sandboxsupervisor/extraction_linux.go).
\<close>

fun output_paths_loop :: "bytes list \<Rightarrow> bytes list \<Rightarrow> bool" where
  "output_paths_loop seen [] = True"
| "output_paths_loop seen (name # ps) =
     (if name = [] \<or> length name > 1024 \<or> \<not> utf8_valid name \<or> contains_any name [backslash, nul]
         \<or> is_abs name \<or> name = ''.'' \<or> name = ''..'' \<or> has_prefix name ''../''
         \<or> path_clean name \<noteq> name \<or> name \<in> set seen
      then False else output_paths_loop (name # seen) ps)"

definition maximumExtractedFiles :: nat where "maximumExtractedFiles = 16"

definition validOutputPaths :: "bytes list \<Rightarrow> bool" where
  "validOutputPaths paths =
     (if length paths > maximumExtractedFiles then False else output_paths_loop [] paths)"

lemma queue_paths_iff:
  "queue_paths_ok seen ps \<longleftrightarrow>
     distinct ps \<and> set ps \<inter> set seen = {} \<and>
     (\<forall>p \<in> set ps. p \<noteq> [] \<and> length p \<le> 1024 \<and> backslash \<notin> set p \<and> nul \<notin> set p \<and>
        (\<forall>s \<in> set (split_on slash p). proper_segment s))"
proof (induction seen ps rule: queue_paths_ok.induct)
  case (2 seen p ps)
  show ?case
  proof (cases "p = []")
    case False
    note clean_proper_iff [OF this]
    then show ?thesis using 2 by (auto simp: contains_any_def)
  qed simp
qed simp

lemma output_paths_iff:
  "output_paths_loop seen ps \<longleftrightarrow> queue_paths_ok seen ps \<and> (\<forall>p \<in> set ps. utf8_valid p)"
  by (induction seen ps rule: output_paths_loop.induct) auto

lemma validOutputPaths_iff:
  "validOutputPaths ps \<longleftrightarrow> length ps \<le> 16 \<and> queue_paths_ok [] ps \<and> (\<forall>p \<in> set ps. utf8_valid p)"
  by (auto simp: validOutputPaths_def maximumExtractedFiles_def output_paths_iff)

lemma validateRelativePath_iff:
  "validateRelativePath v \<longleftrightarrow> v \<noteq> [] \<and> length v \<le> 4096 \<and> backslash \<notin> set v \<and> nul \<notin> set v \<and>
     (\<forall>s \<in> set (split_on slash v). proper_segment s \<and> length s \<le> 255)"
proof (cases "v = []")
  case False
  let ?S = "set (split_on slash v)"
  have clean: "\<forall>s \<in> ?S. proper_segment s \<Longrightarrow> path_clean v = v \<and> \<not> is_abs v"
    using clean_proper_iff [OF False] by blast
  have loop: "(\<forall>s \<in> ?S. \<not> (s = [] \<or> length s > 255 \<or> s = ''.'' \<or> s = ''..'')) \<longleftrightarrow>
      (\<forall>s \<in> ?S. proper_segment s \<and> length s \<le> 255)"
    by (intro ball_cong refl) (simp only: proper_segment_def not_less de_Morgan_disj, blast)
  have "(\<forall>s \<in> ?S. proper_segment s \<and> length s \<le> 255) \<Longrightarrow> path_clean v = v \<and> \<not> is_abs v"
    using clean by blast
  then show ?thesis
    unfolding validateRelativePath_def maximumPathLength_def loop using False not_less by auto
qed (simp add: validateRelativePath_def)

end
