(* ===== verification/Framing.thy ===== *)
theory Framing
  imports Identifiers
begin

text \<open>
  sandboxsupervisor/framing_linux.go: length-prefixed control messages over a byte stream. A stream
  is the list of bytes that will arrive before end of file; reading returns the rest of it.
\<close>

datatype frame_error = FrameHeader | FrameEmpty | FrameTooLarge | FramePayload

definition maximumControlMessageSize :: nat where "maximumControlMessageSize = 64 * 1024"
definition maximumOutputBytes :: nat where "maximumOutputBytes = 8 * 1024 * 1024"
definition maximumExtractionBytes :: nat where "maximumExtractionBytes = 32 * 1024 * 1024"

definition maximumResultMessageSize :: nat where
  "maximumResultMessageSize = 12 * maximumOutputBytes + 2 * maximumExtractionBytes + 2 * maximumControlMessageSize"

text \<open>\<^verbatim>\<open>binary.BigEndian.PutUint32\<close> and \<^verbatim>\<open>Uint32\<close>\<close>

definition put_uint32 :: "u32 \<Rightarrow> bytes" where
  "put_uint32 v = [char_of (unat v div 2 ^ 24), char_of (unat v div 2 ^ 16), char_of (unat v div 2 ^ 8), char_of (unat v)]"

definition get_uint32 :: "bytes \<Rightarrow> u32" where
  "get_uint32 h = of_nat (byte (h ! 0) * 2 ^ 24 + byte (h ! 1) * 2 ^ 16 + byte (h ! 2) * 2 ^ 8 + byte (h ! 3))"

text \<open>\<^verbatim>\<open>io.ReadFull\<close>: fails when fewer bytes remain; it has consumed them all the same.\<close>

definition read_full :: "nat \<Rightarrow> bytes \<Rightarrow> bytes option \<times> bytes" where
  "read_full n s = (if length s < n then (None, []) else (Some (take n s), drop n s))"

definition readFrame :: "bytes \<Rightarrow> nat \<Rightarrow> (frame_error + bytes) \<times> bytes" where
  "readFrame reader maximumSize =
     (case read_full 4 reader of
        (None, r) \<Rightarrow> (Inl FrameHeader, r)
      | (Some header, r) \<Rightarrow>
         (let len = unat (get_uint32 header) in
          if len = 0 then (Inl FrameEmpty, r)
          else if len > maximumSize then (Inl FrameTooLarge, r)
          else case read_full len r of
            (None, r2) \<Rightarrow> (Inl FramePayload, r2)
          | (Some payload, r2) \<Rightarrow> (Inr payload, r2)))"

text \<open>The bytes \<open>writeFrame\<close> hands to the writer.\<close>

definition writeFrame :: "bytes \<Rightarrow> nat \<Rightarrow> frame_error + bytes" where
  "writeFrame payload maximumSize =
     (if length payload = 0 then Inl FrameEmpty
      else if length payload > maximumSize then Inl FrameTooLarge
      else Inr (put_uint32 (of_nat (length payload)) @ payload))"

lemma get_put_uint32: "get_uint32 (put_uint32 v) = v"
proof -
  let ?n = "unat v"
  have n: "?n < 2 ^ 32" using unsigned_less [of v] by simp
  have a: "?n div 16777216 mod 256 = ?n div 16777216" using n by (simp add: less_mult_imp_div_less)
  have b: "?n div 65536 = ?n div 16777216 * 256 + ?n div 65536 mod 256"
    using div_mult_mod_eq [of "?n div 65536" 256] by (simp add: div_mult2_eq [symmetric])
  have c: "?n div 256 = ?n div 65536 * 256 + ?n div 256 mod 256"
    using div_mult_mod_eq [of "?n div 256" 256] by (simp add: div_mult2_eq [symmetric])
  have d: "?n = ?n div 256 * 256 + ?n mod 256" by simp
  have "?n div 16777216 mod 256 * 16777216 + ?n div 65536 mod 256 * 65536 + ?n div 256 mod 256 * 256 + ?n mod 256 = ?n"
    using a b c d by linarith
  then have "byte (put_uint32 v ! 0) * 2 ^ 24 + byte (put_uint32 v ! 1) * 2 ^ 16 + byte (put_uint32 v ! 2) * 2 ^ 8
      + byte (put_uint32 v ! 3) = ?n"
    using a by (simp add: put_uint32_def byte_def)
  then show ?thesis unfolding get_uint32_def by (simp only:) simp
qed

lemma length_put_uint32 [simp]: "length (put_uint32 v) = 4"
  by (simp add: put_uint32_def)

lemma read_full_append [simp]: "length a = n \<Longrightarrow> read_full n (a @ b) = (Some a, b)"
  by (simp add: read_full_def)

text \<open>A frame that was written is read back, and reading leaves what follows it.\<close>

lemma read_written:
  assumes "writeFrame payload m = Inr f" and "m \<le> maximumSize" and "m < 2 ^ 32"
  shows "readFrame (f @ rest) maximumSize = (Inr payload, rest)"
proof -
  have p: "payload \<noteq> []" "length payload \<le> m" and f: "f = put_uint32 (of_nat (length payload)) @ payload"
    using assms(1) by (auto simp: writeFrame_def split: if_splits)
  have u: "unat (of_nat (length payload) :: u32) = length payload"
    using p assms(3) by (simp add: unat_of_nat)
  show ?thesis using p assms(2) by (simp add: readFrame_def f get_put_uint32 u)
qed

text \<open>A sequence of messages on one stream.\<close>

fun read_frames :: "nat \<Rightarrow> bytes \<Rightarrow> nat \<Rightarrow> (frame_error + bytes) list" where
  "read_frames 0 s m = []"
| "read_frames (Suc k) s m =
     (case readFrame s m of
        (Inl e, _) \<Rightarrow> [Inl e]
      | (Inr p, r) \<Rightarrow> Inr p # read_frames k r m)"

definition write_frames :: "bytes list \<Rightarrow> nat \<Rightarrow> bytes option" where
  "write_frames ps m = map_option concat (those (map (\<lambda>p. case writeFrame p m of Inl _ \<Rightarrow> None | Inr f \<Rightarrow> Some f) ps))"

lemma read_write_frames:
  assumes "write_frames ps m = Some s" and "m < 2 ^ 32"
  shows "read_frames (length ps) (s @ rest) m = map Inr ps"
  using assms
proof (induction ps arbitrary: s)
  case (Cons p ps)
  obtain f s' where f: "writeFrame p m = Inr f" "write_frames ps m = Some s'" "s = f @ s'"
    using Cons.prems(1) by (auto simp: write_frames_def split: sum.splits option.splits)
  then show ?case
    using read_written [OF f(1) order_refl Cons.prems(2), of "s' @ rest"] Cons.IH [OF f(2) Cons.prems(2)] by simp
qed simp

text \<open>
  Messages written one after another on a private pipe or socket are read back in order and
  intact, whatever bytes follow them, at both message size limits of the protocol.
\<close>

lemma frames_round_trip:
  assumes "m = maximumControlMessageSize \<or> m = maximumResultMessageSize"
    and "write_frames ps m = Some s"
  shows "read_frames (length ps) (s @ rest) m = map Inr ps"
  by (rule read_write_frames [OF assms(2)])
     (use assms(1) in \<open>auto simp: maximumControlMessageSize_def maximumResultMessageSize_def
        maximumOutputBytes_def maximumExtractionBytes_def\<close>)

lemma frames_round_trip_witness:
  "\<exists>s. write_frames [''start'', ''run''] maximumControlMessageSize = Some s \<and>
     read_frames 2 (s @ ''tail'') maximumControlMessageSize = [Inr ''start'', Inr ''run'']"
proof -
  obtain s where s: "write_frames [''start'', ''run''] maximumControlMessageSize = Some s"
    by (simp add: write_frames_def writeFrame_def maximumControlMessageSize_def)
  from frames_round_trip [OF disjI1 [OF refl] s, of "''tail''"] s show ?thesis by (simp add: numeral_2_eq_2)
qed

text \<open>
  Reading never returns a message that is empty or over the limit it was called with, and it
  returns exactly the bytes that follow the four-byte length.
\<close>

lemma read_frame_bounded:
  assumes "readFrame s m = (Inr p, rest)"
  shows "p \<noteq> [] \<and> length p \<le> m \<and> length p = unat (get_uint32 (take 4 s)) \<and> s = take 4 s @ p @ rest"
proof -
  let ?n = "unat (get_uint32 (take 4 s))"
  have h: "\<not> length s < 4" "?n \<noteq> 0" "?n \<le> m" "\<not> length (drop 4 s) < ?n"
    "p = take ?n (drop 4 s)" "rest = drop ?n (drop 4 s)"
    using assms by (auto simp: readFrame_def read_full_def Let_def split: if_splits)
  have "p @ rest = drop 4 s" unfolding h(5,6) by (rule append_take_drop_id)
  then have "s = take 4 s @ p @ rest" by (metis append_take_drop_id)
  then show ?thesis using h by auto
qed

end
