(* ===== verification/Protocol.thy ===== *)
theory Protocol
  imports Identifiers
begin

text \<open>
  The data types of sandboxsupervisor/protocol.go that cross component boundaries, with the
  constants of the protocol. Go's string-typed enumerations (\<open>ErrorCode\<close>,
  \<open>ExecutionTerminalReason\<close>, \<open>OutputExtractionError\<close>) stay strings: a peer may send any value, and
  the checks that reject the others are part of the model.
\<close>

section \<open>Constants\<close>

definition RequestSchemaV1 :: bytes where "RequestSchemaV1 = ''sandbox-supervisor-request/v1''"
definition ResponseSchemaV1 :: bytes where "ResponseSchemaV1 = ''sandbox-supervisor-response/v1''"

definition OperationCreateSandbox :: bytes where "OperationCreateSandbox = ''create_sandbox''"
definition OperationExecutePython :: bytes where "OperationExecutePython = ''execute_python''"
definition OperationDestroySandbox :: bytes where "OperationDestroySandbox = ''destroy_sandbox''"
definition OperationGetExecutionResult :: bytes where "OperationGetExecutionResult = ''get_execution_result''"
definition OperationInspectSandbox :: bytes where "OperationInspectSandbox = ''inspect_sandbox''"

lemmas operation_defs = OperationCreateSandbox_def OperationExecutePython_def
  OperationDestroySandbox_def OperationGetExecutionResult_def OperationInspectSandbox_def

datatype ErrorCode =
    ErrorCodeProfileNotFound
  | ErrorCodeUnsupportedVersion
  | ErrorCodeUnknownOperation
  | ErrorCodeMalformedRequest
  | ErrorCodeInvalidReference
  | ErrorCodeRequestTooLarge
  | ErrorCodeOperationUnavailable
  | ErrorCodeCreationFailed
  | ErrorCodeSandboxExists
  | ErrorCodeIdentityRangeExhausted
  | ErrorCodeSandboxNotFound
  | ErrorCodeSandboxBusy
  | ErrorCodeExecutionFailed
  | ErrorCodeCleanupFailed
  | ErrorCodeExecutionExists
  | ErrorCodeResultNotFound
  | ErrorCodeResultNotReady
  | ErrorCodeResultCapacity

definition OutputUnsafe :: bytes where "OutputUnsafe = ''unsafe_output''"
definition OutputLimit :: bytes where "OutputLimit = ''output_limit''"
definition OutputUnavailable :: bytes where "OutputUnavailable = ''output_unavailable''"

definition ExecutionExited :: bytes where "ExecutionExited = ''exited''"
definition ExecutionMemoryLimit :: bytes where "ExecutionMemoryLimit = ''memory_limit''"
definition ExecutionPIDLimit :: bytes where "ExecutionPIDLimit = ''pids_limit''"
definition ExecutionTimedOut :: bytes where "ExecutionTimedOut = ''timed_out''"

lemmas output_error_defs = OutputUnsafe_def OutputLimit_def OutputUnavailable_def
lemmas terminal_reason_defs = ExecutionExited_def ExecutionMemoryLimit_def ExecutionPIDLimit_def ExecutionTimedOut_def

section \<open>Results\<close>

record ExecutionResourceUsage =
  OOMEvents :: u64
  PIDLimitEvents :: u64
  CPUUsec :: u64
  CPUThrottledPeriods :: u64
  CPUThrottledUsec :: u64

record ExtractedOutput =
  Path :: bytes
  Size :: int
  SHA256 :: bytes
  Content :: bytes

record ExecutePythonResult =
  r_ExecutionID :: bytes
  ExitCode :: int
  Stdout :: bytes
  Stderr :: bytes
  Truncated :: bool
  StdoutTruncated :: bool
  StderrTruncated :: bool
  TerminalReason :: bytes
  ResourceUsage :: ExecutionResourceUsage
  Outputs :: "ExtractedOutput list"
  OutputError :: bytes

text \<open>\<^verbatim>\<open>hex.EncodeToString\<close> and \<^verbatim>\<open>fmt.Sprintf("%x", digest)\<close>: two lowercase digits per byte.\<close>

definition hex_digit :: "nat \<Rightarrow> char" where
  "hex_digit n = (if n < 10 then char_of (48 + n) else char_of (87 + n))"

definition hex_encode :: "bytes \<Rightarrow> bytes" where
  "hex_encode s = concat (map (\<lambda>c. [hex_digit (byte c div 16), hex_digit (byte c mod 16)]) s)"

lemma length_hex_encode [simp]: "length (hex_encode s) = 2 * length s"
  by (induction s) (auto simp: hex_encode_def)

text \<open>\<^verbatim>\<open>hex.DecodeString\<close>: pairs of digits of either case; an odd length or another character fails.\<close>

definition hex_value :: "char \<Rightarrow> nat option" where
  "hex_value c =
     (if is_digit c then Some (byte c - 48)
      else if is_hex_letter c then Some (byte c - 87)
      else if CHR ''A'' \<le> c \<and> c \<le> CHR ''F'' then Some (byte c - 55) else None)"

fun hex_decode :: "bytes \<Rightarrow> bytes option" where
  "hex_decode [] = Some []"
| "hex_decode [c] = None"
| "hex_decode (c # d # s) =
     (case (hex_value c, hex_value d, hex_decode s) of
        (Some h, Some l, Some r) \<Rightarrow> Some (char_of (h * 16 + l) # r)
      | _ \<Rightarrow> None)"

lemma hex_value_digit_all: "list_all (\<lambda>n. hex_value (hex_digit n) = Some n \<and> hex_digit n \<noteq> CHR '','') [0..<16]"
  by code_simp

lemma hex_value_digit:
  assumes "n < 16" shows "hex_value (hex_digit n) = Some n" "hex_digit n \<noteq> CHR '',''"
  using hex_value_digit_all assms by (auto simp: list_all_iff)

lemma byte_nibbles: "byte c div 16 < 16"
proof -
  have "byte c < 16 * 16" unfolding byte_def using nat_of_char_less_256 [of c] by simp
  then show ?thesis by (rule less_mult_imp_div_less)
qed

lemma hex_decode_encode [simp]: "hex_decode (hex_encode s) = Some s"
proof (induction s)
  case (Cons c s)
  have "char_of (byte c div 16 * 16 + byte c mod 16) = c" unfolding div_mult_mod_eq by (simp add: byte_def)
  then show ?case using Cons hex_value_digit(1) [OF byte_nibbles [of c]] hex_value_digit(1) [of "byte c mod 16"]
    by (simp add: hex_encode_def)
qed (simp add: hex_encode_def)

lemma hex_encode_no_comma: "CHR '','' \<notin> set (hex_encode s)"
proof -
  have "hex_digit (byte c div 16) \<noteq> CHR '',''" "hex_digit (byte c mod 16) \<noteq> CHR '',''" for c
    using hex_value_digit(2) byte_nibbles [of c] by simp_all
  then show ?thesis by (auto simp: hex_encode_def) metis+
qed

end
