(* ===== verification/Budgets.thy ===== *)
theory Budgets
  imports Framing Protocol
begin

text \<open>
  The trusted startup policy of the Sandbox Supervisor: resource_budget_linux.go,
  storage_budget_linux.go, extraction_budget_linux.go, and the subordinate identity range of
  creation_linux.go. Go's \<open>int64\<close> and \<open>int\<close> quantities are integers with their bounds stated;
  the subordinate identifiers are Go's 64-bit \<open>uint\<close> and stay words, because their check is about
  wrap-around.
\<close>

section \<open>Budgets\<close>

record StorageBudget =
  WorkspaceBytes :: int
  WorkspaceFiles :: int
  TemporaryBytes :: int
  TemporaryFiles :: int

record ExtractionBudget =
  FileBytes :: int
  ExecutionBytes :: int
  SandboxBytes :: int
  Files :: int

record ResourceBudget =
  CPUMillis :: int
  MemoryBytes :: int
  SwapBytes :: int
  PIDs :: int
  ExecutionTimeout :: int
  StdoutBytes :: int
  StderrBytes :: int
  Storage :: StorageBudget
  Extraction :: ExtractionBudget

abbreviation MaxInt64 :: int where "MaxInt64 \<equiv> 9223372036854775807"

definition DefaultResourceBudget :: ResourceBudget where
  "DefaultResourceBudget = \<lparr>CPUMillis = 2000, MemoryBytes = GiB, SwapBytes = 0, PIDs = 64,
     ExecutionTimeout = 60 * 1000000000, StdoutBytes = MiB, StderrBytes = MiB,
     Storage = \<lparr>WorkspaceBytes = 512 * MiB, WorkspaceFiles = 5000, TemporaryBytes = 16 * MiB, TemporaryFiles = 1023\<rparr>,
     Extraction = \<lparr>FileBytes = 20 * MiB, ExecutionBytes = 32 * MiB, SandboxBytes = 100 * MiB, Files = 16\<rparr>\<rparr>"

definition validOutputBudget :: "int \<Rightarrow> bool" where
  "validOutputBudget b \<longleftrightarrow> b > 0 \<and> b \<le> int maximumOutputBytes"

text \<open>\<open>page\<close> is the host's memory page size; Go's \<open>%\<close> of a nonnegative number is \<open>mod\<close>, and the
  sign tests come first.\<close>

definition storage_validate :: "int \<Rightarrow> StorageBudget \<Rightarrow> bool" where
  "storage_validate page b =
     (if WorkspaceBytes b \<le> 0 \<or> WorkspaceBytes b mod page \<noteq> 0 \<or> TemporaryBytes b \<le> 0 \<or> TemporaryBytes b mod page \<noteq> 0
      then False
      else if WorkspaceFiles b \<le> 0 \<or> WorkspaceFiles b > MaxInt64 div 1024 - 3
           \<or> TemporaryFiles b \<le> 0 \<or> TemporaryFiles b > MaxInt64 div 1024 - 3 then False
      else True)"

definition extraction_validate :: "ExtractionBudget \<Rightarrow> bool" where
  "extraction_validate b =
     (if FileBytes b \<le> 0 \<or> FileBytes b > int maximumExtractionBytes \<or>
         ExecutionBytes b \<le> 0 \<or> ExecutionBytes b > int maximumExtractionBytes \<or>
         SandboxBytes b \<le> 0 \<or> Files b \<le> 0 \<or> Files b > int maximumExtractedFiles then False else True)"

definition budget_validate :: "int \<Rightarrow> ResourceBudget \<Rightarrow> bool" where
  "budget_validate page b =
     (if CPUMillis b < 10 \<or> CPUMillis b > MaxInt64 div 100 then False
      else if MemoryBytes b \<le> 0 \<or> MemoryBytes b mod page \<noteq> 0 \<or> SwapBytes b < 0 \<or> SwapBytes b mod page \<noteq> 0 then False
      else if PIDs b \<le> 0 then False
      else if ExecutionTimeout b \<le> 0 then False
      else if \<not> validOutputBudget (StdoutBytes b) \<or> \<not> validOutputBudget (StderrBytes b) then False
      else if \<not> storage_validate page (Storage b) then False
      else extraction_validate (Extraction b))"

definition allowance :: "ExtractionBudget \<Rightarrow> bytes list \<Rightarrow> int \<Rightarrow> int" where
  "allowance b paths used =
     min (ExecutionBytes b) (min (SandboxBytes b - used) (int (length paths) * FileBytes b))"

text \<open>The quota the budget group is given for each 100 ms period (newSandboxCgroups).\<close>

definition cpu_quota :: "ResourceBudget \<Rightarrow> int" where
  "cpu_quota b = CPUMillis b * 100"

lemma allowance_bounds:
  assumes "extraction_validate b" and "0 \<le> used" and "used \<le> SandboxBytes b"
  shows "0 \<le> allowance b paths used" and "allowance b paths used \<le> int maximumExtractionBytes"
    and "allowance b paths used + used \<le> SandboxBytes b"
  using assms by (auto simp: allowance_def extraction_validate_def split: if_splits)

lemma budget_output_bounds:
  assumes "budget_validate page b"
  shows "0 < StdoutBytes b" "StdoutBytes b \<le> int maximumOutputBytes"
    "0 < StderrBytes b" "StderrBytes b \<le> int maximumOutputBytes"
    "extraction_validate (Extraction b)"
  using assms by (auto simp: budget_validate_def validOutputBudget_def split: if_splits)

text \<open>
  Every quantity the Supervisor computes from an accepted budget fits a signed 64-bit integer
  (the CPU quota, the inode counts with their metadata), and one Execution's reservation of output
  and extraction bytes always fits the retained-result store; the default budget is accepted.
\<close>

lemma accepted_budget_fits:
  assumes "budget_validate page b" and "0 \<le> used" and "used \<le> SandboxBytes (Extraction b)"
  shows "int64_ok (cpu_quota b) \<and> 1000 \<le> cpu_quota b \<and>
    int64_ok ((WorkspaceFiles (Storage b) + 3) * 1024) \<and> int64_ok ((TemporaryFiles (Storage b) + 1) * 1024) \<and>
    0 \<le> allowance (Extraction b) paths used \<and> used + allowance (Extraction b) paths used \<le> SandboxBytes (Extraction b) \<and>
    StdoutBytes b + StderrBytes b + allowance (Extraction b) paths used \<le> 48 * MiB"
proof -
  note out = budget_output_bounds [OF assms(1)] and al = allowance_bounds [OF budget_output_bounds(5) [OF assms(1)] assms(2,3), of paths]
  have cpu: "10 \<le> CPUMillis b" "CPUMillis b \<le> 92233720368547758"
    and files: "0 < WorkspaceFiles (Storage b)" "WorkspaceFiles (Storage b) \<le> 9007199254740988"
      "0 < TemporaryFiles (Storage b)" "TemporaryFiles (Storage b) \<le> 9007199254740988"
    using assms(1) by (auto simp: budget_validate_def storage_validate_def split: if_splits)
  show ?thesis using cpu files out al
    by (simp add: int64_ok_def cpu_quota_def maximumOutputBytes_def maximumExtractionBytes_def)
qed

lemma accepted_budget_fits_witness:
  "budget_validate 4096 DefaultResourceBudget \<and> cpu_quota DefaultResourceBudget = 200000 \<and>
   allowance (Extraction DefaultResourceBudget) [''a'', ''b''] 0 = 32 * MiB \<and>
   StdoutBytes DefaultResourceBudget + StderrBytes DefaultResourceBudget +
     allowance (Extraction DefaultResourceBudget) [''a'', ''b''] 0 \<le> 48 * MiB"
proof -
  have v: "budget_validate 4096 DefaultResourceBudget"
    by (simp add: budget_validate_def DefaultResourceBudget_def validOutputBudget_def storage_validate_def
        extraction_validate_def maximumOutputBytes_def maximumExtractionBytes_def maximumExtractedFiles_def)
  have s: "(0 :: int) \<le> SandboxBytes (Extraction DefaultResourceBudget)" by (simp add: DefaultResourceBudget_def)
  from accepted_budget_fits [OF v order_refl s, of "[''a'', ''b'']"] v show ?thesis
    by (simp add: allowance_def DefaultResourceBudget_def cpu_quota_def)
qed

section \<open>Subordinate identities\<close>

definition sandboxIdentityCount :: u64 where "sandboxIdentityCount = 65536"

record ServerConfig =
  SubUIDStart :: u64
  SubGIDStart :: u64
  SubIDCount :: u64
  Budget :: ResourceBudget

definition maximumID :: u64 where "maximumID = 4294967294"

definition validateSubordinateIDs :: "nat \<Rightarrow> ServerConfig \<Rightarrow> bool" where
  "validateSubordinateIDs euid config =
     (if SubUIDStart config = 0 \<and> SubGIDStart config = 0 \<and> SubIDCount config = 0 then True
      else if euid \<noteq> 0 then False
      else if SubUIDStart config = 0 \<or> SubGIDStart config = 0 \<or> SubIDCount config = 0
           \<or> SubIDCount config mod sandboxIdentityCount \<noteq> 0 then False
      else \<not> (\<exists>start \<in> set [SubUIDStart config, SubGIDStart config].
             start > maximumID \<or> SubIDCount config - 1 > maximumID - start))"

definition enabled :: "ServerConfig \<Rightarrow> bool" where
  "enabled config \<longleftrightarrow> SubIDCount config \<noteq> 0"

text \<open>The identity block a Sandbox maps: the host identifiers of its UID or GID mapping.\<close>

definition identity_block :: "u64 \<Rightarrow> u64 \<Rightarrow> nat set" where
  "identity_block start offset = {unat (start + offset) ..< unat (start + offset) + unat sandboxIdentityCount}"

lemma unat_mod_dvd:
  "(c :: u64) mod sandboxIdentityCount = 0 \<longleftrightarrow> 65536 dvd unat c"
  by (simp add: sandboxIdentityCount_def unat_mod_distrib word_unat_eq_iff dvd_eq_mod_eq_0)

lemma start_bound:
  assumes "\<not> start > maximumID" and "\<not> count - 1 > maximumID - start" and "count \<noteq> 0"
  shows "unat start + unat count \<le> 4294967295"
proof -
  have "unat (count - 1) = unat count - 1" using assms(3) by (simp add: unat_minus_one)
  moreover have "unat (maximumID - start) = 4294967294 - unat start"
    using assms(1) by (simp add: unat_sub maximumID_def not_less word_le_nat_alt)
  moreover have "unat (count - 1) \<le> unat (maximumID - start)" using assms(2) by (simp add: not_less word_le_nat_alt)
  moreover have "unat start \<le> 4294967294" using assms(1) by (simp add: not_less word_le_nat_alt maximumID_def)
  moreover have "0 < unat count" using assms(3) by (simp add: unat_gt_0)
  ultimately show ?thesis by linarith
qed

lemma subordinate_bound:
  assumes "validateSubordinateIDs euid config" and "enabled config"
  shows "unat (SubUIDStart config) + unat (SubIDCount config) \<le> 4294967295"
    and "unat (SubGIDStart config) + unat (SubIDCount config) \<le> 4294967295"
    and "65536 dvd unat (SubIDCount config)" and "SubUIDStart config \<noteq> 0" and "SubGIDStart config \<noteq> 0"
  using assms start_bound [of "SubUIDStart config" "SubIDCount config"] start_bound [of "SubGIDStart config" "SubIDCount config"]
  by (auto simp: validateSubordinateIDs_def enabled_def unat_mod_dvd split: if_splits)

end
