(* ===== verification/ResultStore.thy ===== *)
theory ResultStore
  imports Budgets "HOL-Library.AList"
begin

text \<open>
  sandboxsupervisor/results_linux.go: the retained results of Executions. Every operation runs under
  the store's mutex, so it is one step. The Go map is an association list with distinct keys. A slot
  is reserved before an Execution starts, and either released or turned into an immutable snapshot
  when it ends.
\<close>

section \<open>State and operations\<close>

definition maximumRetainedExecutionResults :: nat where "maximumRetainedExecutionResults = 64"
definition maximumRetainedOutputBytes :: int where "maximumRetainedOutputBytes = 128 * MiB"

text \<open>A reference is the pair of a Sandbox and an Execution identifier.\<close>

type_synonym executionResultReference = "bytes \<times> bytes"

record executionResultSlot =
  slotBytes :: int
  extractionReservedBytes :: int
  slotResult :: "ExecutePythonResult option"

record executionResultStore =
  slots :: "(executionResultReference \<times> executionResultSlot) list"
  reservedBytes :: int

definition empty_store :: executionResultStore where
  "empty_store = \<lparr>slots = [], reservedBytes = 0\<rparr>"

definition extractedOutputBytes :: "ExtractedOutput list \<Rightarrow> int" where
  "extractedOutputBytes outputs = sum_list (map (\<lambda>output. int (length (Content output))) outputs)"

definition reserve_result :: "executionResultStore \<Rightarrow> executionResultReference \<Rightarrow> int \<Rightarrow> int
    \<Rightarrow> ErrorCode option \<times> executionResultStore" where
  "reserve_result store ref outputBytes extractionBytes =
     (let bytes = outputBytes + extractionBytes in
      if map_of (slots store) ref \<noteq> None then (Some ErrorCodeExecutionExists, store)
      else if length (slots store) \<ge> maximumRetainedExecutionResults
           \<or> bytes > maximumRetainedOutputBytes - reservedBytes store then (Some ErrorCodeResultCapacity, store)
      else (None, store\<lparr>slots := (ref, \<lparr>slotBytes = bytes, extractionReservedBytes = extractionBytes, slotResult = None\<rparr>) # slots store,
                        reservedBytes := reservedBytes store + bytes\<rparr>))"

definition finish_result :: "executionResultStore \<Rightarrow> executionResultReference \<Rightarrow> ExecutePythonResult option
    \<Rightarrow> executionResultStore" where
  "finish_result store ref result =
     (case map_of (slots store) ref of
        None \<Rightarrow> store
      | Some slot \<Rightarrow>
         (case result of
            None \<Rightarrow> store\<lparr>reservedBytes := reservedBytes store - slotBytes slot, slots := AList.delete ref (slots store)\<rparr>
          | Some snapshot \<Rightarrow>
             (let unused = extractionReservedBytes slot - extractedOutputBytes (Outputs snapshot) in
              store\<lparr>reservedBytes := reservedBytes store - unused,
                    slots := AList.update ref \<lparr>slotBytes = slotBytes slot - unused, extractionReservedBytes = 0,
                      slotResult = Some snapshot\<rparr> (slots store)\<rparr>)))"

definition read_result :: "executionResultStore \<Rightarrow> executionResultReference \<Rightarrow> ErrorCode + ExecutePythonResult" where
  "read_result store ref =
     (case map_of (slots store) ref of
        None \<Rightarrow> Inl ErrorCodeResultNotFound
      | Some slot \<Rightarrow>
         (case slotResult slot of
            None \<Rightarrow> Inl ErrorCodeResultNotReady
          | Some snapshot \<Rightarrow> Inr snapshot))"

text \<open>The loop over the slots deletes those of one Sandbox.\<close>

definition removeSandbox :: "executionResultStore \<Rightarrow> bytes \<Rightarrow> executionResultStore" where
  "removeSandbox store sandboxID =
     store\<lparr>reservedBytes := reservedBytes store -
             sum_list (map (\<lambda>(r, slot). slotBytes slot) (filter (\<lambda>(r, slot). fst r = sandboxID) (slots store))),
           slots := filter (\<lambda>(r, slot). fst r \<noteq> sandboxID) (slots store)\<rparr>"

section \<open>Accounting\<close>

definition total_bytes :: "(executionResultReference \<times> executionResultSlot) list \<Rightarrow> int" where
  "total_bytes ss = sum_list (map (\<lambda>(r, slot). slotBytes slot) ss)"

definition slot_ok :: "executionResultSlot \<Rightarrow> bool" where
  "slot_ok slot \<longleftrightarrow> 0 \<le> extractionReservedBytes slot \<and> extractionReservedBytes slot \<le> slotBytes slot"

definition store_ok :: "executionResultStore \<Rightarrow> bool" where
  "store_ok store \<longleftrightarrow> distinct (map fst (slots store)) \<and> (\<forall>(r, slot) \<in> set (slots store). slot_ok slot) \<and>
     reservedBytes store = total_bytes (slots store) \<and>
     length (slots store) \<le> maximumRetainedExecutionResults \<and> reservedBytes store \<le> maximumRetainedOutputBytes"

lemma total_bytes_simps [simp]:
  "total_bytes [] = 0" "total_bytes ((r, s) # ss) = slotBytes s + total_bytes ss"
  by (simp_all add: total_bytes_def)

lemma total_bytes_delete:
  "distinct (map fst ss) \<Longrightarrow> map_of ss r = Some s \<Longrightarrow> total_bytes (AList.delete r ss) = total_bytes ss - slotBytes s"
proof (induction ss)
  case (Cons a ss)
  obtain r' s' where a: "a = (r', s')" by (cases a)
  show ?case
  proof (cases "r' = r")
    case True
    then have "AList.delete r ss = ss" using Cons.prems(1) a by (intro delete_id) simp
    then show ?thesis using True Cons.prems(2) a by (simp add: AList.delete_eq)
  next
    case False
    then show ?thesis using Cons a by (simp add: AList.delete_eq)
  qed
qed simp

lemma total_bytes_update:
  "distinct (map fst ss) \<Longrightarrow> map_of ss r = Some s \<Longrightarrow> total_bytes (AList.update r v ss) = total_bytes ss - slotBytes s + slotBytes v"
  by (induction ss) (auto split: if_splits)

lemma total_bytes_filter:
  "total_bytes (filter P ss) = total_bytes ss - total_bytes (filter (\<lambda>x. \<not> P x) ss)"
  unfolding total_bytes_def using sum_list_filter_split [of "\<lambda>(r, slot). slotBytes slot" ss P] by simp

lemma length_update_in: "r \<in> fst ` set ss \<Longrightarrow> length (AList.update r v ss) = length ss"
  by (induction ss) auto

lemma map_of_dom: "map_of ss r = Some s \<Longrightarrow> r \<in> fst ` set ss"
  by (metis image_eqI map_of_SomeD fst_conv)

lemma set_update_sub: "set (AList.update r v ss) \<subseteq> insert (r, v) (set ss)"
  by (induction ss) auto

lemma set_delete_sub: "set (AList.delete r ss) \<subseteq> set ss"
  by (auto simp: AList.delete_eq)

lemma total_nonneg: "\<forall>(r, slot) \<in> set ss. slot_ok slot \<Longrightarrow> 0 \<le> total_bytes ss"
  by (induction ss) (auto simp: slot_ok_def)

lemma reserve_store_ok:
  assumes "store_ok store" and "0 \<le> outputBytes" and "0 \<le> extractionBytes"
  shows "store_ok (snd (reserve_result store ref outputBytes extractionBytes))"
  using assms
  by (auto simp: reserve_result_def Let_def store_ok_def slot_ok_def map_of_eq_None_iff)

lemma finish_store_ok:
  assumes "store_ok store"
    and "\<And>slot snapshot. map_of (slots store) ref = Some slot \<Longrightarrow> result = Some snapshot \<Longrightarrow>
      extractedOutputBytes (Outputs snapshot) \<le> extractionReservedBytes slot"
  shows "store_ok (finish_result store ref result)"
proof (cases "map_of (slots store) ref")
  case None
  then show ?thesis using assms(1) by (simp add: finish_result_def)
next
  case (Some slot)
  have d: "distinct (map fst (slots store))" and all: "\<forall>(r, s) \<in> set (slots store). slot_ok s"
    and sum: "reservedBytes store = total_bytes (slots store)"
    and len: "length (slots store) \<le> maximumRetainedExecutionResults" and cap: "reservedBytes store \<le> maximumRetainedOutputBytes"
    using assms(1) by (auto simp: store_ok_def)
  have so: "slot_ok slot" using all map_of_SomeD [OF Some] by auto
  show ?thesis
  proof (cases result)
    case None
    have "length (AList.delete ref (slots store)) \<le> length (slots store)" by (rule length_delete_le)
    then show ?thesis
      using None Some d all sum len cap so set_delete_sub [of ref "slots store"]
      by (auto simp: finish_result_def store_ok_def total_bytes_delete [OF d Some] slot_ok_def distinct_delete)
  next
    case (Some snapshot)
    note hit = \<open>map_of (slots store) ref = Some slot\<close>
    let ?x = "extractedOutputBytes (Outputs snapshot)"
    let ?new = "\<lparr>slotBytes = slotBytes slot - (extractionReservedBytes slot - ?x), extractionReservedBytes = 0, slotResult = Some snapshot\<rparr>"
    have x: "0 \<le> ?x" "?x \<le> extractionReservedBytes slot"
      using assms(2) [OF hit Some] by (auto simp: extractedOutputBytes_def intro!: sum_list_nonneg)
    have "slot_ok ?new" using x so by (simp add: slot_ok_def)
    moreover have "total_bytes (AList.update ref ?new (slots store)) = total_bytes (slots store) - (extractionReservedBytes slot - ?x)"
      using total_bytes_update [OF d hit, of ?new] by simp
    moreover have "length (AList.update ref ?new (slots store)) = length (slots store)"
      by (rule length_update_in [OF map_of_dom [OF hit]])
    ultimately show ?thesis
      using Some hit d all sum len cap x set_update_sub [of ref ?new "slots store"]
      by (auto simp: finish_result_def store_ok_def Let_def distinct_update)
  qed
qed

lemma remove_store_ok:
  assumes "store_ok store" shows "store_ok (removeSandbox store sb)"
proof -
  let ?keep = "\<lambda>(r :: executionResultReference, slot :: executionResultSlot). fst r \<noteq> sb"
  have "(\<lambda>x. \<not> ?keep x) = (\<lambda>(r, slot). fst r = sb)" by auto
  then have t: "total_bytes (filter ?keep (slots store)) =
      total_bytes (slots store) - total_bytes (filter (\<lambda>(r, slot). fst r = sb) (slots store))"
    using total_bytes_filter [of ?keep "slots store"] by simp
  have "0 \<le> total_bytes (filter (\<lambda>(r, slot). fst r = sb) (slots store))"
    using assms by (intro total_nonneg) (auto simp: store_ok_def)
  moreover have "length (filter ?keep (slots store)) \<le> maximumRetainedExecutionResults"
    using assms by (auto simp: store_ok_def intro: order_trans [OF length_filter_le])
  ultimately show ?thesis
    using assms t by (auto simp: removeSandbox_def store_ok_def total_bytes_def distinct_map_filter)
qed

section \<open>What the store promises\<close>

text \<open>
  The abstract ledger maps a reference to nothing (unknown), to a pending entry, or to a published
  result. The operations' effect on it is the contract the Supervisor relies on.
\<close>

type_synonym ledger = "executionResultReference \<rightharpoonup> ExecutePythonResult option"

definition ledger_of :: "executionResultStore \<Rightarrow> ledger" where
  "ledger_of store = (\<lambda>r. map_option slotResult (map_of (slots store) r))"

definition ledger_read :: "ledger \<Rightarrow> executionResultReference \<Rightarrow> ErrorCode + ExecutePythonResult" where
  "ledger_read l ref = (case l ref of
      None \<Rightarrow> Inl ErrorCodeResultNotFound
    | Some None \<Rightarrow> Inl ErrorCodeResultNotReady
    | Some (Some v) \<Rightarrow> Inr v)"

lemma ledger_read: "read_result store ref = ledger_read (ledger_of store) ref"
  by (simp add: read_result_def ledger_read_def ledger_of_def split: option.splits)

lemma ledger_reserve:
  "ledger_of (snd (reserve_result store ref ob xb)) =
     (if fst (reserve_result store ref ob xb) = None then (ledger_of store)(ref \<mapsto> None) else ledger_of store)"
  by (auto simp: reserve_result_def Let_def ledger_of_def fun_eq_iff)

lemma ledger_reserve_known:
  "ledger_of store ref \<noteq> None \<Longrightarrow> reserve_result store ref ob xb = (Some ErrorCodeExecutionExists, store)"
  by (auto simp: reserve_result_def ledger_of_def)

lemma ledger_finish:
  "ledger_of (finish_result store ref res) =
     (if ledger_of store ref = None then ledger_of store
      else (ledger_of store)(ref := map_option Some res))"
  by (auto simp: finish_result_def ledger_of_def fun_eq_iff Let_def update_conv' delete_conv' split: option.splits)

lemma map_of_filter_key: "map_of (filter (\<lambda>(r, s). P r) ss) r = (if P r then map_of ss r else None)"
  by (induction ss) auto

lemma ledger_remove:
  "ledger_of (removeSandbox store sb) = (\<lambda>r. if fst r = sb then None else ledger_of store r)"
  by (auto simp: removeSandbox_def ledger_of_def fun_eq_iff map_of_filter_key)

text \<open>The contract as an interface, and what every client can conclude from it.\<close>

locale result_ledger =
  fixes reserve :: "'st \<Rightarrow> executionResultReference \<Rightarrow> int \<Rightarrow> int \<Rightarrow> ErrorCode option \<times> 'st"
    and finish :: "'st \<Rightarrow> executionResultReference \<Rightarrow> ExecutePythonResult option \<Rightarrow> 'st"
    and lookup :: "'st \<Rightarrow> executionResultReference \<Rightarrow> ErrorCode + ExecutePythonResult"
    and remove :: "'st \<Rightarrow> bytes \<Rightarrow> 'st"
    and view :: "'st \<Rightarrow> ledger"
  assumes view_reserve: "view (snd (reserve st r ob xb)) = (if fst (reserve st r ob xb) = None then (view st)(r \<mapsto> None) else view st)"
    and reserve_known: "view st r \<noteq> None \<Longrightarrow> reserve st r ob xb = (Some ErrorCodeExecutionExists, st)"
    and view_finish: "view (finish st r res) = (if view st r = None then view st else (view st)(r := map_option Some res))"
    and view_remove: "view (remove st sb) = (\<lambda>r. if fst r = sb then None else view st r)"
    and lookup_view: "lookup st r = ledger_read (view st) r"
begin

lemma lookup_published: "lookup st r = Inr v \<longleftrightarrow> view st r = Some (Some v)"
  by (simp add: lookup_view ledger_read_def split: option.splits)

lemma publish_then_read:
  assumes "fst (reserve st r ob xb) = None"
  shows "lookup (finish (snd (reserve st r ob xb)) r (Some v)) r = Inr v"
  using assms by (simp add: lookup_published view_finish view_reserve)

lemma abandon_then_read:
  assumes "fst (reserve st r ob xb) = None"
  shows "lookup (finish (snd (reserve st r ob xb)) r None) r = Inl ErrorCodeResultNotFound"
  using assms by (simp add: lookup_view ledger_read_def view_finish view_reserve)

lemma reserve_keeps_published:
  assumes "lookup st r = Inr v" shows "lookup (snd (reserve st r' ob xb)) r = Inr v"
proof (cases "r' = r")
  case True
  then show ?thesis using assms reserve_known [of st r ob xb] by (simp add: lookup_published)
next
  case False
  then show ?thesis using assms by (simp add: lookup_published view_reserve)
qed

lemma finish_keeps_published:
  "lookup st r = Inr v \<Longrightarrow> view st r' \<noteq> Some (Some w) \<or> r' \<noteq> r \<Longrightarrow> view st r' = Some None \<Longrightarrow>
     lookup (finish st r' res) r = Inr v"
  by (auto simp: lookup_published view_finish)

lemma remove_keeps_published: "lookup st r = Inr v \<Longrightarrow> sb \<noteq> fst r \<Longrightarrow> lookup (remove st sb) r = Inr v"
  by (simp add: lookup_published view_remove)

lemma removed_is_unknown: "lookup (remove st (fst r)) r = Inl ErrorCodeResultNotFound"
  by (simp add: lookup_view ledger_read_def view_remove)

end

interpretation retained: result_ledger reserve_result finish_result read_result removeSandbox ledger_of
  by unfold_locales (simp_all add: ledger_reserve ledger_reserve_known ledger_finish ledger_remove ledger_read)

section \<open>Histories\<close>

text \<open>
  The steps the Supervisor makes: reservations of nonnegative sizes, the end of a pending Execution
  whose extracted bytes stay inside its reservation, and removals of the Sandboxes that satisfy
  \<open>gone\<close>.
\<close>

inductive store_step :: "(bytes \<Rightarrow> bool) \<Rightarrow> executionResultStore \<Rightarrow> executionResultStore \<Rightarrow> bool" for gone where
  reserving: "0 \<le> ob \<Longrightarrow> 0 \<le> xb \<Longrightarrow> store_step gone st (snd (reserve_result st ref ob xb))"
| finishing: "map_of (slots st) ref = Some slot \<Longrightarrow> slotResult slot = None \<Longrightarrow>
    (\<And>v. res = Some v \<Longrightarrow> extractedOutputBytes (Outputs v) \<le> extractionReservedBytes slot) \<Longrightarrow>
    store_step gone st (finish_result st ref res)"
| removing: "gone sb \<Longrightarrow> store_step gone st (removeSandbox st sb)"

inductive_cases store_stepE: "store_step gone st st'"

lemma store_step_ok: "store_step gone st st' \<Longrightarrow> store_ok st \<Longrightarrow> store_ok st'"
  by (induction rule: store_step.cases) (auto intro: reserve_store_ok finish_store_ok remove_store_ok)

lemma empty_store_ok: "store_ok empty_store"
  by (simp add: store_ok_def empty_store_def maximumRetainedExecutionResults_def maximumRetainedOutputBytes_def)

lemma store_run_ok: "(store_step gone)\<^sup>*\<^sup>* st st' \<Longrightarrow> store_ok st \<Longrightarrow> store_ok st'"
  by (induction rule: rtranclp_induct) (auto intro: store_step_ok)

lemma store_step_published:
  assumes "store_step gone st st'" and "\<not> gone (fst r)" and "read_result st r = Inr v"
  shows "read_result st' r = Inr v"
  using assms(1)
proof (cases rule: store_step.cases)
  case (finishing ref slot res)
  then have "ledger_of st ref = Some None" by (simp add: ledger_of_def)
  then show ?thesis using finishing(1) retained.finish_keeps_published [OF assms(3), of ref] by simp
next
  case (removing sb)
  then show ?thesis using retained.remove_keeps_published [OF assms(3), of sb] assms(2) by auto
qed (use retained.reserve_keeps_published [OF assms(3)] in simp)

text \<open>
  Over every history the store keeps at most 64 results, its byte counter equals the sum of
  what its slots hold, and it never exceeds 128 MiB.
\<close>

lemma retained_results_bounded:
  assumes "(store_step gone)\<^sup>*\<^sup>* empty_store st"
  shows "length (slots st) \<le> 64 \<and> reservedBytes st = total_bytes (slots st) \<and>
    0 \<le> reservedBytes st \<and> reservedBytes st \<le> 128 * MiB"
  using store_run_ok [OF assms empty_store_ok] total_nonneg [of "slots st"]
  by (auto simp: store_ok_def maximumRetainedExecutionResults_def maximumRetainedOutputBytes_def)

definition sample_reserved :: executionResultStore where
  "sample_reserved = snd (reserve_result empty_store (''sb'', ''e1'') (2 * MiB) (32 * MiB))"

definition sample_snapshot :: ExecutePythonResult where
  "sample_snapshot = \<lparr>r_ExecutionID = ''e1'', ExitCode = 0, Stdout = ''hi'', Stderr = [], Truncated = False,
     StdoutTruncated = False, StderrTruncated = False, TerminalReason = ExecutionExited,
     ResourceUsage = \<lparr>OOMEvents = 0, PIDLimitEvents = 0, CPUUsec = 1, CPUThrottledPeriods = 0, CPUThrottledUsec = 0\<rparr>,
     Outputs = [\<lparr>Path = ''a'', Size = 3, SHA256 = [], Content = ''abc''\<rparr>], OutputError = []\<rparr>"

lemma sample_reserved_slots:
  "slots sample_reserved = [((''sb'', ''e1''), \<lparr>slotBytes = 34 * MiB, extractionReservedBytes = 32 * MiB, slotResult = None\<rparr>)]"
  by (simp add: sample_reserved_def reserve_result_def empty_store_def Let_def maximumRetainedExecutionResults_def
      maximumRetainedOutputBytes_def)

lemma sample_published:
  "(store_step gone)\<^sup>*\<^sup>* empty_store (finish_result sample_reserved (''sb'', ''e1'') (Some sample_snapshot))"
proof -
  have "store_step gone empty_store sample_reserved" unfolding sample_reserved_def by (rule reserving) simp_all
  moreover have "store_step gone sample_reserved (finish_result sample_reserved (''sb'', ''e1'') (Some sample_snapshot))"
    by (rule finishing) (auto simp: sample_reserved_slots sample_snapshot_def extractedOutputBytes_def)
  ultimately show ?thesis by (metis rtranclp.simps)
qed

lemma retained_results_bounded_witness:
  "length (slots (finish_result sample_reserved (''sb'', ''e1'') (Some sample_snapshot))) \<le> 64 \<and>
   reservedBytes (finish_result sample_reserved (''sb'', ''e1'') (Some sample_snapshot)) = 2 * MiB + 3"
proof -
  let ?st = "finish_result sample_reserved (''sb'', ''e1'') (Some sample_snapshot)"
  have "total_bytes (slots ?st) = 2 * MiB + 3"
    by (simp add: finish_result_def sample_reserved_slots Let_def sample_snapshot_def extractedOutputBytes_def)
  with retained_results_bounded [OF sample_published] show ?thesis by simp
qed

text \<open>
  A published result is immutable: it reads the same after any history that does not remove its
  own Sandbox, whatever other Executions and Sandboxes do.
\<close>

lemma published_result_immutable:
  assumes "(store_step gone)\<^sup>*\<^sup>* st st'" and "\<not> gone (fst r)" and "read_result st r = Inr v"
  shows "read_result st' r = Inr v"
  using assms(1) by (induction rule: rtranclp_induct) (use assms store_step_published in blast)+

lemma published_result_immutable_witness:
  "read_result (removeSandbox (finish_result sample_reserved (''sb'', ''e1'') (Some sample_snapshot)) ''other'') (''sb'', ''e1'')
     = Inr sample_snapshot"
proof -
  let ?st = "finish_result sample_reserved (''sb'', ''e1'') (Some sample_snapshot)"
  have r: "read_result ?st (''sb'', ''e1'') = Inr sample_snapshot"
    by (simp add: read_result_def finish_result_def sample_reserved_slots Let_def)
  have "(store_step (\<lambda>sb. sb \<noteq> ''sb''))\<^sup>*\<^sup>* ?st (removeSandbox ?st ''other'')"
    by (rule r_into_rtranclp, rule removing) simp
  from published_result_immutable [OF this _ r] show ?thesis by simp
qed

end
