(* ===== verification/ExecutionRun.thy ===== *)
theory ExecutionRun
  imports ResultStore
begin

text \<open>
  One Execution inside a Sandbox: the cgroup counters (cgroup_linux.go), the budgeted wait and the
  handshake with Init (execution_linux.go), and the Supervisor's check of what Init extracted
  (extraction_linux.go). Every system call, pipe exchange and clock is an outcome supplied by the
  record \<open>exec_env\<close>, in the order the code reaches them.
\<close>

section \<open>Counters\<close>

text \<open>\<^verbatim>\<open>strings.Fields\<close> on ASCII text.\<close>

definition is_space :: "char \<Rightarrow> bool" where
  "is_space c \<longleftrightarrow> c = CHR '' '' \<or> c = CHR 0x09 \<or> c = CHR 0x0A \<or> c = CHR 0x0B \<or> c = CHR 0x0C \<or> c = CHR 0x0D"

fun fields_loop :: "bytes \<Rightarrow> bytes \<Rightarrow> bytes list" where
  "fields_loop acc [] = (if acc = [] then [] else [rev acc])"
| "fields_loop acc (c # s) =
     (if is_space c then (if acc = [] then fields_loop [] s else rev acc # fields_loop [] s)
      else fields_loop (c # acc) s)"

definition Fields :: "bytes \<Rightarrow> bytes list" where "Fields s = fields_loop [] s"

text \<open>\<^verbatim>\<open>strconv.ParseUint(s, 10, 64)\<close>\<close>

fun digits_value :: "int \<Rightarrow> bytes \<Rightarrow> int option" where
  "digits_value acc [] = Some acc"
| "digits_value acc (c # s) = (if is_digit c then digits_value (acc * 10 + int (byte c - 48)) s else None)"

definition ParseUint :: "bytes \<Rightarrow> u64 option" where
  "ParseUint s = (if s = [] then None else case digits_value 0 s of
      None \<Rightarrow> None
    | Some v \<Rightarrow> if v < 18446744073709551616 then Some (word_of_int v) else None)"

text \<open>
  \<open>counters\<close>: the loop over the lines of a cgroup file and the wanted keys; a later line
  overwrites an earlier one, a malformed value of a wanted key is an error, and so is a missing key.
\<close>

fun counter_lines :: "bytes list \<Rightarrow> bytes list \<Rightarrow> (bytes \<rightharpoonup> u64) \<Rightarrow> (bytes \<rightharpoonup> u64) option" where
  "counter_lines keys [] values = Some values"
| "counter_lines keys (line # ls) values =
     (case Fields line of
        [name, v] \<Rightarrow>
         (if name \<in> set keys then
            (case ParseUint v of
               None \<Rightarrow> None
             | Some n \<Rightarrow> counter_lines keys ls (values(name \<mapsto> n)))
          else counter_lines keys ls values)
      | _ \<Rightarrow> counter_lines keys ls values)"

definition counters :: "bytes option \<Rightarrow> bytes list \<Rightarrow> (bytes \<rightharpoonup> u64) option" where
  "counters contents keys =
     (case contents of
        None \<Rightarrow> None
      | Some text \<Rightarrow>
         (case counter_lines keys (split_on (CHR 0x0A) text) Map.empty of
            None \<Rightarrow> None
          | Some values \<Rightarrow> if \<exists>key \<in> set keys. values key = None then None else Some values))"

text \<open>The readable files of the budget group; \<open>None\<close> is a failed read.\<close>

record cgroup_files =
  memory_events :: "bytes option"
  pids_events :: "bytes option"
  cpu_stat :: "bytes option"

definition zero_usage :: ExecutionResourceUsage where
  "zero_usage = \<lparr>OOMEvents = 0, PIDLimitEvents = 0, CPUUsec = 0, CPUThrottledPeriods = 0, CPUThrottledUsec = 0\<rparr>"

definition resourceEvents :: "cgroup_files \<Rightarrow> ExecutionResourceUsage option" where
  "resourceEvents g =
     (case counters (memory_events g) [''oom''] of
        None \<Rightarrow> None
      | Some memory \<Rightarrow>
         (case counters (pids_events g) [''max''] of
            None \<Rightarrow> None
          | Some pids \<Rightarrow> Some (zero_usage\<lparr>OOMEvents := the (memory ''oom''), PIDLimitEvents := the (pids ''max'')\<rparr>)))"

definition resourceUsage :: "cgroup_files \<Rightarrow> ExecutionResourceUsage option" where
  "resourceUsage g =
     (case resourceEvents g of
        None \<Rightarrow> None
      | Some usage \<Rightarrow>
         (case counters (cpu_stat g) [''usage_usec'', ''nr_throttled'', ''throttled_usec''] of
            None \<Rightarrow> None
          | Some cpu \<Rightarrow> Some (usage\<lparr>CPUUsec := the (cpu ''usage_usec''),
              CPUThrottledPeriods := the (cpu ''nr_throttled''), CPUThrottledUsec := the (cpu ''throttled_usec'')\<rparr>)))"

definition since :: "ExecutionResourceUsage \<Rightarrow> ExecutionResourceUsage \<Rightarrow> ExecutionResourceUsage option" where
  "since after before =
     (if OOMEvents after < OOMEvents before \<or> PIDLimitEvents after < PIDLimitEvents before \<or> CPUUsec after < CPUUsec before
         \<or> CPUThrottledPeriods after < CPUThrottledPeriods before \<or> CPUThrottledUsec after < CPUThrottledUsec before then None
      else Some \<lparr>OOMEvents = OOMEvents after - OOMEvents before,
        PIDLimitEvents = PIDLimitEvents after - PIDLimitEvents before, CPUUsec = CPUUsec after - CPUUsec before,
        CPUThrottledPeriods = CPUThrottledPeriods after - CPUThrottledPeriods before,
        CPUThrottledUsec = CPUThrottledUsec after - CPUThrottledUsec before\<rparr>)"

lemma since_exact:
  assumes "since after before = Some u"
  shows "unat (OOMEvents after) = unat (OOMEvents before) + unat (OOMEvents u)"
    and "unat (PIDLimitEvents after) = unat (PIDLimitEvents before) + unat (PIDLimitEvents u)"
    and "unat (CPUUsec after) = unat (CPUUsec before) + unat (CPUUsec u)"
    and "unat (CPUThrottledPeriods after) = unat (CPUThrottledPeriods before) + unat (CPUThrottledPeriods u)"
    and "unat (CPUThrottledUsec after) = unat (CPUThrottledUsec before) + unat (CPUThrottledUsec u)"
  using assms by (auto simp: since_def not_less unat_sub word_le_nat_alt split: if_splits)

section \<open>The budgeted wait\<close>

text \<open>
  \<open>waitBudgetedExecution\<close> as a loop over the events its \<^verbatim>\<open>select\<close> receives. An exit carries
  whether the response was received without error; the deadline event carries an exit that was
  already observed at the boundary and whether the termination succeeds; a tick carries the observed
  counters and whether a termination would succeed. The deadline channel is disarmed once the
  Execution was terminated, so later deadline events do not occur.
\<close>

datatype wait_event =
    EvExited bool
  | EvContextDone
  | EvDeadline "bool option" bool
  | EvTick "ExecutionResourceUsage option" bool

fun waitBudgetedExecution :: "ExecutionResourceUsage \<Rightarrow> bool \<Rightarrow> bool \<Rightarrow> wait_event list \<Rightarrow> (bool \<times> bool) option" where
  "waitBudgetedExecution before terminated timedOut [] = None"
| "waitBudgetedExecution before terminated timedOut (EvExited ok # es) = Some (timedOut, \<not> ok)"
| "waitBudgetedExecution before terminated timedOut (EvContextDone # es) = Some (timedOut, True)"
| "waitBudgetedExecution before terminated timedOut (EvDeadline boundary killed # es) =
     (if terminated then waitBudgetedExecution before terminated timedOut es
      else case boundary of
        Some ok \<Rightarrow> Some (timedOut, \<not> ok)
      | None \<Rightarrow> (if \<not> killed then Some (True, True) else waitBudgetedExecution before True True es))"
| "waitBudgetedExecution before terminated timedOut (EvTick usage killed # es) =
     (case usage of
        None \<Rightarrow> Some (timedOut, True)
      | Some after \<Rightarrow>
         (if OOMEvents after < OOMEvents before \<or> PIDLimitEvents after < PIDLimitEvents before then Some (timedOut, True)
          else if (OOMEvents after > OOMEvents before \<or> PIDLimitEvents after > PIDLimitEvents before) \<and> \<not> terminated
          then (if \<not> killed then Some (timedOut, True) else waitBudgetedExecution before True timedOut es)
          else waitBudgetedExecution before terminated timedOut es))"

lemma wait_returns:
  "EvExited ok \<in> set es \<or> EvContextDone \<in> set es \<Longrightarrow> \<exists>r. waitBudgetedExecution before tm to es = Some r"
  by (induction before tm to es rule: waitBudgetedExecution.induct) (auto split: option.splits)

lemma wait_keeps_timeout:
  "waitBudgetedExecution before tm True es = Some (to, e) \<Longrightarrow> to"
proof (induction before tm True es rule: waitBudgetedExecution.induct)
  case (4 before terminated boundary killed es)
  then show ?case by (auto split: if_splits option.splits)
next
  case (5 before terminated usage killed es)
  then show ?case by (auto split: if_splits option.splits)
qed auto

section \<open>Init's answer\<close>

record initResponse =
  Phase :: bytes
  PID :: int
  i_ExitCode :: int
  i_Stdout :: bytes
  i_Stderr :: bytes
  i_Truncated :: bool
  i_StdoutTruncated :: bool
  i_StderrTruncated :: bool
  i_Outputs :: "ExtractedOutput list"
  i_OutputError :: bytes

text \<open>The loop of \<open>validExtractedOutputs\<close> over outputs and declared paths of equal number.\<close>

fun extracted_loop :: "(bytes \<Rightarrow> bytes) \<Rightarrow> int \<Rightarrow> int \<Rightarrow> ExtractedOutput list \<Rightarrow> bytes list \<Rightarrow> bool" where
  "extracted_loop sha256 fileBytes totalBytes (output # os) (p # ps) =
     (if Path output \<noteq> p \<or> Size output \<noteq> int (length (Content output)) \<or> Size output > min fileBytes totalBytes then False
      else if SHA256 output \<noteq> hex_encode (sha256 (Content output)) then False
      else extracted_loop sha256 fileBytes (totalBytes - Size output) os ps)"
| "extracted_loop sha256 fileBytes totalBytes os ps = True"

definition validExtractedOutputs :: "(bytes \<Rightarrow> bytes) \<Rightarrow> initResponse \<Rightarrow> bytes list \<Rightarrow> int \<Rightarrow> int \<Rightarrow> bool" where
  "validExtractedOutputs sha256 result paths fileBytes totalBytes =
     (if i_OutputError result \<noteq> [] then
        paths \<noteq> [] \<and> i_Outputs result = [] \<and> (i_OutputError result = OutputUnsafe \<or> i_OutputError result = OutputLimit)
      else if length (i_Outputs result) \<noteq> length paths then False
      else extracted_loop sha256 fileBytes totalBytes (i_Outputs result) paths)"

lemma extracted_loop_Cons:
  "extracted_loop sha256 fb tb (out # os) (p # ps) \<longleftrightarrow>
     Path out = p \<and> Size out = int (length (Content out)) \<and> Size out \<le> fb \<and> Size out \<le> tb \<and>
     SHA256 out = hex_encode (sha256 (Content out)) \<and> extracted_loop sha256 fb (tb - Size out) os ps"
  by auto

lemma extracted_loop_facts:
  "extracted_loop sha256 fb tb os ps \<Longrightarrow> length os = length ps \<Longrightarrow> 0 \<le> tb \<Longrightarrow>
     map Path os = ps \<and> extractedOutputBytes os \<le> tb \<and>
     list_all (\<lambda>out. Size out = int (length (Content out)) \<and> Size out \<le> fb \<and> SHA256 out = hex_encode (sha256 (Content out))) os"
proof (induction os arbitrary: ps tb)
  case (Cons out os)
  obtain p qs where ps: "ps = p # qs" using Cons.prems(2) by (cases ps) auto
  have l: "extracted_loop sha256 fb tb (out # os) (p # qs)" using Cons.prems(1) ps by simp
  note facts = l [unfolded extracted_loop_Cons]
  have ih: "map Path os = qs \<and> extractedOutputBytes os \<le> tb - Size out \<and>
     list_all (\<lambda>out. Size out = int (length (Content out)) \<and> Size out \<le> fb \<and> SHA256 out = hex_encode (sha256 (Content out))) os"
    using facts Cons.prems(2) ps by (intro Cons.IH) auto
  then show ?case using facts ps by (simp add: extractedOutputBytes_def)
qed (simp add: extractedOutputBytes_def)

text \<open>\<open>receiveInitResponse\<close>: the decoded frame, or nothing on a read or decode error, and the phase it must carry.\<close>

definition receiveInitResponse :: "initResponse option \<Rightarrow> bytes \<Rightarrow> initResponse option" where
  "receiveInitResponse frame phase =
     (case frame of
        None \<Rightarrow> None
      | Some response \<Rightarrow> if Phase response \<noteq> phase then None else Some response)"

section \<open>The Execution\<close>

text \<open>
  What the kernel and Init answer, in the order \<open>execute\<close> asks: a \<open>bool\<close> is whether a call
  succeeds, \<open>e_events\<close> what the wait's \<^verbatim>\<open>select\<close> receives.
\<close>

record exec_env =
  e_exited :: bool
  e_group :: bool
  e_oom_group :: bool
  e_before :: cgroup_files
  e_deadline :: bool
  e_send_start :: bool
  e_started :: "initResponse option"
  e_host_pid :: bool
  e_attach :: bool
  e_oom_score :: bool
  e_clear_deadline :: bool
  e_send_run :: bool
  e_events :: "wait_event list"
  e_killed :: bool
  e_after :: cgroup_files
  e_reap_deadline :: bool
  e_send_reap :: bool
  e_ready :: "initResponse option"
  e_group_closed :: bool

definition incompleteResourceResult :: "bytes \<Rightarrow> bytes \<Rightarrow> ExecutionResourceUsage \<Rightarrow> ErrorCode + ExecutePythonResult" where
  "incompleteResourceResult executionID reason usage =
     (if reason = ExecutionExited then Inl ErrorCodeExecutionFailed
      else Inr \<lparr>r_ExecutionID = executionID, ExitCode = -1, Stdout = [], Stderr = [], Truncated = True,
        StdoutTruncated = True, StderrTruncated = True, TerminalReason = reason, ResourceUsage = usage,
        Outputs = [], OutputError = []\<rparr>)"

definition terminal_reason :: "ExecutionResourceUsage \<Rightarrow> bool \<Rightarrow> bytes" where
  "terminal_reason usage timedOut =
     (if OOMEvents usage \<noteq> 0 then ExecutionMemoryLimit
      else if PIDLimitEvents usage \<noteq> 0 then ExecutionPIDLimit
      else if timedOut then ExecutionTimedOut else ExecutionExited)"

text \<open>
  \<open>execute\<close> after its reservation: the result or error code, and whether the deferred function
  kills Init and waits for its exit because the handshake did not complete. \<open>None\<close> is an Execution
  that is still waiting.
\<close>

definition execute_run :: "(bytes \<Rightarrow> bytes) \<Rightarrow> ResourceBudget \<Rightarrow> bytes \<Rightarrow> bytes list \<Rightarrow> int \<Rightarrow> exec_env
    \<Rightarrow> ((ErrorCode + ExecutePythonResult) \<times> bool) option" where
  "execute_run sha256 budget executionID paths extractionBytes env =
     (if e_exited env then Some (Inl ErrorCodeSandboxNotFound, False)
      else if \<not> e_group env then Some (Inl ErrorCodeOperationUnavailable, True)
      else if \<not> e_oom_group env then Some (Inl ErrorCodeOperationUnavailable, True)
      else case resourceUsage (e_before env) of
        None \<Rightarrow> Some (Inl ErrorCodeOperationUnavailable, True)
      | Some before \<Rightarrow>
     (if \<not> e_deadline env then Some (Inl ErrorCodeExecutionFailed, True)
      else if \<not> e_send_start env then Some (Inl ErrorCodeExecutionFailed, True)
      else case receiveInitResponse (e_started env) ''started'' of
        None \<Rightarrow> Some (Inl ErrorCodeExecutionFailed, True)
      | Some started \<Rightarrow>
     (if PID started \<le> 1 then Some (Inl ErrorCodeExecutionFailed, True)
      else if \<not> e_host_pid env then Some (Inl ErrorCodeExecutionFailed, True)
      else if \<not> e_attach env then Some (Inl ErrorCodeExecutionFailed, True)
      else if \<not> e_oom_score env then Some (Inl ErrorCodeExecutionFailed, True)
      else if \<not> e_clear_deadline env then Some (Inl ErrorCodeExecutionFailed, True)
      else if \<not> e_send_run env then Some (Inl ErrorCodeExecutionFailed, True)
      else case waitBudgetedExecution before False False (e_events env) of
        None \<Rightarrow> None
      | Some (timedOut, waitErr) \<Rightarrow>
     (if \<not> e_killed env then Some (Inl ErrorCodeExecutionFailed, True)
      else case resourceUsage (e_after env) of
        None \<Rightarrow> Some (Inl ErrorCodeExecutionFailed, True)
      | Some after \<Rightarrow>
     (case since after before of
        None \<Rightarrow> Some (Inl ErrorCodeExecutionFailed, True)
      | Some usage \<Rightarrow>
     (let reason = terminal_reason usage timedOut
      in if waitErr \<or> \<not> e_reap_deadline env \<or> \<not> e_send_reap env
         then Some (incompleteResourceResult executionID reason usage, True)
         else case receiveInitResponse (e_ready env) ''ready'' of
           None \<Rightarrow> Some (incompleteResourceResult executionID reason usage, True)
         | Some result \<Rightarrow>
            (if \<not> validExtractedOutputs sha256 result paths (FileBytes (Extraction budget)) extractionBytes
             then Some (Inl ErrorCodeExecutionFailed, True)
             else if \<not> e_group_closed env then Some (Inl ErrorCodeExecutionFailed, True)
             else Some (Inr \<lparr>r_ExecutionID = executionID, ExitCode = i_ExitCode result, Stdout = i_Stdout result,
                Stderr = i_Stderr result, Truncated = i_Truncated result, StdoutTruncated = i_StdoutTruncated result,
                StderrTruncated = i_StderrTruncated result, TerminalReason = reason, ResourceUsage = usage,
                Outputs = i_Outputs result, OutputError = i_OutputError result\<rparr>, False))))))))"

text \<open>The deferred function that freezes the snapshot.\<close>

definition freeze_snapshot :: "bytes list \<Rightarrow> ErrorCode + ExecutePythonResult \<Rightarrow> ErrorCode + ExecutePythonResult" where
  "freeze_snapshot paths outcome =
     (case outcome of
        Inl code \<Rightarrow> Inl code
      | Inr snapshot \<Rightarrow>
         (if length paths \<noteq> 0 \<and> Outputs snapshot = [] \<and> OutputError snapshot = []
          then Inr (snapshot\<lparr>OutputError := OutputUnavailable\<rparr>) else Inr snapshot))"

section \<open>What a result says\<close>

definition incomplete_result :: "bytes \<Rightarrow> bytes \<Rightarrow> ExecutionResourceUsage \<Rightarrow> ExecutePythonResult" where
  "incomplete_result executionID reason usage =
     \<lparr>r_ExecutionID = executionID, ExitCode = -1, Stdout = [], Stderr = [], Truncated = True,
      StdoutTruncated = True, StderrTruncated = True, TerminalReason = reason, ResourceUsage = usage,
      Outputs = [], OutputError = []\<rparr>"

definition complete_result :: "bytes \<Rightarrow> bytes \<Rightarrow> ExecutionResourceUsage \<Rightarrow> initResponse \<Rightarrow> ExecutePythonResult" where
  "complete_result executionID reason usage result =
     \<lparr>r_ExecutionID = executionID, ExitCode = i_ExitCode result, Stdout = i_Stdout result,
      Stderr = i_Stderr result, Truncated = i_Truncated result, StdoutTruncated = i_StdoutTruncated result,
      StderrTruncated = i_StderrTruncated result, TerminalReason = reason, ResourceUsage = usage,
      Outputs = i_Outputs result, OutputError = i_OutputError result\<rparr>"

lemma incompleteResourceResult_Inr:
  "incompleteResourceResult x reason usage = Inr r \<longleftrightarrow> reason \<noteq> ExecutionExited \<and> r = incomplete_result x reason usage"
  by (auto simp: incompleteResourceResult_def incomplete_result_def)

text \<open>How an Execution that yields a result went: both counter readings succeeded, and either Init's
  answer was lost with a limit to report, or Init's complete answer passed the check.\<close>

lemma execute_run_result:
  assumes "execute_run sha256 budget xid paths alloc env = Some (Inr r, killed)"
  obtains before after usage timedOut waitErr where
    "resourceUsage (e_before env) = Some before" "resourceUsage (e_after env) = Some after"
    "since after before = Some usage"
    "waitBudgetedExecution before False False (e_events env) = Some (timedOut, waitErr)"
    "killed \<longrightarrow> terminal_reason usage timedOut \<noteq> ExecutionExited \<and> r = incomplete_result xid (terminal_reason usage timedOut) usage"
    "\<not> killed \<longrightarrow> (\<exists>result. e_ready env = Some result \<and> Phase result = ''ready'' \<and>
       validExtractedOutputs sha256 result paths (FileBytes (Extraction budget)) alloc \<and>
       r = complete_result xid (terminal_reason usage timedOut) usage result)"
  using assms
  by (auto simp: execute_run_def Let_def incompleteResourceResult_Inr receiveInitResponse_def complete_result_def
      split: if_splits option.splits prod.splits)

lemma execute_run_returns:
  assumes "\<exists>ok. EvExited ok \<in> set (e_events env) \<or> EvContextDone \<in> set (e_events env)"
  shows "\<exists>outcome. execute_run sha256 budget xid paths alloc env = Some outcome"
proof -
  have "\<exists>r. waitBudgetedExecution before False False (e_events env) = Some r" for before
    using assms wait_returns by blast
  then have w: "waitBudgetedExecution before False False (e_events env) \<noteq> None" for before
    by (metis option.distinct(1))
  have "execute_run sha256 budget xid paths alloc env = None \<Longrightarrow> False"
    using w [THEN notE] by (auto simp: execute_run_def Let_def split: if_splits option.splits prod.splits)
  then show ?thesis by blast
qed

lemma validExtracted_facts:
  assumes "validExtractedOutputs sha256 result paths fb alloc" and "0 \<le> alloc"
  shows "extractedOutputBytes (i_Outputs result) \<le> alloc"
    and "i_OutputError result = [] \<Longrightarrow> map Path (i_Outputs result) = paths"
    and "i_OutputError result \<noteq> [] \<Longrightarrow> paths \<noteq> [] \<and> i_Outputs result = [] \<and> i_OutputError result \<in> {OutputUnsafe, OutputLimit}"
    and "list_all (\<lambda>out. Size out = int (length (Content out)) \<and> Size out \<le> fb \<and>
      SHA256 out = hex_encode (sha256 (Content out))) (i_Outputs result)"
  using assms extracted_loop_facts [of sha256 fb alloc "i_Outputs result" paths]
  by (auto simp: validExtractedOutputs_def extractedOutputBytes_def split: if_splits)

lemma freeze_Inr:
  "freeze_snapshot paths (Inr r) =
     Inr (if paths \<noteq> [] \<and> Outputs r = [] \<and> OutputError r = [] then r\<lparr>OutputError := OutputUnavailable\<rparr> else r)"
  by (simp add: freeze_snapshot_def)

lemma execution_result_facts:
  assumes "execute_run sha256 budget xid paths alloc env = Some (Inr r, killed)"
    and "freeze_snapshot paths (Inr r) = Inr s" and "0 \<le> alloc"
  shows "r_ExecutionID s = xid \<and>
    (\<exists>before after. resourceUsage (e_before env) = Some before \<and> resourceUsage (e_after env) = Some after \<and>
       unat (OOMEvents after) = unat (OOMEvents before) + unat (OOMEvents (ResourceUsage s)) \<and>
       unat (PIDLimitEvents after) = unat (PIDLimitEvents before) + unat (PIDLimitEvents (ResourceUsage s)) \<and>
       unat (CPUUsec after) = unat (CPUUsec before) + unat (CPUUsec (ResourceUsage s))) \<and>
    (TerminalReason s = ExecutionMemoryLimit \<longleftrightarrow> OOMEvents (ResourceUsage s) \<noteq> 0) \<and>
    (TerminalReason s = ExecutionPIDLimit \<longleftrightarrow> OOMEvents (ResourceUsage s) = 0 \<and> PIDLimitEvents (ResourceUsage s) \<noteq> 0) \<and>
    TerminalReason s \<in> {ExecutionExited, ExecutionMemoryLimit, ExecutionPIDLimit, ExecutionTimedOut} \<and>
    extractedOutputBytes (Outputs s) \<le> alloc \<and>
    (killed \<longrightarrow> ExitCode s = -1 \<and> Stdout s = [] \<and> Outputs s = [] \<and> TerminalReason s \<noteq> ExecutionExited) \<and>
    (if OutputError s = [] then map Path (Outputs s) = paths
     else paths \<noteq> [] \<and> Outputs s = [] \<and> OutputError s \<in> {OutputUnsafe, OutputLimit, OutputUnavailable})"
proof -
  obtain before after usage timedOut waitErr where
    u: "resourceUsage (e_before env) = Some before" "resourceUsage (e_after env) = Some after"
      "since after before = Some usage"
    and k: "killed \<longrightarrow> terminal_reason usage timedOut \<noteq> ExecutionExited \<and> r = incomplete_result xid (terminal_reason usage timedOut) usage"
    and c: "\<not> killed \<longrightarrow> (\<exists>result. e_ready env = Some result \<and> Phase result = ''ready'' \<and>
       validExtractedOutputs sha256 result paths (FileBytes (Extraction budget)) alloc \<and>
       r = complete_result xid (terminal_reason usage timedOut) usage result)"
    using assms(1) by (rule execute_run_result) blast
  have s: "s = (if paths \<noteq> [] \<and> Outputs r = [] \<and> OutputError r = [] then r\<lparr>OutputError := OutputUnavailable\<rparr> else r)"
    using assms(2) by (simp add: freeze_Inr)
  have rr: "r_ExecutionID r = xid" "ResourceUsage r = usage" "TerminalReason r = terminal_reason usage timedOut"
    using k c by (cases killed; auto simp: incomplete_result_def complete_result_def)+
  have reasons: "TerminalReason s = ExecutionMemoryLimit \<longleftrightarrow> OOMEvents usage \<noteq> 0"
    "TerminalReason s = ExecutionPIDLimit \<longleftrightarrow> OOMEvents usage = 0 \<and> PIDLimitEvents usage \<noteq> 0"
    "TerminalReason s \<in> {ExecutionExited, ExecutionMemoryLimit, ExecutionPIDLimit, ExecutionTimedOut}"
    unfolding s using rr(3) by (auto simp: terminal_reason_def terminal_reason_defs)
  have outs: "extractedOutputBytes (Outputs r) \<le> alloc \<and>
      (if OutputError r = [] then map Path (Outputs r) = paths \<or> Outputs r = []
       else paths \<noteq> [] \<and> Outputs r = [] \<and> OutputError r \<in> {OutputUnsafe, OutputLimit})"
  proof (cases killed)
    case True
    then show ?thesis using k assms(3) by (simp add: incomplete_result_def extractedOutputBytes_def)
  next
    case False
    then obtain result where v: "validExtractedOutputs sha256 result paths (FileBytes (Extraction budget)) alloc"
      and r: "r = complete_result xid (terminal_reason usage timedOut) usage result" using c by blast
    show ?thesis using validExtracted_facts(1-3) [OF v assms(3)] by (simp add: r complete_result_def)
  qed
  have final: "if OutputError s = [] then map Path (Outputs s) = paths
     else paths \<noteq> [] \<and> Outputs s = [] \<and> OutputError s \<in> {OutputUnsafe, OutputLimit, OutputUnavailable}"
    unfolding s using outs by (auto simp: output_error_defs split: if_splits)
  have lost: "killed \<longrightarrow> ExitCode s = -1 \<and> Stdout s = [] \<and> Outputs s = [] \<and> TerminalReason s \<noteq> ExecutionExited"
    unfolding s using k rr(3) by (auto simp: incomplete_result_def)
  have su: "ResourceUsage s = usage" "r_ExecutionID s = xid" "Outputs s = Outputs r" unfolding s using rr by simp_all
  show ?thesis using u since_exact(1-3) [OF u(3)] reasons outs final lost su by simp
qed


definition sample_files :: cgroup_files where
  "sample_files = \<lparr>memory_events = Some ''oom 0'', pids_events = Some ''max 0'',
     cpu_stat = Some ''usage_usec 5
nr_throttled 0
throttled_usec 0''\<rparr>"

definition sample_init :: initResponse where
  "sample_init = \<lparr>Phase = ''started'', PID = 7, i_ExitCode = 0, i_Stdout = [], i_Stderr = [], i_Truncated = False,
     i_StdoutTruncated = False, i_StderrTruncated = False, i_Outputs = [], i_OutputError = []\<rparr>"

definition sample_env :: exec_env where
  "sample_env = \<lparr>e_exited = False, e_group = True, e_oom_group = True, e_before = sample_files, e_deadline = True,
     e_send_start = True, e_started = Some sample_init, e_host_pid = True, e_attach = True, e_oom_score = True,
     e_clear_deadline = True, e_send_run = True,
     e_events = [EvTick (resourceEvents sample_files) True, EvDeadline None True, EvExited True], e_killed = True,
     e_after = sample_files, e_reap_deadline = True, e_send_reap = True,
     e_ready = Some (sample_init\<lparr>Phase := ''ready'', i_OutputError := OutputUnsafe\<rparr>), e_group_closed = True\<rparr>"

lemma sample_execution:
  "execute_run (\<lambda>s. s) DefaultResourceBudget ''x'' [''a''] 100 sample_env =
     Some (Inr (complete_result ''x'' ExecutionTimedOut zero_usage (sample_init\<lparr>i_OutputError := OutputUnsafe\<rparr>)), False)"
  by code_simp


end
