(* ===== verification/OutputExtraction.thy ===== *)
theory OutputExtraction
  imports ExecutionRun
begin

text \<open>
  extraction_linux.go: how Init reads the declared outputs of a Workload. The file system can change
  between two resolutions of a path, so each resolution has a view of its own: \<open>view\<close> maps a
  directory handle, a component and the directory flag to a handle with its metadata.
\<close>

unbundle bit_operations_syntax

section \<open>The kernel's answers\<close>

record Stat_t =
  Dev :: u64
  Ino :: u64
  Mode :: "32 word"
  Nlink :: u64
  Uid :: "32 word"
  Gid :: "32 word"
  st_Size :: int
  Mtim :: int
  Ctim :: int

text \<open>\<open>None\<close> is a failed \<open>openat\<close>; the inner \<open>None\<close> a failed \<open>fstat\<close> of the new handle.\<close>

type_synonym view = "nat \<Rightarrow> bytes \<Rightarrow> bool \<Rightarrow> (nat \<times> Stat_t option) option"

definition S_IFMT :: "32 word" where "S_IFMT = 0xF000"
definition S_IFREG :: "32 word" where "S_IFREG = 0x8000"

text \<open>
  One extraction: the two resolutions, whether the pinned descriptor could be reopened for reading,
  the bytes the file yields and whether reading ends in an end of file, and the final \<open>fstat\<close>.
\<close>

record extract_env =
  x_before :: view
  x_reopen :: bool
  x_data :: bytes
  x_eof :: bool
  x_after :: "Stat_t option"
  x_current :: view

section \<open>Operations\<close>

text \<open>The loop of \<open>openOutputPath\<close> over the components; every one but the last must be a directory.\<close>

fun open_components :: "view \<Rightarrow> u64 \<Rightarrow> nat \<Rightarrow> bytes list \<Rightarrow> Stat_t list \<Rightarrow> (nat \<times> Stat_t list) option" where
  "open_components v device parent [] identities = None"
| "open_components v device parent (component # cs) identities =
     (let last_one = (cs = []) in
      case v parent component (\<not> last_one) of
        None \<Rightarrow> None
      | Some (fd, None) \<Rightarrow> None
      | Some (fd, Some stat) \<Rightarrow>
         (if Dev stat \<noteq> device \<or> last_one \<and> (Mode stat AND S_IFMT \<noteq> S_IFREG \<or> Nlink stat \<noteq> 1) then None
          else if last_one then Some (fd, identities @ [stat])
          else open_components v device fd cs (identities @ [stat])))"

definition openOutputPath :: "view \<Rightarrow> nat \<Rightarrow> u64 \<Rightarrow> bytes \<Rightarrow> (nat \<times> Stat_t list) option" where
  "openOutputPath v root device name = open_components v device root (split_on slash name) []"

definition sameOutputFile :: "Stat_t \<Rightarrow> Stat_t \<Rightarrow> bool" where
  "sameOutputFile before after \<longleftrightarrow>
     Dev before = Dev after \<and> Ino before = Ino after \<and> Mode before = Mode after \<and> Nlink before = Nlink after \<and>
     Uid before = Uid after \<and> Gid before = Gid after \<and> st_Size before = st_Size after \<and>
     Mtim before = Mtim after \<and> Ctim before = Ctim after"

text \<open>The comparison of the two identity lists index by index; a shorter second list would panic.\<close>

fun identities_match :: "Stat_t list \<Rightarrow> Stat_t list \<Rightarrow> bool" where
  "identities_match [] current = True"
| "identities_match (b # bs) (c # cs) = (Dev b = Dev c \<and> Ino b = Ino c \<and> identities_match bs cs)"
| "identities_match (b # bs) [] = False"

definition extractOutput :: "(bytes \<Rightarrow> bytes) \<Rightarrow> extract_env \<Rightarrow> nat \<Rightarrow> u64 \<Rightarrow> bytes \<Rightarrow> int \<Rightarrow> bytes + ExtractedOutput" where
  "extractOutput sha256 env root device name allowed =
     (case openOutputPath (x_before env) root device name of
        None \<Rightarrow> Inl OutputUnsafe
      | Some (pinned, before) \<Rightarrow>
         (let initial = last before in
          if st_Size initial < 0 \<or> st_Size initial > allowed then Inl OutputLimit
          else if \<not> x_reopen env then Inl OutputUnsafe
          else let size = nat (st_Size initial); content = take size (x_data env) in
            if length (x_data env) < size then Inl OutputUnsafe
            else if length (x_data env) > size \<or> \<not> x_eof env then Inl OutputUnsafe
            else (case x_after env of
                None \<Rightarrow> Inl OutputUnsafe
              | Some after \<Rightarrow>
                 (if \<not> sameOutputFile initial after then Inl OutputUnsafe
                  else case openOutputPath (x_current env) root device name of
                    None \<Rightarrow> Inl OutputUnsafe
                  | Some (resolved, current) \<Rightarrow>
                     (if \<not> identities_match before current then Inl OutputUnsafe
                      else if \<not> sameOutputFile initial (last current) then Inl OutputUnsafe
                      else Inr \<lparr>Path = name, Size = st_Size initial, SHA256 = hex_encode (sha256 content),
                             Content = content\<rparr>)))))"

text \<open>The loop over the declared paths, with one environment for each extraction.\<close>

fun extract_loop :: "(bytes \<Rightarrow> bytes) \<Rightarrow> (bytes \<Rightarrow> extract_env) \<Rightarrow> nat \<Rightarrow> u64 \<Rightarrow> int \<Rightarrow> int \<Rightarrow> bytes list \<Rightarrow> ExtractedOutput list
    \<Rightarrow> ExtractedOutput list \<times> bytes" where
  "extract_loop sha256 env root device fileBytes totalBytes [] outputs = (outputs, [])"
| "extract_loop sha256 env root device fileBytes totalBytes (name # names) outputs =
     (case extractOutput sha256 (env name) root device name (min fileBytes totalBytes) of
        Inl code \<Rightarrow> ([], code)
      | Inr out \<Rightarrow> extract_loop sha256 env root device fileBytes (totalBytes - Size out) names (outputs @ [out]))"

text \<open>\<open>root\<close> is the handle of \<^verbatim>\<open>/workspace/output\<close> with its device, when it could be opened and examined.\<close>

definition extractDeclaredOutputs :: "(bytes \<Rightarrow> bytes) \<Rightarrow> (bytes \<Rightarrow> extract_env) \<Rightarrow> (nat \<times> u64) option \<Rightarrow> bytes list \<Rightarrow> int \<Rightarrow> int
    \<Rightarrow> ExtractedOutput list \<times> bytes" where
  "extractDeclaredOutputs sha256 env root paths fileBytes totalBytes =
     (if paths = [] then ([], [])
      else case root of
        None \<Rightarrow> ([], OutputUnsafe)
      | Some (fd, device) \<Rightarrow> extract_loop sha256 env fd device fileBytes totalBytes paths [])"

section \<open>Resolution\<close>

lemma open_components_shape:
  assumes "open_components v device parent cs acc = Some (fd, ids)"
  shows "\<exists>new. ids = acc @ new \<and> length new = length cs \<and> list_all (\<lambda>s. Dev s = device) new \<and>
     Mode (last ids) AND S_IFMT = S_IFREG \<and> Nlink (last ids) = 1"
  using assms
proof (induction v device parent cs acc rule: open_components.induct)
  case (2 v device parent component cs acc)
  then obtain h st where v: "v parent component (cs \<noteq> []) = Some (h, Some st)" and d: "Dev st = device"
    and l: "cs = [] \<longrightarrow> Mode st AND S_IFMT = S_IFREG \<and> Nlink st = 1 \<and> ids = acc @ [st]"
    and r: "cs \<noteq> [] \<longrightarrow> open_components v device h cs (acc @ [st]) = Some (fd, ids)"
    by (auto simp: Let_def split: option.splits if_splits)
  show ?case
  proof (cases "cs = []")
    case True
    then show ?thesis using l d by simp
  next
    case False
    have "\<exists>new. ids = (acc @ [st]) @ new \<and> length new = length cs \<and> list_all (\<lambda>s. Dev s = device) new \<and>
       Mode (last ids) AND S_IFMT = S_IFREG \<and> Nlink (last ids) = 1"
      using False v d r by (intro "2.IH") (auto simp: Let_def)
    then obtain new where "ids = (acc @ [st]) @ new \<and> length new = length cs \<and> list_all (\<lambda>s. Dev s = device) new \<and>
       Mode (last ids) AND S_IFMT = S_IFREG \<and> Nlink (last ids) = 1" ..
    then show ?thesis using d by (intro exI [of _ "st # new"]) auto
  qed
qed simp

text \<open>The two identity lists have one entry per component, so the comparison never runs out of range.\<close>

lemma openOutputPath_facts:
  assumes "openOutputPath v root device name = Some (fd, ids)"
  shows "length ids = length (split_on slash name)" "ids \<noteq> []" "list_all (\<lambda>s. Dev s = device) ids"
    "Mode (last ids) AND S_IFMT = S_IFREG" "Nlink (last ids) = 1"
  using open_components_shape [OF assms [unfolded openOutputPath_def]] split_on_nonempty [of slash name]
  by (auto simp del: split_on_nonempty)

lemma open_components_agree:
  "\<forall>c \<in> set cs. \<forall>h d. v h c d = w h c d \<Longrightarrow> open_components v device parent cs acc = open_components w device parent cs acc"
proof (induction v device parent cs acc rule: open_components.induct)
  case (2 v device parent component cs acc)
  then have e: "v parent component (cs \<noteq> []) = w parent component (cs \<noteq> [])" by simp
  show ?case
    using 2 e by (auto simp: Let_def split: option.splits prod.splits)
qed simp

lemma openOutputPath_agree:
  assumes "\<forall>c. proper_segment c \<longrightarrow> (\<forall>h d. v h c d = w h c d)" and "\<forall>c \<in> set (split_on slash name). proper_segment c"
  shows "openOutputPath v root device name = openOutputPath w root device name"
  unfolding openOutputPath_def using assms by (intro open_components_agree) blast

section \<open>One output\<close>

lemma extractOutput_codes:
  "extractOutput sha256 env root device name allowed = Inl code \<Longrightarrow> code = OutputUnsafe \<or> code = OutputLimit"
  by (auto simp: extractOutput_def Let_def split: option.splits prod.splits if_splits)

lemma extractOutput_facts:
  assumes "extractOutput sha256 env root device name allowed = Inr out"
  shows "Path out = name \<and> Size out = int (length (Content out)) \<and> Size out \<le> allowed \<and> Content out = x_data env \<and>
    SHA256 out = hex_encode (sha256 (Content out)) \<and>
    (\<exists>pinned before resolved current.
       openOutputPath (x_before env) root device name = Some (pinned, before) \<and>
       openOutputPath (x_current env) root device name = Some (resolved, current) \<and>
       identities_match before current \<and> sameOutputFile (last before) (last current) \<and>
       Mode (last before) AND S_IFMT = S_IFREG \<and> Nlink (last before) = 1 \<and> Dev (last before) = device)"
proof -
  obtain pinned before after resolved current where
    b: "openOutputPath (x_before env) root device name = Some (pinned, before)"
    and c: "openOutputPath (x_current env) root device name = Some (resolved, current)"
    and g: "0 \<le> st_Size (last before)" "st_Size (last before) \<le> allowed" "length (x_data env) = nat (st_Size (last before))"
      "identities_match before current" "sameOutputFile (last before) (last current)"
    and o: "out = \<lparr>Path = name, Size = st_Size (last before), SHA256 = hex_encode (sha256 (x_data env)), Content = x_data env\<rparr>"
    using assms by (auto simp: extractOutput_def Let_def not_less split: option.splits prod.splits if_splits)
  have "Dev (last before) = device" using openOutputPath_facts(2,3) [OF b] by (simp add: list_all_iff)
  then show ?thesis using b c g o openOutputPath_facts(4,5) [OF b] by simp
qed

lemma extractOutput_agree:
  assumes "\<forall>c. proper_segment c \<longrightarrow> (\<forall>h d. x_before e h c d = x_before e' h c d \<and> x_current e h c d = x_current e' h c d)"
    and "x_reopen e = x_reopen e'" "x_data e = x_data e'" "x_eof e = x_eof e'" "x_after e = x_after e'"
    and "\<forall>c \<in> set (split_on slash name). proper_segment c"
  shows "extractOutput sha256 e root device name allowed = extractOutput sha256 e' root device name allowed"
proof -
  have eqs: "openOutputPath (x_before e) root device name = openOutputPath (x_before e') root device name"
    "openOutputPath (x_current e) root device name = openOutputPath (x_current e') root device name"
    using assms(1,6) by (intro openOutputPath_agree; blast)+
  show ?thesis unfolding extractOutput_def assms(2-5) eqs ..
qed

section \<open>A batch of outputs\<close>

lemma extract_loop_facts:
  assumes "extract_loop sha256 env root device fb tb names acc = (outs, code)"
  shows "if code = [] then \<exists>new. outs = acc @ new \<and> length new = length names \<and> extracted_loop sha256 fb tb new names
     else outs = [] \<and> code \<in> {OutputUnsafe, OutputLimit}"
  using assms
proof (induction names arbitrary: tb acc)
  case (Cons name names)
  show ?case
  proof (cases "extractOutput sha256 (env name) root device name (min fb tb)")
    case (Inl c)
    then show ?thesis using Cons.prems extractOutput_codes [OF Inl] by (auto simp: output_error_defs)
  next
    case (Inr out)
    have ih: "if code = [] then \<exists>new. outs = (acc @ [out]) @ new \<and> length new = length names \<and> extracted_loop sha256 fb (tb - Size out) new names
       else outs = [] \<and> code \<in> {OutputUnsafe, OutputLimit}"
      using Cons.prems Inr by (intro Cons.IH) simp
    show ?thesis
    proof (cases "code = []")
      case True
      then obtain new where n: "outs = (acc @ [out]) @ new" "length new = length names"
        "extracted_loop sha256 fb (tb - Size out) new names" using ih by auto
      have "extracted_loop sha256 fb tb (out # new) (name # names)"
        unfolding extracted_loop_Cons using n(3) extractOutput_facts [OF Inr] by (metis min.bounded_iff)
      then show ?thesis using True n(1,2) by (auto intro!: exI [of _ "out # new"])
    qed (use ih in simp)
  qed
qed simp

text \<open>
  C26. Whatever the file system does, the outputs Init extracts within an allowance pass the
  Supervisor's independent check of Init's answer with that same allowance: the declared paths in order,
  sizes and digests of the content, the file and batch limits, or one of the two extraction errors with
  no output at all.
\<close>

theorem extraction_accepted:
  assumes "extractDeclaredOutputs sha256 env root paths fileBytes totalBytes = (outs, code)"
    and "i_Outputs result = outs" and "i_OutputError result = code"
  shows "validExtractedOutputs sha256 result paths fileBytes totalBytes"
proof (cases "paths = []")
  case True
  then show ?thesis using assms by (simp add: extractDeclaredOutputs_def validExtractedOutputs_def)
next
  case False
  show ?thesis
  proof (cases root)
    case None
    then show ?thesis using assms False by (auto simp: extractDeclaredOutputs_def validExtractedOutputs_def output_error_defs)
  next
    case (Some a)
    obtain fd device where "root = Some (fd, device)" using Some by (cases a) auto
    then have "extract_loop sha256 env fd device fileBytes totalBytes paths [] = (outs, code)"
      using assms(1) False by (simp add: extractDeclaredOutputs_def)
    from extract_loop_facts [OF this] show ?thesis
      using assms(2,3) False by (auto simp: validExtractedOutputs_def split: if_splits)
  qed
qed

definition sample_stat :: Stat_t where
  "sample_stat = \<lparr>Dev = 5, Ino = 9, Mode = 0x81A4, Nlink = 1, Uid = 1000, Gid = 1000, st_Size = 2, Mtim = 0, Ctim = 0\<rparr>"

definition sample_view :: view where
  "sample_view h c d = (if c = ''a'' \<and> \<not> d then Some (4, Some sample_stat) else None)"

definition sample_extract :: extract_env where
  "sample_extract = \<lparr>x_before = sample_view, x_reopen = True, x_data = ''ok'', x_eof = True,
     x_after = Some sample_stat, x_current = sample_view\<rparr>"

definition sample_output :: ExtractedOutput where
  "sample_output = \<lparr>Path = ''a'', Size = 2, SHA256 = ''6f6b'', Content = ''ok''\<rparr>"

lemma sample_extraction:
  "extractDeclaredOutputs (\<lambda>s. s) (\<lambda>name. sample_extract) (Some (3, 5)) [''a''] 100 100 = ([sample_output], [])"
  by code_simp

theorem extraction_accepted_witness:
  "validExtractedOutputs (\<lambda>s. s) (sample_init\<lparr>i_Outputs := [sample_output]\<rparr>) [''a''] 100 100"
  using extraction_accepted [OF sample_extraction, of "sample_init\<lparr>i_Outputs := [sample_output]\<rparr>"]
  by (simp add: sample_init_def)

lemma extract_loop_agree:
  assumes "\<forall>name. \<forall>c. proper_segment c \<longrightarrow> (\<forall>h d. x_before (e name) h c d = x_before (e' name) h c d \<and>
      x_current (e name) h c d = x_current (e' name) h c d)"
    and "\<forall>name. x_reopen (e name) = x_reopen (e' name) \<and> x_data (e name) = x_data (e' name) \<and>
      x_eof (e name) = x_eof (e' name) \<and> x_after (e name) = x_after (e' name)"
    and "\<forall>p \<in> set names. \<forall>c \<in> set (split_on slash p). proper_segment c"
  shows "extract_loop sha256 e root device fb tb names acc = extract_loop sha256 e' root device fb tb names acc"
  using assms(3)
proof (induction names arbitrary: tb acc)
  case (Cons name names)
  have "extractOutput sha256 (e name) root device name (min fb tb) = extractOutput sha256 (e' name) root device name (min fb tb)"
    using assms(1,2) Cons.prems by (intro extractOutput_agree) auto
  then show ?case using Cons by (simp split: sum.split)
qed simp

text \<open>
  C27. Extraction stays inside the output directory: on a request whose paths the Supervisor accepted,
  the result depends only on lookups of proper names (never an empty name, \<^verbatim>\<open>.\<close> or \<^verbatim>\<open>..\<close>) relative to
  handles reached from that directory. Two file systems that agree on those lookups, whatever they
  do for the others, give the same outputs.
\<close>

theorem extraction_confined:
  assumes "validOutputPaths paths"
    and "\<forall>name c. proper_segment c \<longrightarrow> (\<forall>h d. x_before (e name) h c d = x_before (e' name) h c d \<and>
      x_current (e name) h c d = x_current (e' name) h c d)"
    and "\<forall>name. x_reopen (e name) = x_reopen (e' name) \<and> x_data (e name) = x_data (e' name) \<and>
      x_eof (e name) = x_eof (e' name) \<and> x_after (e name) = x_after (e' name)"
  shows "extractDeclaredOutputs sha256 e root paths fb tb = extractDeclaredOutputs sha256 e' root paths fb tb"
proof -
  have p: "\<forall>p \<in> set paths. \<forall>c \<in> set (split_on slash p). proper_segment c"
    using assms(1) unfolding validOutputPaths_iff queue_paths_iff by blast
  have "extract_loop sha256 e r d fb tb paths [] = extract_loop sha256 e' r d fb tb paths []" for r d
    using assms(2,3) p by (intro extract_loop_agree) simp_all
  then show ?thesis by (simp add: extractDeclaredOutputs_def split: option.split prod.split)
qed

definition escaping_view :: view where
  "escaping_view h c d = (if c = ''..'' then Some (1, Some sample_stat) else sample_view h c d)"

theorem extraction_confined_witness:
  "extractDeclaredOutputs (\<lambda>s. s) (\<lambda>name. sample_extract\<lparr>x_before := escaping_view, x_current := escaping_view\<rparr>)
     (Some (3, 5)) [''a''] 100 100 = ([sample_output], [])"
proof -
  have v: "validOutputPaths [''a'']" by code_simp
  show ?thesis
    unfolding sample_extraction [symmetric]
    by (rule extraction_confined [OF v]) (simp_all add: sample_extract_def escaping_view_def proper_segment_def)
qed

end
