(* ===== verification/Supervisor.thy ===== *)
theory Supervisor
  imports OutputExtraction
begin

text \<open>
  The Sandboxes of the Supervisor: creation_linux.go (\<open>reserve\<close>, \<open>release\<close>, \<open>create\<close> and its reaper),
  lifecycle_linux.go (\<open>destroy\<close>, the owning operation), inspection_linux.go and the locking part of
  \<open>execute\<close>. The heap of \<^verbatim>\<open>createdSandbox\<close> objects is the list \<open>objs\<close>; the Go map \<open>active\<close> holds
  indices into it, so that several goroutines can refer to an object that has left the map. Every
  critical section under a mutex is one operation, and a run is any interleaving of them.
\<close>

section \<open>State\<close>

text \<open>The Execution mutex: free, taken, or taken with a reserved result of so many extracted bytes.\<close>

datatype exec_phase = Idle | Locked bytes "bytes list" | Reserved bytes "bytes list" int

text \<open>\<open>sb_id\<close> is the identifier the creating goroutine and the reaper close over.\<close>

record createdSandbox =
  sb_id :: bytes
  identityOffset :: u64
  cancelled :: bool
  phase :: exec_phase
  process :: bool
  sb_done :: bool
  sb_exited :: bool
  terminating :: bool
  cleanupErr :: bool
  extractedBytes :: int

record sandboxCreator =
  config :: ServerConfig
  stopped :: bool
  objs :: "createdSandbox list"
  active :: "(bytes \<times> nat) list"
  retired :: "bytes list"
  results :: executionResultStore
  destroyers :: "(bytes \<times> nat) list"

definition newSandboxCreator :: "ServerConfig \<Rightarrow> sandboxCreator" where
  "newSandboxCreator cfg = \<lparr>config = cfg, stopped = False, objs = [], active = [], retired = [],
     results = empty_store, destroyers = []\<rparr>"

definition upd :: "nat \<Rightarrow> (createdSandbox \<Rightarrow> createdSandbox) \<Rightarrow> sandboxCreator \<Rightarrow> sandboxCreator" where
  "upd i f st = st\<lparr>objs := (objs st)[i := f (objs st ! i)]\<rparr>"

text \<open>\<^verbatim>\<open>sandbox.ctx.Err() != nil\<close>: its own cancellation, or that of the creator it derives from.\<close>

definition ctx_err :: "sandboxCreator \<Rightarrow> createdSandbox \<Rightarrow> bool" where
  "ctx_err st sb \<longleftrightarrow> cancelled sb \<or> stopped st"

section \<open>Reservation\<close>

text \<open>
  The search for a free identity offset. The code counts in \<^verbatim>\<open>uint\<close>; a validated count is below
  \<open>2 ^ 32\<close>, so natural numbers agree with it.
\<close>

function free_offset :: "nat list \<Rightarrow> nat \<Rightarrow> nat \<Rightarrow> nat" where
  "free_offset used count offset =
     (if offset < count \<and> offset \<in> set used then free_offset used count (offset + 65536) else offset)"
  by pat_completeness auto
termination by (relation "measure (\<lambda>(used, count, offset). count - offset)") auto

declare free_offset.simps [simp del]

datatype mkdir_result = MkdirOk | MkdirExists | MkdirFailed

definition new_sandbox :: "bytes \<Rightarrow> u64 \<Rightarrow> createdSandbox" where
  "new_sandbox sid offset = \<lparr>sb_id = sid, identityOffset = offset, cancelled = False, phase = Idle, process = False,
     sb_done = False, sb_exited = False, terminating = False, cleanupErr = False, extractedBytes = 0\<rparr>"

definition reserve :: "bytes \<Rightarrow> mkdir_result \<Rightarrow> sandboxCreator \<Rightarrow> (ErrorCode + nat) \<times> sandboxCreator" where
  "reserve sid mkdir st =
     (if stopped st then (Inl ErrorCodeCreationFailed, st)
      else if map_of (active st) sid \<noteq> None then (Inl ErrorCodeSandboxExists, st)
      else if sid \<in> set (retired st) then (Inl ErrorCodeSandboxExists, st)
      else let used = map (\<lambda>(n, i). unat (identityOffset (objs st ! i))) (active st);
               count = unat (SubIDCount (config st));
               offset = free_offset used count 0
        in if offset = count then (Inl ErrorCodeIdentityRangeExhausted, st)
           else case mkdir of
             MkdirExists \<Rightarrow> (Inl ErrorCodeSandboxExists, st)
           | MkdirFailed \<Rightarrow> (Inl ErrorCodeCreationFailed, st)
           | MkdirOk \<Rightarrow> (Inr (length (objs st)),
               st\<lparr>objs := objs st @ [new_sandbox sid (of_nat offset)], active := (sid, length (objs st)) # active st\<rparr>))"

section \<open>Release\<close>

text \<open>What \<^verbatim>\<open>Lstat\<close> finds under the identifier, and whether the removal succeeds.\<close>

datatype dir_state = DirOwned bool | DirReplaced | DirAbsent | DirError

record release_env =
  r_cgroups_closed :: bool
  r_dir :: dir_state

definition directory_removed :: "dir_state \<Rightarrow> bool" where
  "directory_removed d = (case d of DirOwned removed \<Rightarrow> removed | DirReplaced \<Rightarrow> False | DirAbsent \<Rightarrow> True | DirError \<Rightarrow> False)"

definition releaseLocked :: "bytes \<Rightarrow> nat \<Rightarrow> bool \<Rightarrow> release_env \<Rightarrow> sandboxCreator \<Rightarrow> bool \<times> sandboxCreator" where
  "releaseLocked sid i retire env st =
     (if \<not> r_cgroups_closed env then (False, upd i (\<lambda>sb. sb\<lparr>cleanupErr := True\<rparr>) st)
      else let ok = directory_removed (r_dir env);
               st1 = upd i (\<lambda>sb. sb\<lparr>cleanupErr := \<not> ok\<rparr>) st
        in if \<not> ok then (False, st1)
           else (True, st1\<lparr>active := AList.delete sid (active st1),
                  retired := (if retire then sid # retired st1 else retired st1)\<rparr>))"

section \<open>Creation\<close>

text \<open>The stages of \<open>create\<close> after the reservation; each \<open>bool\<close> is whether the stage succeeds.\<close>

record create_env =
  c_cgroups :: bool
  c_init_group :: bool
  c_ready_pipe :: bool
  c_request_pipe :: bool
  c_response_pipe :: bool
  c_policy :: bool
  c_start :: bool
  c_oom_score :: bool
  c_ready :: bool

definition create_stages :: "create_env \<Rightarrow> ErrorCode option" where
  "create_stages env =
     (if \<not> c_cgroups env then Some ErrorCodeOperationUnavailable
      else if \<not> c_init_group env then Some ErrorCodeCreationFailed
      else if \<not> c_ready_pipe env then Some ErrorCodeCreationFailed
      else if \<not> c_request_pipe env then Some ErrorCodeCreationFailed
      else if \<not> c_response_pipe env then Some ErrorCodeCreationFailed
      else if \<not> c_policy env then Some ErrorCodeCreationFailed
      else if \<not> c_start env then Some ErrorCodeCreationFailed
      else if \<not> c_oom_score env then Some ErrorCodeCreationFailed
      else if \<not> c_ready env then Some ErrorCodeCreationFailed
      else None)"

text \<open>The deferred function of a creation that did not transfer its process.\<close>

definition abandon :: "nat \<Rightarrow> release_env \<Rightarrow> sandboxCreator \<Rightarrow> sandboxCreator" where
  "abandon i env st =
     (let st1 = upd i (\<lambda>sb. sb\<lparr>cancelled := True\<rparr>) st;
          st2 = snd (releaseLocked (sb_id (objs st ! i)) i False env st1)
      in upd i (\<lambda>sb. sb\<lparr>sb_exited := True, sb_done := True\<rparr>) st2)"

definition transfer :: "nat \<Rightarrow> sandboxCreator \<Rightarrow> sandboxCreator" where
  "transfer i st = upd i (\<lambda>sb. sb\<lparr>process := True\<rparr>) st"

definition finish_creation :: "nat \<Rightarrow> create_env \<Rightarrow> release_env \<Rightarrow> sandboxCreator \<Rightarrow> ErrorCode option \<times> sandboxCreator" where
  "finish_creation i env rel st =
     (case create_stages env of
        None \<Rightarrow> (None, transfer i st)
      | Some code \<Rightarrow> (Some code, abandon i rel st))"

definition create :: "bytes \<Rightarrow> mkdir_result \<Rightarrow> create_env \<Rightarrow> release_env \<Rightarrow> sandboxCreator \<Rightarrow> ErrorCode option \<times> sandboxCreator" where
  "create sid mkdir env rel st =
     (case reserve sid mkdir st of
        (Inl code, st1) \<Rightarrow> (Some code, st1)
      | (Inr i, st1) \<Rightarrow> finish_creation i env rel st1)"

text \<open>The reaper of a transferred process: Init's exit, and the release once no Execution holds the lock.\<close>

definition init_exits :: "nat \<Rightarrow> sandboxCreator \<Rightarrow> sandboxCreator" where
  "init_exits i st = upd i (\<lambda>sb. sb\<lparr>cancelled := True, terminating := True, sb_exited := True\<rparr>) st"

definition reap :: "nat \<Rightarrow> release_env \<Rightarrow> sandboxCreator \<Rightarrow> sandboxCreator" where
  "reap i env st =
     upd i (\<lambda>sb. sb\<lparr>sb_done := True\<rparr>) (snd (releaseLocked (sb_id (objs st ! i)) i True env st))"

section \<open>Destruction and inspection\<close>

text \<open>\<open>destroy\<close> up to its wait: an absent Sandbox is acknowledged at once.\<close>

definition destroy_begin :: "bytes \<Rightarrow> sandboxCreator \<Rightarrow> bool \<times> sandboxCreator" where
  "destroy_begin sid st =
     (case map_of (active st) sid of
        None \<Rightarrow> (True, st\<lparr>results := removeSandbox (results st) sid\<rparr>)
      | Some i \<Rightarrow> (False, (upd i (\<lambda>sb. sb\<lparr>terminating := True, cancelled := True\<rparr>) st)\<lparr>destroyers := (sid, i) # destroyers st\<rparr>))"

text \<open>\<open>destroy\<close> after the wait.\<close>

definition destroy_end :: "bytes \<Rightarrow> nat \<Rightarrow> release_env \<Rightarrow> sandboxCreator \<Rightarrow> ErrorCode option \<times> sandboxCreator" where
  "destroy_end sid i env st =
     (let st1 = (if map_of (active st) sid = Some i \<and> cleanupErr (objs st ! i)
                 then snd (releaseLocked sid i True env st) else st);
          st2 = st1\<lparr>destroyers := remove1 (sid, i) (destroyers st1)\<rparr>
      in if cleanupErr (objs st2 ! i) then (Some ErrorCodeCleanupFailed, st2)
         else (None, st2\<lparr>results := removeSandbox (results st2) sid\<rparr>))"

text \<open>\<open>signal\<close> is whether Init accepts signal 0, \<open>dir\<close> what \<^verbatim>\<open>Lstat\<close> finds. The pipe ends are set
  together with the process.\<close>

definition inspect :: "bytes \<Rightarrow> bool \<Rightarrow> dir_state \<Rightarrow> sandboxCreator \<Rightarrow> ErrorCode option" where
  "inspect sid signal dir st =
     (case map_of (active st) sid of
        None \<Rightarrow> Some ErrorCodeSandboxNotFound
      | Some i \<Rightarrow>
         (let sb = objs st ! i in
          if cleanupErr sb then Some ErrorCodeCleanupFailed
          else if \<not> process sb \<or> terminating sb \<or> ctx_err st sb then Some ErrorCodeSandboxNotFound
          else if sb_exited sb then Some ErrorCodeSandboxNotFound
          else if \<not> signal then Some ErrorCodeSandboxNotFound
          else case dir of DirOwned _ \<Rightarrow> None | _ \<Rightarrow> Some ErrorCodeSandboxNotFound))"

section \<open>Execution\<close>

definition execute_lock :: "bytes \<Rightarrow> bytes \<Rightarrow> bytes list \<Rightarrow> sandboxCreator \<Rightarrow> (ErrorCode + nat) \<times> sandboxCreator" where
  "execute_lock sid xid paths st =
     (case map_of (active st) sid of
        None \<Rightarrow> (Inl ErrorCodeSandboxNotFound, st)
      | Some i \<Rightarrow>
         (let sb = objs st ! i in
          if \<not> process sb \<or> terminating sb \<or> ctx_err st sb then (Inl ErrorCodeSandboxNotFound, st)
          else if phase sb \<noteq> Idle then (Inl ErrorCodeSandboxBusy, st)
          else (Inr i, upd i (\<lambda>sb. sb\<lparr>phase := Locked xid paths\<rparr>) st)))"

definition execute_reserve :: "nat \<Rightarrow> bytes \<Rightarrow> bytes list \<Rightarrow> sandboxCreator \<Rightarrow> ErrorCode option \<times> sandboxCreator" where
  "execute_reserve i xid paths st =
     (let sb = objs st ! i; budget = Budget (config st);
          extractionBytes = allowance (Extraction budget) paths (extractedBytes sb);
          (code, store) = reserve_result (results st) (sb_id sb, xid) (StdoutBytes budget + StderrBytes budget) extractionBytes;
          st1 = st\<lparr>results := store\<rparr>
      in if code \<noteq> None then (code, upd i (\<lambda>sb. sb\<lparr>phase := Idle\<rparr>) st1)
         else (None, upd i (\<lambda>sb. sb\<lparr>phase := Reserved xid paths extractionBytes\<rparr>) st1))"

text \<open>The end of \<open>execute\<close> with the outcome of \<^const>\<open>execute_run\<close>: only a complete handshake counts
  its extracted bytes; the snapshot is frozen before the lock is released.\<close>

definition execute_finish :: "nat \<Rightarrow> bytes \<Rightarrow> bytes list \<Rightarrow> ErrorCode + ExecutePythonResult \<Rightarrow> bool \<Rightarrow> sandboxCreator
    \<Rightarrow> (ErrorCode + ExecutePythonResult) \<times> sandboxCreator" where
  "execute_finish i xid paths outcome killed st =
     (let frozen = freeze_snapshot paths outcome;
          snapshot = (case frozen of Inl _ \<Rightarrow> None | Inr s \<Rightarrow> Some s);
          grown = (case outcome of Inr r \<Rightarrow> if killed then 0 else extractedOutputBytes (Outputs r) | Inl _ \<Rightarrow> 0)
      in (frozen, upd i (\<lambda>sb. sb\<lparr>phase := Idle, extractedBytes := extractedBytes sb + grown\<rparr>)
            (st\<lparr>results := finish_result (results st) (sb_id (objs st ! i), xid) snapshot\<rparr>)))"

section \<open>Runs\<close>

text \<open>
  The steps of a run. \<open>cancel\<close> covers a disconnecting owner (\<open>controlOperation\<close>) and \<open>stop\<close> the end of the
  server. An object under creation has no process and is not done; a waiting destroyer continues when
  the object is done; an Execution that kills Init waits for its exit.
\<close>

inductive sup_step :: "(bytes \<Rightarrow> bytes) \<Rightarrow> sandboxCreator \<Rightarrow> sandboxCreator \<Rightarrow> bool" for sha256 where
  reserving: "sup_step sha256 st (snd (reserve sid mkdir st))"
| creating: "i < length (objs st) \<Longrightarrow> \<not> process (objs st ! i) \<Longrightarrow> \<not> sb_done (objs st ! i) \<Longrightarrow>
    sup_step sha256 st (snd (finish_creation i env rel st))"
| exiting: "i < length (objs st) \<Longrightarrow> process (objs st ! i) \<Longrightarrow> sup_step sha256 st (init_exits i st)"
| reaping: "i < length (objs st) \<Longrightarrow> process (objs st ! i) \<Longrightarrow> sb_exited (objs st ! i) \<Longrightarrow> \<not> sb_done (objs st ! i) \<Longrightarrow>
    phase (objs st ! i) = Idle \<Longrightarrow> sup_step sha256 st (reap i env st)"
| destroying: "sup_step sha256 st (snd (destroy_begin sid st))"
| destroyed: "(sid, i) \<in> set (destroyers st) \<Longrightarrow> sb_done (objs st ! i) \<Longrightarrow>
    sup_step sha256 st (snd (destroy_end sid i env st))"
| cancelling: "i < length (objs st) \<Longrightarrow> sup_step sha256 st (upd i (\<lambda>sb. sb\<lparr>cancelled := True\<rparr>) st)"
| stopping: "sup_step sha256 st (st\<lparr>stopped := True\<rparr>)"
| locking: "sup_step sha256 st (snd (execute_lock sid xid paths st))"
| starting: "i < length (objs st) \<Longrightarrow> phase (objs st ! i) = Locked xid paths \<Longrightarrow>
    sup_step sha256 st (snd (execute_reserve i xid paths st))"
| finishing: "i < length (objs st) \<Longrightarrow> phase (objs st ! i) = Reserved xid paths alloc \<Longrightarrow>
    execute_run sha256 (Budget (config st)) xid paths alloc env = Some (outcome, killed) \<Longrightarrow>
    (killed \<Longrightarrow> sb_exited (objs st ! i)) \<Longrightarrow>
    sup_step sha256 st (snd (execute_finish i xid paths outcome killed st))"

inductive_cases sup_stepE: "sup_step sha256 st st'"

section \<open>Invariant\<close>

text \<open>An object holds its identifier and identities until its release succeeded.\<close>

definition held :: "createdSandbox \<Rightarrow> bool" where
  "held sb \<longleftrightarrow> \<not> sb_done sb \<or> cleanupErr sb"

definition phase_ok :: "sandboxCreator \<Rightarrow> createdSandbox \<Rightarrow> bool" where
  "phase_ok st sb = (case phase sb of
      Idle \<Rightarrow> True
    | Locked xid paths \<Rightarrow> process sb \<and> \<not> sb_done sb
    | Reserved xid paths alloc \<Rightarrow> process sb \<and> \<not> sb_done sb \<and>
        alloc = allowance (Extraction (Budget (config st))) paths (extractedBytes sb) \<and>
        (\<forall>slot. map_of (slots (results st)) (sb_id sb, xid) = Some slot \<longrightarrow>
           extractionReservedBytes slot = alloc \<and> slotResult slot = None))"

text \<open>Init's exit marks the Sandbox as terminating before anything can be released.\<close>

definition life_ok :: "createdSandbox \<Rightarrow> bool" where
  "life_ok sb \<longleftrightarrow> (process sb \<and> (sb_exited sb \<or> sb_done sb) \<longrightarrow> terminating sb) \<and> (sb_exited sb \<and> \<not> process sb \<longrightarrow> sb_done sb)"

definition obj_ok :: "sandboxCreator \<Rightarrow> nat \<Rightarrow> bool" where
  "obj_ok st i \<longleftrightarrow>
     (let sb = objs st ! i in
      (held sb \<longrightarrow> map_of (active st) (sb_id sb) = Some i) \<and>
      (process sb \<and> \<not> held sb \<longrightarrow> sb_id sb \<in> set (retired st)) \<and>
      unat (identityOffset sb) < unat (SubIDCount (config st)) \<and> 65536 dvd unat (identityOffset sb) \<and>
      0 \<le> extractedBytes sb \<and> extractedBytes sb \<le> SandboxBytes (Extraction (Budget (config st))) \<and>
      phase_ok st sb \<and> life_ok sb)"

definition sup_ok :: "sandboxCreator \<Rightarrow> bool" where
  "sup_ok st \<longleftrightarrow>
     distinct (map fst (active st)) \<and>
     (\<forall>(sid, i) \<in> set (active st). i < length (objs st) \<and> sb_id (objs st ! i) = sid \<and> held (objs st ! i)) \<and>
     (\<forall>i < length (objs st). obj_ok st i) \<and>
     (\<forall>i < length (objs st). \<forall>j < length (objs st). held (objs st ! i) \<longrightarrow> held (objs st ! j) \<longrightarrow>
        identityOffset (objs st ! i) = identityOffset (objs st ! j) \<longrightarrow> i = j) \<and>
     (\<forall>sid \<in> set (retired st). map_of (active st) sid = None) \<and>
     (\<forall>(sid, i) \<in> set (destroyers st). i < length (objs st) \<and> sb_id (objs st ! i) = sid) \<and>
     store_ok (results st)"

definition config_ok :: "nat \<Rightarrow> nat \<Rightarrow> ServerConfig \<Rightarrow> bool" where
  "config_ok page euid cfg \<longleftrightarrow> budget_validate (int page) (Budget cfg) \<and> validateSubordinateIDs euid cfg \<and> enabled cfg"

end
