(* ===== verification/SupervisorInvariant.thy ===== *)
theory SupervisorInvariant
  imports Supervisor
begin

text \<open>
  The invariant of the Supervisor's Sandboxes: one lemma for each kind of change (an object update, a
  release, a change of the result store), then one case for each step of a run.
\<close>

section \<open>Object updates\<close>

lemma upd_simps [simp]:
  "config (upd i f st) = config st" "active (upd i f st) = active st" "retired (upd i f st) = retired st"
  "results (upd i f st) = results st" "destroyers (upd i f st) = destroyers st" "stopped (upd i f st) = stopped st"
  "length (objs (upd i f st)) = length (objs st)"
  by (simp_all add: upd_def)

lemma objs_upd: "i < length (objs st) \<Longrightarrow> objs (upd i f st) ! j = (if j = i then f (objs st ! i) else objs st ! j)"
  by (simp add: upd_def nth_list_update)

lemma upd_upd: "i < length (objs st) \<Longrightarrow> upd i f (upd i g st) = upd i (\<lambda>sb. f (g sb)) st"
  by (simp add: upd_def)

lemma phase_ok_cong:
  "config st = config st' \<Longrightarrow> results st = results st' \<Longrightarrow> phase_ok st sb = phase_ok st' sb"
  by (simp add: phase_ok_def split: exec_phase.split)

lemma sup_okD:
  assumes "sup_ok st"
  shows "distinct (map fst (active st))"
    and "(sid, i) \<in> set (active st) \<Longrightarrow> i < length (objs st) \<and> sb_id (objs st ! i) = sid \<and> held (objs st ! i)"
    and "i < length (objs st) \<Longrightarrow> obj_ok st i"
    and "i < length (objs st) \<Longrightarrow> j < length (objs st) \<Longrightarrow> held (objs st ! i) \<Longrightarrow> held (objs st ! j) \<Longrightarrow>
      identityOffset (objs st ! i) = identityOffset (objs st ! j) \<Longrightarrow> i = j"
    and "sid \<in> set (retired st) \<Longrightarrow> map_of (active st) sid = None"
    and "(sid, i) \<in> set (destroyers st) \<Longrightarrow> i < length (objs st) \<and> sb_id (objs st ! i) = sid"
    and "store_ok (results st)"
  using assms unfolding sup_ok_def by blast+

lemma obj_okD:
  assumes "obj_ok st i"
  shows "held (objs st ! i) \<Longrightarrow> map_of (active st) (sb_id (objs st ! i)) = Some i"
    and "process (objs st ! i) \<Longrightarrow> \<not> held (objs st ! i) \<Longrightarrow> sb_id (objs st ! i) \<in> set (retired st)"
    and "unat (identityOffset (objs st ! i)) < unat (SubIDCount (config st))" "65536 dvd unat (identityOffset (objs st ! i))"
    and "0 \<le> extractedBytes (objs st ! i)" "extractedBytes (objs st ! i) \<le> SandboxBytes (Extraction (Budget (config st)))"
    and "phase_ok st (objs st ! i)" "life_ok (objs st ! i)"
  using assms by (simp_all add: obj_ok_def Let_def)

lemma held_unique:
  assumes "sup_ok st" "i < length (objs st)" "j < length (objs st)" "held (objs st ! i)" "held (objs st ! j)"
    and "sb_id (objs st ! i) = sb_id (objs st ! j)"
  shows "i = j"
proof -
  have "map_of (active st) (sb_id (objs st ! i)) = Some i" "map_of (active st) (sb_id (objs st ! j)) = Some j"
    using assms(2-5) by (auto intro!: obj_okD(1) sup_okD(3) [OF assms(1)])
  then show ?thesis unfolding assms(6) by simp
qed

lemma busy_held: "phase_ok st sb \<Longrightarrow> phase sb \<noteq> Idle \<Longrightarrow> held sb \<and> process sb"
  by (auto simp: phase_ok_def held_def split: exec_phase.splits)

lemma upd_ok:
  assumes ok: "sup_ok st" and i: "i < length (objs st)"
    and same: "sb_id (f (objs st ! i)) = sb_id (objs st ! i)" "identityOffset (f (objs st ! i)) = identityOffset (objs st ! i)"
      "held (f (objs st ! i)) = held (objs st ! i)"
    and proc: "process (f (objs st ! i)) \<Longrightarrow> \<not> held (objs st ! i) \<Longrightarrow> process (objs st ! i)"
    and ext: "0 \<le> extractedBytes (f (objs st ! i))"
      "extractedBytes (f (objs st ! i)) \<le> SandboxBytes (Extraction (Budget (config st)))"
    and ph: "phase_ok st (f (objs st ! i))" "life_ok (f (objs st ! i))"
  shows "sup_ok (upd i f st)"
proof -
  have pc: "phase_ok (upd i f st) sb = phase_ok st sb" for sb by (rule phase_ok_cong) simp_all
  have ob: "obj_ok (upd i f st) j" if "j < length (objs st)" for j
    using sup_okD(3) [OF ok that] same proc ext ph
    by (cases "j = i") (auto simp: obj_ok_def Let_def objs_upd [OF i] pc)
  have ids: "sb_id (objs (upd i f st) ! j) = sb_id (objs st ! j)" "held (objs (upd i f st) ! j) = held (objs st ! j)"
    "identityOffset (objs (upd i f st) ! j) = identityOffset (objs st ! j)" for j
    using same by (simp_all add: objs_upd [OF i])
  show ?thesis
    using ok ob unfolding sup_ok_def ids upd_simps by blast
qed

section \<open>Release\<close>

lemma map_of_delete: "map_of (AList.delete k al) = (map_of al)(k := None)"
  by (rule AList.delete_conv')

lemma release_ok:
  assumes ok: "sup_ok st" and i: "i < length (objs st)" and h: "held (objs st ! i)"
    and f: "sb_id (f (objs st ! i)) = sb_id (objs st ! i)" "identityOffset (f (objs st ! i)) = identityOffset (objs st ! i)"
      "\<not> held (f (objs st ! i))" "phase (f (objs st ! i)) = Idle"
      "extractedBytes (f (objs st ! i)) = extractedBytes (objs st ! i)" "life_ok (f (objs st ! i))"
    and r: "process (f (objs st ! i)) \<Longrightarrow> retire"
  shows "sup_ok ((upd i f st)\<lparr>active := AList.delete (sb_id (objs st ! i)) (active st),
    retired := (if retire then sb_id (objs st ! i) # retired st else retired st)\<rparr>)"
proof -
  let ?sid = "sb_id (objs st ! i)"
  let ?st = "(upd i f st)\<lparr>active := AList.delete ?sid (active st), retired := (if retire then ?sid # retired st else retired st)\<rparr>"
  have obs: "objs ?st ! j = (if j = i then f (objs st ! i) else objs st ! j)" for j
    by (simp add: objs_upd [OF i])
  have mo: "map_of (active ?st) = (map_of (active st))(?sid := None)"
    by (simp add: map_of_delete)
  have pc: "phase_ok ?st sb = phase_ok st sb" for sb by (rule phase_ok_cong) simp_all
  have sub: "set (retired st) \<subseteq> set (retired ?st)" by auto
  have ob: "obj_ok ?st j" if j: "j < length (objs st)" for j
  proof (cases "j = i")
    case True
    have "phase_ok st (f (objs st ! i))" using f(4) by (simp add: phase_ok_def)
    then show ?thesis
      using True obj_okD(3-6) [OF sup_okD(3) [OF ok i]] f r pc
      by (simp add: obj_ok_def Let_def objs_upd [OF i])
  next
    case False
    have o: "obj_ok st j" by (rule sup_okD(3) [OF ok j])
    have ne: "held (objs st ! j) \<Longrightarrow> sb_id (objs st ! j) \<noteq> ?sid"
      using held_unique [OF ok j i _ h] False by blast
    show ?thesis
      unfolding obj_ok_def Let_def obs if_not_P [OF False] mo pc
      using obj_okD [OF o] ne sub by auto
  qed
  have act: "\<forall>(n, j) \<in> set (active ?st). j < length (objs ?st) \<and> sb_id (objs ?st ! j) = n \<and> held (objs ?st ! j)"
  proof clarify
    fix n j assume "(n, j) \<in> set (active ?st)"
    then have m: "(n, j) \<in> set (active st)" "n \<noteq> ?sid" by (auto simp: AList.delete_eq)
    then have "j \<noteq> i" using sup_okD(2) [OF ok m(1)] by auto
    then show "j < length (objs ?st) \<and> sb_id (objs ?st ! j) = n \<and> held (objs ?st ! j)"
      using sup_okD(2) [OF ok m(1)] by (simp add: objs_upd [OF i])
  qed
  have off: "\<forall>a < length (objs ?st). \<forall>b < length (objs ?st). held (objs ?st ! a) \<longrightarrow> held (objs ?st ! b) \<longrightarrow>
      identityOffset (objs ?st ! a) = identityOffset (objs ?st ! b) \<longrightarrow> a = b"
    using f(3) sup_okD(4) [OF ok] by (auto simp: objs_upd [OF i] split: if_splits)
  have ret: "\<forall>n \<in> set (retired ?st). map_of (active ?st) n = None"
    unfolding mo using sup_okD(5) [OF ok] by auto
  have dst: "\<forall>(n, j) \<in> set (destroyers ?st). j < length (objs ?st) \<and> sb_id (objs ?st ! j) = n"
    using sup_okD(6) [OF ok] f(1) by (auto simp: objs_upd [OF i])
  have dis: "distinct (map fst (active ?st))" using sup_okD(1) [OF ok] by (simp add: AList.distinct_delete)
  show ?thesis
    unfolding sup_ok_def using dis act ob off ret dst sup_okD(7) [OF ok] by simp
qed

section \<open>The result store\<close>

lemma results_ok:
  assumes ok: "sup_ok st" and s: "store_ok store"
    and k: "\<And>i xid paths alloc slot. i < length (objs st) \<Longrightarrow> phase (objs st ! i) = Reserved xid paths alloc \<Longrightarrow>
      map_of (slots store) (sb_id (objs st ! i), xid) = Some slot \<Longrightarrow> extractionReservedBytes slot = alloc \<and> slotResult slot = None"
  shows "sup_ok (st\<lparr>results := store\<rparr>)"
proof -
  have ob: "obj_ok (st\<lparr>results := store\<rparr>) i" if "i < length (objs st)" for i
    using sup_okD(3) [OF ok that] k [OF that]
    by (auto simp: obj_ok_def Let_def phase_ok_def split: exec_phase.splits)
  show ?thesis
    using ok ob s unfolding sup_ok_def by simp
qed

lemma reserved_slot:
  assumes "sup_ok st" "i < length (objs st)" "phase (objs st ! i) = Reserved xid paths alloc"
    and "map_of (slots (results st)) (sb_id (objs st ! i), xid) = Some slot"
  shows "extractionReservedBytes slot = alloc \<and> slotResult slot = None"
  using obj_okD(7) [OF sup_okD(3) [OF assms(1,2)]] assms(3,4) by (simp add: phase_ok_def)

lemma busy_unique:
  assumes "sup_ok st" "i < length (objs st)" "j < length (objs st)" "phase (objs st ! i) \<noteq> Idle" "phase (objs st ! j) \<noteq> Idle"
    and "sb_id (objs st ! i) = sb_id (objs st ! j)"
  shows "i = j"
  using held_unique [OF assms(1-3) _ _ assms(6)] busy_held [OF obj_okD(7) [OF sup_okD(3) [OF assms(1,2)]] assms(4)]
    busy_held [OF obj_okD(7) [OF sup_okD(3) [OF assms(1,3)]] assms(5)] by blast

lemma remove_ok: "sup_ok st \<Longrightarrow> sup_ok (st\<lparr>results := removeSandbox (results st) sid\<rparr>)"
proof (rule results_ok)
  fix i xid paths alloc slot
  assume ok: "sup_ok st" "i < length (objs st)" "phase (objs st ! i) = Reserved xid paths alloc"
    and "map_of (slots (removeSandbox (results st) sid)) (sb_id (objs st ! i), xid) = Some slot"
  then have "map_of (slots (results st)) (sb_id (objs st ! i), xid) = Some slot"
    by (auto simp: removeSandbox_def map_of_filter_key split: if_splits)
  then show "extractionReservedBytes slot = alloc \<and> slotResult slot = None" by (rule reserved_slot [OF ok])
qed (auto intro: remove_store_ok sup_okD(7))

section \<open>Reservation of identities\<close>

lemma free_offset_facts:
  "65536 dvd count \<Longrightarrow> 65536 dvd offset \<Longrightarrow> offset \<le> count \<Longrightarrow>
     65536 dvd free_offset used count offset \<and> free_offset used count offset \<le> count \<and>
     (free_offset used count offset < count \<longrightarrow> free_offset used count offset \<notin> set used)"
proof (induction used count offset rule: free_offset.induct)
  case (1 used count offset)
  show ?case
  proof (cases "offset < count \<and> offset \<in> set used")
    case True
    then have "offset + 65536 \<le> count" using "1.prems"(1,2) by (auto elim!: dvdE)
    then show ?thesis using 1 True by (subst (1 2 3 4) free_offset.simps) simp
  next
    case False
    then show ?thesis using "1.prems" by (subst (1 2 3 4) free_offset.simps) auto
  qed
qed

text \<open>A reservation appends one object with a fresh identifier and fresh identities, or changes nothing.\<close>

lemma reserve_cases:
  assumes "sup_ok st" and "65536 dvd unat (SubIDCount (config st))"
  obtains code where "reserve sid mkdir st = (Inl code, st)"
  | offset where "reserve sid mkdir st = (Inr (length (objs st)), st\<lparr>objs := objs st @ [new_sandbox sid offset],
        active := (sid, length (objs st)) # active st\<rparr>)"
      "\<not> stopped st" "map_of (active st) sid = None" "sid \<notin> set (retired st)" "65536 dvd unat offset" "unat offset < unat (SubIDCount (config st))"
      "\<And>i. i < length (objs st) \<Longrightarrow> held (objs st ! i) \<Longrightarrow> identityOffset (objs st ! i) \<noteq> offset"
proof -
  let ?used = "map (\<lambda>(n, i). unat (identityOffset (objs st ! i))) (active st)"
  let ?count = "unat (SubIDCount (config st))"
  let ?o = "free_offset ?used ?count 0"
  have o: "65536 dvd ?o" "?o \<le> ?count" "?o < ?count \<Longrightarrow> ?o \<notin> set ?used"
    using free_offset_facts [OF assms(2), of 0 ?used] by simp_all
  have fresh: "identityOffset (objs st ! i) \<noteq> of_nat ?o" if i: "i < length (objs st)" "held (objs st ! i)" "?o < ?count" for i
  proof
    assume eq: "identityOffset (objs st ! i) = of_nat ?o"
    have "?o < 2 ^ 64" using i(3) unsigned_less [of "SubIDCount (config st)", where ?'a = nat] by simp
    then have "unat (identityOffset (objs st ! i)) = ?o" unfolding eq by (simp add: unsigned_of_nat take_bit_nat_eq_self)
    moreover have "(sb_id (objs st ! i), i) \<in> set (active st)"
      using obj_okD(1) [OF sup_okD(3) [OF assms(1) i(1)] i(2)] by (rule map_of_SomeD)
    ultimately have "?o \<in> set ?used" by force
    then show False using o(3) [OF i(3)] by simp
  qed
  show ?thesis
  proof (cases "\<not> stopped st \<and> map_of (active st) sid = None \<and> sid \<notin> set (retired st) \<and> ?o \<noteq> ?count \<and> mkdir = MkdirOk")
    case True
    then have lt: "?o < ?count" using o(2) by simp
    have "?o < 2 ^ 64" using lt unsigned_less [of "SubIDCount (config st)", where ?'a = nat] by simp
    then have u: "unat (of_nat ?o :: u64) = ?o" by (simp add: unsigned_of_nat take_bit_nat_eq_self)
    show ?thesis
      by (rule that(2) [of "of_nat ?o"]) (use True lt u o(1) fresh in \<open>simp_all add: reserve_def Let_def\<close>)
  next
    case False
    then have "\<exists>code. reserve sid mkdir st = (Inl code, st)"
      by (auto simp: reserve_def Let_def split: mkdir_result.split)
    then show ?thesis using that(1) by blast
  qed
qed

lemma appended_ok:
  assumes ok: "sup_ok st" and id: "map_of (active st) sid = None" "sid \<notin> set (retired st)"
    and off: "65536 dvd unat offset" "unat offset < unat (SubIDCount (config st))"
      "\<And>i. i < length (objs st) \<Longrightarrow> held (objs st ! i) \<Longrightarrow> identityOffset (objs st ! i) \<noteq> offset"
    and sz: "0 \<le> SandboxBytes (Extraction (Budget (config st)))"
  shows "sup_ok (st\<lparr>objs := objs st @ [new_sandbox sid offset], active := (sid, length (objs st)) # active st\<rparr>)"
proof -
  let ?st = "st\<lparr>objs := objs st @ [new_sandbox sid offset], active := (sid, length (objs st)) # active st\<rparr>"
  have pc: "phase_ok ?st sb = phase_ok st sb" for sb by (rule phase_ok_cong) simp_all
  have old: "i < length (objs st) \<Longrightarrow> objs ?st ! i = objs st ! i" for i by (simp add: nth_append)
  have new: "objs ?st ! length (objs st) = new_sandbox sid offset" by simp
  have ob: "obj_ok ?st i" if "i < Suc (length (objs st))" for i
  proof (cases "i < length (objs st)")
    case True
    have o: "obj_ok st i" by (rule sup_okD(3) [OF ok True])
    have "held (objs st ! i) \<Longrightarrow> sb_id (objs st ! i) \<noteq> sid" using obj_okD(1) [OF o] id(1) by auto
    then show ?thesis unfolding obj_ok_def Let_def old [OF True] pc using obj_okD [OF o] by auto
  next
    case False
    then have "i = length (objs st)" using that by simp
    then show ?thesis
      using off sz by (simp add: obj_ok_def Let_def new_sandbox_def held_def phase_ok_def life_ok_def)
  qed
  have keys: "sid \<notin> fst ` set (active st)" using id(1) by (simp add: map_of_eq_None_iff)
  show ?thesis
    unfolding sup_ok_def
  proof (intro conjI)
    show "distinct (map fst (active ?st))" using sup_okD(1) [OF ok] keys by simp
    show "\<forall>(n, i) \<in> set (active ?st). i < length (objs ?st) \<and> sb_id (objs ?st ! i) = n \<and> held (objs ?st ! i)"
      using sup_okD(2) [OF ok] by (auto simp: nth_append new_sandbox_def held_def less_Suc_eq)
    show "\<forall>i < length (objs ?st). obj_ok ?st i" using ob by simp
    show "\<forall>i < length (objs ?st). \<forall>j < length (objs ?st). held (objs ?st ! i) \<longrightarrow> held (objs ?st ! j) \<longrightarrow>
        identityOffset (objs ?st ! i) = identityOffset (objs ?st ! j) \<longrightarrow> i = j"
      using sup_okD(4) [OF ok] off(3) by (auto simp: nth_append new_sandbox_def less_Suc_eq)
    show "\<forall>n \<in> set (retired ?st). map_of (active ?st) n = None" using sup_okD(5) [OF ok] id(2) by auto
    show "\<forall>(n, i) \<in> set (destroyers ?st). i < length (objs ?st) \<and> sb_id (objs ?st ! i) = n"
      using sup_okD(6) [OF ok] by (auto simp: nth_append)
    show "store_ok (results ?st)" using sup_okD(7) [OF ok] by simp
  qed
qed

section \<open>Steps\<close>

text \<open>What a run needs of its configuration.\<close>

definition valid_config :: "ServerConfig \<Rightarrow> bool" where
  "valid_config cfg \<longleftrightarrow> 65536 dvd unat (SubIDCount cfg) \<and> extraction_validate (Extraction (Budget cfg)) \<and>
     0 < StdoutBytes (Budget cfg) \<and> 0 < StderrBytes (Budget cfg)"

lemma config_ok_valid: "config_ok page euid cfg \<Longrightarrow> valid_config cfg"
  using subordinate_bound(3) [of euid cfg] budget_output_bounds [of "int page" "Budget cfg"]
  by (simp add: config_ok_def valid_config_def)

lemma valid_config_facts:
  assumes "valid_config cfg"
  shows "65536 dvd unat (SubIDCount cfg)" "extraction_validate (Extraction (Budget cfg))"
    "0 \<le> StdoutBytes (Budget cfg) + StderrBytes (Budget cfg)" "0 \<le> SandboxBytes (Extraction (Budget cfg))"
  using assms by (auto simp: valid_config_def extraction_validate_def split: if_splits)

lemma releaseLocked_snd:
  assumes "i < length (objs st)"
  shows "snd (releaseLocked sid i retire env st) =
    (if r_cgroups_closed env \<and> directory_removed (r_dir env)
     then (upd i (\<lambda>sb. sb\<lparr>cleanupErr := False\<rparr>) st)\<lparr>active := AList.delete sid (active st),
       retired := (if retire then sid # retired st else retired st)\<rparr>
     else upd i (\<lambda>sb. sb\<lparr>cleanupErr := True\<rparr>) st)"
  by (simp add: releaseLocked_def Let_def)

lemma upd_after: "upd i f (st\<lparr>active := a, retired := r\<rparr>) = (upd i f st)\<lparr>active := a, retired := r\<rparr>"
  by (simp add: upd_def)

lemma upd_results: "upd i f (st\<lparr>results := s\<rparr>) = (upd i f st)\<lparr>results := s\<rparr>"
  by (simp add: upd_def)

text \<open>A release followed by the end of the object, as the abandoned creation and the reaper do it.\<close>

lemma ended_ok:
  assumes ok: "sup_ok st" and i: "i < length (objs st)" and nd: "\<not> sb_done (objs st ! i)" and idle: "phase (objs st ! i) = Idle"
    and g: "\<And>sb. sb_id (g sb) = sb_id sb \<and> identityOffset (g sb) = identityOffset sb \<and> sb_done (g sb) \<and>
      cleanupErr (g sb) = cleanupErr sb \<and> phase (g sb) = phase sb \<and> extractedBytes (g sb) = extractedBytes sb \<and> process (g sb) = process sb \<and>
      terminating (g sb) = terminating sb"
    and r: "process (objs st ! i) \<Longrightarrow> retire \<and> terminating (objs st ! i)"
  shows "sup_ok (upd i g (snd (releaseLocked (sb_id (objs st ! i)) i retire env st)))"
proof -
  have h: "held (objs st ! i)" using nd by (simp add: held_def)
  note o = sup_okD(3) [OF ok i]
  show ?thesis
  proof (cases "r_cgroups_closed env \<and> directory_removed (r_dir env)")
    case True
    have "sup_ok ((upd i (\<lambda>sb. g (sb\<lparr>cleanupErr := False\<rparr>)) st)\<lparr>active := AList.delete (sb_id (objs st ! i)) (active st),
        retired := (if retire then sb_id (objs st ! i) # retired st else retired st)\<rparr>)"
      by (rule release_ok [OF ok i h]) (simp_all add: g held_def idle r life_ok_def)
    then show ?thesis unfolding releaseLocked_snd [OF i] if_P [OF True] upd_after upd_upd [OF i] .
  next
    case False
    have "sup_ok (upd i (\<lambda>sb. g (sb\<lparr>cleanupErr := True\<rparr>)) st)"
      by (rule upd_ok [OF ok i]) (use obj_okD(5-6) [OF o] h r in \<open>simp_all add: g held_def phase_ok_def idle life_ok_def\<close>)
    then show ?thesis unfolding releaseLocked_snd [OF i] if_not_P [OF False] upd_upd [OF i] .
  qed
qed

lemma plain_upd_ok:
  assumes ok: "sup_ok st" and i: "i < length (objs st)"
    and f: "\<And>sb. sb_id (f sb) = sb_id sb \<and> identityOffset (f sb) = identityOffset sb \<and> sb_done (f sb) = sb_done sb \<and>
      cleanupErr (f sb) = cleanupErr sb \<and> phase (f sb) = phase sb \<and> extractedBytes (f sb) = extractedBytes sb \<and> process (f sb) = process sb"
    and l: "life_ok (f (objs st ! i))"
  shows "sup_ok (upd i f st)"
proof -
  note o = sup_okD(3) [OF ok i]
  show ?thesis
    by (rule upd_ok [OF ok i])
      (use obj_okD(5-7) [OF o] l in \<open>simp_all add: f held_def phase_ok_def split: exec_phase.splits\<close>)
qed

lemma destroyers_ok:
  assumes "sup_ok st" and "\<And>n j. (n, j) \<in> set ds \<Longrightarrow> j < length (objs st) \<and> sb_id (objs st ! j) = n"
  shows "sup_ok (st\<lparr>destroyers := ds\<rparr>)"
proof -
  have "phase_ok (st\<lparr>destroyers := ds\<rparr>) sb = phase_ok st sb" for sb by (rule phase_ok_cong) simp_all
  then have "obj_ok (st\<lparr>destroyers := ds\<rparr>) j = obj_ok st j" for j by (simp add: obj_ok_def)
  moreover have "\<forall>(n, j) \<in> set ds. j < length (objs st) \<and> sb_id (objs st ! j) = n" using assms(2) by blast
  ultimately show ?thesis using assms(1) unfolding sup_ok_def by simp
qed

lemma creation_ok:
  assumes ok: "sup_ok st" and i: "i < length (objs st)" and c: "\<not> process (objs st ! i)" "\<not> sb_done (objs st ! i)"
  shows "sup_ok (snd (finish_creation i env rel st))"
proof -
  note o = sup_okD(3) [OF ok i]
  have idle: "phase (objs st ! i) = Idle" using busy_held [OF obj_okD(7) [OF o]] c(1) by blast
  show ?thesis
  proof (cases "create_stages env")
    case None
    have "sup_ok (transfer i st)"
      unfolding transfer_def
      by (rule upd_ok [OF ok i]) (use obj_okD(5-8) [OF o] c in \<open>simp_all add: held_def phase_ok_def idle life_ok_def\<close>)
    then show ?thesis by (simp add: finish_creation_def None)
  next
    case (Some code)
    let ?st = "upd i (\<lambda>sb. sb\<lparr>cancelled := True\<rparr>) st"
    have ok1: "sup_ok ?st" by (rule plain_upd_ok [OF ok i]) (use obj_okD(8) [OF o] in \<open>simp_all add: life_ok_def\<close>)
    have i1: "i < length (objs ?st)" using i by simp
    have "sup_ok (upd i (\<lambda>sb. sb\<lparr>sb_exited := True, sb_done := True\<rparr>)
        (snd (releaseLocked (sb_id (objs ?st ! i)) i False rel ?st)))"
      by (rule ended_ok [OF ok1 i1]) (simp_all add: objs_upd [OF i] c idle)
    then show ?thesis by (simp add: finish_creation_def Some abandon_def Let_def objs_upd [OF i])
  qed
qed

lemma destroy_end_ok:
  assumes ok: "sup_ok st" and d: "(sid, i) \<in> set (destroyers st)" and dn: "sb_done (objs st ! i)"
  shows "sup_ok (snd (destroy_end sid i env st))"
proof -
  have i: "i < length (objs st)" and sid: "sb_id (objs st ! i) = sid" using sup_okD(6) [OF ok d] by simp_all
  note o = sup_okD(3) [OF ok i]
  have idle: "phase (objs st ! i) = Idle"
    using obj_okD(7) [OF o] dn by (auto simp: phase_ok_def split: exec_phase.splits)
  define st1 where "st1 = (if map_of (active st) sid = Some i \<and> cleanupErr (objs st ! i)
      then snd (releaseLocked sid i True env st) else st)"
  have ok1: "sup_ok st1"
  proof (cases "map_of (active st) sid = Some i \<and> cleanupErr (objs st ! i)")
    case True
    then have h: "held (objs st ! i)" by (simp add: held_def)
    show ?thesis
    proof (cases "r_cgroups_closed env \<and> directory_removed (r_dir env)")
      case rel: True
      have "sup_ok ((upd i (\<lambda>sb. sb\<lparr>cleanupErr := False\<rparr>) st)\<lparr>active := AList.delete (sb_id (objs st ! i)) (active st),
          retired := (if True then sb_id (objs st ! i) # retired st else retired st)\<rparr>)"
        by (rule release_ok [OF ok i h]) (use obj_okD(8) [OF o] in \<open>simp_all add: held_def idle dn life_ok_def\<close>)
      then show ?thesis unfolding st1_def if_P [OF True] releaseLocked_snd [OF i] if_P [OF rel] sid .
    next
      case rel: False
      have "sup_ok (upd i (\<lambda>sb. sb\<lparr>cleanupErr := True\<rparr>) st)"
        by (rule upd_ok [OF ok i]) (use obj_okD(5-8) [OF o] True dn in \<open>simp_all add: held_def phase_ok_def idle life_ok_def\<close>)
      then show ?thesis unfolding st1_def if_P [OF True] releaseLocked_snd [OF i] if_not_P [OF rel] .
    qed
  qed (unfold st1_def, simp only: if_False ok)
  have ok2: "sup_ok (st1\<lparr>destroyers := remove1 (sid, i) (destroyers st1)\<rparr>)"
    by (rule destroyers_ok [OF ok1], rule sup_okD(6) [OF ok1], erule subsetD [OF set_remove1_subset])
  show ?thesis
    unfolding destroy_end_def Let_def st1_def [symmetric] using ok2 remove_ok [OF ok2] by simp
qed

lemma execute_lock_ok:
  assumes ok: "sup_ok st"
  shows "sup_ok (snd (execute_lock sid xid paths st))"
proof (cases "execute_lock sid xid paths st")
  case (Pair res st')
  show ?thesis
  proof (cases res)
    case (Inl code)
    then have "st' = st" using Pair by (auto simp: execute_lock_def Let_def split: option.splits if_splits)
    then show ?thesis using Pair ok by simp
  next
    case (Inr i)
    then have a: "map_of (active st) sid = Some i" and p: "process (objs st ! i)" and t: "\<not> terminating (objs st ! i)"
      and idle: "phase (objs st ! i) = Idle" and st': "st' = upd i (\<lambda>sb. sb\<lparr>phase := Locked xid paths\<rparr>) st"
      and ct: "\<not> ctx_err st (objs st ! i)"
      using Pair by (auto simp: execute_lock_def Let_def split: option.splits if_splits)
    have i: "i < length (objs st)" and h: "held (objs st ! i)" using sup_okD(2) [OF ok map_of_SomeD [OF a]] by simp_all
    note o = sup_okD(3) [OF ok i]
    have "\<not> sb_done (objs st ! i)" using obj_okD(8) [OF o] p t by (simp add: life_ok_def)
    then have "sup_ok (upd i (\<lambda>sb. sb\<lparr>phase := Locked xid paths\<rparr>) st)"
      by (intro upd_ok [OF ok i]) (use obj_okD(5-8) [OF o] p in \<open>simp_all add: held_def phase_ok_def life_ok_def\<close>)
    then show ?thesis using Pair st' by simp
  qed
qed

lemma execute_reserve_ok:
  assumes ok: "sup_ok st" and i: "i < length (objs st)" and l: "phase (objs st ! i) = Locked xid paths"
    and c: "valid_config (config st)"
  shows "sup_ok (snd (execute_reserve i xid paths st))"
proof -
  note o = sup_okD(3) [OF ok i] and v = valid_config_facts [OF c]
  let ?budget = "Budget (config st)"
  let ?alloc = "allowance (Extraction ?budget) paths (extractedBytes (objs st ! i))"
  let ?ref = "(sb_id (objs st ! i), xid)"
  let ?ob = "StdoutBytes ?budget + StderrBytes ?budget"
  obtain code store where res: "reserve_result (results st) ?ref ?ob ?alloc = (code, store)" by (cases "reserve_result (results st) ?ref ?ob ?alloc")
  have alloc: "0 \<le> ?alloc" using allowance_bounds(1) [OF v(2)] obj_okD(5,6) [OF o] by simp
  have so: "store_ok store" using reserve_store_ok [OF sup_okD(7) [OF ok] v(3) alloc, of ?ref] res by simp
  have live: "process (objs st ! i)" "\<not> sb_done (objs st ! i)" using obj_okD(7) [OF o] l by (simp_all add: phase_ok_def)
  have slots': "slots store = (if code = None then (?ref, \<lparr>slotBytes = ?ob + ?alloc, extractionReservedBytes = ?alloc, slotResult = None\<rparr>)
      # slots (results st) else slots (results st))"
    using res by (auto simp: reserve_result_def Let_def split: if_splits)
  have ok1: "sup_ok (st\<lparr>results := store\<rparr>)"
  proof (rule results_ok [OF ok so])
    fix j xid' paths' a slot
    assume j: "j < length (objs st)" "phase (objs st ! j) = Reserved xid' paths' a"
      and m: "map_of (slots store) (sb_id (objs st ! j), xid') = Some slot"
    have "j \<noteq> i" using j(2) l by auto
    then have "sb_id (objs st ! j) \<noteq> sb_id (objs st ! i)" using busy_unique [OF ok j(1) i] j(2) l by auto
    then have "map_of (slots (results st)) (sb_id (objs st ! j), xid') = Some slot"
      using m by (auto simp: slots' split: if_splits)
    then show "extractionReservedBytes slot = a \<and> slotResult slot = None" by (rule reserved_slot [OF ok j])
  qed
  have i1: "i < length (objs (st\<lparr>results := store\<rparr>))" using i by simp
  have idle: "sup_ok (upd i (\<lambda>sb. sb\<lparr>phase := Idle\<rparr>) (st\<lparr>results := store\<rparr>))"
    by (rule upd_ok [OF ok1 i1]) (use obj_okD(5-8) [OF o] in \<open>simp_all add: held_def phase_ok_def life_ok_def\<close>)
  have busy: "sup_ok (upd i (\<lambda>sb. sb\<lparr>phase := Reserved xid paths ?alloc\<rparr>) (st\<lparr>results := store\<rparr>))" if "code = None"
    by (rule upd_ok [OF ok1 i1])
      (use obj_okD(5-8) [OF o] live that in \<open>simp_all add: held_def phase_ok_def life_ok_def slots'\<close>)
  show ?thesis
    using idle busy by (simp add: execute_reserve_def Let_def res)
qed

lemma finish_other:
  "r \<noteq> ref \<Longrightarrow> map_of (slots (finish_result store ref res)) r = map_of (slots store) r"
  by (auto simp: finish_result_def Let_def AList.update_conv' map_of_delete split: option.splits)

lemma frozen_outputs:
  assumes "freeze_snapshot paths outcome = Inr s"
  obtains r where "outcome = Inr r" "Outputs s = Outputs r"
  using assms by (cases outcome) (auto simp: freeze_snapshot_def split: if_splits)

lemma execute_finish_ok:
  assumes ok: "sup_ok st" and i: "i < length (objs st)" and l: "phase (objs st ! i) = Reserved xid paths alloc"
    and run: "execute_run sha256 (Budget (config st)) xid paths alloc env = Some (outcome, killed)" and c: "valid_config (config st)"
  shows "sup_ok (snd (execute_finish i xid paths outcome killed st))"
proof -
  note o = sup_okD(3) [OF ok i] and v = valid_config_facts [OF c]
  let ?ref = "(sb_id (objs st ! i), xid)"
  let ?snap = "case freeze_snapshot paths outcome of Inl _ \<Rightarrow> None | Inr s \<Rightarrow> Some s"
  let ?store = "finish_result (results st) ?ref ?snap"
  let ?grown = "case outcome of Inr r \<Rightarrow> if killed then 0 else extractedOutputBytes (Outputs r) | Inl _ \<Rightarrow> 0"
  have alloc: "alloc = allowance (Extraction (Budget (config st))) paths (extractedBytes (objs st ! i))"
    using obj_okD(7) [OF o] l by (simp add: phase_ok_def)
  note ab = allowance_bounds [OF v(2) obj_okD(5,6) [OF o], of paths, folded alloc]
  have out: "extractedOutputBytes (Outputs r) \<le> alloc" if r: "outcome = Inr r" for r
  proof -
    obtain s where s: "freeze_snapshot paths (Inr r) = Inr s" by (simp add: freeze_Inr)
    have "extractedOutputBytes (Outputs s) \<le> alloc" using execution_result_facts [OF run [unfolded r] s ab(1)] by blast
    moreover have "Outputs s = Outputs r" using frozen_outputs [OF s] by auto
    ultimately show ?thesis by simp
  qed
  have so: "store_ok ?store"
  proof (rule finish_store_ok [OF sup_okD(7) [OF ok]])
    fix slot snapshot
    assume m: "map_of (slots (results st)) ?ref = Some slot" and sn: "?snap = Some snapshot"
    then have "freeze_snapshot paths outcome = Inr snapshot" by (auto split: sum.splits)
    then obtain r where "outcome = Inr r" "Outputs snapshot = Outputs r" by (rule frozen_outputs)
    then show "extractedOutputBytes (Outputs snapshot) \<le> extractionReservedBytes slot"
      using out reserved_slot [OF ok i l m] by simp
  qed
  have ok0: "sup_ok (upd i (\<lambda>sb. sb\<lparr>phase := Idle, extractedBytes := extractedBytes sb + ?grown\<rparr>) st)"
  proof (rule upd_ok [OF ok i])
    have "0 \<le> ?grown" "?grown \<le> alloc"
      using out ab(1) by (auto simp: extractedOutputBytes_def intro!: sum_list_nonneg split: sum.split)
    then show "0 \<le> extractedBytes ((objs st ! i)\<lparr>phase := Idle, extractedBytes := extractedBytes (objs st ! i) + ?grown\<rparr>)"
      "extractedBytes ((objs st ! i)\<lparr>phase := Idle, extractedBytes := extractedBytes (objs st ! i) + ?grown\<rparr>)
        \<le> SandboxBytes (Extraction (Budget (config st)))"
      using obj_okD(5) [OF o] ab(3) by simp_all
  qed (use obj_okD(8) [OF o] in \<open>simp_all add: held_def phase_ok_def life_ok_def\<close>)
  let ?st = "upd i (\<lambda>sb. sb\<lparr>phase := Idle, extractedBytes := extractedBytes sb + ?grown\<rparr>) st"
  have "sup_ok (?st\<lparr>results := ?store\<rparr>)"
  proof (rule results_ok [OF ok0 so])
    fix j xid' paths' a slot
    assume j: "j < length (objs ?st)" "phase (objs ?st ! j) = Reserved xid' paths' a"
      and m: "map_of (slots ?store) (sb_id (objs ?st ! j), xid') = Some slot"
    have ne: "j \<noteq> i" using j(2) by (auto simp: objs_upd [OF i])
    have j1: "j < length (objs st)" "phase (objs st ! j) = Reserved xid' paths' a" using j ne by (simp_all add: objs_upd [OF i])
    then have "sb_id (objs st ! j) \<noteq> sb_id (objs st ! i)" using busy_unique [OF ok j1(1) i] ne l by auto
    then have "map_of (slots (results st)) (sb_id (objs st ! j), xid') = Some slot"
      using m ne by (simp add: objs_upd [OF i] finish_other)
    then show "extractionReservedBytes slot = a \<and> slotResult slot = None" by (rule reserved_slot [OF ok j1])
  qed
  then show ?thesis by (simp add: execute_finish_def Let_def upd_results)
qed

lemma step_config: "sup_step sha256 st st' \<Longrightarrow> config st' = config st"
proof (induction rule: sup_step.induct)
  case (reserving st sid mkdir)
  then show ?case by (simp add: reserve_def Let_def split: mkdir_result.split)
next
  case (creating i st env rel)
  then show ?case by (simp add: finish_creation_def transfer_def abandon_def releaseLocked_def Let_def split: option.split)
next
  case (starting i st xid paths)
  then show ?case by (simp add: execute_reserve_def Let_def split: prod.split)
qed (simp_all add: init_exits_def reap_def releaseLocked_def destroy_begin_def destroy_end_def execute_lock_def
    execute_finish_def Let_def split: option.split)

lemma sup_step_ok:
  assumes "sup_step sha256 st st'" and "valid_config (config st)" and "sup_ok st"
  shows "sup_ok st'"
  using assms
proof (induction rule: sup_step.induct)
  case (reserving st sid mkdir)
  note v = valid_config_facts [OF reserving(1)]
  show ?case
  proof (cases rule: reserve_cases [OF reserving(2) v(1), where sid = sid and mkdir = mkdir])
    case (2 offset)
    show ?thesis unfolding 2(1) snd_conv using reserving(2) 2(3-6) v(4) by (intro appended_ok) (use 2(7) in auto)
  qed (simp add: reserving(2))
next
  case (exiting i st)
  have "life_ok (objs st ! i)" using obj_okD(8) [OF sup_okD(3) [OF exiting(4,1)]] .
  then show ?case unfolding init_exits_def
    by (intro plain_upd_ok [OF exiting(4,1)]) (use exiting(2) in \<open>simp_all add: life_ok_def\<close>)
next
  case (reaping i st env)
  have "terminating (objs st ! i)"
    using obj_okD(8) [OF sup_okD(3) [OF reaping(7,1)]] reaping(2,3) by (simp add: life_ok_def)
  then show ?case unfolding reap_def using reaping(1,4,5,7) by (intro ended_ok) simp_all
next
  case (destroying st sid)
  show ?case
  proof (cases "map_of (active st) sid")
    case None
    then show ?thesis using remove_ok [OF destroying(2)] by (simp add: destroy_begin_def)
  next
    case (Some i)
    have i: "i < length (objs st)" "sb_id (objs st ! i) = sid" using sup_okD(2) [OF destroying(2) map_of_SomeD [OF Some]] by simp_all
    let ?st = "upd i (\<lambda>sb. sb\<lparr>terminating := True, cancelled := True\<rparr>) st"
    have ok: "sup_ok ?st"
      by (rule plain_upd_ok [OF destroying(2) i(1)])
        (use obj_okD(8) [OF sup_okD(3) [OF destroying(2) i(1)]] in \<open>simp_all add: life_ok_def\<close>)
    have "sup_ok (?st\<lparr>destroyers := (sid, i) # destroyers st\<rparr>)"
      by (rule destroyers_ok [OF ok]) (use i sup_okD(6) [OF destroying(2)] in \<open>auto simp: objs_upd [OF i(1)]\<close>)
    then show ?thesis by (simp add: destroy_begin_def Some)
  qed
next
  case (cancelling i st)
  then show ?case
    by (intro plain_upd_ok) (use obj_okD(8) [OF sup_okD(3) [OF cancelling(3,1)]] in \<open>simp_all add: life_ok_def\<close>)
next
  case (stopping st)
  have "phase_ok (st\<lparr>stopped := True\<rparr>) sb = phase_ok st sb" for sb by (rule phase_ok_cong) simp_all
  then have "obj_ok (st\<lparr>stopped := True\<rparr>) j = obj_ok st j" for j by (simp add: obj_ok_def)
  then show ?case using stopping unfolding sup_ok_def by simp
qed (auto intro: creation_ok destroy_end_ok execute_lock_ok execute_reserve_ok execute_finish_ok)

lemma initial_ok: "sup_ok (newSandboxCreator cfg)"
  by (simp add: sup_ok_def newSandboxCreator_def empty_store_ok)

lemma sup_run_ok:
  assumes "(sup_step sha256)\<^sup>*\<^sup>* (newSandboxCreator cfg) st" and "config_ok page euid cfg"
  shows "sup_ok st" and "config st = cfg"
proof -
  have "sup_ok st \<and> config st = cfg" using assms(1)
  proof (induction rule: rtranclp_induct)
    case base
    then show ?case using initial_ok by (simp add: newSandboxCreator_def)
  next
    case (step st st')
    then show ?case using sup_step_ok [OF step(2)] step_config [OF step(2)] config_ok_valid [OF assms(2)] by simp
  qed
  then show "sup_ok st" "config st = cfg" by simp_all
qed

end
