(* ===== verification/SupervisorProperties.thy ===== *)
theory SupervisorProperties
  imports SupervisorInvariant
begin

text \<open>
  What the Supervisor guarantees in every run of concurrent operations: disjoint identities, no reuse of
  a retired identifier, bounded extraction, and honest answers of \<open>destroy\<close> and \<open>execute\<close>.
\<close>

section \<open>Identities\<close>

lemma block_within:
  assumes "unat start + unat count \<le> 4294967295" and "unat off < unat count" and "65536 dvd unat count" "65536 dvd unat off"
  shows "identity_block start off = {unat start + unat off ..< unat start + unat off + 65536}"
    and "unat off + 65536 \<le> unat count"
proof -
  have "unat start + unat off < 2 ^ 64" using assms(1,2) by simp
  then have "unat (start + off) = unat start + unat off" by (simp add: unat_word_ariths)
  then show "identity_block start off = {unat start + unat off ..< unat start + unat off + 65536}"
    by (simp add: identity_block_def sandboxIdentityCount_def)
  show "unat off + 65536 \<le> unat count" using assms(2-4) by (auto elim!: dvdE)
qed

lemma blocks_disjoint:
  assumes "65536 dvd a" "65536 dvd b" "a \<noteq> (b :: nat)"
  shows "{s + a ..< s + a + 65536} \<inter> {s + b ..< s + b + 65536} = {}"
proof -
  obtain k l where "a = 65536 * k" "b = 65536 * l" using assms(1,2) by (auto elim!: dvdE)
  moreover have "k < l \<or> l < k" using assms(3) calculation by auto
  ultimately show ?thesis by auto
qed

text \<open>
  C4. In every run, however operations interleave, the Sandboxes that are active at the same time map
  disjoint blocks of host user and group identifiers. Every block lies inside the configured
  subordinate range, which ends below the identifier reserved by the kernel.
\<close>

theorem identities_disjoint:
  assumes "(sup_step sha256)\<^sup>*\<^sup>* (newSandboxCreator cfg) st" and "config_ok page euid cfg"
    and "(a, i) \<in> set (active st)" and "(b, j) \<in> set (active st)" and "a \<noteq> b" and "start \<in> {SubUIDStart cfg, SubGIDStart cfg}"
  shows "identity_block start (identityOffset (objs st ! i)) \<inter> identity_block start (identityOffset (objs st ! j)) = {} \<and>
    identity_block start (identityOffset (objs st ! i)) \<subseteq> {unat start ..< unat start + unat (SubIDCount cfg)} \<and>
    unat start + unat (SubIDCount cfg) \<le> 4294967295"
proof -
  have ok: "sup_ok st" and cfg: "config st = cfg" using sup_run_ok [OF assms(1,2)] by simp_all
  have b: "unat start + unat (SubIDCount cfg) \<le> 4294967295" "65536 dvd unat (SubIDCount cfg)"
    using subordinate_bound(1-3) [of euid cfg] assms(2,6) by (auto simp: config_ok_def)
  note I = sup_okD(2) [OF ok assms(3)] and J = sup_okD(2) [OF ok assms(4)]
  have "i \<noteq> j" using I J assms(5) by auto
  then have ne: "identityOffset (objs st ! i) \<noteq> identityOffset (objs st ! j)" using sup_okD(4) [OF ok, of i j] I J by blast
  note oi = obj_okD(3,4) [OF sup_okD(3) [OF ok], of i, unfolded cfg] and oj = obj_okD(3,4) [OF sup_okD(3) [OF ok], of j, unfolded cfg]
  note bi = block_within [OF b(1) oi(1) b(2) oi(2)] and bj = block_within [OF b(1) oj(1) b(2) oj(2)]
  have "{unat start + unat (identityOffset (objs st ! i)) ..< unat start + unat (identityOffset (objs st ! i)) + 65536} \<inter>
      {unat start + unat (identityOffset (objs st ! j)) ..< unat start + unat (identityOffset (objs st ! j)) + 65536} = {}"
    by (rule blocks_disjoint) (use I J oi oj ne in \<open>simp_all add: word_unat_eq_iff\<close>)
  then show ?thesis
    using b(1) bi(1) bj(1) bi(2) I J by auto
qed

section \<open>Sample run\<close>

definition sample_config :: ServerConfig where
  "sample_config = \<lparr>SubUIDStart = 100000, SubGIDStart = 200000, SubIDCount = 131072, Budget = DefaultResourceBudget\<rparr>"

lemma sample_config_ok: "config_ok 4096 0 sample_config"
proof -
  have "budget_validate 4096 DefaultResourceBudget"
    by (simp add: budget_validate_def DefaultResourceBudget_def validOutputBudget_def storage_validate_def
      extraction_validate_def maximumOutputBytes_def maximumExtractionBytes_def maximumExtractedFiles_def)
  moreover have "validateSubordinateIDs 0 sample_config" "enabled sample_config" by code_simp+
  ultimately show ?thesis by (simp add: config_ok_def sample_config_def)
qed

definition smooth_creation :: create_env where
  "smooth_creation = \<lparr>c_cgroups = True, c_init_group = True, c_ready_pipe = True, c_request_pipe = True,
     c_response_pipe = True, c_policy = True, c_start = True, c_oom_score = True, c_ready = True\<rparr>"

definition smooth_release :: release_env where
  "smooth_release = \<lparr>r_cgroups_closed = True, r_dir = DirOwned True\<rparr>"

lemma sample_offsets: "free_offset [] 131072 0 = 0" "free_offset [0] 131072 0 = 65536"
proof -
  show "free_offset [] 131072 0 = 0" by (subst free_offset.simps) simp
  have "free_offset [0] 131072 65536 = 65536" by (subst free_offset.simps) simp
  then show "free_offset [0] 131072 0 = 65536" by (subst free_offset.simps) simp
qed

lemmas sample_simps = newSandboxCreator_def reserve_def Let_def new_sandbox_def sample_offsets finish_creation_def create_stages_def
  smooth_creation_def smooth_release_def transfer_def upd_def sample_config_def

definition sample_two :: sandboxCreator where
  "sample_two = (newSandboxCreator sample_config)\<lparr>objs := [new_sandbox ''a'' 0, new_sandbox ''b'' 65536],
     active := [(''b'', 1), (''a'', 0)]\<rparr>"

lemma sample_two_run: "(sup_step sha256)\<^sup>*\<^sup>* (newSandboxCreator sample_config) sample_two"
proof -
  let ?s1 = "snd (reserve ''a'' MkdirOk (newSandboxCreator sample_config))"
  have "sup_step sha256 (newSandboxCreator sample_config) ?s1" "sup_step sha256 ?s1 (snd (reserve ''b'' MkdirOk ?s1))"
    by (rule reserving)+
  then have "(sup_step sha256)\<^sup>*\<^sup>* (newSandboxCreator sample_config) (snd (reserve ''b'' MkdirOk ?s1))"
    by (rule converse_rtranclp_into_rtranclp [OF _ r_into_rtranclp])
  moreover have "snd (reserve ''b'' MkdirOk ?s1) = sample_two"
    by (simp add: sample_simps sample_two_def)
  ultimately show ?thesis by simp
qed

theorem identities_disjoint_witness:
  "identity_block (SubUIDStart sample_config) 65536 \<inter> identity_block (SubUIDStart sample_config) 0 = {} \<and>
   identity_block (SubUIDStart sample_config) 65536 \<subseteq> {100000 ..< 231072}"
  using identities_disjoint [OF sample_two_run sample_config_ok, of "''b''" 1 "''a''" 0 "SubUIDStart sample_config"]
  by (simp add: sample_two_def new_sandbox_def sample_config_def)

section \<open>Retired identifiers\<close>

lemma releaseLocked_retired: "set (retired st) \<subseteq> set (retired (snd (releaseLocked sid i retire env st)))"
  by (auto simp: releaseLocked_def Let_def)

lemma step_retired: "sup_step sha256 st st' \<Longrightarrow> set (retired st) \<subseteq> set (retired st')"
proof (induction rule: sup_step.induct)
  case (reserving st sid mkdir)
  then show ?case by (simp add: reserve_def Let_def split: mkdir_result.split)
next
  case (creating i st env rel)
  then show ?case
    using releaseLocked_retired [of "upd i (\<lambda>sb. sb\<lparr>cancelled := True\<rparr>) st"]
    by (simp add: finish_creation_def transfer_def abandon_def Let_def split: option.split)
next
  case (reaping i st env)
  then show ?case using releaseLocked_retired by (simp add: reap_def)
next
  case (destroyed sid i st env)
  then show ?case using releaseLocked_retired by (simp add: destroy_end_def Let_def)
next
  case (starting i st xid paths)
  then show ?case by (simp add: execute_reserve_def Let_def split: prod.split)
qed (simp_all add: init_exits_def destroy_begin_def execute_lock_def execute_finish_def Let_def split: option.split)

text \<open>
  Once a Sandbox that ran has been released, its identifier is retired for the life of the
  Supervisor: no later state holds a Sandbox under it and every attempt to create one is refused. So a
  reference to a destroyed Sandbox never reaches another one.
\<close>

lemma retired_identifier_never_reused:
  assumes "(sup_step sha256)\<^sup>*\<^sup>* (newSandboxCreator cfg) st" and "config_ok page euid cfg"
    and "sid \<in> set (retired st)" and "(sup_step sha256)\<^sup>*\<^sup>* st st'"
  shows "map_of (active st') sid = None \<and> (\<forall>mkdir. \<exists>code. reserve sid mkdir st' = (Inl code, st')) \<and>
    inspect sid signal dir st' = Some ErrorCodeSandboxNotFound \<and>
    fst (execute_lock sid xid paths st') = Inl ErrorCodeSandboxNotFound"
proof -
  have "sid \<in> set (retired st')" using assms(4)
    by (induction rule: rtranclp_induct) (use assms(3) step_retired in blast)+
  moreover have "sup_ok st'"
    using sup_run_ok(1) [OF rtranclp_trans [OF assms(1,4)] assms(2)] .
  ultimately have n: "map_of (active st') sid = None" and r: "sid \<in> set (retired st')" using sup_okD(5) by blast+
  have "\<exists>code. reserve sid mkdir st' = (Inl code, st')" for mkdir
    using n r by (simp add: reserve_def)
  then show ?thesis using n by (simp add: inspect_def execute_lock_def)
qed

text \<open>A Sandbox that is created, whose Init exits and is reaped.\<close>

definition sample_retired :: sandboxCreator where
  "sample_retired = reap 0 smooth_release (init_exits 0 (snd (create ''a'' MkdirOk smooth_creation smooth_release (newSandboxCreator sample_config))))"

lemma create_steps: "(sup_step sha256)\<^sup>*\<^sup>* st (snd (create sid mkdir env rel st))"
  if "sup_ok st" "65536 dvd unat (SubIDCount (config st))"
proof (cases rule: reserve_cases [OF that, where sid = sid and mkdir = mkdir])
  case (2 offset)
  let ?st = "snd (reserve sid mkdir st)"
  have "sup_step sha256 st ?st" by (rule reserving)
  moreover have "sup_step sha256 ?st (snd (finish_creation (length (objs st)) env rel ?st))"
    by (rule creating) (simp_all add: 2(1) new_sandbox_def)
  ultimately have "(sup_step sha256)\<^sup>*\<^sup>* st (snd (finish_creation (length (objs st)) env rel ?st))"
    by (rule converse_rtranclp_into_rtranclp [OF _ r_into_rtranclp])
  then show ?thesis by (simp add: create_def 2(1))
qed (simp add: create_def)

lemma sample_created:
  "snd (create ''a'' MkdirOk smooth_creation smooth_release (newSandboxCreator sample_config)) =
     (newSandboxCreator sample_config)\<lparr>objs := [(new_sandbox ''a'' 0)\<lparr>process := True\<rparr>], active := [(''a'', 0)]\<rparr>"
  by (simp add: create_def sample_simps)

lemma sample_retired_run: "(sup_step sha256)\<^sup>*\<^sup>* (newSandboxCreator sample_config) sample_retired"
proof -
  let ?s1 = "snd (create ''a'' MkdirOk smooth_creation smooth_release (newSandboxCreator sample_config))"
  have "(sup_step sha256)\<^sup>*\<^sup>* (newSandboxCreator sample_config) ?s1"
    by (rule create_steps [OF initial_ok]) (simp add: newSandboxCreator_def sample_config_def)
  moreover have "sup_step sha256 ?s1 (init_exits 0 ?s1)"
    unfolding sample_created by (rule exiting) simp_all
  moreover have "sup_step sha256 (init_exits 0 ?s1) sample_retired"
    unfolding sample_retired_def unfolding sample_created by (rule reaping) (simp_all add: init_exits_def upd_def new_sandbox_def)
  ultimately show ?thesis by (meson rtranclp.rtrancl_into_rtrancl)
qed

lemma retired_identifier_never_reused_witness:
  "inspect ''a'' True (DirOwned True) sample_retired = Some ErrorCodeSandboxNotFound"
proof -
  have "''a'' \<in> set (retired sample_retired)"
    unfolding sample_retired_def sample_created
    by (simp add: reap_def releaseLocked_def Let_def init_exits_def upd_def new_sandbox_def smooth_release_def directory_removed_def)
  from retired_identifier_never_reused [OF sample_retired_run sample_config_ok this rtranclp.rtrancl_refl, of True "DirOwned True"]
  show ?thesis by blast
qed

section \<open>Quotas\<close>

text \<open>
  C29. In every run the bytes extracted from one Sandbox stay within its budget, and the retained results
  of all Sandboxes stay within 64 slots and 128 MiB, with exact accounting.
\<close>

theorem supervisor_quotas:
  assumes "(sup_step sha256)\<^sup>*\<^sup>* (newSandboxCreator cfg) st" and "config_ok page euid cfg"
  shows "(\<forall>sb \<in> set (objs st). 0 \<le> extractedBytes sb \<and> extractedBytes sb \<le> SandboxBytes (Extraction (Budget cfg))) \<and>
    length (slots (results st)) \<le> 64 \<and> reservedBytes (results st) = total_bytes (slots (results st)) \<and>
    reservedBytes (results st) \<le> 128 * MiB"
proof -
  have ok: "sup_ok st" and cfg: "config st = cfg" using sup_run_ok [OF assms] by simp_all
  have "0 \<le> extractedBytes sb \<and> extractedBytes sb \<le> SandboxBytes (Extraction (Budget cfg))" if sb: "sb \<in> set (objs st)" for sb
  proof -
    obtain i where i: "i < length (objs st)" "sb = objs st ! i" using sb by (auto simp: in_set_conv_nth)
    show ?thesis unfolding i(2) using obj_okD(5,6) [OF sup_okD(3) [OF ok i(1)]] cfg by simp
  qed
  then show ?thesis
    using sup_okD(7) [OF ok] by (simp add: store_ok_def maximumRetainedExecutionResults_def maximumRetainedOutputBytes_def)
qed

theorem supervisor_quotas_witness: "length (slots (results sample_two)) \<le> 64"
  using supervisor_quotas [OF sample_two_run sample_config_ok] by blast

section \<open>Honest answers\<close>

lemma removed_results: "read_result (removeSandbox store sid) (sid, xid) = Inl ErrorCodeResultNotFound"
  by (simp add: read_result_def removeSandbox_def map_of_filter_key)

lemma releaseLocked_frame:
  assumes "i < length (objs st)"
  shows "results (snd (releaseLocked sid i r env st)) = results st" "length (objs (snd (releaseLocked sid i r env st))) = length (objs st)"
    "sb_done (objs (snd (releaseLocked sid i r env st)) ! i) = sb_done (objs st ! i)"
    "cleanupErr (objs (snd (releaseLocked sid i r env st)) ! i) \<Longrightarrow> active (snd (releaseLocked sid i r env st)) = active st"
  using assms by (auto simp: releaseLocked_snd objs_upd)

text \<open>
  C35. \<open>destroy\<close> answers honestly: it acknowledges only when the Sandbox it waited for has been released
  (it holds neither identifier nor identities any more) and its results are gone; after a cleanup
  failure it says so, and the Sandbox keeps its identifier and its identities reserved for a retry.
\<close>

theorem destroy_is_honest:
  assumes "(sup_step sha256)\<^sup>*\<^sup>* (newSandboxCreator cfg) st" and "config_ok page euid cfg"
    and "(sid, i) \<in> set (destroyers st)" and "sb_done (objs st ! i)" and "destroy_end sid i env st = (code, st')"
  shows "case code of
      None \<Rightarrow> map_of (active st') sid \<noteq> Some i \<and> \<not> held (objs st' ! i) \<and>
        read_result (results st') (sid, xid) = Inl ErrorCodeResultNotFound
    | Some c \<Rightarrow> c = ErrorCodeCleanupFailed \<and> map_of (active st') sid = Some i \<and> held (objs st' ! i) \<and> results st' = results st"
proof -
  have ok: "sup_ok st" using sup_run_ok(1) [OF assms(1,2)] .
  have ok': "sup_ok st'" using destroy_end_ok [OF ok assms(3,4), of env] assms(5) by simp
  have i: "i < length (objs st)" "sb_id (objs st ! i) = sid" using sup_okD(6) [OF ok assms(3)] by simp_all
  define st1 where "st1 = (if map_of (active st) sid = Some i \<and> cleanupErr (objs st ! i)
      then snd (releaseLocked sid i True env st) else st)"
  have d: "sb_done (objs st1 ! i)" and r: "results st1 = results st"
    using assms(4) releaseLocked_frame [OF i(1)] by (auto simp: st1_def)
  have e: "(code, st') = (if cleanupErr (objs st1 ! i) then (Some ErrorCodeCleanupFailed, st1\<lparr>destroyers := remove1 (sid, i) (destroyers st1)\<rparr>)
      else (None, st1\<lparr>destroyers := remove1 (sid, i) (destroyers st1), results := removeSandbox (results st1) sid\<rparr>))"
    using assms(5) [symmetric] unfolding destroy_end_def Let_def st1_def [symmetric] by simp
  show ?thesis
  proof (cases "cleanupErr (objs st1 ! i)")
    case True
    then have a: "map_of (active st) sid = Some i" "active st1 = active st"
      using obj_okD(1) [OF sup_okD(3) [OF ok i(1)]] i releaseLocked_frame(4) [OF i(1)]
      by (auto simp: st1_def held_def split: if_splits)
    show ?thesis using e True a r by (simp add: held_def)
  next
    case False
    then have c: "code = None" and o: "objs st' = objs st1" and rs: "results st' = removeSandbox (results st1) sid" using e by simp_all
    have h: "\<not> held (objs st' ! i)" using False d o by (simp add: held_def)
    then have "map_of (active st') sid \<noteq> Some i" using sup_okD(2) [OF ok' map_of_SomeD] by blast
    then show ?thesis using c h rs removed_results by simp
  qed
qed

theorem destroy_is_honest_witness:
  "case fst (destroy_end ''a'' 0 smooth_release (reap 0 \<lparr>r_cgroups_closed = False, r_dir = DirOwned True\<rparr>
      (init_exits 0 (snd (destroy_begin ''a'' (snd (create ''a'' MkdirOk smooth_creation smooth_release (newSandboxCreator sample_config)))))))) of
     None \<Rightarrow> True | Some c \<Rightarrow> c = ErrorCodeCleanupFailed"
proof -
  let ?s1 = "snd (create ''a'' MkdirOk smooth_creation smooth_release (newSandboxCreator sample_config))"
  let ?s2 = "snd (destroy_begin ''a'' ?s1)"
  let ?s3 = "init_exits 0 ?s2"
  let ?bad = "\<lparr>r_cgroups_closed = False, r_dir = DirOwned True\<rparr>"
  let ?s4 = "reap 0 ?bad ?s3"
  have "(sup_step (\<lambda>s. s))\<^sup>*\<^sup>* (newSandboxCreator sample_config) ?s1"
    by (rule create_steps [OF initial_ok]) (simp add: newSandboxCreator_def sample_config_def)
  moreover have "sup_step (\<lambda>s. s) ?s1 ?s2" by (rule destroying)
  moreover have "sup_step (\<lambda>s. s) ?s2 ?s3"
    unfolding sample_created by (rule exiting) (simp_all add: destroy_begin_def upd_def)
  moreover have "sup_step (\<lambda>s. s) ?s3 ?s4"
    unfolding sample_created by (rule reaping) (simp_all add: destroy_begin_def init_exits_def upd_def new_sandbox_def)
  ultimately have run: "(sup_step (\<lambda>s. s))\<^sup>*\<^sup>* (newSandboxCreator sample_config) ?s4" by (meson rtranclp.rtrancl_into_rtrancl)
  have d: "(''a'', 0) \<in> set (destroyers ?s4)" "sb_done (objs ?s4 ! 0)"
    unfolding sample_created by (simp_all add: destroy_begin_def init_exits_def upd_def new_sandbox_def reap_def releaseLocked_def)
  show ?thesis
    using destroy_is_honest [OF run sample_config_ok d, of smooth_release "fst (destroy_end ''a'' 0 smooth_release ?s4)"
        "snd (destroy_end ''a'' 0 smooth_release ?s4)"] by (auto split: option.splits)
qed

text \<open>
  The result \<open>execute\<close> returns is the one every later read of the retained result sees, as long as its
  reservation was not removed; and a failed Execution leaves no result behind.
\<close>

lemma executed_result_is_published:
  assumes "phase (objs st ! i) = Reserved xid paths alloc"
    and "read_result (results st) (sb_id (objs st ! i), xid) = Inl ErrorCodeResultNotReady"
    and "execute_finish i xid paths outcome killed st = (answer, st')"
  shows "case answer of
      Inr s \<Rightarrow> read_result (results st') (sb_id (objs st ! i), xid) = Inr s
    | Inl code \<Rightarrow> read_result (results st') (sb_id (objs st ! i), xid) = Inl ErrorCodeResultNotFound"
proof -
  let ?ref = "(sb_id (objs st ! i), xid)"
  have known: "ledger_of (results st) ?ref \<noteq> None"
    using assms(2) by (auto simp: retained.lookup_view ledger_read_def split: option.splits)
  have r: "results st' = finish_result (results st) ?ref (case freeze_snapshot paths outcome of Inl _ \<Rightarrow> None | Inr s \<Rightarrow> Some s)"
    and a: "answer = freeze_snapshot paths outcome"
    using assms(3) by (auto simp: execute_finish_def Let_def)
  show ?thesis
    using known unfolding a r retained.lookup_view retained.view_finish by (simp add: ledger_read_def split: sum.split)
qed

definition sample_outcome :: ExecutePythonResult where
  "sample_outcome = complete_result ''x'' ExecutionTimedOut zero_usage (sample_init\<lparr>Phase := ''ready''\<rparr>)"

definition sample_quiet_env :: exec_env where
  "sample_quiet_env = sample_env\<lparr>e_ready := Some (sample_init\<lparr>Phase := ''ready''\<rparr>)\<rparr>"

lemma sample_quiet_execution:
  "execute_run (\<lambda>s. s) DefaultResourceBudget ''x'' [] 0 sample_quiet_env = Some (Inr sample_outcome, False)"
  by code_simp

lemma sample_allowance_none: "allowance (Extraction DefaultResourceBudget) [] 0 = 0"
  by code_simp

lemma sample_slots:
  "reserve_result empty_store (''a'', ''x'') (2 * MiB) 0 =
     (None, \<lparr>slots = [((''a'', ''x''), \<lparr>slotBytes = 2 * MiB, extractionReservedBytes = 0, slotResult = None\<rparr>)], reservedBytes = 2 * MiB\<rparr>)"
  by (simp add: reserve_result_def empty_store_def Let_def maximumRetainedExecutionResults_def maximumRetainedOutputBytes_def)

lemma sample_outcome_outputs: "Outputs sample_outcome = []" "freeze_snapshot [] (Inr sample_outcome) = Inr sample_outcome"
  by code_simp+

text \<open>One Execution \<open>x\<close> of the Sandbox \<open>a\<close>, object \<open>n\<close>, in a Supervisor without results.\<close>

definition executed :: "nat \<Rightarrow> sandboxCreator \<Rightarrow> sandboxCreator" where
  "executed n st = snd (execute_finish n ''x'' [] (Inr sample_outcome) False
     (snd (execute_reserve n ''x'' [] (snd (execute_lock ''a'' ''x'' [] st)))))"

definition ready_for_execution :: "nat \<Rightarrow> sandboxCreator \<Rightarrow> bool" where
  "ready_for_execution n st \<longleftrightarrow> n < length (objs st) \<and> map_of (active st) ''a'' = Some n \<and> objs st ! n = (new_sandbox ''a'' 0)\<lparr>process := True\<rparr> \<and>
     config st = sample_config \<and> results st = empty_store \<and> \<not> stopped st"

lemma executed_eq:
  assumes "ready_for_execution n st"
  shows "snd (execute_lock ''a'' ''x'' [] st) = upd n (\<lambda>sb. sb\<lparr>phase := Locked ''x'' []\<rparr>) st"
    and "snd (execute_reserve n ''x'' [] (upd n (\<lambda>sb. sb\<lparr>phase := Locked ''x'' []\<rparr>) st)) =
      (upd n (\<lambda>sb. sb\<lparr>phase := Reserved ''x'' [] 0\<rparr>) st)\<lparr>results := snd (reserve_result empty_store (''a'', ''x'') (2 * MiB) 0)\<rparr>"
    and "executed n st = (upd n (\<lambda>sb. sb\<lparr>phase := Idle\<rparr>) st)\<lparr>results := \<lparr>slots = [((''a'', ''x''),
        \<lparr>slotBytes = 2 * MiB, extractionReservedBytes = 0, slotResult = Some sample_outcome\<rparr>)], reservedBytes = 2 * MiB\<rparr>\<rparr>"
proof -
  have n: "n < length (objs st)" and o: "objs st ! n = (new_sandbox ''a'' 0)\<lparr>process := True\<rparr>" and a: "map_of (active st) ''a'' = Some n"
    and c: "config st = sample_config" and r: "results st = empty_store" and s: "\<not> stopped st"
    using assms by (simp_all add: ready_for_execution_def)
  show lock: "snd (execute_lock ''a'' ''x'' [] st) = upd n (\<lambda>sb. sb\<lparr>phase := Locked ''x'' []\<rparr>) st"
    using a s by (simp add: execute_lock_def o new_sandbox_def ctx_err_def)
  have b: "StdoutBytes DefaultResourceBudget = MiB" "StderrBytes DefaultResourceBudget = MiB" "Budget sample_config = DefaultResourceBudget"
    by (simp_all add: sample_config_def DefaultResourceBudget_def)
  show res: "snd (execute_reserve n ''x'' [] (upd n (\<lambda>sb. sb\<lparr>phase := Locked ''x'' []\<rparr>) st)) =
      (upd n (\<lambda>sb. sb\<lparr>phase := Reserved ''x'' [] 0\<rparr>) st)\<lparr>results := snd (reserve_result empty_store (''a'', ''x'') (2 * MiB) 0)\<rparr>"
    using n by (simp add: execute_reserve_def Let_def objs_upd o new_sandbox_def c b r sample_allowance_none sample_slots [simplified]
        upd_results upd_upd)
  show "executed n st = (upd n (\<lambda>sb. sb\<lparr>phase := Idle\<rparr>) st)\<lparr>results := \<lparr>slots = [((''a'', ''x''),
        \<lparr>slotBytes = 2 * MiB, extractionReservedBytes = 0, slotResult = Some sample_outcome\<rparr>)], reservedBytes = 2 * MiB\<rparr>\<rparr>"
    unfolding executed_def lock res sample_slots snd_conv
    using n by (simp add: execute_finish_def Let_def sample_outcome_outputs extractedOutputBytes_def upd_results upd_upd objs_upd o
        new_sandbox_def finish_result_def)
qed

lemma executed_steps:
  assumes "ready_for_execution n st"
  shows "(sup_step (\<lambda>s. s))\<^sup>*\<^sup>* st (executed n st)"
proof -
  note e = executed_eq [OF assms]
  have n: "n < length (objs st)" and c: "config st = sample_config" using assms by (simp_all add: ready_for_execution_def)
  let ?s1 = "snd (execute_lock ''a'' ''x'' [] st)"
  let ?s2 = "snd (execute_reserve n ''x'' [] ?s1)"
  have "sup_step (\<lambda>s. s) st ?s1" by (rule locking)
  moreover have "sup_step (\<lambda>s. s) ?s1 ?s2"
    by (rule starting) (use n in \<open>simp_all add: e(1) objs_upd\<close>)
  moreover have "sup_step (\<lambda>s. s) ?s2 (executed n st)"
    unfolding executed_def
    by (rule finishing [where alloc = 0 and env = sample_quiet_env])
      (use n sample_quiet_execution in \<open>simp_all add: e(1,2) objs_upd c sample_config_def\<close>)
  ultimately show ?thesis by (meson rtranclp.rtrancl_refl rtranclp.rtrancl_into_rtrancl)
qed

lemma executed_result_is_published_witness:
  "read_result (results (executed 0 (snd (create ''a'' MkdirOk smooth_creation smooth_release (newSandboxCreator sample_config)))))
     (''a'', ''x'') = Inr sample_outcome"
proof -
  let ?s = "snd (create ''a'' MkdirOk smooth_creation smooth_release (newSandboxCreator sample_config))"
  have r: "ready_for_execution 0 ?s"
    unfolding sample_created by (simp add: ready_for_execution_def newSandboxCreator_def)
  let ?s2 = "snd (execute_reserve 0 ''x'' [] (snd (execute_lock ''a'' ''x'' [] ?s)))"
  have s2: "?s2 = (upd 0 (\<lambda>sb. sb\<lparr>phase := Reserved ''x'' [] 0\<rparr>) ?s)\<lparr>results := snd (reserve_result empty_store (''a'', ''x'') (2 * MiB) 0)\<rparr>"
    by (simp only: executed_eq(1,2) [OF r])
  have o: "objs ?s2 ! 0 = ((new_sandbox ''a'' 0)\<lparr>process := True\<rparr>)\<lparr>phase := Reserved ''x'' [] 0\<rparr>"
    unfolding s2 by (simp add: sample_created upd_def)
  have p: "phase (objs ?s2 ! 0) = Reserved ''x'' [] 0" and i: "sb_id (objs ?s2 ! 0) = ''a''"
    unfolding o by (simp_all add: new_sandbox_def)
  have nr: "read_result (results ?s2) (sb_id (objs ?s2 ! 0), ''x'') = Inl ErrorCodeResultNotReady"
    unfolding i unfolding s2 by (simp add: sample_slots [simplified] read_result_def)
  have f: "execute_finish 0 ''x'' [] (Inr sample_outcome) False ?s2 = (Inr sample_outcome, executed 0 ?s)"
    by (simp add: executed_def execute_finish_def Let_def sample_outcome_outputs)
  show ?thesis using executed_result_is_published [OF p nr f] i by simp
qed

section \<open>A late acknowledgement\<close>

text \<open>
  The acknowledgement of a \<open>destroy\<close> that waited for a failed creation removes results by identifier,
  without checking that the identifier still denotes the Sandbox it waited for. The failed creation
  does not retire the identifier, so a new Sandbox may have taken it and finished an Execution: its
  published result is erased while the Sandbox is alive and was never destroyed.
\<close>

definition failed_creation :: create_env where
  "failed_creation = smooth_creation\<lparr>c_ready := False\<rparr>"

definition before_recreation :: sandboxCreator where
  "before_recreation = snd (finish_creation 0 failed_creation smooth_release
     (snd (destroy_begin ''a'' (snd (reserve ''a'' MkdirOk (newSandboxCreator sample_config))))))"

lemma before_recreation_eq:
  "before_recreation = (newSandboxCreator sample_config)\<lparr>destroyers := [(''a'', 0)],
     objs := [(new_sandbox ''a'' 0)\<lparr>terminating := True, cancelled := True, sb_exited := True, sb_done := True\<rparr>]\<rparr>"
  by (simp add: before_recreation_def failed_creation_def sample_simps destroy_begin_def abandon_def releaseLocked_def
      directory_removed_def)

lemma before_recreation_run: "(sup_step (\<lambda>s. s))\<^sup>*\<^sup>* (newSandboxCreator sample_config) before_recreation"
proof -
  let ?s1 = "snd (reserve ''a'' MkdirOk (newSandboxCreator sample_config))"
  let ?s2 = "snd (destroy_begin ''a'' ?s1)"
  have "sup_step (\<lambda>s. s) (newSandboxCreator sample_config) ?s1" by (rule reserving)
  moreover have "sup_step (\<lambda>s. s) ?s1 ?s2" by (rule destroying)
  moreover have "sup_step (\<lambda>s. s) ?s2 before_recreation"
    unfolding before_recreation_def by (rule creating) (simp_all add: sample_simps destroy_begin_def)
  ultimately show ?thesis by (meson rtranclp.rtrancl_refl rtranclp.rtrancl_into_rtrancl)
qed

definition recreated :: sandboxCreator where
  "recreated = snd (create ''a'' MkdirOk smooth_creation smooth_release before_recreation)"

lemma recreated_eq:
  "recreated = before_recreation\<lparr>objs := objs before_recreation @ [(new_sandbox ''a'' 0)\<lparr>process := True\<rparr>], active := [(''a'', 1)]\<rparr>"
  by (simp add: recreated_def create_def before_recreation_eq sample_simps)

lemma recreated_ready: "ready_for_execution 1 recreated"
  by (simp add: ready_for_execution_def recreated_eq before_recreation_eq newSandboxCreator_def)

lemma executed_run: "(sup_step (\<lambda>s. s))\<^sup>*\<^sup>* (newSandboxCreator sample_config) (executed 1 recreated)"
proof -
  have "(sup_step (\<lambda>s. s))\<^sup>*\<^sup>* before_recreation recreated"
    unfolding recreated_def
    by (rule create_steps [OF sup_run_ok(1) [OF before_recreation_run sample_config_ok]])
      (simp add: before_recreation_eq newSandboxCreator_def sample_config_def)
  then show ?thesis
    using before_recreation_run executed_steps [OF recreated_ready] by (meson rtranclp_trans)
qed

text \<open>
  C36. An acknowledgement of \<open>destroy\<close> may come late: a run of the Supervisor reaches a state in which a new
  Sandbox with the same identifier is alive and its published result readable, and the second half of
  the earlier \<open>destroy\<close> then erases that result, since it removes results by identifier without checking
  that the identifier still denotes the Sandbox it waited for.
\<close>

theorem late_acknowledgement_erases_result:
  "\<exists>st st' i. (sup_step (\<lambda>s. s))\<^sup>*\<^sup>* (newSandboxCreator sample_config) st \<and> sup_step (\<lambda>s. s) st st' \<and>
     map_of (active st) ''a'' = Some i \<and> process (objs st ! i) \<and> \<not> terminating (objs st ! i) \<and>
     read_result (results st) (''a'', ''x'') = Inr sample_outcome \<and>
     map_of (active st') ''a'' = Some i \<and> objs st' = objs st \<and> read_result (results st') (''a'', ''x'') = Inl ErrorCodeResultNotFound"
proof -
  define st where "st = executed 1 recreated"
  let ?st' = "snd (destroy_end ''a'' 0 smooth_release st)"
  note e = st_def [unfolded executed_eq(3) [OF recreated_ready]]
  have o: "objs st = [(new_sandbox ''a'' 0)\<lparr>terminating := True, cancelled := True, sb_exited := True, sb_done := True\<rparr>,
      ((new_sandbox ''a'' 0)\<lparr>process := True\<rparr>)\<lparr>phase := Idle\<rparr>]"
    unfolding e by (simp add: recreated_eq before_recreation_eq upd_def)
  have a: "active st = [(''a'', 1)]" "destroyers st = [(''a'', 0)]"
    unfolding e by (simp_all add: recreated_eq before_recreation_eq)
  have r: "read_result (results st) (''a'', ''x'') = Inr sample_outcome" unfolding e by (simp add: read_result_def)
  have s: "sup_step (\<lambda>s. s) st ?st'" by (rule destroyed) (simp_all add: a o)
  have f: "objs ?st' = objs st" "active ?st' = active st" "results ?st' = removeSandbox (results st) ''a''"
    by (simp_all add: destroy_end_def Let_def a o new_sandbox_def)
  show ?thesis
    using executed_run [folded st_def] s r a(1) o f removed_results [of "results st" "''a''"]
    by (intro exI [of _ st] exI [of _ ?st'] exI [of _ 1]) (simp add: new_sandbox_def)
qed

end
