(* ===== verification/Database.thy ===== *)
theory Database
  imports Prelude
begin

text \<open>
  The transactional discipline shared by the two PostgreSQL stores (\<open>executionqueue.Store\<close> and
  \<open>workercredential.Store\<close>). Both open a connection per operation, begin a transaction, defer a
  rollback, run statements, and commit at most once at the end; several of their operations answer
  successfully without committing, which discards their (empty) changes.

  The database server is not part of the sources. What the code can observe of it is a parameter,
  the record \<open>dbenv\<close>: whether connecting and beginning succeed, which statement round trips
  fail, what each evaluation of \<^verbatim>\<open>clock_timestamp()\<close> reads (for each row it is evaluated on),
  which rows other transactions hold locked (for \<^verbatim>\<open>SKIP LOCKED\<close>), and how the commit ends.
  A commit may take effect although its acknowledgement is lost. Nothing is assumed of the readings
  of the clock, not even that they increase.

  Each statement of an operation is numbered in program order from 0, and so is each occurrence of
  \<^verbatim>\<open>clock_timestamp()\<close>. Timestamps are integers in microseconds, the resolution of
  \<^verbatim>\<open>timestamptz\<close>.
\<close>

datatype commit_outcome = Committed | CommitAckLost | CommitRefused

record dbenv =
  connects :: bool
  begins :: bool
  fault :: "nat \<Rightarrow> bool"
  clock :: "nat \<Rightarrow> bytes \<Rightarrow> int"
  locked :: "bytes \<Rightarrow> bool"
  commits :: commit_outcome
  ctx_done :: bool

text \<open>
  The errors of both packages. \<open>databaseError\<close> reports the context's error when the context is
  done and a fixed message otherwise.
\<close>

datatype store_error =
    ErrUnauthenticated
  | ErrInvalid
  | ErrNotFound
  | ErrConflict
  | ErrLease
  | ErrDatabase
  | ErrContext
  | ErrRandom

definition databaseError :: "dbenv \<Rightarrow> store_error" where
  "databaseError env = (if ctx_done env then ErrContext else ErrDatabase)"

text \<open>How the body of a transaction ends.\<close>

datatype ('d, 'a) tx_end =
    Abort store_error
  | Answer 'a
  | Commit 'a 'd

definition run_tx :: "dbenv \<Rightarrow> ('d \<Rightarrow> ('d, 'a) tx_end) \<Rightarrow> 'd \<Rightarrow> (store_error + 'a) \<times> 'd" where
  "run_tx env body db =
     (if \<not> connects env then (Inl (databaseError env), db)
      else if \<not> begins env then (Inl (databaseError env), db)
      else case body db of
        Abort e \<Rightarrow> (Inl e, db)
      | Answer v \<Rightarrow> (Inr v, db)
      | Commit v db' \<Rightarrow>
         (case commits env of
            Committed \<Rightarrow> (Inr v, db')
          | CommitAckLost \<Rightarrow> (Inl (databaseError env), db')
          | CommitRefused \<Rightarrow> (Inl (databaseError env), db)))"

text \<open>One statement executed outside an explicit transaction (it commits by itself).\<close>

definition autocommit :: "dbenv \<Rightarrow> ('d \<Rightarrow> ('d, 'a) tx_end) \<Rightarrow> 'd \<Rightarrow> (store_error + 'a) \<times> 'd" where
  "autocommit env body db = run_tx (env\<lparr>begins := True\<rparr>) body db"

definition is_database_error :: "store_error \<Rightarrow> bool" where
  "is_database_error e \<longleftrightarrow> e = ErrDatabase \<or> e = ErrContext"

lemma databaseError_is [simp]: "is_database_error (databaseError env)"
  by (simp add: is_database_error_def databaseError_def)

lemma run_tx_unchanged_or_commit:
  "snd (run_tx env body db) = db \<or> (\<exists>v. body db = Commit v (snd (run_tx env body db)))"
  by (auto simp: run_tx_def split: tx_end.splits commit_outcome.splits)

lemma run_tx_keeps:
  assumes "P db" and "\<And>v db'. body db = Commit v db' \<Longrightarrow> P db'"
  shows "P (snd (run_tx env body db))"
  using run_tx_unchanged_or_commit [of env body db] assms by auto

lemma run_tx_Inr:
  assumes "run_tx env body db = (Inr v, db')"
  shows "connects env \<and> begins env \<and>
    (body db = Answer v \<and> db' = db \<or> body db = Commit v db' \<and> commits env = Committed)"
  using assms by (auto simp: run_tx_def split: if_splits tx_end.splits commit_outcome.splits)

text \<open>Only a commit can change the database, and an error that is not a database error commits nothing.\<close>

lemma run_tx_refused:
  assumes "run_tx env body db = (Inl e, db')" and "\<not> is_database_error e"
  shows "db' = db \<and> body db = Abort e"
  using assms by (auto simp: run_tx_def split: if_splits tx_end.splits commit_outcome.splits)

lemma run_tx_ok:
  assumes "connects env" and "begins env" and "commits env = Committed"
  shows "run_tx env body db = (case body db of
    Abort e \<Rightarrow> (Inl e, db) | Answer v \<Rightarrow> (Inr v, db) | Commit v db' \<Rightarrow> (Inr v, db'))"
  using assms by (simp add: run_tx_def split: tx_end.splits)

text \<open>An environment in which nothing fails and every clock reading is \<open>t\<close>.\<close>

definition calm :: "int \<Rightarrow> dbenv" where
  "calm t = \<lparr>connects = True, begins = True, fault = (\<lambda>_. False), clock = (\<lambda>_ _. t),
     locked = (\<lambda>_. False), commits = Committed, ctx_done = False\<rparr>"

lemma calm_simps [simp]:
  "connects (calm t)" "begins (calm t)" "\<not> fault (calm t) n" "clock (calm t) n r = t"
  "\<not> locked (calm t) r" "commits (calm t) = Committed" "\<not> ctx_done (calm t)"
  by (simp_all add: calm_def)

section \<open>Tables\<close>

text \<open>
  \<open>update_where P f rows\<close> is an UPDATE statement's effect on a table, \<open>affected\<close> its row count.
\<close>

definition update_where :: "('r \<Rightarrow> bool) \<Rightarrow> ('r \<Rightarrow> 'r) \<Rightarrow> 'r list \<Rightarrow> 'r list" where
  "update_where P f = map (\<lambda>r. if P r then f r else r)"

definition affected :: "('r \<Rightarrow> bool) \<Rightarrow> 'r list \<Rightarrow> nat" where
  "affected P rows = length (filter P rows)"

lemma length_update_where [simp]: "length (update_where P f rows) = length rows"
  by (simp add: update_where_def)

lemma nth_update_where:
  "i < length rows \<Longrightarrow> update_where P f rows ! i = (if P (rows ! i) then f (rows ! i) else rows ! i)"
  by (simp add: update_where_def)

lemma map_update_where [simp]: "\<forall>r. key (f r) = key r \<Longrightarrow> map key (update_where P f rows) = map key rows"
  by (induction rows) (auto simp: update_where_def)

lemma update_where_none: "affected P rows = 0 \<Longrightarrow> update_where P f rows = rows"
  by (induction rows) (auto simp: update_where_def affected_def split: if_splits)

lemma set_update_where:
  "r \<in> set (update_where P f rows) \<longleftrightarrow> (\<exists>q \<in> set rows. r = (if P q then f q else q))"
  by (auto simp: update_where_def)

lemma update_where_all:
  "\<forall>r \<in> set rows. Q r \<Longrightarrow> (\<And>r. r \<in> set rows \<Longrightarrow> Q r \<Longrightarrow> P r \<Longrightarrow> Q (f r)) \<Longrightarrow> r \<in> set (update_where P f rows) \<Longrightarrow> Q r"
  by (auto simp: set_update_where)

lemma update_where_hit:
  assumes "\<forall>r. key (f r) = key r" and "r \<in> set (update_where (\<lambda>r. key r = k) f rows)" and "key r = k"
  shows "\<exists>q \<in> set rows. key q = k \<and> r = f q"
proof -
  obtain q where "q \<in> set rows" "r = (if key q = k then f q else q)"
    using assms(2) by (auto simp: set_update_where)
  then show ?thesis using assms(1,3) by (cases "key q = k") auto
qed

lemma find_SomeD: "find P xs = Some x \<Longrightarrow> x \<in> set xs \<and> P x"
  by (auto simp: find_Some_iff)

lemma find_distinct_key:
  assumes "distinct (map key rows)" and "r \<in> set rows"
  shows "find (\<lambda>q. key q = key r) rows = Some r"
  using assms by (induction rows) auto

lemma find_update_where_key:
  assumes "\<forall>r. key (f r) = key r"
  shows "find (\<lambda>q. key q = k) (update_where P f rows)
    = map_option (\<lambda>r. if P r then f r else r) (find (\<lambda>q. key q = k) rows)"
  using assms by (induction rows) (auto simp: update_where_def)

lemma affected_key_le_1:
  assumes "distinct (map key rows)"
  shows "affected (\<lambda>r. key r = k \<and> Q r) rows \<le> 1"
proof -
  have "distinct (map key (filter (\<lambda>r. key r = k \<and> Q r) rows))"
    using assms by (simp add: distinct_map_filter)
  moreover have "set (map key (filter (\<lambda>r. key r = k \<and> Q r) rows)) \<subseteq> {k}" by auto
  then have "card (set (map key (filter (\<lambda>r. key r = k \<and> Q r) rows))) \<le> 1"
    using card_mono [of "{k}"] by fastforce
  ultimately show ?thesis by (metis affected_def distinct_card length_map)
qed

end
