(* ===== verification/WorkerCredential.thy ===== *)
theory WorkerCredential
  imports Database Identifiers
begin

text \<open>
  internal/workercredential/store.go: the table of Worker Nodes and its operations. A credential is
  43 characters of unpadded URL-safe base64 over 32 random bytes; the table keeps only its SHA-256.
  The hash, the random source and the host clock are parameters (\<open>sha256\<close>, \<open>secret\<close>, \<open>now\<close>).
\<close>

section \<open>Unpadded URL-safe base64 (RawURLEncoding, strict)\<close>

definition b64_char :: "nat \<Rightarrow> char" where
  "b64_char n =
     (if n < 26 then char_of (65 + n) else if n < 52 then char_of (71 + n)
      else if n < 62 then char_of (n - 4) else if n = 62 then CHR ''-'' else CHR ''_'')"

definition b64_value :: "char \<Rightarrow> nat option" where
  "b64_value c =
     (if is_upper c then Some (byte c - 65) else if is_lower c then Some (byte c - 71)
      else if is_digit c then Some (byte c + 4) else if c = CHR ''-'' then Some 62
      else if c = CHR ''_'' then Some 63 else None)"

fun sextets :: "nat list \<Rightarrow> nat list" where
  "sextets (a # b # c # bs) =
     a div 4 # ((a mod 4) * 16 + b div 16) # ((b mod 16) * 4 + c div 64) # (c mod 64) # sextets bs"
| "sextets [a, b] = [a div 4, (a mod 4) * 16 + b div 16, (b mod 16) * 4]"
| "sextets [a] = [a div 4, (a mod 4) * 16]"
| "sextets [] = []"

text \<open>Strict decoding: the unused low bits of the last group must be zero.\<close>

fun octets :: "nat list \<Rightarrow> nat list option" where
  "octets (a # b # c # d # ss) =
     map_option (\<lambda>r. (a * 4 + b div 16) # ((b mod 16) * 16 + c div 4) # ((c mod 4) * 64 + d) # r) (octets ss)"
| "octets [a, b, c] =
     (if c mod 4 \<noteq> 0 then None else Some [a * 4 + b div 16, (b mod 16) * 16 + c div 4])"
| "octets [a, b] = (if b mod 16 \<noteq> 0 then None else Some [a * 4 + b div 16])"
| "octets [a] = None"
| "octets [] = Some []"

definition EncodeToString :: "bytes \<Rightarrow> bytes" where
  "EncodeToString s = map b64_char (sextets (map byte s))"

text \<open>The decoder skips carriage returns and line feeds.\<close>

definition DecodeString :: "bytes \<Rightarrow> bytes option" where
  "DecodeString s =
     (let cs = map b64_value (filter (\<lambda>c. c \<noteq> CHR 0x0A \<and> c \<noteq> CHR 0x0D) s) in
      if None \<in> set cs then None else map_option (map char_of) (octets (map the cs)))"

definition validToken :: "bytes \<Rightarrow> bool" where
  "validToken token =
     (if length token \<noteq> 43 then False
      else (case DecodeString token of None \<Rightarrow> False | Some decoded \<Rightarrow> length decoded = 32))"

lemma byte_bound [simp]: "byte c < 256"
  unfolding byte_def using of_char_mod_256 [of c, where 'a = nat] by (metis mod_less_divisor zero_less_numeral)

lemma b64_value_char_all: "list_all (\<lambda>n. b64_value (b64_char n) = Some n \<and>
    b64_char n \<noteq> CHR 0x0A \<and> b64_char n \<noteq> CHR 0x0D) [0..<64]"
  by code_simp

lemma b64_value_char:
  assumes "n < 64"
  shows "b64_value (b64_char n) = Some n" "b64_char n \<noteq> CHR 0x0A" "b64_char n \<noteq> CHR 0x0D"
  using b64_value_char_all assms by (auto simp: list_all_iff)

lemma pack_bound:
  "b < (256 :: nat) \<Longrightarrow> (a mod 4) * 16 + b div 16 < 64" "c < (256 :: nat) \<Longrightarrow> (b mod 16) * 4 + c div 64 < 64"
  "(a mod 4) * 16 < (64 :: nat)" "(b mod 16) * 4 < (64 :: nat)"
proof -
  have m: "a mod 4 < (4 :: nat)" "b mod 16 < (16 :: nat)" by simp_all
  show "(a mod 4) * 16 < (64 :: nat)" "(b mod 16) * 4 < (64 :: nat)" using m by linarith+
  show "(a mod 4) * 16 + b div 16 < 64" if "b < (256 :: nat)"
  proof -
    have "b div 16 < 16" using that by auto
    then show ?thesis using m by linarith
  qed
  show "(b mod 16) * 4 + c div 64 < 64" if "c < (256 :: nat)"
  proof -
    have "c div 64 < 4" using that by auto
    then show ?thesis using m by linarith
  qed
qed

lemma sextets_bound: "\<forall>b \<in> set bs. b < 256 \<Longrightarrow> s \<in> set (sextets bs) \<Longrightarrow> s < 64"
  by (induction bs rule: sextets.induct) (auto simp: pack_bound pack_bound(3,4) [simplified])

lemma octets_sextets: "\<forall>b \<in> set bs. b < 256 \<Longrightarrow> octets (sextets bs) = Some bs"
proof (induction bs rule: sextets.induct)
  case (1 a b c bs)
  have "b div 16 < 16" "c div 64 < 4" using "1.prems" by auto
  then have "((a mod 4) * 16 + b div 16) div 16 = a mod 4" "((a mod 4) * 16 + b div 16) mod 16 = b div 16"
    "((b mod 16) * 4 + c div 64) div 4 = b mod 16" "((b mod 16) * 4 + c div 64) mod 4 = c div 64"
    by auto
  then show ?case using 1 by simp
next
  case (2 a b)
  have "b div 16 < 16" using "2.prems" by auto
  then have "((a mod 4) * 16 + b div 16) div 16 = a mod 4" "((a mod 4) * 16 + b div 16) mod 16 = b div 16"
    by auto
  then show ?case by simp
qed simp_all

lemma length_sextets: "length (sextets bs) = (length bs * 4 + 2) div 3"
  by (induction bs rule: sextets.induct) auto

lemma decode_encode: "DecodeString (EncodeToString s) = Some s"
proof -
  let ?ss = "sextets (map byte s)"
  have bound: "\<forall>n \<in> set ?ss. n < 64" using sextets_bound [of "map byte s"] by auto
  then have keep: "filter (\<lambda>c. c \<noteq> CHR 0x0A \<and> c \<noteq> CHR 0x0D) (map b64_char ?ss) = map b64_char ?ss"
    using b64_value_char by (auto simp: filter_id_conv)
  have vals: "map b64_value (map b64_char ?ss) = map Some ?ss"
    using bound b64_value_char(1) by auto
  have "octets ?ss = Some (map byte s)" by (rule octets_sextets) auto
  moreover have "map char_of (map byte s) = s" by (induction s) (auto simp: byte_def)
  ultimately show ?thesis
    unfolding DecodeString_def EncodeToString_def keep Let_def vals by (auto simp: o_def)
qed

lemma issued_token_valid: "length secret = 32 \<Longrightarrow> validToken (EncodeToString secret)"
  by (simp add: validToken_def decode_encode) (simp add: EncodeToString_def length_sextets)

section \<open>The table and its operations\<close>

record worker_row =
  w_id :: bytes
  credential_sha256 :: bytes
  credential_generation :: int
  created_at :: int
  w_expires_at :: int
  revoked_at :: "int option"
  sandbox_capacity :: int

record Worker =
  ID :: bytes
  Generation :: int
  CreatedAt :: int
  ExpiresAt :: int
  RevokedAt :: "int option"

record Issued =
  issued_worker :: Worker
  Token :: bytes

definition worker_of :: "worker_row \<Rightarrow> Worker" where
  "worker_of r = \<lparr>ID = w_id r, Generation = credential_generation r, CreatedAt = created_at r,
     ExpiresAt = w_expires_at r, RevokedAt = revoked_at r\<rparr>"

text \<open>
  \<open>AuthenticateTx\<close> runs inside the caller's transaction: statement 0 looks the digest up and locks
  the row, statement 1 reads the clock (reading 0) once the lock is held.
\<close>

definition AuthenticateTx :: "(bytes \<Rightarrow> bytes) \<Rightarrow> dbenv \<Rightarrow> worker_row list \<Rightarrow> bytes \<Rightarrow> store_error + Worker" where
  "AuthenticateTx sha256 env rows token =
     (if \<not> validToken token then Inl ErrUnauthenticated
      else if fault env 0 then Inl (databaseError env)
      else case find (\<lambda>r. credential_sha256 r = sha256 token) rows of
        None \<Rightarrow> Inl ErrUnauthenticated
      | Some r \<Rightarrow>
         (if fault env 1 then Inl (databaseError env)
          else if revoked_at r \<noteq> None \<or> \<not> w_expires_at r > clock env 0 [] then Inl ErrUnauthenticated
          else Inr (worker_of r)))"

definition Authenticate :: "(bytes \<Rightarrow> bytes) \<Rightarrow> dbenv \<Rightarrow> bytes \<Rightarrow> worker_row list
    \<Rightarrow> (store_error + Worker) \<times> worker_row list" where
  "Authenticate sha256 env token =
     run_tx env (\<lambda>rows. case AuthenticateTx sha256 env rows token of
        Inl e \<Rightarrow> Abort e
      | Inr w \<Rightarrow> Commit w rows)"

text \<open>
  \<open>secret\<close> is what \<^verbatim>\<open>rand.Read\<close> fills the 32-byte array with, \<open>None\<close> when it fails;
  \<open>now\<close> is the host's \<^verbatim>\<open>time.Now()\<close>.
\<close>

definition Provision :: "(bytes \<Rightarrow> bytes) \<Rightarrow> dbenv \<Rightarrow> int \<Rightarrow> bytes option \<Rightarrow> bytes \<Rightarrow> int
    \<Rightarrow> worker_row list \<Rightarrow> (store_error + Issued) \<times> worker_row list" where
  "Provision sha256 env now secret wid expiresAt rows =
     (if \<not> workerID wid \<or> \<not> expiresAt > now then (Inl ErrInvalid, rows)
      else case secret of
        None \<Rightarrow> (Inl ErrRandom, rows)
      | Some s \<Rightarrow>
         (let token = EncodeToString s;
              digest = sha256 token
          in run_tx env (\<lambda>rows.
               if fault env 0 then Abort (databaseError env)
               else if wid \<in> w_id ` set rows \<or> digest \<in> credential_sha256 ` set rows
               then Abort ErrConflict
               else let row = \<lparr>w_id = wid, credential_sha256 = digest, credential_generation = 1,
                       created_at = clock env 0 wid, w_expires_at = expiresAt, revoked_at = None,
                       sandbox_capacity = 2\<rparr>
                    in Commit \<lparr>issued_worker = worker_of row, Token = token\<rparr> (rows @ [row])) rows))"

text \<open>The SET clause of the rotation.\<close>

definition replace_credential :: "bytes \<Rightarrow> int \<Rightarrow> worker_row \<Rightarrow> worker_row" where
  "replace_credential digest expiresAt r = r\<lparr>credential_sha256 := digest,
     credential_generation := credential_generation r + 1, w_expires_at := expiresAt, revoked_at := None\<rparr>"

definition Rotate :: "(bytes \<Rightarrow> bytes) \<Rightarrow> dbenv \<Rightarrow> int \<Rightarrow> bytes option \<Rightarrow> bytes \<Rightarrow> int
    \<Rightarrow> worker_row list \<Rightarrow> (store_error + Issued) \<times> worker_row list" where
  "Rotate sha256 env now secret wid expiresAt rows =
     (if \<not> workerID wid \<or> \<not> expiresAt > now then (Inl ErrInvalid, rows)
      else case secret of
        None \<Rightarrow> (Inl ErrRandom, rows)
      | Some s \<Rightarrow>
         (let token = EncodeToString s;
              digest = sha256 token;
              replace = replace_credential digest expiresAt
          in run_tx env (\<lambda>rows.
               if fault env 0 then Abort (databaseError env)
               else case find (\<lambda>r. w_id r = wid) rows of
                 None \<Rightarrow> Abort ErrNotFound
               | Some r \<Rightarrow>
                  (if \<exists>q \<in> set rows. w_id q \<noteq> wid \<and> credential_sha256 q = digest
                   then Abort (databaseError env)
                   else Commit \<lparr>issued_worker = worker_of (replace r), Token = token\<rparr>
                          (update_where (\<lambda>r. w_id r = wid) replace rows))) rows))"

text \<open>\<^verbatim>\<open>SET revoked_at=COALESCE(revoked_at, clock_timestamp())\<close>\<close>

definition revoke_row :: "int \<Rightarrow> worker_row \<Rightarrow> worker_row" where
  "revoke_row t r = r\<lparr>revoked_at := (case revoked_at r of None \<Rightarrow> Some t | Some u \<Rightarrow> Some u)\<rparr>"

definition Revoke :: "dbenv \<Rightarrow> bytes \<Rightarrow> worker_row list \<Rightarrow> (store_error + unit) \<times> worker_row list" where
  "Revoke env wid rows =
     (if \<not> workerID wid then (Inl ErrInvalid, rows)
      else run_tx env (\<lambda>rows.
        if fault env 0 then Abort (databaseError env)
        else if affected (\<lambda>r. w_id r = wid) rows = 0 then Abort ErrNotFound
        else Commit () (update_where (\<lambda>r. w_id r = wid) (revoke_row (clock env 0 wid)) rows)) rows)"

text \<open>\<open>List\<close> orders by the identifier under the database's collation, a sort key \<open>collate\<close>.\<close>

definition List_workers :: "(bytes \<Rightarrow> 'k :: linorder) \<Rightarrow> dbenv \<Rightarrow> worker_row list
    \<Rightarrow> (store_error + Worker list) \<times> worker_row list" where
  "List_workers collate env = autocommit env (\<lambda>rows.
     if fault env 0 then Abort (databaseError env)
     else Answer (map worker_of (sort_key (\<lambda>r. collate (w_id r)) rows)))"

section \<open>The table's constraints\<close>

definition workers_ok :: "worker_row list \<Rightarrow> bool" where
  "workers_ok rows \<longleftrightarrow>
     distinct (map w_id rows) \<and> distinct (map credential_sha256 rows) \<and>
     (\<forall>r \<in> set rows. workerID (w_id r) \<and> credential_generation r > 0 \<and>
        1 \<le> sandbox_capacity r \<and> sandbox_capacity r \<le> 64)"

lemma revoke_row_simps [simp]:
  "w_id (revoke_row t r) = w_id r" "credential_sha256 (revoke_row t r) = credential_sha256 r"
  "credential_generation (revoke_row t r) = credential_generation r"
  "sandbox_capacity (revoke_row t r) = sandbox_capacity r" "revoked_at (revoke_row t r) \<noteq> None"
  "\<exists>u. revoked_at (revoke_row t r) = Some u"
  by (simp_all add: revoke_row_def split: option.splits)

lemma AuthenticateTx_Inr:
  assumes "AuthenticateTx sha256 env rows token = Inr w"
  shows "\<exists>r \<in> set rows. w = worker_of r \<and> credential_sha256 r = sha256 token \<and> revoked_at r = None \<and>
    clock env 0 [] < w_expires_at r \<and> validToken token \<and> \<not> fault env 0 \<and> \<not> fault env 1"
  using assms by (auto simp: AuthenticateTx_def split: if_splits option.splits dest!: find_SomeD)

lemma distinct_digest_update:
  assumes "distinct (map w_id rows)" and "distinct (map credential_sha256 rows)"
    and "\<forall>q \<in> set rows. w_id q \<noteq> wid \<longrightarrow> credential_sha256 q \<noteq> d"
    and "\<forall>r. credential_sha256 (f r) = d"
  shows "distinct (map credential_sha256 (update_where (\<lambda>r. w_id r = wid) f rows))"
  using assms
proof (induction rows)
  case (Cons r rows)
  show ?case
  proof (cases "w_id r = wid")
    case True
    then have "\<forall>q \<in> set rows. w_id q \<noteq> wid" using Cons.prems(1) by (metis distinct.simps(2) image_eqI list.simps(9) list.set_map)
    then have "update_where (\<lambda>r. w_id r = wid) f rows = rows"
      by (auto simp: update_where_def intro: map_idI)
    then show ?thesis using Cons True \<open>\<forall>q \<in> set rows. w_id q \<noteq> wid\<close> by (auto simp: update_where_def)
  next
    case False
    then show ?thesis using Cons by (auto simp: update_where_def split: if_splits)
  qed
qed (simp add: update_where_def)

lemma run_tx_workers_ok:
  assumes "workers_ok rows" and "\<And>v rows'. body rows = Commit v rows' \<Longrightarrow> workers_ok rows'"
  shows "workers_ok (snd (run_tx env body rows))"
  using assms by (rule run_tx_keeps)

lemma Provision_ok:
  assumes "workers_ok rows" shows "workers_ok (snd (Provision sha256 env now secret wid ex rows))"
proof (cases "\<not> workerID wid \<or> \<not> ex > now")
  case False
  then show ?thesis using assms unfolding Provision_def Let_def
    by (auto split: option.splits if_splits intro!: run_tx_workers_ok) (auto simp: workers_ok_def)
qed (use assms in \<open>simp add: Provision_def\<close>)

lemma rotated_ok:
  assumes "workers_ok rows" and "\<forall>q \<in> set rows. w_id q \<noteq> wid \<longrightarrow> credential_sha256 q \<noteq> d"
  shows "workers_ok (update_where (\<lambda>r. w_id r = wid) (replace_credential d ex) rows)"
  unfolding workers_ok_def replace_credential_def
  using assms distinct_digest_update [of rows wid d]
  by (fastforce simp: workers_ok_def set_update_where)

lemma Rotate_ok:
  assumes "workers_ok rows" shows "workers_ok (snd (Rotate sha256 env now secret wid ex rows))"
proof (cases "\<not> workerID wid \<or> \<not> ex > now")
  case False
  then show ?thesis using assms unfolding Rotate_def Let_def
    by (auto split: option.splits if_splits intro!: run_tx_workers_ok rotated_ok)
qed (use assms in \<open>simp add: Rotate_def\<close>)

lemma Revoke_ok:
  assumes "workers_ok rows" shows "workers_ok (snd (Revoke env wid rows))"
proof (cases "workerID wid")
  case True
  then show ?thesis using assms unfolding Revoke_def
    by (auto split: if_splits intro!: run_tx_workers_ok) (auto simp: workers_ok_def set_update_where)
qed (use assms in \<open>simp add: Revoke_def\<close>)

lemma Authenticate_frame: "snd (Authenticate sha256 env token rows) = rows"
  by (auto simp: Authenticate_def run_tx_def split: sum.splits tx_end.splits commit_outcome.splits)

section \<open>Issuing, rotating and revoking\<close>

text \<open>What authentication answers when the digest belongs to a given row.\<close>

lemma AuthenticateTx_row:
  assumes "distinct (map credential_sha256 rows)" and "r \<in> set rows"
    and "credential_sha256 r = sha256 token" and "validToken token"
  shows "AuthenticateTx sha256 env rows token =
    (if fault env 0 \<or> fault env 1 then Inl (databaseError env)
     else if revoked_at r = None \<and> clock env 0 [] < w_expires_at r then Inr (worker_of r)
     else Inl ErrUnauthenticated)"
  using find_distinct_key [OF assms(1,2)] assms(3,4) by (simp add: AuthenticateTx_def)

lemma replace_credential_simps [simp]:
  "w_id (replace_credential d ex r) = w_id r" "credential_sha256 (replace_credential d ex r) = d"
  "w_expires_at (replace_credential d ex r) = ex" "revoked_at (replace_credential d ex r) = None"
  by (simp_all add: replace_credential_def)

lemma Rotate_Inr:
  assumes "Rotate sha256 env now (Some s) wid ex rows = (Inr issued, rows')"
  shows "Token issued = EncodeToString s \<and>
    (\<exists>r \<in> set rows. w_id r = wid \<and>
       issued_worker issued = worker_of (replace_credential (sha256 (EncodeToString s)) ex r)) \<and>
    rows' = update_where (\<lambda>r. w_id r = wid) (replace_credential (sha256 (EncodeToString s)) ex) rows"
  using assms
  by (auto simp: Rotate_def Let_def split: if_splits option.splits dest!: run_tx_Inr find_SomeD; blast)

text \<open>
  A credential issued from any 32 random bytes has the one accepted token shape, and strict
  decoding of the token gives back exactly those bytes.
\<close>

lemma issued_token_round_trip:
  "length secret = 32 \<Longrightarrow>
     validToken (EncodeToString secret) \<and> DecodeString (EncodeToString secret) = Some secret"
  by (simp add: issued_token_valid decode_encode)

lemma issued_token_round_trip_witness:
  "validToken (EncodeToString (replicate 32 (CHR ''k''))) \<and>
     DecodeString (EncodeToString (replicate 32 (CHR ''k''))) = Some (replicate 32 (CHR ''k''))"
  using issued_token_round_trip [of "replicate 32 (CHR ''k'')"] by simp

text \<open>
  After a successful rotation the new token, and no token with another digest, authenticates
  the Worker Node: the new one exactly until its expiry, whatever the state of the replaced
  credential was.
\<close>

lemma rotate_replaces_credential:
  assumes "workers_ok rows" and "length s = 32"
    and "Rotate sha256 env now (Some s) wid ex rows = (Inr issued, rows')"
  shows "AuthenticateTx sha256 env' rows' (Token issued) =
      (if fault env' 0 \<or> fault env' 1 then Inl (databaseError env')
       else if clock env' 0 [] < ex then Inr (issued_worker issued) else Inl ErrUnauthenticated) \<and>
    (sha256 old \<noteq> sha256 (Token issued) \<longrightarrow>
       AuthenticateTx sha256 env' rows' old = Inr w \<longrightarrow> ID w \<noteq> wid)"
proof -
  let ?f = "replace_credential (sha256 (EncodeToString s)) ex"
  note rot = Rotate_Inr [OF assms(3)]
  have ok: "workers_ok rows'" using Rotate_ok [OF assms(1)] assms(3) by (metis snd_conv)
  obtain r where r: "r \<in> set rows" "w_id r = wid" "issued_worker issued = worker_of (?f r)"
    using rot by auto
  have mem: "?f r \<in> set rows'" using rot r by (auto simp: set_update_where)
  have new: "AuthenticateTx sha256 env' rows' (Token issued) =
      (if fault env' 0 \<or> fault env' 1 then Inl (databaseError env')
       else if clock env' 0 [] < ex then Inr (issued_worker issued) else Inl ErrUnauthenticated)"
    using AuthenticateTx_row [OF _ mem, of sha256 "Token issued" env'] ok rot r issued_token_valid [OF assms(2)]
    by (simp add: workers_ok_def)
  have only: "\<forall>q \<in> set rows'. w_id q = wid \<longrightarrow> credential_sha256 q = sha256 (Token issued)"
    using rot update_where_hit [of w_id ?f _ wid rows] by fastforce
  have "ID w \<noteq> wid" if "sha256 old \<noteq> sha256 (Token issued)"
    and auth: "AuthenticateTx sha256 env' rows' old = Inr w"
  proof -
    obtain q where "q \<in> set rows'" "w = worker_of q" "credential_sha256 q = sha256 old"
      using AuthenticateTx_Inr [OF auth] by blast
    then show ?thesis using only that by (auto simp: worker_of_def)
  qed
  with new show ?thesis by blast
qed

definition example_worker :: worker_row where
  "example_worker = \<lparr>w_id = ''node-1'', credential_sha256 = EncodeToString (replicate 32 (CHR ''k'')),
     credential_generation = 1, created_at = 0, w_expires_at = 1000, revoked_at = Some 7,
     sandbox_capacity = 2\<rparr>"

lemma example_worker_id: "workerID ''node-1''"
  by (simp add: workerID_def char_class_defs less_eq_char_def)

lemma example_workers_ok: "workers_ok [example_worker]"
  by (simp add: workers_ok_def example_worker_def example_worker_id)

lemma rotate_replaces_credential_witness:
  "\<exists>issued rows'. Rotate id (calm 10) 10 (Some (replicate 32 (CHR ''n''))) ''node-1'' 500 [example_worker]
      = (Inr issued, rows') \<and> AuthenticateTx id (calm 499) rows' (Token issued) = Inr (issued_worker issued) \<and>
      AuthenticateTx id (calm 500) rows' (Token issued) = Inl ErrUnauthenticated"
proof -
  let ?s = "replicate 32 (CHR ''n'')"
  obtain issued rows' where rot: "Rotate id (calm 10) 10 (Some ?s) ''node-1'' 500 [example_worker] = (Inr issued, rows')"
    by (simp add: Rotate_def Let_def example_worker_id run_tx_ok example_worker_def)
  note auth = rotate_replaces_credential [OF example_workers_ok _ rot]
  from auth [of "calm 499"] auth [of "calm 500"] rot show ?thesis by auto
qed



end
