(* ===== verification/ExecutionQueue.thy ===== *)
theory ExecutionQueue
  imports WorkerCredential Protocol
begin

text \<open>
  internal/executionqueue: the durable queue of Executions in PostgreSQL. The tables are lists of
  rows with the columns of the migrated schema (internal/migrations/sql), every SQL statement of the
  package is a function on them, and the CHECK constraints of the schema are evaluated on every
  updated row: a statement that would violate one fails. JSON encoding and decoding of the two
  stored documents are the parameter \<open>codec\<close>, the digest is the parameter \<open>sha256\<close>.

  Transactions are atomic steps. Every operation of a Worker holds that Worker's row lock from
  authentication to its end, and every execution row it changes is locked or changed by one
  statement, so the capacity counted by \<open>Claim\<close> cannot change before its commit.
\<close>

section \<open>Data (types.go, schema)\<close>

record Execution =
  x_ExecutionID :: bytes
  x_AgentRunID :: bytes
  x_Source :: bytes
  x_Stdin :: bytes
  x_OutputPaths :: "bytes list"

record Lease =
  l_ExecutionID :: bytes
  l_AgentRunID :: bytes
  l_Generation :: int
  l_ExpiresAt :: int
  l_Source :: bytes
  l_Stdin :: bytes
  l_OutputPaths :: "bytes list"

datatype exec_state = Queued | Leased | Recovering | WorkerLost | Completed

record Record =
  rec_Execution :: Execution
  rec_State :: exec_state
  rec_WorkerID :: bytes
  rec_Generation :: int
  rec_ExpiresAt :: "int option"
  rec_Result :: "ExecutePythonResult option"
  rec_RecoveryUntil :: "int option"
  rec_SandboxID :: bytes
  rec_CleanupUnknown :: bool

record Capacity =
  c_WorkerID :: bytes
  Configured :: int
  Occupied :: int
  Available :: int

record Authority =
  a_Lease :: Lease
  a_State :: exec_state
  ServerTime :: int
  a_RecoveryUntil :: int

record OutstandingExecution =
  o_Lease :: Lease
  o_SandboxID :: bytes
  o_State :: exec_state
  o_CleanupUnknown :: bool

record codec =
  marshal_execution :: "Execution \<Rightarrow> bytes"
  unmarshal_execution :: "bytes \<Rightarrow> Execution option"
  marshal_result :: "ExecutePythonResult \<Rightarrow> bytes"
  unmarshal_result :: "bytes \<Rightarrow> ExecutePythonResult option"

text \<open>A row of \<^verbatim>\<open>control_plane.executions\<close>.\<close>

record exec_row =
  x_id :: bytes
  agent_run_id :: bytes
  queued_order :: nat
  workload :: bytes
  state :: exec_state
  worker_id :: "bytes option"
  generation :: int
  lease_expires_at :: "int option"
  result :: "bytes option"
  capacity_released :: bool
  sandbox_id :: bytes
  recovery_until :: "int option"
  cleanup_unknown :: bool

record queue_db =
  worker_nodes :: "worker_row list"
  executions :: "exec_row list"
  next_order :: nat

text \<open>The CHECK constraints of the schema after migration 0005.\<close>

definition owned_state_ok :: "exec_row \<Rightarrow> bool" where
  "owned_state_ok r \<longleftrightarrow>
     (case state r of
        Queued \<Rightarrow> worker_id r = None \<and> generation r = 0 \<and> lease_expires_at r = None \<and> result r = None
      | Completed \<Rightarrow> worker_id r \<noteq> None \<and> generation r > 0 \<and> lease_expires_at r \<noteq> None \<and> result r \<noteq> None
      | _ \<Rightarrow> worker_id r \<noteq> None \<and> generation r > 0 \<and> lease_expires_at r \<noteq> None \<and> result r = None)"

definition deadline_ok :: "exec_row \<Rightarrow> bool" where
  "deadline_ok r \<longleftrightarrow>
     (case (lease_expires_at r, recovery_until r) of
        (None, None) \<Rightarrow> True | (Some l, Some u) \<Rightarrow> u > l | _ \<Rightarrow> False)"

definition row_ok :: "exec_row \<Rightarrow> bool" where
  "row_ok r \<longleftrightarrow> generation r \<ge> 0 \<and> owned_state_ok r \<and> deadline_ok r \<and>
     (capacity_released r \<longrightarrow> worker_id r \<noteq> None) \<and>
     (sandbox_id r = [] \<or> reference (sandbox_id r)) \<and>
     (cleanup_unknown r \<longrightarrow> worker_id r \<noteq> None \<and> \<not> capacity_released r \<and> sandbox_id r = [])"

section \<open>The store (store.go)\<close>

text \<open>Go durations are nanoseconds; the statements receive whole milliseconds.\<close>

record Store =
  leaseDuration :: int
  recoveryWindow :: int

abbreviation Millisecond :: int where "Millisecond \<equiv> 1000000"
abbreviation Second :: int where "Second \<equiv> 1000000000"

definition NewStoreWithRecovery :: "bool \<Rightarrow> int \<Rightarrow> int \<Rightarrow> Store option" where
  "NewStoreWithRecovery url_ok lease recovery =
     (let lease = (if lease = 0 then 120 * Second else lease) in
      if lease < 100 * Millisecond \<or> lease > 3600 * Second then None
      else if recovery < 100 * Millisecond \<or> recovery > 3600 * Second then None
      else if \<not> url_ok then None
      else Some \<lparr>leaseDuration = lease, recoveryWindow = recovery\<rparr>)"

definition NewStore :: "bool \<Rightarrow> int \<Rightarrow> Store option" where
  "NewStore url_ok lease = NewStoreWithRecovery url_ok lease (30 * Second)"

definition lease_interval :: "Store \<Rightarrow> int" where
  "lease_interval s = (leaseDuration s div Millisecond) * 1000"

definition recovery_interval :: "Store \<Rightarrow> int" where
  "recovery_interval s = ((leaseDuration s + recoveryWindow s) div Millisecond) * 1000"

definition validExecution :: "codec \<Rightarrow> Execution \<Rightarrow> bool" where
  "validExecution cd e =
     (if \<not> reference (x_ExecutionID e) \<or> \<not> reference (x_AgentRunID e) \<or> length (x_Source e) = 0
         \<or> length (x_Source e) > 32 * 1024 \<or> nul \<in> set (x_Source e) \<or> length (x_Stdin e) > 8 * 1024
         \<or> length (x_OutputPaths e) > 16 then False
      else if \<not> queue_paths_ok [] (x_OutputPaths e) then False
      else length (marshal_execution cd e) \<le> 60 * 1024)"

definition new_row :: "codec \<Rightarrow> Execution \<Rightarrow> nat \<Rightarrow> exec_row" where
  "new_row cd e n = \<lparr>x_id = x_ExecutionID e, agent_run_id = x_AgentRunID e, queued_order = n,
     workload = marshal_execution cd e, state = Queued, worker_id = None, generation = 0,
     lease_expires_at = None, result = None, capacity_released = False, sandbox_id = [],
     recovery_until = None, cleanup_unknown = False\<rparr>"

definition Enqueue :: "codec \<Rightarrow> dbenv \<Rightarrow> Execution \<Rightarrow> queue_db \<Rightarrow> (store_error + unit) \<times> queue_db" where
  "Enqueue cd env e db =
     (if \<not> validExecution cd e then (Inl ErrInvalid, db)
      else autocommit env (\<lambda>db.
        if fault env 0 then Abort (databaseError env)
        else if x_ExecutionID e \<in> x_id ` set (executions db)
             \<or> x_AgentRunID e \<in> agent_run_id ` set (executions db) then Abort ErrConflict
        else Commit () (db\<lparr>executions := executions db @ [new_row cd e (next_order db)],
                          next_order := next_order db + 1\<rparr>)) db)"

text \<open>An UPDATE of executions: \<open>None\<close> when a row it changes would violate a constraint.\<close>

definition update_executions :: "(exec_row \<Rightarrow> bool) \<Rightarrow> (exec_row \<Rightarrow> exec_row) \<Rightarrow> queue_db \<Rightarrow> queue_db option" where
  "update_executions P f db =
     (if \<exists>r \<in> set (executions db). P r \<and> \<not> row_ok (f r) then None
      else Some (db\<lparr>executions := update_where P f (executions db)\<rparr>))"

text \<open>Comparisons with a NULL timestamp are not true.\<close>

definition later :: "int option \<Rightarrow> int \<Rightarrow> bool" where
  "later t now \<longleftrightarrow> (case t of None \<Rightarrow> False | Some v \<Rightarrow> v > now)"

definition passed :: "int option \<Rightarrow> int \<Rightarrow> bool" where
  "passed t now \<longleftrightarrow> (case t of None \<Rightarrow> False | Some v \<Rightarrow> v \<le> now)"

definition occupied :: "queue_db \<Rightarrow> bytes \<Rightarrow> nat" where
  "occupied db w = length (filter (\<lambda>r. worker_id r = Some w \<and> \<not> capacity_released r) (executions db))"

text \<open>The common prefix of every Worker operation: authenticate inside the transaction.\<close>

definition with_worker :: "(bytes \<Rightarrow> bytes) \<Rightarrow> dbenv \<Rightarrow> bytes \<Rightarrow> (Worker \<Rightarrow> queue_db \<Rightarrow> (queue_db, 'a) tx_end)
    \<Rightarrow> queue_db \<Rightarrow> (queue_db, 'a) tx_end" where
  "with_worker sha256 env token body db =
     (case AuthenticateTx sha256 env (worker_nodes db) token of
        Inl e \<Rightarrow> Abort e
      | Inr worker \<Rightarrow> body worker db)"

text \<open>Statement 2 of the capacity operations: configured capacity and occupied count of a Worker.\<close>

definition select_capacity :: "dbenv \<Rightarrow> Worker \<Rightarrow> queue_db \<Rightarrow> (int \<times> int) option" where
  "select_capacity env worker db =
     (if fault env 2 then None
      else map_option (\<lambda>n. (sandbox_capacity n, int (occupied db (ID worker))))
             (find (\<lambda>n. w_id n = ID worker) (worker_nodes db)))"

text \<open>Statement 3 of Claim: the first queued row in queue order that nobody holds locked.\<close>

definition next_queued :: "dbenv \<Rightarrow> queue_db \<Rightarrow> exec_row option" where
  "next_queued env db =
     (case sort_key queued_order (filter (\<lambda>r. state r = Queued \<and> \<not> locked env (x_id r)) (executions db)) of
        [] \<Rightarrow> None
      | q # _ \<Rightarrow> Some q)"

text \<open>Statement 4 of Claim; clock readings 1 and 2 are in its SET clause, 3 in its WHERE clause.\<close>

definition claim_where :: "dbenv \<Rightarrow> Worker \<Rightarrow> bytes \<Rightarrow> exec_row \<Rightarrow> bool" where
  "claim_where env worker xid r \<longleftrightarrow>
     x_id r = xid \<and> state r = Queued \<and> ExpiresAt worker > clock env 3 (x_id r)"

definition claim_set :: "Store \<Rightarrow> dbenv \<Rightarrow> Worker \<Rightarrow> exec_row \<Rightarrow> exec_row" where
  "claim_set s env worker r = r\<lparr>state := Leased, worker_id := Some (ID worker), generation := generation r + 1,
     lease_expires_at := Some (clock env 1 (x_id r) + lease_interval s),
     recovery_until := Some (clock env 2 (x_id r) + recovery_interval s)\<rparr>"

text \<open>The body of Claim once the Worker is authenticated.\<close>

definition claim_body :: "Store \<Rightarrow> codec \<Rightarrow> dbenv \<Rightarrow> Worker \<Rightarrow> queue_db \<Rightarrow> (queue_db, Lease option) tx_end" where
  "claim_body s cd env worker db = (
     case select_capacity env worker db of
       None \<Rightarrow> Abort (databaseError env)
     | Some (capacity, occ) \<Rightarrow>
        (if occ \<ge> capacity then Answer None
         else if fault env 3 then Abort (databaseError env)
         else case next_queued env db of
           None \<Rightarrow> Answer None
         | Some q \<Rightarrow>
            (if fault env 4 then Abort (databaseError env)
             else case update_executions (claim_where env worker (x_id q)) (claim_set s env worker) db of
               None \<Rightarrow> Abort (databaseError env)
             | Some db' \<Rightarrow>
                (if affected (claim_where env worker (x_id q)) (executions db) = 0
                 then Abort ErrUnauthenticated
                 else case unmarshal_execution cd (workload q) of
                   None \<Rightarrow> Abort (databaseError env)
                 | Some e \<Rightarrow>
                    Commit (Some \<lparr>l_ExecutionID = x_ExecutionID e, l_AgentRunID = x_AgentRunID e,
                      l_Generation = generation q + 1,
                      l_ExpiresAt = clock env 1 (x_id q) + lease_interval s,
                      l_Source = x_Source e, l_Stdin = x_Stdin e, l_OutputPaths = x_OutputPaths e\<rparr>) db'))))"

definition Claim :: "Store \<Rightarrow> codec \<Rightarrow> (bytes \<Rightarrow> bytes) \<Rightarrow> dbenv \<Rightarrow> bytes \<Rightarrow> queue_db
    \<Rightarrow> (store_error + Lease option) \<times> queue_db" where
  "Claim s cd sha256 env token = run_tx env (with_worker sha256 env token (claim_body s cd env))"

text \<open>The state a reader reports while the background sweep catches up.\<close>

definition observed_state :: "(nat \<Rightarrow> int) \<Rightarrow> exec_row \<Rightarrow> exec_state" where
  "observed_state now r =
     (if (state r = Leased \<or> state r = Recovering) \<and> passed (recovery_until r) (now 0) then WorkerLost
      else if state r = Leased \<and> passed (lease_expires_at r) (now 1) then Recovering
      else state r)"

definition Get :: "codec \<Rightarrow> dbenv \<Rightarrow> bytes \<Rightarrow> queue_db \<Rightarrow> (store_error + Record) \<times> queue_db" where
  "Get cd env xid = autocommit env (\<lambda>db.
     if fault env 0 then Abort (databaseError env)
     else case find (\<lambda>r. x_id r = xid) (executions db) of
       None \<Rightarrow> Abort ErrNotFound
     | Some r \<Rightarrow>
        (case unmarshal_execution cd (workload r) of
           None \<Rightarrow> Abort (databaseError env)
         | Some e \<Rightarrow>
            (let answer = (\<lambda>res. Answer \<lparr>rec_Execution = e,
                   rec_State = observed_state (\<lambda>i. clock env i xid) r,
                   rec_WorkerID = (case worker_id r of None \<Rightarrow> [] | Some w \<Rightarrow> w),
                   rec_Generation = generation r, rec_ExpiresAt = lease_expires_at r, rec_Result = res,
                   rec_RecoveryUntil = recovery_until r, rec_SandboxID = sandbox_id r,
                   rec_CleanupUnknown = cleanup_unknown r\<rparr>)
             in case result r of
                  None \<Rightarrow> answer None
                | Some raw \<Rightarrow>
                   (case unmarshal_result cd raw of
                      None \<Rightarrow> Abort (databaseError env)
                    | Some v \<Rightarrow> answer (Some v)))))"

section \<open>Capacity (capacity.go)\<close>

definition Capacity_op :: "(bytes \<Rightarrow> bytes) \<Rightarrow> dbenv \<Rightarrow> bytes \<Rightarrow> queue_db \<Rightarrow> (store_error + Capacity) \<times> queue_db" where
  "Capacity_op sha256 env token = run_tx env (with_worker sha256 env token (\<lambda>worker db.
     case select_capacity env worker db of
       None \<Rightarrow> Abort (databaseError env)
     | Some (configured, occ) \<Rightarrow>
        Answer \<lparr>c_WorkerID = ID worker, Configured = configured, Occupied = occ,
          Available = max 0 (configured - occ)\<rparr>))"

text \<open>The body of ConfigureCapacity once the Worker is authenticated.\<close>

definition configure_body :: "dbenv \<Rightarrow> int \<Rightarrow> Worker \<Rightarrow> queue_db \<Rightarrow> (queue_db, unit) tx_end" where
  "configure_body env capacity worker db = (
        case select_capacity env worker db of
          None \<Rightarrow> Abort (databaseError env)
        | Some (current, occ) \<Rightarrow>
           (if capacity \<noteq> current \<and> occ \<noteq> 0 then Abort ErrConflict
            else if fault env 3 then Abort (databaseError env)
            else let P = (\<lambda>n. w_id n = ID worker \<and> w_expires_at n > clock env 1 (w_id n)) in
              if affected P (worker_nodes db) \<noteq> 1 then Abort ErrUnauthenticated
              else Commit () (db\<lparr>worker_nodes :=
                update_where P (\<lambda>n. n\<lparr>sandbox_capacity := capacity\<rparr>) (worker_nodes db)\<rparr>)))"

definition ConfigureCapacity :: "(bytes \<Rightarrow> bytes) \<Rightarrow> dbenv \<Rightarrow> bytes \<Rightarrow> int \<Rightarrow> queue_db
    \<Rightarrow> (store_error + unit) \<times> queue_db" where
  "ConfigureCapacity sha256 env token capacity db =
     (if capacity < 1 \<or> capacity > 64 then (Inl ErrInvalid, db)
      else run_tx env (with_worker sha256 env token (configure_body env capacity)) db)"

definition release_set :: "exec_row \<Rightarrow> exec_row" where
  "release_set r = r\<lparr>capacity_released := True,
     state := (if state r = Leased \<or> state r = Recovering then WorkerLost else state r)\<rparr>"

definition coalesce :: "'a option \<Rightarrow> 'a \<Rightarrow> 'a" where
  "coalesce v d = (case v of None \<Rightarrow> d | Some x \<Rightarrow> x)"

text \<open>The body of Release once the Worker is authenticated.\<close>

definition release_body :: "dbenv \<Rightarrow> bytes \<Rightarrow> int \<Rightarrow> Worker \<Rightarrow> queue_db \<Rightarrow> (queue_db, unit) tx_end" where
  "release_body env xid gen worker db = (
        if fault env 2 then Abort (databaseError env)
        else case find (\<lambda>r. x_id r = xid) (executions db) of
          None \<Rightarrow> Abort ErrLease
        | Some r \<Rightarrow>
           (if coalesce (worker_id r) [] \<noteq> ID worker \<or> generation r \<noteq> gen then Abort ErrLease
            else if cleanup_unknown r then Abort ErrConflict
            else if fault env 3 then Abort (databaseError env)
            else let P = (\<lambda>r. x_id r = xid \<and> ExpiresAt worker > clock env 1 (x_id r)) in
              case update_executions P release_set db of
                None \<Rightarrow> Abort (databaseError env)
              | Some db' \<Rightarrow>
                 (if affected P (executions db) \<noteq> 1 then Abort ErrUnauthenticated
                  else Commit () db')))"

definition Release :: "(bytes \<Rightarrow> bytes) \<Rightarrow> dbenv \<Rightarrow> bytes \<Rightarrow> bytes \<Rightarrow> int \<Rightarrow> queue_db
    \<Rightarrow> (store_error + unit) \<times> queue_db" where
  "Release sha256 env token xid gen db =
     (if \<not> reference xid \<or> gen \<le> 0 then (Inl ErrInvalid, db)
      else run_tx env (with_worker sha256 env token (release_body env xid gen)) db)"

section \<open>Recovery (recovery.go)\<close>

definition bind_where :: "dbenv \<Rightarrow> Worker \<Rightarrow> bytes \<Rightarrow> int \<Rightarrow> bytes \<Rightarrow> exec_row \<Rightarrow> bool" where
  "bind_where env worker xid gen sandboxID r \<longleftrightarrow>
     x_id r = xid \<and> worker_id r = Some (ID worker) \<and> generation r = gen \<and> state r = Leased \<and>
     \<not> capacity_released r \<and> \<not> cleanup_unknown r \<and> later (lease_expires_at r) (clock env 1 (x_id r)) \<and>
     ExpiresAt worker > clock env 2 (x_id r) \<and> (sandbox_id r = [] \<or> sandbox_id r = sandboxID)"

text \<open>The body of BindSandbox once the Worker is authenticated.\<close>

definition bind_body :: "dbenv \<Rightarrow> bytes \<Rightarrow> int \<Rightarrow> bytes \<Rightarrow> Worker \<Rightarrow> queue_db \<Rightarrow> (queue_db, unit) tx_end" where
  "bind_body env xid gen sandboxID worker db = (
        if fault env 2 then Abort (databaseError env)
        else let P = bind_where env worker xid gen sandboxID in
          case update_executions P (\<lambda>r. r\<lparr>sandbox_id := sandboxID\<rparr>) db of
            None \<Rightarrow> Abort (databaseError env)
          | Some db' \<Rightarrow>
             (if affected P (executions db) \<noteq> 1 then Abort ErrLease else Commit () db'))"

definition BindSandbox :: "(bytes \<Rightarrow> bytes) \<Rightarrow> dbenv \<Rightarrow> bytes \<Rightarrow> bytes \<Rightarrow> int \<Rightarrow> bytes \<Rightarrow> queue_db
    \<Rightarrow> (store_error + unit) \<times> queue_db" where
  "BindSandbox sha256 env token xid gen sandboxID db =
     (if \<not> reference xid \<or> gen \<le> 0 \<or> \<not> reference sandboxID then (Inl ErrInvalid, db)
      else run_tx env (with_worker sha256 env token (bind_body env xid gen sandboxID)) db)"

text \<open>
  One statement: select at most 256 due, unlocked rows by lease expiry (readings 0 and 1), then
  update them (reading 2).
\<close>

definition due :: "dbenv \<Rightarrow> exec_row \<Rightarrow> bool" where
  "due env r \<longleftrightarrow>
     (state r = Leased \<and> passed (lease_expires_at r) (clock env 0 (x_id r)))
     \<or> (state r = Recovering \<and> passed (recovery_until r) (clock env 1 (x_id r)))"

definition sweep_batch :: "dbenv \<Rightarrow> queue_db \<Rightarrow> exec_row list" where
  "sweep_batch env db =
     take 256 (sort_key (\<lambda>r. coalesce (lease_expires_at r) 0)
       (filter (\<lambda>r. due env r \<and> \<not> locked env (x_id r)) (executions db)))"

definition sweep_set :: "dbenv \<Rightarrow> exec_row \<Rightarrow> exec_row" where
  "sweep_set env r = r\<lparr>state := (if passed (recovery_until r) (clock env 2 (x_id r)) then WorkerLost else Recovering)\<rparr>"

definition SweepRecovery :: "dbenv \<Rightarrow> queue_db \<Rightarrow> (store_error + unit) \<times> queue_db" where
  "SweepRecovery env = autocommit env (\<lambda>db.
     if fault env 0 then Abort (databaseError env)
     else let ids = x_id ` set (sweep_batch env db) in
       case update_executions (\<lambda>r. x_id r \<in> ids) (sweep_set env) db of
         None \<Rightarrow> Abort (databaseError env)
       | Some db' \<Rightarrow> Commit () db')"

definition outstanding_of :: "dbenv \<Rightarrow> exec_row \<Rightarrow> OutstandingExecution" where
  "outstanding_of env r = \<lparr>o_Lease = \<lparr>l_ExecutionID = x_id r, l_AgentRunID = agent_run_id r,
       l_Generation = generation r, l_ExpiresAt = coalesce (lease_expires_at r) 0, l_Source = [],
       l_Stdin = [], l_OutputPaths = []\<rparr>,
     o_SandboxID = sandbox_id r, o_State = observed_state (\<lambda>i. clock env (1 + i) (x_id r)) r,
     o_CleanupUnknown = cleanup_unknown r\<rparr>"

text \<open>A row whose lease expiry is NULL cannot be scanned into the answer.\<close>

definition Outstanding :: "(bytes \<Rightarrow> bytes) \<Rightarrow> dbenv \<Rightarrow> bytes \<Rightarrow> queue_db
    \<Rightarrow> (store_error + OutstandingExecution list) \<times> queue_db" where
  "Outstanding sha256 env token = run_tx env (with_worker sha256 env token (\<lambda>worker db.
     if fault env 2 then Abort (databaseError env)
     else let rows = take 64 (sort_key queued_order
            (filter (\<lambda>r. worker_id r = Some (ID worker) \<and> \<not> capacity_released r) (executions db))) in
       if \<exists>r \<in> set rows. lease_expires_at r = None then Abort (databaseError env)
       else Answer (map (outstanding_of env) rows)))"

text \<open>Statement 2 of renew observes a completed Execution (readings 1 and 2).\<close>

definition completed_where :: "dbenv \<Rightarrow> Worker \<Rightarrow> bytes \<Rightarrow> int \<Rightarrow> bytes \<Rightarrow> exec_row \<Rightarrow> bool" where
  "completed_where env worker xid gen sandboxID r \<longleftrightarrow>
     x_id r = xid \<and> worker_id r = Some (ID worker) \<and> generation r = gen \<and> sandbox_id r = sandboxID \<and>
     state r = Completed \<and> ExpiresAt worker > clock env 1 (x_id r)"

text \<open>Statement 3 renews: readings 3 and 4 in SET, 5 to 7 in WHERE, 8 in RETURNING.\<close>

definition renew_where :: "dbenv \<Rightarrow> Worker \<Rightarrow> bytes \<Rightarrow> int \<Rightarrow> bytes \<Rightarrow> bool \<Rightarrow> exec_row \<Rightarrow> bool" where
  "renew_where env worker xid gen sandboxID recovering r \<longleftrightarrow>
     x_id r = xid \<and> worker_id r = Some (ID worker) \<and> generation r = gen \<and> sandbox_id r = sandboxID \<and>
     \<not> capacity_released r \<and>
     ((\<not> recovering \<and> state r = Leased \<and> later (lease_expires_at r) (clock env 5 (x_id r))) \<or>
      (recovering \<and> (state r = Leased \<or> state r = Recovering) \<and> later (recovery_until r) (clock env 6 (x_id r)))) \<and>
     ExpiresAt worker > clock env 7 (x_id r)"

definition renew_set :: "Store \<Rightarrow> dbenv \<Rightarrow> exec_row \<Rightarrow> exec_row" where
  "renew_set s env r = r\<lparr>state := Leased,
     lease_expires_at := Some (clock env 3 (x_id r) + lease_interval s),
     recovery_until := Some (clock env 4 (x_id r) + recovery_interval s)\<rparr>"

definition lease_ref :: "exec_row \<Rightarrow> int \<Rightarrow> Lease" where
  "lease_ref r expires = \<lparr>l_ExecutionID = x_id r, l_AgentRunID = agent_run_id r, l_Generation = generation r,
     l_ExpiresAt = expires, l_Source = [], l_Stdin = [], l_OutputPaths = []\<rparr>"

text \<open>The body of renew once the Worker is authenticated.\<close>

definition renew_body :: "Store \<Rightarrow> dbenv \<Rightarrow> bytes \<Rightarrow> int \<Rightarrow> bytes \<Rightarrow> bool \<Rightarrow> Worker \<Rightarrow> queue_db \<Rightarrow> (queue_db, Authority) tx_end" where
  "renew_body s env xid gen sandboxID recovering worker db = (
        if fault env 2 then Abort (databaseError env)
        else case find (completed_where env worker xid gen sandboxID) (executions db) of
          Some r \<Rightarrow>
           (case (lease_expires_at r, recovery_until r) of
              (Some l, Some u) \<Rightarrow> Answer \<lparr>a_Lease = lease_ref r l, a_State = Completed,
                ServerTime = clock env 2 (x_id r), a_RecoveryUntil = u\<rparr>
            | _ \<Rightarrow> Abort (databaseError env))
        | None \<Rightarrow>
           (if fault env 3 then Abort (databaseError env)
            else let P = renew_where env worker xid gen sandboxID recovering in
              case update_executions P (renew_set s env) db of
                None \<Rightarrow> Abort (databaseError env)
              | Some db' \<Rightarrow>
                 (case find P (executions db) of
                    None \<Rightarrow> Abort ErrLease
                  | Some r \<Rightarrow> Commit \<lparr>a_Lease = lease_ref r (clock env 3 (x_id r) + lease_interval s),
                      a_State = Leased, ServerTime = clock env 8 (x_id r),
                      a_RecoveryUntil = clock env 4 (x_id r) + recovery_interval s\<rparr> db')))"

definition renew :: "Store \<Rightarrow> (bytes \<Rightarrow> bytes) \<Rightarrow> dbenv \<Rightarrow> bytes \<Rightarrow> bytes \<Rightarrow> int \<Rightarrow> bytes \<Rightarrow> bool \<Rightarrow> queue_db
    \<Rightarrow> (store_error + Authority) \<times> queue_db" where
  "renew s sha256 env token xid gen sandboxID recovering db =
     (if \<not> reference xid \<or> gen \<le> 0 \<or> \<not> reference sandboxID then (Inl ErrInvalid, db)
      else run_tx env (with_worker sha256 env token (renew_body s env xid gen sandboxID recovering)) db)"

definition Heartbeat :: "Store \<Rightarrow> (bytes \<Rightarrow> bytes) \<Rightarrow> dbenv \<Rightarrow> bytes \<Rightarrow> bytes \<Rightarrow> int \<Rightarrow> bytes \<Rightarrow> queue_db
    \<Rightarrow> (store_error + Authority) \<times> queue_db" where
  "Heartbeat s sha256 env token xid gen sandboxID = renew s sha256 env token xid gen sandboxID False"

definition Recover :: "Store \<Rightarrow> (bytes \<Rightarrow> bytes) \<Rightarrow> dbenv \<Rightarrow> bytes \<Rightarrow> bytes \<Rightarrow> int \<Rightarrow> bytes \<Rightarrow> queue_db
    \<Rightarrow> (store_error + Authority) \<times> queue_db" where
  "Recover s sha256 env token xid gen sandboxID = renew s sha256 env token xid gen sandboxID True"

section \<open>Results (results.go)\<close>

definition MaximumReportBytes :: int where "MaximumReportBytes = 162 * MiB"

text \<open>The loop over the outputs of a result, with the running total.\<close>

fun outputs_ok :: "(bytes \<Rightarrow> bytes) \<Rightarrow> int \<Rightarrow> ExtractedOutput list \<Rightarrow> bool" where
  "outputs_ok sha256 acc [] = True"
| "outputs_ok sha256 acc (out # rest) =
     (if Size out < 0 \<or> Size out > 32 * MiB \<or> Size out \<noteq> int (length (Content out))
         \<or> SHA256 out \<noteq> hex_encode (sha256 (Content out)) then False
      else if acc + Size out > 32 * MiB then False
      else outputs_ok sha256 (acc + Size out) rest)"

definition validResult :: "(bytes \<Rightarrow> bytes) \<Rightarrow> ExecutePythonResult \<Rightarrow> bool" where
  "validResult sha256 r =
     (if int (length (Stdout r)) > 24 * MiB \<or> int (length (Stderr r)) > 24 * MiB \<or> ExitCode r < -1
         \<or> ExitCode r > 255 \<or> length (Outputs r) > 16 then False
      else if Truncated r \<noteq> (StdoutTruncated r \<or> StderrTruncated r) then False
      else if TerminalReason r \<notin> {ExecutionExited, ExecutionMemoryLimit, ExecutionPIDLimit, ExecutionTimedOut} then False
      else if OutputError r \<noteq> [] \<and> (OutputError r \<notin> {OutputUnsafe, OutputLimit, OutputUnavailable} \<or> length (Outputs r) \<noteq> 0)
      then False
      else outputs_ok sha256 0 (Outputs r))"

definition complete_where :: "dbenv \<Rightarrow> Worker \<Rightarrow> bytes \<Rightarrow> int \<Rightarrow> exec_row \<Rightarrow> bool" where
  "complete_where env worker xid gen r \<longleftrightarrow>
     x_id r = xid \<and> worker_id r = Some (ID worker) \<and> generation r = gen \<and> state r = Leased \<and>
     \<not> capacity_released r \<and> later (lease_expires_at r) (clock env 2 (x_id r)) \<and>
     ExpiresAt worker > clock env 3 (x_id r)"

text \<open>The declared outputs of the workload against those of the result.\<close>

definition outputs_match :: "Execution \<Rightarrow> ExecutePythonResult \<Rightarrow> bool" where
  "outputs_match e r =
     (if OutputError r \<noteq> [] then x_OutputPaths e \<noteq> []
      else map Path (Outputs r) = x_OutputPaths e)"

text \<open>The body of transition once the Worker is authenticated.\<close>

definition transition_body :: "codec \<Rightarrow> dbenv \<Rightarrow> bytes \<Rightarrow> int \<Rightarrow> ExecutePythonResult option \<Rightarrow> Worker \<Rightarrow> queue_db \<Rightarrow> (queue_db, unit) tx_end" where
  "transition_body cd env xid gen res worker db = (
        if fault env 2 then Abort (databaseError env)
        else case find (\<lambda>r. x_id r = xid) (executions db) of
          None \<Rightarrow> Abort ErrLease
        | Some r \<Rightarrow>
           (if coalesce (worker_id r) [] \<noteq> ID worker \<or> gen \<noteq> generation r then Abort ErrLease
            else if fault env 3 then Abort (databaseError env)
            else let now = clock env 1 [];
                     current = (state r = Leased \<and> \<not> capacity_released r \<and> coalesce (lease_expires_at r) 0 > now) in
              if \<not> ExpiresAt worker > now then Abort ErrUnauthenticated
              else case res of
                None \<Rightarrow> (if \<not> current then Abort ErrLease else Answer ())
              | Some v \<Rightarrow>
                 (case unmarshal_execution cd (workload r) of
                    None \<Rightarrow> Abort (databaseError env)
                  | Some e \<Rightarrow>
                     (if \<not> outputs_match e v then Abort ErrInvalid
                      else let raw = marshal_result cd v in
                        if int (length raw) > MaximumReportBytes - 1024 then Abort ErrInvalid
                        else if state r = Completed then
                          (if coalesce (result r) [] \<noteq> raw then Abort ErrConflict else Answer ())
                        else if \<not> current then Abort ErrLease
                        else if fault env 4 then Abort (databaseError env)
                        else let P = complete_where env worker xid gen in
                          case update_executions P (\<lambda>r. r\<lparr>state := Completed, result := Some raw\<rparr>) db of
                            None \<Rightarrow> Abort (databaseError env)
                          | Some db' \<Rightarrow>
                             (if affected P (executions db) \<noteq> 1 then Abort ErrLease else Commit () db')))))"

definition transition :: "codec \<Rightarrow> (bytes \<Rightarrow> bytes) \<Rightarrow> dbenv \<Rightarrow> bytes \<Rightarrow> bytes \<Rightarrow> int \<Rightarrow> ExecutePythonResult option
    \<Rightarrow> queue_db \<Rightarrow> (store_error + unit) \<times> queue_db" where
  "transition cd sha256 env token xid gen res db =
     (if \<not> reference xid \<or> gen \<le> 0 then (Inl ErrInvalid, db)
      else run_tx env (with_worker sha256 env token (transition_body cd env xid gen res)) db)"

definition Validate :: "codec \<Rightarrow> (bytes \<Rightarrow> bytes) \<Rightarrow> dbenv \<Rightarrow> bytes \<Rightarrow> bytes \<Rightarrow> int \<Rightarrow> queue_db
    \<Rightarrow> (store_error + unit) \<times> queue_db" where
  "Validate cd sha256 env token xid gen = transition cd sha256 env token xid gen None"

definition Complete :: "codec \<Rightarrow> (bytes \<Rightarrow> bytes) \<Rightarrow> dbenv \<Rightarrow> bytes \<Rightarrow> bytes \<Rightarrow> int \<Rightarrow> ExecutePythonResult
    \<Rightarrow> queue_db \<Rightarrow> (store_error + unit) \<times> queue_db" where
  "Complete cd sha256 env token xid gen res db =
     (if r_ExecutionID res \<noteq> xid \<or> \<not> validResult sha256 res then (Inl ErrInvalid, db)
      else transition cd sha256 env token xid gen (Some res) db)"

section \<open>Administration (legacy_cleanup.go)\<close>

definition legacy_set :: "exec_row \<Rightarrow> exec_row" where
  "legacy_set r = (release_set r)\<lparr>cleanup_unknown := False\<rparr>"

definition ConfirmLegacyCleanup :: "dbenv \<Rightarrow> bytes \<Rightarrow> queue_db \<Rightarrow> (store_error + int) \<times> queue_db" where
  "ConfirmLegacyCleanup env wid db =
     (if wid = [] then (Inl ErrInvalid, db)
      else run_tx env (\<lambda>db.
        if fault env 0 then Abort (databaseError env)
        else case find (\<lambda>n. w_id n = wid) (worker_nodes db) of
          None \<Rightarrow> Abort ErrNotFound
        | Some n \<Rightarrow>
           (if revoked_at n = None then Abort ErrConflict
            else if fault env 1 then Abort (databaseError env)
            else let P = (\<lambda>r. worker_id r = Some wid \<and> cleanup_unknown r) in
              case update_executions P legacy_set db of
                None \<Rightarrow> Abort (databaseError env)
              | Some db' \<Rightarrow> Commit (int (affected P (executions db))) db')) db)"

end
