(* ===== verification/QueueInvariant.thy ===== *)
theory QueueInvariant
  imports ExecutionQueue
begin

text \<open>
  The life of an Execution row under every operation of the two stores: which columns may change and
  how (\<open>row_step\<close>), the invariant of the whole database (\<open>db_ok\<close>) with its preservation by each
  operation, and the step relation \<open>queue_step\<close> that interleaves the operations of any number of
  Workers, administrators and sweeps in any database environment.
\<close>

section \<open>What may happen to one row\<close>

definition same_identity :: "exec_row \<Rightarrow> exec_row \<Rightarrow> bool" where
  "same_identity r r' \<longleftrightarrow> x_id r' = x_id r \<and> agent_run_id r' = agent_run_id r \<and>
     queued_order r' = queued_order r \<and> workload r' = workload r"

definition active :: "exec_row \<Rightarrow> bool" where
  "active r \<longleftrightarrow> state r = Leased \<or> state r = Recovering"

fun edge :: "exec_state \<Rightarrow> exec_state \<Rightarrow> bool" where
  "edge Queued s = False"
| "edge Leased s = (s \<noteq> Queued)"
| "edge Recovering s = (s = Leased \<or> s = Recovering \<or> s = WorkerLost)"
| "edge WorkerLost s = (s = WorkerLost)"
| "edge Completed s = (s = Completed)"

text \<open>A change by the owner, the sweep or an administrator of a row that has been leased.\<close>

definition owned_step :: "exec_row \<Rightarrow> exec_row \<Rightarrow> bool" where
  "owned_step r r' \<longleftrightarrow> same_identity r r' \<and> worker_id r' = worker_id r \<and> generation r' = generation r \<and>
     edge (state r) (state r') \<and>
     (result r' = result r \<or> state r = Leased \<and> state r' = Completed) \<and>
     (capacity_released r \<longrightarrow> capacity_released r') \<and> (active r' \<longrightarrow> \<not> capacity_released r') \<and>
     (sandbox_id r = [] \<or> sandbox_id r' = sandbox_id r) \<and> (cleanup_unknown r' \<longrightarrow> cleanup_unknown r) \<and>
     (active r \<or> lease_expires_at r' = lease_expires_at r \<and> recovery_until r' = recovery_until r)"

text \<open>The one change of a queued row: a Worker leases it.\<close>

definition claim_step :: "exec_row \<Rightarrow> exec_row \<Rightarrow> bool" where
  "claim_step r r' \<longleftrightarrow> same_identity r r' \<and> state r = Queued \<and> state r' = Leased \<and>
     worker_id r' \<noteq> None \<and> generation r' = generation r + 1 \<and> result r' = result r \<and>
     capacity_released r' = capacity_released r \<and> sandbox_id r' = sandbox_id r \<and>
     cleanup_unknown r' = cleanup_unknown r"

definition row_step :: "exec_row \<Rightarrow> exec_row \<Rightarrow> bool" where
  "row_step r r' \<longleftrightarrow> r' = r \<or> row_ok r' \<and> (owned_step r r' \<or> claim_step r r')"

lemmas step_defs = owned_step_def same_identity_def active_def

definition row_inv :: "exec_row \<Rightarrow> bool" where
  "row_inv r \<longleftrightarrow> row_ok r \<and> (active r \<longrightarrow> \<not> capacity_released r) \<and> generation r \<le> 1"

lemma row_ok_owned_iff: "row_ok r \<Longrightarrow> state r = Queued \<longleftrightarrow> worker_id r = None"
  by (cases "state r") (auto simp: row_ok_def owned_state_ok_def)

lemma row_inv_queued:
  "row_inv r \<Longrightarrow> state r = Queued \<Longrightarrow> \<not> capacity_released r \<and> worker_id r = None \<and> generation r = 0"
  by (auto simp: row_inv_def row_ok_def owned_state_ok_def)

lemma owned_step_inv: "row_inv r \<Longrightarrow> owned_step r r' \<Longrightarrow> row_ok r' \<Longrightarrow> row_inv r'"
  by (auto simp: row_inv_def owned_step_def)

lemma claim_step_inv:
  assumes "row_inv r" and "claim_step r r'" and "row_ok r'"
  shows "row_inv r'"
proof -
  have "\<not> capacity_released r'" "generation r' = 1"
    using row_inv_queued [OF assms(1)] assms(2) by (simp_all add: claim_step_def)
  then show ?thesis using assms(3) by (simp add: row_inv_def)
qed

lemma row_step_inv: "row_inv r \<Longrightarrow> row_step r r' \<Longrightarrow> row_inv r'"
  unfolding row_step_def using owned_step_inv claim_step_inv by blast

text \<open>The SET clauses of the package.\<close>

lemma release_owned: "row_inv r \<Longrightarrow> state r \<noteq> Queued \<Longrightarrow> owned_step r (release_set r)"
  by (cases "state r") (auto simp: release_set_def step_defs)

lemma legacy_owned: "row_inv r \<Longrightarrow> state r \<noteq> Queued \<Longrightarrow> owned_step r (legacy_set r)"
  by (cases "state r") (auto simp: legacy_set_def release_set_def step_defs)

lemma bind_owned:
  "row_inv r \<Longrightarrow> bind_where env worker xid gen sb r \<Longrightarrow> owned_step r (r\<lparr>sandbox_id := sb\<rparr>)"
  by (auto simp: bind_where_def step_defs)

lemma sweep_owned: "row_inv r \<Longrightarrow> due env r \<Longrightarrow> owned_step r (sweep_set env r)"
  by (auto simp: due_def sweep_set_def step_defs row_inv_def)

lemma renew_owned:
  "row_inv r \<Longrightarrow> renew_where env worker xid gen sb rc r \<Longrightarrow> owned_step r (renew_set s env r)"
  by (auto simp: renew_where_def renew_set_def step_defs)

lemma complete_owned:
  "row_inv r \<Longrightarrow> complete_where env worker xid gen r \<Longrightarrow>
     owned_step r (r\<lparr>state := Completed, result := Some raw\<rparr>)"
  by (auto simp: complete_where_def step_defs)

lemma claim_claims:
  "claim_where env worker xid r \<Longrightarrow> claim_step r (claim_set s env worker r)"
  by (auto simp: claim_where_def claim_set_def claim_step_def same_identity_def)

section \<open>The database invariant\<close>

text \<open>The stored workload is the encoding of a validated request with the row's identifiers.\<close>

definition stored_ok :: "codec \<Rightarrow> exec_row \<Rightarrow> bool" where
  "stored_ok cd r \<longleftrightarrow> (\<exists>e. validExecution cd e \<and> workload r = marshal_execution cd e \<and>
     x_id r = x_ExecutionID e \<and> agent_run_id r = x_AgentRunID e)"

definition rows_ok :: "codec \<Rightarrow> queue_db \<Rightarrow> bool" where
  "rows_ok cd db \<longleftrightarrow>
     distinct (map x_id (executions db)) \<and> distinct (map agent_run_id (executions db)) \<and>
     distinct (map queued_order (executions db)) \<and>
     (\<forall>r \<in> set (executions db). queued_order r < next_order db \<and> row_inv r \<and> stored_ok cd r \<and>
        (\<forall>w. worker_id r = Some w \<longrightarrow> w \<in> w_id ` set (worker_nodes db)))"

definition capacity_ok :: "queue_db \<Rightarrow> bool" where
  "capacity_ok db \<longleftrightarrow> (\<forall>n \<in> set (worker_nodes db). int (occupied db (w_id n)) \<le> sandbox_capacity n)"

definition db_ok :: "codec \<Rightarrow> queue_db \<Rightarrow> bool" where
  "db_ok cd db \<longleftrightarrow> workers_ok (worker_nodes db) \<and> rows_ok cd db \<and> capacity_ok db"

text \<open>The change an operation on owned rows makes to the database.\<close>

definition evolves :: "queue_db \<Rightarrow> queue_db \<Rightarrow> bool" where
  "evolves db db' \<longleftrightarrow> worker_nodes db' = worker_nodes db \<and> next_order db' = next_order db \<and>
     list_all2 (\<lambda>r r'. r' = r \<or> owned_step r r' \<and> row_ok r') (executions db) (executions db')"

lemma evolves_refl [simp]: "evolves db db"
  by (simp add: evolves_def list_all2_refl)

lemma update_where_list_all2:
  assumes "\<And>r. r \<in> set rows \<Longrightarrow> P r \<Longrightarrow> R r (f r)"
  shows "list_all2 (\<lambda>r r'. r' = r \<or> R r r') rows (update_where P f rows)"
  using assms by (auto simp: list_all2_conv_all_nth nth_update_where)

lemma update_evolves:
  assumes "update_executions P f db = Some db'"
    and "\<And>r. r \<in> set (executions db) \<Longrightarrow> P r \<Longrightarrow> owned_step r (f r)"
  shows "evolves db db'"
proof -
  have db': "db' = db\<lparr>executions := update_where P f (executions db)\<rparr>"
    and ok: "\<And>r. r \<in> set (executions db) \<Longrightarrow> P r \<Longrightarrow> row_ok (f r)"
    using assms(1) by (auto simp: update_executions_def split: if_splits)
  have "list_all2 (\<lambda>r r'. r' = r \<or> owned_step r r' \<and> row_ok r') (executions db) (update_where P f (executions db))"
    by (rule update_where_list_all2) (use assms(2) ok in auto)
  then show ?thesis by (simp add: evolves_def db')
qed

lemma list_all2_map_eq: "list_all2 (\<lambda>r r'. key r' = key r) rs rs' \<Longrightarrow> map key rs' = map key rs"
  by (induction rule: list_all2_induct) auto

lemma list_all2_set2: "list_all2 R rs rs' \<Longrightarrow> r' \<in> set rs' \<Longrightarrow> \<exists>r \<in> set rs. R r r'"
  by (induction rule: list_all2_induct) auto

lemma list_all2_filter_le:
  "list_all2 (\<lambda>r r'. Q r' \<longrightarrow> Q r) rs rs' \<Longrightarrow> length (filter Q rs') \<le> length (filter Q rs)"
  by (induction rule: list_all2_induct) auto

lemma identity_rows_ok:
  assumes "rows_ok cd db" and "list_all2 same_identity (executions db) rs"
    and "\<And>r. r \<in> set rs \<Longrightarrow> row_inv r \<and> (\<forall>w. worker_id r = Some w \<longrightarrow> w \<in> w_id ` set (worker_nodes db))"
    and "db' = db\<lparr>executions := rs\<rparr>"
  shows "rows_ok cd db'"
proof -
  have keys: "map x_id rs = map x_id (executions db)" "map agent_run_id rs = map agent_run_id (executions db)"
    "map queued_order rs = map queued_order (executions db)"
    using assms(2) by (auto intro!: list_all2_map_eq elim!: list_all2_mono simp: same_identity_def)
  have "queued_order r < next_order db \<and> stored_ok cd r" if r: "r \<in> set rs" for r
  proof -
    obtain q where "q \<in> set (executions db)" "same_identity q r" using list_all2_set2 [OF assms(2) r] by auto
    then show ?thesis using assms(1) by (auto simp: rows_ok_def stored_ok_def same_identity_def)
  qed
  then show ?thesis using assms(1,3) keys by (simp add: rows_ok_def assms(4))
qed

lemma evolves_rows_ok:
  assumes "rows_ok cd db" and "evolves db db'"
  shows "rows_ok cd db'"
proof (rule identity_rows_ok [OF assms(1)])
  let ?R = "\<lambda>r r'. r' = r \<or> owned_step r r' \<and> row_ok r'"
  have R: "list_all2 ?R (executions db) (executions db')" using assms(2) by (simp add: evolves_def)
  show "list_all2 same_identity (executions db) (executions db')"
    using R by (rule list_all2_mono) (auto simp: owned_step_def same_identity_def)
  show "row_inv r \<and> (\<forall>w. worker_id r = Some w \<longrightarrow> w \<in> w_id ` set (worker_nodes db))"
    if r: "r \<in> set (executions db')" for r
  proof -
    obtain q where q: "q \<in> set (executions db)" "?R q r" using list_all2_set2 [OF R r] by auto
    then show ?thesis using assms(1) owned_step_inv [of q r] by (auto simp: rows_ok_def owned_step_def)
  qed
  show "db' = db\<lparr>executions := executions db'\<rparr>" using assms(2) by (simp add: evolves_def)
qed

lemma evolves_occupied:
  assumes "evolves db db'" shows "occupied db' w \<le> occupied db w"
  unfolding occupied_def
proof (rule list_all2_filter_le)
  show "list_all2 (\<lambda>r r'. (worker_id r' = Some w \<and> \<not> capacity_released r') \<longrightarrow>
      (worker_id r = Some w \<and> \<not> capacity_released r)) (executions db) (executions db')"
    using assms unfolding evolves_def
    by (auto elim!: list_all2_mono simp: owned_step_def)
qed

lemma evolves_db_ok:
  assumes "db_ok cd db" and "evolves db db'" shows "db_ok cd db'"
proof -
  have "capacity_ok db'"
    unfolding capacity_ok_def
  proof
    fix n assume "n \<in> set (worker_nodes db')"
    then have "int (occupied db (w_id n)) \<le> sandbox_capacity n"
      using assms by (simp add: db_ok_def capacity_ok_def evolves_def)
    then show "int (occupied db' (w_id n)) \<le> sandbox_capacity n"
      using evolves_occupied [OF assms(2), of "w_id n"] by linarith
  qed
  then show ?thesis using assms evolves_rows_ok by (auto simp: db_ok_def evolves_def)
qed

section \<open>Every operation preserves the invariant\<close>

lemma tx_evolves:
  "(\<And>v db'. body db = Commit v db' \<Longrightarrow> evolves db db') \<Longrightarrow> evolves db (snd (run_tx env body db))"
  by (rule run_tx_keeps) auto

lemma with_worker_Commit:
  "with_worker sha256 env token body db = Commit v db' \<Longrightarrow>
     \<exists>w. AuthenticateTx sha256 env (worker_nodes db) token = Inr w \<and> body w db = Commit v db'"
  by (auto simp: with_worker_def split: sum.splits)

lemma with_worker_evolves:
  assumes "\<And>w v db'. AuthenticateTx sha256 env (worker_nodes db) token = Inr w \<Longrightarrow> body w db = Commit v db' \<Longrightarrow> evolves db db'"
  shows "evolves db (snd (run_tx env (with_worker sha256 env token body) db))"
  by (rule tx_evolves) (use assms in \<open>auto dest!: with_worker_Commit\<close>)

lemma authenticated_node:
  assumes "db_ok cd db" and "AuthenticateTx sha256 env (worker_nodes db) token = Inr w"
  shows "ID w \<noteq> []" and "ID w \<in> w_id ` set (worker_nodes db)"
proof -
  obtain n where "n \<in> set (worker_nodes db)" "w = worker_of n" using AuthenticateTx_Inr [OF assms(2)] by auto
  then show "ID w \<noteq> []" "ID w \<in> w_id ` set (worker_nodes db)"
    using assms(1) by (auto simp: worker_of_def db_ok_def workers_ok_def workerID_def)
qed

lemma row_of_id:
  assumes "rows_ok cd db" and "r \<in> set (executions db)" and "q \<in> set (executions db)" and "x_id r = x_id q"
  shows "r = q"
  using assms by (auto simp: rows_ok_def distinct_map dest: inj_onD)

lemma find_row:
  assumes "rows_ok cd db" and "find (\<lambda>r. x_id r = xid) (executions db) = Some q"
    and "r \<in> set (executions db)" and "x_id r = xid"
  shows "r = q"
  using row_of_id [OF assms(1,3)] find_SomeD [OF assms(2)] assms(4) by auto

lemma rows_inv: "rows_ok cd db \<Longrightarrow> r \<in> set (executions db) \<Longrightarrow> row_inv r"
  by (simp add: rows_ok_def)

lemma owner_not_queued:
  assumes "row_inv r" and "coalesce (worker_id r) [] = w" and "w \<noteq> []"
  shows "state r \<noteq> Queued"
  using row_inv_queued [OF assms(1)] assms(2,3) by (auto simp: coalesce_def)

lemma db_okD: "db_ok cd db \<Longrightarrow> rows_ok cd db" "db_ok cd db \<Longrightarrow> workers_ok (worker_nodes db)" "db_ok cd db \<Longrightarrow> capacity_ok db"
  by (simp_all add: db_ok_def)

lemma Release_evolves:
  assumes "db_ok cd db" shows "evolves db (snd (Release sha256 env token xid gen db))"
proof -
  note rows = db_okD(1) [OF assms]
  have "evolves db db'" if w: "AuthenticateTx sha256 env (worker_nodes db) token = Inr w"
      and q: "find (\<lambda>r. x_id r = xid) (executions db) = Some q" "coalesce (worker_id q) [] = ID w"
      and u: "update_executions (\<lambda>r. x_id r = xid \<and> ExpiresAt w > clock env 1 (x_id r)) release_set db = Some db'"
    for w q db'
  proof (rule update_evolves [OF u])
    fix r assume "r \<in> set (executions db)" "x_id r = xid \<and> ExpiresAt w > clock env 1 (x_id r)"
    then have "r = q" "row_inv r" using find_row [OF rows q(1)] rows_inv [OF rows] by auto
    then show "owned_step r (release_set r)"
      using release_owned owner_not_queued [OF _ q(2) authenticated_node(1) [OF assms w]] by auto
  qed
  then show ?thesis unfolding Release_def
    by (auto simp: release_body_def Let_def intro!: with_worker_evolves split: if_splits option.splits)
qed

lemma BindSandbox_evolves:
  assumes "db_ok cd db" shows "evolves db (snd (BindSandbox sha256 env token xid gen sb db))"
proof -
  note inv = rows_inv [OF db_okD(1) [OF assms]]
  have "evolves db db'" if "update_executions (bind_where env w xid gen sb) (\<lambda>r. r\<lparr>sandbox_id := sb\<rparr>) db = Some db'" for w db'
    using that by (rule update_evolves) (rule bind_owned [OF inv])
  then show ?thesis unfolding BindSandbox_def
    by (auto simp: bind_body_def Let_def intro!: with_worker_evolves split: if_splits option.splits)
qed

lemma renew_evolves:
  assumes "db_ok cd db" shows "evolves db (snd (renew s sha256 env token xid gen sb rc db))"
proof -
  note inv = rows_inv [OF db_okD(1) [OF assms]]
  have "evolves db db'" if "update_executions (renew_where env w xid gen sb rc) (renew_set s env) db = Some db'" for w db'
    using that by (rule update_evolves) (rule renew_owned [OF inv])
  then show ?thesis unfolding renew_def
    by (auto simp: renew_body_def Let_def intro!: with_worker_evolves split: if_splits option.splits)
qed

lemma transition_evolves:
  assumes "db_ok cd db" shows "evolves db (snd (transition cd' sha256 env token xid gen res db))"
proof -
  note inv = rows_inv [OF db_okD(1) [OF assms]]
  have "evolves db db'" if "update_executions (complete_where env w xid gen)
      (\<lambda>r. r\<lparr>state := Completed, result := Some raw\<rparr>) db = Some db'" for w db' raw
    using that by (rule update_evolves) (rule complete_owned [OF inv])
  then show ?thesis unfolding transition_def
    by (auto simp: transition_body_def Let_def intro!: with_worker_evolves split: if_splits option.splits)
qed

lemma Complete_evolves:
  assumes "db_ok cd db" shows "evolves db (snd (Complete cd' sha256 env token xid gen res db))"
  using transition_evolves [OF assms] by (simp add: Complete_def)

lemma sweep_batch_sub: "r \<in> set (sweep_batch env db) \<Longrightarrow> r \<in> set (executions db) \<and> due env r \<and> \<not> locked env (x_id r)"
  unfolding sweep_batch_def by (auto dest!: in_set_takeD)

lemma SweepRecovery_evolves:
  assumes "db_ok cd db" shows "evolves db (snd (SweepRecovery env db))"
proof -
  note rows = db_okD(1) [OF assms]
  have "evolves db db'" if "update_executions (\<lambda>r. x_id r \<in> x_id ` set (sweep_batch env db)) (sweep_set env) db = Some db'" for db'
  proof (rule update_evolves [OF that])
    fix r assume r: "r \<in> set (executions db)" "x_id r \<in> x_id ` set (sweep_batch env db)"
    then obtain b where "b \<in> set (sweep_batch env db)" "x_id r = x_id b" by auto
    then have "due env r" using row_of_id [OF rows r(1)] sweep_batch_sub by metis
    then show "owned_step r (sweep_set env r)" using sweep_owned rows_inv [OF rows r(1)] by blast
  qed
  then show ?thesis unfolding SweepRecovery_def autocommit_def
    by (auto simp: Let_def intro!: tx_evolves split: if_splits option.splits)
qed

lemma ConfirmLegacyCleanup_evolves:
  assumes "db_ok cd db" shows "evolves db (snd (ConfirmLegacyCleanup env wid db))"
proof -
  note inv = rows_inv [OF db_okD(1) [OF assms]]
  have "evolves db db'" if "update_executions (\<lambda>r. worker_id r = Some wid \<and> cleanup_unknown r) legacy_set db = Some db'" for db'
    using that
  proof (rule update_evolves)
    fix r assume r: "r \<in> set (executions db)" "worker_id r = Some wid \<and> cleanup_unknown r"
    then show "owned_step r (legacy_set r)" using legacy_owned [OF inv] row_inv_queued [OF inv] by force
  qed
  then show ?thesis unfolding ConfirmLegacyCleanup_def
    by (auto simp: Let_def intro!: tx_evolves split: if_splits option.splits)
qed

text \<open>Reading operations change nothing.\<close>

lemma reads_frame [frame_simps]:
  "snd (Get cd env xid db) = db"
  "snd (Capacity_op sha256 env token db) = db"
  "snd (Outstanding sha256 env token db) = db"
  "snd (Validate cd sha256 env token xid gen db) = db"
  by (auto simp: Get_def Capacity_op_def Outstanding_def Validate_def transition_def transition_body_def autocommit_def run_tx_def
      with_worker_def Let_def split: option.splits sum.splits prod.splits)

subsection \<open>Claim\<close>

lemma next_queued_Some:
  assumes "next_queued env db = Some q"
  shows "q \<in> set (executions db) \<and> state q = Queued \<and> \<not> locked env (x_id q) \<and>
    (\<forall>r \<in> set (executions db). state r = Queued \<longrightarrow> \<not> locked env (x_id r) \<longrightarrow> queued_order q \<le> queued_order r)"
proof -
  let ?ws = "filter (\<lambda>r. state r = Queued \<and> \<not> locked env (x_id r)) (executions db)"
  obtain qs where sorted: "sort_key queued_order ?ws = q # qs"
    using assms by (auto simp: next_queued_def split: list.splits)
  have "set (q # qs) = set ?ws" using sorted by (metis set_sort)
  moreover have "sorted (map queued_order (q # qs))" using sorted by (metis sorted_sort_key)
  ultimately show ?thesis by auto
qed

text \<open>What a committed Claim did.\<close>

lemma Claim_Commit:
  assumes "with_worker sha256 env token (claim_body s cd env) db = Commit v db'"
  shows "\<exists>w n q e. AuthenticateTx sha256 env (worker_nodes db) token = Inr w \<and>
    find (\<lambda>n. w_id n = ID w) (worker_nodes db) = Some n \<and> int (occupied db (ID w)) < sandbox_capacity n \<and>
    next_queued env db = Some q \<and>
    update_executions (claim_where env w (x_id q)) (claim_set s env w) db = Some db' \<and>
    affected (claim_where env w (x_id q)) (executions db) \<noteq> 0 \<and>
    unmarshal_execution cd (workload q) = Some e \<and>
    v = Some \<lparr>l_ExecutionID = x_ExecutionID e, l_AgentRunID = x_AgentRunID e, l_Generation = generation q + 1,
      l_ExpiresAt = clock env 1 (x_id q) + lease_interval s, l_Source = x_Source e, l_Stdin = x_Stdin e,
      l_OutputPaths = x_OutputPaths e\<rparr>"
  using assms
  by (auto simp: claim_body_def select_capacity_def dest!: with_worker_Commit split: option.splits prod.splits if_splits)

lemma claimed_rows_ok:
  assumes "db_ok cd db" and w: "ID w \<in> w_id ` set (worker_nodes db)"
    and u: "update_executions (claim_where env w xid) (claim_set s env w) db = Some db'"
  shows "rows_ok cd db'"
proof -
  note rows = db_okD(1) [OF assms(1)]
  let ?P = "claim_where env w xid" and ?f = "claim_set s env w"
  have db': "db' = db\<lparr>executions := update_where ?P ?f (executions db)\<rparr>"
    and ok: "\<And>r. r \<in> set (executions db) \<Longrightarrow> ?P r \<Longrightarrow> row_ok (?f r)"
    using u by (auto simp: update_executions_def split: if_splits)
  show ?thesis
  proof (rule identity_rows_ok [OF rows _ _ db'])
    show "list_all2 same_identity (executions db) (update_where ?P ?f (executions db))"
      by (rule list_all2_mono [OF update_where_list_all2 [where R = claim_step]], erule claim_claims)
         (auto simp: claim_step_def same_identity_def)
    fix r assume "r \<in> set (update_where ?P ?f (executions db))"
    then obtain q where q: "q \<in> set (executions db)" "r = (if ?P q then ?f q else q)"
      by (auto simp: set_update_where)
    show "row_inv r \<and> (\<forall>v. worker_id r = Some v \<longrightarrow> v \<in> w_id ` set (worker_nodes db))"
    proof (cases "?P q")
      case True
      then show ?thesis
        using q ok claim_step_inv [OF rows_inv [OF rows q(1)] claim_claims [OF True]] w
        by (auto simp: claim_set_def)
    next
      case False
      then show ?thesis using q rows by (simp add: rows_ok_def)
    qed
  qed
qed

lemma length_filter_update:
  "length (filter Q (update_where P f rows)) \<le> length (filter Q rows) + affected P rows"
  by (induction rows) (auto simp: update_where_def affected_def)

lemma claimed_capacity_ok:
  assumes "db_ok cd db" and n: "find (\<lambda>n. w_id n = ID w) (worker_nodes db) = Some n"
    and room: "int (occupied db (ID w)) < sandbox_capacity n"
    and u: "update_executions (claim_where env w xid) (claim_set s env w) db = Some db'"
  shows "capacity_ok db'"
  unfolding capacity_ok_def
proof
  let ?P = "claim_where env w xid" and ?f = "claim_set s env w"
  have db': "db' = db\<lparr>executions := update_where ?P ?f (executions db)\<rparr>"
    using u by (auto simp: update_executions_def split: if_splits)
  have one: "affected ?P (executions db) \<le> 1"
    using db_okD(1) [OF assms(1)] unfolding claim_where_def rows_ok_def
    by (intro affected_key_le_1) simp
  fix m assume m: "m \<in> set (worker_nodes db')"
  then have mdb: "m \<in> set (worker_nodes db)" by (simp add: db')
  show "int (occupied db' (w_id m)) \<le> sandbox_capacity m"
  proof (cases "w_id m = ID w")
    case True
    have d: "distinct (map w_id (worker_nodes db))" using db_okD(2) [OF assms(1)] by (simp add: workers_ok_def)
    have "m = n" using find_distinct_key [OF d mdb] n True by simp
    moreover have "occupied db' (ID w) \<le> occupied db (ID w) + 1"
      using length_filter_update [of _ ?P ?f "executions db"] one
      unfolding occupied_def db' by (simp add: order_trans [OF length_filter_update])
    ultimately show ?thesis using room True by simp
  next
    case False
    have "occupied db' (w_id m) \<le> occupied db (w_id m)"
      unfolding occupied_def db'
    proof (simp, rule list_all2_filter_le)
      have "list_all2 (\<lambda>r r'. r' = r \<or> worker_id r' = Some (ID w)) (executions db) (update_where ?P ?f (executions db))"
        by (rule update_where_list_all2) (simp add: claim_set_def)
      then show "list_all2 (\<lambda>r r'. (worker_id r' = Some (w_id m) \<and> \<not> capacity_released r') \<longrightarrow>
          (worker_id r = Some (w_id m) \<and> \<not> capacity_released r)) (executions db) (update_where ?P ?f (executions db))"
        by (rule list_all2_mono) (use False in auto)
    qed
    moreover have "int (occupied db (w_id m)) \<le> sandbox_capacity m"
      using db_okD(3) [OF assms(1)] mdb by (simp add: capacity_ok_def)
    ultimately show ?thesis by simp
  qed
qed

lemma Claim_db_ok:
  assumes "db_ok cd db" shows "db_ok cd (snd (Claim s cd sha256 env token db))"
  unfolding Claim_def
proof (rule run_tx_keeps)
  show "db_ok cd db" by (rule assms)
  fix v db'
  assume "with_worker sha256 env token (claim_body s cd env) db = Commit v db'"
  then obtain w n and q :: exec_row where w: "AuthenticateTx sha256 env (worker_nodes db) token = Inr w"
    and n: "find (\<lambda>n. w_id n = ID w) (worker_nodes db) = Some n" "int (occupied db (ID w)) < sandbox_capacity n"
    and u: "update_executions (claim_where env w (x_id q)) (claim_set s env w) db = Some db'"
    using Claim_Commit by blast
  have "worker_nodes db' = worker_nodes db" using u by (auto simp: update_executions_def split: if_splits)
  then show "db_ok cd db'"
    using claimed_rows_ok [OF assms authenticated_node(2) [OF assms w] u] claimed_capacity_ok [OF assms n u]
      db_okD(2) [OF assms] by (simp add: db_ok_def)
qed

subsection \<open>Enqueue and administration\<close>

lemma new_row_inv: "row_inv (new_row cd e n)"
  by (simp add: new_row_def row_inv_def row_ok_def owned_state_ok_def deadline_ok_def active_def)

lemma Enqueue_db_ok:
  assumes "db_ok cd db" shows "db_ok cd (snd (Enqueue cd env e db))"
proof -
  let ?db' = "db\<lparr>executions := executions db @ [new_row cd e (next_order db)], next_order := next_order db + 1\<rparr>"
  have "db_ok cd ?db'" if v: "validExecution cd e" and new: "x_ExecutionID e \<notin> x_id ` set (executions db)"
      "x_AgentRunID e \<notin> agent_run_id ` set (executions db)"
  proof -
    have fresh: "next_order db \<notin> queued_order ` set (executions db)"
      using db_okD(1) [OF assms] by (auto simp: rows_ok_def)
    have "stored_ok cd (new_row cd e (next_order db))" using v by (auto simp: stored_ok_def new_row_def)
    then have "rows_ok cd ?db'"
      using db_okD(1) [OF assms] new fresh new_row_inv [of cd e "next_order db"]
      by (auto simp: rows_ok_def new_row_def less_Suc_eq)
    moreover have "occupied ?db' w = occupied db w" for w by (simp add: occupied_def new_row_def)
    then have "capacity_ok ?db'" using db_okD(3) [OF assms] by (simp add: capacity_ok_def)
    ultimately show ?thesis using db_okD(2) [OF assms] by (simp add: db_ok_def)
  qed
  then show ?thesis using assms unfolding Enqueue_def autocommit_def
    by (auto intro!: run_tx_keeps [where P = "db_ok cd"] split: if_splits)
qed

text \<open>Operations on the Worker table alone.\<close>

definition on_workers :: "(worker_row list \<Rightarrow> 'r \<times> worker_row list) \<Rightarrow> queue_db \<Rightarrow> 'r \<times> queue_db" where
  "on_workers f db = (fst (f (worker_nodes db)), db\<lparr>worker_nodes := snd (f (worker_nodes db))\<rparr>)"

lemma workers_db_ok:
  assumes "db_ok cd db" and "workers_ok ns" and "w_id ` set (worker_nodes db) \<subseteq> w_id ` set ns"
    and "\<And>n. n \<in> set ns \<Longrightarrow> int (occupied db (w_id n)) \<le> sandbox_capacity n"
  shows "db_ok cd (db\<lparr>worker_nodes := ns\<rparr>)"
  using assms by (fastforce simp: db_ok_def rows_ok_def capacity_ok_def occupied_def)

lemma unknown_worker_unoccupied:
  assumes "db_ok cd db" and "w \<notin> w_id ` set (worker_nodes db)" shows "occupied db w = 0"
  using db_okD(1) [OF assms(1)] assms(2) by (auto simp: rows_ok_def occupied_def filter_empty_conv)

lemma capacity_frame_db_ok:
  assumes "db_ok cd db" and "workers_ok ns"
    and "map w_id ns = map w_id (worker_nodes db)" and "map sandbox_capacity ns = map sandbox_capacity (worker_nodes db)"
  shows "db_ok cd (db\<lparr>worker_nodes := ns\<rparr>)"
proof (rule workers_db_ok [OF assms(1,2)])
  show "w_id ` set (worker_nodes db) \<subseteq> w_id ` set ns" using assms(3) by (metis list.set_map order_refl)
  fix n assume "n \<in> set ns"
  then obtain i where i: "i < length ns" "n = ns ! i" by (metis in_set_conv_nth)
  have len: "length ns = length (worker_nodes db)" using assms(3) by (metis length_map)
  have "w_id n = w_id (worker_nodes db ! i)" "sandbox_capacity n = sandbox_capacity (worker_nodes db ! i)"
    using i len assms(3,4) by (metis nth_map)+
  then show "int (occupied db (w_id n)) \<le> sandbox_capacity n"
    using db_okD(3) [OF assms(1)] i len by (simp add: capacity_ok_def)
qed

lemma Provision_db_ok:
  assumes "db_ok cd db" shows "db_ok cd (snd (on_workers (Provision sha256 env now secret wid ex) db))"
proof -
  let ?ns = "snd (Provision sha256 env now secret wid ex (worker_nodes db))"
  have ok: "workers_ok ?ns" using Provision_ok [OF db_okD(2) [OF assms]] .
  have "?ns = worker_nodes db \<or> (\<exists>n. ?ns = worker_nodes db @ [n] \<and> w_id n \<notin> w_id ` set (worker_nodes db))"
    unfolding Provision_def Let_def
    by (auto simp: run_tx_def split: option.splits tx_end.splits commit_outcome.splits if_splits)
  then show ?thesis
  proof
    assume "?ns = worker_nodes db"
    then show ?thesis using assms by (simp add: on_workers_def)
  next
    assume "\<exists>n. ?ns = worker_nodes db @ [n] \<and> w_id n \<notin> w_id ` set (worker_nodes db)"
    then obtain n where n: "?ns = worker_nodes db @ [n]" "w_id n \<notin> w_id ` set (worker_nodes db)" by auto
    have "int (occupied db (w_id m)) \<le> sandbox_capacity m" if "m \<in> set ?ns" for m
      using that n ok db_okD(3) [OF assms] unknown_worker_unoccupied [OF assms n(2)]
      by (auto simp: capacity_ok_def workers_ok_def)
    then show ?thesis using workers_db_ok [OF assms ok] n(1) by (auto simp: on_workers_def)
  qed
qed

lemma Rotate_frame:
  "map w_id (snd (Rotate sha256 env now secret wid ex ns)) = map w_id ns \<and>
   map sandbox_capacity (snd (Rotate sha256 env now secret wid ex ns)) = map sandbox_capacity ns"
  unfolding Rotate_def Let_def
  by (auto simp: run_tx_def replace_credential_def update_where_def
      split: option.splits tx_end.splits commit_outcome.splits if_splits)

lemma Revoke_frame:
  "map w_id (snd (Revoke env wid ns)) = map w_id ns \<and>
   map sandbox_capacity (snd (Revoke env wid ns)) = map sandbox_capacity ns"
  unfolding Revoke_def
  by (auto simp: run_tx_def revoke_row_def update_where_def
      split: option.splits tx_end.splits commit_outcome.splits if_splits)

lemma Rotate_db_ok:
  assumes "db_ok cd db" shows "db_ok cd (snd (on_workers (Rotate sha256 env now secret wid ex) db))"
  using capacity_frame_db_ok [OF assms Rotate_ok [OF db_okD(2) [OF assms]]] Rotate_frame
  by (simp add: on_workers_def)

lemma Revoke_db_ok:
  assumes "db_ok cd db" shows "db_ok cd (snd (on_workers (Revoke env wid) db))"
  using capacity_frame_db_ok [OF assms Revoke_ok [OF db_okD(2) [OF assms]]] Revoke_frame
  by (simp add: on_workers_def)

lemma ConfigureCapacity_db_ok:
  assumes "db_ok cd db" shows "db_ok cd (snd (ConfigureCapacity sha256 env token capacity db))"
proof -
  let ?upd = "\<lambda>w. update_where (\<lambda>n. w_id n = ID w \<and> w_expires_at n > clock env 1 (w_id n))
      (\<lambda>n. n\<lparr>sandbox_capacity := capacity\<rparr>) (worker_nodes db)"
  have configured: "db_ok cd (db\<lparr>worker_nodes := ?upd w\<rparr>)"
    if cap: "1 \<le> capacity" "capacity \<le> 64"
      and n: "find (\<lambda>n. w_id n = ID w) (worker_nodes db) = Some n"
      and fits: "capacity = sandbox_capacity n \<or> occupied db (ID w) = 0" for w n
  proof (rule workers_db_ok [OF assms])
    show ok: "workers_ok (?upd w)"
      using db_okD(2) [OF assms] cap by (fastforce simp: workers_ok_def set_update_where)
    have "map w_id (?upd w) = map w_id (worker_nodes db)" by (rule map_update_where) simp
    then show "w_id ` set (worker_nodes db) \<subseteq> w_id ` set (?upd w)" by (metis list.set_map order_refl)
    fix m assume "m \<in> set (?upd w)"
    then obtain k where k: "k \<in> set (worker_nodes db)" "m = (if w_id k = ID w \<and> w_expires_at k > clock env 1 (w_id k)
        then k\<lparr>sandbox_capacity := capacity\<rparr> else k)" by (auto simp: set_update_where)
    have d: "distinct (map w_id (worker_nodes db))" using db_okD(2) [OF assms] by (simp add: workers_ok_def)
    have "w_id k = ID w \<Longrightarrow> k = n" using find_distinct_key [OF d k(1)] n by simp
    then show "int (occupied db (w_id m)) \<le> sandbox_capacity m"
      using k fits cap db_okD(3) [OF assms] by (auto simp: capacity_ok_def)
  qed
  show ?thesis
  proof (cases "capacity < 1 \<or> capacity > 64")
    case False
    have "db_ok cd (snd (run_tx env (with_worker sha256 env token (configure_body env capacity)) db))"
    proof (rule run_tx_keeps [where P = "db_ok cd", OF assms])
      fix v db' assume "with_worker sha256 env token (configure_body env capacity) db = Commit v db'"
      then obtain w where "configure_body env capacity w db = Commit v db'" by (auto dest!: with_worker_Commit)
      then obtain n where "find (\<lambda>n. w_id n = ID w) (worker_nodes db) = Some n"
        "capacity = sandbox_capacity n \<or> occupied db (ID w) = 0" "db' = db\<lparr>worker_nodes := ?upd w\<rparr>"
        by (auto simp: configure_body_def select_capacity_def Let_def simp del: One_nat_def
            split: option.splits prod.splits if_splits)
      then show "db_ok cd db'" using configured [of w n] False by simp
    qed
    then show ?thesis using False by (simp add: ConfigureCapacity_def)
  qed (use assms in \<open>simp add: ConfigureCapacity_def\<close>)
qed

section \<open>All operations interleaved\<close>

inductive queue_step :: "Store \<Rightarrow> codec \<Rightarrow> (bytes \<Rightarrow> bytes) \<Rightarrow> queue_db \<Rightarrow> queue_db \<Rightarrow> bool"
  for s :: Store and cd :: codec and sha256 :: "bytes \<Rightarrow> bytes" where
  enqueue: "queue_step s cd sha256 db (snd (Enqueue cd env e db))"
| claim: "queue_step s cd sha256 db (snd (Claim s cd sha256 env token db))"
| configure: "queue_step s cd sha256 db (snd (ConfigureCapacity sha256 env token capacity db))"
| release: "queue_step s cd sha256 db (snd (Release sha256 env token xid gen db))"
| bind: "queue_step s cd sha256 db (snd (BindSandbox sha256 env token xid gen sb db))"
| sweep: "queue_step s cd sha256 db (snd (SweepRecovery env db))"
| heartbeat: "queue_step s cd sha256 db (snd (Heartbeat s sha256 env token xid gen sb db))"
| recover: "queue_step s cd sha256 db (snd (Recover s sha256 env token xid gen sb db))"
| complete: "queue_step s cd sha256 db (snd (Complete cd sha256 env token xid gen res db))"
| legacy: "queue_step s cd sha256 db (snd (ConfirmLegacyCleanup env wid db))"
| provision: "queue_step s cd sha256 db (snd (on_workers (Provision sha256 env now secret wid ex) db))"
| rotate: "queue_step s cd sha256 db (snd (on_workers (Rotate sha256 env now secret wid ex) db))"
| revoke: "queue_step s cd sha256 db (snd (on_workers (Revoke env wid) db))"

definition empty_db :: queue_db where
  "empty_db = \<lparr>worker_nodes = [], executions = [], next_order = 0\<rparr>"

abbreviation queue_run :: "Store \<Rightarrow> codec \<Rightarrow> (bytes \<Rightarrow> bytes) \<Rightarrow> queue_db \<Rightarrow> queue_db \<Rightarrow> bool" where
  "queue_run s cd sha256 \<equiv> (queue_step s cd sha256)\<^sup>*\<^sup>*"

lemma empty_db_ok: "db_ok cd empty_db"
  by (simp add: db_ok_def empty_db_def workers_ok_def rows_ok_def capacity_ok_def)

lemma queue_step_db_ok: "queue_step s cd sha256 db db' \<Longrightarrow> db_ok cd db \<Longrightarrow> db_ok cd db'"
  by (induction rule: queue_step.cases)
     (auto simp: Heartbeat_def Recover_def Claim_db_ok Enqueue_db_ok ConfigureCapacity_db_ok Provision_db_ok
        Rotate_db_ok Revoke_db_ok intro: evolves_db_ok Release_evolves BindSandbox_evolves SweepRecovery_evolves
        renew_evolves Complete_evolves ConfirmLegacyCleanup_evolves)

text \<open>What one step does to the rows that exist before it.\<close>

definition rows_step :: "queue_db \<Rightarrow> queue_db \<Rightarrow> bool" where
  "rows_step db db' \<longleftrightarrow> length (executions db) \<le> length (executions db') \<and>
     (\<forall>i < length (executions db). row_step (executions db ! i) (executions db' ! i))"

lemma rows_step_refl: "executions db' = executions db \<Longrightarrow> rows_step db db'"
  by (simp add: rows_step_def row_step_def)

lemma evolves_rows_step: "evolves db db' \<Longrightarrow> rows_step db db'"
  unfolding evolves_def rows_step_def row_step_def list_all2_conv_all_nth by auto

lemma Claim_rows_step:
  assumes "db_ok cd db" shows "rows_step db (snd (Claim s cd sha256 env token db))"
  unfolding Claim_def
proof (rule run_tx_keeps [where P = "rows_step db"])
  show "rows_step db db" by (rule rows_step_refl) simp
  fix v db'
  assume "with_worker sha256 env token (claim_body s cd env) db = Commit v db'"
  then obtain w and q :: exec_row where u: "update_executions (claim_where env w (x_id q)) (claim_set s env w) db = Some db'"
    using Claim_Commit by blast
  have "row_ok (claim_set s env w r)" if "r \<in> set (executions db)" "claim_where env w (x_id q) r" for r
    using u that by (auto simp: update_executions_def split: if_splits)
  moreover have "db' = db\<lparr>executions := update_where (claim_where env w (x_id q)) (claim_set s env w) (executions db)\<rparr>"
    using u by (auto simp: update_executions_def split: if_splits)
  ultimately show "rows_step db db'"
    by (auto simp: rows_step_def row_step_def nth_update_where claim_claims)
qed

lemma Enqueue_rows_step: "rows_step db (snd (Enqueue cd env e db))"
proof (cases "validExecution cd e")
  case True
  then show ?thesis unfolding Enqueue_def autocommit_def
    by (auto intro!: run_tx_keeps [where P = "rows_step db"] split: if_splits)
       (auto simp: rows_step_def row_step_def nth_append)
qed (simp add: Enqueue_def rows_step_refl)

lemma ConfigureCapacity_rows: "executions (snd (ConfigureCapacity sha256 env token c db)) = executions db"
  unfolding ConfigureCapacity_def
  by (auto simp: run_tx_def with_worker_def configure_body_def Let_def
      split: option.splits prod.splits sum.splits commit_outcome.splits tx_end.splits if_splits)

lemma queue_step_rows: "queue_step s cd sha256 db db' \<Longrightarrow> db_ok cd db \<Longrightarrow> rows_step db db'"
  by (induction rule: queue_step.cases)
     (auto simp: Heartbeat_def Recover_def Claim_rows_step Enqueue_rows_step ConfigureCapacity_rows on_workers_def
       intro: evolves_rows_step rows_step_refl Release_evolves BindSandbox_evolves
        SweepRecovery_evolves renew_evolves Complete_evolves ConfirmLegacyCleanup_evolves)

section \<open>Histories of rows\<close>

text \<open>
  A table that only grows at its end and whose rows change by a given relation: what holds of one
  row change holds along every history.
\<close>

locale row_history =
  fixes step :: "'d \<Rightarrow> 'd \<Rightarrow> bool" and ok :: "'d \<Rightarrow> bool" and rows :: "'d \<Rightarrow> 'r list"
    and change :: "'r \<Rightarrow> 'r \<Rightarrow> bool"
  assumes step_ok: "step d d' \<Longrightarrow> ok d \<Longrightarrow> ok d'"
    and step_grows: "step d d' \<Longrightarrow> ok d \<Longrightarrow> length (rows d) \<le> length (rows d')"
    and step_changes: "step d d' \<Longrightarrow> ok d \<Longrightarrow> i < length (rows d) \<Longrightarrow> change (rows d ! i) (rows d' ! i)"
begin

lemma run_ok: "step\<^sup>*\<^sup>* d d' \<Longrightarrow> ok d \<Longrightarrow> ok d'"
  by (induction rule: rtranclp_induct) (auto intro: step_ok)

lemma run_grows: "step\<^sup>*\<^sup>* d d' \<Longrightarrow> ok d \<Longrightarrow> length (rows d) \<le> length (rows d')"
proof (induction rule: rtranclp_induct)
  case (step y z)
  then show ?case using step_grows [of y z] run_ok [of d y] by linarith
qed simp

lemma run_changes:
  "step\<^sup>*\<^sup>* d d' \<Longrightarrow> ok d \<Longrightarrow> i < length (rows d) \<Longrightarrow> change\<^sup>*\<^sup>* (rows d ! i) (rows d' ! i)"
proof (induction rule: rtranclp_induct)
  case (step y z)
  then have "change (rows y ! i) (rows z ! i)"
    using step_changes [of y z i] run_ok [of d y] run_grows [of d y] by simp
  with step show ?case by (meson rtranclp.rtrancl_into_rtrancl)
qed simp

lemma run_stable:
  assumes "\<forall>r r'. change r r' \<longrightarrow> Q r \<longrightarrow> Q r'"
    and "step\<^sup>*\<^sup>* d d'" and "ok d" and "i < length (rows d)" and "Q (rows d ! i)"
  shows "Q (rows d' ! i)"
proof -
  have "change\<^sup>*\<^sup>* r r' \<Longrightarrow> Q r \<Longrightarrow> Q r'" for r r'
    by (induction rule: rtranclp_induct) (use assms(1) in auto)
  then show ?thesis using run_changes [OF assms(2-4)] assms(5) by blast
qed

end

interpretation queue_rows: row_history "queue_step s cd sha256" "db_ok cd" executions row_step
  for s cd sha256
proof
  fix d d' i
  assume st: "queue_step s cd sha256 d d'" "db_ok cd d"
  show "db_ok cd d'" by (rule queue_step_db_ok [OF st])
  show "length (executions d) \<le> length (executions d')" using queue_step_rows [OF st] by (simp add: rows_step_def)
  assume "i < length (executions d)"
  then show "row_step (executions d ! i) (executions d' ! i)" using queue_step_rows [OF st] by (simp add: rows_step_def)
qed

end
