(* ===== verification/QueueProperties.thy ===== *)
theory QueueProperties
  imports QueueInvariant
begin

text \<open>
  The guarantees of the Execution queue over every interleaving of its operations from an empty
  database (\<open>queue_run\<close> from \<open>empty_db\<close>), and the behaviour of the individual operations.
  \<open>sample_codec\<close> is an encoding with the round trip that the statements about stored workloads
  assume of JSON; the witnesses use it.
\<close>

section \<open>A codec with the round trip\<close>

definition decode_fields :: "bytes \<Rightarrow> bytes list option" where
  "decode_fields b = those (map hex_decode (split_on (CHR '','') b))"

definition encode_fields :: "bytes list \<Rightarrow> bytes" where
  "encode_fields fs = join_with (CHR '','') (map hex_encode fs)"

definition sample_codec :: codec where
  "sample_codec = \<lparr>
     marshal_execution = (\<lambda>e. encode_fields
       ([x_ExecutionID e, x_AgentRunID e, x_Source e, x_Stdin e] @ x_OutputPaths e)),
     unmarshal_execution = (\<lambda>b. case decode_fields b of
         Some (i # a # s # t # ps) \<Rightarrow> Some \<lparr>x_ExecutionID = i, x_AgentRunID = a, x_Source = s, x_Stdin = t, x_OutputPaths = ps\<rparr>
       | _ \<Rightarrow> None),
     marshal_result = (\<lambda>r. encode_fields [r_ExecutionID r, Stdout r, Stderr r]),
     unmarshal_result = (\<lambda>_. None)\<rparr>"

lemma those_map_Some: "those (map Some xs) = Some xs"
  by (induction xs) auto

lemma decode_encode_fields: "fs \<noteq> [] \<Longrightarrow> decode_fields (encode_fields fs) = Some fs"
  by (simp add: decode_fields_def encode_fields_def split_join hex_encode_no_comma comp_def those_map_Some)

lemma sample_codec_round_trip:
  "unmarshal_execution sample_codec (marshal_execution sample_codec e) = Some e"
  by (simp add: sample_codec_def decode_encode_fields)

section \<open>Reachable databases\<close>

lemma run_db_ok: "queue_run s cd sha256 empty_db db \<Longrightarrow> db_ok cd db"
  using queue_rows.run_ok empty_db_ok by blast

text \<open>A small run: one Worker, two queued Executions.\<close>

definition sample_store :: Store where
  "sample_store = \<lparr>leaseDuration = 120 * Second, recoveryWindow = 30 * Second\<rparr>"

definition sample_secret :: bytes where "sample_secret = replicate 32 (CHR ''s'')"

definition sample_token :: bytes where "sample_token = EncodeToString sample_secret"

definition sample_execution :: Execution where
  "sample_execution = \<lparr>x_ExecutionID = ''e1'', x_AgentRunID = ''run1'', x_Source = ''print()'',
     x_Stdin = [], x_OutputPaths = [''out/a.csv'']\<rparr>"

definition sample_worker :: worker_row where
  "sample_worker = \<lparr>w_id = ''node'', credential_sha256 = sample_token, credential_generation = 1,
     created_at = 0, w_expires_at = 1000000000, revoked_at = None, sandbox_capacity = 2\<rparr>"

definition sample_db :: queue_db where
  "sample_db = \<lparr>worker_nodes = [sample_worker], executions = [new_row sample_codec sample_execution 0], next_order = 1\<rparr>"

lemma sample_valid: "validExecution sample_codec sample_execution"
proof -
  have "reference ''e1''" "reference ''run1''" by (simp_all add: reference_def char_class_defs less_eq_char_def)
  moreover have "queue_paths_ok [] [''out/a.csv'']" by code_simp
  moreover have "length (marshal_execution sample_codec sample_execution) \<le> 60 * 1024"
    by (simp add: sample_codec_def encode_fields_def sample_execution_def)
  ultimately show ?thesis by (simp add: validExecution_def sample_execution_def)
qed

lemma sample_node_id: "workerID ''node''"
  by (simp add: workerID_def char_class_defs less_eq_char_def)

lemma sample_run: "queue_run sample_store sample_codec id empty_db sample_db"
proof -
  let ?db1 = "snd (on_workers (Provision id (calm 0) 0 (Some sample_secret) ''node'' 1000000000) empty_db)"
  have "queue_step sample_store sample_codec id empty_db ?db1" by (rule provision)
  moreover have "queue_step sample_store sample_codec id ?db1 (snd (Enqueue sample_codec (calm 1) sample_execution ?db1))"
    by (rule enqueue)
  moreover have db1: "?db1 = empty_db\<lparr>worker_nodes := [sample_worker]\<rparr>"
    by (simp add: on_workers_def Provision_def sample_node_id run_tx_ok empty_db_def sample_worker_def sample_token_def Let_def)
  have "snd (Enqueue sample_codec (calm 1) sample_execution ?db1) = sample_db"
    unfolding db1 by (simp add: Enqueue_def sample_valid autocommit_def run_tx_ok empty_db_def sample_db_def)
  ultimately show ?thesis by (metis rtranclp.simps)
qed

text \<open>The same run continued: the Execution is leased, then completed.\<close>

definition sample_leased :: exec_row where
  "sample_leased = (new_row sample_codec sample_execution 0)\<lparr>state := Leased, worker_id := Some ''node'',
     generation := 1, lease_expires_at := Some 120000002, recovery_until := Some 150000002\<rparr>"

definition sample_result :: ExecutePythonResult where
  "sample_result = \<lparr>r_ExecutionID = ''e1'', ExitCode = 0, Stdout = ''ok'', Stderr = [], Truncated = False,
     StdoutTruncated = False, StderrTruncated = False, TerminalReason = ExecutionExited,
     ResourceUsage = \<lparr>OOMEvents = 0, PIDLimitEvents = 0, CPUUsec = 7, CPUThrottledPeriods = 0, CPUThrottledUsec = 0\<rparr>,
     Outputs = [\<lparr>Path = ''out/a.csv'', Size = 1, SHA256 = hex_encode ''x'', Content = ''x''\<rparr>], OutputError = []\<rparr>"

definition sample_completed :: exec_row where
  "sample_completed = sample_leased\<lparr>state := Completed, result := Some (marshal_result sample_codec sample_result)\<rparr>"

lemma sample_authentic:
  assumes "t < 1000000000"
  shows "AuthenticateTx id (calm t) [sample_worker] sample_token = Inr (worker_of sample_worker)"
  using assms
  by (subst AuthenticateTx_row [of _ sample_worker])
     (auto simp: sample_worker_def sample_token_def sample_secret_def intro: issued_token_valid)

lemma sample_references: "reference ''e1''" "reference ''run1''" "reference ''sb1''"
  by (simp_all add: reference_def char_class_defs less_eq_char_def)

lemma sample_nodes: "worker_nodes sample_db = [sample_worker]"
  by (simp add: sample_db_def)

definition sample_lease :: Lease where
  "sample_lease = \<lparr>l_ExecutionID = ''e1'', l_AgentRunID = ''run1'', l_Generation = 1, l_ExpiresAt = 120000002,
     l_Source = ''print()'', l_Stdin = [], l_OutputPaths = [''out/a.csv'']\<rparr>"

text \<open>The first claim, whatever the codec, as long as it reads back the request.\<close>

definition queued_db :: "codec \<Rightarrow> queue_db" where
  "queued_db cd = \<lparr>worker_nodes = [sample_worker], executions = [new_row cd sample_execution 0], next_order = 1\<rparr>"

definition leased_row :: "codec \<Rightarrow> exec_row" where
  "leased_row cd = (new_row cd sample_execution 0)\<lparr>state := Leased, worker_id := Some ''node'',
     generation := 1, lease_expires_at := Some 120000002, recovery_until := Some 150000002\<rparr>"

lemma first_claim:
  assumes "unmarshal_execution cd (marshal_execution cd sample_execution) = Some sample_execution"
  shows "Claim sample_store cd id (calm 2) sample_token (queued_db cd) =
     (Inr (Some sample_lease), (queued_db cd)\<lparr>executions := [leased_row cd]\<rparr>)" (is "_ = (_, ?db)")
proof -
  let ?row = "new_row cd sample_execution 0" and ?w = "worker_of sample_worker"
  have rows: "executions (queued_db cd) = [?row]" "worker_nodes (queued_db cd) = [sample_worker]" by (simp_all add: queued_db_def)
  have e: "unmarshal_execution cd (workload ?row) = Some sample_execution"
    by (simp add: new_row_def assms)
  have q: "next_queued (calm 2) (queued_db cd) = Some ?row"
    by (simp add: next_queued_def rows) (simp add: new_row_def)
  have p: "claim_where (calm 2) ?w (x_id ?row) ?row"
    by (simp add: claim_where_def worker_of_def sample_worker_def new_row_def)
  have f: "claim_set sample_store (calm 2) ?w ?row = leased_row cd"
    by (simp add: claim_set_def leased_row_def new_row_def worker_of_def sample_worker_def lease_interval_def
        recovery_interval_def sample_store_def)
  have ok: "row_ok (leased_row cd)"
    by (simp add: leased_row_def new_row_def row_ok_def owned_state_ok_def deadline_ok_def)
  have u: "update_executions (claim_where (calm 2) ?w (x_id ?row)) (claim_set sample_store (calm 2) ?w) (queued_db cd) = Some ?db"
    using p f ok by (simp add: update_executions_def update_where_def rows)
  have cap: "select_capacity (calm 2) ?w (queued_db cd) = Some (2, 0)"
    by (simp add: select_capacity_def rows occupied_def) (simp add: sample_worker_def worker_of_def new_row_def)
  have l: "\<lparr>l_ExecutionID = x_ExecutionID sample_execution, l_AgentRunID = x_AgentRunID sample_execution,
      l_Generation = generation ?row + 1, l_ExpiresAt = clock (calm 2) 1 (x_id ?row) + lease_interval sample_store,
      l_Source = x_Source sample_execution, l_Stdin = x_Stdin sample_execution,
      l_OutputPaths = x_OutputPaths sample_execution\<rparr> = sample_lease"
    by (simp add: sample_execution_def sample_lease_def new_row_def lease_interval_def sample_store_def)
  have "claim_body sample_store cd (calm 2) ?w (queued_db cd) = Commit (Some sample_lease) ?db"
    unfolding claim_body_def cap q e u l [symmetric] using p by (simp add: affected_def rows q e u)
  then show ?thesis by (simp add: Claim_def run_tx_ok with_worker_def rows sample_authentic)
qed

lemma sample_claim:
  "Claim sample_store sample_codec id (calm 2) sample_token sample_db =
     (Inr (Some \<lparr>l_ExecutionID = ''e1'', l_AgentRunID = ''run1'', l_Generation = 1, l_ExpiresAt = 120000002,
        l_Source = ''print()'', l_Stdin = [], l_OutputPaths = [''out/a.csv'']\<rparr>),
      sample_db\<lparr>executions := [sample_leased]\<rparr>)"
  using first_claim [OF sample_codec_round_trip]
  by (simp add: queued_db_def sample_db_def leased_row_def sample_leased_def sample_lease_def)

lemma sample_leased_run: "queue_run sample_store sample_codec id empty_db (sample_db\<lparr>executions := [sample_leased]\<rparr>)"
proof (rule rtranclp.rtrancl_into_rtrancl [OF sample_run])
  show "queue_step sample_store sample_codec id sample_db (sample_db\<lparr>executions := [sample_leased]\<rparr>)"
    using claim [of sample_store sample_codec id sample_db "calm 2" sample_token] unfolding sample_claim snd_conv .
qed

lemma sample_result_valid: "validResult id sample_result"
  by (simp add: validResult_def sample_result_def)

lemma sample_complete:
  "Complete sample_codec id (calm 3) sample_token ''e1'' 1 sample_result (sample_db\<lparr>executions := [sample_leased]\<rparr>)
     = (Inr (), sample_db\<lparr>executions := [sample_completed]\<rparr>)" (is "Complete _ _ _ _ _ _ _ ?db = (_, ?db')")
proof -
  let ?w = "worker_of sample_worker" and ?raw = "marshal_result sample_codec sample_result"
  let ?f = "\<lambda>r. r\<lparr>state := Completed, result := Some ?raw\<rparr>"
  have e: "unmarshal_execution sample_codec (workload sample_leased) = Some sample_execution"
    by (simp add: sample_leased_def new_row_def sample_codec_round_trip)
  have m: "outputs_match sample_execution sample_result"
    by (simp add: outputs_match_def sample_result_def sample_execution_def)
  have len: "\<not> int (length ?raw) > MaximumReportBytes - 1024"
    by (simp add: sample_codec_def sample_result_def encode_fields_def MaximumReportBytes_def)
  have p: "complete_where (calm 3) ?w ''e1'' 1 sample_leased"
    by (simp add: complete_where_def sample_leased_def new_row_def worker_of_def sample_worker_def later_def sample_execution_def)
  have ok: "row_ok sample_completed"
    by (simp add: sample_completed_def sample_leased_def new_row_def row_ok_def owned_state_ok_def deadline_ok_def)
  have u: "update_executions (complete_where (calm 3) ?w ''e1'' 1) ?f ?db = Some ?db'"
    using p ok by (simp add: update_executions_def update_where_def sample_completed_def)
  have r: "x_id sample_leased = ''e1''" "worker_id sample_leased = Some ''node''" "generation sample_leased = 1"
    "state sample_leased = Leased" "\<not> capacity_released sample_leased" "lease_expires_at sample_leased = Some 120000002"
    by (simp_all add: sample_leased_def new_row_def sample_execution_def)
  have w: "ID ?w = ''node''" "ExpiresAt ?w = 1000000000" by (simp_all add: worker_of_def sample_worker_def)
  have "transition_body sample_codec (calm 3) ''e1'' 1 (Some sample_result) ?w ?db = Commit () ?db'"
    unfolding transition_body_def Let_def
    using p by (simp add: r w e m len [simplified] u affected_def coalesce_def)
  then show ?thesis
    by (simp add: Complete_def sample_result_valid transition_def sample_references run_tx_ok with_worker_def
        sample_nodes sample_authentic) (simp add: sample_result_def)
qed

lemma sample_completed_run: "queue_run sample_store sample_codec id empty_db (sample_db\<lparr>executions := [sample_completed]\<rparr>)"
proof (rule rtranclp.rtrancl_into_rtrancl [OF sample_leased_run])
  show "queue_step sample_store sample_codec id (sample_db\<lparr>executions := [sample_leased]\<rparr>)
      (sample_db\<lparr>executions := [sample_completed]\<rparr>)"
    using complete [of sample_store sample_codec id _ "calm 3" sample_token "''e1''" 1 sample_result,
        of "sample_db\<lparr>executions := [sample_leased]\<rparr>"] unfolding sample_complete snd_conv .
qed

lemma sample_completed_sweep:
  "queue_run sample_store sample_codec id (sample_db\<lparr>executions := [sample_completed]\<rparr>)
     (snd (SweepRecovery (calm 900000000) (sample_db\<lparr>executions := [sample_completed]\<rparr>)))"
  using sweep by blast

text \<open>
  C2. In every reachable database no Worker Node occupies more Sandboxes than its configured
  capacity, which is between 1 and 64: capacity is reserved by a claim and kept through completion,
  lease expiry and recovery until a release.
\<close>

theorem capacity_never_exceeded:
  assumes "queue_run s cd sha256 empty_db db" and "n \<in> set (worker_nodes db)"
  shows "int (occupied db (w_id n)) \<le> sandbox_capacity n \<and> 1 \<le> sandbox_capacity n \<and> sandbox_capacity n \<le> 64"
  using run_db_ok [OF assms(1)] assms(2) by (simp add: db_ok_def capacity_ok_def workers_ok_def)

theorem capacity_never_exceeded_witness:
  "int (occupied sample_db ''node'') \<le> sandbox_capacity sample_worker"
  using capacity_never_exceeded [OF sample_run, of sample_worker]
  by (simp add: sample_db_def sample_worker_def)

text \<open>
  C17. In every reachable database every Execution row satisfies the schema's constraints, is leased
  at most once in its life (its generation never exceeds 1), holds its capacity while its lease can
  still be used, and stores a validated request under its own identifiers.
\<close>

theorem execution_rows_well_formed:
  assumes "queue_run s cd sha256 empty_db db" and "r \<in> set (executions db)"
  shows "row_ok r \<and> generation r \<le> 1 \<and> (active r \<longrightarrow> \<not> capacity_released r) \<and>
    (\<exists>e. validExecution cd e \<and> workload r = marshal_execution cd e \<and> x_id r = x_ExecutionID e) \<and>
    (\<forall>r' \<in> set (executions db). x_id r' = x_id r \<longrightarrow> r' = r)"
proof -
  have rows: "rows_ok cd db" using run_db_ok [OF assms(1)] by (simp add: db_ok_def)
  then have "row_inv r" "stored_ok cd r" using assms(2) by (auto simp: rows_ok_def)
  then show ?thesis using row_of_id [OF rows _ assms(2)] unfolding row_inv_def stored_ok_def by blast
qed

theorem execution_rows_well_formed_witness:
  "row_ok (new_row sample_codec sample_execution 0) \<and> generation (new_row sample_codec sample_execution 0) \<le> 1"
  using execution_rows_well_formed [OF sample_run, of "new_row sample_codec sample_execution 0"]
  by (simp add: sample_db_def)



text \<open>
  C21. A lease names one owner for ever: once a row has an owner, every later database has the same
  owner and generation there, so no other Worker is ever given the same Execution.
\<close>

theorem owner_never_changes:
  assumes "queue_run s cd sha256 empty_db db" and "queue_run s cd sha256 db db'"
    and "i < length (executions db)" and "worker_id (executions db ! i) = Some w"
  shows "worker_id (executions db' ! i) = Some w \<and> generation (executions db' ! i) = 1 \<and>
    x_id (executions db' ! i) = x_id (executions db ! i)"
proof -
  let ?r = "executions db ! i"
  have inv: "row_inv ?r" using run_db_ok [OF assms(1)] assms(3) by (simp add: db_ok_def rows_ok_def)
  then have gen: "generation ?r = 1" "state ?r \<noteq> Queued"
    using assms(4) by (auto simp: row_inv_def row_ok_def owned_state_ok_def split: exec_state.splits)
  define Q where "Q r' \<longleftrightarrow> worker_id r' = Some w \<and> generation r' = 1 \<and> x_id r' = x_id ?r \<and> state r' \<noteq> Queued" for r' :: exec_row
  have stable: "\<forall>r1 r2. row_step r1 r2 \<longrightarrow> Q r1 \<longrightarrow> Q r2"
  proof (intro allI impI)
    fix r1 r2 assume "row_step r1 r2" "Q r1"
    then show "Q r2" by (cases "state r1")
      (auto simp: row_step_def owned_step_def claim_step_def same_identity_def Q_def)
  qed
  have "Q ?r" using assms(4) gen by (auto simp: Q_def)
  then have "Q (executions db' ! i)"
    by (rule queue_rows.run_stable [OF stable assms(2) run_db_ok [OF assms(1)] assms(3)])
  then show ?thesis by (simp add: Q_def)
qed

theorem owner_never_changes_witness:
  "worker_id (executions (snd (SweepRecovery (calm 900000000) (sample_db\<lparr>executions := [sample_completed]\<rparr>))) ! 0) = Some ''node''"
  using owner_never_changes [OF sample_completed_run sample_completed_sweep, of 0 "''node''"]
  by (simp add: sample_completed_def sample_leased_def)

end
