(* ===== verification/QueueOperations.thy ===== *)
theory QueueOperations
  imports QueueProperties
begin

text \<open>
  The behaviour of single queue operations: which row a claim leases, what a repeated report does,
  what a renewal requires, what refused and unauthenticated requests leave behind, and that the
  background sweep brings every row to the state readers already report.
\<close>

section \<open>Single-row updates\<close>

lemma update_where_single:
  assumes "\<And>r. r \<in> set rows \<Longrightarrow> P r \<longleftrightarrow> r = q"
  shows "update_where P f rows = map (\<lambda>r. if r = q then f q else r) rows"
  unfolding update_where_def using assms by auto

lemma filter_replace_one:
  assumes "distinct rows" and "q \<in> set rows" and "Q v" and "\<not> Q q"
  shows "length (filter Q (map (\<lambda>r. if r = q then v else r) rows)) = length (filter Q rows) + 1"
  using assms
proof (induction rows)
  case (Cons a rows)
  show ?case
  proof (cases "a = q")
    case True
    then have "q \<notin> set rows" using Cons.prems by simp
    then have "map (\<lambda>r. if r = q then v else r) rows = rows" by (intro map_idI) auto
    then show ?thesis using True Cons.prems by simp
  next
    case False
    then show ?thesis using Cons by auto
  qed
qed simp

lemma rows_distinct: "rows_ok cd db \<Longrightarrow> distinct (executions db)"
  by (auto simp: rows_ok_def distinct_map)



section \<open>Reports\<close>

text \<open>A transaction body that neither answers nor commits.\<close>

lemma run_tx_effect:
  assumes "run_tx env body db = (out, db1)" and "out = Inr v \<or> db1 \<noteq> db"
  shows "\<exists>v. body db = Answer v \<and> db1 = db \<or> body db = Commit v db1"
  using assms by (auto simp: run_tx_def split: if_splits tx_end.splits commit_outcome.splits)

lemma authenticate_same_id:
  assumes "AuthenticateTx sha256 env ns token = Inr w" and "AuthenticateTx sha256 env2 ns token = Inr w2"
  shows "w2 = w"
  using assms by (auto simp: AuthenticateTx_def split: if_splits option.splits)

lemma evolves_nodes: "evolves db db' \<Longrightarrow> worker_nodes db' = worker_nodes db"
  by (simp add: evolves_def)

text \<open>A report that took effect leaves the Execution completed with the encoded result.\<close>

lemma completed_row:
  assumes ok: "db_ok cd db" and w: "AuthenticateTx sha256 env (worker_nodes db) token = Inr w"
    and body: "transition_body cd env xid gen (Some v) w db = Answer () \<and> db1 = db \<or>
      transition_body cd env xid gen (Some v) w db = Commit () db1"
  shows "\<exists>r e. find (\<lambda>r. x_id r = xid) (executions db1) = Some r \<and> worker_id r = Some (ID w) \<and> generation r = gen \<and>
    state r = Completed \<and> result r = Some (marshal_result cd v) \<and> unmarshal_execution cd (workload r) = Some e \<and>
    outputs_match e v \<and> int (length (marshal_result cd v)) \<le> MaximumReportBytes - 1024"
proof -
  note rows = db_okD(1) [OF ok]
  let ?raw = "marshal_result cd v"
  obtain r e where r: "find (\<lambda>r. x_id r = xid) (executions db) = Some r" "coalesce (worker_id r) [] = ID w" "generation r = gen"
    and e: "unmarshal_execution cd (workload r) = Some e" "outputs_match e v" "int (length ?raw) \<le> MaximumReportBytes - 1024"
    and alt: "state r = Completed \<and> coalesce (result r) [] = ?raw \<and> db1 = db \<or>
      update_executions (complete_where env w xid gen) (\<lambda>r. r\<lparr>state := Completed, result := Some ?raw\<rparr>) db = Some db1 \<and>
      affected (complete_where env w xid gen) (executions db) = 1"
    using body by (auto simp: transition_body_def Let_def split: if_splits option.splits)
  have inv: "row_inv r" and mem: "r \<in> set (executions db)" "x_id r = xid"
    using rows_inv [OF rows] find_SomeD [OF r(1)] by auto
  have owner: "worker_id r = Some (ID w)"
    using r(2) authenticated_node(1) [OF ok w] by (cases "worker_id r") (auto simp: coalesce_def)
  from alt show ?thesis
  proof (elim disjE conjE)
    assume c: "state r = Completed" "coalesce (result r) [] = ?raw" "db1 = db"
    then have "result r = Some ?raw"
      using inv by (cases "result r") (auto simp: row_inv_def row_ok_def owned_state_ok_def coalesce_def)
    with c r e owner show ?thesis by auto
  next
    assume u: "update_executions (complete_where env w xid gen) (\<lambda>r. r\<lparr>state := Completed, result := Some ?raw\<rparr>) db = Some db1"
      and one: "affected (complete_where env w xid gen) (executions db) = 1"
    have "\<exists>q \<in> set (executions db). complete_where env w xid gen q"
      using one by (metis affected_def filter_False length_0_conv zero_neq_one)
    then have hit: "complete_where env w xid gen r"
      using row_of_id [OF rows _ mem(1)] mem(2) by (auto simp: complete_where_def)
    have "find (\<lambda>r. x_id r = xid) (executions db1) = Some (r\<lparr>state := Completed, result := Some ?raw\<rparr>)"
      using u hit r(1) by (auto simp: update_executions_def find_update_where_key split: if_splits)
    then show ?thesis using owner r e by auto
  qed
qed

text \<open>
  C18. Once a report has taken effect, even if its acknowledgement was lost, repeating the same
  report under a valid credential succeeds and changes nothing, and a report with a different
  encoding never succeeds and changes nothing.
\<close>

theorem report_is_idempotent:
  assumes "queue_run s cd sha256 empty_db db"
    and "Complete cd sha256 env token xid gen v db = (out, db1)" and "out = Inr () \<or> db1 \<noteq> db"
    and w2: "AuthenticateTx sha256 env2 (worker_nodes db1) token = Inr w"
    and up: "connects env2 \<and> begins env2 \<and> \<not> fault env2 2 \<and> \<not> fault env2 3 \<and> clock env2 1 [] < ExpiresAt w"
  shows "Complete cd sha256 env2 token xid gen v db1 = (Inr (), db1) \<and>
    (marshal_result cd v' \<noteq> marshal_result cd v \<longrightarrow>
       fst (Complete cd sha256 env2 token xid gen v' db1) \<noteq> Inr () \<and>
       snd (Complete cd sha256 env2 token xid gen v' db1) = db1)"
proof -
  have ok: "db_ok cd db" by (rule run_db_ok [OF assms(1)])
  have guards: "r_ExecutionID v = xid" "validResult sha256 v" "reference xid" "0 < gen"
    and tx: "run_tx env (with_worker sha256 env token (transition_body cd env xid gen (Some v))) db = (out, db1)"
    using assms(2,3) by (auto simp: Complete_def transition_def split: if_splits)
  obtain w1 where w1: "AuthenticateTx sha256 env (worker_nodes db) token = Inr w1"
    and body: "transition_body cd env xid gen (Some v) w1 db = Answer () \<and> db1 = db \<or>
      transition_body cd env xid gen (Some v) w1 db = Commit () db1"
    using run_tx_effect [OF tx assms(3)] by (auto simp: with_worker_def split: sum.splits)
  have "worker_nodes db1 = worker_nodes db"
    using evolves_nodes [OF Complete_evolves [OF ok, of cd sha256 env token xid gen v]] assms(2) by simp
  then have w: "w = w1" using authenticate_same_id [OF w1] w2 by simp
  obtain r e where r: "find (\<lambda>r. x_id r = xid) (executions db1) = Some r" "worker_id r = Some (ID w)" "generation r = gen"
    "state r = Completed" "result r = Some (marshal_result cd v)" "unmarshal_execution cd (workload r) = Some e"
    "outputs_match e v" "int (length (marshal_result cd v)) \<le> MaximumReportBytes - 1024"
    using completed_row [OF ok w1 body] w by auto
  have again: "transition_body cd env2 xid gen (Some u) w db1 =
      (if \<not> outputs_match e u \<or> int (length (marshal_result cd u)) > MaximumReportBytes - 1024 then Abort ErrInvalid
       else if marshal_result cd u = marshal_result cd v then Answer () else Abort ErrConflict)" for u
    using up by (simp add: transition_body_def Let_def r coalesce_def)
  have "run_tx env2 (with_worker sha256 env2 token (transition_body cd env2 xid gen (Some u))) db1 =
      (if \<not> outputs_match e u \<or> int (length (marshal_result cd u)) > MaximumReportBytes - 1024 then (Inl ErrInvalid, db1)
       else if marshal_result cd u = marshal_result cd v then (Inr (), db1) else (Inl ErrConflict, db1))" for u
    using up by (simp add: run_tx_def with_worker_def w2 again)
  then show ?thesis using guards r by (auto simp: Complete_def transition_def)
qed

theorem report_is_idempotent_witness:
  "Complete sample_codec id (calm 4) sample_token ''e1'' 1 sample_result (sample_db\<lparr>executions := [sample_completed]\<rparr>)
     = (Inr (), sample_db\<lparr>executions := [sample_completed]\<rparr>)"
proof -
  have "clock (calm 4) 1 [] < ExpiresAt (worker_of sample_worker)" by (simp add: worker_of_def sample_worker_def)
  then show ?thesis
    using report_is_idempotent [OF sample_leased_run sample_complete, of "calm 4" "worker_of sample_worker"]
      sample_authentic [of 4] by (simp add: sample_nodes)
qed

section \<open>Renewals\<close>

text \<open>
  Authority is renewed only for the authenticated owner of the row, with the lease's own
  generation and bound Sandbox: a heartbeat needs an unexpired lease, a recovery needs an active row
  inside its recovery window, both a row whose capacity was not released; only that row's state and
  deadlines change. A completed Execution is reported as completed and left as it is.
\<close>

lemma renewal_requires_authority:
  assumes "queue_run s cd sha256 empty_db db"
    and "renew s sha256 env token xid gen sb recovering db = (Inr a, db')"
  shows "\<exists>w r. AuthenticateTx sha256 env (worker_nodes db) token = Inr w \<and> r \<in> set (executions db) \<and> x_id r = xid \<and>
    worker_id r = Some (ID w) \<and> generation r = gen \<and> sandbox_id r = sb \<and>
    (a_State a = Completed \<and> state r = Completed \<and> db' = db \<or>
     a_State a = Leased \<and> \<not> capacity_released r \<and>
     (if recovering then active r \<and> later (recovery_until r) (clock env 6 xid)
      else state r = Leased \<and> later (lease_expires_at r) (clock env 5 xid)) \<and>
     executions db' = map (\<lambda>q. if q = r then renew_set s env r else q) (executions db))"
proof -
  have ok: "db_ok cd db" by (rule run_db_ok [OF assms(1)])
  note rows = db_okD(1) [OF ok]
  obtain w where w: "AuthenticateTx sha256 env (worker_nodes db) token = Inr w"
    and body: "renew_body s env xid gen sb recovering w db = Answer a \<and> db' = db \<or>
      renew_body s env xid gen sb recovering w db = Commit a db'"
    using assms(2) by (auto simp: renew_def with_worker_def dest!: run_tx_Inr split: if_splits sum.splits)
  from body show ?thesis
  proof
    assume b: "renew_body s env xid gen sb recovering w db = Answer a \<and> db' = db"
    then obtain r where "find (completed_where env w xid gen sb) (executions db) = Some r" "a_State a = Completed"
      by (auto simp: renew_body_def Let_def split: if_splits option.splits prod.splits)
    with b w show ?thesis using find_SomeD [of "completed_where env w xid gen sb"]
      by (auto simp: completed_where_def)
  next
    let ?P = "renew_where env w xid gen sb recovering"
    assume b: "renew_body s env xid gen sb recovering w db = Commit a db'"
    then obtain r where r: "find ?P (executions db) = Some r" and st: "a_State a = Leased"
      and u: "update_executions ?P (renew_set s env) db = Some db'"
      by (auto simp: renew_body_def Let_def split: if_splits option.splits prod.splits)
    have mem: "r \<in> set (executions db)" "?P r" using find_SomeD [OF r] by auto
    have "q = r" if "q \<in> set (executions db)" "?P q" for q
      using row_of_id [OF rows that(1) mem(1)] that(2) mem(2) by (simp add: renew_where_def)
    with mem(2) have single: "\<And>q. q \<in> set (executions db) \<Longrightarrow> ?P q \<longleftrightarrow> q = r" by blast
    have ex: "executions db' = map (\<lambda>q. if q = r then renew_set s env r else q) (executions db)"
      using u update_where_single [OF single] by (auto simp: update_executions_def split: if_splits)
    have "x_id r = xid" "worker_id r = Some (ID w)" "generation r = gen" "sandbox_id r = sb" "\<not> capacity_released r"
      "if recovering then active r \<and> later (recovery_until r) (clock env 6 xid)
       else state r = Leased \<and> later (lease_expires_at r) (clock env 5 xid)"
      using mem(2) by (auto simp: renew_where_def active_def)
    with w mem(1) st ex show ?thesis by (intro exI [of _ w] exI [of _ r] conjI disjI2) simp_all
  qed
qed

text \<open>A bound lease, renewed by a heartbeat.\<close>

definition sample_bound :: exec_row where
  "sample_bound = sample_leased\<lparr>sandbox_id := ''sb1''\<rparr>"

lemma sample_bind:
  "BindSandbox id (calm 5) sample_token ''e1'' 1 ''sb1'' (sample_db\<lparr>executions := [sample_leased]\<rparr>)
     = (Inr (), sample_db\<lparr>executions := [sample_bound]\<rparr>)" (is "BindSandbox _ _ _ _ _ _ ?db = (_, ?db')")
proof -
  let ?w = "worker_of sample_worker"
  have p: "bind_where (calm 5) ?w ''e1'' 1 ''sb1'' sample_leased"
    by (simp add: bind_where_def sample_leased_def new_row_def worker_of_def sample_worker_def later_def sample_execution_def)
  have ok: "row_ok sample_bound"
    by (simp add: sample_bound_def sample_leased_def new_row_def row_ok_def owned_state_ok_def deadline_ok_def sample_references)
  have "bind_body (calm 5) ''e1'' 1 ''sb1'' ?w ?db = Commit () ?db'"
    using p ok by (simp add: bind_body_def Let_def update_executions_def update_where_def affected_def sample_bound_def)
  then show ?thesis
    by (simp add: BindSandbox_def sample_references run_tx_ok with_worker_def sample_nodes sample_authentic)
qed

lemma sample_bound_run: "queue_run sample_store sample_codec id empty_db (sample_db\<lparr>executions := [sample_bound]\<rparr>)"
proof (rule rtranclp.rtrancl_into_rtrancl [OF sample_leased_run])
  show "queue_step sample_store sample_codec id (sample_db\<lparr>executions := [sample_leased]\<rparr>)
      (sample_db\<lparr>executions := [sample_bound]\<rparr>)"
    using bind [of sample_store sample_codec id "sample_db\<lparr>executions := [sample_leased]\<rparr>" "calm 5" sample_token "''e1''" 1 "''sb1''"]
    unfolding sample_bind snd_conv .
qed

lemma sample_heartbeat:
  "\<exists>a db'. renew sample_store id (calm 9) sample_token ''e1'' 1 ''sb1'' False (sample_db\<lparr>executions := [sample_bound]\<rparr>)
     = (Inr a, db') \<and> executions db' \<noteq> [sample_bound]"
proof -
  let ?w = "worker_of sample_worker" and ?db = "sample_db\<lparr>executions := [sample_bound]\<rparr>"
  let ?f = "renew_set sample_store (calm 9)" and ?P = "renew_where (calm 9) ?w ''e1'' 1 ''sb1'' False"
  have p: "?P sample_bound"
    by (simp add: renew_where_def sample_bound_def sample_leased_def new_row_def worker_of_def sample_worker_def later_def sample_execution_def)
  have nc: "\<not> completed_where (calm 9) ?w ''e1'' 1 ''sb1'' sample_bound"
    by (simp add: completed_where_def sample_bound_def sample_leased_def)
  have f: "?f sample_bound = sample_bound\<lparr>lease_expires_at := Some 120000009, recovery_until := Some 150000009\<rparr>"
    by (simp add: renew_set_def sample_bound_def sample_leased_def lease_interval_def recovery_interval_def sample_store_def)
  have ok: "row_ok (?f sample_bound)"
    unfolding f by (simp add: sample_bound_def sample_leased_def new_row_def row_ok_def owned_state_ok_def deadline_ok_def sample_references)
  have "update_executions ?P ?f ?db = Some (?db\<lparr>executions := [?f sample_bound]\<rparr>)"
    using p ok by (simp add: update_executions_def update_where_def)
  then have "\<exists>a. renew_body sample_store (calm 9) ''e1'' 1 ''sb1'' False ?w ?db = Commit a (?db\<lparr>executions := [?f sample_bound]\<rparr>)"
    using p nc by (simp add: renew_body_def Let_def)
  moreover have "lease_expires_at (?f sample_bound) \<noteq> lease_expires_at sample_bound"
    unfolding f by (simp add: sample_bound_def sample_leased_def)
  then have "?f sample_bound \<noteq> sample_bound" by metis
  ultimately show ?thesis
    by (auto simp: renew_def sample_references run_tx_ok with_worker_def sample_nodes sample_authentic)
qed

lemma renewal_requires_authority_witness:
  "\<exists>a db'. renew sample_store id (calm 9) sample_token ''e1'' 1 ''sb1'' False (sample_db\<lparr>executions := [sample_bound]\<rparr>)
     = (Inr a, db') \<and> a_State a = Leased"
proof -
  obtain a db' where r: "renew sample_store id (calm 9) sample_token ''e1'' 1 ''sb1'' False
      (sample_db\<lparr>executions := [sample_bound]\<rparr>) = (Inr a, db')" and ne: "executions db' \<noteq> [sample_bound]"
    using sample_heartbeat by blast
  have "a_State a = Leased" using renewal_requires_authority [OF sample_bound_run r] ne by fastforce
  with r show ?thesis by blast
qed

section \<open>Refusals\<close>



text \<open>
  Without an authentic credential no Worker operation succeeds or changes anything, whatever
  the database environment does.
\<close>

lemma unauthenticated_changes_nothing:
  assumes "AuthenticateTx sha256 env (worker_nodes db) token = Inl e"
  shows "(\<exists>e'. Claim s cd sha256 env token db = (Inl e', db)) \<and>
    (\<exists>e'. Capacity_op sha256 env token db = (Inl e', db)) \<and>
    (\<exists>e'. ConfigureCapacity sha256 env token c db = (Inl e', db)) \<and>
    (\<exists>e'. Release sha256 env token xid gen db = (Inl e', db)) \<and>
    (\<exists>e'. BindSandbox sha256 env token xid gen sb db = (Inl e', db)) \<and>
    (\<exists>e'. Outstanding sha256 env token db = (Inl e', db)) \<and>
    (\<exists>e'. renew s sha256 env token xid gen sb rc db = (Inl e', db)) \<and>
    (\<exists>e'. Validate cd sha256 env token xid gen db = (Inl e', db)) \<and>
    (\<exists>e'. Complete cd sha256 env token xid gen v db = (Inl e', db))"
  using assms
  by (simp add: Claim_def Capacity_op_def ConfigureCapacity_def Release_def BindSandbox_def Outstanding_def
      renew_def Validate_def Complete_def transition_def run_tx_def with_worker_def)

lemma unauthenticated_changes_nothing_witness:
  "AuthenticateTx id (calm 3) (worker_nodes sample_db) ''guess'' = Inl ErrUnauthenticated \<and>
   (\<exists>e'. Claim sample_store sample_codec id (calm 3) ''guess'' sample_db = (Inl e', sample_db))"
proof -
  have a: "AuthenticateTx id (calm 3) (worker_nodes sample_db) ''guess'' = Inl ErrUnauthenticated"
    by (simp add: AuthenticateTx_def validToken_def)
  with unauthenticated_changes_nothing [OF a, of sample_store sample_codec] show ?thesis by blast
qed

section \<open>The recovery sweep\<close>

lemma swept_row:
  assumes "row_inv r" and "due (calm t) r"
  shows "\<not> due (calm t) (sweep_set (calm t) r)" and "row_ok (sweep_set (calm t) r)"
    and "observed_state (\<lambda>_. t) (sweep_set (calm t) r) = observed_state (\<lambda>_. t) r"
proof -
  from assms obtain l u where d: "lease_expires_at r = Some l" "recovery_until r = Some u" "l < u" "state r = Leased \<or> state r = Recovering"
    by (auto simp: row_inv_def row_ok_def deadline_ok_def due_def passed_def split: option.splits)
  show "\<not> due (calm t) (sweep_set (calm t) r)" by (auto simp: due_def sweep_set_def passed_def)
  show "row_ok (sweep_set (calm t) r)"
    using assms(1) d by (auto simp: row_inv_def row_ok_def sweep_set_def owned_state_ok_def deadline_ok_def)
  show "observed_state (\<lambda>_. t) (sweep_set (calm t) r) = observed_state (\<lambda>_. t) r"
    using assms(2) d by (auto simp: observed_state_def sweep_set_def passed_def due_def)
qed

lemma settled_row:
  assumes "row_inv r" and "\<not> due (calm t) r"
  shows "observed_state (\<lambda>_. t) r = state r"
proof -
  have "passed (recovery_until r) t \<Longrightarrow> passed (lease_expires_at r) t"
    using assms(1) by (auto simp: row_inv_def row_ok_def deadline_ok_def passed_def split: option.splits)
  then show ?thesis using assms(2) by (auto simp: observed_state_def due_def)
qed

text \<open>One sweep in a calm database moves exactly its batch.\<close>

lemma sweep_effect:
  assumes "db_ok cd db"
  shows "snd (SweepRecovery (calm t) db) = db\<lparr>executions := map (\<lambda>r. if r \<in> set (sweep_batch (calm t) db)
    then sweep_set (calm t) r else r) (executions db)\<rparr>"
proof -
  note rows = db_okD(1) [OF assms]
  let ?B = "sweep_batch (calm t) db" and ?f = "sweep_set (calm t)"
  have same: "x_id r \<in> x_id ` set ?B \<longleftrightarrow> r \<in> set ?B" if "r \<in> set (executions db)" for r
  proof
    assume "x_id r \<in> x_id ` set ?B"
    then obtain b where b: "b \<in> set ?B" "x_id r = x_id b" by auto
    then show "r \<in> set ?B" using row_of_id [OF rows that, of b] sweep_batch_sub [OF b(1)] by simp
  qed simp
  have "\<not> (\<exists>r \<in> set (executions db). x_id r \<in> x_id ` set ?B \<and> \<not> row_ok (?f r))"
    using same sweep_batch_sub [of _ "calm t" db] swept_row(2) [OF rows_inv [OF rows]] by blast
  then have "update_executions (\<lambda>r. x_id r \<in> x_id ` set ?B) ?f db =
      Some (db\<lparr>executions := map (\<lambda>r. if r \<in> set ?B then ?f r else r) (executions db)\<rparr>)"
    using same by (simp add: update_executions_def update_where_def)
  then show ?thesis by (simp add: SweepRecovery_def autocommit_def run_tx_def Let_def)
qed

definition due_rows :: "int \<Rightarrow> queue_db \<Rightarrow> exec_row list" where
  "due_rows t db = filter (due (calm t)) (executions db)"

lemma length_filter_map:
  "(\<And>x. x \<in> set xs \<Longrightarrow> P (g x) \<longleftrightarrow> Q x) \<Longrightarrow> length (filter P (map g xs)) = length (filter Q xs)"
  by (induction xs) auto

lemma sweep_due_count:
  assumes "db_ok cd db"
  shows "length (due_rows t (snd (SweepRecovery (calm t) db))) = length (due_rows t db) - 256"
proof -
  note rows = db_okD(1) [OF assms]
  let ?B = "sweep_batch (calm t) db" and ?D = "due_rows t db"
  have B: "?B = take 256 (sort_key (\<lambda>r. coalesce (lease_expires_at r) 0) ?D)"
    by (simp add: sweep_batch_def due_rows_def)
  have dD: "distinct ?D" using rows_distinct [OF rows] by (simp add: due_rows_def)
  then have cB: "card (set ?B) = min 256 (length ?D)" unfolding B by (simp add: distinct_card)
  have sub: "set ?B \<subseteq> set ?D" unfolding B by (metis set_sort set_take_subset)
  have left: "due (calm t) (if r \<in> set ?B then sweep_set (calm t) r else r) \<longleftrightarrow> due (calm t) r \<and> r \<notin> set ?B"
    if "r \<in> set (executions db)" for r
    using swept_row(1) [OF rows_inv [OF rows that]] sub by (auto simp: due_rows_def)
  have ex: "executions (snd (SweepRecovery (calm t) db)) =
      map (\<lambda>r. if r \<in> set ?B then sweep_set (calm t) r else r) (executions db)"
    by (simp add: sweep_effect [OF assms])
  have "length (due_rows t (snd (SweepRecovery (calm t) db)))
      = length (filter (\<lambda>r. due (calm t) r \<and> r \<notin> set ?B) (executions db))"
    unfolding due_rows_def ex by (rule length_filter_map) (rule left)
  also have "\<dots> = card (set (filter (\<lambda>r. due (calm t) r \<and> r \<notin> set ?B) (executions db)))"
    using rows_distinct [OF rows] by (simp add: distinct_card del: set_filter)
  also have "set (filter (\<lambda>r. due (calm t) r \<and> r \<notin> set ?B) (executions db)) = set ?D - set ?B"
    by (auto simp: due_rows_def)
  also have "card (set ?D - set ?B) = length ?D - 256"
    using sub cB dD by (simp add: card_Diff_subset distinct_card)
  finally show ?thesis .
qed

lemma sweep_observed:
  assumes "db_ok cd db"
  shows "map (observed_state (\<lambda>_. t)) (executions (snd (SweepRecovery (calm t) db))) = map (observed_state (\<lambda>_. t)) (executions db)"
proof -
  note rows = db_okD(1) [OF assms]
  have "observed_state (\<lambda>_. t) (if r \<in> set (sweep_batch (calm t) db) then sweep_set (calm t) r else r) = observed_state (\<lambda>_. t) r"
    if "r \<in> set (executions db)" for r
    using swept_row(3) [OF rows_inv [OF rows that]] sweep_batch_sub [of r "calm t" db] by auto
  then show ?thesis unfolding sweep_effect [OF assms] by (simp add: comp_def)
qed

text \<open>\<open>k\<close> successive sweeps while the database clock reads \<open>t\<close>.\<close>

fun sweeps :: "nat \<Rightarrow> int \<Rightarrow> queue_db \<Rightarrow> queue_db" where
  "sweeps 0 t db = db"
| "sweeps (Suc k) t db = sweeps k t (snd (SweepRecovery (calm t) db))"

lemma sweeps_converge_aux:
  assumes "db_ok cd db" and "length (due_rows t db) \<le> 256 * k"
  shows "map state (executions (sweeps k t db)) = map (observed_state (\<lambda>_. t)) (executions db)"
  using assms
proof (induction k arbitrary: db)
  case 0
  have "\<not> due (calm t) r" if "r \<in> set (executions db)" for r
    using 0(2) that by (auto simp: due_rows_def filter_empty_conv)
  then show ?case using settled_row [OF rows_inv [OF db_okD(1) [OF 0(1)]]] by simp
next
  case (Suc k)
  have "db_ok cd (snd (SweepRecovery (calm t) db))"
    using evolves_db_ok [OF Suc.prems(1) SweepRecovery_evolves [OF Suc.prems(1)]] .
  then show ?case using Suc.IH sweep_due_count [OF Suc.prems(1)] sweep_observed [OF Suc.prems(1)] Suc.prems(2) by simp
qed

text \<open>
  C33. The bounded background sweep converges to what readers already report: once there have been
  as many sweeps as batches of 256 due rows, every row's stored state is the state that \<open>Get\<close> and
  \<open>Outstanding\<close> computed for it from the deadlines.
\<close>

theorem sweeps_reach_observed_state:
  assumes "queue_run s cd sha256 empty_db db" and "length (due_rows t db) \<le> 256 * k"
    and "i < length (executions db)"
  shows "state (executions (sweeps k t db) ! i) = observed_state (\<lambda>_. t) (executions db ! i)"
proof -
  note m = sweeps_converge_aux [OF run_db_ok [OF assms(1)] assms(2)]
  then have "length (executions (sweeps k t db)) = length (executions db)" by (metis length_map)
  then show ?thesis using arg_cong [OF m, of "\<lambda>xs. xs ! i"] assms(3) by simp
qed

theorem sweeps_reach_observed_state_witness:
  "state (executions (sweeps 1 130000000 (sample_db\<lparr>executions := [sample_leased]\<rparr>)) ! 0) = Recovering"
proof -
  have "length (due_rows 130000000 (sample_db\<lparr>executions := [sample_leased]\<rparr>)) \<le> 256 * 1"
    by (simp add: due_rows_def)
  from sweeps_reach_observed_state [OF sample_leased_run this, of 0] show ?thesis
    by (simp add: observed_state_def sample_leased_def passed_def)
qed

end
