(* ===== verification/SandboxInit.thy ===== *)
theory SandboxInit
  imports OutputExtraction QueueProperties
begin

text \<open>
  init_linux.go: the trusted Init process of a Sandbox. It captures a Workload's output within a byte
  budget, reaps every descendant, extracts the declared outputs and answers the Supervisor in the
  phases started, exited, ready. System calls, pipes and child statuses are inputs of the model.
\<close>

unbundle bit_operations_syntax

section \<open>Requests\<close>

record initRequest =
  Action :: bytes
  i_Source :: bytes
  i_Stdin :: bytes
  i_StdoutBytes :: int
  i_StderrBytes :: int
  i_OutputPaths :: "bytes list"
  OutputFileBytes :: int
  OutputTotalBytes :: int

text \<open>The guard of the request loop of \<open>RunInit\<close>.\<close>

definition start_request_ok :: "initRequest \<Rightarrow> bool" where
  "start_request_ok request =
     (\<not> (Action request \<noteq> ''start'' \<or> i_Source request = [] \<or> nul \<in> set (i_Source request) \<or>
        int (length (i_Source request)) > 32 * 1024 \<or> int (length (i_Stdin request)) > 8 * 1024 \<or>
        \<not> validOutputBudget (i_StdoutBytes request) \<or> \<not> validOutputBudget (i_StderrBytes request) \<or>
        \<not> validOutputPaths (i_OutputPaths request) \<or>
        OutputFileBytes request \<le> 0 \<or> OutputFileBytes request > int maximumExtractionBytes \<or>
        OutputTotalBytes request < 0 \<or> OutputTotalBytes request > int maximumExtractionBytes))"

text \<open>\<open>requireInitAction\<close>; a message is \<open>None\<close> when reading or decoding it failed.\<close>

definition requireInitAction :: "initRequest option \<Rightarrow> bytes \<Rightarrow> bool" where
  "requireInitAction message action =
     (case message of
        None \<Rightarrow> False
      | Some request \<Rightarrow>
         \<not> (Action request \<noteq> action \<or> i_Source request \<noteq> [] \<or> i_Stdin request \<noteq> [] \<or> i_StdoutBytes request \<noteq> 0 \<or>
            i_StderrBytes request \<noteq> 0 \<or> length (i_OutputPaths request) \<noteq> 0 \<or> OutputFileBytes request \<noteq> 0 \<or>
            OutputTotalBytes request \<noteq> 0))"

section \<open>Reaping\<close>

text \<open>Go's \<^verbatim>\<open>syscall.WaitStatus\<close> on Linux.\<close>

definition Signaled :: "32 word \<Rightarrow> bool" where
  "Signaled w \<longleftrightarrow> w AND 0x7F \<noteq> 0x7F \<and> w AND 0x7F \<noteq> 0"

definition Signal :: "32 word \<Rightarrow> int" where
  "Signal w = (if \<not> Signaled w then -1 else uint (w AND 0x7F))"

definition ExitStatus :: "32 word \<Rightarrow> int" where
  "ExitStatus w = (if w AND 0x7F \<noteq> 0 then -1 else uint (drop_bit 8 w AND 0xFF))"

text \<open>
  One iteration: what \<^verbatim>\<open>wait4(-1, WNOHANG)\<close> answers and, when no child changed, what the
  \<^verbatim>\<open>select\<close> receives. A request is always an error there.
\<close>

datatype select_result = SelChildren | SelRequest | SelTimeout
datatype wait4_result =
    WaitInterrupted
  | WaitNoChild
  | WaitError
  | WaitChild int "32 word"
  | WaitNothing select_result

fun waitInitChildren :: "int \<Rightarrow> wait4_result list \<Rightarrow> (unit + int) option" where
  "waitInitChildren mainPID [] = None"
| "waitInitChildren mainPID (WaitInterrupted # ws) = waitInitChildren mainPID ws"
| "waitInitChildren mainPID (WaitNoChild # ws) = (if mainPID = 0 then Some (Inr 0) else Some (Inl ()))"
| "waitInitChildren mainPID (WaitError # ws) = Some (Inl ())"
| "waitInitChildren mainPID (WaitChild pid status # ws) =
     (if pid = mainPID \<and> pid \<noteq> 0
      then Some (Inr (if Signaled status then 128 + Signal status else ExitStatus status))
      else waitInitChildren mainPID ws)"
| "waitInitChildren mainPID (WaitNothing SelChildren # ws) = waitInitChildren mainPID ws"
| "waitInitChildren mainPID (WaitNothing SelRequest # ws) = Some (Inl ())"
| "waitInitChildren mainPID (WaitNothing SelTimeout # ws) =
     (if mainPID = 0 then Some (Inl ()) else waitInitChildren mainPID ws)"

lemma status_bits: "0 \<le> uint (w AND (0x7F :: 32 word)) \<and> uint (w AND (0x7F :: 32 word)) \<le> 127"
    "0 \<le> uint (w AND (0xFF :: 32 word)) \<and> uint (w AND (0xFF :: 32 word)) \<le> 255"
  using word_and_le1 [of w "0x7F :: 32 word"] word_and_le1 [of w "0xFF :: 32 word"]
  by (simp_all add: word_le_def)

lemma uint_above: "- 1 \<le> uint (w :: 32 word)"
  by (rule order_trans [OF _ uint_ge_0]) simp

lemma wait_exit_code:
  "waitInitChildren mainPID ws = Some (Inr code) \<Longrightarrow> -1 \<le> code \<and> code \<le> 255"
proof (induction mainPID ws rule: waitInitChildren.induct)
  case (5 mainPID pid status ws)
  then show ?case
    using status_bits(1) [of status] status_bits(2) [of "drop_bit 8 status"]
    by (auto simp: Signal_def ExitStatus_def uint_above split: if_splits)
qed (auto split: if_splits)

text \<open>The final reaping succeeds only when the kernel says that no child is left.\<close>

lemma reap_complete: "waitInitChildren 0 ws = Some (Inr code) \<Longrightarrow> WaitNoChild \<in> set ws \<and> code = 0"
  by (induction "0 :: int" ws rule: waitInitChildren.induct) (auto split: if_splits)

section \<open>Captured output\<close>

definition replacement_char :: bytes where "replacement_char = [CHR 0xEF, CHR 0xBF, CHR 0xBD]"

text \<open>\<^verbatim>\<open>strings.ToValidUTF8\<close>: each run of bytes that start no valid sequence becomes one replacement.\<close>

function to_valid_loop :: "bool \<Rightarrow> bytes \<Rightarrow> bytes" where
  "to_valid_loop invalid s =
     (if s = [] then []
      else if utf8_width s = 0 then (if invalid then [] else replacement_char) @ to_valid_loop True (tl s)
      else take (utf8_width s) s @ to_valid_loop False (drop (utf8_width s) s))"
  by pat_completeness auto
termination by (relation "measure (\<lambda>(_, s). length s)") auto

declare to_valid_loop.simps [simp del]

definition ToValidUTF8 :: "bytes \<Rightarrow> bytes" where "ToValidUTF8 s = to_valid_loop False s"

text \<open>The loop that cuts the text back to valid UTF-8.\<close>

function cut_invalid :: "bytes \<Rightarrow> bytes" where
  "cut_invalid s = (if utf8_valid s then s else cut_invalid (butlast s))"
  by pat_completeness auto
termination
proof (relation "measure length")
  fix s :: bytes assume "\<not> utf8_valid s"
  then have "s \<noteq> []" by auto
  then show "(butlast s, s) \<in> measure length" by simp
qed simp

declare cut_invalid.simps [simp del]

datatype read_status = ReadMore | ReadEOF | ReadError

fun capture_loop :: "nat \<Rightarrow> bytes \<Rightarrow> bool \<Rightarrow> (bytes \<times> read_status) list \<Rightarrow> (bytes \<times> bool \<times> bool) option" where
  "capture_loop budget retained truncated [] = None"
| "capture_loop budget retained truncated ((buffer, st) # rs) =
     (let remaining = budget - length retained;
          truncated' = (truncated \<or> length buffer > remaining);
          retained' = retained @ take (min (length buffer) remaining) buffer
      in case st of
           ReadMore \<Rightarrow> capture_loop budget retained' truncated' rs
         | ReadEOF \<Rightarrow> Some (retained', truncated', False)
         | ReadError \<Rightarrow> Some (retained', truncated', True))"

record initOutput =
  o_text :: bytes
  o_truncated :: bool
  o_err :: bool

definition captureInitOutput :: "(bytes \<times> read_status) list \<Rightarrow> nat \<Rightarrow> initOutput option" where
  "captureInitOutput reads budget =
     (case capture_loop budget [] False reads of
        None \<Rightarrow> None
      | Some (retained, truncated, err) \<Rightarrow>
         (let text = ToValidUTF8 retained in
          if length text > budget
          then Some \<lparr>o_text = cut_invalid (take budget text), o_truncated = True, o_err = err\<rparr>
          else Some \<lparr>o_text = text, o_truncated = truncated, o_err = err\<rparr>))"

section \<open>Captured text is bounded and valid\<close>

lemma utf8_width_shape:
  assumes "utf8_width s \<noteq> 0"
  obtains c t where "s = c # t" "utf8_width s = 1" "byte c < 0x80"
  | c c1 t where "s = c # c1 # t" "utf8_width s = 2" "0xC2 \<le> byte c" "byte c \<le> 0xDF" "second_ok (byte c) c1"
  | c c1 c2 t where "s = c # c1 # c2 # t" "utf8_width s = 3" "0xE0 \<le> byte c" "byte c \<le> 0xEF" "second_ok (byte c) c1" "cont_byte c2"
  | c c1 c2 c3 t where "s = c # c1 # c2 # c3 # t" "utf8_width s = 4" "0xF0 \<le> byte c" "byte c \<le> 0xF4"
      "second_ok (byte c) c1" "cont_byte c2" "cont_byte c3"
proof -
  obtain c r where s: "s = c # r" using assms by (cases s) (simp_all add: utf8_width_def)
  note w = assms [unfolded s utf8_width_def, simplified Let_def list.case]
  consider "byte c < 0x80" | "0xC2 \<le> byte c" "byte c \<le> 0xDF" | "0xE0 \<le> byte c" "byte c \<le> 0xEF"
    | "0xF0 \<le> byte c" "byte c \<le> 0xF4" using w by (auto split: if_splits)
  then show ?thesis
  proof cases
    case 1
    then show ?thesis using that(1) s by (simp add: utf8_width_def)
  next
    case 2
    then show ?thesis using that(2) s w by (cases r) (auto simp: utf8_width_def split: if_splits)
  next
    case 3
    then obtain c1 c2 t where "r = c1 # c2 # t" "second_ok (byte c) c1" "cont_byte c2"
      using w by (auto split: list.splits if_splits)
    then show ?thesis using 3 that(3) s by (simp add: utf8_width_def)
  next
    case 4
    then obtain c1 c2 c3 t where "r = c1 # c2 # c3 # t" "second_ok (byte c) c1" "cont_byte c2" "cont_byte c3"
      using w by (auto split: list.splits if_splits)
    then show ?thesis using 4 that(4) s by (simp add: utf8_width_def)
  qed
qed

lemma utf8_width_local:
  assumes "utf8_width s \<noteq> 0"
  shows "utf8_width (take (utf8_width s) s @ t) = utf8_width s" and "utf8_width s \<le> length s"
  using assms by (cases rule: utf8_width_shape; simp add: utf8_width_def)+

lemma utf8_valid_chunk:
  assumes "utf8_width s \<noteq> 0"
  shows "utf8_valid (take (utf8_width s) s @ t) = utf8_valid t"
proof -
  have "take (utf8_width s) s @ t \<noteq> []" using assms by (auto simp: utf8_width_def)
  moreover have "drop (utf8_width s) (take (utf8_width s) s @ t) = t"
    using utf8_width_local(2) [OF assms] by simp
  ultimately show ?thesis
    by (subst utf8_valid.simps) (simp add: utf8_width_local(1) [OF assms] assms)
qed

lemma utf8_valid_replacement: "utf8_valid (replacement_char @ t) = utf8_valid t"
proof -
  have "utf8_width replacement_char = 3" by code_simp
  then show ?thesis using utf8_valid_chunk [of replacement_char t] by (simp add: replacement_char_def)
qed

lemma to_valid_loop_valid: "utf8_valid (to_valid_loop invalid s)"
proof (induction invalid s rule: to_valid_loop.induct)
  case (1 invalid s)
  then show ?case
    by (subst to_valid_loop.simps) (simp add: utf8_valid_replacement utf8_valid_chunk)
qed

lemma to_valid_loop_id: "utf8_valid s \<Longrightarrow> to_valid_loop invalid s = s"
proof (induction invalid s rule: to_valid_loop.induct)
  case (1 invalid s)
  show ?case
  proof (cases "s = []")
    case False
    then have w: "utf8_width s \<noteq> 0" and v: "utf8_valid (drop (utf8_width s) s)"
      using "1.prems" by (subst (asm) utf8_valid.simps, simp split: if_splits)+
    then show ?thesis using False "1.IH"(2) by (subst to_valid_loop.simps) simp
  qed (subst to_valid_loop.simps, simp)
qed

lemma cut_invalid_facts: "utf8_valid (cut_invalid s) \<and> (\<exists>t. s = cut_invalid s @ t)"
proof (induction s rule: cut_invalid.induct)
  case (1 s)
  show ?case
  proof (cases "utf8_valid s")
    case True
    then show ?thesis by (subst (1 2) cut_invalid.simps) simp
  next
    case False
    then have ne: "s \<noteq> []" and c: "cut_invalid s = cut_invalid (butlast s)"
      by (auto simp: cut_invalid.simps [of s])
    obtain t where "butlast s = cut_invalid (butlast s) @ t" and "utf8_valid (cut_invalid (butlast s))"
      using 1 [OF False] by blast
    then have "s = cut_invalid (butlast s) @ (t @ [last s])" using ne by (metis append.assoc append_butlast_last_id)
    then show ?thesis using c \<open>utf8_valid (cut_invalid (butlast s))\<close> by metis
  qed
qed

text \<open>All the bytes a reader yields up to its first end or error.\<close>

fun drained :: "(bytes \<times> read_status) list \<Rightarrow> bytes" where
  "drained [] = []"
| "drained ((buffer, ReadMore) # rs) = buffer @ drained rs"
| "drained ((buffer, st) # rs) = buffer"

lemma capture_loop_facts:
  "capture_loop budget retained truncated rs = Some (r, t, e) \<Longrightarrow> length retained \<le> budget \<Longrightarrow>
     r = take budget (retained @ drained rs) \<and> (t \<longleftrightarrow> truncated \<or> length (retained @ drained rs) > budget)"
proof (induction budget retained truncated rs rule: capture_loop.induct)
  case (2 budget retained truncated buffer st rs)
  show ?case
  proof (cases st)
    case ReadMore
    let ?r = "retained @ take (min (length buffer) (budget - length retained)) buffer"
    let ?t = "truncated \<or> length buffer > budget - length retained"
    have "r = take budget (?r @ drained rs) \<and> (t \<longleftrightarrow> ?t \<or> length (?r @ drained rs) > budget)"
      using "2.prems" ReadMore by (intro "2.IH") (auto simp: Let_def)
    moreover have "take budget (?r @ drained rs) = take budget (retained @ buffer @ drained rs)"
      using "2.prems"(2) by (auto simp: min_def)
    ultimately show ?thesis using ReadMore "2.prems"(2) by (auto simp: min_def)
  qed (use "2.prems" in \<open>auto simp: Let_def min_def\<close>)
qed simp

lemma captured_facts:
  assumes "captureInitOutput reads budget = Some out"
  shows "utf8_valid (o_text out) \<and> length (o_text out) \<le> budget \<and>
    (length (drained reads) > budget \<longrightarrow> o_truncated out) \<and>
    (utf8_valid (drained reads) \<and> length (drained reads) \<le> budget \<longrightarrow> o_text out = drained reads \<and> \<not> o_truncated out)"
proof -
  obtain r t e where c: "capture_loop budget [] False reads = Some (r, t, e)"
    using assms by (auto simp: captureInitOutput_def split: option.splits)
  have r: "r = take budget (drained reads)" "t \<longleftrightarrow> length (drained reads) > budget"
    using capture_loop_facts [OF c] by simp_all
  let ?v = "ToValidUTF8 r"
  obtain s where s: "take budget ?v = cut_invalid (take budget ?v) @ s" and v: "utf8_valid (cut_invalid (take budget ?v))"
    using cut_invalid_facts [of "take budget ?v"] by blast
  have l: "length (cut_invalid (take budget ?v)) \<le> budget"
    using arg_cong [OF s, of length] by simp
  have id: "utf8_valid (drained reads) \<and> length (drained reads) \<le> budget \<Longrightarrow> ?v = drained reads"
    using to_valid_loop_id by (simp add: ToValidUTF8_def r(1))
  show ?thesis
  proof (cases "length ?v > budget")
    case True
    then show ?thesis using assms c v l id by (auto simp: captureInitOutput_def)
  next
    case False
    then have o: "out = \<lparr>o_text = ?v, o_truncated = t, o_err = e\<rparr>"
      using assms c by (simp add: captureInitOutput_def)
    show ?thesis using False id r(2) to_valid_loop_valid by (auto simp: o ToValidUTF8_def)
  qed
qed



section \<open>One Workload\<close>

text \<open>
  What the kernel, the Supervisor and the Workload do during one Workload, in the order Init asks. The
  wait for a captured stream ends with the capture, a premature request, or the five second timer.
\<close>

datatype await = AwaitOutput | AwaitRequest | AwaitTimeout

record workload_env =
  w_pipes :: bool
  w_start :: "int option"
  w_send_started :: bool
  w_run_message :: "initRequest option"
  w_gate :: bool
  w_main_waits :: "wait4_result list"
  w_send_exited :: bool
  w_reap_message :: "initRequest option"
  w_reap_waits :: "wait4_result list"
  w_stdout :: "(bytes \<times> read_status) list"
  w_stdout_await :: await
  w_stderr :: "(bytes \<times> read_status) list"
  w_stderr_await :: await
  w_files :: "bytes \<Rightarrow> extract_env"
  w_root :: "(nat \<times> u64) option"
  w_send_ready :: bool

definition awaitInitOutput :: "await \<Rightarrow> initOutput option \<Rightarrow> initOutput option" where
  "awaitInitOutput how captured =
     (case how of
        AwaitOutput \<Rightarrow> (case captured of None \<Rightarrow> None | Some out \<Rightarrow> if o_err out then None else Some out)
      | AwaitRequest \<Rightarrow> None
      | AwaitTimeout \<Rightarrow> None)"

definition blank_response :: "bytes \<Rightarrow> initResponse" where
  "blank_response phase = \<lparr>Phase = phase, PID = 0, i_ExitCode = 0, i_Stdout = [], i_Stderr = [], i_Truncated = False,
     i_StdoutTruncated = False, i_StderrTruncated = False, i_Outputs = [], i_OutputError = []\<rparr>"

text \<open>
  \<open>executeInitWorkload\<close>: the responses it wrote and whether it returned without error. \<open>None\<close> is a
  Workload whose children are still being waited for.
\<close>

definition executeInitWorkload :: "(bytes \<Rightarrow> bytes) \<Rightarrow> initRequest \<Rightarrow> workload_env \<Rightarrow> (initResponse list \<times> bool) option" where
  "executeInitWorkload sha256 request env =
     (if \<not> w_pipes env then Some ([], False)
      else case w_start env of
        None \<Rightarrow> Some ([], False)
      | Some pid \<Rightarrow>
     (let started = (blank_response ''started'')\<lparr>PID := pid\<rparr> in
      if \<not> w_send_started env then Some ([], False)
      else if \<not> requireInitAction (w_run_message env) ''run'' then Some ([started], False)
      else if \<not> w_gate env then Some ([started], False)
      else case waitInitChildren pid (w_main_waits env) of
        None \<Rightarrow> None
      | Some (Inl _) \<Rightarrow> Some ([started], False)
      | Some (Inr exitCode) \<Rightarrow>
     (let exited = (blank_response ''exited'')\<lparr>i_ExitCode := exitCode\<rparr> in
      if \<not> w_send_exited env then Some ([started], False)
      else if \<not> requireInitAction (w_reap_message env) ''reap'' then Some ([started, exited], False)
      else case waitInitChildren 0 (w_reap_waits env) of
        None \<Rightarrow> None
      | Some (Inl _) \<Rightarrow> Some ([started, exited], False)
      | Some (Inr _) \<Rightarrow>
     (case awaitInitOutput (w_stdout_await env) (captureInitOutput (w_stdout env) (nat (i_StdoutBytes request))) of
        None \<Rightarrow> Some ([started, exited], False)
      | Some stdout \<Rightarrow>
     (case awaitInitOutput (w_stderr_await env) (captureInitOutput (w_stderr env) (nat (i_StderrBytes request))) of
        None \<Rightarrow> Some ([started, exited], False)
      | Some stderr \<Rightarrow>
     (let (outputs, outputError) = extractDeclaredOutputs sha256 (w_files env) (w_root env) (i_OutputPaths request)
            (OutputFileBytes request) (OutputTotalBytes request);
          ready = \<lparr>Phase = ''ready'', PID = 0, i_ExitCode = exitCode, i_Stdout = o_text stdout, i_Stderr = o_text stderr,
            i_Truncated = (o_truncated stdout \<or> o_truncated stderr), i_StdoutTruncated = o_truncated stdout,
            i_StderrTruncated = o_truncated stderr, i_Outputs = outputs, i_OutputError = outputError\<rparr>
      in if \<not> w_send_ready env then Some ([started, exited], False)
         else Some ([started, exited, ready], True)))))))"

text \<open>
  The request loop of \<open>RunInit\<close> after its startup checks: each round receives a message and runs its
  Workload. The result lists every response; \<open>True\<close> means that Init still serves requests.
\<close>

fun init_rounds :: "(bytes \<Rightarrow> bytes) \<Rightarrow> (initRequest option \<times> workload_env) list \<Rightarrow> initResponse list \<times> bool" where
  "init_rounds sha256 [] = ([], True)"
| "init_rounds sha256 ((message, env) # rounds) =
     (case message of
        None \<Rightarrow> ([], False)
      | Some request \<Rightarrow>
         (if \<not> start_request_ok request then ([], False)
          else case executeInitWorkload sha256 request env of
            None \<Rightarrow> ([], True)
          | Some (responses, False) \<Rightarrow> (responses, False)
          | Some (responses, True) \<Rightarrow> (let (more, alive) = init_rounds sha256 rounds in (responses @ more, alive))))"

text \<open>The start request \<open>execute\<close> sends.\<close>

definition start_request :: "ResourceBudget \<Rightarrow> bytes \<Rightarrow> bytes \<Rightarrow> bytes list \<Rightarrow> int \<Rightarrow> initRequest" where
  "start_request budget source stdin paths extractionBytes =
     \<lparr>Action = ''start'', i_Source = source, i_Stdin = stdin, i_StdoutBytes = StdoutBytes budget,
      i_StderrBytes = StderrBytes budget, i_OutputPaths = paths, OutputFileBytes = FileBytes (Extraction budget),
      OutputTotalBytes = extractionBytes\<rparr>"

lemma workload_ready:
  assumes "executeInitWorkload sha256 request env = Some (responses, True)"
  obtains pid exitCode stdout stderr outputs outputError where
    "map Phase responses = [''started'', ''exited'', ''ready'']"
    "waitInitChildren pid (w_main_waits env) = Some (Inr exitCode)" "waitInitChildren 0 (w_reap_waits env) = Some (Inr 0)"
    "captureInitOutput (w_stdout env) (nat (i_StdoutBytes request)) = Some stdout"
    "captureInitOutput (w_stderr env) (nat (i_StderrBytes request)) = Some stderr"
    "extractDeclaredOutputs sha256 (w_files env) (w_root env) (i_OutputPaths request)
       (OutputFileBytes request) (OutputTotalBytes request) = (outputs, outputError)"
    "last responses = \<lparr>Phase = ''ready'', PID = 0, i_ExitCode = exitCode, i_Stdout = o_text stdout, i_Stderr = o_text stderr,
       i_Truncated = (o_truncated stdout \<or> o_truncated stderr), i_StdoutTruncated = o_truncated stdout,
       i_StderrTruncated = o_truncated stderr, i_Outputs = outputs, i_OutputError = outputError\<rparr>"
proof -
  have aw: "awaitInitOutput how c = Some out \<Longrightarrow> c = Some out" for how c out
    by (auto simp: awaitInitOutput_def split: await.splits option.splits if_splits)
  show ?thesis
    using assms
    by (auto simp: executeInitWorkload_def blank_response_def Let_def
        split: if_splits option.splits sum.splits prod.splits dest!: aw intro!: that dest: reap_complete)
qed

section \<open>From the Workload to the queue\<close>

lemma extracted_nonneg: "0 \<le> extractedOutputBytes outs"
  by (induction outs) (simp_all add: extractedOutputBytes_def)

lemma outputs_ok_extracted:
  "list_all (\<lambda>out. Size out = int (length (Content out)) \<and> Size out \<le> fb \<and> SHA256 out = hex_encode (sha256 (Content out))) outs \<Longrightarrow>
     0 \<le> acc \<Longrightarrow> acc + extractedOutputBytes outs \<le> 32 * MiB \<Longrightarrow> outputs_ok sha256 acc outs"
proof (induction outs arbitrary: acc)
  case (Cons out outs)
  have "acc + Size out + extractedOutputBytes outs \<le> 32 * MiB"
    using Cons.prems by (simp add: extractedOutputBytes_def)
  then show ?case using Cons.prems Cons.IH [of "acc + Size out"] extracted_nonneg [of outs] by simp
qed simp

lemma validResult_intro:
  assumes "int (length (Stdout r)) \<le> 8 * MiB" "int (length (Stderr r)) \<le> 8 * MiB" "-1 \<le> ExitCode r" "ExitCode r \<le> 255"
    and "length (Outputs r) \<le> 16" "Truncated r \<longleftrightarrow> StdoutTruncated r \<or> StderrTruncated r"
    and "TerminalReason r \<in> {ExecutionExited, ExecutionMemoryLimit, ExecutionPIDLimit, ExecutionTimedOut}"
    and "OutputError r \<noteq> [] \<Longrightarrow> OutputError r \<in> {OutputUnsafe, OutputLimit, OutputUnavailable} \<and> Outputs r = []"
    and "outputs_ok sha256 0 (Outputs r)"
  shows "validResult sha256 r"
  using assms by (auto simp: validResult_def)

lemma start_request_accepted:
  assumes "budget_validate page budget" and "0 \<le> used" and "used \<le> SandboxBytes (Extraction budget)"
    and "validOutputPaths paths" and "source \<noteq> []" and "nul \<notin> set source"
    and "int (length source) \<le> 32 * 1024" and "int (length stdin) \<le> 8 * 1024"
  shows "start_request_ok (start_request budget source stdin paths (allowance (Extraction budget) paths used))"
proof -
  note b = budget_output_bounds [OF assms(1)]
  have "0 < FileBytes (Extraction budget)" "FileBytes (Extraction budget) \<le> int maximumExtractionBytes"
    using b(5) by (auto simp: extraction_validate_def split: if_splits)
  then show ?thesis
    using b(1-4) assms(4-8) allowance_bounds [OF b(5) assms(2,3), of paths]
    by (simp add: start_request_ok_def start_request_def validOutputBudget_def)
qed

text \<open>
  C19. End to end: for a request the Supervisor accepted under a validated budget, Init never rejects the
  start request it is sent, and every result the Supervisor freezes from Init's answer (or from the
  loss of Init) is a report that the queue's independent validation accepts for the same declared
  outputs. So no Execution is lost between the two sides because one is stricter than the other.
\<close>

theorem report_accepted_by_queue:
  assumes budget: "budget_validate page budget" "0 \<le> used" "used \<le> SandboxBytes (Extraction budget)"
    and request: "validOutputPaths paths" "source \<noteq> []" "nul \<notin> set source"
      "int (length source) \<le> 32 * 1024" "int (length stdin) \<le> 8 * 1024"
    and alloc: "alloc = allowance (Extraction budget) paths used"
    and run: "execute_run sha256 budget xid paths alloc env = Some (Inr r, killed)"
    and init: "\<not> killed \<Longrightarrow> e_ready env = Some (last responses) \<and>
      executeInitWorkload sha256 (start_request budget source stdin paths alloc) wenv = Some (responses, True)"
    and frozen: "freeze_snapshot paths (Inr r) = Inr s"
  shows "start_request_ok (start_request budget source stdin paths alloc) \<and> validResult sha256 s \<and>
    (x_OutputPaths e = paths \<longrightarrow> outputs_match e s)"
proof -
  note b = budget_output_bounds [OF budget(1)]
  have al: "0 \<le> alloc" "alloc \<le> 32 * MiB"
    using allowance_bounds [OF b(5) budget(2,3), of paths] by (simp_all add: alloc maximumExtractionBytes_def)
  note truth = execution_result_facts [OF run frozen al(1)]
  have reason: "TerminalReason s \<in> {ExecutionExited, ExecutionMemoryLimit, ExecutionPIDLimit, ExecutionTimedOut}"
    and declared: "if OutputError s = [] then map Path (Outputs s) = paths
     else paths \<noteq> [] \<and> Outputs s = [] \<and> OutputError s \<in> {OutputUnsafe, OutputLimit, OutputUnavailable}"
    using truth by blast+
  then have err: "OutputError s \<noteq> [] \<Longrightarrow> OutputError s \<in> {OutputUnsafe, OutputLimit, OutputUnavailable} \<and> Outputs s = []"
    by (simp split: if_splits)
  have few: "length (Outputs s) \<le> 16"
    using declared request(1) by (auto simp: validOutputPaths_def maximumExtractedFiles_def split: if_splits)
  obtain before after usage timedOut waitErr where
    k: "killed \<longrightarrow> terminal_reason usage timedOut \<noteq> ExecutionExited \<and> r = incomplete_result xid (terminal_reason usage timedOut) usage"
    and c: "\<not> killed \<longrightarrow> (\<exists>result. e_ready env = Some result \<and> Phase result = ''ready'' \<and>
       validExtractedOutputs sha256 result paths (FileBytes (Extraction budget)) alloc \<and>
       r = complete_result xid (terminal_reason usage timedOut) usage result)"
    using run by (rule execute_run_result) blast
  have s: "s = (if paths \<noteq> [] \<and> Outputs r = [] \<and> OutputError r = [] then r\<lparr>OutputError := OutputUnavailable\<rparr> else r)"
    using frozen by (simp add: freeze_Inr)
  have "validResult sha256 s"
  proof (cases killed)
    case True
    then have r: "r = incomplete_result xid (terminal_reason usage timedOut) usage" using k by simp
    have "Stdout s = []" "Stderr s = []" "ExitCode s = -1" "Outputs s = []"
      "Truncated s \<longleftrightarrow> StdoutTruncated s \<or> StderrTruncated s"
      by (simp_all add: s r incomplete_result_def)
    then show ?thesis using reason err by (intro validResult_intro) simp_all
  next
    case False
    then have v: "validExtractedOutputs sha256 (last responses) paths (FileBytes (Extraction budget)) alloc"
      and r: "r = complete_result xid (terminal_reason usage timedOut) usage (last responses)"
      and w: "executeInitWorkload sha256 (start_request budget source stdin paths alloc) wenv = Some (responses, True)"
      using c init by auto
    from w obtain pid exitCode stdout stderr outputs outputError where
      x: "waitInitChildren pid (w_main_waits wenv) = Some (Inr exitCode)"
      and so: "captureInitOutput (w_stdout wenv) (nat (StdoutBytes budget)) = Some stdout"
      and se: "captureInitOutput (w_stderr wenv) (nat (StderrBytes budget)) = Some stderr"
      and ready: "last responses = \<lparr>Phase = ''ready'', PID = 0, i_ExitCode = exitCode, i_Stdout = o_text stdout, i_Stderr = o_text stderr,
       i_Truncated = (o_truncated stdout \<or> o_truncated stderr), i_StdoutTruncated = o_truncated stdout,
       i_StderrTruncated = o_truncated stderr, i_Outputs = outputs, i_OutputError = outputError\<rparr>"
      by (rule workload_ready) (simp add: start_request_def)
    have "int (length (o_text stdout)) \<le> 8 * MiB" "int (length (o_text stderr)) \<le> 8 * MiB"
      using captured_facts [OF so, THEN conjunct2, THEN conjunct1] captured_facts [OF se, THEN conjunct2, THEN conjunct1]
        b(1-4) by (auto simp: maximumOutputBytes_def)
    moreover have "outputs_ok sha256 0 outputs"
      using validExtracted_facts(1,4) [OF v al(1)] al(2) by (intro outputs_ok_extracted) (simp_all add: ready)
    moreover have "Stdout s = o_text stdout" "Stderr s = o_text stderr" "ExitCode s = exitCode" "Outputs s = outputs"
      "Truncated s \<longleftrightarrow> StdoutTruncated s \<or> StderrTruncated s"
      by (simp_all add: s r ready complete_result_def)
    ultimately show ?thesis
      using wait_exit_code [OF x] reason few err by (intro validResult_intro) simp_all
  qed
  moreover have "x_OutputPaths e = paths \<longrightarrow> outputs_match e s"
    using declared by (auto simp: outputs_match_def split: if_splits)
  ultimately show ?thesis
    using start_request_accepted [OF budget request] by (simp add: alloc)
qed

definition sample_message :: "bytes \<Rightarrow> initRequest" where
  "sample_message action = \<lparr>Action = action, i_Source = [], i_Stdin = [], i_StdoutBytes = 0, i_StderrBytes = 0,
     i_OutputPaths = [], OutputFileBytes = 0, OutputTotalBytes = 0\<rparr>"

definition sample_workload :: workload_env where
  "sample_workload = \<lparr>w_pipes = True, w_start = Some 7, w_send_started = True, w_run_message = Some (sample_message ''run''),
     w_gate = True, w_main_waits = [WaitNothing SelChildren, WaitChild 7 0x0300], w_send_exited = True,
     w_reap_message = Some (sample_message ''reap''), w_reap_waits = [WaitChild 9 0x0009, WaitNoChild],
     w_stdout = [(''hi'', ReadEOF)], w_stdout_await = AwaitOutput, w_stderr = [([], ReadEOF)], w_stderr_await = AwaitOutput,
     w_files = (\<lambda>name. sample_extract), w_root = Some (3, 5), w_send_ready = True\<rparr>"

definition sample_ready :: initResponse where
  "sample_ready = \<lparr>Phase = ''ready'', PID = 0, i_ExitCode = 3, i_Stdout = ''hi'', i_Stderr = [], i_Truncated = False,
     i_StdoutTruncated = False, i_StderrTruncated = False, i_Outputs = [sample_output], i_OutputError = []\<rparr>"

abbreviation sample_responses :: "initResponse list" where
  "sample_responses \<equiv> [(blank_response ''started'')\<lparr>PID := 7\<rparr>, (blank_response ''exited'')\<lparr>i_ExitCode := 3\<rparr>, sample_ready]"

lemma sample_capture:
  "captureInitOutput [(''hi'', ReadEOF)] (nat MiB) = Some \<lparr>o_text = ''hi'', o_truncated = False, o_err = False\<rparr>"
  "captureInitOutput [([], ReadEOF)] (nat MiB) = Some \<lparr>o_text = [], o_truncated = False, o_err = False\<rparr>"
proof -
  have "ToValidUTF8 ''hi'' = ''hi''" "ToValidUTF8 [] = []" by code_simp+
  then show "captureInitOutput [(''hi'', ReadEOF)] (nat MiB) = Some \<lparr>o_text = ''hi'', o_truncated = False, o_err = False\<rparr>"
    "captureInitOutput [([], ReadEOF)] (nat MiB) = Some \<lparr>o_text = [], o_truncated = False, o_err = False\<rparr>"
    by (simp_all add: captureInitOutput_def Let_def)
qed

lemma sample_large_extraction:
  "extractDeclaredOutputs (\<lambda>s. s) (\<lambda>name. sample_extract) (Some (3, 5)) [''a''] (20 * MiB) (20 * MiB) = ([sample_output], [])"
  by code_simp

lemma sample_wait:
  "waitInitChildren 7 (w_main_waits sample_workload) = Some (Inr 3)" "waitInitChildren 0 (w_reap_waits sample_workload) = Some (Inr 0)"
  by code_simp+

lemma sample_workload_fields:
  "w_pipes sample_workload" "w_start sample_workload = Some 7" "w_send_started sample_workload" "w_gate sample_workload"
  "w_send_exited sample_workload" "w_stdout sample_workload = [(''hi'', ReadEOF)]" "w_stderr sample_workload = [([], ReadEOF)]"
  "w_stdout_await sample_workload = AwaitOutput" "w_stderr_await sample_workload = AwaitOutput"
  "w_files sample_workload = (\<lambda>name. sample_extract)" "w_root sample_workload = Some (3, 5)" "w_send_ready sample_workload"
  by (simp_all add: sample_workload_def)

lemma sample_init_run:
  "executeInitWorkload (\<lambda>s. s) (start_request DefaultResourceBudget ''print(1)'' [] [''a''] (20 * MiB)) sample_workload =
     Some (sample_responses, True)"
proof -
  have a: "requireInitAction (w_run_message sample_workload) ''run''" "requireInitAction (w_reap_message sample_workload) ''reap''"
    by code_simp+
  have b: "StdoutBytes DefaultResourceBudget = MiB" "StderrBytes DefaultResourceBudget = MiB"
    "FileBytes (Extraction DefaultResourceBudget) = 20 * MiB" by (simp_all add: DefaultResourceBudget_def)
  show ?thesis
    by (simp add: executeInitWorkload_def Let_def sample_wait sample_workload_fields a awaitInitOutput_def start_request_def b
        sample_capture [simplified] sample_large_extraction [simplified] sample_ready_def)
qed

lemma sample_default_budget: "budget_validate 4096 DefaultResourceBudget"
  by (simp add: budget_validate_def DefaultResourceBudget_def validOutputBudget_def storage_validate_def
      extraction_validate_def maximumOutputBytes_def maximumExtractionBytes_def maximumExtractedFiles_def)

lemma sample_allowance: "allowance (Extraction DefaultResourceBudget) [''a''] 0 = 20 * MiB"
  by code_simp

lemma sample_full_execution:
  "execute_run (\<lambda>s. s) DefaultResourceBudget ''x'' [''a''] (20 * MiB) (sample_env\<lparr>e_ready := Some sample_ready\<rparr>) =
     Some (Inr (complete_result ''x'' ExecutionTimedOut zero_usage sample_ready), False)"
  by code_simp

theorem report_accepted_by_queue_witness:
  "validResult (\<lambda>s. s) (complete_result ''x'' ExecutionTimedOut zero_usage sample_ready)"
proof -
  have f: "freeze_snapshot [''a''] (Inr (complete_result ''x'' ExecutionTimedOut zero_usage sample_ready))
    = Inr (complete_result ''x'' ExecutionTimedOut zero_usage sample_ready)" by code_simp
  have v: "validOutputPaths [''a'']" by code_simp
  have used: "0 \<le> SandboxBytes (Extraction DefaultResourceBudget)" by (simp add: DefaultResourceBudget_def)
  have req: "''print(1)'' \<noteq> []" "nul \<notin> set ''print(1)''" "int (length ''print(1)'') \<le> 32 * 1024" "int (length []) \<le> 8 * 1024"
    by simp_all
  show ?thesis
    using report_accepted_by_queue [OF sample_default_budget order_refl used v req sample_allowance [symmetric]
        sample_full_execution _ f, of sample_responses sample_workload] sample_init_run
    by (simp add: sample_env_def)
qed

end
