(* ===== verification/SysPolicy.thy ===== *)
theory SysPolicy
  imports Prelude
begin

text \<open>
  The System Call Policy of \<^verbatim>\<open>internal/systemcallpolicy\<close>: the policy document (policy.go), its
  validation, the amd64 system call table (numbers.go), and the compiler to classic BPF with its
  label assembler (compile.go, compile_linux.go). The theory \<^verbatim>\<open>SysFilter\<close> proves the compiler
  correct.
\<close>

unbundle bit_operations_syntax

section \<open>The policy document (policy.go)\<close>

record Target =
  os :: string
  arch :: string

record DefaultAction =
  default_action :: string
  errno :: int

record Argument =
  arg_index :: u64
  operator :: string
  arg_value :: u64
  arg_mask :: u64

text \<open>A Go slice decoded from JSON is nil when the member is absent or null: \<open>None\<close>.\<close>

record Rule =
  names :: "string list"
  rule_action :: string
  arguments :: "Argument list option"

record Policy =
  schema :: string
  profile :: string
  target :: Target
  defaultAction :: DefaultAction
  rules :: "Rule list option"

section \<open>The system call table (numbers.go)\<close>

definition amd64SystemCalls :: "(string \<times> u32) list" where
  "amd64SystemCalls = [
    (''access'', 21), (''arch_prctl'', 158), (''bpf'', 321), (''brk'', 12), (''chdir'', 80),
    (''chmod'', 90), (''clock_getres'', 229), (''clock_gettime'', 228),
    (''clock_nanosleep'', 230), (''clone'', 56), (''clone3'', 435), (''close'', 3),
    (''close_range'', 436), (''copy_file_range'', 326), (''creat'', 85), (''dup'', 32),
    (''dup2'', 33), (''dup3'', 292), (''epoll_create1'', 291), (''epoll_ctl'', 233),
    (''epoll_pwait'', 281), (''epoll_wait'', 232), (''eventfd2'', 290), (''execve'', 59),
    (''exit'', 60), (''exit_group'', 231), (''faccessat'', 269), (''faccessat2'', 439),
    (''fadvise64'', 221), (''fchdir'', 81), (''fchmod'', 91), (''fchmodat'', 268),
    (''fcntl'', 72), (''fdatasync'', 75), (''flock'', 73), (''fork'', 57), (''fstat'', 5),
    (''fsync'', 74), (''ftruncate'', 77), (''futex'', 202), (''getcwd'', 79), (''getdents'', 78),
    (''getdents64'', 217), (''getegid'', 108), (''geteuid'', 107), (''getgid'', 104),
    (''getgroups'', 115), (''getpgrp'', 111), (''getpid'', 39), (''getppid'', 110),
    (''getpriority'', 140), (''getrandom'', 318), (''getresgid'', 120), (''getresuid'', 118),
    (''getrlimit'', 97), (''getrusage'', 98), (''gettid'', 186), (''gettimeofday'', 96),
    (''getuid'', 102), (''ioctl'', 16), (''kill'', 62), (''link'', 86), (''linkat'', 265),
    (''lseek'', 8), (''lstat'', 6), (''madvise'', 28), (''membarrier'', 324), (''mincore'', 27),
    (''mkdir'', 83), (''mkdirat'', 258), (''mmap'', 9), (''mount'', 165), (''mprotect'', 10),
    (''mremap'', 25), (''msync'', 26), (''munmap'', 11), (''nanosleep'', 35),
    (''newfstatat'', 262), (''open'', 2), (''openat'', 257), (''pause'', 34), (''pipe'', 22),
    (''pipe2'', 293), (''poll'', 7), (''ppoll'', 271), (''prctl'', 157), (''pread64'', 17),
    (''prlimit64'', 302), (''pselect6'', 270), (''ptrace'', 101), (''pwrite64'', 18),
    (''read'', 0), (''readlink'', 89), (''readlinkat'', 267), (''readv'', 19), (''rename'', 82),
    (''renameat'', 264), (''renameat2'', 316), (''restart_syscall'', 219), (''rmdir'', 84),
    (''rseq'', 334), (''rt_sigaction'', 13), (''rt_sigprocmask'', 14), (''rt_sigreturn'', 15),
    (''rt_sigsuspend'', 130), (''sched_getaffinity'', 204), (''sched_yield'', 24),
    (''seccomp'', 317), (''select'', 23), (''sendfile'', 40), (''set_robust_list'', 273),
    (''set_tid_address'', 218), (''setns'', 308), (''setsid'', 112), (''sigaltstack'', 131),
    (''stat'', 4), (''statx'', 332), (''symlink'', 88), (''symlinkat'', 266), (''sysinfo'', 99),
    (''tgkill'', 234), (''times'', 100), (''truncate'', 76), (''umask'', 95), (''umount2'', 166),
    (''unlink'', 87), (''unlinkat'', 263), (''unshare'', 272), (''vfork'', 58), (''wait4'', 61),
    (''waitid'', 247), (''write'', 1), (''writev'', 20)]"

text \<open>A Go map read of an absent key gives the zero value.\<close>

definition syscall_number :: "string \<Rightarrow> u32" where
  "syscall_number name = (case map_of amd64SystemCalls name of None \<Rightarrow> 0 | Some n \<Rightarrow> n)"

section \<open>Validation (Policy.validate)\<close>

datatype policy_error =
    ErrPolicyTarget
  | ErrPolicyDefault
  | ErrPolicyRulesNil
  | ErrRuleShape
  | ErrUnknownSyscall string
  | ErrNameOrder
  | ErrRuleOrder
  | ErrArgumentsNil
  | ErrArgumentIndex
  | ErrArgumentOrder
  | ErrMaskUnexpected
  | ErrMaskedEqual
  | ErrOperator string
  | ErrInstructionLimit
  | ErrForwardBranch
  | ErrArchitecture

text \<open>The loop over \<open>rule.Names\<close>; \<open>prev\<close> is \<open>rule.Names[nameIndex-1]\<close> when \<open>nameIndex > 0\<close>.\<close>

fun validate_names :: "string option \<Rightarrow> string list \<Rightarrow> policy_error + unit" where
  "validate_names prev [] = Inr ()"
| "validate_names prev (name # rest) =
     (if map_of amd64SystemCalls name = None then Inl (ErrUnknownSyscall name)
      else if (case prev of None \<Rightarrow> False | Some p \<Rightarrow> name \<le> p) then Inl ErrNameOrder
      else validate_names (Some name) rest)"

definition plain_operators :: "string list" where
  "plain_operators = [''equal'', ''not-equal'', ''less-than'', ''less-or-equal'',
     ''greater-than'', ''greater-or-equal'']"

definition validate_operator :: "Argument \<Rightarrow> policy_error + unit" where
  "validate_operator a =
     (if operator a \<in> set plain_operators then
        (if arg_mask a \<noteq> 0 then Inl ErrMaskUnexpected else Inr ())
      else if operator a = ''masked-equal'' then
        (if arg_mask a = 0 \<or> arg_value a AND NOT (arg_mask a) \<noteq> 0 then Inl ErrMaskedEqual else Inr ())
      else Inl (ErrOperator (operator a)))"

fun validate_arguments :: "u64 option \<Rightarrow> Argument list \<Rightarrow> policy_error + unit" where
  "validate_arguments prev [] = Inr ()"
| "validate_arguments prev (a # rest) =
     (if arg_index a > 5 then Inl ErrArgumentIndex
      else if (case prev of None \<Rightarrow> False | Some p \<Rightarrow> arg_index a \<le> p) then Inl ErrArgumentOrder
      else case validate_operator a of
        Inl e \<Rightarrow> Inl e
      | Inr _ \<Rightarrow> validate_arguments (Some (arg_index a)) rest)"

text \<open>The loop over \<open>policy.Rules\<close>; \<open>prev\<close> is \<open>lastRuleName\<close> when \<open>ruleIndex > 0\<close>.\<close>

fun validate_rules :: "string option \<Rightarrow> Rule list \<Rightarrow> policy_error + unit" where
  "validate_rules prev [] = Inr ()"
| "validate_rules prev (r # rest) =
     (if names r = [] \<or> rule_action r \<noteq> ''allow'' then Inl ErrRuleShape
      else case validate_names None (names r) of
        Inl e \<Rightarrow> Inl e
      | Inr _ \<Rightarrow>
         (if (case prev of None \<Rightarrow> False | Some p \<Rightarrow> hd (names r) \<le> p) then Inl ErrRuleOrder
          else case arguments r of
            None \<Rightarrow> Inl ErrArgumentsNil
          | Some args \<Rightarrow>
             (case validate_arguments None args of
                Inl e \<Rightarrow> Inl e
              | Inr _ \<Rightarrow> validate_rules (Some (last (names r))) rest)))"

definition validate :: "Policy \<Rightarrow> policy_error + unit" where
  "validate p =
     (if schema p \<noteq> ''system-call-policy/v1'' \<or> profile p \<noteq> ''python-data-v1''
         \<or> os (target p) \<noteq> ''linux'' \<or> arch (target p) \<noteq> ''amd64'' then Inl ErrPolicyTarget
      else if default_action (defaultAction p) \<noteq> ''errno''
         \<or> errno (defaultAction p) < 1 \<or> errno (defaultAction p) > 4095 then Inl ErrPolicyDefault
      else case rules p of
        None \<Rightarrow> Inl ErrPolicyRulesNil
      | Some rs \<Rightarrow> validate_rules None rs)"

section \<open>Instructions and the assembler (compile.go)\<close>

definition bpfLoadWordAbsolute :: u16 where "bpfLoadWordAbsolute = 0x20"
definition bpfAndConstant :: u16 where "bpfAndConstant = 0x54"
definition bpfJumpAlways :: u16 where "bpfJumpAlways = 0x05"
definition bpfJumpEqual :: u16 where "bpfJumpEqual = 0x15"
definition bpfJumpGreater :: u16 where "bpfJumpGreater = 0x25"
definition bpfJumpGreaterEqual :: u16 where "bpfJumpGreaterEqual = 0x35"
definition bpfJumpBitsSet :: u16 where "bpfJumpBitsSet = 0x45"
definition bpfReturnConstant :: u16 where "bpfReturnConstant = 0x06"
definition seccompReturnAllow :: u32 where "seccompReturnAllow = 0x7fff0000"
definition seccompReturnErrno :: int where "seccompReturnErrno = 0x00050000"
definition auditArchAMD64 :: u32 where "auditArchAMD64 = 0xc000003e"
definition x32SystemCallBit :: u32 where "x32SystemCallBit = 0x40000000"
definition maximumInstructions :: nat where "maximumInstructions = 4096"

lemmas opcode_defs =
  bpfLoadWordAbsolute_def bpfAndConstant_def bpfJumpAlways_def bpfJumpEqual_def
  bpfJumpGreater_def bpfJumpGreaterEqual_def bpfJumpBitsSet_def bpfReturnConstant_def

record instruction =
  code :: u16
  jt :: u8
  jf :: u8
  k :: u32

abbreviation ins :: "u16 \<Rightarrow> u8 \<Rightarrow> u8 \<Rightarrow> u32 \<Rightarrow> instruction" where
  "ins c t f v \<equiv> \<lparr>code = c, jt = t, jf = f, k = v\<rparr>"

record assembler =
  program :: "instruction list"
  labels :: "nat \<rightharpoonup> nat"
  jumps :: "(nat \<times> nat) list"
  next_label :: nat
  err :: bool

definition new_assembler :: assembler where
  "new_assembler = \<lparr>program = [], labels = Map.empty, jumps = [], next_label = 0, err = False\<rparr>"

definition newLabel :: "assembler \<Rightarrow> nat \<times> assembler" where
  "newLabel b = (next_label b + 1, b\<lparr>next_label := next_label b + 1\<rparr>)"

definition mark :: "assembler \<Rightarrow> nat \<Rightarrow> assembler" where
  "mark b l = b\<lparr>labels := (labels b)(l \<mapsto> length (program b))\<rparr>"

definition emit :: "assembler \<Rightarrow> instruction \<Rightarrow> assembler" where
  "emit b i =
     (if length (program b) \<ge> maximumInstructions then b\<lparr>err := True\<rparr>
      else b\<lparr>program := program b @ [i]\<rparr>)"

definition jump :: "assembler \<Rightarrow> nat \<Rightarrow> assembler" where
  "jump b l = emit (b\<lparr>jumps := jumps b @ [(length (program b), l)]\<rparr>) (ins bpfJumpAlways 0 0 0)"

definition condition :: "assembler \<Rightarrow> u16 \<Rightarrow> u32 \<Rightarrow> nat \<Rightarrow> nat \<Rightarrow> assembler" where
  "condition b operation v yes no = jump (jump (emit b (ins operation 0 1 v)) yes) no"

definition argument :: "assembler \<Rightarrow> Argument \<Rightarrow> nat \<Rightarrow> nat \<Rightarrow> assembler" where
  "argument b0 a accepted denied =
     (let lowOffset = (ucast (16 + arg_index a * 8) :: u32);
          high = (ucast (drop_bit 32 (arg_value a)) :: u32);
          low = (ucast (arg_value a) :: u32);
          (checkLow, b1) = newLabel b0;
          b2 = emit b1 (ins bpfLoadWordAbsolute 0 0 (lowOffset + 4));
          b3 = (if operator a = ''equal'' \<or> operator a = ''masked-equal'' then
                  (let b = (if operator a = ''masked-equal''
                            then emit b2 (ins bpfAndConstant 0 0 (ucast (drop_bit 32 (arg_mask a))))
                            else b2)
                   in condition b bpfJumpEqual high checkLow denied)
                else if operator a = ''not-equal'' then
                  condition b2 bpfJumpEqual high checkLow accepted
                else if operator a = ''less-than'' \<or> operator a = ''less-or-equal'' then
                  (let (checkEqual, b) = newLabel b2;
                       b = condition b bpfJumpGreater high denied checkEqual;
                       b = mark b checkEqual
                   in condition b bpfJumpEqual high checkLow accepted)
                else if operator a = ''greater-than'' \<or> operator a = ''greater-or-equal'' then
                  (let (checkEqual, b) = newLabel b2;
                       b = condition b bpfJumpGreater high accepted checkEqual;
                       b = mark b checkEqual
                   in condition b bpfJumpEqual high checkLow denied)
                else b2);
          b4 = mark b3 checkLow;
          b5 = emit b4 (ins bpfLoadWordAbsolute 0 0 lowOffset)
      in if operator a = ''equal'' \<or> operator a = ''masked-equal'' then
           (let b = (if operator a = ''masked-equal''
                     then emit b5 (ins bpfAndConstant 0 0 (ucast (arg_mask a)))
                     else b5)
            in condition b bpfJumpEqual low accepted denied)
         else if operator a = ''not-equal'' then condition b5 bpfJumpEqual low denied accepted
         else if operator a = ''less-than'' then condition b5 bpfJumpGreaterEqual low denied accepted
         else if operator a = ''less-or-equal'' then condition b5 bpfJumpGreater low denied accepted
         else if operator a = ''greater-than'' then condition b5 bpfJumpGreater low accepted denied
         else if operator a = ''greater-or-equal'' then condition b5 bpfJumpGreaterEqual low accepted denied
         else b5)"

section \<open>The compiler\<close>

text \<open>The loop over \<open>rule.Names\<close>: the last name falls through to the next rule.\<close>

fun compile_names :: "assembler \<Rightarrow> string list \<Rightarrow> nat \<Rightarrow> nat \<Rightarrow> assembler" where
  "compile_names b [] arguments_l nextRule = b"
| "compile_names b [name] arguments_l nextRule =
     condition b bpfJumpEqual (syscall_number name) arguments_l nextRule"
| "compile_names b (name # name' # rest) arguments_l nextRule =
     (let (nextName, b) = newLabel b;
          b = condition b bpfJumpEqual (syscall_number name) arguments_l nextName
      in compile_names (mark b nextName) (name' # rest) arguments_l nextRule)"

fun compile_arguments :: "assembler \<Rightarrow> Argument list \<Rightarrow> nat \<Rightarrow> assembler" where
  "compile_arguments b [] deny = b"
| "compile_arguments b (a # rest) deny =
     (let (accepted, b) = newLabel b;
          b = argument b a accepted deny
      in compile_arguments (mark b accepted) rest deny)"

text \<open>Ranging over a nil slice is ranging over no elements.\<close>

definition elems :: "'a list option \<Rightarrow> 'a list" where
  "elems xs = (case xs of None \<Rightarrow> [] | Some ys \<Rightarrow> ys)"

fun compile_rules :: "assembler \<Rightarrow> Rule list \<Rightarrow> nat \<Rightarrow> assembler" where
  "compile_rules b [] deny = b"
| "compile_rules b (r # rest) deny =
     (let (arguments_l, b) = newLabel b;
          (nextRule, b) = newLabel b;
          b = emit b (ins bpfLoadWordAbsolute 0 0 0);
          b = compile_names b (names r) arguments_l nextRule;
          b = mark b arguments_l;
          b = compile_arguments b (elems (arguments r)) deny;
          b = emit b (ins bpfReturnConstant 0 0 seccompReturnAllow)
      in compile_rules (mark b nextRule) rest deny)"

definition denial :: "Policy \<Rightarrow> u32" where
  "denial p = word_of_int (seccompReturnErrno OR errno (defaultAction p))"

text \<open>The final loop over \<open>build.jumps\<close>: resolve each label to a forward offset.\<close>

fun resolve_jumps :: "(nat \<rightharpoonup> nat) \<Rightarrow> (nat \<times> nat) list \<Rightarrow> instruction list
    \<Rightarrow> policy_error + instruction list" where
  "resolve_jumps ls [] prog = Inr prog"
| "resolve_jumps ls ((index, label) # rest) prog =
     (case ls label of
        None \<Rightarrow> Inl ErrForwardBranch
      | Some t \<Rightarrow>
         (if t \<le> index \<or> t \<ge> length prog then Inl ErrForwardBranch
          else resolve_jumps ls rest
                 (prog[index := (prog ! index)\<lparr>k := of_nat (t - index - 1)\<rparr>])))"

definition compileInstructions :: "Policy \<Rightarrow> policy_error + instruction list" where
  "compileInstructions p =
     (let (deny, b) = newLabel new_assembler;
          b = emit b (ins bpfLoadWordAbsolute 0 0 4);
          b = emit b (ins bpfJumpEqual 1 0 auditArchAMD64);
          b = emit b (ins bpfReturnConstant 0 0 (denial p));
          b = emit b (ins bpfLoadWordAbsolute 0 0 0);
          b = emit b (ins bpfJumpBitsSet 0 1 x32SystemCallBit);
          b = emit b (ins bpfReturnConstant 0 0 (denial p));
          b = compile_rules b (elems (rules p)) deny;
          b = mark b deny;
          b = emit b (ins bpfReturnConstant 0 0 (denial p))
      in if err b then Inl ErrInstructionLimit
         else resolve_jumps (labels b) (jumps b) (program b))"

text \<open>compile_linux.go: \<open>goarch\<close> is \<open>runtime.GOARCH\<close> of the running program.\<close>

definition Compile :: "string \<Rightarrow> Policy \<Rightarrow> policy_error + instruction list" where
  "Compile goarch p =
     (if goarch \<noteq> ''amd64'' then Inl ErrArchitecture
      else case validate p of
        Inl e \<Rightarrow> Inl e
      | Inr _ \<Rightarrow> compileInstructions p)"

end
