(* ===== verification/SysAsm.thy ===== *)
theory SysAsm
  imports SysPolicy
begin

text \<open>
  The target machine of the policy compiler and the correctness of its label assembler.
  \<open>bpf_run\<close> is the classic BPF machine as the kernel documents it, for the opcodes compile.go
  names. \<open>asm\<close> replays a stream of assembler calls (\<open>emit\<close>, \<open>jump\<close>, \<open>mark\<close>), \<open>srun\<close> runs such
  a stream with symbolic labels, and the main lemma says that assembling and resolving a closed
  stream gives a program with the same runs.
\<close>

unbundle bit_operations_syntax

section \<open>The classic BPF machine\<close>

text \<open>\<^verbatim>\<open>struct seccomp_data\<close>: nr at byte 0, arch at 4, instruction pointer at 8, arguments from 16.\<close>

record seccomp_data =
  nr :: u32
  audit_arch :: u32
  instruction_pointer :: u64
  args :: "nat \<Rightarrow> u64"

abbreviation lo32 :: "u64 \<Rightarrow> u32" where "lo32 x \<equiv> ucast x"
abbreviation hi32 :: "u64 \<Rightarrow> u32" where "hi32 x \<equiv> ucast (drop_bit 32 x)"

definition load_word :: "seccomp_data \<Rightarrow> u32 \<Rightarrow> u32 option" where
  "load_word d off =
     (let n = unat off in
      if n = 0 then Some (nr d)
      else if n = 4 then Some (audit_arch d)
      else if n = 8 then Some (lo32 (instruction_pointer d))
      else if n = 12 then Some (hi32 (instruction_pointer d))
      else if 16 \<le> n \<and> n < 64 \<and> n mod 8 = 0 then Some (lo32 (args d ((n - 16) div 8)))
      else if 16 \<le> n \<and> n < 64 \<and> n mod 8 = 4 then Some (hi32 (args d ((n - 16) div 8)))
      else None)"

datatype outcome = Return u32 | Continue u32 nat | Stuck

definition bpf_step :: "seccomp_data \<Rightarrow> u32 \<Rightarrow> instruction \<Rightarrow> outcome" where
  "bpf_step d a i =
     (let branch = (\<lambda>c. Continue a (unat (if c then jt i else jf i))) in
      if code i = bpfLoadWordAbsolute then
        (case load_word d (k i) of None \<Rightarrow> Stuck | Some v \<Rightarrow> Continue v 0)
      else if code i = bpfAndConstant then Continue (a AND k i) 0
      else if code i = bpfJumpAlways then Continue a (unat (k i))
      else if code i = bpfJumpEqual then branch (a = k i)
      else if code i = bpfJumpGreater then branch (a > k i)
      else if code i = bpfJumpGreaterEqual then branch (a \<ge> k i)
      else if code i = bpfJumpBitsSet then branch (a AND k i \<noteq> 0)
      else if code i = bpfReturnConstant then Return (k i)
      else Stuck)"

text \<open>Every classic BPF jump is forward, so a run consumes the program.\<close>

fun bpf_run :: "seccomp_data \<Rightarrow> u32 \<Rightarrow> instruction list \<Rightarrow> u32 option" where
  "bpf_run d a [] = None"
| "bpf_run d a (i # rest) =
     (case bpf_step d a i of
        Return v \<Rightarrow> Some v
      | Continue a' m \<Rightarrow> bpf_run d a' (drop m rest)
      | Stuck \<Rightarrow> None)"

lemma bpf_step_simps [simp]:
  "bpf_step d a (ins bpfLoadWordAbsolute t f v) =
     (case load_word d v of None \<Rightarrow> Stuck | Some w \<Rightarrow> Continue w 0)"
  "bpf_step d a (ins bpfAndConstant t f v) = Continue (a AND v) 0"
  "bpf_step d a (ins bpfJumpAlways t f v) = Continue a (unat v)"
  "bpf_step d a (ins bpfJumpEqual t f v) = Continue a (unat (if a = v then t else f))"
  "bpf_step d a (ins bpfJumpGreater t f v) = Continue a (unat (if a > v then t else f))"
  "bpf_step d a (ins bpfJumpGreaterEqual t f v) = Continue a (unat (if a \<ge> v then t else f))"
  "bpf_step d a (ins bpfJumpBitsSet t f v) = Continue a (unat (if a AND v \<noteq> 0 then t else f))"
  "bpf_step d a (ins bpfReturnConstant t f v) = Return v"
  by (simp_all add: bpf_step_def opcode_defs)

section \<open>Streams of assembler calls\<close>

datatype item = I instruction | J nat | M nat

fun asm :: "assembler \<Rightarrow> item list \<Rightarrow> assembler" where
  "asm b [] = b"
| "asm b (I i # xs) = asm (emit b i) xs"
| "asm b (J l # xs) = asm (jump b l) xs"
| "asm b (M l # xs) = asm (mark b l) xs"

fun isize :: "item list \<Rightarrow> nat" where
  "isize [] = 0"
| "isize (M l # xs) = isize xs"
| "isize (x # xs) = Suc (isize xs)"

fun marks :: "item list \<Rightarrow> nat list" where
  "marks [] = []"
| "marks (M l # xs) = l # marks xs"
| "marks (x # xs) = marks xs"

fun code_of :: "item list \<Rightarrow> instruction list" where
  "code_of [] = []"
| "code_of (I i # xs) = i # code_of xs"
| "code_of (J l # xs) = ins bpfJumpAlways 0 0 0 # code_of xs"
| "code_of (M l # xs) = code_of xs"

fun jumps_of :: "nat \<Rightarrow> item list \<Rightarrow> (nat \<times> nat) list" where
  "jumps_of n [] = []"
| "jumps_of n (I i # xs) = jumps_of (Suc n) xs"
| "jumps_of n (J l # xs) = (n, l) # jumps_of (Suc n) xs"
| "jumps_of n (M l # xs) = jumps_of n xs"

fun labels_of :: "(nat \<rightharpoonup> nat) \<Rightarrow> nat \<Rightarrow> item list \<Rightarrow> (nat \<rightharpoonup> nat)" where
  "labels_of L n [] = L"
| "labels_of L n (M l # xs) = labels_of (L(l \<mapsto> n)) n xs"
| "labels_of L n (x # xs) = labels_of L (Suc n) xs"

lemma asm_append [simp]: "asm b (xs @ ys) = asm (asm b xs) ys"
  by (induction b xs rule: asm.induct) simp_all

lemma isize_append [simp]: "isize (xs @ ys) = isize xs + isize ys"
  by (induction xs rule: isize.induct) simp_all

lemma marks_append [simp]: "marks (xs @ ys) = marks xs @ marks ys"
  by (induction xs rule: marks.induct) simp_all

lemma length_code_of [simp]: "length (code_of xs) = isize xs"
  by (induction xs rule: code_of.induct) simp_all

text \<open>What a whole stream does to the assembler, as long as the program fits.\<close>

lemma asm_err: "err b \<Longrightarrow> err (asm b xs)"
  by (induction b xs rule: asm.induct) (simp_all add: emit_def jump_def mark_def)

lemma asm_overflow:
  "length (program b) + isize xs > maximumInstructions \<Longrightarrow>
   length (program b) \<le> maximumInstructions \<Longrightarrow> err (asm b xs)"
  by (induction b xs rule: asm.induct) (auto simp: emit_def jump_def mark_def asm_err)

lemma asm_fits:
  "length (program b) + isize xs \<le> maximumInstructions \<Longrightarrow>
   program (asm b xs) = program b @ code_of xs \<and>
   jumps (asm b xs) = jumps b @ jumps_of (length (program b)) xs \<and>
   labels (asm b xs) = labels_of (labels b) (length (program b)) xs \<and>
   err (asm b xs) = err b"
  by (induction b xs rule: asm.induct) (auto simp: emit_def jump_def mark_def)

section \<open>Symbolic runs\<close>

text \<open>\<open>goto l xs\<close> continues after the first mark of \<open>l\<close>; \<open>skip m xs\<close> skips \<open>m\<close> instructions.\<close>

fun goto :: "nat \<Rightarrow> item list \<Rightarrow> item list" where
  "goto l [] = []"
| "goto l (M l' # xs) = (if l = l' then xs else goto l xs)"
| "goto l (x # xs) = goto l xs"

fun skip :: "nat \<Rightarrow> item list \<Rightarrow> item list" where
  "skip 0 xs = xs"
| "skip (Suc m) [] = []"
| "skip (Suc m) (M l # xs) = skip (Suc m) xs"
| "skip (Suc m) (x # xs) = skip m xs"

lemma length_goto: "length (goto l xs) \<le> length xs"
  by (induction l xs rule: goto.induct) auto

lemma length_skip: "length (skip m xs) \<le> length xs"
  by (induction m xs rule: skip.induct) auto

lemma goto_append: "l \<notin> set (marks xs) \<Longrightarrow> goto l (xs @ ys) = goto l ys"
  by (induction l xs rule: goto.induct) auto

function srun :: "seccomp_data \<Rightarrow> u32 \<Rightarrow> item list \<Rightarrow> u32 option" where
  "srun d a [] = None"
| "srun d a (M l # xs) = srun d a xs"
| "srun d a (J l # xs) = srun d a (goto l xs)"
| "srun d a (I i # xs) =
     (case bpf_step d a i of
        Return v \<Rightarrow> Some v
      | Continue a' m \<Rightarrow> srun d a' (skip m xs)
      | Stuck \<Rightarrow> None)"
  by pat_completeness auto
termination
  by (relation "measure (\<lambda>(d, a, xs). length xs)")
     (auto simp: length_goto length_skip less_Suc_eq_le)

section \<open>Resolved programs\<close>

text \<open>The program after \<open>resolve_jumps\<close>, for a stream placed at position \<open>n\<close>.\<close>

fun resolved :: "(nat \<rightharpoonup> nat) \<Rightarrow> nat \<Rightarrow> item list \<Rightarrow> instruction list" where
  "resolved L n [] = []"
| "resolved L n (I i # xs) = i # resolved L (Suc n) xs"
| "resolved L n (J l # xs) =
     ins bpfJumpAlways 0 0 (of_nat (the (L l) - n - 1)) # resolved L (Suc n) xs"
| "resolved L n (M l # xs) = resolved L n xs"

fun mark_pos :: "nat \<Rightarrow> item list \<Rightarrow> nat option" where
  "mark_pos l [] = None"
| "mark_pos l (M l' # xs) = (if l = l' then Some 0 else mark_pos l xs)"
| "mark_pos l (x # xs) = map_option Suc (mark_pos l xs)"

text \<open>Every jump of the stream has a mark after it, where the label map says.\<close>

fun linked :: "(nat \<rightharpoonup> nat) \<Rightarrow> nat \<Rightarrow> item list \<Rightarrow> bool" where
  "linked L n [] = True"
| "linked L n (I i # xs) = linked L (Suc n) xs"
| "linked L n (M l # xs) = linked L n xs"
| "linked L n (J l # xs) =
     ((\<exists>m. mark_pos l xs = Some m \<and> L l = Some (Suc n + m)) \<and> linked L (Suc n) xs)"

fun closed_in :: "nat set \<Rightarrow> item list \<Rightarrow> bool" where
  "closed_in S [] = True"
| "closed_in S (J l # xs) = (l \<in> set (marks xs) \<union> S \<and> closed_in S xs)"
| "closed_in S (x # xs) = closed_in S xs"

lemma closed_in_append:
  "closed_in S (xs @ ys) \<longleftrightarrow> closed_in (S \<union> set (marks ys)) xs \<and> closed_in S ys"
  by (induction S xs rule: closed_in.induct) auto

lemma resolved_goto:
  "mark_pos l xs = Some m \<Longrightarrow> resolved L (n + m) (goto l xs) = drop m (resolved L n xs)"
  by (induction l xs arbitrary: n m rule: goto.induct) (auto split: if_splits simp flip: add_Suc)

lemma linked_goto:
  "mark_pos l xs = Some m \<Longrightarrow> linked L n xs \<Longrightarrow> linked L (n + m) (goto l xs)"
  by (induction l xs arbitrary: n m rule: goto.induct) (auto split: if_splits simp flip: add_Suc)

lemma resolved_skip: "resolved L (n + m) (skip m xs) = drop m (resolved L n xs)"
  by (induction m xs arbitrary: n rule: skip.induct) (auto simp flip: add_Suc)

lemma linked_skip: "linked L n xs \<Longrightarrow> linked L (n + m) (skip m xs)"
  by (induction m xs arbitrary: n rule: skip.induct) (auto simp flip: add_Suc)

lemma mark_pos_size: "mark_pos l xs = Some m \<Longrightarrow> m \<le> isize xs"
  by (induction l xs arbitrary: m rule: mark_pos.induct) (auto split: if_splits)

lemma isize_goto: "mark_pos l xs = Some m \<Longrightarrow> m + isize (goto l xs) = isize xs"
  by (induction l xs arbitrary: m rule: goto.induct) (auto split: if_splits)

lemma isize_skip: "isize (skip m xs) = isize xs - m"
  by (induction m xs rule: skip.induct) auto

lemma resolved_run:
  "linked L n xs \<Longrightarrow> isize xs < 2 ^ 32 \<Longrightarrow> bpf_run d a (resolved L n xs) = srun d a xs"
proof (induction d a xs arbitrary: n rule: srun.induct)
  case (3 d a l xs)
  then obtain m where m: "mark_pos l xs = Some m" "L l = Some (Suc n + m)"
    and lk: "linked L (Suc n) xs" by auto
  have "unat (of_nat m :: u32) = m"
    using mark_pos_size [OF m(1)] "3.prems"(2) by (simp add: unat_of_nat)
  moreover have "bpf_run d a (resolved L (Suc n + m) (goto l xs)) = srun d a (goto l xs)"
    using "3.IH" linked_goto [OF m(1) lk] isize_goto [OF m(1)] "3.prems"(2) by simp
  ultimately show ?case using m by (simp add: resolved_goto [OF m(1), symmetric])
next
  case (4 d a i xs)
  show ?case
  proof (cases "bpf_step d a i")
    case (Continue a' m)
    have "bpf_run d a' (resolved L (Suc n + m) (skip m xs)) = srun d a' (skip m xs)"
      using "4.IH" [OF Continue, of "Suc n + m"] "4.prems" linked_skip [of L "Suc n" xs m]
      by (simp add: isize_skip)
    then show ?thesis using Continue by (simp add: resolved_skip [symmetric])
  qed simp_all
qed simp_all

text \<open>A closed stream with distinct marks is linked by the label map the assembler builds.\<close>

lemma mark_pos_None: "mark_pos l xs = None \<longleftrightarrow> l \<notin> set (marks xs)"
  by (induction l xs rule: mark_pos.induct) auto

lemma labels_of_other: "l \<notin> set (marks xs) \<Longrightarrow> labels_of L n xs l = L l"
  by (induction L n xs rule: labels_of.induct) auto

lemma labels_of_mark_pos:
  "distinct (marks xs) \<Longrightarrow> mark_pos l xs = Some m \<Longrightarrow> labels_of L n xs l = Some (n + m)"
  by (induction L n xs arbitrary: m rule: labels_of.induct)
     (auto split: if_splits simp: labels_of_other)

lemma linkedI:
  "closed_in {} xs \<Longrightarrow> distinct (marks xs) \<Longrightarrow>
   (\<And>l m. mark_pos l xs = Some m \<Longrightarrow> L l = Some (n + m)) \<Longrightarrow> linked L n xs"
proof (induction xs arbitrary: n)
  case (Cons x xs)
  show ?case
  proof (cases x)
    case (I i)
    then show ?thesis using Cons.IH [of "Suc n"] Cons.prems by auto
  next
    case (J l)
    with Cons.prems(1) obtain m where m: "mark_pos l xs = Some m"
      using mark_pos_None [of l xs] by (cases "mark_pos l xs") auto
    have "linked L (Suc n) xs" using Cons.IH [of "Suc n"] Cons.prems J by auto
    then show ?thesis using J m Cons.prems(3) [of l "Suc m"] by auto
  next
    case (M l)
    then show ?thesis
      using Cons.IH [of n] Cons.prems mark_pos_None
      by (auto simp: mark_pos_None)
         (metis Cons.prems(3) distinct.simps(2) list.set_intros(1) mark_pos.simps(2) mark_pos_None
           option.distinct(1))
  qed
qed simp

lemma resolve_jumps_ok:
  "(\<forall>(i, l) \<in> set (jumps_of n xs). \<exists>t. L l = Some t \<and> i < t \<and> t < length pre + isize xs) \<Longrightarrow>
   length pre = n \<Longrightarrow>
   resolve_jumps L (jumps_of n xs) (pre @ code_of xs) = Inr (pre @ resolved L n xs)"
proof (induction n xs arbitrary: pre rule: jumps_of.induct)
  case (2 n i xs)
  from "2.prems" show ?case using "2.IH" [of "pre @ [i]"] by simp
next
  case (3 n l xs)
  from "3.prems" obtain t where t: "L l = Some t" "n < t" "t < length pre + Suc (isize xs)" by auto
  have "resolve_jumps L (jumps_of (Suc n) xs)
          ((pre @ [ins bpfJumpAlways 0 0 (of_nat (t - n - 1))]) @ code_of xs) =
        Inr ((pre @ [ins bpfJumpAlways 0 0 (of_nat (t - n - 1))]) @ resolved L (Suc n) xs)"
    using "3.prems" by (intro "3.IH") auto
  with t "3.prems"(2) show ?case by (auto simp: list_update_append nth_append)
qed simp_all

lemma linked_jumps:
  "linked L n xs \<Longrightarrow> (i, l) \<in> set (jumps_of n xs) \<Longrightarrow>
   \<exists>t. L l = Some t \<and> i < t \<and> t \<le> n + isize xs"
proof (induction n xs rule: jumps_of.induct)
  case (3 n l' xs)
  then show ?case using mark_pos_size by (fastforce simp: add.commute)
qed auto

lemma mark_before_last: "mark_pos l (xs @ [I x]) = Some m \<Longrightarrow> m < Suc (isize xs)"
  by (induction l xs arbitrary: m rule: mark_pos.induct) (auto split: if_splits)

lemma linked_jumps_last:
  "linked L n (xs @ [I x]) \<Longrightarrow> (i, l) \<in> set (jumps_of n (xs @ [I x])) \<Longrightarrow>
   \<exists>t. L l = Some t \<and> i < t \<and> t < n + isize (xs @ [I x])"
proof (induction n xs rule: jumps_of.induct)
  case (3 n l' xs)
  then show ?case using mark_before_last by (fastforce simp: add.commute)
qed auto

text \<open>
  The assembler is correct: a closed stream with distinct marks that ends in an instruction either
  exceeds the limit, or resolves to a program whose runs are the symbolic runs of the stream.
\<close>

theorem assemble_correct:
  assumes "closed_in {} (xs @ [I x])" and "distinct (marks xs)"
    and b: "b = asm (new_assembler\<lparr>next_label := n\<rparr>) (xs @ [I x])"
  shows "if isize xs < maximumInstructions
    then \<not> err b \<and> (\<exists>prog. resolve_jumps (labels b) (jumps b) (program b) = Inr prog
            \<and> length prog = Suc (isize xs) \<and> (\<forall>d a. bpf_run d a prog = srun d a (xs @ [I x])))
    else err b"
proof (cases "isize xs < maximumInstructions")
  case True
  let ?ys = "xs @ [I x]" and ?L = "labels b"
  have fits: "program b = code_of ?ys" "jumps b = jumps_of 0 ?ys" "?L = labels_of Map.empty 0 ?ys"
    "\<not> err b"
    using asm_fits [of "new_assembler\<lparr>next_label := n\<rparr>" ?ys] True b
    by (auto simp: new_assembler_def)
  have lk: "linked ?L 0 ?ys"
  proof (rule linkedI [OF assms(1)])
    show "distinct (marks ?ys)" using assms(2) by simp
    show "\<And>l m. mark_pos l ?ys = Some m \<Longrightarrow> ?L l = Some (0 + m)"
      unfolding fits(3) using assms(2) by (intro labels_of_mark_pos) auto
  qed
  have "resolve_jumps ?L (jumps b) (program b) = Inr (resolved ?L 0 ?ys)"
    using resolve_jumps_ok [of 0 ?ys ?L "[]"] linked_jumps_last [OF lk] by (auto simp: fits)
  moreover have "length (resolved L m zs) = isize zs" for L m zs
    by (induction L m zs rule: resolved.induct) simp_all
  moreover have "bpf_run d a (resolved ?L 0 ?ys) = srun d a ?ys" for d a
    using True by (intro resolved_run [OF lk]) (simp add: maximumInstructions_def)
  ultimately show ?thesis using True fits(4) by simp
next
  case False
  then show ?thesis
    using asm_overflow [of "new_assembler\<lparr>next_label := n\<rparr>" "xs @ [I x]"] b
    by (simp add: new_assembler_def)
qed

end
