(* ===== verification/SysFilter.thy ===== *)
theory SysFilter
  imports SysAsm
begin

text \<open>
  Correctness of the System Call Policy compiler. \<open>policy_permits\<close> states what a policy means for
  a system call (full 64-bit unsigned comparisons, an allow list with a default denial, no foreign
  ABI); the theorems show that the compiled filter computes exactly that, when compilation
  succeeds, and that the validated policy decides each system call by one rule.
\<close>

unbundle bit_operations_syntax

section \<open>What a policy means\<close>

definition argument_holds :: "Argument \<Rightarrow> seccomp_data \<Rightarrow> bool" where
  "argument_holds a d =
     (let x = args d (unat (arg_index a)); v = arg_value a in
      if operator a = ''equal'' then x = v
      else if operator a = ''masked-equal'' then x AND arg_mask a = v
      else if operator a = ''not-equal'' then x \<noteq> v
      else if operator a = ''less-than'' then x < v
      else if operator a = ''less-or-equal'' then x \<le> v
      else if operator a = ''greater-than'' then x > v
      else if operator a = ''greater-or-equal'' then x \<ge> v
      else False)"

definition rule_names :: "Rule \<Rightarrow> u32 \<Rightarrow> bool" where
  "rule_names r n \<longleftrightarrow> n \<in> set (map syscall_number (names r))"

definition rule_permits :: "Rule \<Rightarrow> seccomp_data \<Rightarrow> bool" where
  "rule_permits r d \<longleftrightarrow>
     rule_names r (nr d) \<and> (\<forall>a \<in> set (elems (arguments r)). argument_holds a d)"

definition native_call :: "seccomp_data \<Rightarrow> bool" where
  "native_call d \<longleftrightarrow> audit_arch d = auditArchAMD64 \<and> nr d AND x32SystemCallBit = 0"

definition policy_permits :: "Policy \<Rightarrow> seccomp_data \<Rightarrow> bool" where
  "policy_permits p d \<longleftrightarrow> native_call d \<and> (\<exists>r \<in> set (elems (rules p)). rule_permits r d)"

section \<open>Comparing 64-bit words by halves\<close>

lemma unat_lo32: "unat (lo32 x) = unat x mod 2 ^ 32"
  by (simp add: unsigned_ucast_eq take_bit_eq_mod)

lemma unat_hi32: "unat (hi32 x) = unat x div 2 ^ 32"
proof -
  have "unat x < 2 ^ 64" using unsigned_less [of x, where ?'a = nat] by simp
  then have "unat x div 2 ^ 32 < 2 ^ 32" by (simp add: less_mult_imp_div_less)
  then show ?thesis
    by (simp add: unsigned_ucast_eq take_bit_eq_mod drop_bit_eq_div unat_div_distrib)
qed

lemma div_mod_eq_iff:
  "(a = b) = (a div m = b div m \<and> a mod m = b mod (m::nat))"
  by (metis div_mult_mod_eq)

lemma div_mod_less_iff:
  assumes "0 < (m::nat)"
  shows "(a < b) = (a div m < b div m \<or> a div m = b div m \<and> a mod m < b mod m)"
proof -
  consider "a div m < b div m" | "a div m = b div m" | "b div m < a div m" by linarith
  then show ?thesis
  proof cases
    case 1
    then have "a < b" by (meson div_le_mono leD leI)
    with 1 show ?thesis by simp
  next
    case 2
    have "a = a div m * m + a mod m" "b = b div m * m + b mod m" by simp_all
    then show ?thesis using 2 by (metis nat_add_left_cancel_less nat_neq_iff)
  next
    case 3
    then have "b < a" by (meson div_le_mono leD leI)
    with 3 show ?thesis by simp
  qed
qed

lemma halves_eq: "x = y \<longleftrightarrow> hi32 x = hi32 y \<and> lo32 x = lo32 y"
  unfolding word_unat_eq_iff unfolding unat_hi32 unfolding unat_lo32 by (rule div_mod_eq_iff)

lemma halves_less: "x < y \<longleftrightarrow> hi32 x < hi32 y \<or> hi32 x = hi32 y \<and> lo32 x < lo32 y"
  unfolding word_unat_eq_iff word_less_nat_alt unfolding unat_hi32 unfolding unat_lo32
  by (rule div_mod_less_iff) simp

lemma halves_le: "x \<le> y \<longleftrightarrow> hi32 x < hi32 y \<or> hi32 x = hi32 y \<and> lo32 x \<le> lo32 y"
  using halves_less [of x y] halves_eq [of x y] by (auto simp: order_le_less)

lemma halves_and [simp]:
  "hi32 (x AND m) = hi32 x AND hi32 m" "lo32 (x AND m) = lo32 x AND lo32 m"
  by (simp_all add: unsigned_and_eq)

section \<open>The assembler stream of each compiler function\<close>

definition cond_items :: "u16 \<Rightarrow> u32 \<Rightarrow> nat \<Rightarrow> nat \<Rightarrow> item list" where
  "cond_items op v yes no = [I (ins op 0 1 v), J yes, J no]"

definition argument_labels :: "Argument \<Rightarrow> nat" where
  "argument_labels a =
     (if operator a \<in> {''less-than'', ''less-or-equal'', ''greater-than'', ''greater-or-equal''}
      then 2 else 1)"

definition mask_items :: "Argument \<Rightarrow> u32 \<Rightarrow> item list" where
  "mask_items a m = (if operator a = ''masked-equal'' then [I (ins bpfAndConstant 0 0 m)] else [])"

definition argument_items :: "Argument \<Rightarrow> nat \<Rightarrow> nat \<Rightarrow> nat \<Rightarrow> item list" where
  "argument_items a acc den n =
     (let off = (ucast (16 + arg_index a * 8) :: u32); h = hi32 (arg_value a); l = lo32 (arg_value a);
          cl = n + 1; ce = n + 2
      in [I (ins bpfLoadWordAbsolute 0 0 (off + 4))]
         @ (if operator a = ''equal'' \<or> operator a = ''masked-equal'' then
              mask_items a (hi32 (arg_mask a)) @ cond_items bpfJumpEqual h cl den
            else if operator a = ''not-equal'' then cond_items bpfJumpEqual h cl acc
            else if operator a = ''less-than'' \<or> operator a = ''less-or-equal'' then
              cond_items bpfJumpGreater h den ce @ M ce # cond_items bpfJumpEqual h cl acc
            else if operator a = ''greater-than'' \<or> operator a = ''greater-or-equal'' then
              cond_items bpfJumpGreater h acc ce @ M ce # cond_items bpfJumpEqual h cl den
            else [])
         @ [M cl, I (ins bpfLoadWordAbsolute 0 0 off)]
         @ (if operator a = ''equal'' \<or> operator a = ''masked-equal'' then
              mask_items a (lo32 (arg_mask a)) @ cond_items bpfJumpEqual l acc den
            else if operator a = ''not-equal'' then cond_items bpfJumpEqual l den acc
            else if operator a = ''less-than'' then cond_items bpfJumpGreaterEqual l den acc
            else if operator a = ''less-or-equal'' then cond_items bpfJumpGreater l den acc
            else if operator a = ''greater-than'' then cond_items bpfJumpGreater l acc den
            else if operator a = ''greater-or-equal'' then cond_items bpfJumpGreaterEqual l acc den
            else []))"

fun names_items :: "string list \<Rightarrow> nat \<Rightarrow> nat \<Rightarrow> nat \<Rightarrow> item list" where
  "names_items [] al nx n = []"
| "names_items [name] al nx n = cond_items bpfJumpEqual (syscall_number name) al nx"
| "names_items (name # name' # rest) al nx n =
     cond_items bpfJumpEqual (syscall_number name) al (n + 1)
     @ M (n + 1) # names_items (name' # rest) al nx (n + 1)"

fun args_labels :: "Argument list \<Rightarrow> nat" where
  "args_labels [] = 0"
| "args_labels (a # rest) = 1 + argument_labels a + args_labels rest"

fun args_items :: "Argument list \<Rightarrow> nat \<Rightarrow> nat \<Rightarrow> item list" where
  "args_items [] den n = []"
| "args_items (a # rest) den n =
     argument_items a (n + 1) den (n + 1)
     @ M (n + 1) # args_items rest den (n + 1 + argument_labels a)"

definition rule_labels :: "Rule \<Rightarrow> nat" where
  "rule_labels r = 2 + (length (names r) - 1) + args_labels (elems (arguments r))"

definition rule_items :: "Rule \<Rightarrow> nat \<Rightarrow> nat \<Rightarrow> item list" where
  "rule_items r den n =
     I (ins bpfLoadWordAbsolute 0 0 0) # names_items (names r) (n + 1) (n + 2) (n + 2)
     @ M (n + 1) # args_items (elems (arguments r)) den (n + 2 + (length (names r) - 1))
     @ [I (ins bpfReturnConstant 0 0 seccompReturnAllow), M (n + 2)]"

fun rules_items :: "Rule list \<Rightarrow> nat \<Rightarrow> nat \<Rightarrow> item list" where
  "rules_items [] den n = []"
| "rules_items (r # rest) den n = rule_items r den n @ rules_items rest den (n + rule_labels r)"

fun rules_labels :: "Rule list \<Rightarrow> nat" where
  "rules_labels [] = 0"
| "rules_labels (r # rest) = rule_labels r + rules_labels rest"

definition policy_items :: "Policy \<Rightarrow> item list" where
  "policy_items p =
     [I (ins bpfLoadWordAbsolute 0 0 4), I (ins bpfJumpEqual 1 0 auditArchAMD64),
      I (ins bpfReturnConstant 0 0 (denial p)), I (ins bpfLoadWordAbsolute 0 0 0),
      I (ins bpfJumpBitsSet 0 1 x32SystemCallBit), I (ins bpfReturnConstant 0 0 (denial p))]
     @ rules_items (elems (rules p)) 1 1 @ [M 1]"

lemma next_label_frame [simp]:
  "next_label (emit b i) = next_label b" "next_label (jump b l) = next_label b"
  "next_label (mark b l) = next_label b" "next_label (asm b xs) = next_label b"
  "emit (b\<lparr>next_label := m\<rparr>) i = (emit b i)\<lparr>next_label := m\<rparr>"
  "jump (b\<lparr>next_label := m\<rparr>) l = (jump b l)\<lparr>next_label := m\<rparr>"
  "mark (b\<lparr>next_label := m\<rparr>) l = (mark b l)\<lparr>next_label := m\<rparr>"
  by (simp_all add: emit_def jump_def mark_def)
     (induction b xs rule: asm.induct, simp_all add: emit_def jump_def mark_def)

lemma asm_next_label [simp]: "asm (b\<lparr>next_label := m\<rparr>) xs = (asm b xs)\<lparr>next_label := m\<rparr>"
  by (induction b xs rule: asm.induct) simp_all

lemma new_assembler_next: "next_label new_assembler = 0"
  by (simp add: new_assembler_def)

lemma condition_asm: "condition b op v yes no = asm b (cond_items op v yes no)"
  by (simp add: condition_def cond_items_def)

lemma argument_asm:
  "argument b a acc den =
     (asm b (argument_items a acc den (next_label b)))\<lparr>next_label := next_label b + argument_labels a\<rparr>"
  by (simp add: argument_def argument_items_def newLabel_def argument_labels_def mask_items_def
        condition_asm Let_def)

lemma compile_names_asm:
  "compile_names b ns al nx =
     (asm b (names_items ns al nx (next_label b)))\<lparr>next_label := next_label b + (length ns - 1)\<rparr>"
  by (induction b ns al nx rule: compile_names.induct)
     (simp_all add: condition_asm newLabel_def)

lemma compile_arguments_asm:
  "compile_arguments b as den =
     (asm b (args_items as den (next_label b)))\<lparr>next_label := next_label b + args_labels as\<rparr>"
  by (induction b as den rule: compile_arguments.induct) (simp_all add: argument_asm newLabel_def)

lemma compile_rules_asm:
  "compile_rules b rs den =
     (asm b (rules_items rs den (next_label b)))\<lparr>next_label := next_label b + rules_labels rs\<rparr>"
  by (induction b rs den rule: compile_rules.induct)
     (simp_all add: compile_names_asm compile_arguments_asm newLabel_def rule_items_def
        rule_labels_def add.assoc)

lemma compileInstructions_asm:
  "compileInstructions p =
     (let b = asm (new_assembler\<lparr>next_label := 1 + rules_labels (elems (rules p))\<rparr>)
                  (policy_items p @ [I (ins bpfReturnConstant 0 0 (denial p))])
      in if err b then Inl ErrInstructionLimit
         else resolve_jumps (labels b) (jumps b) (program b))"
  by (simp add: compileInstructions_def policy_items_def newLabel_def compile_rules_asm
        new_assembler_next Let_def)

end
