(* ===== verification/SysCorrect.thy ===== *)
theory SysCorrect
  imports SysFilter
begin

text \<open>
  Symbolic runs of the compiled policy, the shape of its assembler stream, and the resulting
  properties of \<open>Compile\<close>: the filter decides every system call as the policy says, the forward
  branch check never fails, and compilation succeeds exactly for policies within the kernel limit.
\<close>

unbundle bit_operations_syntax

section \<open>Running one argument check\<close>

definition valid_argument :: "Argument \<Rightarrow> bool" where
  "valid_argument a \<longleftrightarrow>
     arg_index a \<le> 5 \<and> (operator a \<in> set plain_operators \<or> operator a = ''masked-equal'')"

lemma u64_le_5: "(x :: u64) \<le> 5 \<Longrightarrow> x \<in> {0, 1, 2, 3, 4, 5}"
proof -
  assume "x \<le> 5"
  then have "unat x \<le> 5" by (simp add: word_le_nat_alt)
  then have "unat x = 0 \<or> unat x = 1 \<or> unat x = 2 \<or> unat x = 3 \<or> unat x = 4 \<or> unat x = 5" by auto
  then show ?thesis by (simp add: word_unat_eq_iff)
qed

lemma load_argument:
  assumes "(i :: u64) \<le> 5"
  shows "load_word d (ucast (16 + i * 8)) = Some (lo32 (args d (unat i)))"
    and "load_word d (ucast (16 + i * 8) + 4) = Some (hi32 (args d (unat i)))"
  using u64_le_5 [OF assms] by (auto simp: load_word_def)

lemma srun_cond:
  assumes "op \<in> {bpfJumpEqual, bpfJumpGreater, bpfJumpGreaterEqual}"
  shows "srun d a (cond_items op v yes no @ rest) =
    srun d a (goto (if (if op = bpfJumpEqual then a = v else if op = bpfJumpGreater then v < a else v \<le> a)
                    then yes else no) rest)"
  using assms by (auto simp: cond_items_def opcode_defs bpf_step_def)

lemma srun_simps_cond [simp]:
  "srun d a (cond_items bpfJumpEqual v yes no @ rest) = srun d a (goto (if a = v then yes else no) rest)"
  "srun d a (cond_items bpfJumpGreater v yes no @ rest) = srun d a (goto (if v < a then yes else no) rest)"
  "srun d a (cond_items bpfJumpGreaterEqual v yes no @ rest) =
     srun d a (goto (if v \<le> a then yes else no) rest)"
  by (subst srun_cond; simp add: opcode_defs)+

lemma goto_cond [simp]:
  "goto l (cond_items op v yes no @ rest) = goto l rest"
  by (simp add: cond_items_def)

lemma goto_cond_Nil [simp]: "goto l (cond_items op v yes no) = []"
  by (simp add: cond_items_def)

lemma argument_run:
  assumes "valid_argument a" and "acc \<le> n" and "den \<le> n"
  shows "\<exists>r. srun d r0 (argument_items a acc den n @ rest) =
             srun d r (goto (if argument_holds a d then acc else den) rest)"
proof -
  let ?x = "args d (unat (arg_index a))" and ?v = "arg_value a"
  have load: "load_word d (ucast (16 + arg_index a * 8)) = Some (lo32 ?x)"
    "load_word d (ucast (16 + arg_index a * 8) + 4) = Some (hi32 ?x)"
    using assms(1) by (auto simp: valid_argument_def load_argument)
  have labels: "acc \<noteq> n + 1" "acc \<noteq> n + 2" "den \<noteq> n + 1" "den \<noteq> n + 2" using assms by auto
  note simps = argument_items_def argument_holds_def mask_items_def load Let_def
  from assms(1) consider "operator a = ''equal''" | "operator a = ''masked-equal''"
    | "operator a = ''not-equal''" | "operator a = ''less-than''" | "operator a = ''less-or-equal''"
    | "operator a = ''greater-than''" | "operator a = ''greater-or-equal''"
    by (auto simp: valid_argument_def plain_operators_def)
  then show ?thesis
  proof cases
    case 1
    show ?thesis using labels halves_eq [of ?x ?v] by (auto simp: simps 1)
  next
    case 2
    show ?thesis using labels halves_eq [of "?x AND arg_mask a" ?v] by (auto simp: simps 2)
  next
    case 3
    show ?thesis using labels halves_eq [of ?x ?v] by (auto simp: simps 3)
  next
    case 4
    show ?thesis using labels halves_less [of ?x ?v] by (auto simp: simps 4)
  next
    case 5
    show ?thesis using labels halves_le [of ?x ?v] by (auto simp: simps 5)
  next
    case 6
    show ?thesis using labels halves_less [of ?v ?x] by (auto simp: simps 6)
  next
    case 7
    show ?thesis using labels halves_le [of ?v ?x] by (auto simp: simps 7)
  qed
qed

section \<open>Labels of the stream\<close>

lemma marks_cond [simp]: "marks (cond_items op v yes no) = []"
  by (simp add: cond_items_def)

lemma marks_mask [simp]: "marks (mask_items a m) = []"
  by (simp add: mask_items_def)

lemma isize_cond [simp]: "isize (cond_items op v yes no) = 3"
  by (simp add: cond_items_def)

lemma closed_cond [simp]: "closed_in S (cond_items op v yes no) \<longleftrightarrow> yes \<in> S \<and> no \<in> S"
  by (simp add: cond_items_def)

lemma closed_mask [simp]: "closed_in S (mask_items a m)"
  by (simp add: mask_items_def)

lemma marks_argument:
  "valid_argument a \<Longrightarrow> distinct (marks (argument_items a acc den n)) \<and>
   set (marks (argument_items a acc den n)) \<subseteq> {n + 1..n + argument_labels a}"
  by (auto simp: argument_items_def argument_labels_def Let_def)

lemma marks_names:
  "distinct (marks (names_items ns al nx n)) \<and>
   set (marks (names_items ns al nx n)) \<subseteq> {n + 1..n + (length ns - 1)}"
proof (induction ns al nx n rule: names_items.induct)
  case (3 name name' rest al nx n)
  then show ?case by fastforce
qed simp_all

lemma marks_args:
  "\<forall>a \<in> set as. valid_argument a \<Longrightarrow> distinct (marks (args_items as den n)) \<and>
   set (marks (args_items as den n)) \<subseteq> {n + 1..n + args_labels as}"
proof (induction as den n rule: args_items.induct)
  case (2 a rest den n)
  then show ?case using marks_argument [of a "n + 1" den "n + 1"] by fastforce
qed simp

lemma marks_rule:
  assumes "\<forall>a \<in> set (elems (arguments r)). valid_argument a"
  shows "distinct (marks (rule_items r den n)) \<and>
         set (marks (rule_items r den n)) \<subseteq> {n + 1..n + rule_labels r}"
  using marks_names [of "names r" "n + 1" "n + 2" "n + 2"]
    marks_args [OF assms, of den "n + 2 + (length (names r) - 1)"]
  by (fastforce simp: rule_items_def rule_labels_def)

definition valid_rule :: "Rule \<Rightarrow> bool" where
  "valid_rule r \<longleftrightarrow> names r \<noteq> [] \<and> (\<forall>a \<in> set (elems (arguments r)). valid_argument a)"

lemma marks_rules:
  "\<forall>r \<in> set rs. valid_rule r \<Longrightarrow> distinct (marks (rules_items rs den n)) \<and>
   set (marks (rules_items rs den n)) \<subseteq> {n + 1..n + rules_labels rs}"
proof (induction rs den n rule: rules_items.induct)
  case (2 r rest den n)
  then show ?case using marks_rule [of r den n] by (fastforce simp: valid_rule_def)
qed simp

lemma closed_argument:
  "acc \<in> S \<Longrightarrow> den \<in> S \<Longrightarrow> closed_in S (argument_items a acc den n)"
  by (auto simp: argument_items_def Let_def closed_in_append)

lemma closed_names:
  "al \<in> S \<Longrightarrow> nx \<in> S \<Longrightarrow> closed_in S (names_items ns al nx n)"
  by (induction ns al nx n rule: names_items.induct) (auto simp: closed_in_append)

lemma closed_args: "den \<in> S \<Longrightarrow> closed_in S (args_items as den n)"
  by (induction as den n rule: args_items.induct) (auto simp: closed_in_append closed_argument)

lemma closed_rules: "den \<in> S \<Longrightarrow> closed_in S (rules_items rs den n)"
  by (induction rs den n rule: rules_items.induct)
     (auto simp: closed_in_append rule_items_def closed_names closed_args)

section \<open>Running the rules\<close>

lemma names_run:
  "ns \<noteq> [] \<Longrightarrow> al \<le> n \<Longrightarrow> nx \<le> n \<Longrightarrow>
   srun d r (names_items ns al nx n @ rest) =
   srun d r (goto (if r \<in> set (map syscall_number ns) then al else nx) rest)"
proof (induction ns al nx n rule: names_items.induct)
  case (3 name name' rest' al nx n)
  have "goto al (names_items (name' # rest') al nx (n + 1) @ rest) = goto al rest"
    using marks_names [of "name' # rest'" al nx "n + 1"] "3.prems" by (intro goto_append) auto
  with 3 show ?case by auto
qed auto

lemma args_run:
  "\<forall>a \<in> set as. valid_argument a \<Longrightarrow> den \<le> n \<Longrightarrow>
   \<exists>r. srun d r0 (args_items as den n @ rest) =
       (if \<forall>a \<in> set as. argument_holds a d then srun d r rest else srun d r (goto den rest))"
proof (induction as den n arbitrary: r0 rule: args_items.induct)
  case (2 a as den n)
  let ?tail = "args_items as den (n + 1 + argument_labels a) @ rest"
  obtain r where r: "srun d r0 (argument_items a (n + 1) den (n + 1) @ M (n + 1) # ?tail) =
      srun d r (goto (if argument_holds a d then n + 1 else den) (M (n + 1) # ?tail))"
    using argument_run [of a "n + 1" "n + 1" den d r0 "M (n + 1) # ?tail"] "2.prems"
    by (auto simp del: goto.simps)
  have den: "goto den ?tail = goto den rest"
    using marks_args [of as den "n + 1 + argument_labels a"] "2.prems" by (intro goto_append) auto
  show ?case
  proof (cases "argument_holds a d")
    case True
    with r "2.IH" [of r] "2.prems" show ?thesis by auto
  next
    case False
    with r den "2.prems" show ?thesis by auto
  qed
qed auto

fun rules_verdict :: "Rule list \<Rightarrow> seccomp_data \<Rightarrow> bool" where
  "rules_verdict [] d = False"
| "rules_verdict (r # rs) d = (if rule_names r (nr d) then rule_permits r d else rules_verdict rs d)"

lemma rule_run:
  assumes "valid_rule r" and "den \<le> n"
  shows "\<exists>r1. srun d r0 (rule_items r den n @ rest) =
    (if rule_names r (nr d)
     then if rule_permits r d then Some seccompReturnAllow else srun d r1 (goto den rest)
     else srun d r1 rest)"
proof -
  let ?as = "elems (arguments r)" and ?m = "n + 2 + (length (names r) - 1)"
  let ?fin = "[I (ins bpfReturnConstant 0 0 seccompReturnAllow), M (n + 2)] @ rest"
  let ?args = "args_items ?as den ?m @ ?fin"
  have va: "\<forall>a \<in> set ?as. valid_argument a" using assms(1) by (simp add: valid_rule_def)
  have load: "load_word d 0 = Some (nr d)" by (simp add: load_word_def)
  have names: "srun d r0 (rule_items r den n @ rest) =
      srun d (nr d) (goto (if rule_names r (nr d) then n + 1 else n + 2) (M (n + 1) # ?args))"
    using names_run [of "names r" "n + 1" "n + 2" "n + 2" d "nr d" "M (n + 1) # ?args"] assms(1)
    by (simp add: rule_items_def load rule_names_def valid_rule_def)
  have skip: "goto (n + 2) ?args = rest"
    using marks_args [OF va, of den ?m] by (subst goto_append) auto
  have den: "goto den ?fin = goto den rest" using assms(2) by simp
  obtain r1 where "srun d (nr d) ?args = (if \<forall>a \<in> set ?as. argument_holds a d
      then srun d r1 ?fin else srun d r1 (goto den ?fin))"
    using args_run [OF va, of den ?m d "nr d" ?fin] assms(2) by auto
  then have hit: "srun d (nr d) ?args = (if \<forall>a \<in> set ?as. argument_holds a d
      then Some seccompReturnAllow else srun d r1 (goto den rest))"
    unfolding den by simp
  show ?thesis
  proof (cases "rule_names r (nr d)")
    case True
    then show ?thesis using names hit by (auto simp: rule_permits_def)
  next
    case False
    then show ?thesis using names skip by (auto simp: rule_permits_def)
  qed
qed

lemma rules_run:
  "\<forall>r \<in> set rs. valid_rule r \<Longrightarrow> den \<le> n \<Longrightarrow>
   srun d r0 (rules_items rs den n @ [M den, I (ins bpfReturnConstant 0 0 v)]) =
   Some (if rules_verdict rs d then seccompReturnAllow else v)"
proof (induction rs den n arbitrary: r0 rule: rules_items.induct)
  case (2 r rs den n)
  let ?rest = "rules_items rs den (n + rule_labels r) @ [M den, I (ins bpfReturnConstant 0 0 v)]"
  obtain r1 where r1: "srun d r0 (rule_items r den n @ ?rest) = (if rule_names r (nr d)
     then if rule_permits r d then Some seccompReturnAllow else srun d r1 (goto den ?rest)
     else srun d r1 ?rest)"
    using rule_run [of r den n d r0 ?rest] "2.prems" by auto
  have "goto den ?rest = [I (ins bpfReturnConstant 0 0 v)]"
    using marks_rules [of rs den "n + rule_labels r"] "2.prems" by (subst goto_append) auto
  with r1 "2.IH" [of r1] "2.prems" show ?case by simp
qed simp

lemma policy_run:
  assumes "\<forall>r \<in> set (elems (rules p)). valid_rule r"
  shows "srun d r0 (policy_items p @ [I (ins bpfReturnConstant 0 0 (denial p))]) =
    Some (if native_call d \<and> rules_verdict (elems (rules p)) d then seccompReturnAllow else denial p)"
proof -
  have load: "load_word d 0 = Some (nr d)" "load_word d 4 = Some (audit_arch d)"
    by (simp_all add: load_word_def)
  show ?thesis
    using rules_run [OF assms, of 1 1 d "nr d" "denial p"]
    by (auto simp: policy_items_def load native_call_def)
qed

section \<open>Consequences of validation\<close>

lemma validate_arguments_valid:
  "validate_arguments prev as = Inr () \<Longrightarrow> \<forall>a \<in> set as. valid_argument a"
  by (induction prev as rule: validate_arguments.induct)
     (auto simp: valid_argument_def validate_operator_def split: if_splits sum.splits option.splits)

lemma validate_names_known:
  "validate_names prev ns = Inr () \<Longrightarrow> n \<in> set ns \<Longrightarrow> map_of amd64SystemCalls n \<noteq> None"
  by (induction prev ns rule: validate_names.induct) (auto split: if_splits option.splits)

lemma validate_names_sorted:
  "validate_names prev ns = Inr () \<Longrightarrow>
   sorted_wrt (<) ns \<and> (\<forall>p. prev = Some p \<longrightarrow> (\<forall>n \<in> set ns. p < n))"
proof (induction prev ns rule: validate_names.induct)
  case (2 prev name rest)
  then show ?case by (cases prev) (fastforce split: if_splits)+
qed simp

lemma validate_rules_valid:
  "validate_rules prev rs = Inr () \<Longrightarrow> \<forall>r \<in> set rs. valid_rule r"
  by (induction prev rs rule: validate_rules.induct)
     (auto simp: valid_rule_def elems_def dest!: validate_arguments_valid
       split: if_splits sum.splits option.splits)

text \<open>All names of all rules are in strictly increasing order.\<close>

lemma validate_rules_sorted:
  "validate_rules prev rs = Inr () \<Longrightarrow>
   sorted_wrt (<) (concat (map names rs)) \<and>
   (\<forall>p. prev = Some p \<longrightarrow> (\<forall>n \<in> set (concat (map names rs)). p < n)) \<and>
   (\<forall>n \<in> set (concat (map names rs)). map_of amd64SystemCalls n \<noteq> None)"
proof (induction prev rs rule: validate_rules.induct)
  case (2 prev r rest)
  from "2.prems" obtain as where
    ne: "names r \<noteq> []" and nm: "validate_names None (names r) = Inr ()"
    and pv: "\<And>p. prev = Some p \<Longrightarrow> p < hd (names r)"
    and rec: "validate_rules (Some (last (names r))) rest = Inr ()"
    and "arguments r = Some as" "validate_arguments None as = Inr ()"
    by (auto split: if_splits sum.splits option.splits)
  have so: "sorted_wrt (<) (names r)" using validate_names_sorted [OF nm] by simp
  have tail: "sorted_wrt (<) (concat (map names rest))"
    "\<forall>n \<in> set (concat (map names rest)). last (names r) < n"
    "\<forall>n \<in> set (concat (map names rest)). map_of amd64SystemCalls n \<noteq> None"
    using "2.prems" rec "2.IH" by (auto split: if_splits sum.splits option.splits)
  have "\<And>x y. x \<in> set (names r) \<Longrightarrow> y \<in> set (concat (map names rest)) \<Longrightarrow> x < y"
    using sorted_le_last [OF so] tail(2) by (meson order_le_less_trans)
  moreover have "\<And>p x. prev = Some p \<Longrightarrow> x \<in> set (names r) \<Longrightarrow> p < x"
    using sorted_hd_le [OF so] pv by (metis order_less_le_trans)
  moreover have "\<And>p x. prev = Some p \<Longrightarrow> x \<in> set (concat (map names rest)) \<Longrightarrow> p < x"
  proof -
    fix p x
    assume "prev = Some p" and x: "x \<in> set (concat (map names rest))"
    then have "p < hd (names r)" using pv by blast
    also have "hd (names r) \<le> last (names r)" using sorted_le_last [OF so] ne by simp
    also have "last (names r) < x" using tail(2) x by blast
    finally show "p < x" .
  qed
  ultimately show ?case
    using so tail validate_names_known [OF nm] by (fastforce simp: sorted_wrt_append)
qed simp

lemma syscall_numbers_distinct: "distinct (map snd amd64SystemCalls)"
  by (simp add: amd64SystemCalls_def)

lemma syscall_number_inj:
  assumes "map_of amd64SystemCalls m \<noteq> None" and "map_of amd64SystemCalls n \<noteq> None"
    and "syscall_number m = syscall_number n"
  shows "m = n"
proof -
  from assms obtain v where "map_of amd64SystemCalls m = Some v" "map_of amd64SystemCalls n = Some v"
    by (auto simp: syscall_number_def)
  then have "(m, v) \<in> set amd64SystemCalls" "(n, v) \<in> set amd64SystemCalls"
    by (auto dest: map_of_SomeD)
  then show ?thesis using syscall_numbers_distinct by (metis distinct_map inj_on_def old.prod.inject snd_conv)
qed

text \<open>A system call is named by at most one rule, so the first rule that names it decides.\<close>

lemma rules_verdict_iff:
  "sorted_wrt (<) (concat (map names rs)) \<Longrightarrow>
   \<forall>n \<in> set (concat (map names rs)). map_of amd64SystemCalls n \<noteq> None \<Longrightarrow>
   rules_verdict rs d \<longleftrightarrow> (\<exists>r \<in> set rs. rule_permits r d)"
proof (induction rs)
  case (Cons r rs)
  have once: "\<not> rule_names r' (nr d)" if "rule_names r (nr d)" "r' \<in> set rs" for r'
  proof
    assume "rule_names r' (nr d)"
    with that obtain m n where "m \<in> set (names r)" "n \<in> set (names r')"
      "syscall_number m = syscall_number n" by (auto simp: rule_names_def)
    moreover from this that(2) have "m < n" using Cons.prems(1) by (auto simp: sorted_wrt_append)
    moreover have "m = n"
      using calculation that(2) Cons.prems(2) by (intro syscall_number_inj) auto
    ultimately show False by simp
  qed
  have "rules_verdict rs d \<longleftrightarrow> (\<exists>r \<in> set rs. rule_permits r d)"
    using Cons by (simp add: sorted_wrt_append)
  then show ?case using once by (auto simp: rule_permits_def)
qed simp

lemma compiled_run:
  assumes "\<forall>r \<in> set (elems (rules p)). valid_rule r"
  shows "if isize (policy_items p) < maximumInstructions
    then \<exists>prog. compileInstructions p = Inr prog \<and> length prog = Suc (isize (policy_items p)) \<and>
      (\<forall>d a. bpf_run d a prog = Some (if native_call d \<and> rules_verdict (elems (rules p)) d
                                       then seccompReturnAllow else denial p))
    else compileInstructions p = Inl ErrInstructionLimit"
proof -
  let ?n = "1 + rules_labels (elems (rules p))" and ?x = "ins bpfReturnConstant 0 0 (denial p)"
  have marks: "distinct (marks (policy_items p))"
    using marks_rules [OF assms, of 1 1] by (auto simp: policy_items_def)
  have closed: "closed_in {} (policy_items p @ [I ?x])"
    using closed_rules [of 1 "{1}" "elems (rules p)" 1]
    by (simp add: policy_items_def closed_in_append)
  show ?thesis
    using assemble_correct [OF closed marks refl, of ?n] policy_run [OF assms]
    by (auto simp: compileInstructions_asm Let_def split: if_splits)
qed

lemma validate_rules_elems:
  "validate p = Inr () \<Longrightarrow> validate_rules None (elems (rules p)) = Inr ()"
  by (auto simp: validate_def elems_def split: if_splits option.splits)

section \<open>The size of a compiled policy\<close>

definition argument_size :: "Argument \<Rightarrow> nat" where
  "argument_size a =
     (if operator a = ''masked-equal'' then 10
      else if operator a = ''equal'' \<or> operator a = ''not-equal'' then 8 else 11)"

definition rule_size :: "Rule \<Rightarrow> nat" where
  "rule_size r = 2 + 3 * length (names r) + sum_list (map argument_size (elems (arguments r)))"

definition policy_size :: "Policy \<Rightarrow> nat" where
  "policy_size p = 7 + sum_list (map rule_size (elems (rules p)))"

lemma isize_argument: "valid_argument a \<Longrightarrow> isize (argument_items a acc den n) = argument_size a"
  by (auto simp: argument_items_def argument_size_def mask_items_def valid_argument_def
        plain_operators_def Let_def)

lemma isize_names: "isize (names_items ns al nx n) = 3 * length ns"
  by (induction ns al nx n rule: names_items.induct) simp_all

lemma isize_args:
  "\<forall>a \<in> set as. valid_argument a \<Longrightarrow>
   isize (args_items as den n) = sum_list (map argument_size as)"
  by (induction as den n rule: args_items.induct) (simp_all add: isize_argument)

lemma isize_rules:
  "\<forall>r \<in> set rs. valid_rule r \<Longrightarrow> isize (rules_items rs den n) = sum_list (map rule_size rs)"
  by (induction rs den n rule: rules_items.induct)
     (simp_all add: rule_items_def isize_names isize_args valid_rule_def rule_size_def)

lemma isize_policy:
  "\<forall>r \<in> set (elems (rules p)). valid_rule r \<Longrightarrow> Suc (isize (policy_items p)) = policy_size p"
  by (simp add: policy_items_def policy_size_def isize_rules)

section \<open>An example policy\<close>

text \<open>Two unconditional calls, and \<open>clone\<close> restricted to calls without namespace flags.\<close>

definition example_policy :: Policy where
  "example_policy = \<lparr>schema = ''system-call-policy/v1'', profile = ''python-data-v1'',
     target = \<lparr>os = ''linux'', arch = ''amd64''\<rparr>,
     defaultAction = \<lparr>default_action = ''errno'', errno = 1\<rparr>,
     rules = Some [
       \<lparr>names = [''clone''], rule_action = ''allow'',
        arguments = Some [\<lparr>arg_index = 0, operator = ''masked-equal'', arg_value = 0, arg_mask = 0x7e020000\<rparr>]\<rparr>,
       \<lparr>names = [''read'', ''write''], rule_action = ''allow'', arguments = Some []\<rparr>]\<rparr>"

lemma example_policy_valid: "validate example_policy = Inr ()"
proof -
  have known: "map_of amd64SystemCalls ''clone'' = Some 56" "map_of amd64SystemCalls ''read'' = Some 0"
    "map_of amd64SystemCalls ''write'' = Some 1"
    by (simp_all add: amd64SystemCalls_def)
  show ?thesis
    by (simp add: validate_def example_policy_def known validate_operator_def plain_operators_def
          less_le_not_le)
qed

definition example_call :: "u32 \<Rightarrow> u64 \<Rightarrow> seccomp_data" where
  "example_call n x = \<lparr>nr = n, audit_arch = auditArchAMD64, instruction_pointer = 0,
     args = (\<lambda>i. if i = 0 then x else 0)\<rparr>"

lemma example_policy_size: "policy_size example_policy = 30"
  by (simp add: policy_size_def rule_size_def argument_size_def example_policy_def elems_def)

lemma example_policy_compiles: "\<exists>prog. Compile ''amd64'' example_policy = Inr prog"
  using compiled_run [OF validate_rules_valid [OF validate_rules_elems [OF example_policy_valid]]]
    isize_policy [OF validate_rules_valid [OF validate_rules_elems [OF example_policy_valid]]]
  by (auto simp: Compile_def example_policy_valid example_policy_size maximumInstructions_def
        split: if_splits)

section \<open>Properties\<close>

lemma or_above_low:
  assumes "1 \<le> (e :: int)" "e \<le> 4095"
  shows "0x50000 OR e = 0x50000 + e"
proof -
  have "take_bit 12 e = e" using assms by (simp add: take_bit_int_eq_self)
  then have "0x50000 AND e = (0x50000 AND mask 12) AND e"
    by (metis and.assoc and.commute take_bit_eq_mask)
  then have "0x50000 AND e = 0" by (simp add: mask_eq_exp_minus_1)
  then show ?thesis using plus_and_or [of "0x50000" e] by simp
qed

lemma filter_decides:
  assumes "Compile goarch p = Inr prog"
  shows "bpf_run d a prog =
    Some (if policy_permits p d then seccompReturnAllow else denial p)"
proof -
  from assms have v: "validate p = Inr ()" and c: "compileInstructions p = Inr prog"
    by (auto simp: Compile_def split: if_splits sum.splits)
  note vr = validate_rules_elems [OF v]
  have "rules_verdict (elems (rules p)) d \<longleftrightarrow> (\<exists>r \<in> set (elems (rules p)). rule_permits r d)"
    using validate_rules_sorted [OF vr] by (intro rules_verdict_iff) auto
  then show ?thesis
    using compiled_run [OF validate_rules_valid [OF vr]] c
    by (auto simp: policy_permits_def split: if_splits)
qed

text \<open>
  C1. The compiled seccomp filter decides exactly the policy: for every system call (architecture,
  number and all six 64-bit arguments) the program that \<open>Compile\<close> returns ends with ALLOW if the
  policy permits the call, and with the policy's errno otherwise.
\<close>

theorem filter_decides_policy:
  assumes "Compile goarch p = Inr prog"
  shows "bpf_run d a prog =
    Some (if policy_permits p d then seccompReturnAllow else denial p)"
  using assms by (rule filter_decides)

text \<open>A clone with CLONE_NEWUSER is refused with errno 1, a plain one is allowed.\<close>

theorem filter_decides_policy_witness:
  "\<exists>prog. Compile ''amd64'' example_policy = Inr prog \<and>
     bpf_run (example_call 56 0x10000000) 0 prog = Some 0x00050001 \<and>
     bpf_run (example_call 56 0x00000f00) 0 prog = Some seccompReturnAllow"
proof -
  obtain prog where prog: "Compile ''amd64'' example_policy = Inr prog"
    using example_policy_compiles by blast
  have num: "syscall_number ''clone'' = 56" "syscall_number ''read'' = 0" "syscall_number ''write'' = 1"
    by (simp_all add: syscall_number_def amd64SystemCalls_def)
  have "\<not> policy_permits example_policy (example_call 56 0x10000000)"
    "policy_permits example_policy (example_call 56 0x00000f00)"
    by (simp_all add: policy_permits_def rule_permits_def rule_names_def native_call_def
          example_policy_def example_call_def elems_def argument_holds_def num
          auditArchAMD64_def x32SystemCallBit_def)
  moreover have "denial example_policy = 0x00050001"
    by (simp add: denial_def example_policy_def seccompReturnErrno_def)
  ultimately show ?thesis
    using prog filter_decides_policy [OF prog, of "example_call 56 0x10000000" 0]
      filter_decides_policy [OF prog, of "example_call 56 0x00000f00" 0] by auto
qed

text \<open>
  Compilation of a validated policy never runs into the forward-branch error: it succeeds with
  a program of exactly \<open>policy_size\<close> instructions when that fits the kernel's 4096, and reports
  the instruction limit otherwise.
\<close>

lemma compile_succeeds_iff_fits:
  assumes "validate p = Inr ()"
  shows "if policy_size p \<le> maximumInstructions
    then \<exists>prog. compileInstructions p = Inr prog \<and> length prog = policy_size p
    else compileInstructions p = Inl ErrInstructionLimit"
proof -
  note v = validate_rules_valid [OF validate_rules_elems [OF assms]]
  show ?thesis using compiled_run [OF v] isize_policy [OF v] by (auto split: if_splits)
qed

lemma compile_succeeds_iff_fits_witness:
  "\<exists>prog. compileInstructions example_policy = Inr prog \<and> length prog = 30"
  using compile_succeeds_iff_fits [OF example_policy_valid]
  by (simp add: maximumInstructions_def example_policy_size)

text \<open>
  A validated policy decides every system call number by at most one rule: no two rules of the
  document name the same system call, so the order of the rules does not matter.
\<close>

lemma one_rule_per_system_call:
  assumes "validate p = Inr ()" and "i < length (elems (rules p))" and "j < length (elems (rules p))"
    and "rule_names (elems (rules p) ! i) n" and "rule_names (elems (rules p) ! j) n"
  shows "i = j"
proof -
  let ?rs = "elems (rules p)"
  have so: "sorted_wrt (<) (concat (map names ?rs))"
    and known: "\<forall>n \<in> set (concat (map names ?rs)). map_of amd64SystemCalls n \<noteq> None"
    using validate_rules_sorted [OF validate_rules_elems [OF assms(1)]] by auto
  obtain x y where x: "x \<in> set (names (?rs ! i))" "syscall_number x = n"
    and y: "y \<in> set (names (?rs ! j))" "syscall_number y = n"
    using assms(4,5) by (auto simp: rule_names_def)
  have "x = y" using x y known assms(2,3) nth_mem by (intro syscall_number_inj) fastforce+
  then show ?thesis
    using sorted_concat_index [OF so, of i j x] x y assms(2,3) by auto
qed

lemma one_rule_per_system_call_witness: "(1 :: nat) = 1 \<and> rule_names (elems (rules example_policy) ! 1) 0"
proof -
  have num: "syscall_number ''read'' = 0" by (simp add: syscall_number_def amd64SystemCalls_def)
  have r: "rule_names (elems (rules example_policy) ! 1) 0" "1 < length (elems (rules example_policy))"
    by (simp_all add: rule_names_def example_policy_def elems_def num)
  from one_rule_per_system_call [OF example_policy_valid r(2) r(2) r(1) r(1)] r show ?thesis by simp
qed

text \<open>
  The denial value of a validated policy is the kernel's ERRNO action number plus exactly the
  configured errno, without overlap of the two fields; it is never the ALLOW action.
\<close>

lemma denial_is_errno:
  assumes "validate p = Inr ()"
  shows "denial p \<noteq> seccompReturnAllow \<and>
    uint (denial p) = seccompReturnErrno + errno (defaultAction p) \<and>
    uint (denial p) mod 2 ^ 16 = errno (defaultAction p)"
proof -
  let ?e = "errno (defaultAction p)"
  from assms have e: "1 \<le> ?e" "?e \<le> 4095" by (auto simp: validate_def split: if_splits)
  have val: "uint (denial p) = 0x50000 + ?e"
    using e unfolding denial_def seccompReturnErrno_def or_above_low [OF e] uint_word_of_int by simp
  have "(0x50000 + ?e) mod 2 ^ 16 = ?e"
    using e mod_mult_self3 [of 5 "2 ^ 16" ?e] by simp
  with val show ?thesis
    using e by (auto simp: seccompReturnAllow_def seccompReturnErrno_def)
qed

end
