(* ===== verification/Codec.thy ===== *)
theory Codec
  imports Identifiers
begin

text \<open>
  sandboxsupervisor/codec_linux.go: strict decoding of JSON. The token interface of
  \<^verbatim>\<open>encoding/json.Decoder\<close> (\<open>Token\<close>, \<open>More\<close>) is written out over the lexemes of the payload: the scanner
  that splits bytes into lexemes belongs to the standard library and is an argument \<open>scan\<close> where whole
  payloads occur. \<open>consumeJSONValue\<close> is compared with the grammar of JSON itself.
\<close>

section \<open>Lexemes, values and their text\<close>

text \<open>
  \<open>Scalar\<close> is a number, \<open>true\<close>, \<open>false\<close> or \<open>null\<close> that the decoder in use accepts (one without
  \<^verbatim>\<open>UseNumber\<close> refuses numbers outside the range of a float); \<open>Bad\<close> is where the scanner fails.
\<close>

datatype lexeme = LBrace | RBrace | LBrack | RBrack | Colon | Comma | Str bytes | Scalar bytes | Bad

datatype json = JStr bytes | JLit bytes | JArr "json list" | JObj "(bytes \<times> json) list"

fun separated :: "lexeme list list \<Rightarrow> lexeme list" where
  "separated [] = []"
| "separated [x] = x"
| "separated (x # y # zs) = x @ Comma # separated (y # zs)"

fun print :: "json \<Rightarrow> lexeme list" where
  "print (JStr s) = [Str s]"
| "print (JLit l) = [Scalar l]"
| "print (JArr vs) = LBrack # separated (map print vs) @ [RBrack]"
| "print (JObj fs) = LBrace # separated (map (\<lambda>(name, v). Str name # Colon # print v) fs) @ [RBrace]"

text \<open>No object, at any depth, repeats a field name.\<close>

fun unique_names :: "json \<Rightarrow> bool" where
  "unique_names (JArr vs) = list_all unique_names vs"
| "unique_names (JObj fs) = (distinct (map fst fs) \<and> list_all (\<lambda>(name, v). unique_names v) fs)"
| "unique_names _ = True"

text \<open>The string \<^verbatim>\<open>json.Marshal\<close> writes: every byte that begins no valid UTF-8 sequence becomes U+FFFD.\<close>

function json_text :: "bytes \<Rightarrow> bytes" where
  "json_text s =
     (if s = [] then []
      else if utf8_width s = 0 then [CHR 0xEF, CHR 0xBF, CHR 0xBD] @ json_text (tl s)
      else take (utf8_width s) s @ json_text (drop (utf8_width s) s))"
  by pat_completeness auto
termination by (relation "measure length") auto

declare json_text.simps [simp del]

lemma json_text_Nil [simp]: "json_text [] = []" by (simp add: json_text.simps)

lemma json_text_valid: "utf8_valid s \<Longrightarrow> json_text s = s"
proof (induction s rule: json_text.induct)
  case (1 s)
  then show ?case by (cases "s = []") (auto simp: json_text.simps [of s] utf8_valid.simps [of s] split: if_splits)
qed

section \<open>The token interface of the decoder\<close>

datatype tokenState =
    tokenTopValue | tokenArrayStart | tokenArrayValue | tokenArrayComma
  | tokenObjectStart | tokenObjectKey | tokenObjectColon | tokenObjectValue | tokenObjectComma

record Decoder =
  tokenState :: tokenState
  tokenStack :: "tokenState list"
  input :: "lexeme list"

datatype token = Delim char | TokString bytes | TokOther

datatype json_error = ErrEOF | ErrSyntax | ErrDuplicate | ErrTrailing | ErrFuel | ErrUTF8 | ErrUnknownField | ErrTarget | ErrDepth

definition tokenValueAllowed :: "tokenState \<Rightarrow> bool" where
  "tokenValueAllowed s \<longleftrightarrow> s \<in> {tokenTopValue, tokenArrayStart, tokenArrayValue, tokenObjectValue}"

definition tokenValueEnd :: "tokenState \<Rightarrow> tokenState" where
  "tokenValueEnd s = (if s \<in> {tokenArrayStart, tokenArrayValue} then tokenArrayComma
     else if s = tokenObjectValue then tokenObjectComma else s)"

definition More :: "Decoder \<Rightarrow> bool" where
  "More dec = (case input dec of [] \<Rightarrow> False | c # _ \<Rightarrow> c \<noteq> RBrack \<and> c \<noteq> RBrace)"

text \<open>Closing a delimiter returns to the state below it.\<close>

definition closing :: "tokenState list \<Rightarrow> lexeme list \<Rightarrow> Decoder" where
  "closing stack rest = \<lparr>tokenState = tokenValueEnd (hd stack), tokenStack = tl stack, input = rest\<rparr>"

function Token :: "Decoder \<Rightarrow> json_error + token \<times> Decoder" where
  "Token dec =
     (let st = tokenState dec; stack = tokenStack dec in
      case input dec of
        [] \<Rightarrow> Inl ErrEOF
      | LBrack # rest \<Rightarrow>
         (if \<not> tokenValueAllowed st then Inl ErrSyntax
          else Inr (Delim CHR ''['', \<lparr>tokenState = tokenArrayStart, tokenStack = st # stack, input = rest\<rparr>))
      | RBrack # rest \<Rightarrow>
         (if st \<noteq> tokenArrayStart \<and> st \<noteq> tokenArrayComma then Inl ErrSyntax
          else Inr (Delim CHR '']'', closing stack rest))
      | LBrace # rest \<Rightarrow>
         (if \<not> tokenValueAllowed st then Inl ErrSyntax
          else Inr (Delim CHR ''{'', \<lparr>tokenState = tokenObjectStart, tokenStack = st # stack, input = rest\<rparr>))
      | RBrace # rest \<Rightarrow>
         (if st \<noteq> tokenObjectStart \<and> st \<noteq> tokenObjectComma then Inl ErrSyntax
          else Inr (Delim CHR ''}'', closing stack rest))
      | Colon # rest \<Rightarrow>
         (if st \<noteq> tokenObjectColon then Inl ErrSyntax
          else Token (dec\<lparr>tokenState := tokenObjectValue, input := rest\<rparr>))
      | Comma # rest \<Rightarrow>
         (if st = tokenArrayComma then Token (dec\<lparr>tokenState := tokenArrayValue, input := rest\<rparr>)
          else if st = tokenObjectComma then Token (dec\<lparr>tokenState := tokenObjectKey, input := rest\<rparr>)
          else Inl ErrSyntax)
      | Str s # rest \<Rightarrow>
         (if st = tokenObjectStart \<or> st = tokenObjectKey
          then Inr (TokString s, dec\<lparr>tokenState := tokenObjectColon, input := rest\<rparr>)
          else if \<not> tokenValueAllowed st then Inl ErrSyntax
          else Inr (TokString s, dec\<lparr>tokenState := tokenValueEnd st, input := rest\<rparr>))
      | Scalar l # rest \<Rightarrow>
         (if \<not> tokenValueAllowed st then Inl ErrSyntax
          else Inr (TokOther, dec\<lparr>tokenState := tokenValueEnd st, input := rest\<rparr>))
      | Bad # rest \<Rightarrow> Inl ErrSyntax)"
  by pat_completeness auto
termination by (relation "measure (\<lambda>dec. length (input dec))") auto

declare Token.simps [simp del]

section \<open>\<open>consumeJSONValue\<close>\<close>

text \<open>
  The recursion and its two loops, with fuel: every call consumes a lexeme before it calls again, so a
  fuel above the number of lexemes is never used up (\<open>strict_decoding\<close> below).
\<close>

fun consumeJSONValue :: "nat \<Rightarrow> Decoder \<Rightarrow> json_error + Decoder"
  and object_fields :: "nat \<Rightarrow> bytes list \<Rightarrow> Decoder \<Rightarrow> json_error + Decoder"
  and array_values :: "nat \<Rightarrow> Decoder \<Rightarrow> json_error + Decoder" where
  "consumeJSONValue 0 dec = Inl ErrFuel"
| "consumeJSONValue (Suc n) dec =
     (case Token dec of
        Inl e \<Rightarrow> Inl e
      | Inr (Delim c, dec1) \<Rightarrow>
         (if c = CHR ''{'' then object_fields n [] dec1
          else if c = CHR ''['' then array_values n dec1 else Inl ErrSyntax)
      | Inr (_, dec1) \<Rightarrow> Inr dec1)"
| "object_fields 0 seen dec = Inl ErrFuel"
| "object_fields (Suc n) seen dec =
     (if \<not> More dec then
        (case Token dec of
           Inl e \<Rightarrow> Inl e
         | Inr (end_token, dec1) \<Rightarrow> if end_token \<noteq> Delim CHR ''}'' then Inl ErrSyntax else Inr dec1)
      else case Token dec of
        Inl e \<Rightarrow> Inl e
      | Inr (TokString name, dec1) \<Rightarrow>
         (if name \<in> set seen then Inl ErrDuplicate
          else case consumeJSONValue n dec1 of
            Inl e \<Rightarrow> Inl e
          | Inr dec2 \<Rightarrow> object_fields n (name # seen) dec2)
      | Inr (_, dec1) \<Rightarrow> Inl ErrSyntax)"
| "array_values 0 dec = Inl ErrFuel"
| "array_values (Suc n) dec =
     (if \<not> More dec then
        (case Token dec of
           Inl e \<Rightarrow> Inl e
         | Inr (end_token, dec1) \<Rightarrow> if end_token \<noteq> Delim CHR '']'' then Inl ErrSyntax else Inr dec1)
      else case consumeJSONValue n dec of
        Inl e \<Rightarrow> Inl e
      | Inr dec1 \<Rightarrow> array_values n dec1)"

definition NewDecoder :: "lexeme list \<Rightarrow> Decoder" where
  "NewDecoder ls = \<lparr>tokenState = tokenTopValue, tokenStack = [], input = ls\<rparr>"

definition rejectDuplicateJSONFields :: "lexeme list \<Rightarrow> json_error option" where
  "rejectDuplicateJSONFields ls =
     (case consumeJSONValue (Suc (length ls)) (NewDecoder ls) of
        Inl e \<Rightarrow> Some e
      | Inr dec \<Rightarrow>
         (case Token dec of
            Inl e \<Rightarrow> if e = ErrEOF then None else Some e
          | Inr _ \<Rightarrow> Some ErrTrailing))"

section \<open>Decoding into a target\<close>

text \<open>
  \<^verbatim>\<open>json.Unmarshal\<close> of a complete value: the parser of the grammar, again with the number of lexemes as
  fuel. \<open>members\<close> and \<open>elements\<close> start behind the opening delimiter or a comma.
\<close>

fun parse_value :: "nat \<Rightarrow> lexeme list \<Rightarrow> (json \<times> lexeme list) option"
  and members :: "nat \<Rightarrow> lexeme list \<Rightarrow> ((bytes \<times> json) list \<times> lexeme list) option"
  and elements :: "nat \<Rightarrow> lexeme list \<Rightarrow> (json list \<times> lexeme list) option" where
  "parse_value 0 ls = None"
| "parse_value (Suc n) ls =
     (case ls of
        Str s # rest \<Rightarrow> Some (JStr s, rest)
      | Scalar l # rest \<Rightarrow> Some (JLit l, rest)
      | LBrack # RBrack # rest \<Rightarrow> Some (JArr [], rest)
      | LBrack # rest \<Rightarrow> map_option (\<lambda>(vs, r). (JArr vs, r)) (elements n rest)
      | LBrace # RBrace # rest \<Rightarrow> Some (JObj [], rest)
      | LBrace # rest \<Rightarrow> map_option (\<lambda>(fs, r). (JObj fs, r)) (members n rest)
      | _ \<Rightarrow> None)"
| "members 0 ls = None"
| "members (Suc n) ls =
     (case ls of
        Str name # Colon # rest \<Rightarrow>
         (case parse_value n rest of
            Some (v, Comma # rest1) \<Rightarrow> map_option (\<lambda>(fs, r). ((name, v) # fs, r)) (members n rest1)
          | Some (v, RBrace # rest1) \<Rightarrow> Some ([(name, v)], rest1)
          | _ \<Rightarrow> None)
      | _ \<Rightarrow> None)"
| "elements 0 ls = None"
| "elements (Suc n) ls =
     (case parse_value n ls of
        Some (v, Comma # rest1) \<Rightarrow> map_option (\<lambda>(vs, r). (v # vs, r)) (elements n rest1)
      | Some (v, RBrack # rest1) \<Rightarrow> Some ([v], rest1)
      | _ \<Rightarrow> None)"

text \<open>The scanner of \<^verbatim>\<open>encoding/json\<close> refuses values nested deeper than 10000.\<close>

fun json_depth :: "json \<Rightarrow> nat" where
  "json_depth (JArr vs) = Suc (foldr max (map json_depth vs) 0)"
| "json_depth (JObj fs) = Suc (foldr max (map (\<lambda>(name, v). json_depth v) fs) 0)"
| "json_depth _ = 0"

definition parse_json :: "lexeme list \<Rightarrow> json option" where
  "parse_json ls = (case parse_value (Suc (length ls)) ls of Some (v, []) \<Rightarrow> Some v | _ \<Rightarrow> None)"

definition Unmarshal :: "lexeme list \<Rightarrow> json option" where
  "Unmarshal ls = (case parse_json ls of None \<Rightarrow> None | Some v \<Rightarrow> if json_depth v > 10000 then None else Some v)"

text \<open>
  \<open>decodeStrictJSON\<close> on the lexemes of a payload. \<open>target\<close> decodes a value into the Go type of the
  caller; a \<open>null\<close> leaves the map of fields empty and is handed to the target like any other value.
\<close>

definition decode_fields :: "(json \<Rightarrow> 'a option) \<Rightarrow> bytes list \<Rightarrow> lexeme list \<Rightarrow> json_error + 'a" where
  "decode_fields target allowedFields ls =
     (case rejectDuplicateJSONFields ls of
        Some e \<Rightarrow> Inl e
      | None \<Rightarrow>
     (case Unmarshal ls of
        None \<Rightarrow> Inl ErrSyntax
      | Some v \<Rightarrow>
     (case (case v of JObj fs \<Rightarrow> Some (map fst fs) | JLit l \<Rightarrow> if l = ''null'' then Some [] else None | _ \<Rightarrow> None) of
        None \<Rightarrow> Inl ErrTarget
      | Some names \<Rightarrow>
     (if \<exists>field \<in> set names. field \<notin> set allowedFields then Inl ErrUnknownField
      else case target v of None \<Rightarrow> Inl ErrTarget | Some x \<Rightarrow> Inr x))))"

definition decodeStrictJSON :: "(bytes \<Rightarrow> lexeme list) \<Rightarrow> (json \<Rightarrow> 'a option) \<Rightarrow> bytes list \<Rightarrow> bytes \<Rightarrow> json_error + 'a" where
  "decodeStrictJSON scan target allowedFields payload =
     (if \<not> utf8_valid payload then Inl ErrUTF8 else decode_fields target allowedFields (scan payload))"

section \<open>Tokens of printed values\<close>

abbreviation at :: "tokenState \<Rightarrow> tokenState list \<Rightarrow> lexeme list \<Rightarrow> Decoder" where
  "at st stack ls \<equiv> \<lparr>tokenState = st, tokenStack = stack, input = ls\<rparr>"

lemma Token_at [simp]:
  "Token (at st stack []) = Inl ErrEOF"
  "Token (at st stack (LBrack # ls)) =
     (if \<not> tokenValueAllowed st then Inl ErrSyntax else Inr (Delim CHR ''['', at tokenArrayStart (st # stack) ls))"
  "Token (at st stack (RBrack # ls)) =
     (if st \<noteq> tokenArrayStart \<and> st \<noteq> tokenArrayComma then Inl ErrSyntax else Inr (Delim CHR '']'', closing stack ls))"
  "Token (at st stack (LBrace # ls)) =
     (if \<not> tokenValueAllowed st then Inl ErrSyntax else Inr (Delim CHR ''{'', at tokenObjectStart (st # stack) ls))"
  "Token (at st stack (RBrace # ls)) =
     (if st \<noteq> tokenObjectStart \<and> st \<noteq> tokenObjectComma then Inl ErrSyntax else Inr (Delim CHR ''}'', closing stack ls))"
  "Token (at st stack (Colon # ls)) = (if st \<noteq> tokenObjectColon then Inl ErrSyntax else Token (at tokenObjectValue stack ls))"
  "Token (at st stack (Comma # ls)) =
     (if st = tokenArrayComma then Token (at tokenArrayValue stack ls)
      else if st = tokenObjectComma then Token (at tokenObjectKey stack ls) else Inl ErrSyntax)"
  "Token (at st stack (Str s # ls)) =
     (if st = tokenObjectStart \<or> st = tokenObjectKey then Inr (TokString s, at tokenObjectColon stack ls)
      else if \<not> tokenValueAllowed st then Inl ErrSyntax else Inr (TokString s, at (tokenValueEnd st) stack ls))"
  "Token (at st stack (Scalar l # ls)) =
     (if \<not> tokenValueAllowed st then Inl ErrSyntax else Inr (TokOther, at (tokenValueEnd st) stack ls))"
  "Token (at st stack (Bad # ls)) = Inl ErrSyntax"
  by (simp_all add: Token.simps [of "at _ _ _"])

lemma More_at [simp]: "More (at st stack []) = False" "More (at st stack (c # ls)) \<longleftrightarrow> c \<noteq> RBrack \<and> c \<noteq> RBrace"
  by (simp_all add: More_def)

text \<open>What precedes a value in a state in which \<open>consumeJSONValue\<close> is called, and the state behind it.\<close>

definition startable :: "tokenState \<Rightarrow> bool" where
  "startable st \<longleftrightarrow> st \<in> {tokenTopValue, tokenArrayStart, tokenArrayComma, tokenObjectColon}"

definition lead :: "tokenState \<Rightarrow> lexeme list" where
  "lead st = (if st = tokenArrayComma then [Comma] else if st = tokenObjectColon then [Colon] else [])"

definition ready :: "tokenState \<Rightarrow> tokenState" where
  "ready st = (if st = tokenArrayComma then tokenArrayValue else if st = tokenObjectColon then tokenObjectValue else st)"

lemma Token_lead: "startable st \<Longrightarrow> Token (at st stack (lead st @ ls)) = Token (at (ready st) stack ls)"
  by (auto simp: startable_def lead_def ready_def)

lemma ready_allowed: "startable st \<Longrightarrow> tokenValueAllowed (ready st)"
  by (auto simp: startable_def ready_def tokenValueAllowed_def)

lemma ready_no_key: "startable st \<Longrightarrow> ready st \<noteq> tokenObjectStart \<and> ready st \<noteq> tokenObjectKey"
  by (auto simp: startable_def ready_def)

abbreviation behind :: "lexeme list list \<Rightarrow> lexeme list" where "behind xs \<equiv> concat (map ((#) Comma) xs)"

lemma separated_Cons: "separated (x # xs) = x @ behind xs"
  by (induction xs arbitrary: x) auto

definition body :: "bool \<Rightarrow> lexeme list list \<Rightarrow> lexeme list" where
  "body first xs = (if first then separated xs else behind xs)"

lemma body_simps:
  "body b [] = []" "body True (x # xs) = x @ body False xs" "body False (x # xs) = Comma # x @ body False xs"
  by (simp_all add: body_def separated_Cons)

abbreviation member :: "bytes \<times> json \<Rightarrow> lexeme list" where
  "member \<equiv> \<lambda>(name, v). Str name # Colon # print v"

lemma print_eq:
  "print (JArr vs) = LBrack # body True (map print vs) @ [RBrack]"
  "print (JObj fs) = LBrace # body True (map member fs) @ [RBrace]"
  by (simp_all add: body_def)

lemma print_starts: "\<exists>c r. print v = c # r \<and> c \<notin> {RBrack, RBrace, Comma, Colon, Bad}"
  by (cases v) auto

section \<open>Printed values are accepted\<close>

definition array_state :: "bool \<Rightarrow> tokenState" where
  "array_state first = (if first then tokenArrayStart else tokenArrayComma)"

definition object_state :: "bool \<Rightarrow> tokenState" where
  "object_state first = (if first then tokenObjectStart else tokenObjectComma)"

definition accepted :: "json \<Rightarrow> bool" where
  "accepted v \<longleftrightarrow> (\<forall>st stack rest n. startable st \<longrightarrow> length (print v) < n \<longrightarrow>
     consumeJSONValue n (at st stack (lead st @ print v @ rest)) = Inr (at (tokenValueEnd (ready st)) stack rest))"

lemma acceptedD:
  "accepted v \<Longrightarrow> startable st \<Longrightarrow> length (print v) < n \<Longrightarrow>
     consumeJSONValue n (at st stack (lead st @ print v @ rest)) = Inr (at (tokenValueEnd (ready st)) stack rest)"
  by (simp add: accepted_def)

lemma array_accepted:
  assumes "\<And>v. v \<in> set vs \<Longrightarrow> accepted v" and "length (body b (map print vs)) + 1 < n"
  shows "array_values n (at (array_state b) (s # stack) (body b (map print vs) @ RBrack # rest)) = Inr (at (tokenValueEnd s) stack rest)"
  using assms
proof (induction vs arbitrary: b n)
  case Nil
  then obtain m where "n = Suc m" by (cases n) auto
  then show ?case by (simp add: body_simps array_state_def closing_def)
next
  case (Cons v vs)
  then obtain m where n: "n = Suc m" by (cases n) auto
  let ?after = "body False (map print vs) @ RBrack # rest"
  obtain c r where c: "print v = c # r" "c \<notin> {RBrack, RBrace, Comma, Colon, Bad}" using print_starts by blast
  have inp: "body b (map print (v # vs)) @ RBrack # rest = lead (array_state b) @ print v @ ?after"
    by (cases b) (simp_all add: body_simps lead_def array_state_def)
  have st: "startable (array_state b)" "tokenValueEnd (ready (array_state b)) = array_state False"
    by (simp_all add: startable_def array_state_def ready_def tokenValueEnd_def)
  have len: "length (print v) < m" "length (body False (map print vs)) + 1 < m"
    using Cons.prems(2) c(1) n by (cases b; simp add: body_simps)+
  have more: "More (at (array_state b) (s # stack) (lead (array_state b) @ print v @ ?after))"
    using c by (cases b) (simp_all add: lead_def array_state_def)
  have "consumeJSONValue m (at (array_state b) (s # stack) (lead (array_state b) @ print v @ ?after)) = Inr (at (array_state False) (s # stack) ?after)"
    using acceptedD [OF Cons.prems(1) st(1) len(1)] st(2) by simp
  then show ?case unfolding n inp using more Cons.IH [OF _ len(2)] Cons.prems(1) by simp
qed

lemma object_accepted:
  assumes "\<And>name v. (name, v) \<in> set fs \<Longrightarrow> accepted v" and "length (body b (map member fs)) + 1 < n"
    and "distinct (map fst fs)" and "set (map fst fs) \<inter> set seen = {}"
  shows "object_fields n seen (at (object_state b) (s # stack) (body b (map member fs) @ RBrace # rest)) = Inr (at (tokenValueEnd s) stack rest)"
  using assms
proof (induction fs arbitrary: b n seen)
  case Nil
  then obtain m where "n = Suc m" by (cases n) auto
  then show ?case by (simp add: body_simps object_state_def closing_def)
next
  case (Cons f fs)
  obtain name v where f: "f = (name, v)" by force
  obtain m where n: "n = Suc m" using Cons.prems(2) by (cases n) auto
  let ?after = "body False (map member fs) @ RBrace # rest"
  have inp: "body b (map member (f # fs)) @ RBrace # rest = (if b then [] else [Comma]) @ Str name # lead tokenObjectColon @ print v @ ?after"
    by (cases b) (simp_all add: body_simps lead_def f)
  have st: "startable tokenObjectColon" "tokenValueEnd (ready tokenObjectColon) = object_state False"
    by (simp_all add: startable_def object_state_def ready_def tokenValueEnd_def)
  have len: "length (print v) < m" "length (body False (map member fs)) + 1 < m"
    using Cons.prems(2) n by (cases b; simp add: body_simps f)+
  have key: "More (at (object_state b) (s # stack) ((if b then [] else [Comma]) @ Str name # ls))"
    "Token (at (object_state b) (s # stack) ((if b then [] else [Comma]) @ Str name # ls)) = Inr (TokString name, at tokenObjectColon (s # stack) ls)" for ls
    by (cases b; simp add: object_state_def)+
  have v: "consumeJSONValue m (at tokenObjectColon (s # stack) (lead tokenObjectColon @ print v @ ?after)) = Inr (at (object_state False) (s # stack) ?after)"
    using acceptedD [OF Cons.prems(1) [of name] st(1) len(1)] st(2) f by simp
  have "object_fields m (name # seen) (at (object_state False) (s # stack) ?after) = Inr (at (tokenValueEnd s) stack rest)"
    by (rule Cons.IH [OF _ len(2)]) (use Cons.prems(1,3,4) f in auto)
  then show ?case unfolding n inp using key v Cons.prems(4) f by simp
qed

lemma unique_accepted: "unique_names v \<Longrightarrow> accepted v"
proof (induction v)
  case (JArr vs)
  show ?case unfolding accepted_def
  proof (intro allI impI)
    fix st stack rest n assume st: "startable st" and n: "length (print (JArr vs)) < n"
    then obtain m where m: "n = Suc m" "length (body True (map print vs)) + 1 < m" by (cases n) (auto simp: body_def)
    show "consumeJSONValue n (at st stack (lead st @ print (JArr vs) @ rest)) = Inr (at (tokenValueEnd (ready st)) stack rest)"
      unfolding m(1) using st ready_allowed [OF st] JArr array_accepted [OF _ m(2), of "ready st" stack rest]
      by (simp add: Token_lead print_eq array_state_def list_all_iff del: print.simps)
  qed
next
  case (JObj fs)
  have each: "accepted v" if "(name, v) \<in> set fs" for name v
    using JObj that by (fastforce simp: list_all_iff)
  show ?case unfolding accepted_def
  proof (intro allI impI)
    fix st stack rest n assume st: "startable st" and n: "length (print (JObj fs)) < n"
    then obtain m where m: "n = Suc m" "length (body True (map member fs)) + 1 < m" by (cases n) (auto simp: body_def)
    show "consumeJSONValue n (at st stack (lead st @ print (JObj fs) @ rest)) = Inr (at (tokenValueEnd (ready st)) stack rest)"
      unfolding m(1) using st ready_allowed [OF st] JObj.prems object_accepted [OF each m(2), where seen = "[]" and s = "ready st" and stack = stack and rest = rest]
      by (simp add: Token_lead print_eq object_state_def del: print.simps)
  qed
qed (auto simp: accepted_def Token_lead ready_allowed ready_no_key gr0_conv_Suc less_Suc_eq_0_disj dest!: less_imp_Suc_add)

section \<open>Accepted input is a printed value\<close>

definition sound_value :: "nat \<Rightarrow> bool" where
  "sound_value n \<longleftrightarrow> (\<forall>st stack ls dec. startable st \<longrightarrow> consumeJSONValue n (at st stack ls) = Inr dec \<longrightarrow>
     (\<exists>v rest. ls = lead st @ print v @ rest \<and> unique_names v \<and> dec = at (tokenValueEnd (ready st)) stack rest))"

definition sound_object :: "nat \<Rightarrow> bool" where
  "sound_object n \<longleftrightarrow> (\<forall>b seen s stack ls dec. object_fields n seen (at (object_state b) (s # stack) ls) = Inr dec \<longrightarrow>
     (\<exists>fs rest. ls = body b (map member fs) @ RBrace # rest \<and> distinct (map fst fs) \<and> set (map fst fs) \<inter> set seen = {} \<and>
        (\<forall>(name, v) \<in> set fs. unique_names v) \<and> dec = at (tokenValueEnd s) stack rest))"

definition sound_array :: "nat \<Rightarrow> bool" where
  "sound_array n \<longleftrightarrow> (\<forall>b s stack ls dec. array_values n (at (array_state b) (s # stack) ls) = Inr dec \<longrightarrow>
     (\<exists>vs rest. ls = body b (map print vs) @ RBrack # rest \<and> list_all unique_names vs \<and> dec = at (tokenValueEnd s) stack rest))"

text \<open>The only token that begins a value, and what it leaves behind.\<close>

lemma Token_start:
  assumes "startable st" and "Token (at st stack ls) = Inr (t, dec)"
  obtains s rest where "ls = lead st @ Str s # rest" "t = TokString s" "dec = at (tokenValueEnd (ready st)) stack rest"
  | l rest where "ls = lead st @ Scalar l # rest" "t = TokOther" "dec = at (tokenValueEnd (ready st)) stack rest"
  | rest where "ls = lead st @ LBrace # rest" "t = Delim CHR ''{''" "dec = at tokenObjectStart (ready st # stack) rest"
  | rest where "ls = lead st @ LBrack # rest" "t = Delim CHR ''[''" "dec = at tokenArrayStart (ready st # stack) rest"
  | rest where "st = tokenArrayStart \<or> st = tokenArrayComma" "ls = RBrack # rest" "t = Delim CHR '']''"
proof -
  note cases = that
  have simple: thesis if l: "ls = lead st @ c # rest" and c: "c \<notin> {RBrack, RBrace, Comma, Colon}" for c rest
    using assms(2) c cases(1-4) ready_allowed [OF assms(1)] ready_no_key [OF assms(1)]
    unfolding l Token_lead [OF assms(1)] by (cases c) auto
  show thesis
  proof (cases "\<exists>c rest. ls = lead st @ c # rest \<and> c \<notin> {RBrack, RBrace, Comma, Colon}")
    case True
    then show thesis using simple by blast
  next
    case False
    show thesis
    proof (cases ls)
      case Nil
      then show thesis using assms(2) by simp
    next
      case (Cons c rest)
      note c = Cons
      show thesis
      proof (cases "lead st = [c]")
        case True
        then have t: "Token (at (ready st) stack rest) = Inr (t, dec)" using assms(2) Token_lead [OF assms(1), of stack rest] c by simp
        then obtain d r where r: "rest = d # r" by (cases rest) auto
        have "d \<in> {RBrack, RBrace, Comma, Colon}" using False c True r by auto
        then show thesis using t assms(1) True unfolding r
          by (auto simp: ready_def lead_def startable_def split: if_splits)
      next
        case other: False
        have "c \<in> {RBrack, RBrace, Comma, Colon} \<or> lead st \<noteq> []" using False c by auto
        then show thesis using assms c other cases(5)
          by (cases c) (auto simp: lead_def startable_def tokenValueAllowed_def split: if_splits)
      qed
    qed
  qed
qed

lemma sound_value_Suc:
  assumes "sound_object n" and "sound_array n"
  shows "sound_value (Suc n)"
  unfolding sound_value_def
proof (intro allI impI)
  fix st stack ls dec
  assume st: "startable st" and c: "consumeJSONValue (Suc n) (at st stack ls) = Inr dec"
  then obtain t dec1 where t: "Token (at st stack ls) = Inr (t, dec1)" by (cases "Token (at st stack ls)") auto
  show "\<exists>v rest. ls = lead st @ print v @ rest \<and> unique_names v \<and> dec = at (tokenValueEnd (ready st)) stack rest"
    using st t
  proof (cases rule: Token_start)
    case (1 s rest)
    then show ?thesis using c t by (intro exI [of _ "JStr s"]) simp
  next
    case (2 l rest)
    then show ?thesis using c t by (intro exI [of _ "JLit l"]) simp
  next
    case (3 rest)
    then have "object_fields n [] (at (object_state True) (ready st # stack) rest) = Inr dec" using c t by (simp add: object_state_def)
    then obtain fs r where "rest = body True (map member fs) @ RBrace # r" "distinct (map fst fs)" "\<forall>(name, v) \<in> set fs. unique_names v"
      "dec = at (tokenValueEnd (ready st)) stack r" using assms(1) unfolding sound_object_def by blast
    then show ?thesis using 3(1) by (intro exI [of _ "JObj fs"] exI [of _ r]) (simp add: body_def list_all_iff)
  next
    case (4 rest)
    then have "array_values n (at (array_state True) (ready st # stack) rest) = Inr dec" using c t by (simp add: array_state_def)
    then obtain vs r where "rest = body True (map print vs) @ RBrack # r" "list_all unique_names vs"
      "dec = at (tokenValueEnd (ready st)) stack r" using assms(2) unfolding sound_array_def by blast
    then show ?thesis using 4(1) by (intro exI [of _ "JArr vs"] exI [of _ r]) (simp add: body_def)
  next
    case (5 rest)
    then show ?thesis using c t by simp
  qed
qed

lemma sound_array_Suc:
  assumes "sound_value n" and "sound_array n"
  shows "sound_array (Suc n)"
  unfolding sound_array_def
proof (intro allI impI)
  fix b s stack ls dec
  assume c: "array_values (Suc n) (at (array_state b) (s # stack) ls) = Inr dec"
  show "\<exists>vs rest. ls = body b (map print vs) @ RBrack # rest \<and> list_all unique_names vs \<and> dec = at (tokenValueEnd s) stack rest"
  proof (cases "More (at (array_state b) (s # stack) ls)")
    case False
    then obtain rest where "ls = RBrack # rest" "dec = closing (s # stack) rest"
      using c by (cases ls) (auto simp: array_state_def split: if_splits)
    then show ?thesis by (intro exI [of _ "[]"] exI [of _ rest]) (simp add: body_simps closing_def)
  next
    case True
    have st: "startable (array_state b)" "tokenValueEnd (ready (array_state b)) = array_state False"
      by (simp_all add: startable_def array_state_def ready_def tokenValueEnd_def)
    obtain dec1 where d: "consumeJSONValue n (at (array_state b) (s # stack) ls) = Inr dec1" "array_values n dec1 = Inr dec"
      using c True by (auto split: sum.splits)
    then obtain v r where v: "ls = lead (array_state b) @ print v @ r" "unique_names v" "dec1 = at (array_state False) (s # stack) r"
      using assms(1) st unfolding sound_value_def by metis
    then obtain vs rest where "r = body False (map print vs) @ RBrack # rest" "list_all unique_names vs" "dec = at (tokenValueEnd s) stack rest"
      using assms(2) d(2) unfolding sound_array_def by blast
    then show ?thesis using v by (intro exI [of _ "v # vs"] exI [of _ rest]) (cases b; simp add: body_simps lead_def array_state_def)
  qed
qed

lemma object_key:
  assumes "Token (at (object_state b) (s # stack) ls) = Inr (TokString name, dec)"
  shows "\<exists>r. ls = (if b then [] else [Comma]) @ Str name # r \<and> dec = at tokenObjectColon (s # stack) r"
proof (cases ls)
  case (Cons c rest)
  then show ?thesis
    using assms by (cases c; cases rest; cases "hd rest") (auto simp: object_state_def tokenValueAllowed_def split: if_splits)
qed (use assms in simp)

lemma sound_object_Suc:
  assumes "sound_value n" and "sound_object n"
  shows "sound_object (Suc n)"
  unfolding sound_object_def
proof (intro allI impI)
  fix b seen s stack ls dec
  assume c: "object_fields (Suc n) seen (at (object_state b) (s # stack) ls) = Inr dec"
  show "\<exists>fs rest. ls = body b (map member fs) @ RBrace # rest \<and> distinct (map fst fs) \<and> set (map fst fs) \<inter> set seen = {} \<and>
      (\<forall>(name, v) \<in> set fs. unique_names v) \<and> dec = at (tokenValueEnd s) stack rest"
  proof (cases "More (at (object_state b) (s # stack) ls)")
    case False
    then obtain rest where "ls = RBrace # rest" "dec = closing (s # stack) rest"
      using c by (cases ls) (auto simp: object_state_def split: if_splits)
    then show ?thesis by (intro exI [of _ "[]"] exI [of _ rest]) (simp add: body_simps closing_def)
  next
    case True
    have st: "startable tokenObjectColon" "tokenValueEnd (ready tokenObjectColon) = object_state False"
      by (simp_all add: startable_def object_state_def ready_def tokenValueEnd_def)
    obtain name dec1 dec2 where d: "Token (at (object_state b) (s # stack) ls) = Inr (TokString name, dec1)" "name \<notin> set seen"
        "consumeJSONValue n dec1 = Inr dec2" "object_fields n (name # seen) dec2 = Inr dec"
      using c True by (auto split: sum.splits prod.splits token.splits if_splits)
    obtain r where r: "ls = (if b then [] else [Comma]) @ Str name # r" "dec1 = at tokenObjectColon (s # stack) r"
      using object_key [OF d(1)] by blast
    obtain v r1 where v: "r = lead tokenObjectColon @ print v @ r1" "unique_names v" "dec2 = at (object_state False) (s # stack) r1"
      using assms(1) d(3) st unfolding sound_value_def r(2) by metis
    obtain fs rest where fs: "r1 = body False (map member fs) @ RBrace # rest" "distinct (map fst fs)" "set (map fst fs) \<inter> set (name # seen) = {}"
        "\<forall>(name, v) \<in> set fs. unique_names v" "dec = at (tokenValueEnd s) stack rest"
      using assms(2) d(4) unfolding sound_object_def v(3) by blast
    have "ls = body b (map member ((name, v) # fs)) @ RBrace # rest"
      using r(1) v(1) fs(1) by (cases b) (simp_all add: body_simps lead_def)
    then show ?thesis using d(2) v(2) fs by (intro exI [of _ "(name, v) # fs"] exI [of _ rest]) auto
  qed
qed

lemma consume_sound: "sound_value n \<and> sound_object n \<and> sound_array n"
proof (induction n)
  case 0
  show ?case by (simp add: sound_value_def sound_object_def sound_array_def)
next
  case (Suc n)
  then show ?case using sound_value_Suc sound_object_Suc sound_array_Suc by blast
qed

lemma sound_valueD:
  assumes "startable st" and "consumeJSONValue n (at st stack ls) = Inr dec"
  shows "\<exists>v rest. ls = lead st @ print v @ rest \<and> unique_names v \<and> dec = at (tokenValueEnd (ready st)) stack rest"
  using consume_sound [of n] assms unfolding sound_value_def by blast

section \<open>Strict decoding\<close>

lemma reject_iff: "rejectDuplicateJSONFields ls = None \<longleftrightarrow> (\<exists>v. ls = print v \<and> unique_names v)"
proof
  assume r: "rejectDuplicateJSONFields ls = None"
  then obtain dec where d: "consumeJSONValue (Suc (length ls)) (at tokenTopValue [] ls) = Inr dec" "Token dec = Inl ErrEOF"
    by (auto simp: rejectDuplicateJSONFields_def NewDecoder_def simp del: consumeJSONValue.simps split: sum.splits if_splits)
  then obtain v rest where v: "ls = print v @ rest" "unique_names v" "dec = at tokenTopValue [] rest"
    using sound_valueD [OF _ d(1)] by (auto simp: startable_def lead_def ready_def tokenValueEnd_def)
  have "rest = []"
  proof (cases rest)
    case (Cons c r)
    then show ?thesis using d(2) v(3) by (cases c) (auto simp: tokenValueAllowed_def)
  qed
  then show "\<exists>v. ls = print v \<and> unique_names v" using v by auto
next
  assume "\<exists>v. ls = print v \<and> unique_names v"
  then obtain v where v: "ls = print v" "unique_names v" by blast
  have "consumeJSONValue (Suc (length ls)) (at tokenTopValue [] ls) = Inr (at tokenTopValue [] [])"
    using acceptedD [OF unique_accepted [OF v(2)], of tokenTopValue "Suc (length ls)" "[]" "[]"] v(1)
    by (simp add: startable_def lead_def ready_def tokenValueEnd_def del: consumeJSONValue.simps)
  then show "rejectDuplicateJSONFields ls = None"
    by (simp add: rejectDuplicateJSONFields_def NewDecoder_def del: consumeJSONValue.simps)
qed

definition parsed :: "json \<Rightarrow> bool" where
  "parsed v \<longleftrightarrow> (\<forall>n rest. length (print v) < n \<longrightarrow> parse_value n (print v @ rest) = Some (v, rest))"

lemma elements_parsed:
  assumes "\<And>v. v \<in> set vs \<Longrightarrow> parsed v" and "vs \<noteq> []" and "length (body True (map print vs)) + 1 < n"
  shows "elements n (body True (map print vs) @ RBrack # rest) = Some (vs, rest)"
  using assms
proof (induction vs arbitrary: n)
  case (Cons v vs)
  obtain m where n: "n = Suc m" using Cons.prems(3) by (cases n) auto
  have p: "parse_value m (print v @ r) = Some (v, r)" for r
    using Cons.prems(1,3) n by (simp add: parsed_def body_simps)
  show ?case
  proof (cases vs)
    case Nil
    then show ?thesis using n p by (simp add: body_simps)
  next
    case (Cons w ws)
    then have "elements m (body True (map print vs) @ RBrack # rest) = Some (vs, rest)"
      using Cons.IH Cons.prems(1,3) n by (simp add: body_simps)
    then show ?thesis using n p Cons by (simp add: body_simps)
  qed
qed simp

lemma members_parsed:
  assumes "\<And>name v. (name, v) \<in> set fs \<Longrightarrow> parsed v" and "fs \<noteq> []" and "length (body True (map member fs)) + 1 < n"
  shows "members n (body True (map member fs) @ RBrace # rest) = Some (fs, rest)"
  using assms
proof (induction fs arbitrary: n)
  case (Cons f fs)
  obtain name v where f: "f = (name, v)" by force
  obtain m where n: "n = Suc m" using Cons.prems(3) by (cases n) auto
  have p: "parse_value m (print v @ r) = Some (v, r)" for r
    using Cons.prems(1) [of name v] Cons.prems(3) n f by (simp add: parsed_def body_simps)
  show ?case
  proof (cases fs)
    case Nil
    then show ?thesis using n p f by (simp add: body_simps)
  next
    case (Cons w ws)
    then have "members m (body True (map member fs) @ RBrace # rest) = Some (fs, rest)"
      using Cons.IH Cons.prems(1,3) n f by (force simp: body_simps)
    then show ?thesis using n p f Cons by (cases w) (simp add: body_simps)
  qed
qed simp

lemma body_head: "xs \<noteq> [] \<Longrightarrow> hd xs = c # r \<Longrightarrow> \<exists>t. body True xs = c # t"
  by (cases xs) (auto simp: body_simps)

lemma value_parsed: "parsed v"
proof (induction v)
  case (JArr vs)
  show ?case unfolding parsed_def
  proof (intro allI impI)
    fix n rest assume "length (print (JArr vs)) < n"
    then obtain m where m: "n = Suc m" "length (body True (map print vs)) + 1 < m" by (cases n) (auto simp: body_def)
    show "parse_value n (print (JArr vs) @ rest) = Some (JArr vs, rest)"
    proof (cases "vs = []")
      case False
      then obtain c r where c: "hd (map print vs) = c # r" "c \<noteq> RBrack" using print_starts [of "hd vs"] by (auto simp: hd_map)
      then obtain t where "body True (map print vs) = c # t" using body_head [of "map print vs"] False by auto
      then show ?thesis unfolding m(1) using elements_parsed [OF _ False m(2), of rest] JArr c(2)
        by (cases c) (simp_all add: print_eq del: print.simps)
    qed (simp add: m)
  qed
next
  case (JObj fs)
  have each: "parsed v" if "(name, v) \<in> set fs" for name v using JObj that by fastforce
  show ?case unfolding parsed_def
  proof (intro allI impI)
    fix n rest assume "length (print (JObj fs)) < n"
    then obtain m where m: "n = Suc m" "length (body True (map member fs)) + 1 < m" by (cases n) (auto simp: body_def)
    show "parse_value n (print (JObj fs) @ rest) = Some (JObj fs, rest)"
    proof (cases fs)
      case Nil
      then show ?thesis by (simp add: m)
    next
      case (Cons f gs)
      then obtain t where "body True (map member fs) = Str (fst f) # t" by (cases f) (simp add: body_simps)
      then show ?thesis unfolding m(1) using members_parsed [OF each _ m(2), where rest = rest] Cons
        by (simp add: print_eq del: print.simps)
    qed
  qed
qed (auto simp: parsed_def gr0_conv_Suc dest!: less_imp_Suc_add)

lemma parse_print [simp]: "parse_json (print v) = Some v"
  using value_parsed [of v] unfolding parsed_def parse_json_def
  by (metis (mono_tags, lifting) append_Nil2 case_prod_conv lessI list.simps(4) option.simps(5))

lemma print_inject [simp]: "print v = print w \<longleftrightarrow> v = w"
  by (metis parse_print option.inject)

definition fields_of :: "json \<Rightarrow> bytes set" where
  "fields_of v = (case v of JObj fs \<Rightarrow> fst ` set fs | _ \<Rightarrow> {})"

text \<open>
  C20. Strict decoding accepts exactly what it should: \<open>decodeStrictJSON\<close> returns \<open>x\<close> if and only if the
  payload is valid UTF-8 and its lexemes are the text of one JSON value, with nothing behind it and no
  repeated field name in any object at any depth, that is an object (or \<open>null\<close>) with allowed fields only
  and at most 10000 levels, and decodes to \<open>x\<close>. In particular the token loop, which follows the decoder's own state machine, needs
  no more fuel than it is given.
\<close>

theorem strict_decoding:
  "decodeStrictJSON scan target allowedFields payload = Inr x \<longleftrightarrow>
     utf8_valid payload \<and> (\<exists>v. scan payload = print v \<and> unique_names v \<and> json_depth v \<le> 10000 \<and>
       (v = JLit ''null'' \<or> (\<exists>fs. v = JObj fs)) \<and> fields_of v \<subseteq> set allowedFields \<and> target v = Some x)"
proof (cases "utf8_valid payload \<and> rejectDuplicateJSONFields (scan payload) = None")
  case True
  then obtain v where v: "scan payload = print v" "unique_names v" using reject_iff by blast
  have "decodeStrictJSON scan target allowedFields payload = Inr x \<longleftrightarrow>
     json_depth v \<le> 10000 \<and> (v = JLit ''null'' \<or> (\<exists>fs. v = JObj fs)) \<and> fields_of v \<subseteq> set allowedFields \<and> target v = Some x"
    using True v(1) by (cases v) (auto simp: decodeStrictJSON_def decode_fields_def Unmarshal_def fields_of_def simp del: print.simps split: option.splits)
  then show ?thesis using True v by (simp del: print.simps)
next
  case False
  then show ?thesis using reject_iff [of "scan payload"] by (auto simp: decodeStrictJSON_def decode_fields_def)
qed

end
