(* ===== verification/PolicyDocument.thy ===== *)
theory PolicyDocument
  imports SysCorrect Codec ExecutionRun "HOL-Library.Monad_Syntax"
begin

text \<open>
  systemcallpolicy/policy.go: the JSON document of a System Call Policy. \<open>scanJSONValue\<close> walks the
  tokens, \<open>Parse\<close> decodes, validates and compiles, \<open>Canonical\<close> re-encodes. The scanner of
  \<^verbatim>\<open>encoding/json\<close> (\<open>scan\<close>) and its writer (\<open>encode\<close>) are arguments.
\<close>

section \<open>The token walk\<close>

definition policy_members :: "bytes list" where
  "policy_members = [''schema'', ''profile'', ''target'', ''os'', ''arch'', ''default_action'', ''action'', ''errno'', ''rules'',
     ''names'', ''arguments'', ''index'', ''operator'', ''value'', ''mask'']"

text \<open>The number of lexemes bounds the calls, as for \<^const>\<open>consumeJSONValue\<close>.\<close>

fun scanJSONValue :: "nat \<Rightarrow> nat \<Rightarrow> Decoder \<Rightarrow> json_error + Decoder"
  and scan_members :: "nat \<Rightarrow> nat \<Rightarrow> bytes list \<Rightarrow> Decoder \<Rightarrow> json_error + Decoder"
  and scan_elements :: "nat \<Rightarrow> nat \<Rightarrow> Decoder \<Rightarrow> json_error + Decoder" where
  "scanJSONValue 0 depth dec = Inl ErrFuel"
| "scanJSONValue (Suc n) depth dec =
     (if depth > 32 then Inl ErrDepth
      else case Token dec of
        Inl e \<Rightarrow> Inl e
      | Inr (Delim c, dec1) \<Rightarrow>
         (case (if c = CHR ''{'' then scan_members n depth [] dec1
                else if c = CHR ''['' then scan_elements n depth dec1 else Inl ErrSyntax) of
            Inl e \<Rightarrow> Inl e
          | Inr dec2 \<Rightarrow> (case Token dec2 of Inl e \<Rightarrow> Inl e | Inr (_, dec3) \<Rightarrow> Inr dec3))
      | Inr (_, dec1) \<Rightarrow> Inr dec1)"
| "scan_members 0 depth seen dec = Inl ErrFuel"
| "scan_members (Suc n) depth seen dec =
     (if \<not> More dec then Inr dec
      else case Token dec of
        Inl e \<Rightarrow> Inl e
      | Inr (TokString name, dec1) \<Rightarrow>
         (if name \<in> set seen then Inl ErrDuplicate
          else if name \<notin> set policy_members then Inl ErrUnknownField
          else case scanJSONValue n (depth + 1) dec1 of
            Inl e \<Rightarrow> Inl e
          | Inr dec2 \<Rightarrow> scan_members n depth (name # seen) dec2)
      | Inr (_, dec1) \<Rightarrow> Inl ErrDuplicate)"
| "scan_elements 0 depth dec = Inl ErrFuel"
| "scan_elements (Suc n) depth dec =
     (if \<not> More dec then Inr dec
      else case scanJSONValue n (depth + 1) dec of
        Inl e \<Rightarrow> Inl e
      | Inr dec1 \<Rightarrow> scan_elements n depth dec1)"

section \<open>Decoding\<close>

definition null :: json where "null = JLit ''null''"

definition string_value :: "json \<Rightarrow> bytes option" where
  "string_value v = (case v of JStr s \<Rightarrow> Some s | _ \<Rightarrow> if v = null then Some [] else None)"

text \<open>A number literal decodes into an integer type only if \<^verbatim>\<open>strconv\<close> accepts it at 64 bits.\<close>

definition int_literal :: "bytes \<Rightarrow> int option" where
  "int_literal s =
     (case s of
        [] \<Rightarrow> None
      | c # t \<Rightarrow>
         (case (if c = CHR ''-'' then (if t = [] then None else map_option uminus (digits_value 0 t)) else digits_value 0 s) of
            None \<Rightarrow> None
          | Some v \<Rightarrow> if - 9223372036854775808 \<le> v \<and> v < 9223372036854775808 then Some v else None))"

definition int_value :: "json \<Rightarrow> int option" where
  "int_value v = (case v of JLit l \<Rightarrow> if v = null then Some 0 else int_literal l | _ \<Rightarrow> None)"

definition uint_value :: "json \<Rightarrow> u64 option" where
  "uint_value v = (case v of JLit l \<Rightarrow> if v = null then Some 0 else ParseUint l | _ \<Rightarrow> None)"

text \<open>A slice: \<open>null\<close> leaves it nil.\<close>

fun decode_all :: "('a \<Rightarrow> 'b option) \<Rightarrow> 'a list \<Rightarrow> 'b list option" where
  "decode_all f [] = Some []"
| "decode_all f (x # xs) = do { y \<leftarrow> f x; ys \<leftarrow> decode_all f xs; Some (y # ys) }"

definition slice_value :: "(json \<Rightarrow> 'a option) \<Rightarrow> json \<Rightarrow> 'a list option option" where
  "slice_value f v = (case v of JArr vs \<Rightarrow> map_option Some (decode_all f vs) | _ \<Rightarrow> if v = null then Some None else None)"

text \<open>A struct with \<^verbatim>\<open>DisallowUnknownFields\<close>: \<open>null\<close> leaves every field at its zero value.\<close>

definition struct_fields :: "bytes list \<Rightarrow> json \<Rightarrow> (bytes \<times> json) list option" where
  "struct_fields tags v =
     (case v of JObj fs \<Rightarrow> if set (map fst fs) \<subseteq> set tags then Some fs else None | _ \<Rightarrow> if v = null then Some [] else None)"

definition field :: "(bytes \<times> json) list \<Rightarrow> bytes \<Rightarrow> (json \<Rightarrow> 'a option) \<Rightarrow> 'a \<Rightarrow> 'a option" where
  "field fs name f zero = (case map_of fs name of None \<Rightarrow> Some zero | Some v \<Rightarrow> f v)"

definition decode_target :: "json \<Rightarrow> Target option" where
  "decode_target v = do {
     fs \<leftarrow> struct_fields [''os'', ''arch''] v;
     x \<leftarrow> field fs ''os'' string_value [];
     y \<leftarrow> field fs ''arch'' string_value [];
     Some \<lparr>os = x, arch = y\<rparr> }"

definition decode_default :: "json \<Rightarrow> DefaultAction option" where
  "decode_default v = do {
     fs \<leftarrow> struct_fields [''action'', ''errno''] v;
     x \<leftarrow> field fs ''action'' string_value [];
     y \<leftarrow> field fs ''errno'' int_value 0;
     Some \<lparr>default_action = x, errno = y\<rparr> }"

definition decode_argument :: "json \<Rightarrow> Argument option" where
  "decode_argument v = do {
     fs \<leftarrow> struct_fields [''index'', ''operator'', ''value'', ''mask''] v;
     i \<leftarrow> field fs ''index'' uint_value 0;
     oper \<leftarrow> field fs ''operator'' string_value [];
     x \<leftarrow> field fs ''value'' uint_value 0;
     y \<leftarrow> field fs ''mask'' uint_value 0;
     Some \<lparr>arg_index = i, operator = oper, arg_value = x, arg_mask = y\<rparr> }"

definition decode_rule :: "json \<Rightarrow> Rule option" where
  "decode_rule v = do {
     fs \<leftarrow> struct_fields [''names'', ''action'', ''arguments''] v;
     ns \<leftarrow> field fs ''names'' (slice_value string_value) None;
     a \<leftarrow> field fs ''action'' string_value [];
     args \<leftarrow> field fs ''arguments'' (slice_value decode_argument) None;
     Some \<lparr>names = elems ns, rule_action = a, arguments = args\<rparr> }"

definition decode_policy :: "json \<Rightarrow> Policy option" where
  "decode_policy v = do {
     fs \<leftarrow> struct_fields [''schema'', ''profile'', ''target'', ''default_action'', ''rules''] v;
     s \<leftarrow> field fs ''schema'' string_value [];
     p \<leftarrow> field fs ''profile'' string_value [];
     t \<leftarrow> field fs ''target'' decode_target \<lparr>os = [], arch = []\<rparr>;
     d \<leftarrow> field fs ''default_action'' decode_default \<lparr>default_action = [], errno = 0\<rparr>;
     rs \<leftarrow> field fs ''rules'' (slice_value decode_rule) None;
     Some \<lparr>schema = s, profile = p, target = t, defaultAction = d, rules = rs\<rparr> }"

section \<open>Parse and Canonical\<close>

datatype parse_error = ErrPolicySize | ErrPolicyJSON json_error | ErrPolicyValues | ErrPolicyDecode | ErrPolicy policy_error

definition scan_document :: "lexeme list \<Rightarrow> parse_error option" where
  "scan_document ls =
     (case scanJSONValue (Suc (length ls)) 0 (NewDecoder ls) of
        Inl e \<Rightarrow> Some (ErrPolicyJSON e)
      | Inr dec \<Rightarrow> if Token dec = Inl ErrEOF then None else Some ErrPolicyValues)"

definition Parse :: "(bytes \<Rightarrow> lexeme list) \<Rightarrow> bytes \<Rightarrow> parse_error + Policy" where
  "Parse scan contents =
     (if contents = [] \<or> length contents > 1048576 then Inl ErrPolicySize
      else case scan_document (scan contents) of
        Some e \<Rightarrow> Inl e
      | None \<Rightarrow>
         (case Unmarshal (scan contents) \<bind> decode_policy of
            None \<Rightarrow> Inl ErrPolicyDecode
          | Some p \<Rightarrow>
             (case validate p of
                Inl e \<Rightarrow> Inl (ErrPolicy e)
              | Inr _ \<Rightarrow>
                 (case compileInstructions p of
                    Inl e \<Rightarrow> Inl (ErrPolicy e)
                  | Inr _ \<Rightarrow> Inr p))))"

text \<open>\<^verbatim>\<open>json.Marshal\<close> of a policy.\<close>

fun decimal :: "nat \<Rightarrow> bytes" where
  "decimal n = (if n < 10 then [] else decimal (n div 10)) @ [char_of (48 + n mod 10)]"

declare decimal.simps [simp del]

definition signed_decimal :: "int \<Rightarrow> bytes" where
  "signed_decimal n = (if n < 0 then ''-'' @ decimal (nat (- n)) else decimal (nat n))"

definition json_string :: "bytes \<Rightarrow> json" where "json_string s = JStr (json_text s)"
definition json_uint :: "u64 \<Rightarrow> json" where "json_uint w = JLit (decimal (unat w))"

definition json_int :: "int \<Rightarrow> json" where
  "json_int v = JLit (if v < 0 then CHR ''-'' # decimal (nat (- v)) else decimal (nat v))"

definition json_slice :: "('a \<Rightarrow> json) \<Rightarrow> 'a list option \<Rightarrow> json" where
  "json_slice f xs = (case xs of None \<Rightarrow> null | Some ys \<Rightarrow> JArr (map f ys))"

definition argument_json :: "Argument \<Rightarrow> json" where
  "argument_json a = JObj [(''index'', json_uint (arg_index a)), (''operator'', json_string (operator a)),
     (''value'', json_uint (arg_value a)), (''mask'', json_uint (arg_mask a))]"

definition rule_json :: "Rule \<Rightarrow> json" where
  "rule_json r = JObj [(''names'', JArr (map json_string (names r))), (''action'', json_string (rule_action r)),
     (''arguments'', json_slice argument_json (arguments r))]"

definition policy_json :: "Policy \<Rightarrow> json" where
  "policy_json p = JObj [(''schema'', json_string (schema p)), (''profile'', json_string (profile p)),
     (''target'', JObj [(''os'', json_string (os (target p))), (''arch'', json_string (arch (target p)))]),
     (''default_action'', JObj [(''action'', json_string (default_action (defaultAction p))), (''errno'', json_int (errno (defaultAction p)))]),
     (''rules'', json_slice rule_json (rules p))]"

definition Canonical :: "(bytes \<Rightarrow> lexeme list) \<Rightarrow> (json \<Rightarrow> bytes) \<Rightarrow> bytes \<Rightarrow> parse_error + bytes" where
  "Canonical scan encode contents =
     (case Parse scan contents of Inl e \<Rightarrow> Inl e | Inr p \<Rightarrow> Inr (encode (policy_json p) @ [CHR 0x0A]))"

section \<open>Numbers and strings survive\<close>

lemma digits_value_append: "digits_value acc (s @ t) = digits_value acc s \<bind> (\<lambda>v. digits_value v t)"
  by (induction s arbitrary: acc) auto

lemma digit_char:
  assumes "d < 10"
  shows "is_digit (char_of (48 + d))" and "byte (char_of (48 + d)) = 48 + d"
proof -
  show b: "byte (char_of (48 + d)) = 48 + d" using assms by (simp add: byte_def)
  show "is_digit (char_of (48 + d))" using b assms by (simp add: is_digit_def less_eq_char_def byte_def)
qed

lemma digits_decimal: "digits_value 0 (decimal n) = Some (int n)"
proof (induction n rule: decimal.induct)
  case (1 n)
  have d: "n mod 10 < 10" by simp
  have "digits_value (int (n div 10)) [char_of (48 + n mod 10)] = Some (int n)"
    using digit_char [OF d] by (simp add: digits_value_append) presburger
  then show ?case using 1 by (subst decimal.simps) (auto simp: digits_value_append digit_char)
qed

lemma decimal_head: "is_digit (hd (decimal n)) \<and> decimal n \<noteq> []"
proof (induction n rule: decimal.induct)
  case (1 n)
  have "is_digit (char_of (48 + n mod 10))" by (rule digit_char) simp
  then show ?case using 1 by (subst (1 2) decimal.simps) (cases "n < 10"; simp)
qed

lemma decimal_not_null: "decimal n \<noteq> ''null''" "hd (decimal n) \<noteq> CHR ''-''" "decimal n \<noteq> []"
  using decimal_head [of n] by (auto simp: is_digit_def less_eq_char_def)

lemma uint_json [simp]: "uint_value (json_uint w) = Some w"
proof -
  have "uint w < 18446744073709551616" using uint_lt2p [of w] by simp
  then show ?thesis
    using decimal_not_null [of "unat w"] by (simp add: uint_value_def json_uint_def null_def ParseUint_def digits_decimal)
qed

lemma int_json: "0 \<le> v \<Longrightarrow> v < 9223372036854775808 \<Longrightarrow> int_value (json_int v) = Some v"
  using decimal_not_null [of "nat v"] digits_decimal [of "nat v"]
  by (cases "decimal (nat v)") (auto simp: int_value_def json_int_def null_def int_literal_def)

lemma string_json: "utf8_valid s \<Longrightarrow> string_value (json_string s) = Some s"
  by (simp add: string_value_def json_string_def json_text_valid)

lemma decode_all_map: "(\<And>x. x \<in> set xs \<Longrightarrow> f (g x) = Some x) \<Longrightarrow> decode_all f (map g xs) = Some xs"
  by (induction xs) auto

lemma slice_json: "(\<And>x. x \<in> set (elems xs) \<Longrightarrow> f (g x) = Some x) \<Longrightarrow> slice_value f (json_slice g xs) = Some xs"
  by (cases xs) (auto simp: slice_value_def json_slice_def null_def elems_def decode_all_map)

section \<open>A validated policy survives encoding\<close>

lemma ascii_valid: "list_all (\<lambda>c. byte c < 0x80) s \<Longrightarrow> utf8_valid s"
  by (simp add: utf8_valid_ascii list_all_iff)

lemma table_ascii: "map_of amd64SystemCalls n \<noteq> None \<Longrightarrow> utf8_valid n"
proof -
  have "list_all (\<lambda>(n, _). list_all (\<lambda>c. byte c < 0x80) n) amd64SystemCalls" by code_simp
  then show "map_of amd64SystemCalls n \<noteq> None \<Longrightarrow> utf8_valid n"
    using ascii_valid by (fastforce simp: list_all_iff dest: map_of_SomeD)
qed

lemma argument_round_trip: "valid_argument a \<Longrightarrow> decode_argument (argument_json a) = Some a"
proof -
  assume "valid_argument a"
  then have "operator a \<in> set (''masked-equal'' # plain_operators)" by (auto simp: valid_argument_def)
  moreover have "list_all utf8_valid (''masked-equal'' # plain_operators)" unfolding plain_operators_def by code_simp
  ultimately have "utf8_valid (operator a)" by (auto simp: list_all_iff)
  then show ?thesis by (simp add: decode_argument_def argument_json_def struct_fields_def field_def string_json)
qed

lemma rule_round_trip:
  assumes "\<forall>n \<in> set (names r). utf8_valid n" and "rule_action r = ''allow''" and "\<forall>a \<in> set (elems (arguments r)). valid_argument a"
  shows "decode_rule (rule_json r) = Some r"
proof -
  have a: "utf8_valid ''allow''" by code_simp
  have n: "slice_value string_value (JArr (map json_string (names r))) = Some (Some (names r))"
    using assms(1) by (simp add: slice_value_def decode_all_map string_json)
  have "slice_value decode_argument (json_slice argument_json (arguments r)) = Some (arguments r)"
    by (rule slice_json) (use assms(3) argument_round_trip in auto)
  then show ?thesis using n string_json [OF a] assms(2)
    by (cases r) (simp add: decode_rule_def rule_json_def struct_fields_def field_def elems_def)
qed

lemma validate_rules_strings:
  "validate_rules prev rs = Inr () \<Longrightarrow> \<forall>r \<in> set rs. rule_action r = ''allow'' \<and> (\<forall>n \<in> set (names r). utf8_valid n)"
proof (induction prev rs rule: validate_rules.induct)
  case (2 prev r rest)
  from "2.prems" have nm: "validate_names None (names r) = Inr ()" and act: "rule_action r = ''allow''"
    and args: "\<exists>as. arguments r = Some as \<and> validate_arguments None as = Inr () \<and> validate_rules (Some (last (names r))) rest = Inr ()"
    and shape: "\<not> (names r = [] \<or> rule_action r \<noteq> ''allow'')" "\<not> (case prev of None \<Rightarrow> False | Some p \<Rightarrow> hd (names r) \<le> p)"
    by (auto split: if_splits sum.splits option.splits)
  have "\<forall>n \<in> set (names r). utf8_valid n" using validate_names_known [OF nm] table_ascii by blast
  moreover have "\<forall>q \<in> set rest. rule_action q = ''allow'' \<and> (\<forall>n \<in> set (names q). utf8_valid n)"
    using args "2.IH" [OF shape(1) nm shape(2)] by blast
  ultimately show ?case using act by simp
qed simp

lemma policy_round_trip:
  assumes "validate p = Inr ()"
  shows "decode_policy (policy_json p) = Some p"
proof -
  note vr = validate_rules_elems [OF assms]
  have c: "schema p = ''system-call-policy/v1''" "profile p = ''python-data-v1''" "os (target p) = ''linux''" "arch (target p) = ''amd64''"
    "default_action (defaultAction p) = ''errno''" "1 \<le> errno (defaultAction p)" "errno (defaultAction p) \<le> 4095"
    using assms by (auto simp: validate_def split: if_splits)
  have u: "utf8_valid ''system-call-policy/v1''" "utf8_valid ''python-data-v1''" "utf8_valid ''linux''" "utf8_valid ''amd64''" "utf8_valid ''errno''"
    by code_simp+
  have t: "decode_target (JObj [(''os'', json_string (os (target p))), (''arch'', json_string (arch (target p)))]) = Some (target p)"
    using c(3,4) u(3,4) by (cases "target p") (simp add: decode_target_def struct_fields_def field_def string_json)
  have d: "decode_default (JObj [(''action'', json_string (default_action (defaultAction p))), (''errno'', json_int (errno (defaultAction p)))]) =
      Some (defaultAction p)"
    using c(5-7) u(5) by (cases "defaultAction p") (simp add: decode_default_def struct_fields_def field_def string_json int_json)
  have "slice_value decode_rule (json_slice rule_json (rules p)) = Some (rules p)"
    by (rule slice_json, rule rule_round_trip)
      (use validate_rules_strings [OF vr] validate_rules_valid [OF vr] in \<open>auto simp: valid_rule_def\<close>)
  then show ?thesis using c(1,2) u(1,2) t d
    by (cases p) (simp add: decode_policy_def policy_json_def struct_fields_def field_def string_json)
qed

section \<open>The token walk accepts exactly the reviewed shape\<close>

text \<open>At most 32 levels, and every member name known and unique in its object.\<close>

fun scannable :: "nat \<Rightarrow> json \<Rightarrow> bool" where
  "scannable d (JArr vs) = (d \<le> 32 \<and> list_all (scannable (d + 1)) vs)"
| "scannable d (JObj fs) = (d \<le> 32 \<and> distinct (map fst fs) \<and> list_all (\<lambda>(name, v). name \<in> set policy_members \<and> scannable (d + 1) v) fs)"
| "scannable d _ = (d \<le> 32)"

definition scanned :: "json \<Rightarrow> bool" where
  "scanned v \<longleftrightarrow> (\<forall>d st stack rest n. scannable d v \<longrightarrow> startable st \<longrightarrow> length (print v) < n \<longrightarrow>
     scanJSONValue n d (at st stack (lead st @ print v @ rest)) = Inr (at (tokenValueEnd (ready st)) stack rest))"

lemma scannedD:
  "scanned v \<Longrightarrow> scannable d v \<Longrightarrow> startable st \<Longrightarrow> length (print v) < n \<Longrightarrow>
     scanJSONValue n d (at st stack (lead st @ print v @ rest)) = Inr (at (tokenValueEnd (ready st)) stack rest)"
  by (simp add: scanned_def)

text \<open>The loops stop in front of the closing delimiter, in the state from which it is accepted.\<close>

lemma elements_scanned:
  assumes "\<And>v. v \<in> set vs \<Longrightarrow> scanned v \<and> scannable (d + 1) v" and "length (body b (map print vs)) + 1 < n"
  shows "scan_elements n d (at (array_state b) (s # stack) (body b (map print vs) @ RBrack # rest)) =
    Inr (at (array_state (b \<and> vs = [])) (s # stack) (RBrack # rest))"
  using assms
proof (induction vs arbitrary: b n)
  case Nil
  then obtain m where "n = Suc m" by (cases n) auto
  then show ?case by (simp add: body_simps)
next
  case (Cons v vs)
  then obtain m where n: "n = Suc m" by (cases n) auto
  let ?after = "body False (map print vs) @ RBrack # rest"
  obtain c r where c: "print v = c # r" "c \<notin> {RBrack, RBrace, Comma, Colon, Bad}" using print_starts by blast
  have inp: "body b (map print (v # vs)) @ RBrack # rest = lead (array_state b) @ print v @ ?after"
    by (cases b) (simp_all add: body_simps lead_def array_state_def)
  have st: "startable (array_state b)" "tokenValueEnd (ready (array_state b)) = array_state False"
    by (simp_all add: startable_def array_state_def ready_def tokenValueEnd_def)
  have len: "length (print v) < m" "length (body False (map print vs)) + 1 < m"
    using Cons.prems(2) c(1) n by (cases b; simp add: body_simps)+
  have more: "More (at (array_state b) (s # stack) (lead (array_state b) @ print v @ ?after))"
    using c by (cases b) (simp_all add: lead_def array_state_def)
  have sc: "scanned v" "scannable (d + 1) v" using Cons.prems(1) by auto
  have "scanJSONValue m (d + 1) (at (array_state b) (s # stack) (lead (array_state b) @ print v @ ?after)) = Inr (at (array_state False) (s # stack) ?after)"
    using scannedD [OF sc st(1) len(1)] st(2) by simp
  then show ?case unfolding n inp using more Cons.IH [OF _ len(2)] Cons.prems(1) by simp
qed

lemma members_scanned:
  assumes "\<And>name v. (name, v) \<in> set fs \<Longrightarrow> scanned v \<and> scannable (d + 1) v \<and> name \<in> set policy_members"
    and "length (body b (map member fs)) + 1 < n" and "distinct (map fst fs)" and "set (map fst fs) \<inter> set seen = {}"
  shows "scan_members n d seen (at (object_state b) (s # stack) (body b (map member fs) @ RBrace # rest)) =
    Inr (at (object_state (b \<and> fs = [])) (s # stack) (RBrace # rest))"
  using assms
proof (induction fs arbitrary: b n seen)
  case Nil
  then obtain m where "n = Suc m" by (cases n) auto
  then show ?case by (simp add: body_simps)
next
  case (Cons f fs)
  obtain name v where f: "f = (name, v)" by force
  obtain m where n: "n = Suc m" using Cons.prems(2) by (cases n) auto
  let ?after = "body False (map member fs) @ RBrace # rest"
  have inp: "body b (map member (f # fs)) @ RBrace # rest = (if b then [] else [Comma]) @ Str name # lead tokenObjectColon @ print v @ ?after"
    by (cases b) (simp_all add: body_simps lead_def f)
  have st: "startable tokenObjectColon" "tokenValueEnd (ready tokenObjectColon) = object_state False"
    by (simp_all add: startable_def object_state_def ready_def tokenValueEnd_def)
  have len: "length (print v) < m" "length (body False (map member fs)) + 1 < m"
    using Cons.prems(2) n by (cases b; simp add: body_simps f)+
  have key: "More (at (object_state b) (s # stack) ((if b then [] else [Comma]) @ Str name # ls))"
    "Token (at (object_state b) (s # stack) ((if b then [] else [Comma]) @ Str name # ls)) = Inr (TokString name, at tokenObjectColon (s # stack) ls)" for ls
    by (cases b; simp add: object_state_def)+
  have sc: "scanned v" "scannable (d + 1) v" "name \<in> set policy_members" using Cons.prems(1) [of name v] f by auto
  have v: "scanJSONValue m (d + 1) (at tokenObjectColon (s # stack) (lead tokenObjectColon @ print v @ ?after)) = Inr (at (object_state False) (s # stack) ?after)"
    using scannedD [OF sc(1,2) st(1) len(1)] st(2) by simp
  have "scan_members m d (name # seen) (at (object_state False) (s # stack) ?after) = Inr (at (object_state False) (s # stack) (RBrace # rest))"
    using Cons.IH [OF _ len(2), of "name # seen"] Cons.prems(1,3,4) f by force
  then show ?case unfolding n inp using key v sc(3) Cons.prems(4) f by simp
qed

lemma all_scanned: "scanned v"
proof (induction v)
  case (JArr vs)
  show ?case unfolding scanned_def
  proof (intro allI impI)
    fix d st stack rest n assume sc: "scannable d (JArr vs)" and st: "startable st" and n: "length (print (JArr vs)) < n"
    then obtain m where m: "n = Suc m" "length (body True (map print vs)) + 1 < m" by (cases n) (auto simp: body_def)
    have "scan_elements m d (at tokenArrayStart (ready st # stack) (body True (map print vs) @ RBrack # rest)) =
        Inr (at (array_state (vs = [])) (ready st # stack) (RBrack # rest))"
      using elements_scanned [OF _ m(2), of d "ready st" stack rest] sc JArr by (simp add: list_all_iff array_state_def)
    then show "scanJSONValue n d (at st stack (lead st @ print (JArr vs) @ rest)) = Inr (at (tokenValueEnd (ready st)) stack rest)"
      unfolding m(1) using st ready_allowed [OF st] sc
      by (simp add: Token_lead print_eq array_state_def closing_def del: print.simps)
  qed
next
  case (JObj fs)
  have each: "scanned v" if "(name, v) \<in> set fs" for name v using JObj that by fastforce
  show ?case unfolding scanned_def
  proof (intro allI impI)
    fix d st stack rest n assume sc: "scannable d (JObj fs)" and st: "startable st" and n: "length (print (JObj fs)) < n"
    then obtain m where m: "n = Suc m" "length (body True (map member fs)) + 1 < m" by (cases n) (auto simp: body_def)
    have "scan_members m d [] (at (object_state True) (ready st # stack) (body True (map member fs) @ RBrace # rest)) =
        Inr (at (object_state (True \<and> fs = [])) (ready st # stack) (RBrace # rest))"
      by (rule members_scanned [OF _ m(2)]) (use sc each in \<open>auto simp: list_all_iff\<close>)
    then show "scanJSONValue n d (at st stack (lead st @ print (JObj fs) @ rest)) = Inr (at (tokenValueEnd (ready st)) stack rest)"
      unfolding m(1) using st ready_allowed [OF st] sc
      by (simp add: Token_lead print_eq object_state_def closing_def del: print.simps)
  qed
qed (auto simp: scanned_def Token_lead ready_allowed ready_no_key gr0_conv_Suc dest!: less_imp_Suc_add)

definition sound_scan :: "nat \<Rightarrow> bool" where
  "sound_scan n \<longleftrightarrow> (\<forall>d st stack ls dec. startable st \<longrightarrow> scanJSONValue n d (at st stack ls) = Inr dec \<longrightarrow>
     (\<exists>v rest. ls = lead st @ print v @ rest \<and> scannable d v \<and> dec = at (tokenValueEnd (ready st)) stack rest))"

definition sound_members :: "nat \<Rightarrow> bool" where
  "sound_members n \<longleftrightarrow> (\<forall>d b seen s stack ls dec. scan_members n d seen (at (object_state b) (s # stack) ls) = Inr dec \<longrightarrow>
     (\<exists>fs b' rest. ls = body b (map member fs) @ rest \<and> distinct (map fst fs) \<and> set (map fst fs) \<inter> set seen = {} \<and>
        (\<forall>(name, v) \<in> set fs. name \<in> set policy_members \<and> scannable (d + 1) v) \<and>
        dec = at (object_state b') (s # stack) rest \<and> \<not> More dec))"

definition sound_elements :: "nat \<Rightarrow> bool" where
  "sound_elements n \<longleftrightarrow> (\<forall>d b s stack ls dec. scan_elements n d (at (array_state b) (s # stack) ls) = Inr dec \<longrightarrow>
     (\<exists>vs b' rest. ls = body b (map print vs) @ rest \<and> list_all (scannable (d + 1)) vs \<and> dec = at (array_state b') (s # stack) rest \<and> \<not> More dec))"

lemma closing_token:
  assumes "\<not> More dec" and "Token dec = Inr (t, dec')"
  shows "dec = at (object_state b) (s # stack) rest \<Longrightarrow> \<exists>r. rest = RBrace # r \<and> dec' = at (tokenValueEnd s) stack r"
    and "dec = at (array_state b) (s # stack) rest \<Longrightarrow> \<exists>r. rest = RBrack # r \<and> dec' = at (tokenValueEnd s) stack r"
  using assms by (cases rest; auto simp: object_state_def array_state_def closing_def split: if_splits)+

lemma sound_scan_Suc:
  assumes "sound_members n" and "sound_elements n"
  shows "sound_scan (Suc n)"
  unfolding sound_scan_def
proof (intro allI impI)
  fix d st stack ls dec
  assume st: "startable st" and c: "scanJSONValue (Suc n) d (at st stack ls) = Inr dec"
  have depth: "d \<le> 32" using c by (auto split: if_splits)
  obtain t dec1 where t: "Token (at st stack ls) = Inr (t, dec1)" using c by (cases "Token (at st stack ls)") (auto split: if_splits)
  show "\<exists>v rest. ls = lead st @ print v @ rest \<and> scannable d v \<and> dec = at (tokenValueEnd (ready st)) stack rest"
    using st t
  proof (cases rule: Token_start)
    case (1 s rest)
    then show ?thesis using c t depth by (intro exI [of _ "JStr s"]) simp
  next
    case (2 l rest)
    then show ?thesis using c t depth by (intro exI [of _ "JLit l"]) simp
  next
    case (3 rest)
    then obtain dec2 e where o: "scan_members n d [] (at (object_state True) (ready st # stack) rest) = Inr dec2" "Token dec2 = Inr (e, dec)"
      using c t depth by (auto simp: object_state_def split: sum.splits)
    then obtain fs b r0 where fs: "rest = body True (map member fs) @ r0" "distinct (map fst fs)"
        "\<forall>(name, v) \<in> set fs. name \<in> set policy_members \<and> scannable (d + 1) v" "dec2 = at (object_state b) (ready st # stack) r0" "\<not> More dec2"
      using assms(1) unfolding sound_members_def by blast
    then obtain r where "r0 = RBrace # r" "dec = at (tokenValueEnd (ready st)) stack r" using closing_token(1) [OF fs(5) o(2) fs(4)] by blast
    then show ?thesis using fs 3(1) depth by (intro exI [of _ "JObj fs"] exI [of _ r]) (simp add: body_def list_all_iff)
  next
    case (4 rest)
    then obtain dec2 e where o: "scan_elements n d (at (array_state True) (ready st # stack) rest) = Inr dec2" "Token dec2 = Inr (e, dec)"
      using c t depth by (auto simp: array_state_def split: sum.splits)
    then obtain vs b r0 where vs: "rest = body True (map print vs) @ r0" "list_all (scannable (d + 1)) vs"
        "dec2 = at (array_state b) (ready st # stack) r0" "\<not> More dec2"
      using assms(2) unfolding sound_elements_def by blast
    then obtain r where "r0 = RBrack # r" "dec = at (tokenValueEnd (ready st)) stack r" using closing_token(2) [OF vs(4) o(2) vs(3)] by blast
    then show ?thesis using vs 4(1) depth by (intro exI [of _ "JArr vs"] exI [of _ r]) (simp add: body_def)
  next
    case (5 rest)
    then show ?thesis using c t depth by simp
  qed
qed

lemma sound_elements_Suc:
  assumes "sound_scan n" and "sound_elements n"
  shows "sound_elements (Suc n)"
  unfolding sound_elements_def
proof (intro allI impI)
  fix d b s stack ls dec
  assume c: "scan_elements (Suc n) d (at (array_state b) (s # stack) ls) = Inr dec"
  show "\<exists>vs b' rest. ls = body b (map print vs) @ rest \<and> list_all (scannable (d + 1)) vs \<and> dec = at (array_state b') (s # stack) rest \<and> \<not> More dec"
  proof (cases "More (at (array_state b) (s # stack) ls)")
    case False
    then show ?thesis using c by (intro exI [of _ "[]"] exI [of _ b] exI [of _ ls]) (simp add: body_simps)
  next
    case True
    have st: "startable (array_state b)" "tokenValueEnd (ready (array_state b)) = array_state False"
      by (simp_all add: startable_def array_state_def ready_def tokenValueEnd_def)
    obtain dec1 where d: "scanJSONValue n (d + 1) (at (array_state b) (s # stack) ls) = Inr dec1" "scan_elements n d dec1 = Inr dec"
      using c True by (auto split: sum.splits)
    then obtain v r where v: "ls = lead (array_state b) @ print v @ r" "scannable (d + 1) v" "dec1 = at (array_state False) (s # stack) r"
      using assms(1) st unfolding sound_scan_def by metis
    then obtain vs b' rest where "r = body False (map print vs) @ rest" "list_all (scannable (d + 1)) vs"
        "dec = at (array_state b') (s # stack) rest" "\<not> More dec"
      using assms(2) d(2) unfolding sound_elements_def by blast
    then show ?thesis using v
      by (intro exI [of _ "v # vs"] exI [of _ b'] exI [of _ rest]) (cases b; simp add: body_simps lead_def array_state_def)
  qed
qed

lemma sound_members_Suc:
  assumes "sound_scan n" and "sound_members n"
  shows "sound_members (Suc n)"
  unfolding sound_members_def
proof (intro allI impI)
  fix d b seen s stack ls dec
  assume c: "scan_members (Suc n) d seen (at (object_state b) (s # stack) ls) = Inr dec"
  show "\<exists>fs b' rest. ls = body b (map member fs) @ rest \<and> distinct (map fst fs) \<and> set (map fst fs) \<inter> set seen = {} \<and>
      (\<forall>(name, v) \<in> set fs. name \<in> set policy_members \<and> scannable (d + 1) v) \<and> dec = at (object_state b') (s # stack) rest \<and> \<not> More dec"
  proof (cases "More (at (object_state b) (s # stack) ls)")
    case False
    then show ?thesis using c by (intro exI [of _ "[]"] exI [of _ b] exI [of _ ls]) (simp add: body_simps)
  next
    case True
    have st: "startable tokenObjectColon" "tokenValueEnd (ready tokenObjectColon) = object_state False"
      by (simp_all add: startable_def object_state_def ready_def tokenValueEnd_def)
    obtain name dec1 dec2 where d: "Token (at (object_state b) (s # stack) ls) = Inr (TokString name, dec1)" "name \<notin> set seen"
        "name \<in> set policy_members" "scanJSONValue n (d + 1) dec1 = Inr dec2" "scan_members n d (name # seen) dec2 = Inr dec"
      using c True by (auto split: sum.splits prod.splits token.splits if_splits)
    obtain r where r: "ls = (if b then [] else [Comma]) @ Str name # r" "dec1 = at tokenObjectColon (s # stack) r"
      using object_key [OF d(1)] by blast
    obtain v r1 where v: "r = lead tokenObjectColon @ print v @ r1" "scannable (d + 1) v" "dec2 = at (object_state False) (s # stack) r1"
      using assms(1) d(4) st unfolding sound_scan_def r(2) by metis
    obtain fs b' rest where fs: "r1 = body False (map member fs) @ rest" "distinct (map fst fs)" "set (map fst fs) \<inter> set (name # seen) = {}"
        "\<forall>(name, v) \<in> set fs. name \<in> set policy_members \<and> scannable (d + 1) v" "dec = at (object_state b') (s # stack) rest" "\<not> More dec"
      using assms(2) d(5) unfolding sound_members_def v(3) by blast
    have "ls = body b (map member ((name, v) # fs)) @ rest"
      using r(1) v(1) fs(1) by (cases b) (simp_all add: body_simps lead_def)
    then show ?thesis using d(2,3) v(2) fs by (intro exI [of _ "(name, v) # fs"] exI [of _ b'] exI [of _ rest]) auto
  qed
qed

lemma scan_sound: "sound_scan n \<and> sound_members n \<and> sound_elements n"
proof (induction n)
  case 0
  show ?case by (simp add: sound_scan_def sound_members_def sound_elements_def)
next
  case (Suc n)
  then show ?case using sound_scan_Suc sound_members_Suc sound_elements_Suc by blast
qed

lemma sound_scanD:
  assumes "startable st" and "scanJSONValue n d (at st stack ls) = Inr dec"
  shows "\<exists>v rest. ls = lead st @ print v @ rest \<and> scannable d v \<and> dec = at (tokenValueEnd (ready st)) stack rest"
  using scan_sound [of n] assms unfolding sound_scan_def by blast

lemma scan_document_iff: "scan_document ls = None \<longleftrightarrow> (\<exists>v. ls = print v \<and> scannable 0 v)"
proof
  assume "scan_document ls = None"
  then obtain dec where d: "scanJSONValue (Suc (length ls)) 0 (at tokenTopValue [] ls) = Inr dec" "Token dec = Inl ErrEOF"
    by (auto simp: scan_document_def NewDecoder_def simp del: scanJSONValue.simps split: sum.splits if_splits)
  then obtain v rest where v: "ls = print v @ rest" "scannable 0 v" "dec = at tokenTopValue [] rest"
    using sound_scanD [OF _ d(1)] by (auto simp: startable_def lead_def ready_def tokenValueEnd_def)
  have "rest = []"
  proof (cases rest)
    case (Cons c r)
    then show ?thesis using d(2) v(3) by (cases c) (auto simp: tokenValueAllowed_def)
  qed
  then show "\<exists>v. ls = print v \<and> scannable 0 v" using v by auto
next
  assume "\<exists>v. ls = print v \<and> scannable 0 v"
  then obtain v where v: "ls = print v" "scannable 0 v" by blast
  have "scanJSONValue (Suc (length ls)) 0 (at tokenTopValue [] ls) = Inr (at tokenTopValue [] [])"
    using scannedD [OF all_scanned v(2), of tokenTopValue "Suc (length ls)" "[]" "[]"] v(1)
    by (simp add: startable_def lead_def ready_def tokenValueEnd_def del: scanJSONValue.simps)
  then show "scan_document ls = None"
    by (simp add: scan_document_def NewDecoder_def del: scanJSONValue.simps)
qed

section \<open>Canonical documents\<close>

lemma foldr_max_le: "(\<And>x. x \<in> set xs \<Longrightarrow> x \<le> m) \<Longrightarrow> foldr max xs 0 \<le> (m :: nat)"
  by (induction xs) auto

lemma scannable_depth: "scannable d v \<Longrightarrow> json_depth v + d \<le> 33"
proof (induction v arbitrary: d)
  case (JArr vs)
  have "json_depth v \<le> 32 - d" if "v \<in> set vs" for v
    using JArr.IH [OF that, of "d + 1"] JArr.prems that by (auto simp: list_all_iff)
  then have "foldr max (map json_depth vs) 0 \<le> 32 - d" by (intro foldr_max_le) auto
  then show ?case using JArr.prems by auto
next
  case (JObj fs)
  have "json_depth v \<le> 32 - d" if "(name, v) \<in> set fs" for name v
    using JObj.IH [OF that, of v "d + 1"] JObj.prems that by (force simp: list_all_iff)
  then have "foldr max (map (\<lambda>(name, v). json_depth v) fs) 0 \<le> 32 - d" by (intro foldr_max_le) auto
  then show ?case using JObj.prems by auto
qed simp_all

lemma Unmarshal_scannable: "scannable 0 v \<Longrightarrow> Unmarshal (print v) = Some v"
  using scannable_depth [of 0 v] by (simp add: Unmarshal_def del: print.simps)

lemma slice_scannable:
  "d \<le> 32 \<Longrightarrow> (\<And>x. x \<in> set (elems xs) \<Longrightarrow> scannable (d + 1) (f x)) \<Longrightarrow> scannable d (json_slice f xs)"
  by (cases xs) (auto simp: json_slice_def null_def elems_def list_all_iff)

lemma policy_scannable: "scannable 0 (policy_json p)"
proof -
  have a: "scannable d (argument_json a)" if "d \<le> 31" for d a
    using that by (simp add: argument_json_def json_uint_def json_string_def policy_members_def)
  have r: "scannable 2 (rule_json r)" for r
    using slice_scannable [of 3 "arguments r" argument_json] a
    by (simp add: rule_json_def json_string_def policy_members_def list_all_iff)
  have "scannable 1 (json_slice rule_json (rules p))"
    using slice_scannable [of 1 "rules p" rule_json] r by (simp add: numeral_2_eq_2)
  then show ?thesis by (simp add: policy_json_def json_string_def json_int_def policy_members_def)
qed

lemma Parse_iff:
  "Parse scan contents = Inr p \<longleftrightarrow> contents \<noteq> [] \<and> length contents \<le> 1048576 \<and>
     (\<exists>v prog. scan contents = print v \<and> scannable 0 v \<and> decode_policy v = Some p \<and> Compile ''amd64'' p = Inr prog)"
proof (cases "\<exists>v. scan contents = print v \<and> scannable 0 v")
  case True
  then obtain v where v: "scan contents = print v" "scannable 0 v" by blast
  then have "scan_document (scan contents) = None" "Unmarshal (scan contents) = Some v"
    using scan_document_iff Unmarshal_scannable by auto
  then show ?thesis using v
    by (auto simp: Parse_def Compile_def simp del: print.simps split: option.splits sum.splits)
next
  case False
  then have "scan_document (scan contents) \<noteq> None" using scan_document_iff by blast
  then show ?thesis using False by (auto simp: Parse_def)
qed

lemma canonical_again:
  assumes "Canonical scan encode contents = Inr canon" and "length canon \<le> 1048576"
    and "\<forall>v. canon = encode v @ [CHR 0x0A] \<longrightarrow> scan canon = print v"
  shows "\<exists>p v prog. scan contents = print v \<and> scannable 0 v \<and> decode_policy v = Some p \<and> Compile ''amd64'' p = Inr prog \<and>
    Parse scan contents = Inr p \<and> Parse scan canon = Inr p \<and> Canonical scan encode canon = Inr canon"
proof -
  obtain p where p: "Parse scan contents = Inr p" "canon = encode (policy_json p) @ [CHR 0x0A]"
    using assms(1) by (auto simp: Canonical_def split: sum.splits)
  then obtain v prog where v: "scan contents = print v" "scannable 0 v" "decode_policy v = Some p" "Compile ''amd64'' p = Inr prog"
    using Parse_iff by blast
  then have valid: "validate p = Inr ()" by (auto simp: Compile_def split: sum.splits)
  have "Parse scan canon = Inr p"
    unfolding Parse_iff using assms(2,3) p(2) policy_scannable policy_round_trip [OF valid] v(4) by blast
  then show ?thesis using p v by (auto simp: Canonical_def)
qed



end
