(* ===== verification/Attachments.thy ===== *)
theory Attachments
  imports OutputExtraction
begin

text \<open>
  attachments_linux.go: staged input files. The Supervisor resolves the selected files to descriptors,
  the bootstrap process of the Sandbox reopens the same inodes in its own mount namespace and mounts
  them read-only. Descriptors are numbers, \<open>view\<close> is the file system during one walk, and the answers
  of the kernel to \<open>fstat\<close>, \<open>readlink\<close>, \<open>mount\<close> and \<open>close\<close> are inputs.
\<close>

unbundle bit_operations_syntax

definition maximumAttachments :: nat where "maximumAttachments = 16"
definition maximumAttachmentBytes :: int where "maximumAttachmentBytes = 20 * 1024 * 1024"
definition maximumAttachmentTotal :: int where "maximumAttachmentTotal = 100 * 1024 * 1024"

record AttachmentInput =
  StagingID :: bytes
  a_Name :: bytes

record openedAttachment =
  att_name :: bytes
  att_file :: nat

section \<open>Opening by absolute path\<close>

text \<open>Every component is opened without following a symbolic link; all but the last must be directories.\<close>

fun open_parts :: "view \<Rightarrow> nat \<Rightarrow> bytes list \<Rightarrow> nat option" where
  "open_parts v fd [] = Some fd"
| "open_parts v fd (part # parts) =
     (case v fd part (parts \<noteq> []) of None \<Rightarrow> None | Some (next_fd, _) \<Rightarrow> open_parts v next_fd parts)"

text \<open>\<open>slash_fd\<close> is the descriptor of the root directory, if it opens.\<close>

definition openAbsoluteAttachmentPath :: "view \<Rightarrow> nat option \<Rightarrow> bytes \<Rightarrow> nat option" where
  "openAbsoluteAttachmentPath v slash_fd path =
     (if \<not> is_abs path \<or> path_clean path \<noteq> path then None
      else case slash_fd of
        None \<Rightarrow> None
      | Some fd \<Rightarrow> if path \<noteq> ''/'' then open_parts v fd (split_on slash (trim_prefix path ''/'')) else Some fd)"

text \<open>The permission bits \<open>0o444\<close>; \<open>0x12\<close> is \<open>0o022\<close>.\<close>

definition mode_0444 :: "32 word" where "mode_0444 = 0x124"
definition S_IFDIR :: "32 word" where "S_IFDIR = 0x4000"

text \<open>\<open>reopened\<close> is whether \<^verbatim>\<open>os.OpenRoot\<close> on the descriptor succeeds.\<close>

definition openAttachmentRoot :: "view \<Rightarrow> nat option \<Rightarrow> (nat \<Rightarrow> Stat_t option) \<Rightarrow> 32 word \<Rightarrow> bool \<Rightarrow> bytes \<Rightarrow> nat option" where
  "openAttachmentRoot v slash_fd fstat euid reopened path =
     (case openAbsoluteAttachmentPath v slash_fd path of
        None \<Rightarrow> None
      | Some directory \<Rightarrow>
         (case fstat directory of
            None \<Rightarrow> None
          | Some stat \<Rightarrow>
             (if Mode stat AND S_IFMT \<noteq> S_IFDIR \<or> Uid stat \<noteq> euid \<or> Mode stat AND 0x12 \<noteq> 0 then None
              else if \<not> reopened then None else Some directory)))"

section \<open>Resolution by the Supervisor\<close>

definition validStagedAttachment :: "Stat_t \<Rightarrow> bool" where
  "validStagedAttachment stat \<longleftrightarrow>
     Mode stat = S_IFREG OR mode_0444 \<and> Uid stat = 0 \<and> Nlink stat = 1 \<and> st_Size stat \<ge> 0 \<and> st_Size stat \<le> maximumAttachmentBytes"

fun attachment_references :: "bytes list \<Rightarrow> bytes list \<Rightarrow> AttachmentInput list \<Rightarrow> bool" where
  "attachment_references names identifiers [] = True"
| "attachment_references names identifiers (i # is) =
     (if \<not> validOpaqueIdentifier (StagingID i) \<or> \<not> validAttachmentName (a_Name i) \<or> a_Name i \<in> set names
         \<or> StagingID i \<in> set identifiers then False
      else attachment_references (a_Name i # names) (StagingID i # identifiers) is)"

text \<open>The staging directory: a descriptor with its metadata, or an error of either call.\<close>

type_synonym staging = "bytes \<Rightarrow> (nat \<times> Stat_t option) option"

fun open_attachments :: "staging \<Rightarrow> int \<Rightarrow> openedAttachment list \<Rightarrow> AttachmentInput list \<Rightarrow> ErrorCode + openedAttachment list" where
  "open_attachments root used opened [] = Inr opened"
| "open_attachments root used opened (i # is) =
     (case root (StagingID i) of
        None \<Rightarrow> Inl ErrorCodeInvalidReference
      | Some (fd, None) \<Rightarrow> Inl ErrorCodeInvalidReference
      | Some (fd, Some stat) \<Rightarrow>
         (if \<not> validStagedAttachment stat then Inl ErrorCodeInvalidReference
          else if st_Size stat > maximumAttachmentTotal - used then Inl ErrorCodeInvalidReference
          else open_attachments root (used + st_Size stat) (opened @ [\<lparr>att_name = a_Name i, att_file = fd\<rparr>]) is))"

definition resolveAttachments :: "staging option \<Rightarrow> AttachmentInput list \<Rightarrow> ErrorCode + openedAttachment list" where
  "resolveAttachments root inputs =
     (if length inputs > maximumAttachments then Inl ErrorCodeInvalidReference
      else if \<not> attachment_references [] [] inputs then Inl ErrorCodeInvalidReference
      else if inputs = [] then Inr []
      else case root of None \<Rightarrow> Inl ErrorCodeOperationUnavailable | Some r \<Rightarrow> open_attachments r 0 [] inputs)"

section \<open>Reopening in the Sandbox\<close>

definition firstAttachmentFD :: nat where "firstAttachmentFD = 7"

text \<open>The kernel's answers about one inherited descriptor and the walk to its source path.\<close>

record inherited_env =
  i_stat :: "Stat_t option"
  i_source :: "bytes option"
  i_view :: view
  i_after :: "nat \<Rightarrow> Stat_t option"
  i_close :: bool

definition same_inode :: "Stat_t \<Rightarrow> Stat_t \<Rightarrow> bool" where
  "same_inode before after \<longleftrightarrow>
     Dev before = Dev after \<and> Ino before = Ino after \<and> Mode before = Mode after \<and> Uid before = Uid after \<and>
     Gid before = Gid after \<and> Nlink before = Nlink after \<and> st_Size before = st_Size after"

definition inherited_ok :: "Stat_t \<Rightarrow> int \<Rightarrow> bool" where
  "inherited_ok before used \<longleftrightarrow>
     \<not> (Mode before \<noteq> S_IFREG OR mode_0444 \<or> Nlink before \<noteq> 1 \<or> st_Size before < 0 \<or> st_Size before > maximumAttachmentBytes
        \<or> st_Size before > maximumAttachmentTotal - used)"

fun reopen_loop :: "(nat \<Rightarrow> inherited_env) \<Rightarrow> nat option \<Rightarrow> nat \<Rightarrow> bytes list \<Rightarrow> int \<Rightarrow> openedAttachment list \<Rightarrow> bytes list
    \<Rightarrow> openedAttachment list option" where
  "reopen_loop env slash_fd index seen used opened [] = Some opened"
| "reopen_loop env slash_fd index seen used opened (name # names) =
     (let e = env (firstAttachmentFD + index) in
      if \<not> validAttachmentName name \<or> name \<in> set seen then None
      else case i_stat e of
        None \<Rightarrow> None
      | Some before \<Rightarrow>
         (if \<not> inherited_ok before used then None
          else case i_source e of
            None \<Rightarrow> None
          | Some source \<Rightarrow>
             (if has_suffix source '' (deleted)'' then None
              else case openAbsoluteAttachmentPath (i_view e) slash_fd source of
                None \<Rightarrow> None
              | Some file \<Rightarrow>
                 (case i_after e file of
                    None \<Rightarrow> None
                  | Some after \<Rightarrow>
                     (if \<not> same_inode before after then None
                      else if \<not> i_close e then None
                      else reopen_loop env slash_fd (index + 1) (name # seen) (used + st_Size before)
                             (opened @ [\<lparr>att_name = name, att_file = file\<rparr>]) names)))))"

definition reopenBootstrapAttachments :: "(nat \<Rightarrow> inherited_env) \<Rightarrow> nat option \<Rightarrow> bytes list \<Rightarrow> openedAttachment list option" where
  "reopenBootstrapAttachments env slash_fd names =
     (if length names > maximumAttachments then None else reopen_loop env slash_fd 0 [] 0 [] names)"

section \<open>Mounting\<close>

text \<open>\<open>restricted\<close> stands for \<open>nosuid\<close>, \<open>nodev\<close> and \<open>noexec\<close>, which the code always sets together.\<close>

datatype mount_source = Tmpfs | BindFD nat

record mount_entry =
  mounted :: mount_source
  readonly :: bool
  restricted :: bool

type_synonym mount_table = "(bytes \<times> mount_entry) list"

record mount_env =
  e_create :: bool
  e_created_close :: bool
  e_bind :: bool
  e_remount :: bool
  e_close :: bool

text \<open>
  The loop over the Attachments. The new file is created exclusively, so an occupied target fails; a
  bind mount starts with the options of its source and gets its own by the remount.
\<close>

fun mount_loop :: "(bytes \<Rightarrow> mount_env) \<Rightarrow> bytes \<Rightarrow> mount_table \<Rightarrow> openedAttachment list \<Rightarrow> mount_table option" where
  "mount_loop env inputRoot table [] = Some table"
| "mount_loop env inputRoot table (a # as) =
     (let target = inputRoot @ ''/'' @ att_name a; e = env target in
      if target \<in> fst ` set table \<or> \<not> e_create e then None
      else if \<not> e_created_close e then None
      else if \<not> e_bind e then None
      else if \<not> e_remount e then None
      else if \<not> e_close e then None
      else mount_loop env inputRoot ((target, \<lparr>mounted = BindFD (att_file a), readonly = True, restricted = True\<rparr>) # table) as)"

definition mountSandboxAttachments :: "(bytes \<Rightarrow> mount_env) \<Rightarrow> bool \<Rightarrow> bool \<Rightarrow> bytes \<Rightarrow> openedAttachment list \<Rightarrow> mount_table option" where
  "mountSandboxAttachments env tmpfs_ok remount_ok inputRoot attachments =
     (if \<not> tmpfs_ok then None
      else case mount_loop env inputRoot [(inputRoot, \<lparr>mounted = Tmpfs, readonly = False, restricted = True\<rparr>)] attachments of
        None \<Rightarrow> None
      | Some table \<Rightarrow>
         (if \<not> remount_ok then None
          else Some (map (\<lambda>(target, m). (target, if target = inputRoot then m\<lparr>readonly := True\<rparr> else m)) table)))"

section \<open>What is resolved\<close>

lemma references_ok:
  "attachment_references names ids is \<longleftrightarrow>
     (\<forall>i \<in> set is. validOpaqueIdentifier (StagingID i) \<and> validAttachmentName (a_Name i)) \<and>
     distinct (map a_Name is) \<and> distinct (map StagingID is) \<and>
     set (map a_Name is) \<inter> set names = {} \<and> set (map StagingID is) \<inter> set ids = {}"
  by (induction "is" arbitrary: names ids) auto

text \<open>The metadata of the file a staging directory gives for an input.\<close>

definition staged_stat :: "staging \<Rightarrow> AttachmentInput \<Rightarrow> Stat_t" where
  "staged_stat root i = the (snd (the (root (StagingID i))))"

definition staged_size :: "staging \<Rightarrow> AttachmentInput list \<Rightarrow> int" where
  "staged_size root is = sum_list (map (\<lambda>i. st_Size (staged_stat root i)) is)"

lemma open_attachments_ok:
  assumes "open_attachments root used opened is = Inr res" and "0 \<le> used" and "used \<le> maximumAttachmentTotal"
  shows "res = opened @ map (\<lambda>i. \<lparr>att_name = a_Name i, att_file = fst (the (root (StagingID i)))\<rparr>) is \<and>
    (\<forall>i \<in> set is. validStagedAttachment (staged_stat root i)) \<and> used + staged_size root is \<le> maximumAttachmentTotal"
  using assms
proof (induction "is" arbitrary: used opened)
  case (Cons i "is")
  obtain fd stat where f: "root (StagingID i) = Some (fd, Some stat)" "validStagedAttachment stat" "st_Size stat \<le> maximumAttachmentTotal - used"
    and rest: "open_attachments root (used + st_Size stat) (opened @ [\<lparr>att_name = a_Name i, att_file = fd\<rparr>]) is = Inr res"
    using Cons.prems(1) by (auto split: option.splits if_splits)
  have "0 \<le> st_Size stat" using f(2) by (simp add: validStagedAttachment_def)
  then show ?case using Cons.IH [OF rest] Cons.prems(2) f by (auto simp: staged_stat_def staged_size_def)
qed (simp add: staged_size_def)

section \<open>What is reopened\<close>

lemma reopen_loop_ok:
  assumes "reopen_loop env slash_fd index seen used opened names = Some res" and "0 \<le> used" and "used \<le> maximumAttachmentTotal"
  shows "\<exists>new. res = opened @ new \<and> map att_name new = names \<and> distinct names \<and> set names \<inter> set seen = {} \<and>
    (\<forall>k < length names. \<exists>before after. i_stat (env (firstAttachmentFD + index + k)) = Some before \<and>
       i_after (env (firstAttachmentFD + index + k)) (att_file (new ! k)) = Some after \<and> same_inode before after)"
  using assms
proof (induction names arbitrary: index seen used opened)
  case (Cons name names)
  let ?e = "env (firstAttachmentFD + index)"
  obtain before source fd after where e: "i_stat ?e = Some before" "inherited_ok before used" "i_source ?e = Some source"
      "openAbsoluteAttachmentPath (i_view ?e) slash_fd source = Some fd" "i_after ?e fd = Some after" "same_inode before after"
      "name \<notin> set seen" "validAttachmentName name"
    and rest: "reopen_loop env slash_fd (index + 1) (name # seen) (used + st_Size before) (opened @ [\<lparr>att_name = name, att_file = fd\<rparr>]) names = Some res"
    using Cons.prems(1) by (auto simp: Let_def split: option.splits if_splits)
  have bound: "0 \<le> used + st_Size before" "used + st_Size before \<le> maximumAttachmentTotal"
    using e(2) Cons.prems(2) by (auto simp: inherited_ok_def)
  obtain new where new: "res = (opened @ [\<lparr>att_name = name, att_file = fd\<rparr>]) @ new" "map att_name new = names" "distinct names"
      "set names \<inter> set (name # seen) = {}"
      "\<forall>k < length names. \<exists>before after. i_stat (env (firstAttachmentFD + (index + 1) + k)) = Some before \<and>
        i_after (env (firstAttachmentFD + (index + 1) + k)) (att_file (new ! k)) = Some after \<and> same_inode before after"
    using Cons.IH [OF rest bound] by blast
  have "\<exists>before after. i_stat (env (firstAttachmentFD + index + k)) = Some before \<and>
      i_after (env (firstAttachmentFD + index + k)) (att_file ((\<lparr>att_name = name, att_file = fd\<rparr> # new) ! k)) = Some after \<and> same_inode before after"
    if k: "k < length (name # names)" for k
  proof (cases k)
    case 0
    then show ?thesis using e(1,5,6) by simp
  next
    case (Suc j)
    then show ?thesis using new(5) [rule_format, of j] k by simp
  qed
  then show ?case using new e(7) by (intro exI [of _ "\<lparr>att_name = name, att_file = fd\<rparr> # new"]) auto
qed simp

section \<open>What is mounted\<close>

definition target_of :: "bytes \<Rightarrow> openedAttachment \<Rightarrow> bytes" where
  "target_of inputRoot a = inputRoot @ ''/'' @ att_name a"

lemma mount_loop_ok:
  "mount_loop env inputRoot table as = Some res \<Longrightarrow>
     res = rev (map (\<lambda>a. (target_of inputRoot a, \<lparr>mounted = BindFD (att_file a), readonly = True, restricted = True\<rparr>)) as) @ table"
  by (induction as arbitrary: table) (auto simp: target_of_def Let_def split: if_splits)

lemma mounted_table:
  assumes "mountSandboxAttachments env t r inputRoot as = Some table"
  shows "table = rev (map (\<lambda>a. (target_of inputRoot a, \<lparr>mounted = BindFD (att_file a), readonly = True, restricted = True\<rparr>)) as) @
    [(inputRoot, \<lparr>mounted = Tmpfs, readonly = True, restricted = True\<rparr>)]"
proof -
  obtain table0 where "mount_loop env inputRoot [(inputRoot, \<lparr>mounted = Tmpfs, readonly = False, restricted = True\<rparr>)] as = Some table0"
    "table = map (\<lambda>(target, m). (target, if target = inputRoot then m\<lparr>readonly := True\<rparr> else m)) table0"
    using assms by (auto simp: mountSandboxAttachments_def split: option.splits if_splits)
  then show ?thesis using mount_loop_ok by (fastforce simp: rev_map target_of_def)
qed

text \<open>
  C23. A Sandbox sees exactly the staged files that were selected for it, unchanged and read-only. When
  the Supervisor resolved the selection, its descriptors reached the bootstrap process with the
  metadata the Supervisor validated (but for the owner, which the User Namespace of the Sandbox shows
  as another number), and bootstrap reopened and mounted them, then there are at most
  sixteen files of at most 100 MiB together, each a regular single-link file of the trusted owner with
  mode 0444, the reopened file of every Attachment is the inode the Supervisor validated, and the
  mount table of the input directory consists of one read-only restricted bind of that file under
  every selected name and the read-only directory itself, within its 17 inodes.
\<close>

theorem attachments_pinned:
  assumes "resolveAttachments (Some root) inputs = Inr opened"
    and "reopenBootstrapAttachments env slash_fd (map att_name opened) = Some reopened"
    and "\<forall>k < length inputs. i_stat (env (firstAttachmentFD + k)) = Some ((staged_stat root (inputs ! k))\<lparr>Uid := uid, Gid := gid\<rparr>)"
    and "mountSandboxAttachments menv t r inputRoot reopened = Some table"
  shows "map att_name reopened = map a_Name inputs \<and> distinct (map a_Name inputs) \<and> staged_size root inputs \<le> maximumAttachmentTotal \<and>
    (\<forall>k < length inputs. validStagedAttachment (staged_stat root (inputs ! k)) \<and>
       (\<exists>after. i_after (env (firstAttachmentFD + k)) (att_file (reopened ! k)) = Some after \<and>
          same_inode ((staged_stat root (inputs ! k))\<lparr>Uid := uid, Gid := gid\<rparr>) after)) \<and>
    set table = insert (inputRoot, \<lparr>mounted = Tmpfs, readonly = True, restricted = True\<rparr>)
      ((\<lambda>a. (inputRoot @ ''/'' @ att_name a, \<lparr>mounted = BindFD (att_file a), readonly = True, restricted = True\<rparr>)) ` set reopened) \<and>
    length table \<le> 17"
proof -
  have refs: "attachment_references [] [] inputs" "length inputs \<le> 16"
    using assms(1) by (auto simp: resolveAttachments_def maximumAttachments_def split: if_splits)
  have res: "opened = map (\<lambda>i. \<lparr>att_name = a_Name i, att_file = fst (the (root (StagingID i)))\<rparr>) inputs \<and>
      (\<forall>i \<in> set inputs. validStagedAttachment (staged_stat root i)) \<and> staged_size root inputs \<le> maximumAttachmentTotal"
    using assms(1) open_attachments_ok [of root 0 "[]" inputs opened]
    by (auto simp: resolveAttachments_def staged_size_def maximumAttachmentTotal_def split: if_splits)
  then have names: "map att_name opened = map a_Name inputs" by (simp add: comp_def)
  obtain new where new: "reopened = new" "map att_name new = map a_Name inputs"
      "\<forall>k < length inputs. \<exists>before after. i_stat (env (firstAttachmentFD + k)) = Some before \<and>
       i_after (env (firstAttachmentFD + k)) (att_file (new ! k)) = Some after \<and> same_inode before after"
    using assms(2) reopen_loop_ok [of env slash_fd 0 "[]" 0 "[]" "map a_Name inputs" reopened]
    unfolding names by (auto simp: reopenBootstrapAttachments_def maximumAttachmentTotal_def split: if_splits)
  have inode: "\<exists>after. i_after (env (firstAttachmentFD + k)) (att_file (reopened ! k)) = Some after \<and>
      same_inode ((staged_stat root (inputs ! k))\<lparr>Uid := uid, Gid := gid\<rparr>) after" if "k < length inputs" for k
    using new(1,3) assms(3) that by fastforce
  have len: "length reopened = length inputs" using new(1,2) by (metis length_map)
  note tab = mounted_table [OF assms(4)]
  have "set table = insert (inputRoot, \<lparr>mounted = Tmpfs, readonly = True, restricted = True\<rparr>)
      ((\<lambda>a. (inputRoot @ ''/'' @ att_name a, \<lparr>mounted = BindFD (att_file a), readonly = True, restricted = True\<rparr>)) ` set reopened)"
    "length table \<le> 17"
    unfolding tab using len refs(2) by (simp_all add: target_of_def)
  then show ?thesis using refs(1) res new(1,2) inode by (auto simp: references_ok)
qed

definition sample_staged :: Stat_t where
  "sample_staged = \<lparr>Dev = 1, Ino = 5, Mode = S_IFREG OR mode_0444, Nlink = 1, Uid = 0, Gid = 0, st_Size = 9, Mtim = 0, Ctim = 0\<rparr>"

definition sample_inherited :: inherited_env where
  "sample_inherited = \<lparr>i_stat = Some (sample_staged\<lparr>Uid := 65534, Gid := 65534\<rparr>), i_source = Some ''/s/f1'', i_view = (\<lambda>d c b. Some (d + 1, None)),
     i_after = (\<lambda>fd. Some (sample_staged\<lparr>Uid := 65534, Gid := 65534, Mtim := 3\<rparr>)), i_close = True\<rparr>"

definition sample_input :: AttachmentInput where
  "sample_input = \<lparr>StagingID = ''f1'', a_Name = ''data.csv''\<rparr>"

theorem attachments_pinned_witness:
  "mountSandboxAttachments (\<lambda>_. \<lparr>e_create = True, e_created_close = True, e_bind = True, e_remount = True, e_close = True\<rparr>) True True ''/in''
     (the (reopenBootstrapAttachments (\<lambda>_. sample_inherited) (Some 0) [''data.csv''])) =
     Some [(''/in/data.csv'', \<lparr>mounted = BindFD 2, readonly = True, restricted = True\<rparr>), (''/in'', \<lparr>mounted = Tmpfs, readonly = True, restricted = True\<rparr>)] \<and>
   staged_size (\<lambda>_. Some (3, Some sample_staged)) [sample_input] \<le> maximumAttachmentTotal"
proof -
  let ?root = "\<lambda>_. Some (3, Some sample_staged)" and ?menv = "\<lambda>_. \<lparr>e_create = True, e_created_close = True, e_bind = True, e_remount = True, e_close = True\<rparr>"
  let ?re = "[\<lparr>att_name = ''data.csv'', att_file = 2\<rparr>]"
  let ?table = "[(''/in/data.csv'', \<lparr>mounted = BindFD 2, readonly = True, restricted = True\<rparr>), (''/in'', \<lparr>mounted = Tmpfs, readonly = True, restricted = True\<rparr>)]"
  have names: "validAttachmentName ''data.csv''" "validOpaqueIdentifier ''f1''" by code_simp+
  have path: "openAbsoluteAttachmentPath (i_view sample_inherited) (Some 0) ''/s/f1'' = Some 2" unfolding sample_inherited_def by code_simp
  have r: "resolveAttachments (Some ?root) [sample_input] = Inr [\<lparr>att_name = ''data.csv'', att_file = 3\<rparr>]"
    using names by (simp add: resolveAttachments_def maximumAttachments_def sample_input_def validStagedAttachment_def sample_staged_def
      maximumAttachmentBytes_def maximumAttachmentTotal_def)
  have o: "reopenBootstrapAttachments (\<lambda>_. sample_inherited) (Some 0) (map att_name [\<lparr>att_name = ''data.csv'', att_file = 3\<rparr>]) = Some ?re"
    using names path [unfolded sample_inherited_def] by (simp add: reopenBootstrapAttachments_def maximumAttachments_def sample_inherited_def sample_staged_def inherited_ok_def same_inode_def
      maximumAttachmentBytes_def maximumAttachmentTotal_def Let_def has_suffix_def)
  have i: "\<forall>k < length [sample_input]. i_stat ((\<lambda>_. sample_inherited) (firstAttachmentFD + k)) =
      Some ((staged_stat ?root ([sample_input] ! k))\<lparr>Uid := 65534, Gid := 65534\<rparr>)"
    by (simp add: sample_inherited_def staged_stat_def sample_input_def)
  have m: "mountSandboxAttachments ?menv True True ''/in'' ?re = Some ?table" by (simp add: mountSandboxAttachments_def Let_def)
  show ?thesis using attachments_pinned [OF r o i m] m o by simp
qed

end
