(* ===== verification/InstalledProfile.thy ===== *)
theory InstalledProfile
  imports PolicyDocument Attachments
begin

text \<open>
  The installed Runtime Profile of a Sandbox: profile_init_linux.go, the directory walk of
  creation_linux.go and the policy part of seccomp_linux.go. \<open>view\<close> answers \<open>openat\<close> without following
  symbolic links, \<open>content\<close> gives the bytes a descriptor yields (\<open>None\<close> for a read error); SHA-256 and
  \<^verbatim>\<open>json.Unmarshal\<close> of the manifest are arguments.
\<close>

unbundle bit_operations_syntax

section \<open>Directories and files\<close>

definition is_dir :: "Stat_t \<Rightarrow> bool" where "is_dir stat \<longleftrightarrow> Mode stat AND S_IFMT = S_IFDIR"
definition is_regular :: "Stat_t \<Rightarrow> bool" where "is_regular stat \<longleftrightarrow> Mode stat AND S_IFMT = S_IFREG"

text \<open>\<open>Perm\<close> masks with \<open>0o777\<close>; \<open>0xC00\<close> are the set-user and set-group bits. \<open>0o755\<close>, \<open>0o555\<close>.\<close>

definition Perm :: "Stat_t \<Rightarrow> 32 word" where "Perm stat = Mode stat AND 0x1FF"
definition mode_0755 :: "32 word" where "mode_0755 = 0x1ED"
definition mode_0555 :: "32 word" where "mode_0555 = 0x16D"

definition validateInstalledDirectory :: "Stat_t option \<Rightarrow> 32 word \<Rightarrow> bool" where
  "validateInstalledDirectory info mode =
     (case info of None \<Rightarrow> False | Some stat \<Rightarrow> \<not> (Uid stat \<noteq> 0 \<or> \<not> is_dir stat \<or> Perm stat \<noteq> mode))"

definition open_directory :: "view \<Rightarrow> nat \<Rightarrow> bytes \<Rightarrow> 32 word \<Rightarrow> nat option" where
  "open_directory v parent name mode =
     (case v parent name True of
        None \<Rightarrow> None
      | Some (fd, info) \<Rightarrow> if validateInstalledDirectory info mode then Some fd else None)"

definition openInstalledProfileDirectory :: "view \<Rightarrow> nat \<Rightarrow> bytes \<Rightarrow> nat option" where
  "openInstalledProfileDirectory v store digest =
     (case open_directory v store ''sha256'' mode_0755 of
        None \<Rightarrow> None
      | Some shard \<Rightarrow> open_directory v shard digest mode_0555)"

definition openProfileRootFilesystem :: "view \<Rightarrow> nat \<Rightarrow> bytes \<Rightarrow> nat option" where
  "openProfileRootFilesystem v store digest =
     (case openInstalledProfileDirectory v store digest of
        None \<Rightarrow> None
      | Some profile_fd \<Rightarrow> open_directory v profile_fd ''rootfs'' mode_0555)"

definition openInstalledRegularAt :: "view \<Rightarrow> nat \<Rightarrow> bytes \<Rightarrow> 32 word \<Rightarrow> int \<Rightarrow> nat option" where
  "openInstalledRegularAt v directory name mode maximumSize =
     (case v directory name False of
        None \<Rightarrow> None
      | Some (fd, None) \<Rightarrow> None
      | Some (fd, Some stat) \<Rightarrow>
         (if Uid stat \<noteq> 0 \<or> Gid stat \<noteq> 0 \<or> \<not> is_regular stat \<or> Perm stat \<noteq> mode \<or> Mode stat AND 0xC00 \<noteq> 0
             \<or> st_Size stat \<le> 0 \<or> st_Size stat > maximumSize then None
          else Some fd))"

section \<open>Components of the manifest\<close>

record installedProfileComponent =
  c_Role :: bytes
  c_Path :: bytes
  c_Format :: bytes
  c_Mode :: bytes
  c_Size :: int
  c_Digest :: bytes

record installed_manifest =
  m_Schema :: bytes
  m_Profile :: bytes
  m_Components :: "installedProfileComponent list"

text \<open>\<^verbatim>\<open>fmt.Sprintf("%04o", mode)\<close> for permission bits.\<close>

definition octal4 :: "32 word \<Rightarrow> bytes" where
  "octal4 mode = CHR ''0'' # map (\<lambda>i. char_of (48 + unat ((drop_bit i mode) AND 7))) [6, 3, 0]"

fun declared_component :: "bytes \<Rightarrow> bytes \<Rightarrow> bytes \<Rightarrow> bytes \<Rightarrow> int \<Rightarrow> installedProfileComponent option \<Rightarrow> installedProfileComponent list
    \<Rightarrow> installedProfileComponent option option" where
  "declared_component role name format mode maximumSize expected [] = Some expected"
| "declared_component role name format mode maximumSize expected (c # cs) =
     (if c_Role c \<noteq> role then declared_component role name format mode maximumSize expected cs
      else if expected \<noteq> None \<or> c_Path c \<noteq> name \<or> c_Format c \<noteq> format \<or> c_Mode c \<noteq> mode \<or> c_Size c \<le> 0 \<or> c_Size c > maximumSize then None
      else declared_component role name format mode maximumSize (Some c) cs)"

text \<open>\<open>seek\<close> is whether the verified file can be rewound.\<close>

definition verifiedInstalledComponent :: "(bytes \<Rightarrow> bytes) \<Rightarrow> view \<Rightarrow> (nat \<Rightarrow> bytes option) \<Rightarrow> (nat \<Rightarrow> bool) \<Rightarrow> nat
    \<Rightarrow> installedProfileComponent list \<Rightarrow> bytes \<Rightarrow> bytes \<Rightarrow> bytes \<Rightarrow> 32 word \<Rightarrow> int \<Rightarrow> nat option" where
  "verifiedInstalledComponent sha256 v content seek rootfs components role name format mode maximumSize =
     (case declared_component role name format (octal4 mode) maximumSize None components of
        None \<Rightarrow> None
      | Some None \<Rightarrow> None
      | Some (Some expected) \<Rightarrow>
         (if \<not> has_prefix (c_Digest expected) ''sha256:'' \<or> length (c_Digest expected) \<noteq> length ''sha256:'' + 64 then None
          else case openInstalledRegularAt v rootfs name mode maximumSize of
            None \<Rightarrow> None
          | Some file_fd \<Rightarrow>
             (case content file_fd of
                None \<Rightarrow> None
              | Some data \<Rightarrow>
                 (let hashed = take (nat (c_Size expected + 1)) data in
                  if int (length hashed) \<noteq> c_Size expected \<or> ''sha256:'' @ hex_encode (sha256 hashed) \<noteq> c_Digest expected then None
                  else if \<not> seek file_fd then None
                  else Some file_fd))))"

section \<open>Validation before creation\<close>

definition read_limited :: "(nat \<Rightarrow> bytes option) \<Rightarrow> nat \<Rightarrow> bytes option" where
  "read_limited content fd = map_option (take 1048577) (content fd)"

definition validateSandboxProfile :: "(bytes \<Rightarrow> bytes) \<Rightarrow> (bytes \<Rightarrow> lexeme list) \<Rightarrow> (bytes \<Rightarrow> installed_manifest option) \<Rightarrow> bytes
    \<Rightarrow> view \<Rightarrow> (nat \<Rightarrow> bytes option) \<Rightarrow> (nat \<Rightarrow> bool) \<Rightarrow> nat \<Rightarrow> bytes \<Rightarrow> nat \<Rightarrow> bool" where
  "validateSandboxProfile sha256 scan unmarshal goarch v content seek store digest rootfs =
     (case openInstalledProfileDirectory v store digest of
        None \<Rightarrow> False
      | Some profile_fd \<Rightarrow>
     (case openInstalledRegularAt v profile_fd ''manifest.json'' mode_0444 1048576 of
        None \<Rightarrow> False
      | Some manifest_fd \<Rightarrow>
     (case read_limited content manifest_fd of
        None \<Rightarrow> False
      | Some manifestBytes \<Rightarrow>
     (if length manifestBytes > 1048576 then False
      else case unmarshal manifestBytes of
        None \<Rightarrow> False
      | Some m \<Rightarrow>
     (if m_Schema m \<noteq> ''profile-bundle-manifest/v1'' \<or> m_Profile m \<noteq> ''python-data-v1'' then False
      else case verifiedInstalledComponent sha256 v content seek rootfs (m_Components m) ''sandbox-init'' ''sandbox-init'' ''opaque/v1''
          mode_0555 67108864 of
        None \<Rightarrow> False
      | Some init_fd \<Rightarrow>
     (case verifiedInstalledComponent sha256 v content seek rootfs (m_Components m) ''system-call-policy'' ''system-call-policy.json''
          ''system-call-policy/v1'' mode_0444 1048576 of
        None \<Rightarrow> False
      | Some policy_fd \<Rightarrow>
     (case read_limited content policy_fd of
        None \<Rightarrow> False
      | Some policyBytes \<Rightarrow>
     (case Parse scan policyBytes of
        Inl _ \<Rightarrow> False
      | Inr p \<Rightarrow> (case Compile goarch p of Inl _ \<Rightarrow> False | Inr _ \<Rightarrow> True)))))))))"

section \<open>The filter of the Workload\<close>

text \<open>\<open>file\<close> is the policy file the launcher opens inside the Sandbox with its metadata.\<close>

definition workloadSystemCallFilter :: "(bytes \<Rightarrow> lexeme list) \<Rightarrow> bytes \<Rightarrow> (nat \<Rightarrow> bytes option) \<Rightarrow> (nat \<times> Stat_t option) option
    \<Rightarrow> instruction list option" where
  "workloadSystemCallFilter scan goarch content policy_file =
     (case policy_file of
        None \<Rightarrow> None
      | Some (fd, None) \<Rightarrow> None
      | Some (fd, Some stat) \<Rightarrow>
         (if \<not> is_regular stat \<or> Perm stat \<noteq> mode_0444 \<or> st_Size stat \<le> 0 \<or> st_Size stat > 1048576 then None
          else case read_limited content fd of
            None \<Rightarrow> None
          | Some contents \<Rightarrow>
             (if int (length contents) \<noteq> st_Size stat then None
              else case Parse scan contents of
                Inl _ \<Rightarrow> None
              | Inr p \<Rightarrow> (case Compile goarch p of Inl _ \<Rightarrow> None | Inr prog \<Rightarrow> Some prog))))"

section \<open>The verified policy is the enforced policy\<close>

lemma declared_component_ok:
  "declared_component role name format mode maximumSize expected cs = Some (Some c) \<Longrightarrow>
     (expected = Some c \<and> (\<forall>d \<in> set cs. c_Role d \<noteq> role)) \<or>
     (expected = None \<and> filter (\<lambda>d. c_Role d = role) cs = [c] \<and> c_Path c = name \<and> c_Format c = format \<and> c_Mode c = mode \<and>
        0 < c_Size c \<and> c_Size c \<le> maximumSize)"
proof (induction cs arbitrary: expected)
  case (Cons d cs)
  show ?case
  proof (cases "c_Role d = role")
    case True
    then have e: "expected = None" "c_Path d = name" "c_Format d = format" "c_Mode d = mode" "0 < c_Size d" "c_Size d \<le> maximumSize"
      and r: "declared_component role name format mode maximumSize (Some d) cs = Some (Some c)"
      using Cons.prems by (auto split: if_splits)
    then show ?thesis using Cons.IH [OF r] True by (auto simp: filter_empty_conv)
  next
    case False
    then show ?thesis using Cons.prems Cons.IH by (auto simp: filter_empty_conv)
  qed
qed auto

lemma verified_component_ok:
  assumes "verifiedInstalledComponent sha256 v content seek rootfs cs role name format mode maximumSize = Some fd"
  shows "\<exists>c data stat. filter (\<lambda>d. c_Role d = role) cs = [c] \<and> c_Path c = name \<and> content fd = Some data \<and>
    v rootfs name False = Some (fd, Some stat) \<and> is_regular stat \<and> Uid stat = 0 \<and> Perm stat = mode \<and>
    int (length data) = c_Size c \<and> c_Size c \<le> maximumSize \<and> c_Digest c = ''sha256:'' @ hex_encode (sha256 data)"
proof -
  obtain c where c: "declared_component role name format (octal4 mode) maximumSize None cs = Some (Some c)"
    using assms by (auto simp: verifiedInstalledComponent_def split: option.splits)
  obtain data where d: "openInstalledRegularAt v rootfs name mode maximumSize = Some fd" "content fd = Some data"
      "int (length (take (nat (c_Size c + 1)) data)) = c_Size c"
      "''sha256:'' @ hex_encode (sha256 (take (nat (c_Size c + 1)) data)) = c_Digest c"
    using assms c by (auto simp: verifiedInstalledComponent_def Let_def split: option.splits if_splits)
  have s: "filter (\<lambda>d. c_Role d = role) cs = [c]" "c_Path c = name" "0 < c_Size c" "c_Size c \<le> maximumSize"
    using declared_component_ok [OF c] by auto
  have "take (nat (c_Size c + 1)) data = data"
    using d(3) s(3) by (cases "length data \<le> nat (c_Size c + 1)") auto
  moreover obtain stat where "v rootfs name False = Some (fd, Some stat)" "is_regular stat" "Uid stat = 0" "Perm stat = mode"
    using d(1) by (auto simp: openInstalledRegularAt_def split: option.splits if_splits)
  ultimately show ?thesis using d s by (intro exI [of _ c] exI [of _ data] exI [of _ stat]) simp
qed

text \<open>The manifest installed for a digest.\<close>

definition manifest_at :: "view \<Rightarrow> (nat \<Rightarrow> bytes option) \<Rightarrow> (bytes \<Rightarrow> installed_manifest option) \<Rightarrow> nat \<Rightarrow> bytes \<Rightarrow> installed_manifest option" where
  "manifest_at v content unmarshal store digest = do {
     profile_fd \<leftarrow> openInstalledProfileDirectory v store digest;
     manifest_fd \<leftarrow> openInstalledRegularAt v profile_fd ''manifest.json'' mode_0444 1048576;
     manifestBytes \<leftarrow> content manifest_fd;
     unmarshal manifestBytes }"

lemma read_limited_all: "read_limited content fd = Some data \<Longrightarrow> length data \<le> 1048576 \<Longrightarrow> content fd = Some data"
  by (auto simp: read_limited_def)

lemma validated_policy:
  assumes "validateSandboxProfile sha256 scan unmarshal goarch v content seek store digest rootfs"
  shows "\<exists>m c fd data stat p prog. filter (\<lambda>d. c_Role d = ''system-call-policy'') (m_Components m) = [c] \<and>
    manifest_at v content unmarshal store digest = Some m \<and>
    v rootfs ''system-call-policy.json'' False = Some (fd, Some stat) \<and> content fd = Some data \<and> length data \<le> 1048576 \<and>
    c_Digest c = ''sha256:'' @ hex_encode (sha256 data) \<and> Parse scan data = Inr p \<and> Compile goarch p = Inr prog"
proof -
  obtain m profile_fd manifest_fd manifestBytes fd policyBytes p prog where
      mf: "openInstalledProfileDirectory v store digest = Some profile_fd"
      "openInstalledRegularAt v profile_fd ''manifest.json'' mode_0444 1048576 = Some manifest_fd"
      "read_limited content manifest_fd = Some manifestBytes" "length manifestBytes \<le> 1048576"
    and f: "unmarshal manifestBytes = Some m"
      "verifiedInstalledComponent sha256 v content seek rootfs (m_Components m) ''system-call-policy'' ''system-call-policy.json''
          ''system-call-policy/v1'' mode_0444 1048576 = Some fd"
      "read_limited content fd = Some policyBytes" "Parse scan policyBytes = Inr p" "Compile goarch p = Inr prog"
    using assms unfolding validateSandboxProfile_def by (auto split: option.splits if_splits sum.splits)
  have manifest: "manifest_at v content unmarshal store digest = Some m"
    using mf f(1) read_limited_all [OF mf(3,4)] by (simp add: manifest_at_def)
  obtain c data stat where c: "filter (\<lambda>d. c_Role d = ''system-call-policy'') (m_Components m) = [c]" "content fd = Some data"
      "v rootfs ''system-call-policy.json'' False = Some (fd, Some stat)" "int (length data) = c_Size c" "c_Size c \<le> 1048576"
      "c_Digest c = ''sha256:'' @ hex_encode (sha256 data)"
    using verified_component_ok [OF f(2)] by blast
  then have "policyBytes = data" using f(3) by (simp add: read_limited_def)
  then show ?thesis using f c manifest by (intro exI [of _ m] exI [of _ c] exI [of _ fd] exI [of _ data] exI [of _ stat] exI [of _ p] exI [of _ prog]) auto
qed

text \<open>
  C7. The policy that was verified is the policy that is enforced. When the Supervisor accepted a
  Profile and the launcher inside the Sandbox reads the same policy file, then any filter the launcher
  obtains was compiled from a document whose SHA-256 is the one the installed manifest declares for
  its single system-call-policy component, and running it on any system call gives ALLOW exactly when
  that policy permits the call, and its errno otherwise; and the launcher does obtain one, provided
  the file presents the mode and size the Supervisor saw.
\<close>

theorem installed_policy_enforced:
  assumes "validateSandboxProfile sha256 scan unmarshal goarch v content seek store digest rootfs"
    and "v rootfs ''system-call-policy.json'' False = Some (fd, Some outer)" and "content inner_fd = content fd"
    and "is_regular stat" and "Perm stat = mode_0444" and "\<forall>data. content fd = Some data \<longrightarrow> st_Size stat = int (length data)"
  shows "\<exists>m c data p prog. manifest_at v content unmarshal store digest = Some m \<and>
    filter (\<lambda>d. c_Role d = ''system-call-policy'') (m_Components m) = [c] \<and>
    content fd = Some data \<and> c_Digest c = ''sha256:'' @ hex_encode (sha256 data) \<and> Parse scan data = Inr p \<and>
    workloadSystemCallFilter scan goarch content (Some (inner_fd, Some stat)) = Some prog \<and>
    (\<forall>d a. bpf_run d a prog = Some (if policy_permits p d then seccompReturnAllow else denial p))"
proof -
  obtain m c fd' data stat' p prog where f0: "filter (\<lambda>d. c_Role d = ''system-call-policy'') (m_Components m) = [c]"
      "v rootfs ''system-call-policy.json'' False = Some (fd', Some stat')" "manifest_at v content unmarshal store digest = Some m"
    and f: "content fd' = Some data" "length data \<le> 1048576" "c_Digest c = ''sha256:'' @ hex_encode (sha256 data)"
      "Parse scan data = Inr p" "Compile goarch p = Inr prog"
    using validated_policy [OF assms(1)] by blast
  have fd: "fd' = fd" using f0(2) assms(2) by simp
  have "data \<noteq> []" using f(4) Parse_iff by blast
  then have "workloadSystemCallFilter scan goarch content (Some (inner_fd, Some stat)) = Some prog"
    using f assms(3-6) fd by (simp add: workloadSystemCallFilter_def read_limited_def)
  then show ?thesis using f f0 fd filter_decides [OF f(5)] by blast
qed

text \<open>A store with one Profile: every directory is handle 1 and up, files 10 (manifest), 11 (Init) and 12 (policy).\<close>

definition sample_dir :: "32 word \<Rightarrow> Stat_t" where
  "sample_dir mode = \<lparr>Dev = 1, Ino = 2, Mode = S_IFDIR OR mode, Nlink = 1, Uid = 0, Gid = 0, st_Size = 1, Mtim = 0, Ctim = 0\<rparr>"

definition sample_file :: "32 word \<Rightarrow> Stat_t" where
  "sample_file mode = \<lparr>Dev = 1, Ino = 3, Mode = S_IFREG OR mode, Nlink = 1, Uid = 0, Gid = 0, st_Size = 2, Mtim = 0, Ctim = 0\<rparr>"

definition sample_view :: view where
  "sample_view d name b =
     (if name = ''sha256'' then Some (1, Some (sample_dir mode_0755))
      else if name = ''manifest.json'' then Some (10, Some (sample_file mode_0444))
      else if name = ''sandbox-init'' then Some (11, Some (sample_file mode_0555))
      else if name = ''system-call-policy.json'' then Some (12, Some (sample_file mode_0444))
      else Some (2, Some (sample_dir mode_0555)))"

definition sample_hash :: "bytes \<Rightarrow> bytes" where "sample_hash data = replicate 32 (CHR ''x'')"

definition sample_component :: "bytes \<Rightarrow> bytes \<Rightarrow> bytes \<Rightarrow> bytes \<Rightarrow> installedProfileComponent" where
  "sample_component role name format mode = \<lparr>c_Role = role, c_Path = name, c_Format = format, c_Mode = mode, c_Size = 2,
     c_Digest = ''sha256:'' @ hex_encode (sample_hash ''{}'')\<rparr>"

definition sample_manifest :: installed_manifest where
  "sample_manifest = \<lparr>m_Schema = ''profile-bundle-manifest/v1'', m_Profile = ''python-data-v1'',
     m_Components = [sample_component ''sandbox-init'' ''sandbox-init'' ''opaque/v1'' ''0555'',
       sample_component ''system-call-policy'' ''system-call-policy.json'' ''system-call-policy/v1'' ''0444'']\<rparr>"

definition sample_scan :: "bytes \<Rightarrow> lexeme list" where "sample_scan contents = print (policy_json example_policy)"
definition sample_content :: "nat \<Rightarrow> bytes option" where "sample_content fd = Some ''{}''"
definition sample_seek :: "nat \<Rightarrow> bool" where "sample_seek fd = True"
definition sample_unmarshal :: "bytes \<Rightarrow> installed_manifest option" where "sample_unmarshal contents = Some sample_manifest"

lemmas sample_modes = sample_dir_def sample_file_def mode_0755_def mode_0555_def mode_0444_def S_IFDIR_def S_IFREG_def S_IFMT_def

lemma sample_declared:
  "declared_component ''sandbox-init'' ''sandbox-init'' ''opaque/v1'' (octal4 mode_0555) 67108864 None (m_Components sample_manifest) =
     Some (Some (sample_component ''sandbox-init'' ''sandbox-init'' ''opaque/v1'' ''0555''))"
  "declared_component ''system-call-policy'' ''system-call-policy.json'' ''system-call-policy/v1'' (octal4 mode_0444) 1048576 None (m_Components sample_manifest) =
     Some (Some (sample_component ''system-call-policy'' ''system-call-policy.json'' ''system-call-policy/v1'' ''0444''))"
proof -
  have o: "octal4 mode_0555 = ''0555''" "octal4 mode_0444 = ''0444''" unfolding mode_0555_def mode_0444_def by code_simp+
  show "declared_component ''sandbox-init'' ''sandbox-init'' ''opaque/v1'' (octal4 mode_0555) 67108864 None (m_Components sample_manifest) =
     Some (Some (sample_component ''sandbox-init'' ''sandbox-init'' ''opaque/v1'' ''0555''))"
    unfolding o by (simp add: sample_manifest_def sample_component_def)
  show "declared_component ''system-call-policy'' ''system-call-policy.json'' ''system-call-policy/v1'' (octal4 mode_0444) 1048576 None (m_Components sample_manifest) =
     Some (Some (sample_component ''system-call-policy'' ''system-call-policy.json'' ''system-call-policy/v1'' ''0444''))"
    unfolding o by (simp add: sample_manifest_def sample_component_def)
qed

lemma sample_verified:
  assumes "declared_component role name format (octal4 mode) bound None cs = Some (Some (sample_component r n f m))"
    and "openInstalledRegularAt sample_view rootfs name mode bound = Some fd"
  shows "verifiedInstalledComponent sample_hash sample_view sample_content sample_seek rootfs cs role name format mode bound = Some fd"
proof -
  have l: "length (hex_encode (sample_hash ''{}'')) = 64" by code_simp
  have c: "c_Size (sample_component r n f m) = 2" "c_Digest (sample_component r n f m) = ''sha256:'' @ hex_encode (sample_hash ''{}'')"
    by (simp_all add: sample_component_def)
  have t: "take (nat (2 + 1)) ''{}'' = ''{}''" by simp
  show ?thesis
    unfolding verifiedInstalledComponent_def assms option.case c sample_content_def Let_def t sample_seek_def using l by simp
qed

lemma sample_profile_valid:
  "validateSandboxProfile sample_hash sample_scan sample_unmarshal ''amd64'' sample_view sample_content sample_seek 0 ''d'' 2"
proof -
  have d: "openInstalledProfileDirectory sample_view 0 ''d'' = Some 2" "openInstalledRegularAt sample_view 2 ''manifest.json'' mode_0444 1048576 = Some 10"
    by (simp_all add: openInstalledProfileDirectory_def open_directory_def validateInstalledDirectory_def openInstalledRegularAt_def sample_view_def
      is_dir_def is_regular_def Perm_def sample_modes)
  have f: "openInstalledRegularAt sample_view 2 ''sandbox-init'' mode_0555 67108864 = Some 11"
    "openInstalledRegularAt sample_view 2 ''system-call-policy.json'' mode_0444 1048576 = Some 12"
    by (simp_all add: openInstalledRegularAt_def sample_view_def is_regular_def Perm_def sample_modes)
  have p: "Parse sample_scan ''{}'' = Inr example_policy"
    unfolding Parse_iff sample_scan_def using policy_scannable policy_round_trip [OF example_policy_valid] example_policy_compiles by fastforce
  have r: "read_limited sample_content fd = Some ''{}''" for fd by (simp add: read_limited_def sample_content_def)
  have m: "m_Schema sample_manifest = ''profile-bundle-manifest/v1''" "m_Profile sample_manifest = ''python-data-v1''" by (simp_all add: sample_manifest_def)
  note ver = sample_verified [OF sample_declared(1) f(1)] sample_verified [OF sample_declared(2) f(2)]
  show ?thesis
    unfolding validateSandboxProfile_def d option.case r sample_unmarshal_def m ver p sum.case using example_policy_compiles by auto
qed

theorem installed_policy_enforced_witness:
  "\<exists>prog. workloadSystemCallFilter sample_scan ''amd64'' sample_content (Some (3, Some (sample_file mode_0444))) = Some prog \<and>
     (\<exists>p. \<forall>d a. bpf_run d a prog = Some (if policy_permits p d then seccompReturnAllow else denial p))"
proof -
  have v: "sample_view 2 ''system-call-policy.json'' False = Some (12, Some (sample_file mode_0444))" by (simp add: sample_view_def)
  have "is_regular (sample_file mode_0444)" "Perm (sample_file mode_0444) = mode_0444" "st_Size (sample_file mode_0444) = 2"
    by (simp_all add: is_regular_def Perm_def sample_modes)
  then show ?thesis
    using installed_policy_enforced [OF sample_profile_valid, OF v, where inner_fd = 3 and stat = "sample_file mode_0444"]
    by (auto simp: sample_content_def)
qed

end
