(* ===== verification/WorkerNode.thy ===== *)
theory WorkerNode
  imports ExecutionQueue
begin

text \<open>
  internal/worker (worker_linux.go, recovery_linux.go) with the error classes of workerapi/types.go: one
  Worker Node. A round claims at most one Execution, binds a fresh Sandbox to its lease, executes it
  once, reports the result until it is acknowledged, and cleans up. Every call to the Control Plane and
  to the local Supervisor is recorded in a trace; its answer is an input of the model. Loops that
  retry take the list of answers they receive, and \<open>None\<close> is a loop that still waits.
\<close>

section \<open>Errors and calls\<close>

datatype api_error = HTTPError nat | ErrTransport | DeadlineExceeded | Canceled | OtherError

definition Retryable :: "api_error \<Rightarrow> bool" where
  "Retryable err = (case err of HTTPError status \<Rightarrow> status = 429 \<or> status \<ge> 500 | ErrTransport \<Rightarrow> True | _ \<Rightarrow> False)"

definition isLeaseConflict :: "api_error \<Rightarrow> bool" where
  "isLeaseConflict err = (case err of HTTPError status \<Rightarrow> status = 409 | _ \<Rightarrow> False)"

datatype call =
    CallOutstanding
  | CallConfigureCapacity int
  | CallClaim
  | CallValidate Lease
  | CallBindSandbox Lease bytes
  | CallHeartbeat Lease bytes
  | CallCreateSandbox bytes
  | CallExecutePython bytes Lease
  | CallComplete Lease ExecutePythonResult
  | CallDestroySandbox bytes
  | CallRelease Lease

datatype node_error =
    ErrApi api_error
  | ErrContext
  | ErrRandom
  | ErrWorkerLost
  | ErrSupervisor
  | ErrRejected ErrorCode
  | ErrExecutionUncertain
  | ErrReport api_error
  | ErrReportBudget
  | ErrUnsafe
  | ErrLegacyCleanup

text \<open>
  A loop that repeats one call until it succeeds: an error outside \<open>again\<close> ends it, and so does a pause
  that is interrupted by the context.
\<close>

fun retry :: "call \<Rightarrow> (api_error \<Rightarrow> bool) \<Rightarrow> (api_error option \<times> bool) list \<Rightarrow> (call list \<times> node_error option) option" where
  "retry c again [] = None"
| "retry c again ((None, paused) # os) = Some ([c], None)"
| "retry c again ((Some e, paused) # os) =
     (if \<not> again e then Some ([c], Some (ErrApi e))
      else if \<not> paused then Some ([c], Some ErrContext)
      else map_option (\<lambda>(cs, r). (c # cs, r)) (retry c again os))"

section \<open>The lease monitor\<close>

definition validAuthority :: "Authority \<Rightarrow> Lease \<Rightarrow> bool" where
  "validAuthority authority lease \<longleftrightarrow>
     l_ExecutionID (a_Lease authority) = l_ExecutionID lease \<and> l_AgentRunID (a_Lease authority) = l_AgentRunID lease \<and>
     l_Generation (a_Lease authority) = l_Generation lease \<and> ServerTime authority \<noteq> 0 \<and>
     (a_State authority = Completed \<or>
      (a_State authority = Leased \<and> l_ExpiresAt (a_Lease authority) > ServerTime authority \<and>
       a_RecoveryUntil authority > l_ExpiresAt (a_Lease authority)))"

text \<open>Times are in nanoseconds; Go's division truncates toward zero and the dividend is positive here.\<close>

definition heartbeatDelay :: "Authority \<Rightarrow> int" where
  "heartbeatDelay authority = max 1000000 (min (10 * 1000000000) ((l_ExpiresAt (a_Lease authority) - ServerTime authority) div 3))"

text \<open>The local instant at which the watchdog fires, from the start of the request.\<close>

definition watchdog_deadline :: "int \<Rightarrow> Authority \<Rightarrow> int" where
  "watchdog_deadline started authority = started + (a_RecoveryUntil authority - ServerTime authority)"

text \<open>The first heartbeat loop of \<open>maintainLease\<close>: an answer is an error or an authority.\<close>

fun first_heartbeat :: "call \<Rightarrow> ((api_error + Authority) \<times> bool) list \<Rightarrow> (call list \<times> (node_error + Authority)) option" where
  "first_heartbeat c [] = None"
| "first_heartbeat c ((Inr authority, paused) # os) = Some ([c], Inr authority)"
| "first_heartbeat c ((Inl e, paused) # os) =
     (if \<not> Retryable e then Some ([c], Inl (ErrApi e))
      else if \<not> paused then Some ([c], Inl ErrContext)
      else map_option (\<lambda>(cs, r). (c # cs, r)) (first_heartbeat c os))"

definition maintainLease :: "Lease \<Rightarrow> bytes \<Rightarrow> (api_error option \<times> bool) list \<Rightarrow> ((api_error + Authority) \<times> bool) list
    \<Rightarrow> (call list \<times> (node_error + Authority)) option" where
  "maintainLease lease sandboxID binds beats =
     (case retry (CallBindSandbox lease sandboxID) Retryable binds of
        None \<Rightarrow> None
      | Some (calls, Some e) \<Rightarrow> Some (calls, Inl e)
      | Some (calls, None) \<Rightarrow>
         (case first_heartbeat (CallHeartbeat lease sandboxID) beats of
            None \<Rightarrow> None
          | Some (beating, Inl e) \<Rightarrow> Some (calls @ beating, Inl e)
          | Some (beating, Inr authority) \<Rightarrow>
             (if \<not> validAuthority authority lease \<or> a_State authority \<noteq> Leased then Some (calls @ beating, Inl ErrWorkerLost)
              else Some (calls @ beating, Inr authority))))"

text \<open>
  One round of \<open>heartbeatLoop\<close>: whether the wait ended without the context, whether the context was
  cancelled by the watchdog, the answers, and whether the context was done after them.
\<close>

record beat_round =
  b_waited :: bool
  b_lost :: bool
  b_heartbeat :: "api_error + Authority"
  b_inspect_done :: bool
  b_inspected :: bool
  b_recover :: "api_error + Authority"
  b_done :: bool

datatype beat_end = BeatNil | BeatLost | BeatError api_error

record monitor_state =
  m_disconnected :: bool
  m_completed :: bool
  m_watchdog :: "int option"

text \<open>\<open>starts\<close> gives the local start of each request; the monitor keeps its flags and the watchdog.\<close>

fun heartbeatLoop :: "Lease \<Rightarrow> monitor_state \<Rightarrow> (beat_round \<times> int) list \<Rightarrow> (beat_end \<times> monitor_state) option" where
  "heartbeatLoop lease mon [] = None"
| "heartbeatLoop lease mon ((r, started) # rs) =
     (if \<not> b_waited r then Some (if b_lost r then BeatLost else BeatNil, mon)
      else let conflict = (case b_heartbeat r of Inl e \<Rightarrow> isLeaseConflict e | Inr _ \<Rightarrow> False);
               mon1 = (if conflict then mon\<lparr>m_disconnected := True\<rparr> else mon);
               answer = (if conflict then b_recover r else b_heartbeat r)
        in if conflict \<and> b_inspect_done r \<and> \<not> b_lost r then Some (BeatNil, mon1)
           else if conflict \<and> \<not> b_inspected r then Some (BeatLost, mon1)
           else if b_done r then Some (if b_lost r then BeatLost else BeatNil, mon1)
           else case answer of
             Inl e \<Rightarrow>
              (let mon2 = mon1\<lparr>m_disconnected := True\<rparr> in
               if \<not> Retryable e then Some (BeatError e, mon2) else heartbeatLoop lease mon2 rs)
           | Inr authority \<Rightarrow>
              (if \<not> validAuthority authority lease then Some (BeatLost, mon1)
               else if a_State authority = Completed
               then Some (BeatNil, mon1\<lparr>m_completed := True, m_watchdog := None, m_disconnected := False\<rparr>)
               else heartbeatLoop lease (mon1\<lparr>m_watchdog := Some (watchdog_deadline started authority), m_disconnected := False\<rparr>) rs))"

section \<open>Reporting\<close>

text \<open>
  The part of the reporting budget one attempt consumes: all of it while connected or completed, else
  only up to the last confirmed contact.
\<close>

definition reportingTime :: "bool \<Rightarrow> bool \<Rightarrow> int \<Rightarrow> int \<Rightarrow> int \<Rightarrow> int" where
  "reportingTime completed disconnected elapsed confirmed started =
     (if completed \<or> \<not> disconnected then elapsed else max 0 (confirmed - started))"

text \<open>
  The heartbeat goroutine writes the two flags of the monitor concurrently (and an unavailable report
  sets \<open>disconnected\<close>), so every read of them is an input of the round: once when the error is
  classified and once when the time is charged.
\<close>

record report_round =
  p_answer :: "api_error option"
  p_completed :: bool
  p_disconnected :: bool
  p_paused :: bool
  p_charged_completed :: bool
  p_charged_disconnected :: bool
  p_elapsed :: int
  p_confirmed :: int
  p_started :: int

fun report_loop :: "Lease \<Rightarrow> ExecutePythonResult \<Rightarrow> int \<Rightarrow> report_round list \<Rightarrow> (call list \<times> node_error option) option" where
  "report_loop lease res remaining [] = None"
| "report_loop lease res remaining (r # rs) =
     (let c = CallComplete lease res in
      case p_answer r of
        None \<Rightarrow> Some ([c], None)
      | Some e \<Rightarrow>
         (if \<not> Retryable e \<and> \<not> (isLeaseConflict e \<and> \<not> p_completed r) \<and> \<not> (e = DeadlineExceeded \<and> p_disconnected r)
          then Some ([c], Some (ErrReport e))
          else if \<not> p_paused r then Some ([c], Some (ErrReport Canceled))
          else let remaining' = remaining - reportingTime (p_charged_completed r) (p_charged_disconnected r) (p_elapsed r) (p_confirmed r) (p_started r) in
            if remaining' \<le> 0 then Some ([c], Some ErrReportBudget)
            else map_option (\<lambda>(cs, x). (c # cs, x)) (report_loop lease res remaining' rs)))"

section \<open>Cleanup and reconciliation\<close>

datatype sup_answer = SupFailed | SupError ErrorCode | SupOk

definition cleanup :: "Lease \<Rightarrow> bytes \<Rightarrow> sup_answer \<Rightarrow> (api_error option \<times> bool) list \<Rightarrow> (call list \<times> node_error option) option" where
  "cleanup lease sandboxID destroy releases =
     (let release = (\<lambda>calls. map_option (\<lambda>(cs, r). (calls @ cs, r)) (retry (CallRelease lease) Retryable releases)) in
      if sandboxID = [] then release []
      else case destroy of
        SupFailed \<Rightarrow> Some ([CallDestroySandbox sandboxID], Some ErrSupervisor)
      | SupError code \<Rightarrow>
         (if code \<noteq> ErrorCodeSandboxNotFound then Some ([CallDestroySandbox sandboxID], Some (ErrRejected code))
          else release [CallDestroySandbox sandboxID])
      | SupOk \<Rightarrow> release [CallDestroySandbox sandboxID])"

record Node =
  capacity :: int
  unsafe :: "node_error option"
  node_active :: "bytes list"

text \<open>The loop of \<open>reconcileTerminals\<close>, with the answers of one cleanup for every entry.\<close>

fun reconcile_loop :: "Node \<Rightarrow> (OutstandingExecution \<times> sup_answer \<times> (api_error option \<times> bool) list) list
    \<Rightarrow> (call list \<times> node_error option \<times> Node) option" where
  "reconcile_loop node [] = Some ([], None, node)"
| "reconcile_loop node ((entry, destroy, releases) # es) =
     (if o_CleanupUnknown entry then Some ([], Some ErrLegacyCleanup, node\<lparr>unsafe := Some ErrLegacyCleanup\<rparr>)
      else if o_State entry \<noteq> Completed \<and> o_State entry \<noteq> WorkerLost then reconcile_loop node es
      else if l_ExecutionID (o_Lease entry) \<in> set (node_active node) then reconcile_loop node es
      else case cleanup (o_Lease entry) (o_SandboxID entry) destroy releases of
        None \<Rightarrow> None
      | Some (calls, Some e) \<Rightarrow> Some (calls, Some e, node\<lparr>unsafe := Some e\<rparr>)
      | Some (calls, None) \<Rightarrow> map_option (\<lambda>(cs, r, n). (calls @ cs, r, n)) (reconcile_loop node es))"

section \<open>One round\<close>

record round_env =
  n_slot :: bool
  n_outstanding :: "api_error + (OutstandingExecution \<times> sup_answer \<times> (api_error option \<times> bool) list) list"
  n_configure :: "api_error option"
  n_claim :: "api_error + Lease option"
  n_validate :: "api_error option"
  n_random :: "bytes option"
  n_binds :: "(api_error option \<times> bool) list"
  n_beats :: "((api_error + Authority) \<times> bool) list"
  n_create :: sup_answer
  n_authority :: "(api_error option \<times> bool) list"
  n_execute :: "sup_answer \<times> ExecutePythonResult option"
  n_reports :: "report_round list"
  n_monitor :: "node_error option"
  n_destroy :: sup_answer
  n_releases :: "(api_error option \<times> bool) list"

text \<open>The single Execution and the report of its result.\<close>

definition execute_and_report :: "int \<Rightarrow> Lease \<Rightarrow> bytes \<Rightarrow> round_env \<Rightarrow> (call list \<times> node_error option) option" where
  "execute_and_report reportTimeout lease sandboxID env =
     (let c = CallExecutePython sandboxID lease; (answer, result) = n_execute env in
      if answer = SupFailed \<or> answer = SupError ErrorCodeExecutionExists then Some ([c], Some ErrExecutionUncertain)
      else case answer of
        SupError code \<Rightarrow> Some ([c], Some (ErrRejected code))
      | _ \<Rightarrow>
         (case result of
            None \<Rightarrow> Some ([c], Some ErrExecutionUncertain)
          | Some snapshot \<Rightarrow>
             (if r_ExecutionID snapshot \<noteq> l_ExecutionID lease then Some ([c], Some ErrExecutionUncertain)
              else map_option (\<lambda>(cs, e). (c # cs, e)) (report_loop lease snapshot reportTimeout (n_reports env)))))"

text \<open>The body of \<open>RunOnce\<close> after the claim, without its deferred calls: the calls, the Sandbox
  identifier, whether the monitor runs, and the error.\<close>

definition run_claimed :: "int \<Rightarrow> Lease \<Rightarrow> round_env \<Rightarrow> (call list \<times> bytes \<times> bool \<times> node_error option) option" where
  "run_claimed reportTimeout lease env =
     (case n_validate env of
        Some e \<Rightarrow> Some ([CallValidate lease], [], False, Some (ErrApi e))
      | None \<Rightarrow>
     (case n_random env of
        None \<Rightarrow> Some ([CallValidate lease], [], False, Some ErrRandom)
      | Some random \<Rightarrow>
     (let sandboxID = ''sandbox-'' @ hex_encode random in
      case maintainLease lease sandboxID (n_binds env) (n_beats env) of
        None \<Rightarrow> None
      | Some (calls, Inl e) \<Rightarrow> Some (CallValidate lease # calls, sandboxID, False, Some e)
      | Some (calls, Inr _) \<Rightarrow>
     (let before = CallValidate lease # calls @ [CallCreateSandbox sandboxID] in
      case n_create env of
        SupFailed \<Rightarrow> Some (before, sandboxID, True, Some ErrSupervisor)
      | SupError code \<Rightarrow> Some (before, sandboxID, True, Some (ErrRejected code))
      | SupOk \<Rightarrow>
     (case retry (CallValidate lease) (\<lambda>e. Retryable e \<or> isLeaseConflict e) (n_authority env) of
        None \<Rightarrow> None
      | Some (waits, Some e) \<Rightarrow> Some (before @ waits, sandboxID, True, Some e)
      | Some (waits, None) \<Rightarrow>
      map_option (\<lambda>(cs, e). (before @ waits @ cs, sandboxID, True, e)) (execute_and_report reportTimeout lease sandboxID env))))))"

text \<open>\<open>RunOnce\<close>: the new node, the calls, whether an Execution was claimed, and the joined errors.\<close>

definition RunOnce :: "int \<Rightarrow> round_env \<Rightarrow> Node \<Rightarrow> (Node \<times> call list \<times> bool \<times> node_error list) option" where
  "RunOnce reportTimeout env node =
     (if \<not> n_slot env then Some (node, [], False, [ErrContext])
      else case unsafe node of
        Some e \<Rightarrow> Some (node, [], False, [e])
      | None \<Rightarrow>
     (case n_outstanding env of
        Inl e \<Rightarrow> Some (node, [CallOutstanding], False, [ErrApi e])
      | Inr entries \<Rightarrow>
     (case reconcile_loop node entries of
        None \<Rightarrow> None
      | Some (cleaned, Some e, node1) \<Rightarrow> Some (node1, CallOutstanding # cleaned, False, [e])
      | Some (cleaned, None, node1) \<Rightarrow>
     (let start = CallOutstanding # cleaned @ [CallConfigureCapacity (capacity node)] in
      case n_configure env of
        Some e \<Rightarrow> Some (node1, start, False, [ErrApi e])
      | None \<Rightarrow>
     (case n_claim env of
        Inl e \<Rightarrow> Some (node1, start @ [CallClaim], False, [ErrApi e])
      | Inr None \<Rightarrow> Some (node1, start @ [CallClaim], False, [])
      | Inr (Some lease) \<Rightarrow>
     (case run_claimed reportTimeout lease env of
        None \<Rightarrow> None
      | Some (calls, sandboxID, monitored, err) \<Rightarrow>
     (case cleanup lease sandboxID (n_destroy env) (n_releases env) of
        None \<Rightarrow> None
      | Some (cleanups, cleanupErr) \<Rightarrow>
         Some (node1\<lparr>unsafe := (case cleanupErr of None \<Rightarrow> unsafe node1 | Some e \<Rightarrow> Some e),
             node_active := removeAll (l_ExecutionID lease) (List.insert (l_ExecutionID lease) (node_active node1))\<rparr>,
           start @ [CallClaim] @ calls @ cleanups, True,
           (case err of None \<Rightarrow> [] | Some e \<Rightarrow> [e]) @
           (if monitored then case n_monitor env of None \<Rightarrow> [] | Some e \<Rightarrow> [e] else []) @
           (case cleanupErr of None \<Rightarrow> [] | Some e \<Rightarrow> [e])))))))))"

text \<open>\<open>runSlot\<close>: rounds until an error that is not a retryable failure to claim, or the end of the context.\<close>

record slot_round =
  s_env :: round_env
  s_ctx_err :: bool
  s_paused :: bool

definition node_retryable :: "node_error list \<Rightarrow> bool" where
  "node_retryable errs = (case errs of [ErrApi e] \<Rightarrow> Retryable e | _ \<Rightarrow> False)"

fun runSlot :: "int \<Rightarrow> Node \<Rightarrow> slot_round list \<Rightarrow> (Node \<times> call list) option" where
  "runSlot reportTimeout node [] = None"
| "runSlot reportTimeout node (r # rs) =
     (case RunOnce reportTimeout (s_env r) node of
        None \<Rightarrow> None
      | Some (node1, calls, claimed, errs) \<Rightarrow>
         (if errs \<noteq> [] then
            (if \<not> claimed \<and> node_retryable errs \<and> \<not> s_ctx_err r then
               (if \<not> s_paused r then Some (node1, calls)
                else map_option (\<lambda>(n, cs). (n, calls @ cs)) (runSlot reportTimeout node1 rs))
             else Some (node1, calls))
          else if s_ctx_err r then Some (node1, calls)
          else map_option (\<lambda>(n, cs). (n, calls @ cs)) (runSlot reportTimeout node1 rs)))"

section \<open>Construction of a node\<close>

text \<open>Durations are nanoseconds. \<open>has_API\<close> is a client that is not nil.\<close>

record Config =
  has_API :: bool
  SupervisorSocket :: bytes
  ProfileIdentity :: bytes
  PollWait :: int
  RetryInterval :: int
  ReportTimeout :: int
  CleanupTimeout :: int
  c_Capacity :: int

definition is_hex_char :: "char \<Rightarrow> bool" where
  "is_hex_char c \<longleftrightarrow> is_digit c \<or> is_hex_letter c \<or> (CHR ''A'' \<le> c \<and> c \<le> CHR ''F'')"

text \<open>The length \<^verbatim>\<open>hex.DecodeString\<close> decodes, or \<open>None\<close> for its error.\<close>

definition hex_decoded :: "bytes \<Rightarrow> nat option" where
  "hex_decoded s = (if even (length s) \<and> list_all is_hex_char s then Some (length s div 2) else None)"

definition defaulted :: "int \<Rightarrow> int \<Rightarrow> int" where
  "defaulted v d = (if v = 0 then d else v)"

definition NewNode :: "Config \<Rightarrow> (Config \<times> Node) option" where
  "NewNode config =
     (let digest = trim_prefix (ProfileIdentity config) ''sha256:''; decoded = hex_decoded digest in
      if \<not> has_API config \<or> \<not> is_abs (SupervisorSocket config) \<or> \<not> has_prefix (ProfileIdentity config) ''sha256:''
         \<or> decoded = None \<or> decoded \<noteq> Some 32 \<or> list_ex is_upper digest then None
      else let config' = config\<lparr>PollWait := defaulted (PollWait config) (20 * 1000000000),
             RetryInterval := defaulted (RetryInterval config) (250 * 1000000),
             ReportTimeout := defaulted (ReportTimeout config) (30 * 1000000000),
             CleanupTimeout := defaulted (CleanupTimeout config) (10 * 1000000000),
             c_Capacity := defaulted (c_Capacity config) 2\<rparr> in
        if c_Capacity config' < 1 \<or> c_Capacity config' > 64 then None
        else if PollWait config' < 0 \<or> PollWait config' > 25 * 1000000000
          \<or> RetryInterval config' < 1000000 \<or> RetryInterval config' > 60 * 1000000000
          \<or> ReportTimeout config' < 1000000 \<or> ReportTimeout config' > 300 * 1000000000
          \<or> CleanupTimeout config' < 1000000 \<or> CleanupTimeout config' > 60 * 1000000000 then None
        else Some (config', \<lparr>capacity = c_Capacity config', unsafe = None, node_active = []\<rparr>))"

lemma hex_digest_iff:
  "hex_decoded s = Some 32 \<and> \<not> list_ex is_upper s \<longleftrightarrow> length s = 64 \<and> (\<forall>c \<in> set s. is_digit c \<or> is_hex_letter c)"
proof -
  have up: "is_hex_char c \<and> \<not> is_upper c \<longleftrightarrow> is_digit c \<or> is_hex_letter c" for c
    by (auto simp: is_hex_char_def char_class_defs less_eq_char_def)
  have len: "even n \<and> n div 2 = 32 \<longleftrightarrow> n = 64" for n :: nat by auto
  show ?thesis unfolding hex_decoded_def list_all_iff list_ex_iff using up len by (auto split: if_splits)
qed

text \<open>
  A configuration is accepted only with a Profile identity the Supervisor's own reference check accepts,
  a capacity the queue accepts and positive bounded durations.
\<close>

lemma NewNode_accepts:
  assumes "NewNode config = Some (config', node)"
  shows "profileDigest (ProfileIdentity config') \<noteq> None \<and> 1 \<le> capacity node \<and> capacity node \<le> 64 \<and> unsafe node = None \<and>
    0 < RetryInterval config' \<and> 0 < ReportTimeout config' \<and> 0 < CleanupTimeout config'"
proof -
  have "profileDigest (ProfileIdentity config) \<noteq> None" if "NewNode config \<noteq> None"
    using that hex_digest_iff [of "trim_prefix (ProfileIdentity config) ''sha256:''"]
    by (auto simp: NewNode_def profileDigest_def Let_def split: if_splits)
  then show ?thesis using assms by (auto simp: NewNode_def Let_def split: if_splits)
qed

section \<open>Which calls each part makes\<close>

definition is_execute :: "call \<Rightarrow> bool" where
  "is_execute c = (case c of CallExecutePython _ _ \<Rightarrow> True | _ \<Rightarrow> False)"

definition is_complete :: "call \<Rightarrow> bool" where
  "is_complete c = (case c of CallComplete _ _ \<Rightarrow> True | _ \<Rightarrow> False)"

text \<open>Calls that neither run a Workload nor report a result.\<close>

definition quiet :: "call list \<Rightarrow> bool" where
  "quiet cs \<longleftrightarrow> (\<forall>c \<in> set cs. \<not> is_execute c \<and> \<not> is_complete c)"

lemma quiet_simps [simp]:
  "quiet []" "quiet (a @ b) \<longleftrightarrow> quiet a \<and> quiet b" "quiet (c # cs) \<longleftrightarrow> \<not> is_execute c \<and> \<not> is_complete c \<and> quiet cs"
  by (auto simp: quiet_def)

lemmas call_kinds [simp] = is_execute_def is_complete_def

lemma retry_calls: "retry c again os = Some (cs, r) \<Longrightarrow> set cs = {c} \<and> cs \<noteq> [] \<and> last cs = c"
proof (induction c again os arbitrary: cs r rule: retry.induct)
  case (3 c again e paused os)
  show ?case
  proof (cases "again e \<and> paused")
    case True
    then obtain ds r' where "retry c again os = Some (ds, r')" "cs = c # ds" using "3.prems" by auto
    then show ?thesis using "3.IH" True by auto
  qed (use "3.prems" in \<open>auto split: if_splits\<close>)
qed auto

lemma first_heartbeat_calls: "first_heartbeat c os = Some (cs, r) \<Longrightarrow> set cs = {c}"
proof (induction c os arbitrary: cs r rule: first_heartbeat.induct)
  case (3 c e paused os)
  show ?case
  proof (cases "Retryable e \<and> paused")
    case True
    then obtain ds r' where "first_heartbeat c os = Some (ds, r')" "cs = c # ds" using "3.prems" by auto
    then show ?thesis using "3.IH" True by auto
  qed (use "3.prems" in \<open>auto split: if_splits\<close>)
qed auto

lemma maintain_calls:
  assumes "maintainLease lease sid binds beats = Some (cs, r)"
  shows "set cs \<subseteq> {CallBindSandbox lease sid, CallHeartbeat lease sid} \<and> CallBindSandbox lease sid \<in> set cs"
proof -
  obtain calls e where b: "retry (CallBindSandbox lease sid) Retryable binds = Some (calls, e)"
    using assms by (auto simp: maintainLease_def split: option.splits)
  then have bs: "set calls = {CallBindSandbox lease sid}" using retry_calls by blast
  show ?thesis
  proof (cases e)
    case (Some x)
    then show ?thesis using assms b bs by (simp add: maintainLease_def)
  next
    case None
    then obtain beating a where h: "first_heartbeat (CallHeartbeat lease sid) beats = Some (beating, a)" and cs: "cs = calls @ beating"
      using assms b by (auto simp: maintainLease_def split: option.splits sum.splits if_splits)
    then show ?thesis using bs first_heartbeat_calls [OF h] by simp
  qed
qed

lemma cleanup_cases:
  assumes "cleanup lease sid destroy releases = Some (cs, r)"
  obtains ds where "retry (CallRelease lease) Retryable releases = Some (ds, r)"
      "cs = (if sid = [] then [] else [CallDestroySandbox sid]) @ ds"
  | "cs = [CallDestroySandbox sid]" "r \<noteq> None" "sid \<noteq> []"
  using assms by (auto simp: cleanup_def Let_def split: if_splits sup_answer.splits)

lemma cleanup_facts:
  assumes "cleanup lease sid destroy releases = Some (cs, r)"
  shows "set cs \<subseteq> {CallDestroySandbox sid, CallRelease lease} \<and> (sid \<noteq> [] \<longrightarrow> CallDestroySandbox sid \<in> set cs) \<and>
    (r = None \<longrightarrow> last cs = CallRelease lease) \<and> cs \<noteq> []"
  using assms
proof (cases rule: cleanup_cases)
  case (1 ds)
  then show ?thesis using retry_calls [OF 1(1)] by auto
qed simp

lemma cleanup_quiet: "cleanup lease sid destroy releases = Some (cs, r) \<Longrightarrow> quiet cs"
  using cleanup_facts by (fastforce simp: quiet_def)

lemma reconcile_calls:
  "reconcile_loop node es = Some (cs, r, node') \<Longrightarrow> quiet cs \<and> capacity node' = capacity node \<and> (r = None \<longrightarrow> node' = node)"
proof (induction node es arbitrary: cs r node' rule: reconcile_loop.induct)
  case (2 node entry destroy releases es)
  show ?case
  proof (cases "o_CleanupUnknown entry")
    case True
    then show ?thesis using "2.prems" by auto
  next
    case known: False
    show ?thesis
    proof (cases "(o_State entry \<noteq> Completed \<and> o_State entry \<noteq> WorkerLost) \<or> l_ExecutionID (o_Lease entry) \<in> set (node_active node)")
      case True
      then show ?thesis using known "2.prems" "2.IH"(1,2) by (auto split: if_splits)
    next
      case False
      then obtain calls e where c: "cleanup (o_Lease entry) (o_SandboxID entry) destroy releases = Some (calls, e)"
        using known "2.prems" by (auto split: option.splits)
      then have q: "quiet calls" by (rule cleanup_quiet)
      show ?thesis
      proof (cases e)
        case (Some x)
        then show ?thesis using c known False "2.prems" q by auto
      next
        case None
        then obtain ds where "reconcile_loop node es = Some (ds, r, node')" "cs = calls @ ds"
          using c known False "2.prems" by auto
        then show ?thesis using "2.IH"(3) [OF known _ _ c refl None] False q by auto
      qed
    qed
  qed
qed simp

lemma report_calls: "report_loop lease res remaining rs = Some (cs, e) \<Longrightarrow> set cs \<subseteq> {CallComplete lease res}"
proof (induction lease res remaining rs arbitrary: cs e rule: report_loop.induct)
  case (2 lease res remaining r rs)
  then show ?case by (fastforce simp: Let_def split: option.splits if_splits)
qed simp

lemma execute_and_report_calls:
  assumes "execute_and_report T lease sid env = Some (cs, err)"
  shows "\<exists>reports. cs = CallExecutePython sid lease # reports \<and>
    (reports = [] \<and> err \<noteq> None \<or> (\<exists>snapshot. snd (n_execute env) = Some snapshot \<and> r_ExecutionID snapshot = l_ExecutionID lease \<and>
       set reports \<subseteq> {CallComplete lease snapshot}))"
proof (cases "\<exists>snapshot. snd (n_execute env) = Some snapshot \<and> r_ExecutionID snapshot = l_ExecutionID lease \<and> fst (n_execute env) = SupOk")
  case False
  then have "cs = [CallExecutePython sid lease] \<and> err \<noteq> None"
    using assms by (cases "n_execute env") (auto simp: execute_and_report_def Let_def split: sup_answer.splits option.splits if_splits)
  then show ?thesis by simp
next
  case True
  then obtain snapshot where sn: "n_execute env = (SupOk, Some snapshot)" "r_ExecutionID snapshot = l_ExecutionID lease"
    by (metis prod.collapse)
  then obtain ds where "report_loop lease snapshot T (n_reports env) = Some (ds, err)" "cs = CallExecutePython sid lease # ds"
    using assms by (auto simp: execute_and_report_def Let_def)
  then show ?thesis using report_calls sn by fastforce
qed

lemma run_claimed_cases:
  assumes "run_claimed T lease env = Some (cs, sid, monitored, err)"
  obtains "quiet cs" "err \<noteq> None" "\<And>s. CallCreateSandbox s \<in> set cs \<Longrightarrow> s = sid \<and> sid \<noteq> []"
  | pre reports where "cs = pre @ CallExecutePython sid lease # reports" "quiet pre" "sid \<noteq> []"
      "{CallValidate lease, CallBindSandbox lease sid, CallCreateSandbox sid} \<subseteq> set pre"
      "\<And>s. CallCreateSandbox s \<in> set cs \<Longrightarrow> s = sid"
      "reports = [] \<and> err \<noteq> None \<or> (\<exists>snapshot. snd (n_execute env) = Some snapshot \<and> r_ExecutionID snapshot = l_ExecutionID lease \<and>
         set reports \<subseteq> {CallComplete lease snapshot})"
proof -
  have v: "quiet [CallValidate lease]" by simp
  show ?thesis
  proof (cases "n_validate env")
    case (Some e)
    then show ?thesis using assms that(1) by (auto simp: run_claimed_def)
  next
    case None
    note nv = None
    show ?thesis
    proof (cases "n_random env")
      case None
      then show ?thesis using assms nv that(1) by (auto simp: run_claimed_def)
    next
      case (Some random)
      let ?sid = "''sandbox-'' @ hex_encode random"
      obtain calls a where m: "maintainLease lease ?sid (n_binds env) (n_beats env) = Some (calls, a)"
        using assms nv Some by (auto simp: run_claimed_def Let_def split: option.splits)
      have mc: "quiet calls" "CallBindSandbox lease ?sid \<in> set calls" "\<And>s. CallCreateSandbox s \<notin> set calls"
        using maintain_calls [OF m] by (auto simp: quiet_def)
      note start = assms [unfolded run_claimed_def, simplified nv Some option.case Let_def m]
      show ?thesis
      proof (cases "\<exists>au. a = Inr au \<and> n_create env = SupOk")
        case False
        then have "sid = ?sid" "err \<noteq> None" "cs = CallValidate lease # calls \<or> cs = CallValidate lease # calls @ [CallCreateSandbox ?sid]"
          using start by (auto split: sum.splits sup_answer.splits)
        then show ?thesis using mc by (intro that(1)) auto
      next
        case True
        then obtain waits w where r: "retry (CallValidate lease) (\<lambda>e. Retryable e \<or> isLeaseConflict e) (n_authority env) = Some (waits, w)"
          using start by (auto split: option.splits)
        then have wq: "set waits = {CallValidate lease}" using retry_calls by blast
        let ?pre = "CallValidate lease # calls @ [CallCreateSandbox ?sid] @ waits"
        have pq: "quiet ?pre" using mc(1) wq by (auto simp: quiet_def)
        have created: "CallCreateSandbox s \<in> set ?pre \<Longrightarrow> s = ?sid" for s using mc(3) wq by auto
        show ?thesis
        proof (cases w)
          case e: (Some e)
          then have "cs = ?pre" "sid = ?sid" "err \<noteq> None" using start True r by auto
          then show ?thesis using pq created by (intro that(1)) auto
        next
          case None
          obtain ds where ds: "execute_and_report T lease ?sid env = Some (ds, err)" "cs = ?pre @ ds" "sid = ?sid"
            using start True r None by auto
          have "\<exists>reports. cs = ?pre @ CallExecutePython ?sid lease # reports \<and> sid = ?sid \<and>
              (reports = [] \<and> err \<noteq> None \<or> (\<exists>snapshot. snd (n_execute env) = Some snapshot \<and> r_ExecutionID snapshot = l_ExecutionID lease \<and>
                 set reports \<subseteq> {CallComplete lease snapshot}))"
            using execute_and_report_calls [OF ds(1)] ds(2,3) by auto
          then obtain reports where c: "cs = ?pre @ CallExecutePython ?sid lease # reports" "sid = ?sid"
            and rp: "reports = [] \<and> err \<noteq> None \<or> (\<exists>snapshot. snd (n_execute env) = Some snapshot \<and> r_ExecutionID snapshot = l_ExecutionID lease \<and>
                 set reports \<subseteq> {CallComplete lease snapshot})" by blast
          have nr: "CallCreateSandbox s \<notin> set reports" for s using rp by auto
          show ?thesis
          proof (rule that(2) [of ?pre reports])
            fix s assume "CallCreateSandbox s \<in> set cs"
            then have "CallCreateSandbox s \<in> set ?pre" using nr [of s] unfolding c(1) by simp
            then show "s = sid" unfolding c(2) by (rule created)
          qed (use c rp pq mc(2) in simp_all)
        qed
      qed
    qed
  qed
qed

lemma RunOnce_cases:
  assumes "RunOnce T env node = Some (node', trace, claimed, errs)"
  obtains "\<not> claimed" "quiet trace"
  | lease pre calls sid monitored err cleanups cleanupErr where "claimed" "unsafe node = None" "n_claim env = Inr (Some lease)" "quiet pre"
      "run_claimed T lease env = Some (calls, sid, monitored, err)"
      "cleanup lease sid (n_destroy env) (n_releases env) = Some (cleanups, cleanupErr)"
      "trace = pre @ CallClaim # calls @ cleanups" "unsafe node' = cleanupErr"
      "errs = (case err of None \<Rightarrow> [] | Some e \<Rightarrow> [e]) @ (if monitored then case n_monitor env of None \<Rightarrow> [] | Some e \<Rightarrow> [e] else []) @
         (case cleanupErr of None \<Rightarrow> [] | Some e \<Rightarrow> [e])"
proof (cases "n_slot env \<and> unsafe node = None \<and> (\<exists>entries. n_outstanding env = Inr entries)")
  case False
  then have "\<not> claimed" "quiet trace" using assms by (auto simp: RunOnce_def split: option.splits sum.splits if_splits)
  then show ?thesis by (rule that(1))
next
  case True
  then obtain entries where o: "n_slot env" "unsafe node = None" "n_outstanding env = Inr entries" by blast
  obtain cleaned e node1 where rl: "reconcile_loop node entries = Some (cleaned, e, node1)"
    using assms o by (auto simp: RunOnce_def split: option.splits)
  note rq = reconcile_calls [OF rl]
  let ?start = "CallOutstanding # cleaned @ [CallConfigureCapacity (capacity node)]"
  have sq: "quiet ?start" using rq by simp
  note body = assms [unfolded RunOnce_def, simplified o option.case sum.case rl prod.case Let_def]
  show ?thesis
  proof (cases "e = None \<and> n_configure env = None \<and> (\<exists>lease. n_claim env = Inr (Some lease))")
    case False
    then have "\<not> claimed" "quiet trace" using body sq rq by (auto simp: o split: option.splits sum.splits)
    then show ?thesis by (rule that(1))
  next
    case True
    then obtain lease where c: "e = None" "n_configure env = None" "n_claim env = Inr (Some lease)" by blast
    then have n1: "node1 = node" using rq by simp
    note tail = body [simplified c option.case sum.case prod.case o]
    obtain calls sid monitored err where rc: "run_claimed T lease env = Some (calls, sid, monitored, err)"
      using tail by (auto simp: o split: option.splits)
    obtain cleanups cleanupErr where cl: "cleanup lease sid (n_destroy env) (n_releases env) = Some (cleanups, cleanupErr)"
      using tail rc by (auto simp: o split: option.splits)
    have f: "node' = node1\<lparr>unsafe := (case cleanupErr of None \<Rightarrow> unsafe node1 | Some e \<Rightarrow> Some e),
        node_active := removeAll (l_ExecutionID lease) (List.insert (l_ExecutionID lease) (node_active node1))\<rparr>" "claimed"
      "trace = ?start @ [CallClaim] @ calls @ cleanups"
      "errs = (case err of None \<Rightarrow> [] | Some e \<Rightarrow> [e]) @ (if monitored then case n_monitor env of None \<Rightarrow> [] | Some e \<Rightarrow> [e] else []) @
         (case cleanupErr of None \<Rightarrow> [] | Some e \<Rightarrow> [e])"
      using tail rc cl by (simp_all add: o)
    have "unsafe node' = cleanupErr" using f(1) n1 o(2) by (simp split: option.split)
    then show ?thesis using f(3,4) by (intro that(2) [OF f(2) o(2) c(3) sq rc cl]) simp_all
  qed
qed

section \<open>Guarantees of a round\<close>

lemma quiet_none:
  assumes "quiet cs"
  shows "filter is_execute cs = []" and "CallExecutePython a b \<notin> set cs" and "CallComplete b c \<notin> set cs"
  using assms by (auto simp: quiet_def filter_empty_conv)

lemma RunOnce_unsafe:
  "unsafe node = Some e \<Longrightarrow> RunOnce T env node = Some (node, [], False, [if n_slot env then e else ErrContext])"
  by (simp add: RunOnce_def)


text \<open>
  A node that could not confirm a cleanup never claims again: whatever rounds a slot goes through
  afterwards, it makes no call at all and leaves the node as it is.
\<close>

lemma unsafe_node_stops:
  assumes "unsafe node = Some e" and "runSlot T node rounds = Some (node', trace)"
  shows "node' = node \<and> trace = []"
proof -
  have step: "runSlot T node rs = Some (n, cs) \<Longrightarrow> n = node \<and> cs = []" for rs n cs
    by (induction rs arbitrary: n cs) (auto simp: RunOnce_unsafe [OF assms(1)] split: if_splits)
  show ?thesis using step [OF assms(2)] .
qed

section \<open>Timing\<close>

lemma watchdog_disarmed_only_by_completion:
  "heartbeatLoop lease mon rs = Some (e, mon') \<Longrightarrow> m_watchdog mon \<noteq> None \<Longrightarrow> m_watchdog mon' = None \<Longrightarrow> m_completed mon' \<and> e = BeatNil"
proof (induction rs arbitrary: mon)
  case (Cons q rs)
  obtain r started where q: "q = (r, started)" by force
  show ?case
  proof (cases "heartbeatLoop lease mon (q # rs) = Some (e, mon') \<and> (m_watchdog mon' \<noteq> None \<or> m_completed mon' \<and> e = BeatNil)")
    case False
    then obtain mon1 where "heartbeatLoop lease mon1 rs = Some (e, mon')" "m_watchdog mon1 \<noteq> None"
      using Cons.prems by (fastforce simp: q Let_def split: if_splits sum.splits)
    then show ?thesis using Cons.IH Cons.prems(3) by blast
  qed (use Cons.prems in auto)
qed simp


text \<open>
  C38. Reporting ends: when every attempt consumes at least \<open>d\<close> of the reporting budget (it includes the
  pause between attempts), the loop returns within \<open>remaining / d\<close> attempts, rounded up.
\<close>

theorem reporting_terminates:
  assumes "0 < d" and "rounds \<noteq> []" and "remaining \<le> int (length rounds) * d"
    and "\<forall>r \<in> set rounds. d \<le> reportingTime (p_charged_completed r) (p_charged_disconnected r) (p_elapsed r) (p_confirmed r) (p_started r)"
  shows "\<exists>calls err. report_loop lease res remaining rounds = Some (calls, err) \<and> length calls \<le> length rounds"
  using assms(2-4)
proof (induction rounds arbitrary: remaining)
  case (Cons r rs)
  let ?t = "reportingTime (p_charged_completed r) (p_charged_disconnected r) (p_elapsed r) (p_confirmed r) (p_started r)"
  show ?case
  proof (cases "rs = []")
    case True
    then have "remaining - ?t \<le> 0" using Cons.prems(2,3) by simp
    then show ?thesis by (simp add: Let_def split: option.split)
  next
    case False
    have "remaining - ?t \<le> int (length rs) * d" using Cons.prems(2,3) by (simp add: algebra_simps)
    then obtain calls err where "report_loop lease res (remaining - ?t) rs = Some (calls, err)" "length calls \<le> length rs"
      using Cons.IH [OF False _] Cons.prems(3) by (meson list.set_intros(2))
    then show ?thesis by (simp add: Let_def split: option.split)
  qed
qed simp

section \<open>Concrete rounds\<close>

definition sample_lease :: Lease where
  "sample_lease = \<lparr>l_ExecutionID = ''e1'', l_AgentRunID = ''r1'', l_Generation = 1, l_ExpiresAt = 30000000100,
     l_Source = ''print(1)'', l_Stdin = [], l_OutputPaths = []\<rparr>"

definition sample_result :: ExecutePythonResult where
  "sample_result = \<lparr>r_ExecutionID = ''e1'', ExitCode = 0, Stdout = ''1'', Stderr = [], Truncated = False, StdoutTruncated = False,
     StderrTruncated = False, TerminalReason = ''completed'',
     ResourceUsage = \<lparr>OOMEvents = 0, PIDLimitEvents = 0, CPUUsec = 0, CPUThrottledPeriods = 0, CPUThrottledUsec = 0\<rparr>, Outputs = [], OutputError = []\<rparr>"

definition sample_authority :: Authority where
  "sample_authority = \<lparr>a_Lease = sample_lease, a_State = Leased, ServerTime = 100, a_RecoveryUntil = 60000000100\<rparr>"

definition sample_report :: "api_error option \<Rightarrow> report_round" where
  "sample_report answer = \<lparr>p_answer = answer, p_completed = False, p_disconnected = False, p_paused = True,
     p_charged_completed = False, p_charged_disconnected = False, p_elapsed = 250, p_confirmed = 0, p_started = 0\<rparr>"

text \<open>A round whose first report is lost on the way and whose second is acknowledged.\<close>

definition sample_env :: round_env where
  "sample_env = \<lparr>n_slot = True, n_outstanding = Inr [], n_configure = None, n_claim = Inr (Some sample_lease), n_validate = None,
     n_random = Some ''x'', n_binds = [(None, True)], n_beats = [(Inr sample_authority, True)], n_create = SupOk,
     n_authority = [(None, True)], n_execute = (SupOk, Some sample_result),
     n_reports = [sample_report (Some ErrTransport), sample_report None], n_monitor = None, n_destroy = SupOk, n_releases = [(None, True)]\<rparr>"

definition sample_node :: Node where
  "sample_node = \<lparr>capacity = 2, unsafe = None, node_active = []\<rparr>"

lemmas samples = sample_lease_def sample_result_def sample_authority_def sample_report_def sample_env_def sample_node_def

lemma sample_round:
  "\<exists>trace. RunOnce 1000 sample_env sample_node = Some (sample_node, trace, True, []) \<and> length (filter is_complete trace) = 2"
  by (simp add: RunOnce_def run_claimed_def maintainLease_def validAuthority_def execute_and_report_def cleanup_def samples
    Let_def Retryable_def reportingTime_def)


lemma unsafe_node_stops_witness:
  "runSlot 1000 (sample_node\<lparr>unsafe := Some ErrSupervisor\<rparr>) [\<lparr>s_env = sample_env, s_ctx_err = False, s_paused = True\<rparr>] =
     Some (sample_node\<lparr>unsafe := Some ErrSupervisor\<rparr>, [])"
proof -
  let ?n = "sample_node\<lparr>unsafe := Some ErrSupervisor\<rparr>" and ?r = "\<lparr>s_env = sample_env, s_ctx_err = False, s_paused = True\<rparr>"
  have "\<exists>node' trace. runSlot 1000 ?n [?r] = Some (node', trace)"
    by (simp add: RunOnce_unsafe node_retryable_def)
  then obtain node' trace where r: "runSlot 1000 ?n [?r] = Some (node', trace)" by blast
  have "unsafe ?n = Some ErrSupervisor" by simp
  from unsafe_node_stops [OF this r] r show ?thesis by simp
qed

definition sample_beat :: beat_round where
  "sample_beat = \<lparr>b_waited = True, b_lost = False, b_heartbeat = Inr (sample_authority\<lparr>a_State := Completed\<rparr>), b_inspect_done = False,
     b_inspected = True, b_recover = Inl ErrTransport, b_done = False\<rparr>"


theorem reporting_terminates_witness:
  "\<exists>calls err. report_loop sample_lease sample_result 400 [sample_report (Some ErrTransport), sample_report (Some ErrTransport)] =
     Some (calls, err) \<and> length calls \<le> 2"
  using reporting_terminates [of 250 "[sample_report (Some ErrTransport), sample_report (Some ErrTransport)]" 400 sample_lease sample_result]
  by (simp add: sample_report_def reportingTime_def numeral_2_eq_2 del: report_loop.simps)

end
