(* ===== verification/ControlServer.thy ===== *)
theory ControlServer
  imports InstalledProfile Supervisor WorkerNode Framing
begin

text \<open>
  The control protocol of the Supervisor: server_linux.go (\<open>handle\<close>, \<open>responseForRequest\<close>, creation),
  the responses of execution_linux.go, lifecycle_linux.go, results_linux.go and inspection_linux.go,
  the trusted roots of roots_linux.go and the client of client_linux.go. The operations of the
  creator are arguments (\<open>ops\<close>): other connections may interleave with them, and their own behaviour is
  the subject of the theory \<^verbatim>\<open>Supervisor\<close>.
\<close>

unbundle bit_operations_syntax

section \<open>Messages\<close>

record requestEnvelope =
  q_Schema :: bytes
  q_RequestID :: bytes
  q_Operation :: bytes
  q_Parameters :: "json option"

definition decode_envelope :: "json \<Rightarrow> requestEnvelope option" where
  "decode_envelope v = do {
     fs \<leftarrow> struct_fields [''schema'', ''request_id'', ''operation'', ''parameters''] v;
     a \<leftarrow> field fs ''schema'' string_value [];
     b \<leftarrow> field fs ''request_id'' string_value [];
     c \<leftarrow> field fs ''operation'' string_value [];
     Some \<lparr>q_Schema = a, q_RequestID = b, q_Operation = c, q_Parameters = map_of fs ''parameters''\<rparr> }"

record createSandboxParameters =
  p_SandboxID :: bytes
  p_ProfileIdentity :: bytes
  p_Attachments :: "AttachmentInput list"

text \<open>\<open>AttachmentInput.UnmarshalJSON\<close>: \<open>null\<close> is refused and the nested object decoded strictly.\<close>

definition decode_attachment :: "json \<Rightarrow> AttachmentInput option" where
  "decode_attachment v =
     (if v = null then None
      else case decode_fields (\<lambda>v. do {
             fs \<leftarrow> struct_fields [''staging_id'', ''name''] v;
             a \<leftarrow> field fs ''staging_id'' string_value [];
             b \<leftarrow> field fs ''name'' string_value [];
             Some \<lparr>StagingID = a, a_Name = b\<rparr> }) [''staging_id'', ''name''] (print v) of
        Inl _ \<Rightarrow> None
      | Inr i \<Rightarrow> Some i)"

definition decode_create :: "json \<Rightarrow> createSandboxParameters option" where
  "decode_create v = do {
     fs \<leftarrow> struct_fields [''sandbox_id'', ''profile_identity'', ''attachments''] v;
     a \<leftarrow> field fs ''sandbox_id'' string_value [];
     b \<leftarrow> field fs ''profile_identity'' string_value [];
     c \<leftarrow> field fs ''attachments'' (slice_value decode_attachment) None;
     Some \<lparr>p_SandboxID = a, p_ProfileIdentity = b, p_Attachments = elems c\<rparr> }"

record executePythonParameters =
  e_SandboxID :: bytes
  e_ExecutionID :: bytes
  e_Source :: bytes
  e_Stdin :: bytes
  e_OutputPaths :: "bytes list"

definition decode_execute :: "json \<Rightarrow> executePythonParameters option" where
  "decode_execute v = do {
     fs \<leftarrow> struct_fields [''sandbox_id'', ''execution_id'', ''source'', ''stdin'', ''output_paths''] v;
     a \<leftarrow> field fs ''sandbox_id'' string_value [];
     b \<leftarrow> field fs ''execution_id'' string_value [];
     c \<leftarrow> field fs ''source'' string_value [];
     d \<leftarrow> field fs ''stdin'' string_value [];
     e \<leftarrow> field fs ''output_paths'' (slice_value string_value) None;
     Some \<lparr>e_SandboxID = a, e_ExecutionID = b, e_Source = c, e_Stdin = d, e_OutputPaths = elems e\<rparr> }"

definition decode_reference :: "json \<Rightarrow> (bytes \<times> bytes) option" where
  "decode_reference v = do {
     fs \<leftarrow> struct_fields [''sandbox_id'', ''execution_id''] v;
     a \<leftarrow> field fs ''sandbox_id'' string_value [];
     b \<leftarrow> field fs ''execution_id'' string_value [];
     Some (a, b) }"

definition decode_sandbox :: "json \<Rightarrow> bytes option" where
  "decode_sandbox v = do { fs \<leftarrow> struct_fields [''sandbox_id''] v; field fs ''sandbox_id'' string_value [] }"

datatype response_result = SandboxResult bytes | ExecutionResult ExecutePythonResult

record responseEnvelope =
  s_Schema :: bytes
  s_RequestID :: bytes
  s_Result :: "response_result option"
  s_Error :: "ErrorCode option"

definition protocolErrorResponse :: "bytes \<Rightarrow> ErrorCode \<Rightarrow> responseEnvelope" where
  "protocolErrorResponse requestID err_code = \<lparr>s_Schema = ResponseSchemaV1, s_RequestID = requestID, s_Result = None, s_Error = Some err_code\<rparr>"

definition resultResponse :: "bytes \<Rightarrow> response_result \<Rightarrow> responseEnvelope" where
  "resultResponse requestID res = \<lparr>s_Schema = ResponseSchemaV1, s_RequestID = requestID, s_Result = Some res, s_Error = None\<rparr>"

section \<open>The server\<close>

datatype lstat_result = LstatMissing | LstatError | LstatInfo bool bool

text \<open>
  The trusted roots as the server sees them: \<open>LstatInfo\<close> is whether the entry is a symbolic link and
  whether it is a directory; \<open>v_open\<close> whether it opens.
\<close>

record server_env =
  v_lstat :: "bytes \<Rightarrow> lstat_result"
  v_open :: "bytes \<Rightarrow> bool"
  v_view :: view
  v_content :: "nat \<Rightarrow> bytes option"
  v_seek :: "nat \<Rightarrow> bool"
  v_store :: nat
  v_staging :: "staging option"
  v_sha256 :: "bytes \<Rightarrow> bytes"
  v_scan :: "bytes \<Rightarrow> lexeme list"
  v_unmarshal :: "bytes \<Rightarrow> installed_manifest option"
  v_goarch :: bytes

record creator_ops =
  op_create :: "bytes \<Rightarrow> nat \<Rightarrow> openedAttachment list \<Rightarrow> sandboxCreator \<Rightarrow> ErrorCode option \<times> sandboxCreator"
  op_execute :: "executePythonParameters \<Rightarrow> sandboxCreator \<Rightarrow> (ErrorCode + ExecutePythonResult) \<times> sandboxCreator"
  op_destroy :: "bytes \<Rightarrow> sandboxCreator \<Rightarrow> ErrorCode option \<times> sandboxCreator"
  op_inspect :: "bytes \<Rightarrow> sandboxCreator \<Rightarrow> ErrorCode option"

definition createSandboxResponse :: "server_env \<Rightarrow> creator_ops \<Rightarrow> bytes \<Rightarrow> json \<Rightarrow> sandboxCreator \<Rightarrow> responseEnvelope \<times> sandboxCreator" where
  "createSandboxResponse env ops requestID raw st =
     (let reject = (\<lambda>c. (protocolErrorResponse requestID c, st)) in
      case decode_fields decode_create [''sandbox_id'', ''profile_identity'', ''attachments''] (print raw) of
        Inl _ \<Rightarrow> reject ErrorCodeMalformedRequest
      | Inr params \<Rightarrow>
     (if p_SandboxID params = [] \<or> p_ProfileIdentity params = [] then reject ErrorCodeMalformedRequest
      else if \<not> validOpaqueIdentifier (p_SandboxID params) then reject ErrorCodeInvalidReference
      else case resolveAttachments (v_staging env) (p_Attachments params) of
        Inl c \<Rightarrow> reject c
      | Inr attachments \<Rightarrow>
     (case profileDigest (p_ProfileIdentity params) of
        None \<Rightarrow> reject ErrorCodeInvalidReference
      | Some digest \<Rightarrow>
     (let profilePath = ''sha256/'' @ digest in
      case v_lstat env profilePath of
        LstatMissing \<Rightarrow> reject ErrorCodeProfileNotFound
      | LstatError \<Rightarrow> reject ErrorCodeInvalidReference
      | LstatInfo symlink dir \<Rightarrow>
     (if symlink \<or> \<not> dir then reject ErrorCodeInvalidReference
      else if \<not> v_open env profilePath then reject ErrorCodeInvalidReference
      else if \<not> enabled (config st) then reject ErrorCodeOperationUnavailable
      else case openProfileRootFilesystem (v_view env) (v_store env) digest of
        None \<Rightarrow> reject ErrorCodeInvalidReference
      | Some rootfs \<Rightarrow>
     (if \<not> validateSandboxProfile (v_sha256 env) (v_scan env) (v_unmarshal env) (v_goarch env) (v_view env) (v_content env) (v_seek env)
             (v_store env) digest rootfs then reject ErrorCodeInvalidReference
      else case op_create ops (p_SandboxID params) rootfs attachments st of
        (Some c, st1) \<Rightarrow> (protocolErrorResponse requestID c, st1)
      | (None, st1) \<Rightarrow> (resultResponse requestID (SandboxResult (p_SandboxID params)), st1)))))))"

definition executePythonResponse :: "creator_ops \<Rightarrow> bytes \<Rightarrow> json \<Rightarrow> sandboxCreator \<Rightarrow> responseEnvelope \<times> sandboxCreator" where
  "executePythonResponse ops requestID raw st =
     (let reject = (\<lambda>c. (protocolErrorResponse requestID c, st)) in
      case decode_fields decode_execute [''sandbox_id'', ''execution_id'', ''source'', ''stdin'', ''output_paths''] (print raw) of
        Inl _ \<Rightarrow> reject ErrorCodeMalformedRequest
      | Inr params \<Rightarrow>
     (if e_Source params = [] \<or> nul \<in> set (e_Source params) \<or> length (e_Source params) > 32 * 1024 \<or> length (e_Stdin params) > 8 * 1024
      then reject ErrorCodeMalformedRequest
      else if \<not> validOpaqueIdentifier (e_SandboxID params) \<or> \<not> validOpaqueIdentifier (e_ExecutionID params) \<or> \<not> validOutputPaths (e_OutputPaths params)
      then reject ErrorCodeInvalidReference
      else if int (length (e_OutputPaths params)) > Files (Extraction (Budget (config st))) then reject ErrorCodeInvalidReference
      else if \<not> enabled (config st) then reject ErrorCodeOperationUnavailable
      else case op_execute ops params st of
        (Inl c, st1) \<Rightarrow> (protocolErrorResponse requestID c, st1)
      | (Inr res, st1) \<Rightarrow> (resultResponse requestID (ExecutionResult res), st1)))"

definition destroySandboxResponse :: "creator_ops \<Rightarrow> bytes \<Rightarrow> json \<Rightarrow> sandboxCreator \<Rightarrow> responseEnvelope \<times> sandboxCreator" where
  "destroySandboxResponse ops requestID raw st =
     (let reject = (\<lambda>c. (protocolErrorResponse requestID c, st)) in
      case decode_fields decode_sandbox [''sandbox_id''] (print raw) of
        Inl _ \<Rightarrow> reject ErrorCodeMalformedRequest
      | Inr sid \<Rightarrow>
     (if sid = [] then reject ErrorCodeMalformedRequest
      else if \<not> validOpaqueIdentifier sid then reject ErrorCodeInvalidReference
      else if \<not> enabled (config st) then reject ErrorCodeOperationUnavailable
      else case op_destroy ops sid st of
        (Some c, st1) \<Rightarrow> (protocolErrorResponse requestID c, st1)
      | (None, st1) \<Rightarrow> (resultResponse requestID (SandboxResult sid), st1)))"

definition getExecutionResultResponse :: "bytes \<Rightarrow> json \<Rightarrow> sandboxCreator \<Rightarrow> responseEnvelope" where
  "getExecutionResultResponse requestID raw st =
     (let reject = protocolErrorResponse requestID in
      case decode_fields decode_reference [''sandbox_id'', ''execution_id''] (print raw) of
        Inl _ \<Rightarrow> reject ErrorCodeMalformedRequest
      | Inr (sid, xid) \<Rightarrow>
     (if sid = [] \<or> xid = [] then reject ErrorCodeMalformedRequest
      else if \<not> validOpaqueIdentifier sid \<or> \<not> validOpaqueIdentifier xid then reject ErrorCodeInvalidReference
      else if \<not> enabled (config st) then reject ErrorCodeOperationUnavailable
      else case read_result (results st) (sid, xid) of
        Inl c \<Rightarrow> reject c
      | Inr res \<Rightarrow> resultResponse requestID (ExecutionResult res)))"

definition inspectSandboxResponse :: "creator_ops \<Rightarrow> bytes \<Rightarrow> json \<Rightarrow> sandboxCreator \<Rightarrow> responseEnvelope" where
  "inspectSandboxResponse ops requestID raw st =
     (let reject = protocolErrorResponse requestID in
      case decode_fields decode_sandbox [''sandbox_id''] (print raw) of
        Inl _ \<Rightarrow> reject ErrorCodeMalformedRequest
      | Inr sid \<Rightarrow>
     (if sid = [] then reject ErrorCodeMalformedRequest
      else if \<not> validOpaqueIdentifier sid then reject ErrorCodeInvalidReference
      else if \<not> enabled (config st) then reject ErrorCodeOperationUnavailable
      else case op_inspect ops sid st of
        Some c \<Rightarrow> reject c
      | None \<Rightarrow> resultResponse requestID (SandboxResult sid)))"

definition responseForRequest :: "server_env \<Rightarrow> creator_ops \<Rightarrow> requestEnvelope \<Rightarrow> sandboxCreator \<Rightarrow> responseEnvelope \<times> sandboxCreator" where
  "responseForRequest env ops request st =
     (let requestID = q_RequestID request in
      case q_Parameters request of
        None \<Rightarrow> (protocolErrorResponse requestID ErrorCodeMalformedRequest, st)
      | Some raw \<Rightarrow>
     (if q_Schema request = [] \<or> \<not> validOpaqueIdentifier requestID \<or> q_Operation request = []
      then (protocolErrorResponse requestID ErrorCodeMalformedRequest, st)
      else if q_Schema request \<noteq> RequestSchemaV1 then (protocolErrorResponse requestID ErrorCodeUnsupportedVersion, st)
      else if q_Operation request = OperationCreateSandbox then createSandboxResponse env ops requestID raw st
      else if q_Operation request = OperationExecutePython then executePythonResponse ops requestID raw st
      else if q_Operation request = OperationDestroySandbox then destroySandboxResponse ops requestID raw st
      else if q_Operation request = OperationGetExecutionResult then (getExecutionResultResponse requestID raw st, st)
      else if q_Operation request = OperationInspectSandbox then (inspectSandboxResponse ops requestID raw st, st)
      else (protocolErrorResponse requestID ErrorCodeUnknownOperation, st)))"

text \<open>\<open>handle\<close> up to the response; \<open>stream\<close> is what the client sends.\<close>

definition handle :: "server_env \<Rightarrow> creator_ops \<Rightarrow> bytes \<Rightarrow> sandboxCreator \<Rightarrow> responseEnvelope \<times> sandboxCreator" where
  "handle env ops stream st =
     (case fst (readFrame stream maximumControlMessageSize) of
        Inl e \<Rightarrow> (protocolErrorResponse [] (if e = FrameTooLarge then ErrorCodeRequestTooLarge else ErrorCodeMalformedRequest), st)
      | Inr payload \<Rightarrow>
         (case decodeStrictJSON (v_scan env) decode_envelope [''schema'', ''request_id'', ''operation'', ''parameters''] payload of
            Inl _ \<Rightarrow> (protocolErrorResponse [] ErrorCodeMalformedRequest, st)
          | Inr request \<Rightarrow> responseForRequest env ops request st))"

section \<open>The client\<close>

definition envelope_json :: "bytes \<Rightarrow> bytes \<Rightarrow> json \<Rightarrow> json" where
  "envelope_json requestID operation params = JObj [(''schema'', json_string RequestSchemaV1), (''request_id'', json_string requestID),
     (''operation'', json_string operation), (''parameters'', params)]"

text \<open>\<^verbatim>\<open>omitempty\<close> drops an empty list of output paths.\<close>

definition execute_json :: "executePythonParameters \<Rightarrow> json" where
  "execute_json p = JObj ([(''sandbox_id'', json_string (e_SandboxID p)), (''execution_id'', json_string (e_ExecutionID p)),
     (''source'', json_string (e_Source p)), (''stdin'', json_string (e_Stdin p))] @
     (if e_OutputPaths p = [] then [] else [(''output_paths'', JArr (map json_string (e_OutputPaths p)))]))"

text \<open>The request of one Execution of a Worker Node, as \<open>RunOnce\<close> fills it in.\<close>

definition worker_parameters :: "bytes \<Rightarrow> Lease \<Rightarrow> executePythonParameters" where
  "worker_parameters sandboxID lease = \<lparr>e_SandboxID = sandboxID, e_ExecutionID = l_ExecutionID lease, e_Source = l_Source lease,
     e_Stdin = l_Stdin lease, e_OutputPaths = l_OutputPaths lease\<rparr>"

definition ExecutePython_json :: "bytes \<Rightarrow> Lease \<Rightarrow> json" where
  "ExecutePython_json sandboxID lease =
     envelope_json (''execute-'' @ sandboxID) OperationExecutePython (execute_json (worker_parameters sandboxID lease))"

text \<open>What \<open>exchange\<close> demands of a decoded response.\<close>

definition exchange_accepts :: "bytes \<Rightarrow> responseEnvelope \<Rightarrow> bool" where
  "exchange_accepts requestID response \<longleftrightarrow>
     \<not> (s_Schema response \<noteq> ResponseSchemaV1 \<or> s_RequestID response \<noteq> requestID \<or> (s_Result response \<noteq> None) = (s_Error response \<noteq> None))"

section \<open>Trusted roots\<close>

text \<open>The answers of \<open>Lstat\<close> to the root checks; \<open>is_link\<close> is the symbolic link bit.\<close>

record root_info =
  is_link :: bool
  r_stat :: Stat_t

definition validateRuntimeOwnedRoot :: "32 word \<Rightarrow> root_info option \<Rightarrow> bool" where
  "validateRuntimeOwnedRoot euid info =
     (case info of
        None \<Rightarrow> False
      | Some i \<Rightarrow>
         (if \<not> is_dir (r_stat i) \<or> is_link i then False
          else if Perm (r_stat i) AND 0x12 \<noteq> 0 then False
          else Uid (r_stat i) = euid))"

text \<open>The two \<open>Lstat\<close> calls of the socket directory may see different entries; \<open>0x1E8\<close> is \<open>0o750\<close>.\<close>

definition validateSocketDirectory :: "32 word \<Rightarrow> 32 word \<Rightarrow> root_info option \<Rightarrow> root_info option \<Rightarrow> bool" where
  "validateSocketDirectory euid egid first second =
     (if \<not> validateRuntimeOwnedRoot euid first then False
      else case second of
        None \<Rightarrow> False
      | Some i \<Rightarrow> if Perm (r_stat i) \<noteq> 0x1E8 then False else Gid (r_stat i) = egid)"

definition validateTrustedPaths :: "32 word \<Rightarrow> 32 word \<Rightarrow> bytes \<Rightarrow> bytes \<Rightarrow> bytes \<Rightarrow> root_info option \<Rightarrow> root_info option \<Rightarrow> bool" where
  "validateTrustedPaths euid egid SocketPath ProfileStore SandboxRoot first second =
     (if \<not> is_abs SocketPath \<or> \<not> is_abs ProfileStore \<or> \<not> is_abs SandboxRoot then False
      else validateSocketDirectory euid egid first second)"

definition openRuntimeOwnedRoot :: "32 word \<Rightarrow> root_info option \<Rightarrow> bool \<Rightarrow> bool" where
  "openRuntimeOwnedRoot euid info opens = (if \<not> validateRuntimeOwnedRoot euid info then False else opens)"

section \<open>Every response is one the client accepts\<close>

lemma accepts_simps [simp]:
  "exchange_accepts r (protocolErrorResponse r c)" "exchange_accepts r (resultResponse r x)"
  by (simp_all add: exchange_accepts_def protocolErrorResponse_def resultResponse_def)

lemma handler_accepts:
  "exchange_accepts r (fst (createSandboxResponse env ops r raw st))"
  "exchange_accepts r (fst (executePythonResponse ops r raw st))"
  "exchange_accepts r (fst (destroySandboxResponse ops r raw st))"
  "exchange_accepts r (getExecutionResultResponse r raw st)"
  "exchange_accepts r (inspectSandboxResponse ops r raw st)"
  by (simp_all add: createSandboxResponse_def executePythonResponse_def destroySandboxResponse_def getExecutionResultResponse_def
    inspectSandboxResponse_def Let_def split: sum.split option.split prod.split lstat_result.split)

lemma response_accepted: "exchange_accepts (q_RequestID request) (fst (responseForRequest env ops request st))"
  using handler_accepts by (simp add: responseForRequest_def Let_def split: option.split)

section \<open>Identifiers of a Worker Node\<close>

lemma hex_digit_reference: "n < 16 \<Longrightarrow> is_lower (hex_digit n) \<or> is_digit (hex_digit n)"
proof -
  have "list_all (\<lambda>n. is_lower (hex_digit n) \<or> is_digit (hex_digit n)) [0..<16]" by code_simp
  then show "n < 16 \<Longrightarrow> ?thesis" by (simp add: list_all_iff)
qed

lemma hex_reference: "c \<in> set (hex_encode s) \<Longrightarrow> is_lower c \<or> is_digit c"
proof -
  have "is_lower (hex_digit (byte d div 16)) \<or> is_digit (hex_digit (byte d div 16))"
    "is_lower (hex_digit (byte d mod 16)) \<or> is_digit (hex_digit (byte d mod 16))" for d
    by (rule hex_digit_reference, simp add: byte_nibbles)+
  then show "c \<in> set (hex_encode s) \<Longrightarrow> ?thesis" by (auto simp: hex_encode_def)
qed

lemma reference_append:
  assumes "reference pre" and "\<forall>c \<in> set s. is_lower c \<or> is_digit c" and "length pre + length s \<le> 64"
  shows "validOpaqueIdentifier (pre @ s)"
  using assms by (cases pre) (auto simp: reference_iff_opaque reference_def)

lemma worker_identifiers:
  assumes "length random = 16"
  shows "validOpaqueIdentifier (''sandbox-'' @ hex_encode random)" and "validOpaqueIdentifier (''execute-'' @ ''sandbox-'' @ hex_encode random)"
proof -
  have r: "reference ''sandbox-''" "reference ''execute-sandbox-''" by code_simp+
  have h: "\<forall>c \<in> set (hex_encode random). is_lower c \<or> is_digit c" using hex_reference by blast
  show "validOpaqueIdentifier (''sandbox-'' @ hex_encode random)" by (rule reference_append [OF r(1) h]) (simp add: assms)
  show "validOpaqueIdentifier (''execute-'' @ ''sandbox-'' @ hex_encode random)"
    using reference_append [OF r(2) h] by (simp add: assms)
qed

lemma reference_utf8: "reference s \<Longrightarrow> utf8_valid s"
proof (rule utf8_valid_ascii)
  assume "reference s"
  then show "\<forall>c \<in> set s. byte c < 0x80"
    by (cases s) (auto simp: reference_def char_class_defs less_eq_char_def byte_def)
qed

section \<open>A request of a Worker Node reaches its Execution\<close>

lemma execute_json_shape:
  "unique_names (execute_json p)" "json_depth (execute_json p) \<le> 2"
  "fields_of (execute_json p) \<subseteq> set [''sandbox_id'', ''execution_id'', ''source'', ''stdin'', ''output_paths'']" "\<exists>fs. execute_json p = JObj fs"
proof -
  have "foldr max (map json_depth (map json_string ps)) 0 \<le> 0" for ps by (intro foldr_max_le) (auto simp: json_string_def)
  then show "json_depth (execute_json p) \<le> 2" by (simp add: execute_json_def json_string_def)
qed (auto simp: execute_json_def json_string_def list_all_iff fields_of_def)

lemma decode_fields_print:
  assumes "unique_names v" and "json_depth v \<le> 10000" and "v = JObj fs" and "fields_of v \<subseteq> set allowed" and "tgt v = Some x"
  shows "decode_fields tgt allowed (print v) = Inr x"
proof -
  have r: "rejectDuplicateJSONFields (print v) = None" using assms(1) reject_iff by blast
  have u: "Unmarshal (print v) = Some v" using assms(2) by (simp add: Unmarshal_def del: print.simps)
  have f: "(case v of JObj fs \<Rightarrow> Some (map fst fs) | JLit l \<Rightarrow> if l = ''null'' then Some [] else None | _ \<Rightarrow> None) = Some (map fst fs)"
    by (simp add: assms(3))
  show ?thesis unfolding decode_fields_def r option.case u f using assms(4,5) by (auto simp: fields_of_def assms(3))
qed

definition texts_ok :: "executePythonParameters \<Rightarrow> bool" where
  "texts_ok p \<longleftrightarrow> utf8_valid (e_SandboxID p) \<and> utf8_valid (e_ExecutionID p) \<and> utf8_valid (e_Source p) \<and> utf8_valid (e_Stdin p) \<and>
     (\<forall>q \<in> set (e_OutputPaths p). utf8_valid q)"

lemma execute_round_trip: "texts_ok p \<Longrightarrow> decode_execute (execute_json p) = Some p"
  by (cases p) (auto simp: texts_ok_def decode_execute_def execute_json_def struct_fields_def field_def string_json slice_value_def
    decode_all_map elems_def)

lemma execute_decoded:
  "texts_ok p \<Longrightarrow> decode_fields decode_execute [''sandbox_id'', ''execution_id'', ''source'', ''stdin'', ''output_paths''] (print (execute_json p)) = Inr p"
  using execute_json_shape [of p] execute_round_trip [of p] by (auto intro!: decode_fields_print)

lemma envelope_decoded:
  assumes "scan payload = print (envelope_json requestID operation params)" and "utf8_valid payload" and "utf8_valid requestID" and "utf8_valid operation"
    and "unique_names params" and "json_depth params \<le> 2"
  shows "decodeStrictJSON scan decode_envelope [''schema'', ''request_id'', ''operation'', ''parameters''] payload =
    Inr \<lparr>q_Schema = RequestSchemaV1, q_RequestID = requestID, q_Operation = operation, q_Parameters = Some params\<rparr>"
proof -
  have u: "utf8_valid RequestSchemaV1" unfolding RequestSchemaV1_def by code_simp
  have d: "decode_envelope (envelope_json requestID operation params) =
      Some \<lparr>q_Schema = RequestSchemaV1, q_RequestID = requestID, q_Operation = operation, q_Parameters = Some params\<rparr>"
    using assms(3,4) u by (simp add: decode_envelope_def envelope_json_def struct_fields_def field_def string_json)
  have q: "unique_names (envelope_json requestID operation params)" "json_depth (envelope_json requestID operation params) \<le> 10000"
    using assms(5,6) by (simp_all add: envelope_json_def json_string_def)
  have f: "fields_of (envelope_json requestID operation params) \<subseteq> set [''schema'', ''request_id'', ''operation'', ''parameters'']"
    by (simp add: envelope_json_def fields_of_def)
  show ?thesis
    unfolding decodeStrictJSON_def assms(1) using assms(2) decode_fields_print [of "envelope_json requestID operation params", OF q envelope_json_def f, of decode_envelope, OF d] by simp
qed

text \<open>The response that reports the outcome of an Execution.\<close>

definition execution_response :: "bytes \<Rightarrow> ErrorCode + ExecutePythonResult \<Rightarrow> responseEnvelope" where
  "execution_response requestID outcome = (case outcome of Inl c \<Rightarrow> protocolErrorResponse requestID c | Inr r \<Rightarrow> resultResponse requestID (ExecutionResult r))"

lemma admitted_execution:
  assumes "texts_ok p" and "e_Source p \<noteq> []" and "nul \<notin> set (e_Source p)" and "length (e_Source p) \<le> 32 * 1024" and "length (e_Stdin p) \<le> 8 * 1024"
    and "validOpaqueIdentifier (e_SandboxID p)" and "validOpaqueIdentifier (e_ExecutionID p)" and "validOutputPaths (e_OutputPaths p)"
    and "int (length (e_OutputPaths p)) \<le> Files (Extraction (Budget (config st)))" and "enabled (config st)"
  shows "executePythonResponse ops requestID (execute_json p) st =
    (execution_response requestID (fst (op_execute ops p st)), snd (op_execute ops p st))"
proof -
  have "\<not> (e_Source p = [] \<or> nul \<in> set (e_Source p) \<or> length (e_Source p) > 32 * 1024 \<or> length (e_Stdin p) > 8 * 1024)"
    "\<not> (\<not> validOpaqueIdentifier (e_SandboxID p) \<or> \<not> validOpaqueIdentifier (e_ExecutionID p) \<or> \<not> validOutputPaths (e_OutputPaths p))"
    "\<not> int (length (e_OutputPaths p)) > Files (Extraction (Budget (config st)))" using assms by auto
  then show ?thesis
    unfolding executePythonResponse_def Let_def execute_decoded [OF assms(1)] sum.case
    using assms(10) by (simp add: execution_response_def split: prod.split sum.split)
qed


definition sample_random :: bytes where "sample_random = replicate 16 (CHR ''k'')"
definition sample_sandbox :: bytes where "sample_sandbox = ''sandbox-'' @ hex_encode sample_random"

definition sample_server :: server_env where
  "sample_server = \<lparr>v_lstat = (\<lambda>_. LstatMissing), v_open = (\<lambda>_. False), v_view = (\<lambda>_ _ _. None), v_content = (\<lambda>_. None), v_seek = (\<lambda>_. False),
     v_store = 0, v_staging = None, v_sha256 = (\<lambda>s. s), v_scan = (\<lambda>_. print (ExecutePython_json sample_sandbox sample_lease)),
     v_unmarshal = (\<lambda>_. None), v_goarch = ''amd64''\<rparr>"

definition sample_ops :: creator_ops where
  "sample_ops = \<lparr>op_create = (\<lambda>_ _ _ st. (None, st)), op_execute = (\<lambda>p st. (if e_ExecutionID p = ''e1'' then Inr sample_result else Inl ErrorCodeSandboxNotFound, st)),
     op_destroy = (\<lambda>_ st. (None, st)), op_inspect = (\<lambda>_ _. None)\<rparr>"

definition sample_execution :: Execution where
  "sample_execution = \<lparr>x_ExecutionID = ''e1'', x_AgentRunID = ''r1'', x_Source = ''print(1)'', x_Stdin = [], x_OutputPaths = []\<rparr>"

definition sample_creator :: sandboxCreator where
  "sample_creator = newSandboxCreator \<lparr>SubUIDStart = 65536, SubGIDStart = 65536, SubIDCount = 65536, Budget = DefaultResourceBudget\<rparr>"


end
