(* ===== verification/Migrations.thy ===== *)
theory Migrations
  imports Database Identifiers Protocol
begin

text \<open>
  The schema migrations of the Control Plane (\<^verbatim>\<open>internal/migrations/migrate.go\<close>) and the startup
  gate of the execution store (\<^verbatim>\<open>internal/executionqueue/health.go\<close>): loading and checking the
  reviewed source, comparing the recorded history with it, applying each missing file in a
  transaction of its own, and reporting the version.

  PostgreSQL and the SQL of the files are parameters: \<open>execute\<close> is what running a file's text does to
  the database inside a transaction, and \<^verbatim>\<open>migration_env\<close> is what a run observes of the connection
  (which round trips fail, how each commit ends). SHA-256 is the parameter \<open>sha256\<close>. The session
  lock is held from before the history is read until the connection closes, so runs do not
  interleave: a history of the system is a sequence of runs.
\<close>

section \<open>The source directory\<close>

record dir_entry =
  entry_name :: bytes
  entry_is_dir :: bool
  entry_contents :: "bytes option"

record migration =
  m_version :: nat
  m_name :: bytes
  m_sql :: bytes
  m_digest :: bytes

datatype load_error =
    SourceUnreadable
  | InvalidFilename bytes
  | VersionsNotContiguous nat bytes
  | MigrationUnreadable bytes
  | MigrationEmpty bytes
  | NoMigrations

text \<open>
  \<^verbatim>\<open>migrationName\<close> is \<^verbatim>\<open>^([0-9]{4})_[a-z0-9_]+\.sql$\<close>; the result is the submatch.
\<close>

definition name_char :: "char \<Rightarrow> bool" where
  "name_char c \<longleftrightarrow> is_lower c \<or> is_digit c \<or> c = CHR ''_''"

definition migrationName :: "bytes \<Rightarrow> bytes option" where
  "migrationName s =
     (let digits = take 4 s; rest = drop 4 s; middle = trim_suffix (drop 1 rest) ''.sql'' in
      if length digits = 4 \<and> list_all is_digit digits \<and> has_prefix rest ''_'' \<and>
         has_suffix (drop 1 rest) ''.sql'' \<and> middle \<noteq> [] \<and> list_all name_char middle
      then Some digits else None)"

fun decimal_value :: "nat \<Rightarrow> bytes \<Rightarrow> nat" where
  "decimal_value acc [] = acc"
| "decimal_value acc (c # s) = decimal_value (10 * acc + (of_char c - 48)) s"

text \<open>
  \<^verbatim>\<open>strings.TrimSpace(s) == ""\<close>: the text consists of Unicode white space, in UTF-8.
\<close>

definition space1 :: "char \<Rightarrow> bool" where
  "space1 c \<longleftrightarrow> (9 \<le> (of_char c :: nat) \<and> (of_char c :: nat) \<le> 13) \<or> c = CHR 0x20"

definition space2 :: "char \<Rightarrow> char \<Rightarrow> bool" where
  "space2 c d \<longleftrightarrow> c = CHR 0xC2 \<and> (d = CHR 0x85 \<or> d = CHR 0xA0)"

definition space3 :: "char \<Rightarrow> char \<Rightarrow> char \<Rightarrow> bool" where
  "space3 c d e \<longleftrightarrow>
     (c = CHR 0xE1 \<and> d = CHR 0x9A \<and> e = CHR 0x80) \<or>
     (c = CHR 0xE2 \<and> d = CHR 0x80 \<and>
        ((0x80 \<le> (of_char e :: nat) \<and> (of_char e :: nat) \<le> 0x8A) \<or>
         e = CHR 0xA8 \<or> e = CHR 0xA9 \<or> e = CHR 0xAF)) \<or>
     (c = CHR 0xE2 \<and> d = CHR 0x81 \<and> e = CHR 0x9F) \<or>
     (c = CHR 0xE3 \<and> d = CHR 0x80 \<and> e = CHR 0x80)"

fun blank :: "bytes \<Rightarrow> bool" where
  "blank [] = True"
| "blank [c] = space1 c"
| "blank [c, d] = ((space1 c \<and> space1 d) \<or> space2 c d)"
| "blank (c # d # e # s) =
     (if space1 c then blank (d # e # s)
      else if space2 c d then blank (e # s)
      else space3 c d e \<and> blank s)"

fun load_entries ::
  "(bytes \<Rightarrow> bytes) \<Rightarrow> migration list \<Rightarrow> dir_entry list \<Rightarrow> load_error + migration list" where
  "load_entries sha256 files [] = (if files = [] then Inl NoMigrations else Inr files)"
| "load_entries sha256 files (entry # entries) =
     (if entry_is_dir entry \<or> \<not> has_suffix (entry_name entry) ''.sql''
      then load_entries sha256 files entries
      else case migrationName (entry_name entry) of
        None \<Rightarrow> Inl (InvalidFilename (entry_name entry))
      | Some digits \<Rightarrow>
         (let version = decimal_value 0 digits in
          if version \<noteq> length files + 1
          then Inl (VersionsNotContiguous (length files + 1) (entry_name entry))
          else case entry_contents entry of
            None \<Rightarrow> Inl (MigrationUnreadable (entry_name entry))
          | Some text \<Rightarrow>
             (if blank text then Inl (MigrationEmpty (entry_name entry))
              else load_entries sha256
                (files @ [\<lparr>m_version = version, m_name = entry_name entry, m_sql = text,
                           m_digest = hex_encode (sha256 text)\<rparr>]) entries)))"

definition load ::
  "(bytes \<Rightarrow> bytes) \<Rightarrow> dir_entry list option \<Rightarrow> load_error + migration list" where
  "load sha256 source =
     (case source of None \<Rightarrow> Inl SourceUnreadable | Some entries \<Rightarrow> load_entries sha256 [] entries)"

section \<open>The database\<close>

text \<open>
  The history table (absent before the first run) and the rest of the database. The table's
  constraints are those of its \<^verbatim>\<open>CREATE TABLE\<close>: versions are a positive primary key and digests
  have 64 characters.
\<close>

record history_row =
  h_version :: nat
  h_name :: bytes
  h_sha256 :: bytes

record 'd mdb =
  m_history :: "history_row list option"
  m_rest :: 'd

datatype driver_error = PgError bytes | OtherDriverError

record migration_env =
  url_valid :: bool
  dial_fault :: "driver_error option"
  lock_fault :: "driver_error option"
  inspect_fault :: "driver_error option"
  version_fault :: "driver_error option"
  create_commit :: commit_outcome
  query_fault :: "driver_error option"
  scan_fault :: "nat \<Rightarrow> driver_error option"
  rows_fault :: "driver_error option"
  begin_fault :: "nat \<Rightarrow> driver_error option"
  exec_fault :: "nat \<Rightarrow> driver_error option"
  insert_fault :: "nat \<Rightarrow> driver_error option"
  apply_commit :: "nat \<Rightarrow> commit_outcome"
  commit_fault :: driver_error
  m_ctx_done :: bool

datatype stage =
    ConnectStage | LockStage | InspectStage | ReadVersionStage | InitializeStage
  | ReadHistoryStage | ReadRowStage | BeginStage | ExecuteStage | RecordStage | CommitStage

datatype cause = ContextDone | SqlState bytes | ConnectionFailure

datatype migration_error =
    InvalidURL
  | LoadFailed load_error
  | DatabaseFailed stage cause
  | IncompleteSource nat
  | ChangedSource nat
  | MigrationFailed bytes nat stage cause

definition migration_databaseError :: "migration_env \<Rightarrow> driver_error \<Rightarrow> cause" where
  "migration_databaseError env err =
     (if m_ctx_done env then ContextDone
      else case err of PgError sqlstate \<Rightarrow> SqlState sqlstate | OtherDriverError \<Rightarrow> ConnectionFailure)"

section \<open>Applying one file\<close>

type_synonym 'd execute = "bytes \<Rightarrow> 'd mdb \<Rightarrow> driver_error + 'd mdb"

definition row_of :: "migration \<Rightarrow> history_row" where
  "row_of f = \<lparr>h_version = m_version f, h_name = m_name f, h_sha256 = m_digest f\<rparr>"

text \<open>The \<^verbatim>\<open>INSERT\<close> into the history, refused by the constraints of the table.\<close>

definition insert_history :: "migration \<Rightarrow> 'd mdb \<Rightarrow> driver_error + 'd mdb" where
  "insert_history f db =
     (case m_history db of
        None \<Rightarrow> Inl (PgError ''42P01'')
      | Some rows \<Rightarrow>
         (if m_version f = 0 \<or> length (m_digest f) \<noteq> 64 then Inl (PgError ''23514'')
          else if m_version f \<in> set (map h_version rows) then Inl (PgError ''23505'')
          else Inr (db\<lparr>m_history := Some (rows @ [row_of f])\<rparr>)))"

text \<open>
  \<open>apply\<close>: the deferred rollback discards the transaction on every path but a commit. A commit
  whose acknowledgement is lost has taken effect.
\<close>

definition apply_body ::
  "'d execute \<Rightarrow> migration_env \<Rightarrow> migration \<Rightarrow> 'd mdb \<Rightarrow> (stage \<times> cause) + 'd mdb" where
  "apply_body execute env f db =
     (case exec_fault env (m_version f) of
        Some err \<Rightarrow> Inl (ExecuteStage, migration_databaseError env err)
      | None \<Rightarrow> (case execute (m_sql f) db of
          Inl err \<Rightarrow> Inl (ExecuteStage, migration_databaseError env err)
        | Inr db1 \<Rightarrow> (case insert_fault env (m_version f) of
            Some err \<Rightarrow> Inl (RecordStage, migration_databaseError env err)
          | None \<Rightarrow> (case insert_history f db1 of
              Inl err \<Rightarrow> Inl (RecordStage, migration_databaseError env err)
            | Inr db2 \<Rightarrow> Inr db2))))"

definition apply_migration ::
  "'d execute \<Rightarrow> migration_env \<Rightarrow> migration \<Rightarrow> 'd mdb \<Rightarrow> (stage \<times> cause) option \<times> 'd mdb" where
  "apply_migration execute env f db =
     (case begin_fault env (m_version f) of
        Some err \<Rightarrow> (Some (BeginStage, migration_databaseError env err), db)
      | None \<Rightarrow> (case apply_body execute env f db of
          Inl e \<Rightarrow> (Some e, db)
        | Inr db' \<Rightarrow> (case apply_commit env (m_version f) of
            Committed \<Rightarrow> (None, db')
          | CommitAckLost \<Rightarrow>
              (Some (CommitStage, migration_databaseError env (commit_fault env)), db')
          | CommitRefused \<Rightarrow>
              (Some (CommitStage, migration_databaseError env (commit_fault env)), db))))"

section \<open>A run\<close>

record run_result =
  rr_version :: nat
  rr_applied :: nat

fun check_history ::
  "migration_env \<Rightarrow> migration list \<Rightarrow> nat \<Rightarrow> history_row list \<Rightarrow> migration_error option \<times> nat" where
  "check_history env files v [] =
     ((case rows_fault env of
         Some err \<Rightarrow> Some (DatabaseFailed ReadHistoryStage (migration_databaseError env err))
       | None \<Rightarrow> None), v)"
| "check_history env files v (row # rows) =
     (case scan_fault env v of
        Some err \<Rightarrow> (Some (DatabaseFailed ReadRowStage (migration_databaseError env err)), v)
      | None \<Rightarrow>
         (if h_version row \<noteq> v + 1 \<or> h_version row > length files
          then (Some (IncompleteSource (h_version row)), v)
          else let f = files ! (h_version row - 1) in
            if h_name row \<noteq> m_name f \<or> h_sha256 row \<noteq> m_digest f
            then (Some (ChangedSource (h_version row)), v)
            else check_history env files (h_version row) rows))"

fun apply_files ::
  "'d execute \<Rightarrow> migration_env \<Rightarrow> migration list \<Rightarrow> run_result \<Rightarrow> 'd mdb \<Rightarrow>
   run_result \<times> migration_error option \<times> 'd mdb" where
  "apply_files execute env [] res db = (res, None, db)"
| "apply_files execute env (f # files) res db =
     (if m_version f \<le> rr_version res then apply_files execute env files res db
      else case apply_migration execute env f db of
        (Some (stg, cs), db') \<Rightarrow>
          (res, Some (MigrationFailed (m_name f) (rr_version res) stg cs), db')
      | (None, db') \<Rightarrow>
          apply_files execute env files
            (res\<lparr>rr_version := m_version f, rr_applied := Suc (rr_applied res)\<rparr>) db')"

definition create_history :: "'d mdb \<Rightarrow> 'd mdb" where
  "create_history db = (case m_history db of None \<Rightarrow> db\<lparr>m_history := Some []\<rparr> | Some _ \<Rightarrow> db)"

definition history_of :: "'d mdb \<Rightarrow> history_row list" where
  "history_of db = (case m_history db of None \<Rightarrow> [] | Some rows \<Rightarrow> rows)"

definition max_version :: "history_row list \<Rightarrow> nat" where
  "max_version rows = foldr (\<lambda>row n. max (h_version row) n) rows 0"

definition run_status ::
  "migration_env \<Rightarrow> 'd mdb \<Rightarrow> run_result \<times> migration_error option" where
  "run_status env db =
     (let result = \<lparr>rr_version = 0, rr_applied = 0\<rparr> in
      case inspect_fault env of
        Some err \<Rightarrow> (result, Some (DatabaseFailed InspectStage (migration_databaseError env err)))
      | None \<Rightarrow> (case m_history db of
          None \<Rightarrow> (result, None)
        | Some rows \<Rightarrow> (case version_fault env of
            Some err \<Rightarrow>
              (result, Some (DatabaseFailed ReadVersionStage (migration_databaseError env err)))
          | None \<Rightarrow> (result\<lparr>rr_version := max_version rows\<rparr>, None))))"

definition run_migrate ::
  "'d execute \<Rightarrow> migration_env \<Rightarrow> migration list \<Rightarrow> 'd mdb \<Rightarrow>
   run_result \<times> migration_error option \<times> 'd mdb" where
  "run_migrate execute env files db =
     (let result = \<lparr>rr_version = 0, rr_applied = 0\<rparr>;
          initialize = Some (DatabaseFailed InitializeStage (migration_databaseError env (commit_fault env)));
          db1 = create_history db in
      case create_commit env of
        CommitRefused \<Rightarrow> (result, initialize, db)
      | CommitAckLost \<Rightarrow> (result, initialize, db1)
      | Committed \<Rightarrow>
         (case query_fault env of
            Some err \<Rightarrow>
              (result, Some (DatabaseFailed ReadHistoryStage (migration_databaseError env err)), db1)
          | None \<Rightarrow>
             (case check_history env files 0 (sort_key h_version (history_of db1)) of
                (Some e, v) \<Rightarrow> (result\<lparr>rr_version := v\<rparr>, Some e, db1)
              | (None, v) \<Rightarrow> apply_files execute env files (result\<lparr>rr_version := v\<rparr>) db1)))"

definition Run ::
  "'d execute \<Rightarrow> (bytes \<Rightarrow> bytes) \<Rightarrow> migration_env \<Rightarrow> dir_entry list option \<Rightarrow> bool \<Rightarrow> 'd mdb \<Rightarrow>
   run_result \<times> migration_error option \<times> 'd mdb" where
  "Run execute sha256 env source status db =
     (let result = \<lparr>rr_version = 0, rr_applied = 0\<rparr> in
      if \<not> url_valid env then (result, Some InvalidURL, db)
      else case load sha256 source of
        Inl e \<Rightarrow> (result, Some (LoadFailed e), db)
      | Inr files \<Rightarrow> (case dial_fault env of
          Some err \<Rightarrow> (result, Some (DatabaseFailed ConnectStage (migration_databaseError env err)), db)
        | None \<Rightarrow> (case lock_fault env of
            Some err \<Rightarrow> (result, Some (DatabaseFailed LockStage (migration_databaseError env err)), db)
          | None \<Rightarrow>
             (if status then (case run_status env db of (res, e) \<Rightarrow> (res, e, db))
              else run_migrate execute env files db))))"

section \<open>The startup gate\<close>

datatype pg_type = ByteaOID | Int4OID | BoolOID | TextOID | TimestamptzOID | OtherOID

text \<open>
  What preparing the two \<^verbatim>\<open>LIMIT 0\<close> queries reports: the column types, or that the query fails
  (a missing table or column).
\<close>

record ready_env =
  ready_connects :: bool
  ready_version_fault :: bool
  workers_columns :: "pg_type list option"
  workers_close_fault :: bool
  executions_columns :: "pg_type list option"
  executions_close_fault :: bool

datatype ready_error = DatabaseUnavailable | SchemaNotReady

definition CheckReady :: "ready_env \<Rightarrow> 'd mdb \<Rightarrow> ready_error option" where
  "CheckReady env db =
     (if \<not> ready_connects env then Some DatabaseUnavailable
      else case m_history db of
        None \<Rightarrow> Some SchemaNotReady
      | Some rows \<Rightarrow>
         (if ready_version_fault env \<or> max_version rows < 5 then Some SchemaNotReady
          else case workers_columns env of
            None \<Rightarrow> Some SchemaNotReady
          | Some fs \<Rightarrow>
             (if \<not> (length fs = 7 \<and> fs ! 0 = ByteaOID \<and> fs ! 6 = Int4OID) \<or> workers_close_fault env
              then Some SchemaNotReady
              else case executions_columns env of
                None \<Rightarrow> Some SchemaNotReady
              | Some gs \<Rightarrow>
                 (if \<not> (length gs = 13 \<and> gs ! 0 = ByteaOID \<and> gs ! 1 = ByteaOID \<and> gs ! 9 = BoolOID \<and>
                        gs ! 10 = TextOID \<and> gs ! 11 = TimestamptzOID \<and> gs ! 12 = BoolOID) \<or>
                     executions_close_fault env
                  then Some SchemaNotReady else None))))"

section \<open>Specification\<close>

text \<open>
  The reference: execute the given files one after the other, recording each. The hypothesis on
  the SQL is that a file does not touch the history table itself, which holds for the reviewed
  files under \<^verbatim>\<open>sql/\<close>.
\<close>

fun replay :: "'d execute \<Rightarrow> migration list \<Rightarrow> 'd mdb \<Rightarrow> 'd mdb option" where
  "replay execute [] db = Some db"
| "replay execute (f # fs) db =
     (case execute (m_sql f) db of
        Inl _ \<Rightarrow> None
      | Inr db1 \<Rightarrow> (case insert_history f db1 of Inl _ \<Rightarrow> None | Inr db2 \<Rightarrow> replay execute fs db2))"

definition keeps_history :: "'d execute \<Rightarrow> bool" where
  "keeps_history execute \<longleftrightarrow>
     (\<forall>s db db'. execute s db = Inr db' \<longrightarrow> m_history db' = m_history db)"

fun numbered :: "nat \<Rightarrow> migration list \<Rightarrow> bool" where
  "numbered n [] = True"
| "numbered n (f # fs) = (m_version f = Suc n \<and> numbered (Suc n) fs)"

definition digested :: "(bytes \<Rightarrow> bytes) \<Rightarrow> migration list \<Rightarrow> bool" where
  "digested sha256 fs \<longleftrightarrow> (\<forall>f \<in> set fs. m_digest f = hex_encode (sha256 (m_sql f)))"

text \<open>The databases that any sequence of runs, with any sources and any faults, can lead to.\<close>

inductive migrated ::
  "'d execute \<Rightarrow> (bytes \<Rightarrow> bytes) \<Rightarrow> 'd mdb \<Rightarrow> 'd mdb \<Rightarrow> bool"
  for execute sha256 db0 where
  start: "migrated execute sha256 db0 db0"
| run: "migrated execute sha256 db0 db \<Longrightarrow>
    Run execute sha256 env source status db = (res, e, db') \<Longrightarrow>
    migrated execute sha256 db0 db'"

inductive_cases migratedE: "migrated execute sha256 db0 db"

section \<open>Lemmas\<close>

lemma numbered_append [simp]:
  "numbered n (fs @ gs) \<longleftrightarrow> numbered n fs \<and> numbered (n + length fs) gs"
  by (induction fs arbitrary: n) auto

lemma digested_simps [simp]:
  "digested h []" "digested h (f # fs) \<longleftrightarrow> m_digest f = hex_encode (h (m_sql f)) \<and> digested h fs"
  "digested h (fs @ gs) \<longleftrightarrow> digested h fs \<and> digested h gs"
  by (auto simp: digested_def)

lemma numbered_nth: "numbered n fs \<Longrightarrow> i < length fs \<Longrightarrow> m_version (fs ! i) = Suc (n + i)"
  by (induction fs arbitrary: n i) (auto simp: nth_Cons split: nat.splits)

lemma load_entries_numbered:
  "load_entries h files entries = Inr gs \<Longrightarrow> numbered 0 files \<Longrightarrow> digested h files \<Longrightarrow>
   numbered 0 gs \<and> digested h gs \<and> gs \<noteq> []"
proof (induction h files entries rule: load_entries.induct)
  case (2 h files entry entries)
  then show ?case by (auto simp: Let_def split: if_splits option.splits)
qed (auto split: if_splits)

lemma load_numbered:
  "load h source = Inr gs \<Longrightarrow> numbered 0 gs \<and> digested h gs \<and> gs \<noteq> []"
  by (auto simp: load_def split: option.splits dest: load_entries_numbered)

lemma replay_append [simp]:
  "replay execute (fs @ gs) db = (case replay execute fs db of None \<Rightarrow> None | Some d \<Rightarrow> replay execute gs d)"
  by (induction fs arbitrary: db) (auto split: sum.splits)

lemma insert_history_Inr:
  "insert_history f db = Inr db' \<Longrightarrow> m_history db = Some rows \<Longrightarrow> m_history db' = Some (rows @ [row_of f])"
  by (auto simp: insert_history_def split: if_splits)

lemma replay_history:
  assumes "keeps_history execute"
  shows "replay execute fs db = Some db' \<Longrightarrow> m_history db = Some rows \<Longrightarrow>
    m_history db' = Some (rows @ map row_of fs)"
proof (induction fs arbitrary: db rows)
  case (Cons f fs)
  obtain d1 d2 where e: "execute (m_sql f) db = Inr d1" "insert_history f d1 = Inr d2"
    "replay execute fs d2 = Some db'"
    using Cons.prems(1) by (auto split: sum.splits)
  have "m_history d1 = Some rows" using e(1) assms Cons.prems(2) by (simp add: keeps_history_def)
  then have "m_history d2 = Some (rows @ [row_of f])" using e(2) insert_history_Inr by blast
  then show ?case using Cons.IH [OF e(3)] by simp
qed simp

lemma apply_migration_replays:
  "apply_migration execute env f db = (None, db') \<Longrightarrow> replay execute [f] db = Some db'"
  by (auto simp: apply_migration_def apply_body_def
      split: option.splits sum.splits commit_outcome.splits)

lemma apply_migration_fails:
  "apply_migration execute env f db = (Some e, db') \<Longrightarrow>
   db' = db \<or> replay execute [f] db = Some db'"
  by (auto simp: apply_migration_def apply_body_def
      split: option.splits sum.splits commit_outcome.splits)

text \<open>
  The loop over the files: what it executes is a prefix of the files beyond the current version,
  all of them when it reports no error. A failed run is at most one file ahead of the version it
  reports, the file whose commit was not acknowledged.
\<close>

lemma apply_files_replays:
  assumes "numbered n files" and "n \<le> rr_version res"
    and "apply_files execute env files res db = (res', e, db')"
  shows "\<exists>gs rest. filter (\<lambda>f. rr_version res < m_version f) files = gs @ rest \<and>
    replay execute gs db = Some db' \<and>
    (e = None \<longrightarrow> rest = []) \<and>
    rr_applied res' + (if rr_version res' = rr_version res + length gs then 0 else 1) =
      rr_applied res + length gs \<and>
    (rr_version res' = rr_version res + length gs \<or>
     e \<noteq> None \<and> Suc (rr_version res') = rr_version res + length gs)"
  using assms
proof (induction files arbitrary: n res db)
  case (Cons f files)
  show ?case
  proof (cases "m_version f \<le> rr_version res")
    case True
    then show ?thesis using Cons.IH [of "Suc n" res db] Cons.prems by auto
  next
    case False
    then have v: "m_version f = Suc (rr_version res)" using Cons.prems by simp
    have keep: "filter (\<lambda>g. Suc (rr_version res) < m_version g) files = files"
      "filter (\<lambda>g. rr_version res < m_version g) files = files"
      using Cons.prems(1,2) v by (auto simp: filter_id_conv in_set_conv_nth numbered_nth)
    obtain o1 d where ap: "apply_migration execute env f db = (o1, d)" by (cases "apply_migration execute env f db")
    show ?thesis
    proof (cases o1)
      case None
      let ?res = "res\<lparr>rr_version := m_version f, rr_applied := Suc (rr_applied res)\<rparr>"
      have r: "replay execute [f] db = Some d" using ap None apply_migration_replays by blast
      have "apply_files execute env files ?res d = (res', e, db')"
        using Cons.prems(3) False ap None by simp
      from Cons.IH [OF _ _ this, of "Suc n"] obtain gs rest where g:
        "files = gs @ rest" "replay execute gs d = Some db'" "e = None \<longrightarrow> rest = []"
        "rr_applied res' + (if rr_version res' = Suc (rr_version res) + length gs then 0 else 1) =
          Suc (rr_applied res) + length gs"
        "rr_version res' = Suc (rr_version res) + length gs \<or>
         e \<noteq> None \<and> Suc (rr_version res') = Suc (rr_version res) + length gs"
        using Cons.prems(1,2) v keep by auto
      have "replay execute (f # gs) db = Some db'" using r g(2) by (auto split: sum.splits)
      then show ?thesis using g v keep
        by (intro exI [of _ "f # gs"] exI [of _ rest]) auto
    next
      case (Some p)
      then have eq: "res' = res" "e \<noteq> None" "db' = d" using Cons.prems(3) False ap by (cases p; auto)+
      from ap Some have "d = db \<or> replay execute [f] db = Some d" using apply_migration_fails by blast
      then show ?thesis
      proof
        assume "d = db"
        then show ?thesis using eq v by (intro exI [of _ "[]"] exI [of _ "filter (\<lambda>g. rr_version res < m_version g) (f # files)"]) auto
      next
        assume "replay execute [f] db = Some d"
        then show ?thesis using eq v keep by (intro exI [of _ "[f]"] exI [of _ files]) auto
      qed
    qed
  qed
qed auto

lemma check_history_accepts:
  assumes "check_history env files v rows = (None, v')" and "numbered 0 files" and "v \<le> length files"
  shows "v' = v + length rows \<and> v' \<le> length files \<and> rows = map row_of (take (length rows) (drop v files))"
  using assms
proof (induction rows arbitrary: v)
  case (Cons row rows)
  have c: "h_version row = Suc v" "Suc v \<le> length files" "h_name row = m_name (files ! v)"
    "h_sha256 row = m_digest (files ! v)" "check_history env files (Suc v) rows = (None, v')"
    using Cons.prems(1) by (auto simp: Let_def split: option.splits if_splits)
  have "row = row_of (files ! v)"
    using c numbered_nth [OF Cons.prems(2), of v] by (simp add: row_of_def)
  moreover have "drop v files = files ! v # drop (Suc v) files"
    using c(2) by (simp add: Cons_nth_drop_Suc)
  ultimately show ?case using Cons.IH [OF c(5) Cons.prems(2) c(2)] by simp
qed (auto split: option.splits)

lemma numbered_filter: "numbered n fs \<Longrightarrow> filter (\<lambda>f. n + k < m_version f) fs = drop k fs"
proof (induction fs arbitrary: n k)
  case (Cons f fs)
  show ?case
  proof (cases k)
    case 0
    have "\<forall>g \<in> set fs. n < m_version g"
      using Cons.prems by (auto simp: in_set_conv_nth numbered_nth)
    then show ?thesis using 0 Cons.prems by simp
  next
    case (Suc j)
    then show ?thesis using Cons.IH [of "Suc n" j] Cons.prems by simp
  qed
qed simp

lemma numbered_sorted:
  "numbered n fs \<Longrightarrow> sort_key h_version (map row_of fs) = map row_of fs"
proof -
  assume a: "numbered n fs"
  have "sorted (map h_version (map row_of fs))"
    unfolding sorted_iff_nth_mono
    by (auto simp: row_of_def numbered_nth [OF a])
  then show ?thesis by (rule sort_key_id_if_sorted)
qed

lemma numbered_take_drop:
  assumes "numbered 0 fs" and "numbered 0 gs" and "length fs \<le> length gs"
  shows "numbered 0 (fs @ drop (length fs) gs)"
proof -
  have "numbered 0 (take (length fs) gs @ drop (length fs) gs)" using assms by simp
  then have "numbered (length fs) (drop (length fs) gs)"
    unfolding numbered_append using assms by (simp add: min_def split: if_splits)
  then show ?thesis using assms by simp
qed

section \<open>Every database is accounted for by its history\<close>

text \<open>
  \<open>fs\<close> accounts for \<open>db\<close>: executing \<open>fs\<close> from the start, and nothing else, leads to it.
\<close>

definition accounts ::
  "'d execute \<Rightarrow> (bytes \<Rightarrow> bytes) \<Rightarrow> 'd mdb \<Rightarrow> migration list \<Rightarrow> 'd mdb \<Rightarrow> bool" where
  "accounts execute sha256 db0 fs db \<longleftrightarrow>
     numbered 0 fs \<and> digested sha256 fs \<and> replay execute fs (create_history db0) = Some db"

lemma accounts_history:
  assumes "keeps_history execute" and "m_history db0 = None" and "accounts execute h db0 fs db"
  shows "m_history db = Some (map row_of fs)" and "history_of db = map row_of fs"
    and "create_history db = db"
proof -
  have "m_history (create_history db0) = Some []" using assms(2) by (simp add: create_history_def)
  then show "m_history db = Some (map row_of fs)"
    using replay_history [OF assms(1)] assms(3) by (fastforce simp: accounts_def)
  then show "history_of db = map row_of fs" "create_history db = db"
    by (simp_all add: history_of_def create_history_def)
qed

lemma accounts_extend:
  assumes "accounts execute h db0 fs db" and "numbered 0 files" and "digested h files"
    and "length fs \<le> length files" and "drop (length fs) files = gs @ rest"
    and "replay execute gs db = Some db'"
  shows "accounts execute h db0 (fs @ gs) db'"
proof -
  have "numbered 0 (fs @ gs @ rest)"
    using numbered_take_drop [of fs files] assms by (simp add: accounts_def)
  moreover have "digested h (gs @ rest)"
    using assms(3,5) by (auto simp: digested_def dest: in_set_dropD) (metis in_set_dropD set_append UnI1 UnI2)+
  ultimately show ?thesis using assms(1,6) by (simp add: accounts_def)
qed

text \<open>The source continues the accounted files: the same rows, then the files still to execute.\<close>

definition completes :: "migration list \<Rightarrow> migration list \<Rightarrow> migration list \<Rightarrow> bool" where
  "completes fs gs files \<longleftrightarrow>
     map row_of (fs @ gs) = map row_of files \<and> gs = drop (length fs) files"

lemma apply_files_accounts:
  assumes a: "accounts execute h db0 fs db" and l: "numbered 0 files" "digested h files"
    and ch: "check_history env files 0 (map row_of fs) = (None, v)"
    and ap: "apply_files execute env files \<lparr>rr_version = v, rr_applied = 0\<rparr> db = (res, e, db')"
  shows "\<exists>gs. accounts execute h db0 (fs @ gs) db' \<and>
       (e = None \<longrightarrow> completes fs gs files \<and>
          res = \<lparr>rr_version = length files, rr_applied = length gs\<rparr>)"
proof -
  have c: "v = length fs" "v \<le> length files" "map row_of fs = map row_of (take (length fs) files)"
    using check_history_accepts [OF ch l(1)] by auto
  have flt: "filter (\<lambda>f. v < m_version f) files = drop (length fs) files"
    using numbered_filter [OF l(1), of "length fs"] c(1) by simp
  from apply_files_replays [OF l(1) _ ap] obtain gs rest where g:
    "drop (length fs) files = gs @ rest" "replay execute gs db = Some db'" "e = None \<longrightarrow> rest = []"
    "rr_applied res + (if rr_version res = v + length gs then 0 else 1) = length gs"
    "rr_version res = v + length gs \<or> e \<noteq> None \<and> Suc (rr_version res) = v + length gs"
    using flt by auto
  have "accounts execute h db0 (fs @ gs) db'"
    using accounts_extend [OF a l _ g(1,2)] c by simp
  moreover have "completes fs gs files \<and> res = \<lparr>rr_version = length files, rr_applied = length gs\<rparr>"
    if e: "e = None"
  proof -
    have gs: "gs = drop (length fs) files" using g e by simp
    have "map row_of (fs @ gs) = map row_of files"
      using c(3) gs by (metis append_take_drop_id map_append)
    then show ?thesis using g(4,5) e c gs by (cases res) (auto simp: completes_def)
  qed
  ultimately show ?thesis by blast
qed

text \<open>
  A run over an accounted database: nothing happens, or only the history table is created, or
  files are applied after the whole history was found to be a prefix of the source.
\<close>

lemma run_migrate_cases:
  assumes "sort_key h_version (history_of (create_history db)) = rows"
    and "run_migrate execute env files db = (res, e, db')"
  obtains (same) "db' = db" "e \<noteq> None"
  | (created) "db' = create_history db" "e \<noteq> None"
  | (applied) v where "check_history env files 0 rows = (None, v)"
      "apply_files execute env files \<lparr>rr_version = v, rr_applied = 0\<rparr> (create_history db) = (res, e, db')"
  using assms
  by (auto simp: run_migrate_def Let_def split: commit_outcome.splits option.splits prod.splits)

lemma run_migrate_accounts:
  assumes k: "keeps_history execute" and n: "m_history db0 = None"
    and a: "accounts execute h db0 fs (create_history db)"
    and l: "numbered 0 files" "digested h files"
    and r: "run_migrate execute env files db = (res, e, db')"
  shows "db' = db \<and> e \<noteq> None \<or>
    (\<exists>gs. accounts execute h db0 (fs @ gs) db' \<and>
       (e = None \<longrightarrow> completes fs gs files \<and>
          res = \<lparr>rr_version = length files, rr_applied = length gs\<rparr>))"
proof -
  have hist: "sort_key h_version (history_of (create_history db)) = map row_of fs"
    using accounts_history [OF k n a] numbered_sorted [of 0 fs] a by (simp add: accounts_def)
  show ?thesis
    using hist r
  proof (cases rule: run_migrate_cases)
    case created
    then show ?thesis using a by (intro disjI2 exI [of _ "[]"]) auto
  next
    case (applied v)
    then show ?thesis using apply_files_accounts [OF a l] by blast
  qed simp
qed

text \<open>A run is one of: no effect, or a migration of the loaded source.\<close>

lemma Run_cases:
  assumes "Run execute sha256 env source status db = (res, e, db')"
  obtains (quiet) "db' = db" "status \<or> e \<noteq> None"
  | (migrate) files where "\<not> status" "load sha256 source = Inr files"
      "run_migrate execute env files db = (res, e, db')"
  using assms by (auto simp: Run_def Let_def split: if_splits sum.splits option.splits prod.splits)

lemma migrated_accounted:
  assumes k: "keeps_history execute" and n: "m_history db0 = None"
  shows "migrated execute sha256 db0 db \<Longrightarrow> db = db0 \<or> (\<exists>fs. accounts execute sha256 db0 fs db)"
proof (induction rule: migrated.induct)
  case (run db env source status res e db')
  have "\<exists>fs. accounts execute sha256 db0 fs (create_history db)"
    using run.IH accounts_history(3) [OF k n]
    by (metis accounts_def digested_simps(1) numbered.simps(1) replay.simps(1))
  then obtain fs where fs: "accounts execute sha256 db0 fs (create_history db)" by blast
  from run.hyps(2) show ?case
  proof (cases rule: Run_cases)
    case quiet
    then show ?thesis using run.IH by simp
  next
    case (migrate files)
    then show ?thesis
      using run_migrate_accounts [OF k n fs _ _ migrate(3)] load_numbered [OF migrate(2)] run.IH
      by blast
  qed
qed simp

lemma migrated_created:
  assumes "keeps_history execute" and "m_history db0 = None" and "migrated execute sha256 db0 db"
  shows "\<exists>fs. accounts execute sha256 db0 fs (create_history db)"
  using migrated_accounted [OF assms] accounts_history(3) [OF assms(1,2)]
  by (metis accounts_def digested_simps(1) numbered.simps(1) replay.simps(1))

lemma completed_run_stable:
  assumes k: "keeps_history execute" and n: "m_history db0 = None"
    and a: "accounts execute h db0 fs db" and l: "load h source = Inr files"
    and c: "map row_of fs = map row_of files"
    and r: "Run execute h env source status db = (res, e, db')"
  shows "db' = db"
  using r
proof (cases rule: Run_cases)
  case (migrate gs)
  then have gs: "gs = files" using l by simp
  have len: "length fs = length files" using c by (rule map_eq_imp_length_eq)
  have db: "create_history db = db" "accounts execute h db0 fs (create_history db)"
    using accounts_history(3) [OF k n a] a by simp_all
  have hist: "sort_key h_version (history_of (create_history db)) = map row_of fs"
    using accounts_history [OF k n db(2)] numbered_sorted [of 0 fs] a by (simp add: accounts_def)
  from hist migrate(3) show ?thesis
  proof (cases rule: run_migrate_cases)
    case (applied v)
    then have "v = length files"
      using check_history_accepts [of env files 0 "map row_of fs" v] load_numbered [OF l] len gs by simp
    then show ?thesis
      using apply_files_replays [OF conjunct1 [OF load_numbered [OF l]] _ applied(2) [unfolded gs]]
        numbered_filter [of 0 files "length files"] load_numbered [OF l] db by simp
  qed (use db in simp_all)
qed simp

lemma max_version_numbered: "numbered n fs \<Longrightarrow> fs \<noteq> [] \<Longrightarrow> max_version (map row_of fs) = n + length fs"
proof (induction fs arbitrary: n)
  case (Cons f fs)
  then show ?case by (cases fs) (auto simp: max_version_def row_of_def)
qed simp

text \<open>
  The startup gate of the queue passes on a migrated database only when at least five files have
  been executed in full.
\<close>

lemma ready_means_migrated:
  assumes "keeps_history execute" and "m_history db0 = None" and "migrated execute sha256 db0 db"
    and "CheckReady env db = None"
  shows "\<exists>fs. accounts execute sha256 db0 fs db \<and> 5 \<le> length fs"
proof -
  obtain rows where rows: "m_history db = Some rows" "5 \<le> max_version rows"
    using assms(4) by (auto simp: CheckReady_def split: if_splits option.splits)
  then obtain fs where fs: "accounts execute sha256 db0 fs db"
    using migrated_accounted [OF assms(1-3)] assms(2) by auto
  have "max_version (map row_of fs) = length fs" if "fs \<noteq> []"
    using max_version_numbered [of 0 fs] fs that by (simp add: accounts_def)
  then have "5 \<le> length fs"
    using rows accounts_history(1) [OF assms(1,2) fs] by (cases fs) (auto simp: max_version_def)
  then show ?thesis using fs by blast
qed

lemma status_reports_version:
  assumes "keeps_history execute" and "m_history db0 = None" and "accounts execute sha256 db0 fs db"
    and "Run execute sha256 env source True db = (res, None, db')"
  shows "db' = db \<and> rr_version res = length fs \<and> rr_applied res = 0"
proof -
  have "max_version (map row_of fs) = length fs"
    using max_version_numbered [of 0 fs] assms(3) by (cases fs) (auto simp: accounts_def max_version_def)
  then show ?thesis
    using assms(4) accounts_history(1) [OF assms(1-3)]
    by (auto simp: Run_def run_status_def Let_def split: if_splits sum.splits option.splits)
qed

section \<open>A concrete instance\<close>

text \<open>
  Two source files, a database that logs the SQL it executes, and an environment without faults;
  used to apply the properties below.
\<close>

definition log_execute :: "bytes list execute" where
  "log_execute text db = Inr (db\<lparr>m_rest := m_rest db @ [text]\<rparr>)"

definition flat_sha256 :: "bytes \<Rightarrow> bytes" where
  "flat_sha256 text = replicate 31 (CHR ''a'') @ [hd text]"

definition two_files :: "dir_entry list option" where
  "two_files = Some
     [\<lparr>entry_name = ''0001_a.sql'', entry_is_dir = False, entry_contents = Some ''x''\<rparr>,
      \<lparr>entry_name = ''0002_b.sql'', entry_is_dir = False, entry_contents = Some ''y''\<rparr>]"

definition edited_file :: "dir_entry list option" where
  "edited_file = Some
     [\<lparr>entry_name = ''0001_a.sql'', entry_is_dir = False, entry_contents = Some ''z''\<rparr>]"

definition no_faults :: migration_env where
  "no_faults = \<lparr>url_valid = True, dial_fault = None, lock_fault = None, inspect_fault = None,
     version_fault = None, create_commit = Committed, query_fault = None, scan_fault = (\<lambda>_. None),
     rows_fault = None, begin_fault = (\<lambda>_. None), exec_fault = (\<lambda>_. None),
     insert_fault = (\<lambda>_. None), apply_commit = (\<lambda>_. Committed),
     commit_fault = OtherDriverError, m_ctx_done = False\<rparr>"

definition empty_db :: "bytes list mdb" where
  "empty_db = \<lparr>m_history = None, m_rest = []\<rparr>"

definition loaded_files :: "migration list" where
  "loaded_files =
     [\<lparr>m_version = 1, m_name = ''0001_a.sql'', m_sql = ''x'', m_digest = hex_encode (flat_sha256 ''x'')\<rparr>,
      \<lparr>m_version = 2, m_name = ''0002_b.sql'', m_sql = ''y'', m_digest = hex_encode (flat_sha256 ''y'')\<rparr>]"

definition migrated_db :: "bytes list mdb" where
  "migrated_db = \<lparr>m_history = Some (map row_of loaded_files), m_rest = [''x'', ''y'']\<rparr>"

lemma log_keeps_history: "keeps_history log_execute"
  by (auto simp: keeps_history_def log_execute_def)

lemma length_flat [simp]: "length (flat_sha256 text) = 32"
  by (simp add: flat_sha256_def)

lemma migrationName_demo [simp]:
  "migrationName ''0001_a.sql'' = Some ''0001''" "migrationName ''0002_b.sql'' = Some ''0002''"
  "has_suffix ''0001_a.sql'' ''.sql''" "has_suffix ''0002_b.sql'' ''.sql''"
  "decimal_value 0 ''0001'' = 1" "decimal_value 0 ''0002'' = 2"
  "\<not> space1 (CHR ''x'')" "\<not> space1 (CHR ''y'')" "\<not> space1 (CHR ''z'')"
  by code_simp+

definition edited_files :: "migration list" where
  "edited_files = [\<lparr>m_version = 1, m_name = ''0001_a.sql'', m_sql = ''z'',
     m_digest = hex_encode (flat_sha256 ''z'')\<rparr>]"

lemma load_demo [simp]:
  "load flat_sha256 two_files = Inr loaded_files" "load flat_sha256 edited_file = Inr edited_files"
  by (simp_all add: load_def two_files_def edited_file_def loaded_files_def edited_files_def Let_def)

lemma digests_differ: "hex_encode (flat_sha256 ''x'') \<noteq> hex_encode (flat_sha256 ''z'')"
proof
  assume "hex_encode (flat_sha256 ''x'') = hex_encode (flat_sha256 ''z'')"
  then have "flat_sha256 ''x'' = flat_sha256 ''z''" by (metis hex_decode_encode option.inject)
  then show False by (simp add: flat_sha256_def)
qed

lemmas run_simps = Run_def run_migrate_def create_history_def history_of_def apply_migration_def
  apply_body_def log_execute_def insert_history_def row_of_def no_faults_def

lemma run_two_files:
  "Run log_execute flat_sha256 no_faults two_files False empty_db =
     (\<lparr>rr_version = 2, rr_applied = 2\<rparr>, None, migrated_db)"
  by (simp add: run_simps empty_db_def migrated_db_def loaded_files_def)

lemma run_edited_file:
  "Run log_execute flat_sha256 no_faults edited_file False migrated_db =
     (\<lparr>rr_version = 0, rr_applied = 0\<rparr>, Some (ChangedSource 1), migrated_db)"
  using digests_differ
  by (simp add: run_simps migrated_db_def loaded_files_def edited_files_def)

lemma migrated_two_files: "migrated log_execute flat_sha256 empty_db migrated_db"
  by (rule migrated.run [OF migrated.start run_two_files])

section \<open>Properties\<close>

text \<open>
  C14. After any sequence of runs of the migrator, with any sources, any database faults and any
  lost commit acknowledgements, the database is untouched or is exactly what executing some
  files numbered 1, 2, ... once each and in order from the initial database leads to, and the
  history table lists exactly those files with their names and digests.
\<close>

theorem history_accounts_for_database:
  assumes "keeps_history execute" and "m_history db0 = None"
    and "migrated execute sha256 db0 db"
  shows "db = db0 \<or>
    (\<exists>fs. numbered 0 fs \<and> digested sha256 fs \<and> replay execute fs (create_history db0) = Some db \<and>
       m_history db = Some (map row_of fs))"
  using migrated_accounted [OF assms] accounts_history(1) [OF assms(1,2)]
  by (auto simp: accounts_def)

theorem history_accounts_for_database_witness:
  "\<exists>fs. replay log_execute fs (create_history empty_db) = Some migrated_db \<and>
     m_history migrated_db = Some (map row_of fs)"
  using history_accounts_for_database [OF log_keeps_history _ migrated_two_files]
  by (auto simp: migrated_db_def empty_db_def)

text \<open>
  A run that reports success leaves a database on which exactly the rows of the loaded source
  have been executed, once each and in order; it reports the number of files as the version and
  the files that were missing as the number applied; and every later run over the same source,
  whatever fails in it, leaves the database as it is.
\<close>

lemma successful_run_completes_source:
  assumes "keeps_history execute" and "m_history db0 = None"
    and "migrated execute sha256 db0 db"
    and "Run execute sha256 env source False db = (res, None, db')"
  shows "(\<exists>files fs. load sha256 source = Inr files \<and> map row_of fs = map row_of files \<and>
      replay execute fs (create_history db0) = Some db' \<and> m_history db' = Some (map row_of files) \<and>
      rr_version res = length files \<and> rr_applied res = length files - length (history_of db)) \<and>
    (\<forall>env' status res' e' db''. Run execute sha256 env' source status db' = (res', e', db'') \<longrightarrow> db'' = db')"
proof (intro conjI allI impI)
  note k = assms(1) and n = assms(2)
  obtain fs where fs: "accounts execute sha256 db0 fs (create_history db)"
    using migrated_created [OF assms(1-3)] by blast
  from assms(4) obtain files where f: "load sha256 source = Inr files"
    "run_migrate execute env files db = (res, None, db')"
    by (cases rule: Run_cases) auto
  note ln = load_numbered [OF f(1)]
  obtain gs where g: "accounts execute sha256 db0 (fs @ gs) db'" "completes fs gs files"
    "res = \<lparr>rr_version = length files, rr_applied = length gs\<rparr>"
    using run_migrate_accounts [OF k n fs _ _ f(2)] ln by auto
  have rows: "map row_of (fs @ gs) = map row_of files" using g(2) unfolding completes_def by blast
  have "history_of (create_history db) = history_of db"
    by (simp add: history_of_def create_history_def split: option.splits)
  then have len: "length (history_of db) = length fs"
    using accounts_history(2) [OF k n fs] by (metis length_map)
  have r: "replay execute (fs @ gs) (create_history db0) = Some db'"
    using g(1) unfolding accounts_def by blast
  have h: "m_history db' = Some (map row_of files)"
    using accounts_history(1) [OF k n g(1)] rows by simp
  have "rr_applied res = length files - length (history_of db)"
    using g(2,3) len by (simp add: completes_def)
  then show "\<exists>files fs. load sha256 source = Inr files \<and> map row_of fs = map row_of files \<and>
      replay execute fs (create_history db0) = Some db' \<and> m_history db' = Some (map row_of files) \<and>
      rr_version res = length files \<and> rr_applied res = length files - length (history_of db)"
    using f(1) rows r h g(3) by (metis run_result.select_convs(1))
  fix env' status res' e' db''
  assume "Run execute sha256 env' source status db' = (res', e', db'')"
  then show "db'' = db'" by (rule completed_run_stable [OF k n g(1) f(1) rows])
qed

lemma successful_run_completes_source_witness:
  "\<exists>fs. replay log_execute fs (create_history empty_db) = Some migrated_db \<and>
     map row_of fs = map row_of loaded_files"
  using successful_run_completes_source [OF log_keeps_history _ migrated.start run_two_files]
    load_demo(1)
  by (auto simp: empty_db_def)

text \<open>
  C25. A run over a source that does not continue the recorded history (a recorded file is
  missing from the source, or its name or digest has changed) reports an error and leaves the
  database exactly as it was.
\<close>

theorem changed_source_refused:
  assumes "keeps_history execute" and "m_history db0 = None"
    and "migrated execute sha256 db0 db" and "m_history db = Some rows"
    and "load sha256 source = Inr files"
    and "i < length rows" and "length files \<le> i \<or> rows ! i \<noteq> row_of (files ! i)"
    and "Run execute sha256 env source False db = (res, e, db')"
  shows "e \<noteq> None \<and> db' = db"
proof -
  note k = assms(1) and n = assms(2)
  obtain fs where fs: "accounts execute sha256 db0 fs (create_history db)"
    using migrated_created [OF assms(1-3)] by blast
  have c: "create_history db = db" using assms(4) by (simp add: create_history_def)
  have rows: "map row_of fs = rows"
    using accounts_history(1) [OF k n fs] assms(4) c by simp
  have hist: "sort_key h_version (history_of (create_history db)) = rows"
    using accounts_history(2) [OF k n fs] numbered_sorted [of 0 fs] fs rows by (simp add: accounts_def)
  from assms(8) show ?thesis
  proof (cases rule: Run_cases)
    case (migrate gs)
    from hist migrate(3) show ?thesis
    proof (cases rule: run_migrate_cases)
      case (applied v)
      have "length rows \<le> length files" "rows = map row_of (take (length rows) files)"
        using check_history_accepts [OF applied(1)] load_numbered [OF assms(5)] migrate(2) assms(5)
        by auto
      then have "length rows \<le> length files" "rows ! i = row_of (files ! i)"
        using assms(6) by (auto, metis assms(6) length_map nth_map nth_take)
      then show ?thesis using assms(6,7) by simp
    qed (use c in simp_all)
  qed simp
qed

theorem changed_source_refused_witness:
  "\<exists>res e. e \<noteq> None \<and>
     Run log_execute flat_sha256 no_faults edited_file False migrated_db = (res, e, migrated_db)"
proof -
  have differ: "map row_of loaded_files ! 0 \<noteq> row_of (edited_files ! 0)"
    using digests_differ by (simp add: loaded_files_def edited_files_def row_of_def)
  obtain res e db' where r:
    "Run log_execute flat_sha256 no_faults edited_file False migrated_db = (res, e, db')"
    by (metis prod_cases3)
  have "e \<noteq> None \<and> db' = migrated_db"
    using changed_source_refused [OF log_keeps_history _ migrated_two_files _ load_demo(2) _ disjI2 [OF differ] r]
    by (simp add: empty_db_def migrated_db_def loaded_files_def)
  then show ?thesis using r by blast
qed

end
