(* ===== verification/BundleLock.thy ===== *)
theory BundleLock
  imports WorkerNode
begin

text \<open>
  The documents of a Profile Bundle (\<^verbatim>\<open>internal/profilebundle\<close>): the build lock and the manifest
  of types.go, their validation (build.go) and the strict decoding of the manifest
  (install_linux.go). The struct codec of \<^verbatim>\<open>encoding/json\<close> is an argument where whole documents
  occur (\<open>decode\<close> is a decoder with \<^verbatim>\<open>DisallowUnknownFields\<close> followed by the check that nothing is
  left, \<open>encode\<close> is \<^verbatim>\<open>json.Marshal\<close>), and so is \<^verbatim>\<open>url.Parse\<close>.
\<close>

section \<open>Types\<close>

text \<open>
  Slices that a document fills are optional lists: \<open>None\<close> is the nil slice, which \<^verbatim>\<open>encoding/json\<close>
  writes as \<^verbatim>\<open>null\<close>. The code reads both nil and empty slices as having no elements.
\<close>

definition slice :: "'a list option \<Rightarrow> 'a list" where
  "slice xs = (case xs of None \<Rightarrow> [] | Some ys \<Rightarrow> ys)"

lemma slice_Some [simp]: "slice (Some xs) = xs"
  by (simp add: slice_def)

record bundle_target =
  bt_OS :: bytes
  bt_Arch :: bytes

record lockedPackage =
  pk_Name :: bytes
  pk_Version :: bytes
  pk_Digest :: bytes

record pythonRuntime =
  py_Version :: bytes
  py_Entrypoint :: bytes
  py_Packages :: "lockedPackage list option"

record lockedInput =
  in_ID :: bytes
  in_Kind :: bytes
  in_Version :: bytes
  in_Source :: bytes
  in_Filename :: bytes
  in_Size :: int
  in_Digest :: bytes
  in_ArchivePrefix :: bytes
  in_Destination :: bytes
  in_Include :: "bytes list option"
  in_Exclude :: "bytes list option"

record buildLock =
  bl_Schema :: bytes
  bl_Profile :: bytes
  bl_Target :: bundle_target
  bl_Python :: pythonRuntime
  bl_Inputs :: "lockedInput list option"

record bundle_component =
  co_Role :: bytes
  co_Path :: bytes
  co_Format :: bytes
  co_Mode :: bytes
  co_Size :: int
  co_Digest :: bytes

record bundle_manifest =
  mf_Schema :: bytes
  mf_Profile :: bytes
  mf_Target :: bundle_target
  mf_Python :: pythonRuntime
  mf_Components :: "bundle_component list option"

definition contract :: "bytes \<Rightarrow> bytes \<Rightarrow> bytes \<Rightarrow> bytes \<Rightarrow> bundle_component" where
  "contract role p form mode =
     \<lparr>co_Role = role, co_Path = p, co_Format = form, co_Mode = mode, co_Size = 0, co_Digest = []\<rparr>"

definition bundleV1Components :: "bundle_component list" where
  "bundleV1Components =
     [contract ''build-lock'' ''profile.lock.json'' ''profile-build-lock/v1'' ''0444'',
      contract ''system-call-policy'' ''system-call-policy.json'' ''system-call-policy/v1'' ''0444'',
      contract ''sandbox-init'' ''sandbox-init'' ''opaque/v1'' ''0555'',
      contract ''rootfs'' ''rootfs.tar'' ''rootfs-pax-tar/v1'' ''0444'']"

section \<open>Limits\<close>

definition buildLockSchema :: bytes where "buildLockSchema = ''profile-build-lock/v1''"
definition manifestSchema :: bytes where "manifestSchema = ''profile-bundle-manifest/v1''"
definition bundle_profileID :: bytes where "bundle_profileID = ''python-data-v1''"
definition maximumInputSize :: int where "maximumInputSize = 256 * MiB"
definition maximumInitSize :: int where "maximumInitSize = 64 * MiB"
definition maximumPolicySize :: int where "maximumPolicySize = MiB"
definition maximumRootFSSize :: int where "maximumRootFSSize = GiB"
definition maximumRootFSFile :: int where "maximumRootFSFile = 256 * MiB"
definition maximumRootFSItems :: int where "maximumRootFSItems = 100000"
definition maximumBundleSize :: int where "maximumBundleSize = 2 * GiB"

lemmas bundle_limits = maximumInputSize_def maximumInitSize_def maximumPolicySize_def
  maximumRootFSSize_def maximumRootFSFile_def maximumRootFSItems_def maximumBundleSize_def

section \<open>Digests, modes and exact versions\<close>

text \<open>
  \<open>parseDigest\<close>: lowercase hexadecimal. A value that decodes is ASCII, so comparing it with its
  lowercase form asks that it has no uppercase letter.
\<close>

definition parseDigest :: "bytes \<Rightarrow> bytes option" where
  "parseDigest value =
     (if \<not> has_prefix value ''sha256:'' then None
      else let hexDigest = trim_prefix value ''sha256:'' in
        if hex_decoded hexDigest \<noteq> Some 32 \<or> list_ex is_upper hexDigest then None
        else Some hexDigest)"

definition parseExpectedSHA256 :: "bytes \<Rightarrow> bytes option" where
  "parseExpectedSHA256 value =
     (if length value \<noteq> 64 \<or> list_ex is_upper value then None
      else if hex_decoded value \<noteq> Some 32 then None
      else Some value)"

definition parseMode :: "bytes \<Rightarrow> int" where
  "parseMode mode = (if mode = ''0555'' then 0x16D else 0x124)"

definition lower_char :: "char \<Rightarrow> char" where
  "lower_char c = (if is_upper c then char_of (byte c + 32) else c)"

text \<open>\<^verbatim>\<open>strings.Contains\<close>.\<close>

fun contains :: "bytes \<Rightarrow> bytes \<Rightarrow> bool" where
  "contains [] p = (p = [])"
| "contains (c # s) p = (has_prefix (c # s) p \<or> contains s p)"

text \<open>
  A version that is not exact: it names \<^verbatim>\<open>latest\<close> in any case or has a range character. No
  character outside ASCII has one of the letters of \<^verbatim>\<open>latest\<close> as its lowercase form.
\<close>

definition floating :: "bytes \<Rightarrow> bool" where
  "floating version \<longleftrightarrow> contains (map lower_char version) ''latest'' \<or> contains_any version ''*<>, ''"

text \<open>\<^verbatim>\<open>filepath.Base\<close>.\<close>

definition filepath_base :: "bytes \<Rightarrow> bytes" where
  "filepath_base p =
     (if p = [] then ''.''
      else let q = rev (dropWhile (\<lambda>c. c = slash) (rev p)) in
        if q = [] then ''/'' else rev (takeWhile (\<lambda>c. c \<noteq> slash) (rev q)))"

section \<open>The build lock\<close>

datatype lock_error =
    LockSchema | LockProfile | LockTarget | LockPython | LockEntrypoint
  | PackageUnpinned | PackageOrder | PackageFloating bytes | PackageDigest bytes
  | NoInputs | InputOrder
  | InputRequired bytes | InputKind bytes | InputFloating bytes | InputSource bytes
  | InputFilename bytes | InputSize bytes | InputDigest bytes | InputPrefix bytes
  | InputDestination bytes | PathUnsafe bytes | PathOrder
  | LockDecode

fun validatePathList :: "bytes option \<Rightarrow> bytes list \<Rightarrow> lock_error option" where
  "validatePathList prev [] = None"
| "validatePathList prev (value # values) =
     (if \<not> validateRelativePath value then Some (PathUnsafe value)
      else if (case prev of None \<Rightarrow> False | Some p \<Rightarrow> value \<le> p) then Some PathOrder
      else validatePathList (Some value) values)"

type_synonym url_parser = "bytes \<Rightarrow> (bytes \<times> bytes) option"

definition validateLockedInput :: "url_parser \<Rightarrow> lockedInput \<Rightarrow> lock_error option" where
  "validateLockedInput url_parse input =
     (let ident = in_ID input in
      if ident = [] \<or> in_Version input = [] \<or> in_Filename input = [] then Some (InputRequired ident)
      else if in_Kind input \<noteq> ''python-install-only'' \<and> in_Kind input \<noteq> ''rootfs-overlay''
      then Some (InputKind ident)
      else if floating (in_Version input) then Some (InputFloating ident)
      else if (case url_parse (in_Source input) of
                 None \<Rightarrow> True | Some (scheme, host) \<Rightarrow> scheme \<noteq> ''https'' \<or> host = [])
      then Some (InputSource ident)
      else if filepath_base (in_Filename input) \<noteq> in_Filename input then Some (InputFilename ident)
      else if in_Size input \<le> 0 \<or> in_Size input > maximumInputSize then Some (InputSize ident)
      else if parseDigest (in_Digest input) = None then Some (InputDigest ident)
      else if in_ArchivePrefix input \<noteq> [] \<and> \<not> safeArchivePrefix (in_ArchivePrefix input)
      then Some (InputPrefix ident)
      else if in_Destination input \<noteq> [] \<and> \<not> safeArchivePrefix (in_Destination input)
      then Some (InputDestination ident)
      else case validatePathList None (slice (in_Include input)) of
        Some e \<Rightarrow> Some e
      | None \<Rightarrow> validatePathList None (slice (in_Exclude input)))"

fun validate_packages :: "bytes option \<Rightarrow> lockedPackage list \<Rightarrow> lock_error option" where
  "validate_packages prev [] = None"
| "validate_packages prev (p # ps) =
     (if pk_Name p = [] \<or> pk_Version p = [] then Some PackageUnpinned
      else if (case prev of None \<Rightarrow> False | Some n \<Rightarrow> pk_Name p \<le> n) then Some PackageOrder
      else if floating (pk_Version p) then Some (PackageFloating (pk_Name p))
      else if parseDigest (pk_Digest p) = None then Some (PackageDigest (pk_Name p))
      else validate_packages (Some (pk_Name p)) ps)"

fun validate_inputs :: "url_parser \<Rightarrow> bytes option \<Rightarrow> lockedInput list \<Rightarrow> lock_error option" where
  "validate_inputs url_parse prev [] = None"
| "validate_inputs url_parse prev (input # inputs) =
     (if (case prev of None \<Rightarrow> False | Some i \<Rightarrow> in_ID input \<le> i) then Some InputOrder
      else case validateLockedInput url_parse input of
        Some e \<Rightarrow> Some e
      | None \<Rightarrow> validate_inputs url_parse (Some (in_ID input)) inputs)"

definition validateBuildLock :: "url_parser \<Rightarrow> buildLock \<Rightarrow> lock_error option" where
  "validateBuildLock url_parse lock =
     (if bl_Schema lock \<noteq> buildLockSchema then Some LockSchema
      else if bl_Profile lock \<noteq> bundle_profileID then Some LockProfile
      else if bt_OS (bl_Target lock) \<noteq> ''linux'' \<or> bt_Arch (bl_Target lock) \<noteq> ''amd64''
      then Some LockTarget
      else if py_Version (bl_Python lock) = [] \<or> py_Entrypoint (bl_Python lock) = []
      then Some LockPython
      else if \<not> is_abs (py_Entrypoint (bl_Python lock)) \<or>
              \<not> validateRelativePath (trim_prefix (py_Entrypoint (bl_Python lock)) ''/'')
      then Some LockEntrypoint
      else case validate_packages None (slice (py_Packages (bl_Python lock))) of
        Some e \<Rightarrow> Some e
      | None \<Rightarrow>
         (if slice (bl_Inputs lock) = [] then Some NoInputs
          else validate_inputs url_parse None (slice (bl_Inputs lock))))"

text \<open>\<open>canonicalJSON\<close> appends a newline to the text of the value.\<close>

definition canonicalJSON :: "('a \<Rightarrow> bytes) \<Rightarrow> 'a \<Rightarrow> bytes" where
  "canonicalJSON encode v = encode v @ [CHR 0x0A]"

record 'a document_codec =
  dc_decode :: "bytes \<Rightarrow> 'a option"
  dc_encode :: "'a \<Rightarrow> bytes"

definition decodeBuildLock ::
  "url_parser \<Rightarrow> buildLock document_codec \<Rightarrow> bytes \<Rightarrow> lock_error + buildLock \<times> bytes" where
  "decodeBuildLock url_parse codec lockBytes =
     (case dc_decode codec lockBytes of
        None \<Rightarrow> Inl LockDecode
      | Some lock \<Rightarrow>
         (case validateBuildLock url_parse lock of
            Some e \<Rightarrow> Inl e
          | None \<Rightarrow> Inr (lock, canonicalJSON (dc_encode codec) lock)))"

section \<open>The manifest\<close>

datatype manifest_error =
    ManifestDecode | ManifestUnsupported | ManifestComponents | ManifestComponent nat
  | ManifestDigest bytes | ManifestNotCanonical

fun check_components ::
  "nat \<Rightarrow> bundle_component list \<Rightarrow> bundle_component list \<Rightarrow> manifest_error option" where
  "check_components i (want # wants) (got # gots) =
     (if co_Role got \<noteq> co_Role want \<or> co_Path got \<noteq> co_Path want \<or> co_Format got \<noteq> co_Format want \<or>
         co_Mode got \<noteq> co_Mode want \<or> co_Size got \<le> 0 then Some (ManifestComponent i)
      else if parseDigest (co_Digest got) = None then Some (ManifestDigest (co_Role got))
      else check_components (Suc i) wants gots)"
| "check_components i _ _ = None"

definition decodeManifest ::
  "bundle_manifest document_codec \<Rightarrow> bytes \<Rightarrow> manifest_error + bundle_manifest" where
  "decodeManifest codec contents =
     (case dc_decode codec contents of
        None \<Rightarrow> Inl ManifestDecode
      | Some decoded \<Rightarrow>
         (if mf_Schema decoded \<noteq> manifestSchema \<or> mf_Profile decoded \<noteq> bundle_profileID \<or>
             bt_OS (mf_Target decoded) \<noteq> ''linux'' \<or> bt_Arch (mf_Target decoded) \<noteq> ''amd64''
          then Inl ManifestUnsupported
          else if length (slice (mf_Components decoded)) \<noteq> length bundleV1Components
          then Inl ManifestComponents
          else case check_components 0 bundleV1Components (slice (mf_Components decoded)) of
            Some e \<Rightarrow> Inl e
          | None \<Rightarrow>
             (if contents \<noteq> canonicalJSON (dc_encode codec) decoded then Inl ManifestNotCanonical
              else Inr decoded)))"

definition packages_equal :: "lockedPackage list \<Rightarrow> lockedPackage list \<Rightarrow> bool" where
  "packages_equal left right \<longleftrightarrow> list_all2 (\<lambda>l r. l = r) left right"

definition pythonRuntimeEqual :: "pythonRuntime \<Rightarrow> pythonRuntime \<Rightarrow> bool" where
  "pythonRuntimeEqual left right =
     (if py_Version left \<noteq> py_Version right \<or> py_Entrypoint left \<noteq> py_Entrypoint right \<or>
         length (slice (py_Packages left)) \<noteq> length (slice (py_Packages right)) then False
      else packages_equal (slice (py_Packages left)) (slice (py_Packages right)))"

section \<open>What validation establishes\<close>

lemma parseDigest_profileDigest: "parseDigest v = profileDigest v"
proof (cases "has_prefix v ''sha256:''")
  case True
  have "(hex_decoded s \<noteq> Some 32 \<or> list_ex is_upper s) =
      (length s \<noteq> 64 \<or> (\<exists>c \<in> set s. \<not> is_digit c \<and> \<not> is_hex_letter c))" for s
    using hex_digest_iff [of s] by blast
  then show ?thesis using True by (simp add: parseDigest_def profileDigest_def Let_def)
qed (simp add: parseDigest_def profileDigest_def)

lemma hex_encode_lower: "c \<in> set (hex_encode s) \<Longrightarrow> is_digit c \<or> is_hex_letter c"
proof -
  have "list_all (\<lambda>n. is_digit (hex_digit n) \<or> is_hex_letter (hex_digit n)) [0..<16]" by code_simp
  then have "n < 16 \<Longrightarrow> is_digit (hex_digit n) \<or> is_hex_letter (hex_digit n)" for n
    by (simp add: list_all_iff)
  then have "is_digit (hex_digit (byte d div 16)) \<or> is_hex_letter (hex_digit (byte d div 16))"
    "is_digit (hex_digit (byte d mod 16)) \<or> is_hex_letter (hex_digit (byte d mod 16))" for d
    using byte_nibbles [of d] by simp_all
  then show "c \<in> set (hex_encode s) \<Longrightarrow> is_digit c \<or> is_hex_letter c" by (auto simp: hex_encode_def)
qed

lemma hex_encode_digest:
  assumes "length d = 32"
  shows "hex_decoded (hex_encode d) = Some 32" and "\<not> list_ex is_upper (hex_encode d)"
  using hex_digest_iff [of "hex_encode d"] hex_encode_lower [of _ d] assms by auto

lemma parseDigest_encode: "length d = 32 \<Longrightarrow> parseDigest (''sha256:'' @ hex_encode d) = Some (hex_encode d)"
proof -
  assume d: "length d = 32"
  have "trim_prefix (''sha256:'' @ hex_encode d) ''sha256:'' = hex_encode d"
    "has_prefix (''sha256:'' @ hex_encode d) ''sha256:''"
    by (rule trim_prefix_append, rule has_prefix_append)
  then show ?thesis using hex_encode_digest [OF d] unfolding parseDigest_def Let_def by simp
qed

lemma parseExpectedSHA256_encode: "length d = 32 \<Longrightarrow> parseExpectedSHA256 (hex_encode d) = Some (hex_encode d)"
  using hex_encode_digest [of d] by (simp add: parseExpectedSHA256_def)

lemma pythonRuntimeEqual_iff:
  "pythonRuntimeEqual l r \<longleftrightarrow> py_Version l = py_Version r \<and> py_Entrypoint l = py_Entrypoint r \<and>
     slice (py_Packages l) = slice (py_Packages r)"
  by (auto simp: pythonRuntimeEqual_def packages_equal_def list.rel_eq)

lemma validatePathList_sorted:
  "validatePathList prev vs = None \<Longrightarrow>
     sorted_wrt (<) vs \<and> (\<forall>v \<in> set vs. validateRelativePath v \<and> (\<forall>p. prev = Some p \<longrightarrow> p < v))"
proof (induction prev vs rule: validatePathList.induct)
  case (2 prev v vs)
  then show ?case by (auto split: if_splits option.splits)
qed simp

lemma validate_inputs_valid:
  "validate_inputs up prev inps = None \<Longrightarrow>
     sorted_wrt (<) (map in_ID inps) \<and>
     (\<forall>i \<in> set inps. validateLockedInput up i = None \<and> (\<forall>p. prev = Some p \<longrightarrow> p < in_ID i))"
proof (induction up prev inps rule: validate_inputs.induct)
  case (2 up prev i inputs)
  then show ?case by (auto split: if_splits option.splits)
qed simp

lemma validate_packages_valid:
  "validate_packages prev ps = None \<Longrightarrow>
     sorted_wrt (<) (map pk_Name ps) \<and>
     (\<forall>p \<in> set ps. \<not> floating (pk_Version p) \<and> profileDigest (pk_Digest p) \<noteq> None \<and>
        (\<forall>n. prev = Some n \<longrightarrow> n < pk_Name p))"
proof (induction prev ps rule: validate_packages.induct)
  case (2 prev p ps)
  then show ?case by (auto simp: parseDigest_profileDigest split: if_splits option.splits)
qed simp

text \<open>
  A decoded manifest is well formed: one component per role of the contract, in its order, with
  positive sizes and digests.
\<close>

definition manifest_ok :: "bundle_manifest \<Rightarrow> bool" where
  "manifest_ok m \<longleftrightarrow> mf_Schema m = manifestSchema \<and> mf_Profile m = bundle_profileID \<and>
     mf_Target m = \<lparr>bt_OS = ''linux'', bt_Arch = ''amd64''\<rparr> \<and>
     list_all2 (\<lambda>want got. co_Role got = co_Role want \<and> co_Path got = co_Path want \<and>
       co_Format got = co_Format want \<and> co_Mode got = co_Mode want \<and> 0 < co_Size got \<and>
       parseDigest (co_Digest got) \<noteq> None) bundleV1Components (slice (mf_Components m))"

lemma check_components_None:
  "length wants = length gots \<Longrightarrow> check_components i wants gots = None \<longleftrightarrow>
     list_all2 (\<lambda>want got. co_Role got = co_Role want \<and> co_Path got = co_Path want \<and>
       co_Format got = co_Format want \<and> co_Mode got = co_Mode want \<and> 0 < co_Size got \<and>
       parseDigest (co_Digest got) \<noteq> None) wants gots"
  by (induction i wants gots rule: check_components.induct) (auto simp: not_le)

lemma decodeManifest_iff:
  "decodeManifest codec contents = Inr m \<longleftrightarrow>
     dc_decode codec contents = Some m \<and> manifest_ok m \<and> contents = canonicalJSON (dc_encode codec) m"
proof (cases "dc_decode codec contents")
  case (Some d)
  have t: "mf_Target d = \<lparr>bt_OS = ''linux'', bt_Arch = ''amd64''\<rparr> \<longleftrightarrow>
      bt_OS (mf_Target d) = ''linux'' \<and> bt_Arch (mf_Target d) = ''amd64''"
    by (cases "mf_Target d") simp
  show ?thesis
  proof (cases "length (slice (mf_Components d)) = length bundleV1Components")
    case True
    note c = check_components_None [OF True [symmetric], of 0]
    define cs where "cs = check_components 0 bundleV1Components (slice (mf_Components d))"
    have ok: "manifest_ok d \<longleftrightarrow> mf_Schema d = manifestSchema \<and> mf_Profile d = bundle_profileID \<and>
        bt_OS (mf_Target d) = ''linux'' \<and> bt_Arch (mf_Target d) = ''amd64'' \<and> cs = None"
      unfolding manifest_ok_def t cs_def c by blast
    have eq: "decodeManifest codec contents =
        (if mf_Schema d \<noteq> manifestSchema \<or> mf_Profile d \<noteq> bundle_profileID \<or>
            bt_OS (mf_Target d) \<noteq> ''linux'' \<or> bt_Arch (mf_Target d) \<noteq> ''amd64'' then Inl ManifestUnsupported
         else case cs of Some e \<Rightarrow> Inl e | None \<Rightarrow>
           (if contents \<noteq> canonicalJSON (dc_encode codec) d then Inl ManifestNotCanonical else Inr d))"
      unfolding decodeManifest_def cs_def by (simp only: Some option.case True simp_thms if_False)
    show ?thesis using ok unfolding eq Some by (cases cs) auto
  next
    case False
    have "\<not> manifest_ok d"
    proof
      assume "manifest_ok d"
      then have "length bundleV1Components = length (slice (mf_Components d))"
        unfolding manifest_ok_def by (blast dest: list_all2_lengthD)
      with False show False by simp
    qed
    moreover have "decodeManifest codec contents \<noteq> Inr m"
      unfolding decodeManifest_def Some option.case using False by (simp split: if_splits)
    ultimately show ?thesis using Some by auto
  qed
qed (simp add: decodeManifest_def)

end
