(* ===== verification/BundleBuild.thy ===== *)
theory BundleBuild
  imports BundleLock "HOL-Library.Multiset"
begin

text \<open>
  Building the root filesystem of a Profile Bundle (\<^verbatim>\<open>profilebundle/build.go\<close>): reading a locked
  source, mapping the paths of its archive, collecting the entries within the budget, ordering
  them, and checking that no entry lies below another and that the entrypoint resolves.

  An archive is the sequence of what \<^verbatim>\<open>tar.Reader.Next\<close> yields: headers with the bytes that can be
  read behind them, or an error. The spool files of the build are private to it, so an entry
  carries its contents.
\<close>

unbundle bit_operations_syntax

section \<open>Archives\<close>

datatype tar_type = TypeReg | TypeRegA | TypeSymlink | TypeDir | TypeOther nat

datatype tar_format = FormatUSTAR | FormatPAX | FormatOther

record tar_header =
  th_Name :: bytes
  th_Linkname :: bytes
  th_Size :: int
  th_Mode :: int
  th_Uid :: int
  th_Gid :: int
  th_Uname :: bytes
  th_Gname :: bytes
  th_Devmajor :: int
  th_Devminor :: int
  th_ModTime :: int
  th_AccessTimeZero :: bool
  th_ChangeTimeZero :: bool
  th_PAXRecords :: "(bytes \<times> bytes) list"
  th_Typeflag :: tar_type
  th_Format :: tar_format

datatype tar_item = TarEntry tar_header bytes | TarError

definition canonicalTarHeader :: "bytes \<Rightarrow> tar_type \<Rightarrow> int \<Rightarrow> int \<Rightarrow> bytes \<Rightarrow> tar_header" where
  "canonicalTarHeader name typeFlag mode sz linkName =
     \<lparr>th_Name = name, th_Linkname = linkName, th_Size = sz, th_Mode = mode, th_Uid = 0, th_Gid = 0,
      th_Uname = [], th_Gname = [], th_Devmajor = 0, th_Devminor = 0, th_ModTime = 0,
      th_AccessTimeZero = True, th_ChangeTimeZero = True, th_PAXRecords = [],
      th_Typeflag = typeFlag, th_Format = FormatPAX\<rparr>"

section \<open>State of the build\<close>

record rootfsBuildEntry =
  be_name :: bytes
  be_typeFlag :: tar_type
  be_mode :: int
  be_size :: int
  be_linkName :: bytes
  be_spool :: bytes

record rootfsBuildBudget =
  scannedItems :: int
  scannedBytes :: int
  outputItems :: int
  outputBytes :: int

definition zero_budget :: rootfsBuildBudget where
  "zero_budget = \<lparr>scannedItems = 0, scannedBytes = 0, outputItems = 0, outputBytes = 0\<rparr>"

datatype build_error =
    OptionsMissing
  | LockUnreadable | LockInvalid lock_error
  | PolicyUnreadable | PolicyInvalid
  | InitUnreadable | InitEmpty
  | SourceOpen bytes | SourceStat bytes | SourceNotExact bytes | SourceRead bytes
  | SourceChanged bytes | SourceDigest bytes | SourceNotGzip bytes | SourceTar bytes
  | ScanItems | ScanBytes | EntryUnsafe bytes | MappedUnsafe bytes
  | FileBudget bytes | SpoolFailed bytes | LinkUnsafe bytes | EntryType bytes | OutputItems
  | EntrypointNotProvided | DuplicateEntry bytes
  | ParentOccupied bytes bytes | TooManyItems
  | EntrypointMissing | EntrypointNotExecutable | EntrypointUnsafeChain | EntrypointType | EntrypointCycle
  | BuildIO nat
  | OutputExists | OutputInspect | PublishFailed

section \<open>Mapping the paths of a source\<close>

fun pathSelected :: "bytes \<Rightarrow> bytes list \<Rightarrow> bool" where
  "pathSelected relative [] = False"
| "pathSelected relative (candidate # included) =
     (if relative = candidate \<or> has_prefix relative (candidate @ ''/'') then True
      else pathSelected relative included)"

definition excluded :: "bytes \<Rightarrow> bytes list \<Rightarrow> bool" where
  "excluded relative ps \<longleftrightarrow>
     list_ex (\<lambda>e. relative = e \<or> has_prefix relative (trim_suffix e ''/'' @ ''/'')) ps"

definition mapSourcePath :: "bytes \<Rightarrow> lockedInput \<Rightarrow> build_error + bytes option" where
  "mapSourcePath sourceName input =
     (let normalizedSource = trim_suffix (trim_prefix sourceName ''./'') ''/'' in
      if normalizedSource = [] then Inr None
      else if \<not> validateRelativePath normalizedSource then Inl (EntryUnsafe sourceName)
      else if in_ArchivePrefix input \<noteq> [] \<and> \<not> has_prefix normalizedSource (in_ArchivePrefix input)
      then Inr None
      else let relative = (if in_ArchivePrefix input \<noteq> []
                 then trim_prefix normalizedSource (in_ArchivePrefix input) else normalizedSource) in
        if relative = [] then Inr None
        else if \<not> validateRelativePath relative then Inl (EntryUnsafe sourceName)
        else if slice (in_Include input) \<noteq> [] \<and> \<not> pathSelected relative (slice (in_Include input)) then Inr None
        else if excluded relative (slice (in_Exclude input)) then Inr None
        else let mapped = (if in_Destination input \<noteq> []
                   then path_join (trim_suffix (in_Destination input) ''/'') relative else relative) in
          if \<not> validateRelativePath mapped then Inl (MappedUnsafe mapped) else Inr (Some mapped))"

section \<open>Collecting the entries of a source\<close>

text \<open>
  \<open>spool_fault\<close> tells for which mapped files creating, filling or closing the spool file fails.
\<close>

record spool_state =
  sp_seen :: bool
  sp_entries :: "rootfsBuildEntry list"
  sp_budget :: rootfsBuildBudget

definition spool_scan :: "tar_header \<Rightarrow> rootfsBuildBudget \<Rightarrow> build_error + rootfsBuildBudget" where
  "spool_scan header budget =
     (let scanned = scannedItems budget + 1 in
      if scanned > maximumRootFSItems then Inl ScanItems
      else if th_Size header < 0 \<or> scannedBytes budget > maximumRootFSSize - th_Size header
      then Inl ScanBytes
      else Inr (budget\<lparr>scannedItems := scanned, scannedBytes := scannedBytes budget + th_Size header\<rparr>))"

definition spool_entry ::
  "(bytes \<Rightarrow> bool) \<Rightarrow> bytes \<Rightarrow> tar_header \<Rightarrow> bytes \<Rightarrow> rootfsBuildBudget \<Rightarrow>
   build_error + (rootfsBuildEntry \<times> rootfsBuildBudget) option" where
  "spool_entry spool_fault mappedName header contents budget =
     (case th_Typeflag header of
        TypeDir \<Rightarrow> Inr None
      | TypeSymlink \<Rightarrow>
         (if \<not> validateSymlink mappedName (th_Linkname header) then Inl (LinkUnsafe mappedName)
          else Inr (Some (\<lparr>be_name = mappedName, be_typeFlag = TypeSymlink, be_mode = 0x16D,
            be_size = 0, be_linkName = th_Linkname header, be_spool = []\<rparr>, budget)))
      | TypeOther n \<Rightarrow> Inl (EntryType (th_Name header))
      | _ \<Rightarrow>
         (if th_Size header > maximumRootFSFile \<or> outputBytes budget > maximumRootFSSize - th_Size header
          then Inl (FileBudget mappedName)
          else if spool_fault mappedName \<or> int (length contents) < th_Size header
          then Inl (SpoolFailed mappedName)
          else Inr (Some (\<lparr>be_name = mappedName, be_typeFlag = TypeReg,
              be_mode = (if th_Mode header AND 0x49 \<noteq> 0 then 0x16D else 0x124),
              be_size = th_Size header, be_linkName = [],
              be_spool = take (nat (th_Size header)) contents\<rparr>,
            budget\<lparr>outputBytes := outputBytes budget + th_Size header\<rparr>))))"

fun spool_loop ::
  "(bytes \<Rightarrow> bool) \<Rightarrow> lockedInput \<Rightarrow> bytes \<Rightarrow> tar_item list \<Rightarrow> spool_state \<Rightarrow> build_error + spool_state" where
  "spool_loop spool_fault input entrypoint [] st = Inr st"
| "spool_loop spool_fault input entrypoint (TarError # items) st = Inl (SourceTar (in_ID input))"
| "spool_loop spool_fault input entrypoint (TarEntry header contents # items) st =
     (case spool_scan header (sp_budget st) of
        Inl e \<Rightarrow> Inl e
      | Inr budget \<Rightarrow>
         (case mapSourcePath (th_Name header) input of
            Inl e \<Rightarrow> Inl e
          | Inr None \<Rightarrow> spool_loop spool_fault input entrypoint items (st\<lparr>sp_budget := budget\<rparr>)
          | Inr (Some mappedName) \<Rightarrow>
             (case spool_entry spool_fault mappedName header contents budget of
                Inl e \<Rightarrow> Inl e
              | Inr None \<Rightarrow> spool_loop spool_fault input entrypoint items (st\<lparr>sp_budget := budget\<rparr>)
              | Inr (Some (entry, budget1)) \<Rightarrow>
                 (let budget2 = budget1\<lparr>outputItems := outputItems budget1 + 1\<rparr> in
                  if outputItems budget2 > maximumRootFSItems then Inl OutputItems
                  else spool_loop spool_fault input entrypoint items
                    \<lparr>sp_seen = (sp_seen st \<or> ''/'' @ mappedName = entrypoint),
                     sp_entries = sp_entries st @ [entry], sp_budget = budget2\<rparr>))))"

section \<open>Locked sources\<close>

text \<open>What opening and reading a file shows; \<open>gunzip\<close> is the archive behind its compression.\<close>

record source_file =
  sf_opens :: bool
  sf_stats :: bool
  sf_regular :: bool
  sf_size :: int
  sf_reads :: bool
  sf_contents :: bytes

definition limit_read :: "int \<Rightarrow> bytes \<Rightarrow> bytes" where
  "limit_read n contents = take (nat n) contents"

definition digestBytes :: "(bytes \<Rightarrow> bytes) \<Rightarrow> bytes \<Rightarrow> bytes" where
  "digestBytes sha256 contents = hex_encode (sha256 contents)"

definition readLockedSource ::
  "(bytes \<Rightarrow> bytes) \<Rightarrow> source_file \<Rightarrow> lockedInput \<Rightarrow> build_error + bytes" where
  "readLockedSource sha256 f input =
     (if \<not> sf_opens f then Inl (SourceOpen (in_ID input))
      else if \<not> sf_stats f then Inl (SourceStat (in_ID input))
      else if \<not> sf_regular f \<or> sf_size f \<noteq> in_Size input then Inl (SourceNotExact (in_ID input))
      else if \<not> sf_reads f then Inl (SourceRead (in_ID input))
      else let contents = limit_read (in_Size input + 1) (sf_contents f) in
        if int (length contents) \<noteq> in_Size input then Inl (SourceChanged (in_ID input))
        else if Some (digestBytes sha256 contents) \<noteq> parseDigest (in_Digest input)
        then Inl (SourceDigest (in_ID input))
        else Inr contents)"

record build_env =
  b_sha256 :: "bytes \<Rightarrow> bytes"
  b_gunzip :: "bytes \<Rightarrow> tar_item list option"
  b_source :: "bytes \<Rightarrow> source_file"
  b_spool_fault :: "bytes \<Rightarrow> bool"

definition spoolLockedInput ::
  "build_env \<Rightarrow> lockedInput \<Rightarrow> bytes \<Rightarrow> rootfsBuildEntry list \<Rightarrow> rootfsBuildBudget \<Rightarrow>
   build_error + bool \<times> rootfsBuildEntry list \<times> rootfsBuildBudget" where
  "spoolLockedInput env input entrypoint entries budget =
     (case readLockedSource (b_sha256 env) (b_source env (in_Filename input)) input of
        Inl e \<Rightarrow> Inl e
      | Inr sourceBytes \<Rightarrow>
         (case b_gunzip env sourceBytes of
            None \<Rightarrow> Inl (SourceNotGzip (in_ID input))
          | Some items \<Rightarrow>
             (case spool_loop (b_spool_fault env) input entrypoint items
                     \<lparr>sp_seen = False, sp_entries = entries, sp_budget = budget\<rparr> of
                Inl e \<Rightarrow> Inl e
              | Inr st \<Rightarrow> Inr (sp_seen st, sp_entries st, sp_budget st))))"

fun spool_inputs ::
  "build_env \<Rightarrow> bytes \<Rightarrow> lockedInput list \<Rightarrow> spool_state \<Rightarrow> build_error + spool_state" where
  "spool_inputs env entrypoint [] st = Inr st"
| "spool_inputs env entrypoint (input # inputs) st =
     (case spoolLockedInput env input entrypoint (sp_entries st) (sp_budget st) of
        Inl e \<Rightarrow> Inl e
      | Inr (provided, entries, budget) \<Rightarrow>
          spool_inputs env entrypoint inputs
            \<lparr>sp_seen = (sp_seen st \<or> provided), sp_entries = entries, sp_budget = budget\<rparr>)"

section \<open>Checks on the collected entries\<close>

fun duplicate_entry :: "rootfsBuildEntry list \<Rightarrow> build_error option" where
  "duplicate_entry (a # b # es) =
     (if be_name a = be_name b then Some (DuplicateEntry (be_name b)) else duplicate_entry (b # es))"
| "duplicate_entry _ = None"

text \<open>The walk over the ancestors of one entry, with the directories met so far.\<close>

fun closure_segments ::
  "bytes list \<Rightarrow> bytes \<Rightarrow> bytes \<Rightarrow> bytes list \<Rightarrow> bytes list \<Rightarrow> build_error + bytes list" where
  "closure_segments paths name current dirs [] = Inr dirs"
| "closure_segments paths name current dirs (segment # segments) =
     (if segment = ''.'' then closure_segments paths name current dirs segments
      else let current1 = (if current = [] then segment else path_join current segment) in
        if current1 \<in> set paths then Inl (ParentOccupied current1 name)
        else let dirs1 = List.insert current1 dirs in
          if int (length paths) + int (length dirs1) > maximumRootFSItems then Inl TooManyItems
          else closure_segments paths name current1 dirs1 segments)"

fun closure_entries :: "bytes list \<Rightarrow> bytes list \<Rightarrow> bytes list \<Rightarrow> build_error + bytes list" where
  "closure_entries paths dirs [] = Inr dirs"
| "closure_entries paths dirs (name # names) =
     (case closure_segments paths name [] dirs (split_on slash (path_dir name)) of
        Inl e \<Rightarrow> Inl e
      | Inr dirs1 \<Rightarrow> closure_entries paths dirs1 names)"

definition validateRootFSItemClosure :: "rootfsBuildEntry list \<Rightarrow> build_error option" where
  "validateRootFSItemClosure entries =
     (let paths = map be_name entries in
      case closure_entries paths [] paths of Inl e \<Rightarrow> Some e | Inr _ \<Rightarrow> None)"

fun entrypoint_hops :: "(bytes \<Rightarrow> rootfsBuildEntry option) \<Rightarrow> nat \<Rightarrow> bytes \<Rightarrow> build_error option" where
  "entrypoint_hops byName 0 current = Some EntrypointCycle"
| "entrypoint_hops byName (Suc n) current =
     (case byName current of
        None \<Rightarrow> Some EntrypointMissing
      | Some entry \<Rightarrow>
         (if be_typeFlag entry = TypeReg then
            (if be_mode entry \<noteq> 0x16D then Some EntrypointNotExecutable else None)
          else if be_typeFlag entry = TypeSymlink then
            (let next = path_clean (path_join (path_dir current) (be_linkName entry)) in
             if \<not> validateRelativePath next then Some EntrypointUnsafeChain
             else entrypoint_hops byName n next)
          else Some EntrypointType))"

definition validateRootFSEntrypoint :: "rootfsBuildEntry list \<Rightarrow> bytes \<Rightarrow> build_error option" where
  "validateRootFSEntrypoint entries entrypoint =
     (let byName = map_of (rev (map (\<lambda>e. (be_name e, e)) entries)) in
      entrypoint_hops byName 40 (trim_prefix entrypoint ''/''))"

text \<open>The entries of the archive \<open>buildRootFS\<close> writes, in the order it writes them.\<close>

definition collect_rootfs :: "build_env \<Rightarrow> buildLock \<Rightarrow> build_error + rootfsBuildEntry list" where
  "collect_rootfs env lock =
     (case spool_inputs env (py_Entrypoint (bl_Python lock)) (slice (bl_Inputs lock))
             \<lparr>sp_seen = False, sp_entries = [], sp_budget = zero_budget\<rparr> of
        Inl e \<Rightarrow> Inl e
      | Inr st \<Rightarrow>
         (if \<not> sp_seen st then Inl EntrypointNotProvided
          else let entries = sort_key be_name (sp_entries st) in
            case duplicate_entry entries of
              Some e \<Rightarrow> Inl e
            | None \<Rightarrow> (case validateRootFSItemClosure entries of
                Some e \<Rightarrow> Inl e
              | None \<Rightarrow> (case validateRootFSEntrypoint entries (py_Entrypoint (bl_Python lock)) of
                  Some e \<Rightarrow> Inl e
                | None \<Rightarrow> Inr entries))))"

definition entry_header :: "rootfsBuildEntry \<Rightarrow> tar_header" where
  "entry_header e = canonicalTarHeader (be_name e) (be_typeFlag e) (be_mode e) (be_size e) (be_linkName e)"

definition rootfs_archive :: "rootfsBuildEntry list \<Rightarrow> (tar_header \<times> bytes) list" where
  "rootfs_archive entries =
     map (\<lambda>e. (entry_header e, if be_typeFlag e = TypeReg then be_spool e else [])) entries"

definition buildRootFS ::
  "build_env \<Rightarrow> ((tar_header \<times> bytes) list \<Rightarrow> bytes) \<Rightarrow> bool \<Rightarrow> buildLock \<Rightarrow> build_error + bytes" where
  "buildRootFS env tar_write writes lock =
     (case collect_rootfs env lock of
        Inl e \<Rightarrow> Inl e
      | Inr entries \<Rightarrow> if \<not> writes then Inl (BuildIO 0) else Inr (tar_write (rootfs_archive entries)))"

section \<open>Paths by segments\<close>

abbreviation segs :: "bytes \<Rightarrow> bytes list" where "segs \<equiv> split_on slash"
abbreviation joined :: "bytes list \<Rightarrow> bytes" where "joined \<equiv> join_with slash"

definition proper_path :: "bytes list \<Rightarrow> bool" where
  "proper_path ss \<longleftrightarrow> (\<forall>s \<in> set ss. proper_segment s \<and> slash \<notin> set s)"

lemma proper_path_simps [simp]:
  "proper_path []" "proper_path (s # ss) \<longleftrightarrow> proper_segment s \<and> slash \<notin> set s \<and> proper_path ss"
  "proper_path (ss @ ts) \<longleftrightarrow> proper_path ss \<and> proper_path ts"
  by (auto simp: proper_path_def)

lemma proper_path_take [simp]: "proper_path ss \<Longrightarrow> proper_path (take k ss)"
  by (auto simp: proper_path_def dest: in_set_takeD)

lemma proper_path_butlast [simp]: "proper_path ss \<Longrightarrow> proper_path (butlast ss)"
  by (auto simp: proper_path_def dest: in_set_butlastD)

lemma segs_joined: "proper_path ss \<Longrightarrow> ss \<noteq> [] \<Longrightarrow> segs (joined ss) = ss"
  by (rule split_join) (auto simp: proper_path_def)

lemma joined_snoc: "xs \<noteq> [] \<Longrightarrow> joined (xs @ [x]) = joined xs @ slash # x"
  by (induction xs rule: induct_list012) auto

lemma relative_proper: "validateRelativePath p \<Longrightarrow> proper_path (segs p) \<and> segs p \<noteq> [] \<and> p \<noteq> []"
  using split_on_no_sep [of _ slash p] by (auto simp: validateRelativePath_iff proper_path_def)

lemma joined_nonempty: "proper_path ss \<Longrightarrow> ss \<noteq> [] \<Longrightarrow> joined ss \<noteq> []"
  by (rule join_proper_nonempty) (auto simp: proper_path_def proper_segment_def)

lemma joined_inject: "proper_path xs \<Longrightarrow> proper_path ys \<Longrightarrow> xs \<noteq> [] \<Longrightarrow> ys \<noteq> [] \<Longrightarrow>
    joined xs = joined ys \<longleftrightarrow> xs = ys"
  by (metis segs_joined)

lemma joined_not_abs: "proper_path ss \<Longrightarrow> ss \<noteq> [] \<Longrightarrow> \<not> is_abs (joined ss @ t)"
proof (cases ss)
  case (Cons w ws)
  assume p: "proper_path ss"
  then obtain c r where w: "w = c # r" "c \<noteq> slash"
    using Cons by (cases w) (auto simp: proper_segment_def)
  then show ?thesis using Cons by (cases ws) (auto simp: is_abs_iff)
qed simp

lemma path_clean_joined: "proper_path ss \<Longrightarrow> ss \<noteq> [] \<Longrightarrow> path_clean (joined ss) = joined ss"
proof -
  assume p: "proper_path ss" "ss \<noteq> []"
  have "clean_segments False [] ss = ss" using clean_segments_proper [of ss] p by (simp add: proper_path_def)
  then show ?thesis
    using joined_nonempty [OF p] joined_not_abs [OF p, of "[]"] segs_joined [OF p]
    by (simp add: path_clean_def)
qed

lemma path_join_joined:
  "proper_path ss \<Longrightarrow> ss \<noteq> [] \<Longrightarrow> proper_segment s \<Longrightarrow> slash \<notin> set s \<Longrightarrow>
   path_join (joined ss) s = joined (ss @ [s])"
  using path_clean_joined [of "ss @ [s]"] joined_snoc [of ss s] joined_nonempty [of ss]
  by (simp add: path_join_def proper_segment_def)

lemma clean_trailing: "proper_path ss \<Longrightarrow> clean_segments r out (ss @ [[]]) = rev out @ ss"
  by (induction ss arbitrary: out) (auto simp: proper_segment_def)

lemma split_on_trailing: "split_on sep (s @ [sep]) = split_on sep s @ [[]]"
  by (induction s) (auto split: list.splits)

text \<open>\<^verbatim>\<open>path.Dir\<close> of an accepted path drops its last segment.\<close>

lemma path_dir_segments:
  assumes "proper_path ss" and "ss \<noteq> []"
  shows "path_dir (joined ss) = (if butlast ss = [] then ''.'' else joined (butlast ss))"
proof -
  obtain xs x where ss: "ss = xs @ [x]" using assms(2) by (cases ss rule: rev_cases) auto
  have x: "slash \<notin> set x" and xs: "proper_path xs" using assms(1) ss by auto
  have all: "\<forall>c \<in> set (rev x). c \<noteq> slash" using x by auto
  show ?thesis
  proof (cases "xs = []")
    case True
    then have "dropWhile (\<lambda>c. c \<noteq> slash) (rev (joined ss)) = []"
      using ss all by (simp add: dropWhile_eq_Nil_conv)
    then show ?thesis using True ss by (simp add: path_dir_def path_clean_def)
  next
    case False
    have "rev (joined ss) = rev x @ slash # rev (joined xs)"
      using joined_snoc [OF False] ss by simp
    then have d: "rev (dropWhile (\<lambda>c. c \<noteq> slash) (rev (joined ss))) = joined xs @ [slash]"
      using all by (simp add: dropWhile_append3 dropWhile_append)
    have "clean_segments False [] (segs (joined xs @ [slash])) = xs"
      using clean_trailing [OF xs, of False "[]"] segs_joined [OF xs False]
      by (simp add: split_on_trailing)
    then have "path_clean (joined xs @ [slash]) = joined xs"
      using joined_not_abs [OF xs False, of "[slash]"] joined_nonempty [OF xs False]
      by (simp add: path_clean_def)
    then show ?thesis using d False ss by (simp add: path_dir_def)
  qed
qed

section \<open>What a collected root filesystem satisfies\<close>

text \<open>The directories above a path, and above any path of a list.\<close>

definition above :: "bytes list \<Rightarrow> bytes set" where
  "above ss = {joined (take k ss) | k. 0 < k \<and> k < length ss}"

definition implied_dirs :: "bytes list \<Rightarrow> bytes set" where
  "implied_dirs names = (\<Union>name \<in> set names. above (segs name))"

definition entry_ok :: "rootfsBuildEntry \<Rightarrow> bool" where
  "entry_ok e \<longleftrightarrow> validateRelativePath (be_name e) \<and>
     (be_typeFlag e = TypeReg \<and> (be_mode e = 0x124 \<or> be_mode e = 0x16D) \<and> 0 \<le> be_size e \<and>
        be_size e \<le> maximumRootFSFile \<and> int (length (be_spool e)) = be_size e \<and> be_linkName e = [] \<or>
      be_typeFlag e = TypeSymlink \<and> be_mode e = 0x16D \<and> be_size e = 0 \<and> be_spool e = [] \<and>
        validateSymlink (be_name e) (be_linkName e))"

definition rootfs_ok :: "rootfsBuildEntry list \<Rightarrow> bool" where
  "rootfs_ok es \<longleftrightarrow>
     sorted_wrt (<) (map be_name es) \<and> list_all entry_ok es \<and>
     sum_list (map be_size es) \<le> maximumRootFSSize \<and>
     implied_dirs (map be_name es) \<inter> set (map be_name es) = {} \<and>
     int (length es) + int (card (implied_dirs (map be_name es))) \<le> maximumRootFSItems"

lemma mapSourcePath_safe: "mapSourcePath name input = Inr (Some m) \<Longrightarrow> validateRelativePath m"
  by (auto simp: mapSourcePath_def Let_def split: if_splits)

definition spool_inv :: "spool_state \<Rightarrow> bool" where
  "spool_inv st \<longleftrightarrow> list_all entry_ok (sp_entries st) \<and>
     outputItems (sp_budget st) = int (length (sp_entries st)) \<and>
     outputItems (sp_budget st) \<le> maximumRootFSItems \<and>
     outputBytes (sp_budget st) = sum_list (map be_size (sp_entries st)) \<and>
     outputBytes (sp_budget st) \<le> maximumRootFSSize"

lemma spool_scan_keeps:
  "spool_scan header b = Inr b' \<Longrightarrow>
     outputItems b' = outputItems b \<and> outputBytes b' = outputBytes b \<and> 0 \<le> th_Size header"
  by (auto simp: spool_scan_def Let_def split: if_splits)

lemma spool_entry_ok:
  assumes "spool_entry flt name header contents b = Inr (Some (e, b'))" and "validateRelativePath name"
    and "0 \<le> th_Size header" and "outputBytes b \<le> maximumRootFSSize"
  shows "entry_ok e \<and> outputItems b' = outputItems b \<and> outputBytes b' = outputBytes b + be_size e \<and>
    outputBytes b' \<le> maximumRootFSSize"
  using assms
  by (auto simp: spool_entry_def entry_ok_def split: tar_type.splits if_splits)

lemma spool_loop_inv:
  "spool_loop flt input ep items st = Inr st' \<Longrightarrow> spool_inv st \<Longrightarrow> spool_inv st'"
proof (induction flt input ep items st rule: spool_loop.induct)
  case (3 flt input ep header contents items st)
  obtain b where b: "spool_scan header (sp_budget st) = Inr b"
    using "3.prems"(1) by (auto split: sum.splits)
  note k = spool_scan_keeps [OF b]
  obtain mo where mo: "mapSourcePath (th_Name header) input = Inr mo"
    using "3.prems"(1) b by (auto split: sum.splits)
  have skip: "spool_inv (st\<lparr>sp_budget := b\<rparr>)" using "3.prems"(2) k by (simp add: spool_inv_def)
  show ?case
  proof (cases mo)
    case None
    then show ?thesis using "3.IH"(1) [OF b] mo "3.prems"(1) b skip by simp
  next
    case (Some m)
    then obtain eo where eo: "spool_entry flt m header contents b = Inr eo"
      using "3.prems"(1) b mo by (auto split: sum.splits)
    show ?thesis
    proof (cases eo)
      case None
      then show ?thesis using "3.IH"(2) [OF b] mo Some eo "3.prems"(1) b skip by simp
    next
      case (Some p)
      obtain e b1 where p: "p = (e, b1)" by (cases p)
      have ok: "entry_ok e" "outputItems b1 = outputItems b" "outputBytes b1 = outputBytes b + be_size e"
        "outputBytes b1 \<le> maximumRootFSSize"
        using spool_entry_ok [of flt m header contents b e b1] eo Some p mapSourcePath_safe
          mo \<open>mo = Some m\<close> k "3.prems"(2) by (auto simp: spool_inv_def)
      let ?st = "\<lparr>sp_seen = (sp_seen st \<or> ''/'' @ m = ep), sp_entries = sp_entries st @ [e],
        sp_budget = b1\<lparr>outputItems := outputItems b1 + 1\<rparr>\<rparr>"
      have run: "\<not> outputItems b1 + 1 > maximumRootFSItems" "spool_loop flt input ep items ?st = Inr st'"
        using "3.prems"(1) b mo \<open>mo = Some m\<close> eo Some p by (auto simp: Let_def split: if_splits)
      have "spool_inv ?st" using ok k run(1) "3.prems"(2) by (auto simp: spool_inv_def)
      then show ?thesis
        using "3.IH"(3) [OF b mo \<open>mo = Some m\<close> eo Some p [symmetric] refl] run by (simp add: Let_def)
    qed
  qed
qed auto

lemma spool_inputs_inv:
  "spool_inputs env ep inputs st = Inr st' \<Longrightarrow> spool_inv st \<Longrightarrow> spool_inv st'"
proof (induction env ep inputs st rule: spool_inputs.induct)
  case (2 env ep input inputs st)
  obtain r where r: "spoolLockedInput env input ep (sp_entries st) (sp_budget st) = Inr r"
    using "2.prems"(1) by (auto split: sum.splits)
  obtain pr es b where p: "r = (pr, es, b)" by (cases r)
  obtain items st1 where l: "spool_loop (b_spool_fault env) input ep items
      \<lparr>sp_seen = False, sp_entries = sp_entries st, sp_budget = sp_budget st\<rparr> = Inr st1"
    "es = sp_entries st1" "b = sp_budget st1"
    using r p by (auto simp: spoolLockedInput_def split: sum.splits option.splits)
  have "spool_inv st1" using spool_loop_inv [OF l(1)] "2.prems"(2) by (simp add: spool_inv_def)
  then have "spool_inv \<lparr>sp_seen = (sp_seen st \<or> pr), sp_entries = es, sp_budget = b\<rparr>"
    using l(2,3) by (simp add: spool_inv_def)
  then show ?case using "2.IH" [OF r p [symmetric] refl] "2.prems"(1) r p by simp
qed simp

lemma no_duplicate_sorted:
  "duplicate_entry es = None \<Longrightarrow> sorted (map be_name es) \<Longrightarrow> sorted_wrt (<) (map be_name es)"
proof (induction es rule: duplicate_entry.induct)
  case (1 a b es)
  then have "sorted_wrt (<) (map be_name (b # es))" "be_name a < be_name b" by (auto split: if_splits)
  then show ?case by fastforce
qed auto

text \<open>The directories passed when walking the segments \<open>ss\<close> from \<open>pre\<close>.\<close>

definition steps :: "bytes list \<Rightarrow> bytes list \<Rightarrow> bytes set" where
  "steps pre ss = {joined (pre @ take k ss) | k. 0 < k \<and> k \<le> length ss}"

lemma steps_Nil [simp]: "steps pre [] = {}"
  by (simp add: steps_def)

lemma steps_Cons [simp]: "steps pre (s # ss) = insert (joined (pre @ [s])) (steps (pre @ [s]) ss)"
proof
  show "steps pre (s # ss) \<subseteq> insert (joined (pre @ [s])) (steps (pre @ [s]) ss)"
  proof
    fix x assume "x \<in> steps pre (s # ss)"
    then obtain k where k: "0 < k" "k \<le> length (s # ss)" "x = joined (pre @ take k (s # ss))"
      unfolding steps_def by blast
    then obtain j where j: "k = Suc j" by (cases k) auto
    show "x \<in> insert (joined (pre @ [s])) (steps (pre @ [s]) ss)"
      using k j by (cases "j = 0") (auto simp: steps_def)
  qed
  show "insert (joined (pre @ [s])) (steps (pre @ [s]) ss) \<subseteq> steps pre (s # ss)"
  proof
    fix x assume "x \<in> insert (joined (pre @ [s])) (steps (pre @ [s]) ss)"
    then consider "x = joined (pre @ take 1 (s # ss))"
      | k where "0 < k" "k \<le> length ss" "x = joined (pre @ take (Suc k) (s # ss))"
      by (auto simp: steps_def)
    then show "x \<in> steps pre (s # ss)" unfolding steps_def by cases (fastforce, force)
  qed
qed

lemma finite_steps [simp]: "finite (steps pre ss)"
  by (induction ss arbitrary: pre) auto

text \<open>The walk over the ancestors adds exactly the directories above the entry, none of them an entry.\<close>

lemma closure_segments_Inr:
  assumes "closure_segments paths name (joined pre) dirs ss = Inr dirs'"
    and "proper_path (pre @ ss)" and "distinct dirs"
  shows "set dirs' = set dirs \<union> steps pre ss \<and> distinct dirs' \<and> steps pre ss \<inter> set paths = {} \<and>
    (dirs' = dirs \<or> int (length paths) + int (length dirs') \<le> maximumRootFSItems)"
  using assms
proof (induction ss arbitrary: pre dirs)
  case (Cons s ss)
  have s: "s \<noteq> ''.''" "proper_segment s" "slash \<notin> set s" "proper_path pre"
    using Cons.prems(2) by (auto simp: proper_segment_def)
  have "joined pre = [] \<longleftrightarrow> pre = []" using joined_nonempty [OF s(4)] by auto
  then have cur: "(if joined pre = [] then s else path_join (joined pre) s) = joined (pre @ [s])"
    using path_join_joined [OF s(4) _ s(2,3)] by simp
  let ?d = "List.insert (joined (pre @ [s])) dirs"
  have c: "joined (pre @ [s]) \<notin> set paths" "int (length paths) + int (length ?d) \<le> maximumRootFSItems"
    "closure_segments paths name (joined (pre @ [s])) ?d ss = Inr dirs'"
    using Cons.prems(1) s(1) unfolding closure_segments.simps cur Let_def
    by (auto simp del: List.insert_def split: if_splits)
  show ?case using Cons.IH [OF c(3)] Cons.prems c by auto
qed simp

lemma above_snoc: "above (xs @ [x]) = steps [] xs"
  by (auto simp: above_def steps_def less_Suc_eq_le) (metis append_Nil2 diff_is_0_eq take_0 take_append)+

lemma finite_implied [simp]: "finite (implied_dirs names)"
proof -
  have "finite (above ss)" for ss by (cases ss rule: rev_cases) (auto simp: above_snoc, simp add: above_def)
  then show ?thesis by (simp add: implied_dirs_def)
qed

lemma closure_name:
  assumes "closure_segments paths name [] dirs (segs (path_dir name)) = Inr dirs'"
    and "validateRelativePath name" and "distinct dirs"
  shows "set dirs' = set dirs \<union> above (segs name) \<and> distinct dirs' \<and> above (segs name) \<inter> set paths = {} \<and>
    (dirs' = dirs \<or> int (length paths) + int (length dirs') \<le> maximumRootFSItems)"
proof -
  have pr: "proper_path (segs name)" "segs name \<noteq> []" using relative_proper [OF assms(2)] by auto
  obtain xs x where xs: "segs name = xs @ [x]" using pr(2) by (cases "segs name" rule: rev_cases) auto
  have dir: "path_dir name = (if xs = [] then ''.'' else joined xs)"
    using path_dir_segments [OF pr] unfolding join_split by (simp add: xs)
  show ?thesis
  proof (cases "xs = []")
    case True
    then have "dirs' = dirs" using assms(1) dir by simp
    then show ?thesis using True xs assms(3) by (auto simp: above_def)
  next
    case False
    have p: "proper_path ([] @ xs)" using pr(1) xs by simp
    then have "segs (path_dir name) = xs" using dir False segs_joined by simp
    then have "closure_segments paths name (joined []) dirs xs = Inr dirs'" using assms(1) by simp
    from closure_segments_Inr [OF this p assms(3)] show ?thesis unfolding xs above_snoc by simp
  qed
qed

lemma closure_entries_Inr:
  "closure_entries paths dirs names = Inr dirs' \<Longrightarrow> \<forall>n \<in> set names. validateRelativePath n \<Longrightarrow> distinct dirs \<Longrightarrow>
   set dirs' = set dirs \<union> implied_dirs names \<and> distinct dirs' \<and> implied_dirs names \<inter> set paths = {} \<and>
   (dirs' = dirs \<or> int (length paths) + int (length dirs') \<le> maximumRootFSItems)"
proof (induction names arbitrary: dirs)
  case (Cons name names)
  obtain d where d: "closure_segments paths name [] dirs (segs (path_dir name)) = Inr d"
    "closure_entries paths d names = Inr dirs'"
    using Cons.prems(1) by (auto split: sum.splits)
  note c = closure_name [OF d(1)]
  show ?case using Cons.IH [OF d(2)] c Cons.prems by (auto simp: implied_dirs_def)
qed (simp add: implied_dirs_def)

lemma collect_rootfs_ok:
  assumes "collect_rootfs env lock = Inr es"
  shows "rootfs_ok es" and "validateRootFSEntrypoint es (py_Entrypoint (bl_Python lock)) = None"
proof -
  obtain st where st: "spool_inputs env (py_Entrypoint (bl_Python lock)) (slice (bl_Inputs lock))
      \<lparr>sp_seen = False, sp_entries = [], sp_budget = zero_budget\<rparr> = Inr st"
    and es: "es = sort_key be_name (sp_entries st)"
    and dup: "duplicate_entry es = None" and cl: "validateRootFSItemClosure es = None"
    and ep: "validateRootFSEntrypoint es (py_Entrypoint (bl_Python lock)) = None"
    using assms by (auto simp: collect_rootfs_def Let_def split: sum.splits if_splits option.splits)
  have inv: "spool_inv st"
    using spool_inputs_inv [OF st] by (simp add: spool_inv_def zero_budget_def bundle_limits)
  have perm: "mset es = mset (sp_entries st)" by (simp add: es)
  have ok: "list_all entry_ok es" "length es = length (sp_entries st)" "int (length es) \<le> maximumRootFSItems"
    using inv by (auto simp: es spool_inv_def list_all_iff)
  have "sum_list (map be_size es) = sum_list (map be_size (sp_entries st))"
    using perm by (metis mset_map sum_mset_sum_list)
  then have total: "sum_list (map be_size es) \<le> maximumRootFSSize" using inv by (simp add: spool_inv_def)
  have sorted: "sorted_wrt (<) (map be_name es)"
    using no_duplicate_sorted [OF dup] by (simp add: es)
  obtain dirs where d: "closure_entries (map be_name es) [] (map be_name es) = Inr dirs"
    using cl by (auto simp: validateRootFSItemClosure_def Let_def split: sum.splits)
  have "\<forall>n \<in> set (map be_name es). validateRelativePath n" using ok(1) by (auto simp: list_all_iff entry_ok_def)
  from closure_entries_Inr [OF d this] have c: "set dirs = implied_dirs (map be_name es)" "distinct dirs"
    "implied_dirs (map be_name es) \<inter> set (map be_name es) = {}"
    "dirs = [] \<or> int (length es) + int (length dirs) \<le> maximumRootFSItems" by auto
  have "card (implied_dirs (map be_name es)) = length dirs" using c(1,2) distinct_card by metis
  then have "int (length es) + int (card (implied_dirs (map be_name es))) \<le> maximumRootFSItems"
    using c(4) ok(3) by auto
  then show "rootfs_ok es" using sorted ok(1) total c(3) by (simp add: rootfs_ok_def)
  show "validateRootFSEntrypoint es (py_Entrypoint (bl_Python lock)) = None" by (rule ep)
qed

end
