(* ===== verification/RootFSInstall.thy ===== *)
theory RootFSInstall
  imports BundleBuild
begin

text \<open>
  Unpacking the root filesystem of an approved Profile Bundle (\<^verbatim>\<open>profilebundle/install_linux.go\<close>:
  \<open>extractRootFS\<close>, \<open>ensureRootFSParents\<close>, \<open>validateInstalledEntrypoint\<close>, \<open>writeInstalledBytes\<close>,
  \<open>makeDirectoriesReadOnly\<close>).

  The directory being filled is an association list from paths (lists of segments) to nodes, the
  path \<open>[]\<close> being the directory itself. The operations of \<^verbatim>\<open>os.Root\<close> resolve a name inside it:
  symbolic links met on the way are followed, within a limit, and a link or a parent segment that
  leaves the directory is refused. Which system calls fail is a parameter, as are the tar codec,
  the digest and the sizes the filesystem reports for directories.
\<close>

section \<open>A directory tree\<close>

datatype node_kind = KDir | KFile bytes | KLink bytes

record tree_node =
  tn_kind :: node_kind
  tn_mode :: int
  tn_size :: int
  tn_uid :: int
  tn_gid :: int

type_synonym tree = "(bytes list \<times> tree_node) list"

datatype root_error = ErrNotExist | ErrExist | ErrNotDir | ErrEscapes | ErrLoop

text \<open>
  The path a name refers to. The last segment is not followed; \<open>cur\<close> is always a directory.
\<close>

function (sequential) walk :: "nat \<Rightarrow> tree \<Rightarrow> bytes list \<Rightarrow> bytes list \<Rightarrow> root_error + bytes list" where
  "walk links fs cur [] = Inr cur"
| "walk links fs cur (s # ss) =
     (if s = [] \<or> s = ''.'' then walk links fs cur ss
      else if s = ''..'' then (if cur = [] then Inl ErrEscapes else walk links fs (butlast cur) ss)
      else if ss = [] then Inr (cur @ [s])
      else case map_of fs (cur @ [s]) of
        None \<Rightarrow> Inl ErrNotExist
      | Some nd \<Rightarrow>
         (case tn_kind nd of
            KDir \<Rightarrow> walk links fs (cur @ [s]) ss
          | KFile _ \<Rightarrow> Inl ErrNotDir
          | KLink t \<Rightarrow>
             (case links of
                0 \<Rightarrow> Inl ErrLoop
              | Suc n \<Rightarrow> if is_abs t then Inl ErrEscapes else walk n fs cur (segs t @ ss))))"
  by pat_completeness auto
termination
  by (relation "measures [\<lambda>(links, fs, cur, ss). links, \<lambda>(links, fs, cur, ss). length ss]") auto

section \<open>The environment of an installation\<close>

datatype inst_step =
    StMkdir bytes | StFile bytes | StSymlink bytes | StLstat bytes | StChmodDir bytes
  | StCanonical bytes | StTarClose | StStage nat | StComponent bytes

record inst_env =
  ie_fault :: "inst_step \<Rightarrow> bool"
  ie_links :: nat
  ie_dir_size :: "bytes list \<Rightarrow> int"
  ie_sha256 :: "bytes \<Rightarrow> bytes"
  ie_tar_read :: "bytes \<Rightarrow> tar_item list"
  ie_tar_write :: "(tar_header \<times> bytes) list \<Rightarrow> bytes"

datatype inst_error =
    InstallIO inst_step
  | RootFailed root_error bytes
  | NameUnsafe bytes | NotSorted | InstallTooManyItems | NotCanonicalOwner bytes
  | TraversesSymlink bytes | FileMode bytes | InstallFileBudget bytes | FileTruncated bytes
  | SymlinkMode bytes | SymlinkUnsafe bytes | UnsupportedType bytes | ArchiveUnreadable
  | RootFSNotCanonical
  | InstalledEntrypointUnsafe | InstalledEntrypointMissing | InstalledEntrypointNotExecutable
  | InstalledEntrypointNotRegular | InstalledEntrypointCycle

definition dir_node :: "inst_env \<Rightarrow> bytes list \<Rightarrow> int \<Rightarrow> tree_node" where
  "dir_node env p mode = \<lparr>tn_kind = KDir, tn_mode = mode, tn_size = ie_dir_size env p, tn_uid = 0, tn_gid = 0\<rparr>"

definition file_node :: "bytes \<Rightarrow> int \<Rightarrow> tree_node" where
  "file_node contents mode =
     \<lparr>tn_kind = KFile contents, tn_mode = mode, tn_size = int (length contents), tn_uid = 0, tn_gid = 0\<rparr>"

definition link_node :: "bytes \<Rightarrow> tree_node" where
  "link_node t = \<lparr>tn_kind = KLink t, tn_mode = 0x1FF, tn_size = int (length t), tn_uid = 0, tn_gid = 0\<rparr>"

text \<open>Creating a name: its directory must resolve and nothing may exist there.\<close>

definition root_create :: "inst_env \<Rightarrow> (bytes list \<Rightarrow> tree_node) \<Rightarrow> bytes \<Rightarrow> tree \<Rightarrow> inst_error + tree" where
  "root_create env node name fs =
     (case walk (ie_links env) fs [] (segs name) of
        Inl e \<Rightarrow> Inl (RootFailed e name)
      | Inr p \<Rightarrow> if map_of fs p \<noteq> None then Inl (RootFailed ErrExist name) else Inr ((p, node p) # fs))"

definition root_mkdir :: "inst_env \<Rightarrow> bytes \<Rightarrow> tree \<Rightarrow> inst_error + tree" where
  "root_mkdir env name fs =
     (if ie_fault env (StMkdir name) then Inl (InstallIO (StMkdir name))
      else root_create env (\<lambda>p. dir_node env p 0x1C0) name fs)"

text \<open>
  \<open>writeInstalledBytes\<close>, and the file branch of the loop: create exclusively, write, set the mode,
  sync and close; a failure of any of these steps is the fault of the file.
\<close>

definition writeInstalledBytes :: "inst_env \<Rightarrow> bytes \<Rightarrow> bytes \<Rightarrow> int \<Rightarrow> tree \<Rightarrow> inst_error + tree" where
  "writeInstalledBytes env name contents mode fs =
     (if ie_fault env (StFile name) then Inl (InstallIO (StFile name))
      else root_create env (\<lambda>_. file_node contents mode) name fs)"

definition root_symlink :: "inst_env \<Rightarrow> bytes \<Rightarrow> bytes \<Rightarrow> tree \<Rightarrow> inst_error + tree" where
  "root_symlink env t name fs =
     (if ie_fault env (StSymlink name) then Inl (InstallIO (StSymlink name))
      else root_create env (\<lambda>_. link_node t) name fs)"

definition root_lstat :: "inst_env \<Rightarrow> bytes \<Rightarrow> tree \<Rightarrow> tree_node option" where
  "root_lstat env name fs =
     (if ie_fault env (StLstat name) then None
      else case walk (ie_links env) fs [] (segs name) of Inl _ \<Rightarrow> None | Inr p \<Rightarrow> map_of fs p)"

section \<open>Unpacking\<close>

record extract_state =
  xs_fs :: tree
  xs_dirs :: "bytes list"
  xs_types :: "(bytes \<times> tar_type) list"
  xs_links :: "(bytes \<times> bytes) list"
  xs_last :: bytes
  xs_count :: int
  xs_bytes :: int
  xs_canon :: "(tar_header \<times> bytes) list"

fun ensure_segments ::
  "inst_env \<Rightarrow> (bytes \<times> tar_type) list \<Rightarrow> bytes \<Rightarrow> bytes list \<Rightarrow> tree \<times> bytes list \<Rightarrow>
   inst_error + tree \<times> bytes list" where
  "ensure_segments env types current [] st = Inr st"
| "ensure_segments env types current (segment # segments) (fs, dirs) =
     (let current1 = (if current = [] then segment else path_join current segment) in
      if map_of types current1 = Some TypeSymlink then Inl (TraversesSymlink current1)
      else if current1 \<in> set dirs then ensure_segments env types current1 segments (fs, dirs)
      else case root_mkdir env current1 fs of
        Inl e \<Rightarrow> Inl e
      | Inr fs1 \<Rightarrow> ensure_segments env types current1 segments (fs1, current1 # dirs))"

definition ensureRootFSParents ::
  "inst_env \<Rightarrow> bytes \<Rightarrow> (bytes \<times> tar_type) list \<Rightarrow> tree \<times> bytes list \<Rightarrow> inst_error + tree \<times> bytes list" where
  "ensureRootFSParents env directory types st =
     (if directory = ''.'' then Inr st else ensure_segments env types [] (segs directory) st)"

definition extract_checks :: "inst_env \<Rightarrow> tar_header \<Rightarrow> extract_state \<Rightarrow> inst_error + extract_state" where
  "extract_checks env header st =
     (if \<not> validateRelativePath (th_Name header) then Inl (NameUnsafe (th_Name header))
      else if xs_last st \<noteq> [] \<and> th_Name header \<le> xs_last st then Inl NotSorted
      else if xs_count st + 1 > maximumRootFSItems then Inl InstallTooManyItems
      else if th_Uid header \<noteq> 0 \<or> th_Gid header \<noteq> 0 \<or> th_ModTime header \<noteq> 0
      then Inl (NotCanonicalOwner (th_Name header))
      else case ensureRootFSParents env (path_dir (th_Name header)) (xs_types st) (xs_fs st, xs_dirs st) of
        Inl e \<Rightarrow> Inl e
      | Inr (fs, dirs) \<Rightarrow>
         (if xs_count st + 1 + int (length dirs) - 1 > maximumRootFSItems then Inl InstallTooManyItems
          else Inr (st\<lparr>xs_fs := fs, xs_dirs := dirs, xs_last := th_Name header, xs_count := xs_count st + 1\<rparr>)))"

definition extract_file :: "inst_env \<Rightarrow> tar_header \<Rightarrow> bytes \<Rightarrow> extract_state \<Rightarrow> inst_error + extract_state" where
  "extract_file env header contents st =
     (let name = th_Name header; sz = th_Size header in
      if th_Typeflag header \<noteq> TypeReg \<or> th_Mode header \<noteq> 0x124 \<and> th_Mode header \<noteq> 0x16D
      then Inl (FileMode name)
      else if sz < 0 \<or> sz > maximumRootFSFile \<or> xs_bytes st > maximumRootFSSize - sz
      then Inl (InstallFileBudget name)
      else if ie_fault env (StCanonical name) then Inl (InstallIO (StCanonical name))
      else let data = take (nat sz) contents in
        case writeInstalledBytes env name data (th_Mode header) (xs_fs st) of
          Inl e \<Rightarrow> Inl e
        | Inr fs \<Rightarrow>
            if int (length contents) < sz then Inl (FileTruncated name) else Inr (st\<lparr>xs_fs := fs, xs_bytes := xs_bytes st + sz,
            xs_types := (name, TypeReg) # xs_types st,
            xs_canon := xs_canon st @ [(canonicalTarHeader name TypeReg (th_Mode header) sz [], data)]\<rparr>))"

definition extract_link :: "inst_env \<Rightarrow> tar_header \<Rightarrow> extract_state \<Rightarrow> inst_error + extract_state" where
  "extract_link env header st =
     (let name = th_Name header in
      if th_Mode header \<noteq> 0x16D then Inl (SymlinkMode name)
      else if \<not> validateSymlink name (th_Linkname header) then Inl (SymlinkUnsafe name)
      else if ie_fault env (StCanonical name) then Inl (InstallIO (StCanonical name))
      else Inr (st\<lparr>xs_links := xs_links st @ [(name, th_Linkname header)],
        xs_types := (name, TypeSymlink) # xs_types st,
        xs_canon := xs_canon st @ [(canonicalTarHeader name TypeSymlink 0x16D 0 (th_Linkname header), [])]\<rparr>))"

fun rootfs_loop :: "inst_env \<Rightarrow> tar_item list \<Rightarrow> extract_state \<Rightarrow> inst_error + extract_state" where
  "rootfs_loop env [] st = Inr st"
| "rootfs_loop env (TarError # items) st = Inl ArchiveUnreadable"
| "rootfs_loop env (TarEntry header contents # items) st =
     (case extract_checks env header st of
        Inl e \<Rightarrow> Inl e
      | Inr st1 \<Rightarrow>
         (case (case th_Typeflag header of
                  TypeReg \<Rightarrow> extract_file env header contents st1
                | TypeRegA \<Rightarrow> extract_file env header contents st1
                | TypeSymlink \<Rightarrow> extract_link env header st1
                | _ \<Rightarrow> Inl (UnsupportedType (th_Name header))) of
            Inl e \<Rightarrow> Inl e
          | Inr st2 \<Rightarrow> rootfs_loop env items st2))"

fun create_links :: "inst_env \<Rightarrow> (bytes \<times> bytes) list \<Rightarrow> tree \<Rightarrow> inst_error + tree" where
  "create_links env [] fs = Inr fs"
| "create_links env ((name, t) # links) fs =
     (case root_symlink env t name fs of Inl e \<Rightarrow> Inl e | Inr fs1 \<Rightarrow> create_links env links fs1)"

fun installed_hops :: "inst_env \<Rightarrow> tree \<Rightarrow> nat \<Rightarrow> bytes \<Rightarrow> inst_error option" where
  "installed_hops env fs 0 current = Some InstalledEntrypointCycle"
| "installed_hops env fs (Suc n) current =
     (if \<not> validateRelativePath current then Some InstalledEntrypointUnsafe
      else case root_lstat env current fs of
        None \<Rightarrow> Some InstalledEntrypointMissing
      | Some nd \<Rightarrow>
         (case tn_kind nd of
            KFile _ \<Rightarrow> if tn_mode nd \<noteq> 0x16D then Some InstalledEntrypointNotExecutable else None
          | KDir \<Rightarrow> Some InstalledEntrypointNotRegular
          | KLink t \<Rightarrow> installed_hops env fs n (path_clean (path_join (path_dir current) t))))"

definition validateInstalledEntrypoint :: "inst_env \<Rightarrow> tree \<Rightarrow> bytes \<Rightarrow> inst_error option" where
  "validateInstalledEntrypoint env fs entrypoint = installed_hops env fs 40 (trim_prefix entrypoint ''/'')"

fun make_mountpoints :: "inst_env \<Rightarrow> bytes list \<Rightarrow> tree \<times> bytes list \<Rightarrow> inst_error + tree \<times> bytes list" where
  "make_mountpoints env [] st = Inr st"
| "make_mountpoints env (name # names) (fs, dirs) =
     (case root_mkdir env name fs of
        Inl e \<Rightarrow> Inl e
      | Inr fs1 \<Rightarrow> make_mountpoints env names (fs1, List.insert name dirs))"

definition mountpoints :: "bytes list" where
  "mountpoints = [''proc'', ''dev'', ''workspace'', ''tmp'']"

text \<open>Opening a directory follows every link of its path.\<close>

definition chmod_dir :: "inst_env \<Rightarrow> bytes \<Rightarrow> tree \<Rightarrow> inst_error + tree" where
  "chmod_dir env name fs =
     (if ie_fault env (StChmodDir name) then Inl (InstallIO (StChmodDir name))
      else case walk (ie_links env) fs [] (segs name @ [''.'']) of
        Inl e \<Rightarrow> Inl (RootFailed e name)
      | Inr p \<Rightarrow> Inr (map (\<lambda>(q, nd). (q, if q = p then nd\<lparr>tn_mode := 0x16D\<rparr> else nd)) fs))"

fun chmod_dirs :: "inst_env \<Rightarrow> bytes list \<Rightarrow> tree \<Rightarrow> inst_error + tree" where
  "chmod_dirs env [] fs = Inr fs"
| "chmod_dirs env (name # names) fs =
     (case chmod_dir env name fs of Inl e \<Rightarrow> Inl e | Inr fs1 \<Rightarrow> chmod_dirs env names fs1)"

definition slash_count :: "bytes \<Rightarrow> int" where
  "slash_count name = int (length (filter (\<lambda>c. c = slash) name))"

definition makeDirectoriesReadOnly :: "inst_env \<Rightarrow> bytes list \<Rightarrow> tree \<Rightarrow> inst_error + tree" where
  "makeDirectoriesReadOnly env dirs fs = chmod_dirs env (sort_key (\<lambda>n. - slash_count n) dirs) fs"

definition start_state :: "inst_env \<Rightarrow> extract_state" where
  "start_state env = \<lparr>xs_fs = [([], dir_node env [] 0x1C0)], xs_dirs = [''.''], xs_types = [], xs_links = [],
     xs_last = [], xs_count = 0, xs_bytes = 0, xs_canon = []\<rparr>"

text \<open>
  \<open>extractRootFS\<close> on the bytes of the root filesystem component, the Sandbox Init and the policy.
\<close>

definition extractRootFS ::
  "inst_env \<Rightarrow> bytes \<Rightarrow> bytes \<Rightarrow> bytes \<Rightarrow> bytes \<Rightarrow> inst_error + tree" where
  "extractRootFS env component_bytes initBytes policyBytes entrypoint =
     (if ie_fault env (StStage 0) then Inl (InstallIO (StStage 0))
      else case rootfs_loop env (ie_tar_read env component_bytes) (start_state env) of
        Inl e \<Rightarrow> Inl e
      | Inr st \<Rightarrow>
         (if ie_fault env StTarClose then Inl (InstallIO StTarClose)
          else if ie_sha256 env component_bytes \<noteq> ie_sha256 env (ie_tar_write env (xs_canon st))
          then Inl RootFSNotCanonical
          else case create_links env (xs_links st) (xs_fs st) of
            Inl e \<Rightarrow> Inl e
          | Inr fs1 \<Rightarrow>
         (case validateInstalledEntrypoint env fs1 entrypoint of
            Some e \<Rightarrow> Inl e
          | None \<Rightarrow>
         (case writeInstalledBytes env ''sandbox-init'' initBytes 0x16D fs1 of
            Inl e \<Rightarrow> Inl e
          | Inr fs2 \<Rightarrow>
         (case writeInstalledBytes env ''system-call-policy.json'' policyBytes 0x124 fs2 of
            Inl e \<Rightarrow> Inl e
          | Inr fs3 \<Rightarrow>
         (case make_mountpoints env mountpoints (fs3, xs_dirs st) of
            Inl e \<Rightarrow> Inl e
          | Inr (fs4, dirs) \<Rightarrow> makeDirectoriesReadOnly env dirs fs4))))))"

end
