(* ===== verification/RootFSCorrect.thy ===== *)
theory RootFSCorrect
  imports RootFSInstall
begin

text \<open>
  What \<open>extractRootFS\<close> accepts and what it leaves behind. The loop is characterised by the entries
  it has accepted: the tree, the directories, the pending links and the canonical archive are
  functions of them. Hence the loop accepts exactly the root filesystems that the build checks for
  (\<^const>\<open>rootfs_ok\<close>), and the installed tree is \<open>installed_tree\<close>.
\<close>

section \<open>Resolving names below directories\<close>

definition dirs_at :: "tree \<Rightarrow> bytes list \<Rightarrow> bytes list \<Rightarrow> bool" where
  "dirs_at fs pre ss \<longleftrightarrow>
     (\<forall>k. 0 < k \<longrightarrow> k \<le> length ss \<longrightarrow> (\<exists>nd. map_of fs (pre @ take k ss) = Some nd \<and> tn_kind nd = KDir))"

lemma dirs_at_Nil [simp]: "dirs_at fs pre []"
  by (simp add: dirs_at_def)

lemma dirs_at_Cons:
  "dirs_at fs pre (s # ss) \<longleftrightarrow>
     (\<exists>nd. map_of fs (pre @ [s]) = Some nd \<and> tn_kind nd = KDir) \<and> dirs_at fs (pre @ [s]) ss"
proof
  assume d: "dirs_at fs pre (s # ss)"
  have "\<exists>nd. map_of fs (pre @ take 1 (s # ss)) = Some nd \<and> tn_kind nd = KDir"
    using d unfolding dirs_at_def by fastforce
  moreover have "dirs_at fs (pre @ [s]) ss" unfolding dirs_at_def
  proof (intro allI impI)
    fix k :: nat assume "0 < k" "k \<le> length ss"
    then show "\<exists>nd. map_of fs ((pre @ [s]) @ take k ss) = Some nd \<and> tn_kind nd = KDir"
      using d [unfolded dirs_at_def, rule_format, of "Suc k"] by simp
  qed
  ultimately show "(\<exists>nd. map_of fs (pre @ [s]) = Some nd \<and> tn_kind nd = KDir) \<and> dirs_at fs (pre @ [s]) ss"
    by simp
next
  assume d: "(\<exists>nd. map_of fs (pre @ [s]) = Some nd \<and> tn_kind nd = KDir) \<and> dirs_at fs (pre @ [s]) ss"
  show "dirs_at fs pre (s # ss)" unfolding dirs_at_def
  proof (intro allI impI)
    fix k :: nat assume k: "0 < k" "k \<le> length (s # ss)"
    then obtain j where j: "k = Suc j" by (cases k) auto
    show "\<exists>nd. map_of fs (pre @ take k (s # ss)) = Some nd \<and> tn_kind nd = KDir"
      using d k j unfolding dirs_at_def by (cases "j = 0") (auto simp: gr0_conv_Suc)
  qed
qed

lemma walk_dirs:
  "dirs_at fs pre ss \<Longrightarrow> proper_path ss \<Longrightarrow> ts \<noteq> [] \<Longrightarrow> walk l fs pre (ss @ ts) = walk l fs (pre @ ss) ts"
  by (induction ss arbitrary: pre) (auto simp: dirs_at_Cons proper_segment_def)

lemma walk_below:
  assumes "dirs_at fs [] ss" and "proper_path (ss @ [s])"
  shows "walk l fs [] (ss @ [s]) = Inr (ss @ [s])"
  using walk_dirs [OF assms(1), of "[s]" l] assms(2) by (simp add: proper_segment_def)

lemma walk_dir:
  assumes "dirs_at fs [] ss" and "proper_path ss"
  shows "walk l fs [] (ss @ [''.'']) = Inr ss"
  using walk_dirs [OF assms, of "[''.'']" l] by simp

section \<open>The tree of a set of directories and a list of entries\<close>

definition entry_node :: "rootfsBuildEntry \<Rightarrow> tree_node" where
  "entry_node e = (if be_typeFlag e = TypeReg then file_node (be_spool e) (be_mode e) else link_node (be_linkName e))"

definition entry_at :: "(rootfsBuildEntry \<Rightarrow> bool) \<Rightarrow> rootfsBuildEntry list \<Rightarrow> bytes list \<Rightarrow> tree_node option" where
  "entry_at P es p = map_option entry_node (find (\<lambda>e. P e \<and> segs (be_name e) = p) es)"

definition is_reg :: "rootfsBuildEntry \<Rightarrow> bool" where "is_reg e \<longleftrightarrow> be_typeFlag e = TypeReg"
definition is_link :: "rootfsBuildEntry \<Rightarrow> bool" where "is_link e \<longleftrightarrow> be_typeFlag e = TypeSymlink"

text \<open>\<open>D\<close> is a set of directory names, \<open>mode\<close> their mode, \<open>P\<close> selects the entries present.\<close>

definition tree_of ::
  "inst_env \<Rightarrow> int \<Rightarrow> bytes set \<Rightarrow> (rootfsBuildEntry \<Rightarrow> bool) \<Rightarrow> rootfsBuildEntry list \<Rightarrow> bytes list \<Rightarrow> tree_node option" where
  "tree_of env mode D P es p =
     (if p = [] \<or> p \<in> segs ` D then Some (dir_node env p mode) else entry_at P es p)"

lemma segs_not_Nil [simp]: "[] \<noteq> segs a"
  by (metis split_on_nonempty)

lemma segs_inj [simp]: "segs a = segs b \<longleftrightarrow> a = b"
  by (metis join_split)

lemma segs_image [simp]: "segs a \<in> segs ` D \<longleftrightarrow> a \<in> D"
  by auto

lemma segs_eq_joined: "proper_path p \<Longrightarrow> p \<noteq> [] \<Longrightarrow> segs n = p \<longleftrightarrow> n = joined p"
  using segs_joined [of p] by (metis join_split)

lemma proper_image: "proper_path p \<Longrightarrow> p \<noteq> [] \<Longrightarrow> p \<in> segs ` D \<longleftrightarrow> joined p \<in> D"
  using segs_joined [of p] by (metis segs_image)

lemma entry_at_None: "entry_at P es p = None \<longleftrightarrow> (\<forall>e \<in> set es. \<not> (P e \<and> segs (be_name e) = p))"
  by (auto simp: entry_at_def find_None_iff)

lemma entry_at_snoc:
  "entry_at P (es @ [e]) p =
     (case entry_at P es p of Some nd \<Rightarrow> Some nd | None \<Rightarrow> if P e \<and> segs (be_name e) = p then Some (entry_node e) else None)"
  by (induction es) (auto simp: entry_at_def split: option.splits)

lemma tree_of_dirs:
  assumes "map_of fs = tree_of env m D P es" and "proper_path (pre @ ss)" and "steps pre ss \<subseteq> D"
  shows "dirs_at fs pre ss"
  using assms(2,3)
proof (induction ss arbitrary: pre)
  case (Cons s ss)
  have "pre @ [s] \<in> segs ` D" using Cons.prems proper_image [of "pre @ [s]" D] by simp
  then have "map_of fs (pre @ [s]) = Some (dir_node env (pre @ [s]) m)"
    using assms(1) by (simp add: tree_of_def)
  then show ?case using Cons.IH [of "pre @ [s]"] Cons.prems by (simp add: dirs_at_Cons dir_node_def)
qed simp

text \<open>Creating a name below existing directories.\<close>

lemma root_create_below:
  assumes "map_of fs = tree_of env m D P es" and "proper_path (segs name)" and "above (segs name) \<subseteq> D"
  shows "root_create env node name fs =
    (if name \<in> D \<or> (\<exists>e \<in> set es. P e \<and> be_name e = name) then Inl (RootFailed ErrExist name)
     else Inr ((segs name, node (segs name)) # fs))"
proof -
  obtain xs x where xs: "segs name = xs @ [x]" "proper_path (xs @ [x])"
    using assms(2) by (cases "segs name" rule: rev_cases) auto
  have "dirs_at fs [] xs"
    using tree_of_dirs [OF assms(1), of "[]" xs] xs assms(3) by (simp add: above_snoc)
  then have w: "walk (ie_links env) fs [] (segs name) = Inr (segs name)"
    using walk_below [of fs xs x] xs by simp
  have "map_of fs (segs name) = None \<longleftrightarrow> name \<notin> D \<and> \<not> (\<exists>e \<in> set es. P e \<and> be_name e = name)"
    using assms(1) by (auto simp: tree_of_def entry_at_None)
  then show ?thesis using w by (auto simp: root_create_def)
qed

definition no_fault :: "inst_env \<Rightarrow> bool" where
  "no_fault env \<longleftrightarrow> (\<forall>s. \<not> ie_fault env s)"

text \<open>The types recorded for the entries accepted so far.\<close>

definition types_of :: "rootfsBuildEntry list \<Rightarrow> (bytes \<times> tar_type) list" where
  "types_of es = rev (map (\<lambda>e. (be_name e, be_typeFlag e)) es)"

lemma types_link:
  "distinct (map be_name es) \<Longrightarrow>
   map_of (types_of es) n = Some TypeSymlink \<longleftrightarrow> (\<exists>e \<in> set es. be_name e = n \<and> is_link e)"
  by (auto simp: types_of_def is_link_def map_of_eq_Some_iff rev_map [symmetric] comp_def
      simp flip: rev_map split: prod.splits)

section \<open>The parents of an entry\<close>

lemma joined_not_dot: "proper_path p \<Longrightarrow> p \<noteq> [] \<Longrightarrow> joined p \<noteq> ''.''"
proof
  assume p: "proper_path p" "p \<noteq> []" and "joined p = ''.''"
  then have "segs ''.'' = p" using segs_joined by metis
  then have "p = [''.'']" by simp
  then show False using p(1) by (simp add: proper_segment_def)
qed

lemma tree_of_insert_dir:
  "(tree_of env m D P es)(segs c \<mapsto> dir_node env (segs c) m) = tree_of env m (insert c D) P es"
  by (auto simp: tree_of_def fun_eq_iff)

lemma current_eq:
  assumes "proper_path (pre @ s # ss)"
  shows "(if joined pre = [] then s else path_join (joined pre) s) = joined (pre @ [s])"
proof -
  have s: "proper_segment s" "slash \<notin> set s" "proper_path pre" using assms by auto
  then have "joined pre = [] \<longleftrightarrow> pre = []" using joined_nonempty [OF s(3)] by auto
  then show ?thesis using path_join_joined [OF s(3) _ s(1,2)] by simp
qed

lemma above_joined: "proper_path (pre @ [s]) \<Longrightarrow> above (segs (joined (pre @ [s]))) = steps [] pre"
  using segs_joined [of "pre @ [s]"] by (simp add: above_snoc)

lemma steps_snoc: "steps [] (pre @ [s]) = insert (joined (pre @ [s])) (steps [] pre)"
proof -
  have "steps qs (pre @ [s]) = insert (joined (qs @ pre @ [s])) (steps qs pre)" for qs
    by (induction pre arbitrary: qs) auto
  from this [of "[]"] show ?thesis by simp
qed

definition accepted :: "rootfsBuildEntry list \<Rightarrow> bool" where
  "accepted es \<longleftrightarrow> distinct (map be_name es) \<and> (\<forall>e \<in> set es. is_reg e \<or> is_link e)"

text \<open>Creating one directory of the walk, when it does not exist yet.\<close>

lemma mkdir_current:
  assumes "map_of fs = tree_of env 0x1C0 D is_reg es" and "proper_path (pre @ [s])" and "steps [] pre \<subseteq> D"
    and "joined (pre @ [s]) \<notin> D"
  shows "root_mkdir env (joined (pre @ [s])) fs =
    (if ie_fault env (StMkdir (joined (pre @ [s]))) then Inl (InstallIO (StMkdir (joined (pre @ [s]))))
     else if \<exists>e \<in> set es. is_reg e \<and> be_name e = joined (pre @ [s])
     then Inl (RootFailed ErrExist (joined (pre @ [s])))
     else Inr ((pre @ [s], dir_node env (pre @ [s]) 0x1C0) # fs))"
  using root_create_below [OF assms(1), of "joined (pre @ [s])"] above_joined [OF assms(2)] assms(2-4)
    segs_joined [OF assms(2)]
  by (auto simp: root_mkdir_def)

lemma ensure_segments_Inr:
  assumes "ensure_segments env (types_of es) (joined pre) ss (fs, dirs) = Inr (fs', dirs')"
    and "proper_path (pre @ ss)" and "map_of fs = tree_of env 0x1C0 D is_reg es"
    and "set dirs = insert ''.'' D" and "distinct dirs" and "distinct (map fst fs)" and "steps [] pre \<subseteq> D"
    and "D \<inter> be_name ` set es = {}" and "accepted es"
  shows "map_of fs' = tree_of env 0x1C0 (D \<union> steps pre ss) is_reg es \<and>
    set dirs' = insert ''.'' (D \<union> steps pre ss) \<and> distinct dirs' \<and> distinct (map fst fs') \<and>
    steps pre ss \<inter> be_name ` set es = {}"
  using assms(1-8)
proof (induction ss arbitrary: pre fs dirs D)
  case (Cons s ss)
  let ?c = "joined (pre @ [s])"
  have pp: "proper_path (pre @ [s])" "proper_path ((pre @ [s]) @ ss)" using Cons.prems(2) by auto
  have nd: "?c \<noteq> ''.''" using joined_not_dot [OF pp(1)] by simp
  have sub: "steps [] (pre @ [s]) \<subseteq> insert ?c D" using Cons.prems(7) by (auto simp: steps_snoc)
  have nolink: "map_of (types_of es) ?c \<noteq> Some TypeSymlink"
    using Cons.prems(1) current_eq [OF Cons.prems(2)] by (auto simp: Let_def split: if_splits)
  then have notname: "e \<in> set es \<Longrightarrow> be_name e = ?c \<Longrightarrow> is_reg e" for e
    using types_link [of es ?c] assms(9) by (auto simp: accepted_def)
  show ?case
  proof (cases "?c \<in> D")
    case True
    then have "ensure_segments env (types_of es) ?c ss (fs, dirs) = Inr (fs', dirs')"
      using Cons.prems(1,4) current_eq [OF Cons.prems(2)] nolink by (simp add: Let_def)
    from Cons.IH [OF this pp(2) Cons.prems(3-6) _ Cons.prems(8)] True sub Cons.prems(8)
    show ?thesis by (auto simp: insert_absorb)
  next
    case False
    then obtain fs1 where m: "root_mkdir env ?c fs = Inr fs1"
      "ensure_segments env (types_of es) ?c ss (fs1, ?c # dirs) = Inr (fs', dirs')"
      using Cons.prems(1,4) current_eq [OF Cons.prems(2)] nolink nd by (auto simp: Let_def split: sum.splits)
    then have fs1: "fs1 = (pre @ [s], dir_node env (pre @ [s]) 0x1C0) # fs"
      and none: "\<not> (\<exists>e \<in> set es. is_reg e \<and> be_name e = ?c)"
      using mkdir_current [OF Cons.prems(3) pp(1) Cons.prems(7) False] by (auto split: if_splits)
    have t: "map_of fs1 = tree_of env 0x1C0 (insert ?c D) is_reg es"
      using Cons.prems(3) tree_of_insert_dir [of env "0x1C0" D is_reg es ?c] segs_joined [OF pp(1)]
      by (simp add: fs1)
    have "map_of fs (pre @ [s]) = None"
      using Cons.prems(3) none False segs_joined [OF pp(1)]
      by (auto simp: tree_of_def entry_at_None proper_image [OF pp(1)] segs_eq_joined [OF pp(1)])
    then have dk: "distinct (map fst fs1)" using Cons.prems(6) by (simp add: fs1 map_of_eq_None_iff)
    have disj: "insert ?c D \<inter> be_name ` set es = {}" using Cons.prems(8) none notname by auto
    have set: "set (?c # dirs) = insert ''.'' (insert ?c D)" "distinct (?c # dirs)"
      using Cons.prems(4,5) False nd by auto
    from Cons.IH [OF m(2) pp(2) t set dk sub disj] disj show ?thesis by auto
  qed
qed auto

lemma ensure_segments_ok:
  assumes "no_fault env" and "accepted es"
    and "proper_path (pre @ ss)" and "map_of fs = tree_of env 0x1C0 D is_reg es"
    and "set dirs = insert ''.'' D" and "steps [] pre \<subseteq> D" and "steps pre ss \<inter> be_name ` set es = {}"
  shows "\<exists>r. ensure_segments env (types_of es) (joined pre) ss (fs, dirs) = Inr r"
  using assms(3-7)
proof (induction ss arbitrary: pre fs dirs D)
  case (Cons s ss)
  let ?c = "joined (pre @ [s])"
  have pp: "proper_path (pre @ [s])" "proper_path ((pre @ [s]) @ ss)" using Cons.prems(1) by auto
  have nd: "?c \<noteq> ''.''" using joined_not_dot [OF pp(1)] by simp
  have sub: "steps [] (pre @ [s]) \<subseteq> insert ?c D" using Cons.prems(4) by (auto simp: steps_snoc)
  have nn: "?c \<notin> be_name ` set es" "steps (pre @ [s]) ss \<inter> be_name ` set es = {}" using Cons.prems(5) by auto
  have nolink: "map_of (types_of es) ?c \<noteq> Some TypeSymlink"
  proof -
    have "\<not> (\<exists>e \<in> set es. be_name e = ?c \<and> is_link e)" using nn(1) by force
    then show ?thesis using types_link [of es ?c] assms(2) by (simp add: accepted_def)
  qed
  show ?case
  proof (cases "?c \<in> D")
    case True
    then show ?thesis
      using Cons.IH [OF pp(2) Cons.prems(2,3) _ nn(2)] sub Cons.prems(3) current_eq [OF Cons.prems(1)] nolink
      by (simp add: Let_def insert_absorb)
  next
    case False
    let ?fs1 = "(pre @ [s], dir_node env (pre @ [s]) 0x1C0) # fs"
    have "\<not> (\<exists>e \<in> set es. is_reg e \<and> be_name e = ?c)" using nn(1) by force
    then have m: "root_mkdir env ?c fs = Inr ?fs1"
      using mkdir_current [OF Cons.prems(2) pp(1) Cons.prems(4) False] assms(1) by (simp add: no_fault_def)
    have t: "map_of ?fs1 = tree_of env 0x1C0 (insert ?c D) is_reg es"
      using Cons.prems(2) tree_of_insert_dir [of env "0x1C0" D is_reg es ?c] segs_joined [OF pp(1)] by simp
    have "set (?c # dirs) = insert ''.'' (insert ?c D)" using Cons.prems(3) by auto
    from Cons.IH [OF pp(2) t this sub nn(2)] m False nd nolink Cons.prems(3) current_eq [OF Cons.prems(1)]
    show ?thesis by (simp add: Let_def)
  qed
qed simp

text \<open>All parents of a valid name.\<close>

lemma parents_cases:
  assumes "validateRelativePath name"
  obtains (top) "above (segs name) = {}" "path_dir name = ''.''"
  | (below) xs where "above (segs name) = steps [] xs" "path_dir name \<noteq> ''.''" "segs (path_dir name) = xs"
      "proper_path ([] @ xs)"
proof -
  have pr: "proper_path (segs name)" "segs name \<noteq> []" using relative_proper [OF assms] by auto
  obtain xs x where xs: "segs name = xs @ [x]" using pr(2) by (cases "segs name" rule: rev_cases) auto
  have dir: "path_dir name = (if xs = [] then ''.'' else joined xs)"
    using path_dir_segments [OF pr] unfolding join_split by (simp add: xs)
  show thesis
  proof (cases "xs = []")
    case True
    then show thesis using top dir xs by (simp add: above_def)
  next
    case False
    have p: "proper_path xs" using pr(1) xs by simp
    then show thesis
      using below [of xs] dir False joined_not_dot [OF p False] segs_joined [OF p False] xs
      by (simp add: above_snoc)
  qed
qed

lemma parents_Inr:
  assumes "ensureRootFSParents env (path_dir name) (types_of es) (fs, dirs) = Inr (fs', dirs')"
    and "validateRelativePath name" and "map_of fs = tree_of env 0x1C0 D is_reg es"
    and "set dirs = insert ''.'' D" and "distinct dirs" and "distinct (map fst fs)"
    and "D \<inter> be_name ` set es = {}" and "accepted es"
  shows "map_of fs' = tree_of env 0x1C0 (D \<union> above (segs name)) is_reg es \<and>
    set dirs' = insert ''.'' (D \<union> above (segs name)) \<and> distinct dirs' \<and> distinct (map fst fs') \<and>
    above (segs name) \<inter> be_name ` set es = {}"
  using assms(2)
proof (cases rule: parents_cases)
  case top
  then show ?thesis using assms by (simp add: ensureRootFSParents_def)
next
  case (below xs)
  have "ensure_segments env (types_of es) (joined []) xs (fs, dirs) = Inr (fs', dirs')"
    using assms(1) below by (simp add: ensureRootFSParents_def)
  from ensure_segments_Inr [OF this below(4) assms(3-6) _ assms(7,8)] show ?thesis
    unfolding below(1) by simp
qed

lemma parents_ok:
  assumes "no_fault env" and "accepted es" and "validateRelativePath name"
    and "map_of fs = tree_of env 0x1C0 D is_reg es" and "set dirs = insert ''.'' D"
    and "above (segs name) \<inter> be_name ` set es = {}"
  shows "\<exists>r. ensureRootFSParents env (path_dir name) (types_of es) (fs, dirs) = Inr r"
  using assms(3)
proof (cases rule: parents_cases)
  case (below xs)
  then show ?thesis
    using ensure_segments_ok [OF assms(1,2) below(4) assms(4,5)] assms(6)
    by (simp add: ensureRootFSParents_def)
qed (simp add: ensureRootFSParents_def)

section \<open>Extending a root filesystem by its next entry\<close>

lemma prefix_less: "(x :: bytes) < x @ c # r"
  by (induction x) auto

lemma above_less: "proper_path (segs n) \<Longrightarrow> x \<in> above (segs n) \<Longrightarrow> x < n"
proof -
  assume p: "proper_path (segs n)" and "x \<in> above (segs n)"
  then obtain k where k: "0 < k" "k < length (segs n)" "x = joined (take k (segs n))" by (auto simp: above_def)
  have "joined (xs @ y # ys) = joined xs @ slash # joined (y # ys)" if "xs \<noteq> []" for xs y ys
    using that by (induction xs rule: induct_list012) auto
  from this [of "take k (segs n)" "segs n ! k" "drop (Suc k) (segs n)"]
  have "joined (take k (segs n) @ drop k (segs n)) = x @ slash # joined (drop k (segs n))"
    using k by (simp add: Cons_nth_drop_Suc)
  then have "n = x @ slash # joined (drop k (segs n))" by simp
  then show "x < n" using prefix_less by metis
qed

lemma implied_snoc: "implied_dirs (names @ [n]) = implied_dirs names \<union> above (segs n)"
  by (auto simp: implied_dirs_def)

lemma rootfs_ok_snoc:
  "rootfs_ok (es @ [e]) \<longleftrightarrow> rootfs_ok es \<and> entry_ok e \<and> (es \<noteq> [] \<longrightarrow> be_name (last es) < be_name e) \<and>
     sum_list (map be_size es) + be_size e \<le> maximumRootFSSize \<and>
     above (segs (be_name e)) \<inter> be_name ` set es = {} \<and>
     int (length es) + 1 + int (card (implied_dirs (map be_name es) \<union> above (segs (be_name e)))) \<le> maximumRootFSItems"
  (is "?l \<longleftrightarrow> ?r")
proof -
  have le_last: "x \<le> be_name (last es)" if "sorted_wrt (<) (map be_name es)" "x \<in> be_name ` set es" for x
    using sorted_le_last [of "map be_name es" x] that by (cases "es = []") (auto simp: last_map)
  have sorted: "sorted_wrt (<) (map be_name (es @ [e])) \<longleftrightarrow>
      sorted_wrt (<) (map be_name es) \<and> (es \<noteq> [] \<longrightarrow> be_name (last es) < be_name e)"
    using le_last by (auto simp: sorted_wrt_append) (meson imageI le_less_trans)
  have pr: "proper_path (segs (be_name d))" if "entry_ok d" for d
    using that relative_proper by (simp add: entry_ok_def)
  have fresh: "be_name e \<notin> implied_dirs (map be_name es) \<union> above (segs (be_name e))"
    if "list_all entry_ok (es @ [e])" "sorted_wrt (<) (map be_name (es @ [e]))"
    using that above_less pr by (fastforce simp: implied_dirs_def sorted_wrt_append list_all_iff)
  have pos: "entry_ok d \<Longrightarrow> 0 \<le> be_size d" for d by (auto simp: entry_ok_def)
  have mono: "card (implied_dirs (map be_name es)) \<le> card (implied_dirs (map be_name es) \<union> above (segs (be_name e)))"
    using finite_implied [of "map be_name es @ [be_name e]"] unfolding implied_snoc
    by (intro card_mono) auto
  show ?thesis
  proof
    assume ?l
    then show ?r using sorted pos mono unfolding rootfs_ok_def map_append list.map implied_snoc by fastforce
  next
    assume ?r
    then show ?l using sorted fresh unfolding rootfs_ok_def map_append list.map implied_snoc by auto
  qed
qed

lemma rootfs_ok_prefix: "rootfs_ok (es @ ds) \<Longrightarrow> rootfs_ok es"
proof (induction ds rule: rev_induct)
  case (snoc d ds)
  then show ?case using rootfs_ok_snoc [of "es @ ds" d] by simp
qed simp

lemma rootfs_ok_accepted: "rootfs_ok es \<Longrightarrow> accepted es"
proof -
  assume "rootfs_ok es"
  then have "sorted_wrt (<) (map be_name es)" "list_all entry_ok es" by (auto simp: rootfs_ok_def)
  then show ?thesis
    unfolding accepted_def using strict_sorted_iff [of "map be_name es"]
    by (auto simp: list_all_iff entry_ok_def is_reg_def is_link_def)
qed

section \<open>The loop\<close>

definition entry_of :: "tar_header \<Rightarrow> bytes \<Rightarrow> rootfsBuildEntry" where
  "entry_of header contents =
     (if th_Typeflag header = TypeReg
      then \<lparr>be_name = th_Name header, be_typeFlag = TypeReg, be_mode = th_Mode header,
        be_size = th_Size header, be_linkName = [], be_spool = take (nat (th_Size header)) contents\<rparr>
      else \<lparr>be_name = th_Name header, be_typeFlag = TypeSymlink, be_mode = 0x16D,
        be_size = 0, be_linkName = th_Linkname header, be_spool = []\<rparr>)"

abbreviation dirs_of :: "rootfsBuildEntry list \<Rightarrow> bytes set" where
  "dirs_of es \<equiv> implied_dirs (map be_name es)"

definition links_of :: "rootfsBuildEntry list \<Rightarrow> (bytes \<times> bytes) list" where
  "links_of es = map (\<lambda>e. (be_name e, be_linkName e)) (filter is_link es)"

definition loop_inv :: "inst_env \<Rightarrow> extract_state \<Rightarrow> rootfsBuildEntry list \<Rightarrow> bool" where
  "loop_inv env st es \<longleftrightarrow> rootfs_ok es \<and>
     xs_last st = (if es = [] then [] else be_name (last es)) \<and> xs_count st = int (length es) \<and>
     xs_bytes st = sum_list (map be_size es) \<and> xs_types st = types_of es \<and> xs_links st = links_of es \<and>
     xs_canon st = rootfs_archive es \<and> set (xs_dirs st) = insert ''.'' (dirs_of es) \<and>
     distinct (xs_dirs st) \<and> distinct (map fst (xs_fs st)) \<and>
     map_of (xs_fs st) = tree_of env 0x1C0 (dirs_of es) is_reg es"

lemma tree_of_snoc:
  assumes "\<not> (\<exists>d \<in> set es. P d \<and> be_name d = be_name e)" and "be_name e \<notin> D"
  shows "tree_of env m D P (es @ [e]) =
    (if P e then (tree_of env m D P es)(segs (be_name e) \<mapsto> entry_node e) else tree_of env m D P es)"
proof
  fix p
  have "entry_at P es (segs (be_name e)) = None" using assms(1) by (auto simp: entry_at_None)
  then show "tree_of env m D P (es @ [e]) p =
    (if P e then (tree_of env m D P es)(segs (be_name e) \<mapsto> entry_node e) else tree_of env m D P es) p"
    using assms(2) by (auto simp: tree_of_def entry_at_snoc split: option.splits)
qed

lemma tree_of_snoc_not: "\<not> P e \<Longrightarrow> tree_of env m D P (es @ [e]) = tree_of env m D P es"
  by (auto simp: tree_of_def entry_at_snoc fun_eq_iff split: option.splits)

lemma dirs_proper: "rootfs_ok es \<Longrightarrow> d \<in> dirs_of es \<Longrightarrow> proper_path (segs d) \<and> above (segs d) \<subseteq> dirs_of es \<and> d \<noteq> ''.''"
proof -
  assume ok: "rootfs_ok es" and "d \<in> dirs_of es"
  then obtain e k where e: "e \<in> set es" "0 < k" "k < length (segs (be_name e))" "d = joined (take k (segs (be_name e)))"
    by (auto simp: implied_dirs_def above_def)
  have pr: "proper_path (segs (be_name e))"
    using ok e(1) relative_proper by (auto simp: rootfs_ok_def list_all_iff entry_ok_def)
  have ne: "take k (segs (be_name e)) \<noteq> []" using e(2) by simp
  have sd: "segs d = take k (segs (be_name e))" using segs_joined [OF proper_path_take [OF pr] ne] e(4) by simp
  have "above (segs d) \<subseteq> above (segs (be_name e))"
    unfolding sd using e(3) by (auto simp: above_def min_def)
  moreover have "d \<noteq> ''.''" using joined_not_dot [OF proper_path_take [OF pr] ne] e(4) by simp
  ultimately show ?thesis using sd pr e(1) by (auto simp: implied_dirs_def)
qed

lemma dirs_length:
  assumes a: "rootfs_ok es" "distinct dirs" "set dirs = insert ''.'' (dirs_of es \<union> A)" "finite A" "''.'' \<notin> A"
  shows "length dirs = Suc (card (dirs_of es \<union> A))"
proof -
  have "''.'' \<notin> dirs_of es \<union> A" using dirs_proper [OF a(1)] a(5) by blast
  then have "card (insert ''.'' (dirs_of es \<union> A)) = Suc (card (dirs_of es \<union> A))"
    using a(4) by (intro card_insert_disjoint) simp_all
  then show ?thesis using distinct_card [OF a(2)] a(3) by simp
qed

lemma above_dot: "validateRelativePath n \<Longrightarrow> finite (above (segs n)) \<and> ''.'' \<notin> above (segs n)"
proof -
  assume v: "validateRelativePath n"
  have pr: "proper_path (segs n)" using relative_proper [OF v] by simp
  have "finite (above (segs n))" using finite_implied [of "[n]"] by (simp add: implied_dirs_def)
  moreover have "''.'' \<notin> above (segs n)"
  proof
    assume "''.'' \<in> above (segs n)"
    then obtain k where k: "0 < k" "''.'' = joined (take k (segs n))" by (auto simp: above_def)
    then show False using joined_not_dot [OF proper_path_take [OF pr, of k]] by simp
  qed
  ultimately show ?thesis by simp
qed

text \<open>What the checks before the type switch leave to the branches.\<close>

definition checked :: "inst_env \<Rightarrow> extract_state \<Rightarrow> bytes \<Rightarrow> rootfsBuildEntry list \<Rightarrow> bool" where
  "checked env st name es \<longleftrightarrow> rootfs_ok es \<and> validateRelativePath name \<and>
     (es \<noteq> [] \<longrightarrow> be_name (last es) < name) \<and> above (segs name) \<inter> be_name ` set es = {} \<and>
     int (length es) + 1 + int (card (dirs_of es \<union> above (segs name))) \<le> maximumRootFSItems \<and>
     xs_last st = name \<and> xs_count st = int (length es) + 1 \<and> xs_bytes st = sum_list (map be_size es) \<and>
     xs_types st = types_of es \<and> xs_links st = links_of es \<and> xs_canon st = rootfs_archive es \<and>
     set (xs_dirs st) = insert ''.'' (dirs_of es \<union> above (segs name)) \<and> distinct (xs_dirs st) \<and>
     distinct (map fst (xs_fs st)) \<and>
     map_of (xs_fs st) = tree_of env 0x1C0 (dirs_of es \<union> above (segs name)) is_reg es"

lemma extract_checks_Inr:
  assumes "extract_checks env header st = Inr st1" and "loop_inv env st es"
  shows "checked env st1 (th_Name header) es"
proof -
  let ?n = "th_Name header"
  note inv = assms(2) [unfolded loop_inv_def]
  have v: "validateRelativePath ?n" and ord: "es \<noteq> [] \<longrightarrow> be_name (last es) < ?n"
    and p: "\<exists>fs dirs. ensureRootFSParents env (path_dir ?n) (types_of es) (xs_fs st, xs_dirs st) = Inr (fs, dirs) \<and>
      int (length es) + int (length dirs) \<le> maximumRootFSItems \<and>
      st1 = st\<lparr>xs_fs := fs, xs_dirs := dirs, xs_last := ?n, xs_count := int (length es) + 1\<rparr>"
    using assms(1) inv relative_proper [of "be_name (last es)"]
    by (auto simp: extract_checks_def rootfs_ok_def entry_ok_def list_all_iff split: if_splits sum.splits)
  from p obtain fs dirs where f: "ensureRootFSParents env (path_dir ?n) (types_of es) (xs_fs st, xs_dirs st) = Inr (fs, dirs)"
      "int (length es) + int (length dirs) \<le> maximumRootFSItems"
      "st1 = st\<lparr>xs_fs := fs, xs_dirs := dirs, xs_last := ?n, xs_count := int (length es) + 1\<rparr>" by blast
  have disj: "dirs_of es \<inter> be_name ` set es = {}" using inv by (simp add: rootfs_ok_def)
  have acc: "accepted es" using inv rootfs_ok_accepted by blast
  have r: "map_of fs = tree_of env 0x1C0 (dirs_of es \<union> above (segs ?n)) is_reg es \<and>
      set dirs = insert ''.'' (dirs_of es \<union> above (segs ?n)) \<and> distinct dirs \<and> distinct (map fst fs) \<and>
      above (segs ?n) \<inter> be_name ` set es = {}"
    by (rule parents_Inr [OF f(1) v _ _ _ _ disj acc]) (use inv in auto)
  then have "length dirs = Suc (card (dirs_of es \<union> above (segs ?n)))"
    using dirs_length [of es dirs "above (segs ?n)"] inv above_dot [OF v] by auto
  then show ?thesis using r f v ord inv unfolding checked_def by auto
qed

lemma extract_checks_ok:
  assumes "no_fault env" and "loop_inv env st es" and "rootfs_ok (es @ [e])" and "header = entry_header e"
  shows "\<exists>st1. extract_checks env header st = Inr st1"
proof -
  let ?n = "be_name e"
  note inv = assms(2) [unfolded loop_inv_def]
  note nx = rootfs_ok_snoc [THEN iffD1, OF assms(3)]
  have v: "validateRelativePath ?n" using nx by (simp add: entry_ok_def)
  have n: "th_Name header = ?n" "th_Uid header = 0" "th_Gid header = 0" "th_ModTime header = 0"
    by (simp_all add: assms(4) entry_header_def canonicalTarHeader_def)
  have acc: "accepted es" using inv rootfs_ok_accepted by blast
  have "map_of (xs_fs st) = tree_of env 0x1C0 (dirs_of es) is_reg es" "set (xs_dirs st) = insert ''.'' (dirs_of es)"
    "above (segs ?n) \<inter> be_name ` set es = {}"
    using inv nx by auto
  from parents_ok [OF assms(1) acc v this] obtain fs dirs where
    f: "ensureRootFSParents env (path_dir ?n) (types_of es) (xs_fs st, xs_dirs st) = Inr (fs, dirs)" by auto
  have disj: "dirs_of es \<inter> be_name ` set es = {}" using inv by (simp add: rootfs_ok_def)
  have "set dirs = insert ''.'' (dirs_of es \<union> above (segs ?n)) \<and> distinct dirs"
    using parents_Inr [OF f v _ _ _ _ disj acc] inv by auto
  then have "length dirs = Suc (card (dirs_of es \<union> above (segs ?n)))"
    using dirs_length [of es dirs "above (segs ?n)"] inv above_dot [OF v] by auto
  then show ?thesis
    using f v n nx inv unfolding extract_checks_def by (auto simp: Let_def)
qed

text \<open>The invariant after a branch has added the entry \<open>e\<close>.\<close>

lemma loop_inv_snoc:
  assumes c: "checked env st1 (be_name e) es" and e: "entry_ok e"
    and b: "sum_list (map be_size es) + be_size e \<le> maximumRootFSSize"
    and fs: "distinct (map fst (xs_fs st2))"
      "map_of (xs_fs st2) = tree_of env 0x1C0 (dirs_of es \<union> above (segs (be_name e))) is_reg (es @ [e])"
    and st: "xs_dirs st2 = xs_dirs st1" "xs_last st2 = xs_last st1" "xs_count st2 = xs_count st1"
      "xs_bytes st2 = xs_bytes st1 + be_size e" "xs_types st2 = (be_name e, be_typeFlag e) # xs_types st1"
      "xs_links st2 = xs_links st1 @ (if is_link e then [(be_name e, be_linkName e)] else [])"
      "xs_canon st2 = xs_canon st1 @ [(entry_header e, if be_typeFlag e = TypeReg then be_spool e else [])]"
  shows "loop_inv env st2 (es @ [e])"
proof -
  have "rootfs_ok (es @ [e])" unfolding rootfs_ok_snoc using c e b by (auto simp: checked_def)
  moreover have "dirs_of (es @ [e]) = dirs_of es \<union> above (segs (be_name e))" by (simp add: implied_snoc)
  ultimately show ?thesis
    using c fs st unfolding loop_inv_def checked_def
    by (auto simp: types_of_def links_of_def rootfs_archive_def)
qed

lemma create_checked:
  assumes "checked env st name es"
  shows "root_create env node name (xs_fs st) =
    (if name \<in> dirs_of es \<union> above (segs name) \<or> (\<exists>e \<in> set es. is_reg e \<and> be_name e = name)
     then Inl (RootFailed ErrExist name) else Inr ((segs name, node (segs name)) # xs_fs st))"
  using root_create_below [of "xs_fs st" env "0x1C0" "dirs_of es \<union> above (segs name)" is_reg es name node] assms
    relative_proper [of name]
  unfolding checked_def by auto

lemma extract_file_Inr:
  assumes "extract_file env header contents st1 = Inr st2" and c: "checked env st1 (th_Name header) es"
  shows "loop_inv env st2 (es @ [entry_of header contents])"
proof -
  let ?e = "entry_of header contents" and ?n = "th_Name header"
  let ?data = "take (nat (th_Size header)) contents"
  have t: "th_Typeflag header = TypeReg" "th_Mode header = 0x124 \<or> th_Mode header = 0x16D" "0 \<le> th_Size header"
    "th_Size header \<le> maximumRootFSFile" "xs_bytes st1 + th_Size header \<le> maximumRootFSSize"
    "th_Size header \<le> int (length contents)"
    and w: "\<exists>fs. writeInstalledBytes env ?n ?data (th_Mode header) (xs_fs st1) = Inr fs \<and>
      st2 = st1\<lparr>xs_fs := fs, xs_bytes := xs_bytes st1 + th_Size header, xs_types := (?n, TypeReg) # xs_types st1,
        xs_canon := xs_canon st1 @ [(canonicalTarHeader ?n TypeReg (th_Mode header) (th_Size header) [], ?data)]\<rparr>"
    using assms(1) by (auto simp: extract_file_def Let_def split: if_splits sum.splits)
  have e: "be_name ?e = ?n" "is_reg ?e" "\<not> is_link ?e" "entry_node ?e = file_node ?data (th_Mode header)"
    "be_size ?e = th_Size header" "be_typeFlag ?e = TypeReg" "be_spool ?e = ?data"
    "entry_header ?e = canonicalTarHeader ?n TypeReg (th_Mode header) (th_Size header) []"
    using t(1) by (simp_all add: entry_of_def is_reg_def is_link_def entry_node_def entry_header_def)
  from w obtain fs where fs: "writeInstalledBytes env ?n ?data (th_Mode header) (xs_fs st1) = Inr fs"
      "st2 = st1\<lparr>xs_fs := fs, xs_bytes := xs_bytes st1 + th_Size header, xs_types := (?n, TypeReg) # xs_types st1,
        xs_canon := xs_canon st1 @ [(canonicalTarHeader ?n TypeReg (th_Mode header) (th_Size header) [], ?data)]\<rparr>" by blast
  have fsd: "fs = (segs ?n, file_node ?data (th_Mode header)) # xs_fs st1"
    and nD: "?n \<notin> dirs_of es \<union> above (segs ?n)" and nE: "\<not> (\<exists>d \<in> set es. is_reg d \<and> be_name d = ?n)"
    using fs(1) create_checked [OF c] by (auto simp: writeInstalledBytes_def split: if_splits)
  have t2: "map_of fs = tree_of env 0x1C0 (dirs_of es \<union> above (segs ?n)) is_reg (es @ [?e])"
    using tree_of_snoc [of es is_reg ?e "dirs_of es \<union> above (segs ?n)" env "0x1C0"] nD nE e c
    by (simp add: fsd checked_def)
  have "map_of (xs_fs st1) (segs ?n) = None"
    using c nD nE by (auto simp: checked_def tree_of_def entry_at_None)
  then have d: "distinct (map fst fs)" using c by (simp add: fsd checked_def map_of_eq_None_iff)
  have v: "validateRelativePath ?n" and bs: "xs_bytes st1 = sum_list (map be_size es)" using c by (auto simp: checked_def)
  have ok: "entry_ok ?e" using t v by (simp add: entry_ok_def entry_of_def)
  show ?thesis
    by (rule loop_inv_snoc [of env st1]) (use c ok bs t e d t2 fs(2) in simp_all)
qed

lemma extract_link_Inr:
  assumes "extract_link env header st1 = Inr st2" and c: "checked env st1 (th_Name header) es"
    and "th_Typeflag header = TypeSymlink"
  shows "loop_inv env st2 (es @ [entry_of header contents])"
proof -
  let ?e = "entry_of header contents" and ?n = "th_Name header"
  have t: "validateSymlink ?n (th_Linkname header)"
    and st: "st2 = st1\<lparr>xs_links := xs_links st1 @ [(?n, th_Linkname header)],
        xs_types := (?n, TypeSymlink) # xs_types st1,
        xs_canon := xs_canon st1 @ [(canonicalTarHeader ?n TypeSymlink 0x16D 0 (th_Linkname header), [])]\<rparr>"
    using assms(1) by (auto simp: extract_link_def Let_def split: if_splits)
  have e: "be_name ?e = ?n" "\<not> is_reg ?e" "is_link ?e" "be_size ?e = 0" "be_typeFlag ?e = TypeSymlink"
    "be_linkName ?e = th_Linkname header"
    "entry_header ?e = canonicalTarHeader ?n TypeSymlink 0x16D 0 (th_Linkname header)"
    using assms(3) by (simp_all add: entry_of_def is_reg_def is_link_def entry_header_def)
  have v: "validateRelativePath ?n" using c by (simp add: checked_def)
  have ok: "entry_ok ?e" using t v assms(3) by (simp add: entry_ok_def entry_of_def)
  have b: "sum_list (map be_size es) \<le> maximumRootFSSize" using c by (simp add: checked_def rootfs_ok_def)
  have "map_of (xs_fs st2) = tree_of env 0x1C0 (dirs_of es \<union> above (segs ?n)) is_reg (es @ [?e])"
    using c tree_of_snoc_not [of is_reg ?e] e by (simp add: st checked_def)
  moreover have "distinct (map fst (xs_fs st2))" using c by (simp add: st checked_def)
  ultimately show ?thesis
    by (intro loop_inv_snoc [of env st1]) (use c ok b e st in simp_all)
qed

lemma rootfs_loop_Inr:
  "rootfs_loop env items st = Inr st' \<Longrightarrow> loop_inv env st es \<Longrightarrow> \<exists>ds. loop_inv env st' (es @ ds)"
proof (induction env items st arbitrary: es rule: rootfs_loop.induct)
  case (1 env st)
  then show ?case by (metis append_Nil2 rootfs_loop.simps(1) sum.inject(2))
next
  case (3 env header contents items st)
  obtain st1 where s1: "extract_checks env header st = Inr st1"
    using "3.prems"(1) by (auto split: sum.splits)
  note c = extract_checks_Inr [OF s1 "3.prems"(2)]
  define step where "step = (case th_Typeflag header of
      TypeReg \<Rightarrow> extract_file env header contents st1 | TypeRegA \<Rightarrow> extract_file env header contents st1
    | TypeSymlink \<Rightarrow> extract_link env header st1 | _ \<Rightarrow> Inl (UnsupportedType (th_Name header)))"
  obtain st2 where s2: "step = Inr st2" "rootfs_loop env items st2 = Inr st'"
    using "3.prems"(1) s1 unfolding step_def by (auto split: sum.splits)
  have "loop_inv env st2 (es @ [entry_of header contents])"
    using s2(1) extract_file_Inr [OF _ c] extract_link_Inr [OF _ c]
    unfolding step_def by (auto split: tar_type.splits)
  from "3.IH" [OF s1 s2(1) [unfolded step_def] s2(2) this] show ?case by auto
qed simp

lemma entry_of_header: "entry_ok e \<Longrightarrow> entry_of (entry_header e) (if be_typeFlag e = TypeReg then be_spool e else []) = e"
  by (cases e) (auto simp: entry_ok_def entry_of_def entry_header_def canonicalTarHeader_def)

lemma extract_branch_ok:
  assumes "no_fault env" and c: "checked env st (be_name e) es" and ok: "rootfs_ok (es @ [e])"
  shows "(be_typeFlag e = TypeReg \<longrightarrow> (\<exists>st'. extract_file env (entry_header e) (be_spool e) st = Inr st')) \<and>
    (be_typeFlag e = TypeSymlink \<longrightarrow> (\<exists>st'. extract_link env (entry_header e) st = Inr st'))"
proof -
  note nx = rootfs_ok_snoc [THEN iffD1, OF ok]
  have eok: "entry_ok e" using nx by simp
  have "be_name e \<notin> dirs_of (es @ [e])" "be_name e \<notin> be_name ` set es"
    using ok strict_sorted_iff [of "map be_name (es @ [e])"] unfolding rootfs_ok_def by auto
  then have free: "be_name e \<notin> dirs_of es \<union> above (segs (be_name e))" "\<not> (\<exists>d \<in> set es. is_reg d \<and> be_name d = be_name e)"
    by (auto simp: implied_snoc image_iff)
  have b: "xs_bytes st + be_size e \<le> maximumRootFSSize" using nx c by (simp add: checked_def)
  have "be_typeFlag e = TypeReg \<Longrightarrow> ?thesis"
    using create_checked [OF c] free b eok assms(1)
    by (auto simp: extract_file_def writeInstalledBytes_def entry_header_def canonicalTarHeader_def entry_ok_def
        no_fault_def Let_def)
  moreover have "be_typeFlag e = TypeSymlink \<Longrightarrow> ?thesis"
    using eok assms(1)
    by (auto simp: extract_link_def entry_header_def canonicalTarHeader_def entry_ok_def no_fault_def Let_def)
  ultimately show ?thesis using eok by (auto simp: entry_ok_def)
qed

definition archive_items :: "(tar_header \<times> bytes) list \<Rightarrow> tar_item list" where
  "archive_items archive = map (\<lambda>(header, contents). TarEntry header contents) archive"

lemma rootfs_loop_ok:
  "no_fault env \<Longrightarrow> loop_inv env st es \<Longrightarrow> rootfs_ok (es @ ds) \<Longrightarrow>
   \<exists>st'. rootfs_loop env (archive_items (rootfs_archive ds)) st = Inr st' \<and> loop_inv env st' (es @ ds)"
proof (induction ds arbitrary: st es)
  case Nil
  then show ?case by (simp add: rootfs_archive_def archive_items_def)
next
  case (Cons e ds)
  let ?h = "entry_header e" and ?c = "if be_typeFlag e = TypeReg then be_spool e else []"
  have ok: "rootfs_ok (es @ [e])" "entry_ok e"
    using Cons.prems(3) rootfs_ok_prefix [of "es @ [e]" ds] rootfs_ok_snoc by auto
  have h: "th_Name ?h = be_name e" "th_Typeflag ?h = be_typeFlag e"
    by (simp_all add: entry_header_def canonicalTarHeader_def)
  obtain st1 where s1: "extract_checks env ?h st = Inr st1"
    using extract_checks_ok [OF Cons.prems(1,2) ok(1) refl] by blast
  have c: "checked env st1 (th_Name ?h) es" by (rule extract_checks_Inr [OF s1 Cons.prems(2)])
  have inv: "loop_inv env st2 (es @ [e])"
    if "extract_file env ?h ?c st1 = Inr st2 \<or> be_typeFlag e = TypeSymlink \<and> extract_link env ?h st1 = Inr st2" for st2
    using that extract_file_Inr [OF _ c, of ?c st2] extract_link_Inr [OF _ c, of st2 ?c] h entry_of_header [OF ok(2)] by auto
  have "\<exists>st2. (be_typeFlag e = TypeReg \<and> extract_file env ?h ?c st1 = Inr st2 \<or>
      be_typeFlag e = TypeSymlink \<and> extract_link env ?h st1 = Inr st2) \<and> loop_inv env st2 (es @ [e])"
    using extract_branch_ok [OF Cons.prems(1) c [unfolded h(1)] ok(1)] ok(2) inv by (auto simp: entry_ok_def)
  then obtain st2 where s2: "be_typeFlag e = TypeReg \<and> extract_file env ?h ?c st1 = Inr st2 \<or>
      be_typeFlag e = TypeSymlink \<and> extract_link env ?h st1 = Inr st2" "loop_inv env st2 (es @ [e])" by blast
  have "rootfs_loop env (archive_items (rootfs_archive (e # ds))) st = rootfs_loop env (archive_items (rootfs_archive ds)) st2"
    using s1 s2(1) h by (auto simp: rootfs_archive_def archive_items_def)
  then show ?case using Cons.IH [OF Cons.prems(1) s2(2)] Cons.prems(3) by simp
qed

lemma loop_inv_start: "loop_inv env (start_state env) []"
  by (auto simp: loop_inv_def start_state_def rootfs_ok_def implied_dirs_def bundle_limits types_of_def
      links_of_def rootfs_archive_def tree_of_def entry_at_def fun_eq_iff)

text \<open>
  The loop accepts an archive exactly when its accepted entries form a root filesystem in the sense
  of the build.
\<close>

lemma rootfs_loop_start:
  "rootfs_loop env items (start_state env) = Inr st \<Longrightarrow> \<exists>es. loop_inv env st es"
  using rootfs_loop_Inr [OF _ loop_inv_start] by fastforce

section \<open>Symbolic links\<close>

lemma entry_at_Some:
  assumes "distinct (map be_name es)"
  shows "entry_at P es p = Some nd \<longleftrightarrow> (\<exists>e \<in> set es. P e \<and> segs (be_name e) = p \<and> nd = entry_node e)"
proof
  assume "entry_at P es p = Some nd"
  then show "\<exists>e \<in> set es. P e \<and> segs (be_name e) = p \<and> nd = entry_node e"
    by (auto simp: entry_at_def find_Some_iff)
next
  assume "\<exists>e \<in> set es. P e \<and> segs (be_name e) = p \<and> nd = entry_node e"
  then obtain e where e: "e \<in> set es" "P e" "segs (be_name e) = p" "nd = entry_node e" by blast
  then obtain d where d: "find (\<lambda>e. P e \<and> segs (be_name e) = p) es = Some d"
    by (cases "find (\<lambda>e. P e \<and> segs (be_name e) = p) es") (auto simp: find_None_iff)
  then have "d \<in> set es" "segs (be_name d) = p" by (auto simp: find_Some_iff)
  then have "d = e" using assms e by (auto simp: distinct_map inj_on_def)
  then show "entry_at P es p = Some nd" using d e by (simp add: entry_at_def)
qed

lemma tree_of_add:
  assumes "distinct (map be_name es)" and "e \<in> set es" and "be_name e \<notin> D"
  shows "(tree_of env m D P es)(segs (be_name e) \<mapsto> entry_node e) = tree_of env m D (\<lambda>d. P d \<or> d = e) es"
proof
  fix p
  have "entry_at (\<lambda>d. P d \<or> d = e) es p = (if p = segs (be_name e) then Some (entry_node e) else entry_at P es p)"
  proof (cases "p = segs (be_name e)")
    case True
    then show ?thesis using entry_at_Some [OF assms(1)] assms(2) by (auto intro!: bexI [of _ e])
  next
    case False
    have "entry_at (\<lambda>d. P d \<or> d = e) es p = Some nd \<longleftrightarrow> entry_at P es p = Some nd" for nd
      unfolding entry_at_Some [OF assms(1)] using False by auto
    then show ?thesis using False by (metis not_Some_eq)
  qed
  then show "((tree_of env m D P es)(segs (be_name e) \<mapsto> entry_node e)) p = tree_of env m D (\<lambda>d. P d \<or> d = e) es p"
    using assms(3) by (auto simp: tree_of_def)
qed

text \<open>The pending links are created below directories, so each lands at its own name.\<close>

lemma create_links_spec:
  assumes "rootfs_ok es"
  shows "set ls \<subseteq> set es \<Longrightarrow> distinct ls \<Longrightarrow> \<forall>l \<in> set ls. \<not> P l \<and> is_link l \<Longrightarrow>
    map_of fs = tree_of env m (dirs_of es) P es \<Longrightarrow> distinct (map fst fs) \<Longrightarrow>
    (no_fault env \<longrightarrow> (\<exists>fs'. create_links env (map (\<lambda>e. (be_name e, be_linkName e)) ls) fs = Inr fs')) \<and>
    (\<forall>fs'. create_links env (map (\<lambda>e. (be_name e, be_linkName e)) ls) fs = Inr fs' \<longrightarrow>
       map_of fs' = tree_of env m (dirs_of es) (\<lambda>e. P e \<or> e \<in> set ls) es \<and> distinct (map fst fs'))"
proof (induction ls arbitrary: P fs)
  case (Cons l ls)
  have dn: "distinct (map be_name es)" and free: "be_name l \<notin> dirs_of es"
    and v: "validateRelativePath (be_name l)" and ab: "above (segs (be_name l)) \<subseteq> dirs_of es"
    using assms Cons.prems(1) strict_sorted_iff [of "map be_name es"]
    by (auto simp: rootfs_ok_def list_all_iff entry_ok_def implied_dirs_def)
  have none: "\<not> (\<exists>e \<in> set es. P e \<and> be_name e = be_name l)"
    using dn Cons.prems(1,3) by (auto simp: distinct_map inj_on_def)
  let ?fs = "(segs (be_name l), link_node (be_linkName l)) # fs"
  have cr: "root_symlink env (be_linkName l) (be_name l) fs =
      (if ie_fault env (StSymlink (be_name l)) then Inl (InstallIO (StSymlink (be_name l))) else Inr ?fs)"
    using root_create_below [OF Cons.prems(4) _ ab] relative_proper [OF v] free none
    by (simp add: root_symlink_def)
  have "entry_node l = link_node (be_linkName l)"
    using Cons.prems(3) by (simp add: entry_node_def is_link_def)
  then have t: "map_of ?fs = tree_of env m (dirs_of es) (\<lambda>e. P e \<or> e = l) es"
    using tree_of_add [OF dn _ free, of env m P] Cons.prems(1,4) by simp
  have "map_of fs (segs (be_name l)) = None"
    using Cons.prems(4) free none by (auto simp: tree_of_def entry_at_None)
  then have dk: "distinct (map fst ?fs)" using Cons.prems(5) by (simp add: map_of_eq_None_iff)
  have ls: "set ls \<subseteq> set es" "distinct ls" "\<forall>k \<in> set ls. \<not> (P k \<or> k = l) \<and> is_link k"
    using Cons.prems(1-3) by auto
  note ih = Cons.IH [OF ls t dk]
  have eq: "(\<lambda>e. (P e \<or> e = l) \<or> e \<in> set ls) = (\<lambda>e. P e \<or> e \<in> set (l # ls))" by auto
  show ?case using ih unfolding eq by (simp add: cr no_fault_def)
qed simp

lemma tree_of_cong: "(\<And>e. e \<in> set es \<Longrightarrow> P e = Q e) \<Longrightarrow> tree_of env m D P es = tree_of env m D Q es"
proof -
  assume "\<And>e. e \<in> set es \<Longrightarrow> P e = Q e"
  then have "find (\<lambda>e. P e \<and> segs (be_name e) = p) es = find (\<lambda>e. Q e \<and> segs (be_name e) = p) es" for p
    by (intro find_cong) auto
  then show ?thesis by (simp add: tree_of_def entry_at_def fun_eq_iff)
qed

abbreviation complete_tree :: "inst_env \<Rightarrow> int \<Rightarrow> rootfsBuildEntry list \<Rightarrow> bytes list \<Rightarrow> tree_node option" where
  "complete_tree env m es \<equiv> tree_of env m (dirs_of es) (\<lambda>_. True) es"

lemma links_created:
  assumes "rootfs_ok es" and "map_of fs = tree_of env m (dirs_of es) is_reg es" and "distinct (map fst fs)"
  shows "no_fault env \<Longrightarrow> \<exists>fs'. create_links env (links_of es) fs = Inr fs'"
    and "create_links env (links_of es) fs = Inr fs' \<Longrightarrow> map_of fs' = complete_tree env m es \<and> distinct (map fst fs')"
proof -
  have d: "distinct es" using assms(1) strict_sorted_iff [of "map be_name es"]
    by (auto simp: rootfs_ok_def distinct_map)
  have a: "set (filter is_link es) \<subseteq> set es" "distinct (filter is_link es)"
    "\<forall>l \<in> set (filter is_link es). \<not> is_reg l \<and> is_link l"
    using d by (auto simp: is_reg_def is_link_def)
  note sp = create_links_spec [OF assms(1) a assms(2,3)]
  have "tree_of env m (dirs_of es) (\<lambda>e. is_reg e \<or> e \<in> set (filter is_link es)) es = complete_tree env m es"
    using rootfs_ok_accepted [OF assms(1)] by (intro tree_of_cong) (auto simp: accepted_def)
  then show "no_fault env \<Longrightarrow> \<exists>fs'. create_links env (links_of es) fs = Inr fs'"
    "create_links env (links_of es) fs = Inr fs' \<Longrightarrow> map_of fs' = complete_tree env m es \<and> distinct (map fst fs')"
    using sp by (auto simp: links_of_def)
qed

section \<open>The entrypoint\<close>

text \<open>The chain the build follows over the entries is the chain the installation follows in the tree.\<close>

lemma installed_hops_ok:
  assumes "rootfs_ok es" and "map_of fs = complete_tree env m es" and "no_fault env"
  shows "entrypoint_hops (map_of (rev (map (\<lambda>e. (be_name e, e)) es))) n cur = None \<Longrightarrow> validateRelativePath cur \<Longrightarrow>
    installed_hops env fs n cur = None"
proof (induction n arbitrary: cur)
  case (Suc n)
  have dn: "distinct (map be_name es)" and eok: "list_all entry_ok es" and dis: "dirs_of es \<inter> be_name ` set es = {}"
    using assms(1) strict_sorted_iff [of "map be_name es"] by (auto simp: rootfs_ok_def)
  obtain e where e: "map_of (rev (map (\<lambda>e. (be_name e, e)) es)) cur = Some e"
    using Suc.prems(1) by (auto split: option.splits)
  then have m: "e \<in> set es" "be_name e = cur" by (auto dest: map_of_SomeD)
  obtain xs x where xs: "segs cur = xs @ [x]" "proper_path (xs @ [x])"
    using relative_proper [OF Suc.prems(2)] by (cases "segs cur" rule: rev_cases) auto
  have "above (segs cur) \<subseteq> dirs_of es" using m by (auto simp: implied_dirs_def)
  then have "dirs_at fs [] xs" using tree_of_dirs [OF assms(2), of "[]" xs] xs by (simp add: above_snoc)
  then have w: "walk (ie_links env) fs [] (segs cur) = Inr (segs cur)" using walk_below [of fs xs x] xs by simp
  have "entry_at (\<lambda>_. True) es (segs cur) = Some (entry_node e)"
    using entry_at_Some [OF dn] m by auto
  then have "map_of fs (segs cur) = Some (entry_node e)"
    using assms(2) dis m by (auto simp: tree_of_def)
  then have l: "root_lstat env cur fs = Some (entry_node e)"
    using w assms(3) by (simp add: root_lstat_def no_fault_def)
  have "entry_ok e" using eok m(1) by (simp add: list_all_iff)
  then show ?case
    using Suc e l
    by (auto simp: entry_ok_def entry_node_def file_node_def link_node_def Let_def split: if_splits)
qed simp

section \<open>Reserved names, mountpoints and modes\<close>

definition reserved :: "bytes list" where
  "reserved = [''sandbox-init'', ''system-call-policy.json''] @ mountpoints"

definition unreserved :: "rootfsBuildEntry list \<Rightarrow> bool" where
  "unreserved es \<longleftrightarrow> (\<forall>e \<in> set es. hd (segs (be_name e)) \<notin> set reserved)"

definition tops :: "bytes list \<Rightarrow> bytes list set" where
  "tops ns = {[n] | n. n \<in> set ns}"

lemma tops_simps [simp]:
  "p \<in> tops [] \<longleftrightarrow> False" "p \<in> tops (n # ns) \<longleftrightarrow> p = [n] \<or> p \<in> tops ns" "[k] \<in> tops ns \<longleftrightarrow> k \<in> set ns"
  by (auto simp: tops_def)

definition installed_tree ::
  "inst_env \<Rightarrow> int \<Rightarrow> rootfsBuildEntry list \<Rightarrow> bytes \<Rightarrow> bytes \<Rightarrow> bytes list \<Rightarrow> tree_node option" where
  "installed_tree env m es initBytes policyBytes p =
     (if p = [''sandbox-init''] then Some (file_node initBytes 0x16D)
      else if p = [''system-call-policy.json''] then Some (file_node policyBytes 0x124)
      else if p \<in> tops mountpoints then Some (dir_node env p m)
      else complete_tree env m es p)"

lemma reserved_names:
  "list_all (\<lambda>n. proper_segment n \<and> slash \<notin> set n \<and> split_on slash n = [n]) reserved"
  by code_simp

lemma reservedD: "n \<in> set reserved \<Longrightarrow> proper_segment n \<and> slash \<notin> set n \<and> segs n = [n]"
  using reserved_names by (auto simp: list_all_iff)

lemma root_create_top:
  assumes "n \<in> set reserved"
  shows "root_create env node n fs =
    (if map_of fs [n] \<noteq> None then Inl (RootFailed ErrExist n) else Inr (([n], node [n]) # fs))"
  using reservedD [OF assms] by (simp add: root_create_def proper_segment_def)

lemma reserved_above:
  assumes "n \<in> set reserved" and "proper_path ss" and "ss \<noteq> []"
  shows "n \<in> above ss \<or> ss = [n] \<longleftrightarrow> hd ss = n"
proof
  assume "n \<in> above ss \<or> ss = [n]"
  then show "hd ss = n"
  proof
    assume "n \<in> above ss"
    then obtain k where k: "0 < k" "n = joined (take k ss)" by (auto simp: above_def)
    then have "take k ss = [n]"
      using segs_joined [OF proper_path_take [OF assms(2), of k]] reservedD [OF assms(1)] assms(3) by simp
    then show "hd ss = n" by (metis hd_take k(1) list.sel(1))
  qed simp
next
  assume hd: "hd ss = n"
  show "n \<in> above ss \<or> ss = [n]"
  proof (cases "length ss = 1")
    case True
    then show ?thesis using hd by (cases ss) auto
  next
    case False
    have "take 1 ss = [n]" "1 < length ss" using hd assms(3) False by (cases ss; simp)+
    then show ?thesis by (auto simp: above_def intro!: exI [of _ 1])
  qed
qed

lemma reserved_free:
  assumes "n \<in> set reserved" and "rootfs_ok es"
  shows "complete_tree env m es [n] = None \<longleftrightarrow> (\<forall>e \<in> set es. hd (segs (be_name e)) \<noteq> n)"
proof -
  have n: "segs n = [n]" using reservedD [OF assms(1)] by simp
  have "n \<in> above (segs (be_name e)) \<or> segs (be_name e) = [n] \<longleftrightarrow> hd (segs (be_name e)) = n" if "e \<in> set es" for e
    using reserved_above [OF assms(1), of "segs (be_name e)"] that assms(2) relative_proper [of "be_name e"]
    by (auto simp: rootfs_ok_def list_all_iff entry_ok_def)
  moreover have "[n] \<in> segs ` dirs_of es \<longleftrightarrow> (\<exists>e \<in> set es. n \<in> above (segs (be_name e)))"
    using segs_image [of n "dirs_of es"] n by (simp add: implied_dirs_def)
  ultimately show ?thesis by (auto simp: tree_of_def entry_at_None)
qed

section \<open>Making the directories read-only\<close>

definition resolves :: "tree \<Rightarrow> bytes \<Rightarrow> bool" where
  "resolves fs n \<longleftrightarrow> n = ''.'' \<or> proper_path (segs n) \<and> dirs_at fs [] (segs n)"

definition dir_path :: "bytes \<Rightarrow> bytes list" where
  "dir_path n = (if n = ''.'' then [] else segs n)"

lemma chmod_dir_eq:
  assumes "resolves fs n"
  shows "chmod_dir env n fs =
    (if ie_fault env (StChmodDir n) then Inl (InstallIO (StChmodDir n))
     else Inr (map (\<lambda>(q, nd). (q, if q = dir_path n then nd\<lparr>tn_mode := 0x16D\<rparr> else nd)) fs))"
proof -
  have "walk (ie_links env) fs [] (segs n @ [''.'']) = Inr (dir_path n)"
    using assms walk_dir [of fs "segs n"] by (auto simp: resolves_def dir_path_def)
  then show ?thesis by (simp add: chmod_dir_def)
qed

lemma map_of_chmod:
  "map_of (map (\<lambda>(q, nd). (q, if q = d then f nd else nd)) fs) p =
   map_option (\<lambda>nd. if p = d then f nd else nd) (map_of fs p)"
  by (induction fs) auto

lemma dirs_at_kinds:
  "(\<And>p nd. map_of fs p = Some nd \<Longrightarrow> tn_kind nd = KDir \<Longrightarrow> \<exists>nd'. map_of fs' p = Some nd' \<and> tn_kind nd' = KDir) \<Longrightarrow>
   dirs_at fs pre ss \<Longrightarrow> dirs_at fs' pre ss"
  unfolding dirs_at_def by blast

lemma resolves_chmod:
  "resolves fs n \<Longrightarrow> resolves (map (\<lambda>(q, nd). (q, if q = d then nd\<lparr>tn_mode := x\<rparr> else nd)) fs) n"
  using dirs_at_kinds [of fs "map (\<lambda>(q, nd). (q, if q = d then nd\<lparr>tn_mode := x\<rparr> else nd)) fs" "[]" "segs n"]
  by (auto simp: resolves_def map_of_chmod)

lemma chmod_dirs_spec:
  "\<forall>n \<in> set ns. resolves fs n \<Longrightarrow>
    (no_fault env \<longrightarrow> (\<exists>fs'. chmod_dirs env ns fs = Inr fs')) \<and>
    (\<forall>fs'. chmod_dirs env ns fs = Inr fs' \<longrightarrow> map fst fs' = map fst fs \<and>
      (\<forall>p. map_of fs' p = map_option (\<lambda>nd. if p \<in> dir_path ` set ns then nd\<lparr>tn_mode := 0x16D\<rparr> else nd) (map_of fs p)))"
proof (induction ns arbitrary: fs)
  case (Cons n ns)
  let ?fs = "map (\<lambda>(q, nd). (q, if q = dir_path n then nd\<lparr>tn_mode := 0x16D\<rparr> else nd)) fs"
  have r: "\<forall>n \<in> set ns. resolves ?fs n" using Cons.prems resolves_chmod by simp
  have k: "map fst ?fs = map fst fs" by auto
  have c: "chmod_dir env n fs = (if ie_fault env (StChmodDir n) then Inl (InstallIO (StChmodDir n)) else Inr ?fs)"
    using Cons.prems chmod_dir_eq by simp
  have m: "map_option (\<lambda>nd. if p \<in> dir_path ` set ns then nd\<lparr>tn_mode := 0x16D\<rparr> else nd) (map_of ?fs p) =
      map_option (\<lambda>nd. if p \<in> dir_path ` set (n # ns) then nd\<lparr>tn_mode := 0x16D\<rparr> else nd) (map_of fs p)" for p
    unfolding map_of_chmod by (cases "map_of fs p") auto
  show ?case using Cons.IH [OF r] unfolding m k by (simp add: c no_fault_def)
qed (auto simp: map_option.id [unfolded id_def])

lemma make_mountpoints_spec:
  "set ns \<subseteq> set reserved \<Longrightarrow> distinct ns \<Longrightarrow>
    (no_fault env \<and> (\<forall>n \<in> set ns. map_of fs [n] = None) \<longrightarrow> (\<exists>r. make_mountpoints env ns (fs, dirs) = Inr r)) \<and>
    (\<forall>fs' dirs'. make_mountpoints env ns (fs, dirs) = Inr (fs', dirs') \<longrightarrow>
      (\<forall>n \<in> set ns. map_of fs [n] = None) \<and> set dirs' = set ns \<union> set dirs \<and>
      map_of fs' = (\<lambda>p. if p \<in> tops ns then Some (dir_node env p 0x1C0) else map_of fs p))"
proof (induction ns arbitrary: fs dirs)
  case (Cons n ns)
  let ?fs = "([n], dir_node env [n] 0x1C0) # fs"
  have ns: "set ns \<subseteq> set reserved" "distinct ns" "n \<in> set reserved" "n \<notin> set ns" using Cons.prems by auto
  have c: "root_mkdir env n fs = (if ie_fault env (StMkdir n) then Inl (InstallIO (StMkdir n))
      else if map_of fs [n] \<noteq> None then Inl (RootFailed ErrExist n) else Inr ?fs)"
    by (simp add: root_mkdir_def root_create_top [OF ns(3)])
  have e: "map_of ?fs [k] = map_of fs [k]" if "k \<in> set ns" for k using that ns(4) by auto
  have all: "(\<forall>k \<in> set ns. map_of ?fs [k] = None) \<longleftrightarrow> (\<forall>k \<in> set ns. map_of fs [k] = None)" using e by simp
  show ?case
  proof (cases "ie_fault env (StMkdir n) \<or> map_of fs [n] \<noteq> None")
    case True
    then have "\<exists>e. make_mountpoints env (n # ns) (fs, dirs) = Inl e" using c by auto
    then show ?thesis using True by (auto simp: no_fault_def)
  next
    case False
    then have m: "make_mountpoints env (n # ns) (fs, dirs) = make_mountpoints env ns (?fs, List.insert n dirs)"
      using c by simp
    have t: "(\<lambda>p. if p \<in> tops ns then Some (dir_node env p 0x1C0) else map_of ?fs p) =
        (\<lambda>p. if p \<in> tops (n # ns) then Some (dir_node env p 0x1C0) else map_of fs p)"
    proof
      fix p
      show "(if p \<in> tops ns then Some (dir_node env p 0x1C0) else map_of ?fs p) =
        (if p \<in> tops (n # ns) then Some (dir_node env p 0x1C0) else map_of fs p)"
        by (cases "p = [n]") simp_all
    qed
    note ih = Cons.IH [OF ns(1,2), of ?fs "List.insert n dirs", unfolded all t]
    show ?thesis unfolding m
    proof (intro conjI impI allI)
      assume "no_fault env \<and> (\<forall>k \<in> set (n # ns). map_of fs [k] = None)"
      then have "no_fault env \<and> (\<forall>k \<in> set ns. map_of fs [k] = None)" by simp
      then show "\<exists>r. make_mountpoints env ns (?fs, List.insert n dirs) = Inr r" by (rule conjunct1 [OF ih, rule_format])
    next
      fix fs' dirs' assume "make_mountpoints env ns (?fs, List.insert n dirs) = Inr (fs', dirs')"
      then have r: "\<forall>k \<in> set ns. map_of fs [k] = None" "set dirs' = set ns \<union> set (List.insert n dirs)"
        "map_of fs' = (\<lambda>p. if p \<in> tops (n # ns) then Some (dir_node env p 0x1C0) else map_of fs p)"
        using ih by blast+
      show "\<forall>k \<in> set (n # ns). map_of fs [k] = None" using r(1) False by simp
      show "set dirs' = set (n # ns) \<union> set dirs" using r(2) by auto
      show "map_of fs' = (\<lambda>p. if p \<in> tops (n # ns) then Some (dir_node env p 0x1C0) else map_of fs p)"
        by (rule r(3))
    qed
  qed
qed simp

text \<open>The part of \<open>extractRootFS\<close> behind the entrypoint check.\<close>

definition install_layout :: "inst_env \<Rightarrow> bytes \<Rightarrow> bytes \<Rightarrow> tree \<Rightarrow> bytes list \<Rightarrow> inst_error + tree" where
  "install_layout env initBytes policyBytes fs1 dirs =
     (case writeInstalledBytes env ''sandbox-init'' initBytes 0x16D fs1 of
        Inl e \<Rightarrow> Inl e
      | Inr fs2 \<Rightarrow>
     (case writeInstalledBytes env ''system-call-policy.json'' policyBytes 0x124 fs2 of
        Inl e \<Rightarrow> Inl e
      | Inr fs3 \<Rightarrow>
     (case make_mountpoints env mountpoints (fs3, dirs) of
        Inl e \<Rightarrow> Inl e
      | Inr (fs4, dirs') \<Rightarrow> makeDirectoriesReadOnly env dirs' fs4)))"

lemma mountpoints_reserved:
  "set mountpoints \<subseteq> set reserved" "distinct mountpoints" "''sandbox-init'' \<in> set reserved"
  "''system-call-policy.json'' \<in> set reserved" "''sandbox-init'' \<notin> set mountpoints"
  "''system-call-policy.json'' \<notin> set mountpoints" "''.'' \<notin> set reserved"
  by (auto simp: reserved_def mountpoints_def)

lemma unreserved_iff:
  assumes "rootfs_ok es" and "map_of fs = complete_tree env m es"
  shows "unreserved es \<longleftrightarrow> (\<forall>n \<in> set reserved. map_of fs [n] = None)"
  using reserved_free [OF _ assms(1)] assms(2) by (auto simp: unreserved_def)

text \<open>Before the modes are set, all reserved names have been created in an unreserved tree.\<close>

lemma layout_before_modes:
  assumes "rootfs_ok es" and "map_of fs1 = complete_tree env 0x1C0 es"
  shows "no_fault env \<and> unreserved es \<longrightarrow> (\<exists>fs4 dirs'.
      writeInstalledBytes env ''sandbox-init'' initBytes 0x16D fs1 = Inr (([''sandbox-init''], file_node initBytes 0x16D) # fs1) \<and>
      writeInstalledBytes env ''system-call-policy.json'' policyBytes 0x124 (([''sandbox-init''], file_node initBytes 0x16D) # fs1)
        = Inr (([''system-call-policy.json''], file_node policyBytes 0x124) # ([''sandbox-init''], file_node initBytes 0x16D) # fs1) \<and>
      make_mountpoints env mountpoints (([''system-call-policy.json''], file_node policyBytes 0x124) #
        ([''sandbox-init''], file_node initBytes 0x16D) # fs1, dirs) = Inr (fs4, dirs'))"
    and "writeInstalledBytes env ''sandbox-init'' initBytes 0x16D fs1 = Inr fs2 \<Longrightarrow>
      writeInstalledBytes env ''system-call-policy.json'' policyBytes 0x124 fs2 = Inr fs3 \<Longrightarrow>
      make_mountpoints env mountpoints (fs3, dirs) = Inr (fs4, dirs') \<Longrightarrow>
      unreserved es \<and> set dirs' = set mountpoints \<union> set dirs \<and>
      map_of fs4 = installed_tree env 0x1C0 es initBytes policyBytes"
proof -
  let ?f2 = "([''sandbox-init''], file_node initBytes 0x16D) # fs1"
  let ?f3 = "([''system-call-policy.json''], file_node policyBytes 0x124) # ?f2"
  note mp = mountpoints_reserved
  have res: "set reserved = insert ''sandbox-init'' (insert ''system-call-policy.json'' (set mountpoints))"
    by (auto simp: reserved_def)
  have other: "n \<in> set mountpoints \<Longrightarrow> map_of ?f3 [n] = map_of fs1 [n]" for n using mp by auto
  have w: "writeInstalledBytes env n c md fs =
      (if ie_fault env (StFile n) then Inl (InstallIO (StFile n))
       else if map_of fs [n] \<noteq> None then Inl (RootFailed ErrExist n) else Inr (([n], file_node c md) # fs))"
    if "n \<in> set reserved" for n c md fs using root_create_top [OF that] by (simp add: writeInstalledBytes_def)
  note u = unreserved_iff [OF assms]
  have sp: "map_of ?f2 [''system-call-policy.json''] = map_of fs1 [''system-call-policy.json'']" by simp
  show "no_fault env \<and> unreserved es \<longrightarrow> (\<exists>fs4 dirs'.
      writeInstalledBytes env ''sandbox-init'' initBytes 0x16D fs1 = Inr ?f2 \<and>
      writeInstalledBytes env ''system-call-policy.json'' policyBytes 0x124 ?f2 = Inr ?f3 \<and>
      make_mountpoints env mountpoints (?f3, dirs) = Inr (fs4, dirs'))"
  proof
    assume a: "no_fault env \<and> unreserved es"
    then have none: "n \<in> set reserved \<Longrightarrow> map_of fs1 [n] = None" for n using u by simp
    have "\<forall>n \<in> set mountpoints. map_of ?f3 [n] = None"
    proof
      fix n assume n: "n \<in> set mountpoints"
      show "map_of ?f3 [n] = None" unfolding other [OF n] by (rule none [OF subsetD [OF mp(1) n]])
    qed
    then have "\<exists>r. make_mountpoints env mountpoints (?f3, dirs) = Inr r"
      using conjunct1 [OF make_mountpoints_spec [OF mp(1,2), of env ?f3 dirs]] a by blast
    then obtain fs4 dirs' where "make_mountpoints env mountpoints (?f3, dirs) = Inr (fs4, dirs')" by auto
    then show "\<exists>fs4 dirs'.
      writeInstalledBytes env ''sandbox-init'' initBytes 0x16D fs1 = Inr ?f2 \<and>
      writeInstalledBytes env ''system-call-policy.json'' policyBytes 0x124 ?f2 = Inr ?f3 \<and>
      make_mountpoints env mountpoints (?f3, dirs) = Inr (fs4, dirs')"
      using w [OF mp(3)] w [OF mp(4)] none [OF mp(3)] none [OF mp(4)] sp a by (simp add: no_fault_def)
  qed
  assume r: "writeInstalledBytes env ''sandbox-init'' initBytes 0x16D fs1 = Inr fs2"
    "writeInstalledBytes env ''system-call-policy.json'' policyBytes 0x124 fs2 = Inr fs3"
    "make_mountpoints env mountpoints (fs3, dirs) = Inr (fs4, dirs')"
  have f2: "fs2 = ?f2" "map_of fs1 [''sandbox-init''] = None"
    using r(1) w [OF mp(3)] by (auto split: if_splits)
  have f3: "fs3 = ?f3" "map_of fs1 [''system-call-policy.json''] = None"
    using r(2) w [OF mp(4)] sp unfolding f2(1) by (auto split: if_splits)
  have m: "\<forall>n \<in> set mountpoints. map_of ?f3 [n] = None" "set dirs' = set mountpoints \<union> set dirs"
    "map_of fs4 = (\<lambda>p. if p \<in> tops mountpoints then Some (dir_node env p 0x1C0) else map_of ?f3 p)"
    using make_mountpoints_spec [OF mp(1,2), of env ?f3 dirs] r(3) unfolding f3(1) by blast+
  have un: "unreserved es" unfolding u res using f2(2) f3(2) m(1) other by auto
  have "map_of fs4 = installed_tree env 0x1C0 es initBytes policyBytes"
  proof
    fix p
    have "p \<in> tops mountpoints \<Longrightarrow> p \<noteq> [''sandbox-init''] \<and> p \<noteq> [''system-call-policy.json'']"
      using mp(5,6) by (auto simp: tops_def)
    then show "map_of fs4 p = installed_tree env 0x1C0 es initBytes policyBytes p"
      unfolding m(3) installed_tree_def map_of.simps assms(2) by (simp add: mp(5,6))
  qed
  then show "unreserved es \<and> set dirs' = set mountpoints \<union> set dirs \<and>
      map_of fs4 = installed_tree env 0x1C0 es initBytes policyBytes" using un m(2) by simp
qed

text \<open>The last step sets the mode of exactly the directories.\<close>

lemma steps_dirs:
  assumes "rootfs_ok es" and "d \<in> dirs_of es" and "map_of fs = complete_tree env m es"
  shows "proper_path (segs d) \<and> dirs_at fs [] (segs d)"
proof -
  have d: "proper_path (segs d)" "above (segs d) \<subseteq> dirs_of es" using dirs_proper [OF assms(1,2)] by auto
  obtain xs x where xs: "segs d = xs @ [x]" by (cases "segs d" rule: rev_cases) auto
  have "joined (segs d) = d" by simp
  then have "steps [] (xs @ [x]) \<subseteq> dirs_of es"
    using d(2) assms(2) unfolding steps_snoc xs above_snoc by simp
  then have "dirs_at fs [] (segs d)" using tree_of_dirs [OF assms(3), of "[]" "segs d"] d(1) by (simp add: xs)
  then show ?thesis using d(1) by simp
qed

lemma layout_resolves:
  assumes "rootfs_ok es" and "map_of fs1 = complete_tree env 0x1C0 es"
    and "map_of fs4 = installed_tree env 0x1C0 es initBytes policyBytes" and "unreserved es"
    and "set dirs' = set mountpoints \<union> insert ''.'' (dirs_of es)"
  shows "\<forall>n \<in> set dirs'. resolves fs4 n"
proof
  fix n assume "n \<in> set dirs'"
  then consider "n = ''.''" | "n \<in> set mountpoints" | "n \<in> dirs_of es" using assms(5) by auto
  then show "resolves fs4 n"
  proof cases
    case 2
    then have r: "n \<in> set reserved" using mountpoints_reserved(1) by blast
    have "map_of fs4 [n] = Some (dir_node env [n] 0x1C0)"
      using 2 mountpoints_reserved(5,6) by (auto simp: assms(3) installed_tree_def)
    then show ?thesis using reservedD [OF r] by (simp add: resolves_def dirs_at_Cons dir_node_def)
  next
    case 3
    have "map_of fs1 [k] = None" if "k \<in> set reserved" for k
      using unreserved_iff [OF assms(1,2)] assms(4) that by simp
    then have free: "map_of fs1 p \<noteq> None \<Longrightarrow> p \<notin> tops mountpoints \<and> p \<noteq> [''sandbox-init''] \<and> p \<noteq> [''system-call-policy.json'']" for p
      using mountpoints_reserved(1,3,4) by (auto simp: tops_def)
    have "dirs_at fs4 [] (segs n)"
    proof (rule dirs_at_kinds [of fs1])
      fix p nd assume a: "map_of fs1 p = Some nd" "tn_kind nd = KDir"
      then have "map_of fs4 p = Some nd" using free [of p] by (simp add: assms(2,3) installed_tree_def)
      then show "\<exists>nd'. map_of fs4 p = Some nd' \<and> tn_kind nd' = KDir" using a(2) by simp
    next
      show "dirs_at fs1 [] (segs n)" using steps_dirs [OF assms(1) 3 assms(2)] by simp
    qed
    then show ?thesis using steps_dirs [OF assms(1) 3 assms(2)] by (simp add: resolves_def)
  qed (simp add: resolves_def)
qed

lemma tree_of_mode:
  "map_option (\<lambda>nd. if p = [] \<or> p \<in> segs ` D then nd\<lparr>tn_mode := m'\<rparr> else nd) (tree_of env m D P es p) = tree_of env m' D P es p"
  by (cases "entry_at P es p") (auto simp: tree_of_def dir_node_def)

lemma layout_modes:
  assumes "map_of fs4 = installed_tree env 0x1C0 es initBytes policyBytes"
    and "set dirs' = set mountpoints \<union> insert ''.'' (dirs_of es)"
    and "\<And>k. k \<in> set reserved \<Longrightarrow> complete_tree env 0x1C0 es [k] = None" and "rootfs_ok es"
  shows "map_option (\<lambda>nd. if p \<in> dir_path ` set dirs' then nd\<lparr>tn_mode := 0x16D\<rparr> else nd) (map_of fs4 p) =
    installed_tree env 0x16D es initBytes policyBytes p"
proof -
  note mp = mountpoints_reserved
  have dots: "dir_path ` dirs_of es = segs ` dirs_of es"
    using dirs_proper [OF assms(4)] by (auto simp: dir_path_def intro!: image_cong)
  have "dir_path n = [n]" if "n \<in> set mountpoints" for n
    using reservedD [of n] mp(1,7) that by (auto simp: dir_path_def)
  then have "dir_path ` set mountpoints = tops mountpoints" by (auto simp: tops_def)
  then have P: "p \<in> dir_path ` set dirs' \<longleftrightarrow> p \<in> tops mountpoints \<or> p = [] \<or> p \<in> segs ` dirs_of es"
    unfolding assms(2) image_Un image_insert dots by (auto simp: dir_path_def)
  have free: "[k] \<notin> segs ` dirs_of es" if "k \<in> set reserved" for k
    using assms(3) [OF that] by (auto simp: tree_of_def split: if_splits)
  show ?thesis
  proof (cases "p \<in> tops mountpoints")
    case True
    then show ?thesis using mp(5,6) unfolding P assms(1) installed_tree_def by (auto simp: dir_node_def tops_def)
  next
    case False
    show ?thesis
    proof (cases "p = [''sandbox-init''] \<or> p = [''system-call-policy.json'']")
      case True
      then have "p \<notin> dir_path ` set dirs'" using False free [OF mp(3)] free [OF mp(4)] unfolding P by auto
      then show ?thesis using True by (auto simp: assms(1) installed_tree_def)
    next
      case other: False
      then show ?thesis using False tree_of_mode [of p "dirs_of es" "0x16D" env "0x1C0" "\<lambda>_. True" es]
        unfolding P assms(1) installed_tree_def by simp
    qed
  qed
qed

lemma layout_spec:
  assumes "rootfs_ok es" and "map_of fs1 = complete_tree env 0x1C0 es" and "set dirs = insert ''.'' (dirs_of es)"
  shows "no_fault env \<Longrightarrow> unreserved es \<Longrightarrow> \<exists>fs. install_layout env initBytes policyBytes fs1 dirs = Inr fs"
    and "install_layout env initBytes policyBytes fs1 dirs = Inr fs \<Longrightarrow>
      unreserved es \<and> map_of fs = installed_tree env 0x16D es initBytes policyBytes"
proof -
  have last: "(no_fault env \<longrightarrow> (\<exists>fs. makeDirectoriesReadOnly env dirs' fs4 = Inr fs)) \<and>
      (\<forall>fs. makeDirectoriesReadOnly env dirs' fs4 = Inr fs \<longrightarrow> map_of fs = installed_tree env 0x16D es initBytes policyBytes)"
    if a: "unreserved es" "set dirs' = set mountpoints \<union> set dirs"
      "map_of fs4 = installed_tree env 0x1C0 es initBytes policyBytes" for fs4 dirs'
  proof -
    have d: "set dirs' = set mountpoints \<union> insert ''.'' (dirs_of es)" using a(2) assms(3) by simp
    have "\<forall>n \<in> set (sort_key (\<lambda>n. - slash_count n) dirs'). resolves fs4 n"
      using layout_resolves [OF assms(1,2) a(3,1) d] by simp
    note c = chmod_dirs_spec [OF this, of env]
    have "complete_tree env 0x1C0 es [k] = None" if "k \<in> set reserved" for k
      using unreserved_iff [OF assms(1,2)] a(1) that assms(2) by simp
    note m = layout_modes [OF a(3) d this assms(1)]
    show ?thesis
    proof (intro conjI impI allI)
      show "\<exists>fs. makeDirectoriesReadOnly env dirs' fs4 = Inr fs" if "no_fault env"
        using c that unfolding makeDirectoriesReadOnly_def by blast
      show "map_of fs = installed_tree env 0x16D es initBytes policyBytes"
        if "makeDirectoriesReadOnly env dirs' fs4 = Inr fs" for fs
      proof
        fix p
        have "map_of fs p = map_option (\<lambda>nd. if p \<in> dir_path ` set dirs' then nd\<lparr>tn_mode := 0x16D\<rparr> else nd) (map_of fs4 p)"
          using c that unfolding makeDirectoriesReadOnly_def set_sort by blast
        then show "map_of fs p = installed_tree env 0x16D es initBytes policyBytes p" using m by simp
      qed
    qed
  qed
  note before = layout_before_modes [OF assms(1,2), where dirs = dirs]
  show "unreserved es \<and> map_of fs = installed_tree env 0x16D es initBytes policyBytes"
    if lay: "install_layout env initBytes policyBytes fs1 dirs = Inr fs"
  proof -
    obtain fs2 fs3 fs4 dirs' where w: "writeInstalledBytes env ''sandbox-init'' initBytes 0x16D fs1 = Inr fs2"
      "writeInstalledBytes env ''system-call-policy.json'' policyBytes 0x124 fs2 = Inr fs3"
      "make_mountpoints env mountpoints (fs3, dirs) = Inr (fs4, dirs')" "makeDirectoriesReadOnly env dirs' fs4 = Inr fs"
      using lay by (auto simp: install_layout_def split: sum.splits)
    have b: "unreserved es \<and> set dirs' = set mountpoints \<union> set dirs \<and>
        map_of fs4 = installed_tree env 0x1C0 es initBytes policyBytes" by (rule before(2) [OF w(1-3)])
    then have "map_of fs = installed_tree env 0x16D es initBytes policyBytes" using last w(4) by blast
    then show ?thesis using b by simp
  qed
  assume nf: "no_fault env" and un: "unreserved es"
  let ?f2 = "([''sandbox-init''], file_node initBytes 0x16D) # fs1"
  let ?f3 = "([''system-call-policy.json''], file_node policyBytes 0x124) # ?f2"
  obtain fs4 dirs' where w: "writeInstalledBytes env ''sandbox-init'' initBytes 0x16D fs1 = Inr ?f2"
    "writeInstalledBytes env ''system-call-policy.json'' policyBytes 0x124 ?f2 = Inr ?f3"
    "make_mountpoints env mountpoints (?f3, dirs) = Inr (fs4, dirs')"
    using before(1) nf un by blast
  have b: "unreserved es \<and> set dirs' = set mountpoints \<union> set dirs \<and>
      map_of fs4 = installed_tree env 0x1C0 es initBytes policyBytes" by (rule before(2) [OF w])
  then obtain fs where "makeDirectoriesReadOnly env dirs' fs4 = Inr fs" using last nf by blast
  then show "\<exists>fs. install_layout env initBytes policyBytes fs1 dirs = Inr fs"
    using w by (simp add: install_layout_def)
qed

section \<open>The whole extraction\<close>

lemma extractRootFS_eq:
  "extractRootFS env tarball initBytes policyBytes entrypoint =
     (if ie_fault env (StStage 0) then Inl (InstallIO (StStage 0))
      else case rootfs_loop env (ie_tar_read env tarball) (start_state env) of
        Inl e \<Rightarrow> Inl e
      | Inr st \<Rightarrow>
         (if ie_fault env StTarClose then Inl (InstallIO StTarClose)
          else if ie_sha256 env tarball \<noteq> ie_sha256 env (ie_tar_write env (xs_canon st))
          then Inl RootFSNotCanonical
          else case create_links env (xs_links st) (xs_fs st) of
            Inl e \<Rightarrow> Inl e
          | Inr fs1 \<Rightarrow>
         (case validateInstalledEntrypoint env fs1 entrypoint of
            Some e \<Rightarrow> Inl e
          | None \<Rightarrow> install_layout env initBytes policyBytes fs1 (xs_dirs st))))"
  unfolding extractRootFS_def install_layout_def ..

lemma extractRootFS_Inr:
  assumes "extractRootFS env tarball initBytes policyBytes entrypoint = Inr fs"
  shows "\<exists>es. rootfs_ok es \<and> unreserved es \<and>
    ie_sha256 env tarball = ie_sha256 env (ie_tar_write env (rootfs_archive es)) \<and>
    map_of fs = installed_tree env 0x16D es initBytes policyBytes"
proof -
  obtain st fs1 where st: "rootfs_loop env (ie_tar_read env tarball) (start_state env) = Inr st"
    "ie_sha256 env tarball = ie_sha256 env (ie_tar_write env (xs_canon st))"
    "create_links env (xs_links st) (xs_fs st) = Inr fs1"
    "install_layout env initBytes policyBytes fs1 (xs_dirs st) = Inr fs"
    using assms unfolding extractRootFS_eq by (auto split: if_splits sum.splits option.splits)
  obtain es where inv: "loop_inv env st es" using rootfs_loop_start [OF st(1)] by blast
  note i = inv [unfolded loop_inv_def]
  have l: "map_of fs1 = complete_tree env 0x1C0 es"
    using links_created(2) [of es "xs_fs st" env "0x1C0" fs1] i st(3) by simp
  show ?thesis using layout_spec(2) [of es fs1 env "xs_dirs st", OF _ l _ st(4)] i st(2) by auto
qed

lemma extractRootFS_ok:
  assumes "no_fault env" and "rootfs_ok es" and "validateRootFSEntrypoint es entrypoint = None"
    and "validateRelativePath (trim_prefix entrypoint ''/'')"
    and "ie_tar_read env tarball = archive_items (rootfs_archive es)" and "tarball = ie_tar_write env (rootfs_archive es)"
  shows "unreserved es \<Longrightarrow> \<exists>fs. extractRootFS env tarball initBytes policyBytes entrypoint = Inr fs \<and>
      map_of fs = installed_tree env 0x16D es initBytes policyBytes"
    and "\<not> unreserved es \<Longrightarrow> \<exists>e. extractRootFS env tarball initBytes policyBytes entrypoint = Inl e"
proof -
  obtain st where st: "rootfs_loop env (ie_tar_read env tarball) (start_state env) = Inr st" "loop_inv env st es"
    using rootfs_loop_ok [OF assms(1) loop_inv_start, of es] assms(2,5) by auto
  note i = st(2) [unfolded loop_inv_def]
  obtain fs1 where l: "create_links env (xs_links st) (xs_fs st) = Inr fs1" "map_of fs1 = complete_tree env 0x1C0 es"
    using links_created [of es "xs_fs st" env "0x1C0"] i assms(1) by auto
  have "validateInstalledEntrypoint env fs1 entrypoint = None"
    using installed_hops_ok [OF assms(2) l(2) assms(1)] assms(3,4)
    by (simp add: validateRootFSEntrypoint_def validateInstalledEntrypoint_def Let_def)
  then have eq: "extractRootFS env tarball initBytes policyBytes entrypoint =
      install_layout env initBytes policyBytes fs1 (xs_dirs st)"
    using st(1) l(1) assms(1,6) i by (simp add: extractRootFS_eq no_fault_def)
  have dirs: "set (xs_dirs st) = insert ''.'' (dirs_of es)" using i by simp
  note lay = layout_spec [OF assms(2) l(2) dirs, where initBytes = initBytes and policyBytes = policyBytes]
  show "\<exists>fs. extractRootFS env tarball initBytes policyBytes entrypoint = Inr fs \<and>
      map_of fs = installed_tree env 0x16D es initBytes policyBytes" if "unreserved es"
    using lay(1) [OF assms(1) that] lay(2) unfolding eq by blast
  show "\<exists>e. extractRootFS env tarball initBytes policyBytes entrypoint = Inl e" if un: "\<not> unreserved es"
  proof (cases "install_layout env initBytes policyBytes fs1 (xs_dirs st)")
    case (Inl e)
    then show ?thesis unfolding eq by blast
  next
    case (Inr fs)
    then show ?thesis using lay(2) un by blast
  qed
qed

section \<open>Well-typed trees\<close>

text \<open>
  What a Sandbox may rely on at each node: ownership, a parent directory, modes without write
  permission, sizes, and symbolic links whose target stays inside lexically.
\<close>

definition node_typed :: "tree \<Rightarrow> bytes list \<Rightarrow> tree_node \<Rightarrow> bool" where
  "node_typed fs p nd \<longleftrightarrow> tn_uid nd = 0 \<and> tn_gid nd = 0 \<and> proper_path p \<and>
     (p \<noteq> [] \<longrightarrow> (\<exists>d. map_of fs (butlast p) = Some d \<and> tn_kind d = KDir)) \<and>
     (case tn_kind nd of
        KDir \<Rightarrow> tn_mode nd = 0x16D
      | KFile c \<Rightarrow> (tn_mode nd = 0x124 \<or> tn_mode nd = 0x16D) \<and> tn_size nd = int (length c) \<and>
          (tn_size nd \<le> maximumRootFSFile \<or> p = [''sandbox-init''] \<or> p = [''system-call-policy.json''])
      | KLink t \<Rightarrow> validateSymlink (joined p) t)"

definition tree_typed :: "tree \<Rightarrow> bool" where
  "tree_typed fs \<longleftrightarrow> (\<exists>r. map_of fs [] = Some r \<and> tn_kind r = KDir) \<and>
     (\<forall>p nd. map_of fs p = Some nd \<longrightarrow> node_typed fs p nd) \<and>
     int (card (dom (map_of fs))) \<le> maximumRootFSItems + 7"

lemma installed_cases:
  assumes "installed_tree env m es initBytes policyBytes p = Some nd" and "rootfs_ok es"
  obtains (init) "p = [''sandbox-init'']" "nd = file_node initBytes 0x16D"
  | (policy) "p = [''system-call-policy.json'']" "nd = file_node policyBytes 0x124"
  | (mount) n where "n \<in> set mountpoints" "p = [n]" "nd = dir_node env p m"
  | (root) "p = []" "nd = dir_node env p m"
  | (dir) d where "d \<in> dirs_of es" "p = segs d" "nd = dir_node env p m"
  | (entry) e where "e \<in> set es" "p = segs (be_name e)" "nd = entry_node e"
proof -
  have "distinct (map be_name es)"
    using assms(2) strict_sorted_iff [of "map be_name es"] by (auto simp: rootfs_ok_def)
  note at = entry_at_Some [OF this, of "\<lambda>_. True"]
  show thesis
    using assms(1) init policy mount root dir entry at
    unfolding installed_tree_def tree_of_def tops_def
    by (auto split: if_splits)
qed

lemma installed_dir:
  assumes "rootfs_ok es" and "unreserved es" and "p = [] \<or> p \<in> segs ` dirs_of es"
  shows "installed_tree env m es initBytes policyBytes p = Some (dir_node env p m)"
proof -
  have "p \<noteq> [k]" if "k \<in> set reserved" for k
    using reserved_free [OF that assms(1), of env m] assms(2,3) that
    by (auto simp: unreserved_def tree_of_def split: if_splits)
  then have "p \<notin> tops mountpoints \<and> p \<noteq> [''sandbox-init''] \<and> p \<noteq> [''system-call-policy.json'']"
    using mountpoints_reserved(1,3,4) by (auto simp: tops_def)
  then show ?thesis using assms(3) by (auto simp: installed_tree_def tree_of_def)
qed

lemma butlast_dir:
  assumes "proper_path (segs n)" and "above (segs n) \<subseteq> D"
  shows "butlast (segs n) = [] \<or> butlast (segs n) \<in> segs ` D"
proof (cases "butlast (segs n) = []")
  case False
  let ?k = "length (segs n) - 1"
  have k: "0 < ?k" "?k < length (segs n)" using False by (auto simp: butlast_conv_take)
  then have "joined (take ?k (segs n)) \<in> D" using assms(2) unfolding above_def by blast
  moreover have "segs (joined (take ?k (segs n))) = butlast (segs n)"
    using segs_joined [of "butlast (segs n)"] proper_path_butlast [OF assms(1)] False
    by (simp add: butlast_conv_take)
  ultimately show ?thesis by (metis imageI)
qed simp

lemma installed_typed:
  assumes m: "map_of fs = installed_tree env 0x16D es initBytes policyBytes"
    and ok: "rootfs_ok es" and un: "unreserved es" and nd: "map_of fs p = Some nd"
  shows "node_typed fs p nd"
proof -
  have root: "\<exists>d. map_of fs [] = Some d \<and> tn_kind d = KDir"
    using installed_dir [OF ok un] m by (simp add: dir_node_def)
  have par: "\<exists>d. map_of fs (butlast q) = Some d \<and> tn_kind d = KDir" if "butlast q = [] \<or> butlast q \<in> segs ` dirs_of es" for q
    using installed_dir [OF ok un that] m by (simp add: dir_node_def)
  have pp: "proper_path (segs (be_name e)) \<and> above (segs (be_name e)) \<subseteq> dirs_of es \<and> entry_ok e" if "e \<in> set es" for e
    using ok that relative_proper [of "be_name e"]
    by (auto simp: rootfs_ok_def list_all_iff entry_ok_def implied_dirs_def)
  have res: "n \<in> set reserved \<Longrightarrow> proper_path [n]" for n using reservedD by simp
  from nd [unfolded m] ok show ?thesis
  proof (cases rule: installed_cases)
    case init
    then show ?thesis using root res [OF mountpoints_reserved(3)] by (simp add: node_typed_def file_node_def)
  next
    case policy
    then show ?thesis using root res [OF mountpoints_reserved(4)] by (simp add: node_typed_def file_node_def)
  next
    case (mount n)
    then have "proper_path [n]" using mountpoints_reserved(1) res by blast
    then show ?thesis using root mount by (simp add: node_typed_def dir_node_def)
  next
    case root
    then show ?thesis by (simp add: node_typed_def dir_node_def)
  next
    case (dir d)
    have pd: "proper_path (segs d)" "above (segs d) \<subseteq> dirs_of es" using dirs_proper [OF ok dir(1)] by auto
    then show ?thesis using par [of "segs d"] butlast_dir [OF pd] dir by (simp add: node_typed_def dir_node_def)
  next
    case (entry e)
    note e = pp [OF entry(1)]
    show ?thesis
      using e par [of "segs (be_name e)"] butlast_dir [of "be_name e" "dirs_of es"] entry
      by (auto simp: node_typed_def entry_node_def file_node_def link_node_def entry_ok_def)
  qed
qed

lemma installed_card:
  assumes "map_of fs = installed_tree env m es initBytes policyBytes" and "rootfs_ok es"
  shows "int (card (dom (map_of fs))) \<le> maximumRootFSItems + 7"
proof -
  let ?S = "set ([] # map (\<lambda>n. [n]) reserved) \<union> segs ` dirs_of es \<union> segs ` be_name ` set es"
  have "dom (map_of fs) \<subseteq> ?S"
  proof
    fix p assume "p \<in> dom (map_of fs)"
    then obtain nd where "installed_tree env m es initBytes policyBytes p = Some nd" using assms(1) by auto
    from this assms(2) show "p \<in> ?S" by (cases rule: installed_cases) (auto simp: reserved_def)
  qed
  then have "card (dom (map_of fs)) \<le> card ?S" by (intro card_mono) auto
  also have "\<dots> \<le> card (set ([] # map (\<lambda>n. [n]) reserved)) + card (segs ` dirs_of es) + card (segs ` be_name ` set es)"
    by (meson add_mono_thms_linordered_semiring(3) card_Un_le order_trans)
  also have "\<dots> \<le> 7 + card (dirs_of es) + length es"
  proof (intro add_mono)
    have "card (set ([] # map (\<lambda>n. [n]) reserved)) \<le> length ([] # map (\<lambda>n. [n]) reserved)" by (rule card_length)
    then show "card (set ([] # map (\<lambda>n. [n]) reserved)) \<le> 7" by (simp add: reserved_def mountpoints_def)
    show "card (segs ` dirs_of es) \<le> card (dirs_of es)" by (rule card_image_le) simp
    have "card (segs ` be_name ` set es) \<le> card (set es)"
      by (meson List.finite_set card_image_le finite_imageI order_trans)
    then show "card (segs ` be_name ` set es) \<le> length es" using card_length order_trans by blast
  qed
  finally show ?thesis using assms(2) unfolding rootfs_ok_def by linarith
qed

end
