(* ===== verification/ProfileBundle.thy ===== *)
theory ProfileBundle
  imports RootFSCorrect PolicyDocument
begin

text \<open>
  Building and installing a Profile Bundle as a whole: \<open>Build\<close> and \<open>writeBundle\<close> of
  \<^verbatim>\<open>profilebundle/build.go\<close>, \<open>Install\<close>, \<open>copyApprovedBundle\<close>, \<open>extractApprovedBundle\<close> and the
  comparison of installed trees of \<^verbatim>\<open>profilebundle/install_linux.go\<close>.

  The records \<open>build_world\<close> and \<open>install_world\<close> are what the two programs observe of their machine:
  the files they read, which system calls fail, the codecs of JSON and tar, SHA-256.
\<close>

section \<open>Reading input files\<close>

record file_obs =
  fo_opens :: bool
  fo_stats :: bool
  fo_lstats :: bool
  fo_opened_regular :: bool
  fo_path_regular :: bool
  fo_same :: bool
  fo_size :: int
  fo_reads :: bool
  fo_contents :: bytes

datatype read_error = ReadOpen | ReadStat | ReadLstat | ReadNotRegular | ReadTooLarge | ReadFailed | ReadChanged

definition readRegularFile :: "int \<Rightarrow> file_obs \<Rightarrow> read_error + bytes" where
  "readRegularFile maximumSize f =
     (if \<not> fo_opens f then Inl ReadOpen
      else if \<not> fo_stats f then Inl ReadStat
      else if \<not> fo_lstats f then Inl ReadLstat
      else if \<not> fo_opened_regular f \<or> \<not> fo_path_regular f \<or> \<not> fo_same f then Inl ReadNotRegular
      else if fo_size f < 0 \<or> fo_size f > maximumSize then Inl ReadTooLarge
      else if \<not> fo_reads f then Inl ReadFailed
      else let contents = limit_read (maximumSize + 1) (fo_contents f) in
        if int (length contents) \<noteq> fo_size f then Inl ReadChanged else Inr contents)"

section \<open>Build\<close>

record BuildOptions =
  LockPath :: bytes
  SourceCache :: bytes
  SystemCallPolicyPath :: bytes
  SandboxInitPath :: bytes
  OutputPath :: bytes

record build_world =
  bw_options :: BuildOptions
  bw_sources :: build_env
  bw_lock :: file_obs
  bw_policy :: file_obs
  bw_init :: file_obs
  bw_url_parse :: url_parser
  bw_lock_codec :: "buildLock document_codec"
  bw_manifest_codec :: "bundle_manifest document_codec"
  bw_scan :: "bytes \<Rightarrow> lexeme list"
  bw_encode :: "json \<Rightarrow> bytes"
  bw_tar_write :: "(tar_header \<times> bytes) list \<Rightarrow> bytes"
  bw_fault :: "nat \<Rightarrow> bool"
  bw_race :: "bytes option"

definition validateBuildOptions :: "BuildOptions \<Rightarrow> bool" where
  "validateBuildOptions options \<longleftrightarrow>
     \<not> (LockPath options = [] \<or> SourceCache options = [] \<or> SystemCallPolicyPath options = [] \<or>
        SandboxInitPath options = [] \<or> OutputPath options = [])"

definition readBuildLock :: "build_world \<Rightarrow> build_error + buildLock \<times> bytes" where
  "readBuildLock w =
     (case readRegularFile maximumPolicySize (bw_lock w) of
        Inl _ \<Rightarrow> Inl LockUnreadable
      | Inr lockBytes \<Rightarrow>
         (case decodeBuildLock (bw_url_parse w) (bw_lock_codec w) lockBytes of
            Inl e \<Rightarrow> Inl (LockInvalid e)
          | Inr r \<Rightarrow> Inr r))"

definition readSystemCallPolicy :: "build_world \<Rightarrow> build_error + bytes" where
  "readSystemCallPolicy w =
     (case readRegularFile maximumPolicySize (bw_policy w) of
        Inl _ \<Rightarrow> Inl PolicyUnreadable
      | Inr policyBytes \<Rightarrow>
         (case Canonical (bw_scan w) (bw_encode w) policyBytes of
            Inl _ \<Rightarrow> Inl PolicyInvalid
          | Inr canonical \<Rightarrow> Inr canonical))"

record bundlePart =
  bp_component :: bundle_component
  bp_contents :: bytes

text \<open>
  A part of the bundle with its size and digest. The root filesystem part has its contents in a
  private file, whose size and digest \<open>Build\<close> takes the same way.
\<close>

definition newMemoryPart :: "(bytes \<Rightarrow> bytes) \<Rightarrow> bundle_component \<Rightarrow> bytes \<Rightarrow> bundlePart" where
  "newMemoryPart sha256 contr contents =
     \<lparr>bp_component = \<lparr>co_Role = co_Role contr, co_Path = co_Path contr, co_Format = co_Format contr,
        co_Mode = co_Mode contr, co_Size = int (length contents),
        co_Digest = ''sha256:'' @ digestBytes sha256 contents\<rparr>,
      bp_contents = contents\<rparr>"

definition components :: "bundlePart list \<Rightarrow> bundle_component list" where
  "components parts = map bp_component parts"

definition outer_header :: "bytes \<Rightarrow> int \<Rightarrow> int \<Rightarrow> tar_header" where
  "outer_header name mode sz = (canonicalTarHeader name TypeReg mode sz [])\<lparr>th_Format := FormatUSTAR\<rparr>"

definition outer_archive :: "bytes \<Rightarrow> bundlePart list \<Rightarrow> (tar_header \<times> bytes) list" where
  "outer_archive manifestBytes parts =
     (outer_header ''manifest.json'' 0x124 (int (length manifestBytes)), manifestBytes) #
     map (\<lambda>p. (outer_header (co_Path (bp_component p)) (parseMode (co_Mode (bp_component p)))
                 (co_Size (bp_component p)), bp_contents p)) parts"

text \<open>
  \<open>writeBundle\<close>: the bundle is written to a private temporary file, then linked to the output path,
  which fails if anything exists there by then (\<open>bw_race\<close> is what another process may have created).
  When the directory cannot be synced the link is removed again. The numbers are the steps whose
  system calls can fail: 10 inspecting the output, 11 the temporary file with its writes, sync and
  close, 12 linking, 13 syncing the directory, 14 removing the output.
\<close>

definition writeBundle ::
  "build_world \<Rightarrow> bytes \<Rightarrow> bundlePart list \<Rightarrow> bytes option \<Rightarrow> (build_error + bytes) \<times> bytes option" where
  "writeBundle w manifestBytes parts out =
     (if bw_fault w 10 then (Inl OutputInspect, out)
      else if out \<noteq> None then (Inl OutputExists, out)
      else if bw_fault w 11 then (Inl (BuildIO 11), out)
      else let bundle = bw_tar_write w (outer_archive manifestBytes parts) in
        if bw_race w \<noteq> None then (Inl PublishFailed, bw_race w)
        else if bw_fault w 12 then (Inl PublishFailed, None)
        else if bw_fault w 13 then (Inl PublishFailed, if bw_fault w 14 then Some bundle else None)
        else (Inr (digestBytes (b_sha256 (bw_sources w)) bundle), Some bundle))"

definition build_parts :: "build_world \<Rightarrow> bytes \<Rightarrow> bytes \<Rightarrow> bytes \<Rightarrow> bytes \<Rightarrow> bundlePart list" where
  "build_parts w lockBytes policyBytes initBytes rootfsBytes =
     map2 (newMemoryPart (b_sha256 (bw_sources w))) bundleV1Components
       [lockBytes, policyBytes, initBytes, rootfsBytes]"

definition build_manifest :: "buildLock \<Rightarrow> bundlePart list \<Rightarrow> bundle_manifest" where
  "build_manifest lock parts =
     \<lparr>mf_Schema = manifestSchema, mf_Profile = bundle_profileID, mf_Target = bl_Target lock,
      mf_Python = bl_Python lock, mf_Components = Some (components parts)\<rparr>"

definition Build :: "build_world \<Rightarrow> bytes option \<Rightarrow> (build_error + bytes) \<times> bytes option" where
  "Build w out =
     (if \<not> validateBuildOptions (bw_options w) then (Inl OptionsMissing, out)
      else case readBuildLock w of
        Inl e \<Rightarrow> (Inl e, out)
      | Inr (lock, lockBytes) \<Rightarrow>
     (case readSystemCallPolicy w of
        Inl e \<Rightarrow> (Inl e, out)
      | Inr policyBytes \<Rightarrow>
     (case readRegularFile maximumInitSize (bw_init w) of
        Inl _ \<Rightarrow> (Inl InitUnreadable, out)
      | Inr initBytes \<Rightarrow>
         (if initBytes = [] then (Inl InitEmpty, out)
          else if bw_fault w 0 then (Inl (BuildIO 0), out)
          else case buildRootFS (bw_sources w) (bw_tar_write w) (\<not> bw_fault w 1) lock of
            Inl e \<Rightarrow> (Inl e, out)
          | Inr rootfsBytes \<Rightarrow>
             (if bw_fault w 2 then (Inl (BuildIO 2), out)
              else let parts = build_parts w lockBytes policyBytes initBytes rootfsBytes in
                writeBundle w (canonicalJSON (dc_encode (bw_manifest_codec w)) (build_manifest lock parts))
                  parts out)))))"

section \<open>Unpacking an approved bundle\<close>

datatype bundle_error =
    BundleIO nat
  | BundleTar | BundleMetadata bytes | BundleManifestSize | BundleManifestShort | BundleManifest manifest_error
  | ComponentHeader bytes | ComponentCreate bytes | ComponentRead bytes | ComponentMismatch bytes | ComponentStore bytes
  | UnlistedEntry bytes | NonCanonicalFraming
  | PolicyMissing | PolicyRejected | PolicyNotCanonical
  | LockMissing | LockRejected lock_error | LockNotCanonical | ContractMismatch
  | RootFS inst_error

record staged =
  sg_files :: "(bytes \<times> (bytes \<times> int)) list"
  sg_rootfs :: tree

record install_world =
  iw_env :: inst_env
  iw_fault :: "nat \<Rightarrow> bool"
  iw_component_fault :: "bytes \<Rightarrow> bool"
  iw_url_parse :: url_parser
  iw_lock_codec :: "buildLock document_codec"
  iw_manifest_codec :: "bundle_manifest document_codec"
  iw_scan :: "bytes \<Rightarrow> lexeme list"
  iw_encode :: "json \<Rightarrow> bytes"

definition validateOuterHeader :: "tar_header \<Rightarrow> bytes \<Rightarrow> int \<Rightarrow> int \<Rightarrow> bool" where
  "validateOuterHeader h name mode sz \<longleftrightarrow>
     \<not> (th_Name h \<noteq> name \<or> th_Typeflag h \<noteq> TypeReg \<or> th_Mode h \<noteq> mode \<or> th_Size h \<noteq> sz \<or>
        th_Uid h \<noteq> 0 \<or> th_Gid h \<noteq> 0 \<or> th_Uname h \<noteq> [] \<or> th_Gname h \<noteq> [] \<or>
        th_Devmajor h \<noteq> 0 \<or> th_Devminor h \<noteq> 0 \<or> th_ModTime h \<noteq> 0 \<or>
        \<not> th_AccessTimeZero h \<or> \<not> th_ChangeTimeZero h \<or> length (th_PAXRecords h) \<noteq> 0 \<or>
        th_Format h \<noteq> FormatUSTAR)"

definition tarEntryStorageSize :: "int \<Rightarrow> int" where
  "tarEntryStorageSize sz = 512 + ((sz + 511) div 512 * 512)"

definition canonicalOuterTarSize :: "int \<Rightarrow> bundle_component list \<Rightarrow> int" where
  "canonicalOuterTarSize manifestSize comps =
     foldl (\<lambda>total declared. total + tarEntryStorageSize (co_Size declared))
       (tarEntryStorageSize manifestSize + 2 * 512) comps"

text \<open>
  \<open>iw_component_fault\<close> is a failure of creating the staged file or of giving it its mode, syncing
  and closing it.
\<close>

fun extract_components ::
  "install_world \<Rightarrow> bundle_component list \<Rightarrow> tar_item list \<Rightarrow> (bytes \<times> (bytes \<times> int)) list \<Rightarrow>
   bundle_error + (bytes \<times> (bytes \<times> int)) list \<times> tar_item list" where
  "extract_components w [] items files = Inr (files, items)"
| "extract_components w (declared # comps) (TarEntry header contents # items) files =
     (let mode = parseMode (co_Mode declared); sz = co_Size declared; role = co_Role declared in
      if \<not> validateOuterHeader header (co_Path declared) mode sz then Inl (BundleMetadata (th_Name header))
      else if iw_component_fault w (co_Path declared) \<or> map_of files (co_Path declared) \<noteq> None
      then Inl (ComponentCreate role)
      else if int (length contents) < sz then Inl (ComponentRead role)
      else let data = take (nat sz) contents in
        if ''sha256:'' @ digestBytes (ie_sha256 (iw_env w)) data \<noteq> co_Digest declared
        then Inl (ComponentMismatch role)
        else extract_components w comps items ((co_Path declared, (data, mode)) # files))"
| "extract_components w (declared # comps) _ files = Inl (ComponentHeader (co_Role declared))"

text \<open>
  The steps that can fail: 20 the stat of the archive, 21 storing the manifest, 22 and 23 reading the
  policy and the lock back.
\<close>

definition check_bundle_documents ::
  "install_world \<Rightarrow> bundle_manifest \<Rightarrow> (bytes \<times> (bytes \<times> int)) list \<Rightarrow> bundle_error + buildLock \<times> bytes" where
  "check_bundle_documents w man files =
     (case (if iw_fault w 22 then None else map_of files ''system-call-policy.json'') of
        None \<Rightarrow> Inl PolicyMissing
      | Some (policyBytes, _) \<Rightarrow>
     (case Canonical (iw_scan w) (iw_encode w) policyBytes of
        Inl _ \<Rightarrow> Inl PolicyRejected
      | Inr canonicalPolicy \<Rightarrow>
         (if policyBytes \<noteq> canonicalPolicy then Inl PolicyNotCanonical
          else case (if iw_fault w 23 then None else map_of files ''profile.lock.json'') of
            None \<Rightarrow> Inl LockMissing
          | Some (lockBytes, _) \<Rightarrow>
             (case decodeBuildLock (iw_url_parse w) (iw_lock_codec w) lockBytes of
                Inl e \<Rightarrow> Inl (LockRejected e)
              | Inr (lock, canonicalLock) \<Rightarrow>
                 (if lockBytes \<noteq> canonicalLock then Inl LockNotCanonical
                  else if mf_Target man \<noteq> bl_Target lock \<or> \<not> pythonRuntimeEqual (mf_Python man) (bl_Python lock)
                  then Inl ContractMismatch
                  else Inr (lock, policyBytes))))))"

definition extract_rootfs_component ::
  "install_world \<Rightarrow> buildLock \<Rightarrow> bytes \<Rightarrow> (bytes \<times> (bytes \<times> int)) list \<Rightarrow> bundle_error + staged" where
  "extract_rootfs_component w lock policyBytes files =
     (case (map_of files ''rootfs.tar'', map_of files ''sandbox-init'') of
        (Some (rootfsBytes, _), Some (initBytes, _)) \<Rightarrow>
         (case extractRootFS (iw_env w) rootfsBytes initBytes policyBytes (py_Entrypoint (bl_Python lock)) of
            Inl e \<Rightarrow> Inl (RootFS e)
          | Inr fs \<Rightarrow> Inr \<lparr>sg_files = files, sg_rootfs = fs\<rparr>)
      | _ \<Rightarrow> Inl (BundleIO 24))"

definition extractApprovedBundle :: "install_world \<Rightarrow> bytes \<Rightarrow> bundle_error + staged" where
  "extractApprovedBundle w archive =
     (if iw_fault w 20 then Inl (BundleIO 20)
      else case ie_tar_read (iw_env w) archive of
        TarEntry header contents # items \<Rightarrow>
         (if \<not> validateOuterHeader header ''manifest.json'' 0x124 (th_Size header)
          then Inl (BundleMetadata (th_Name header))
          else if th_Size header \<le> 0 \<or> th_Size header > maximumPolicySize then Inl BundleManifestSize
          else let manifestBytes = limit_read (th_Size header + 1) contents in
            if int (length manifestBytes) \<noteq> th_Size header then Inl BundleManifestShort
            else case decodeManifest (iw_manifest_codec w) manifestBytes of
              Inl e \<Rightarrow> Inl (BundleManifest e)
            | Inr man \<Rightarrow>
               (if iw_fault w 21 then Inl (BundleIO 21)
                else case extract_components w (slice (mf_Components man)) items [(''manifest.json'', (manifestBytes, 0x124))] of
                  Inl e \<Rightarrow> Inl e
                | Inr (files, TarEntry extra _ # _) \<Rightarrow> Inl (UnlistedEntry (th_Name extra))
                | Inr (files, TarError # _) \<Rightarrow> Inl BundleTar
                | Inr (files, []) \<Rightarrow>
                   (if int (length archive) \<noteq> canonicalOuterTarSize (th_Size header) (slice (mf_Components man))
                    then Inl NonCanonicalFraming
                    else case check_bundle_documents w man files of
                      Inl e \<Rightarrow> Inl e
                    | Inr (lock, policyBytes) \<Rightarrow> extract_rootfs_component w lock policyBytes files)))
      | _ \<Rightarrow> Inl BundleTar)"

section \<open>The Profile store\<close>

text \<open>
  Published identities and the names left in the staging directory. An installed tree is flattened:
  its root, its files, and the root filesystem below \<^verbatim>\<open>rootfs\<close>.
\<close>

record profile_store =
  ps_ids :: "bytes \<Rightarrow> tree option"
  ps_staging :: "bytes list"

definition flat_tree :: "inst_env \<Rightarrow> int \<Rightarrow> staged \<Rightarrow> tree" where
  "flat_tree env mode s =
     ([], dir_node env [] mode) #
     map (\<lambda>(name, (contents, m)). ([name], file_node contents m)) (sg_files s) @
     map (\<lambda>(p, nd). (''rootfs'' # p, nd)) (sg_rootfs s)"

record installedEntryFingerprint =
  fp_name :: "bytes list"
  fp_mode :: int
  fp_type :: nat
  fp_size :: int
  fp_uid :: int
  fp_gid :: int
  fp_digest :: bytes
  fp_link :: bytes

definition fingerprint_entry :: "(bytes \<Rightarrow> bytes) \<Rightarrow> bytes list \<times> tree_node \<Rightarrow> installedEntryFingerprint" where
  "fingerprint_entry sha256 e =
     (let nd = snd e in
      \<lparr>fp_name = fst e, fp_mode = tn_mode nd,
       fp_type = (case tn_kind nd of KDir \<Rightarrow> 0 | KFile _ \<Rightarrow> 1 | KLink _ \<Rightarrow> 2),
       fp_size = tn_size nd, fp_uid = tn_uid nd, fp_gid = tn_gid nd,
       fp_digest = (case tn_kind nd of KFile c \<Rightarrow> sha256 c | _ \<Rightarrow> []),
       fp_link = (case tn_kind nd of KLink t \<Rightarrow> t | _ \<Rightarrow> [])\<rparr>)"

text \<open>
  \<^verbatim>\<open>fs.WalkDir\<close> visits a directory before its entries and these in the order of their names: the
  lexicographic order of the paths.
\<close>

definition fingerprintInstalledTree :: "(bytes \<Rightarrow> bytes) \<Rightarrow> tree \<Rightarrow> installedEntryFingerprint list" where
  "fingerprintInstalledTree sha256 t = map (fingerprint_entry sha256) (sort_key fst t)"

definition installedTreesEqual :: "(bytes \<Rightarrow> bytes) \<Rightarrow> tree \<Rightarrow> tree \<Rightarrow> bool" where
  "installedTreesEqual sha256 left right =
     (let l = fingerprintInstalledTree sha256 left; r = fingerprintInstalledTree sha256 right in
      if length l \<noteq> length r then False else list_all2 (=) l r)"

record store_info =
  si_opened_dir :: bool
  si_path_dir :: bool
  si_path_symlink :: bool
  si_opened_dev :: int
  si_opened_ino :: int
  si_path_dev :: int
  si_path_ino :: int
  si_uid :: int
  si_gid :: int
  si_perm :: int

record dir_info =
  di_is_dir :: bool
  di_perm :: int
  di_uid :: int
  di_gid :: int

text \<open>\<open>None\<close> is a failed \<^verbatim>\<open>Lstat\<close>; \<^verbatim>\<open>Mkdir\<close> may find the directory already there.\<close>

datatype mkdir_outcome = MkdirCreated | MkdirExists | MkdirFailed

datatype install_error =
    NotRoot | MissingInstallOptions | StoreNotAbsolute | DigestSyntax
  | StoreOpen | StoreNotDirectory | StoreChanged | StoreOwner | StoreWritable
  | StoreMkdir bytes | StoreStat bytes | StoreDirectoryMode bytes | StoreDirectoryOwner bytes
  | RandomFailed | InstallStep nat
  | BundleNotRegular | BundleChanged
  | DigestMismatch | BundleRejected bundle_error
  | IdentityUnverified | IdentityDiffers | SyncFailed | RollbackFailed

record store_world =
  sw_install :: install_world
  sw_euid_root :: bool
  sw_bundle_path :: bytes
  sw_expected :: bytes
  sw_store_path :: bytes
  sw_info :: "store_info option"
  sw_mkdir :: "bytes \<Rightarrow> mkdir_outcome"
  sw_dir :: "bytes \<Rightarrow> dir_info option"
  sw_random :: "bytes option"
  sw_fault :: "nat \<Rightarrow> bool"
  sw_bundle_regular :: bool
  sw_bundle_size :: int
  sw_bundle :: bytes

definition validateOpenedProfileStore :: "store_info option \<Rightarrow> install_error option" where
  "validateOpenedProfileStore info =
     (case info of
        None \<Rightarrow> Some StoreOpen
      | Some i \<Rightarrow>
         (if \<not> si_path_dir i \<or> si_path_symlink i \<or> \<not> si_opened_dir i then Some StoreNotDirectory
          else if si_opened_dev i \<noteq> si_path_dev i \<or> si_opened_ino i \<noteq> si_path_ino i then Some StoreChanged
          else if si_uid i \<noteq> 0 \<or> si_gid i \<noteq> 0 then Some StoreOwner
          else if si_perm i AND 0x12 \<noteq> 0 then Some StoreWritable
          else None))"

definition ensureStoreDirectory :: "store_world \<Rightarrow> bytes \<Rightarrow> int \<Rightarrow> install_error option" where
  "ensureStoreDirectory w name mode =
     (if sw_mkdir w name = MkdirFailed then Some (StoreMkdir name)
      else case sw_dir w name of
        None \<Rightarrow> Some (StoreStat name)
      | Some i \<Rightarrow>
         (if \<not> di_is_dir i \<or> di_perm i \<noteq> mode then Some (StoreDirectoryMode name)
          else if di_uid i \<noteq> 0 \<or> di_gid i \<noteq> 0 then Some (StoreDirectoryOwner name)
          else None))"

text \<open>
  The copy into private staging, with its digest. The steps: 30 opening or inspecting the bundle,
  31 creating the copy, 32 reading or writing, 33 syncing.
\<close>

definition copyApprovedBundle :: "store_world \<Rightarrow> install_error + bytes \<times> bytes" where
  "copyApprovedBundle w =
     (if sw_fault w 30 then Inl (InstallStep 30)
      else if \<not> sw_bundle_regular w \<or> sw_bundle_size w \<le> 0 \<or> sw_bundle_size w > maximumBundleSize
      then Inl BundleNotRegular
      else if sw_fault w 31 then Inl (InstallStep 31)
      else if sw_fault w 32 then Inl (InstallStep 32)
      else let copied = limit_read (maximumBundleSize + 1) (sw_bundle w) in
        if int (length copied) \<noteq> sw_bundle_size w then Inl BundleChanged
        else if sw_fault w 33 then Inl (InstallStep 33)
        else Inr (copied, digestBytes (ie_sha256 (iw_env (sw_install w))) copied))"

text \<open>
  The checks in front of staging, and the staged tree: 40 creating the staging directory, 41 opening
  it, 42 rewinding, 43 closing the archive and removing it, 44 making the staging directory
  immutable, 45 opening the two store directories.
\<close>

definition install_checks :: "store_world \<Rightarrow> install_error + bytes \<times> bytes" where
  "install_checks w =
     (if \<not> sw_euid_root w then Inl NotRoot
      else if sw_bundle_path w = [] \<or> sw_expected w = [] \<or> sw_store_path w = [] then Inl MissingInstallOptions
      else if \<not> is_abs (sw_store_path w) then Inl StoreNotAbsolute
      else case parseExpectedSHA256 (sw_expected w) of
        None \<Rightarrow> Inl DigestSyntax
      | Some expectedDigest \<Rightarrow>
     (case validateOpenedProfileStore (sw_info w) of
        Some e \<Rightarrow> Inl e
      | None \<Rightarrow>
     (case ensureStoreDirectory w ''.staging'' 0x1C0 of
        Some e \<Rightarrow> Inl e
      | None \<Rightarrow>
     (case ensureStoreDirectory w ''sha256'' 0x1ED of
        Some e \<Rightarrow> Inl e
      | None \<Rightarrow>
     (case sw_random w of
        None \<Rightarrow> Inl RandomFailed
      | Some value \<Rightarrow>
         (if sw_fault w 40 then Inl (InstallStep 40) else Inr (expectedDigest, hex_encode value)))))))"

definition install_stage :: "store_world \<Rightarrow> bytes \<Rightarrow> install_error + staged" where
  "install_stage w expectedDigest =
     (if sw_fault w 41 then Inl (InstallStep 41)
      else case copyApprovedBundle w of
        Inl e \<Rightarrow> Inl e
      | Inr (archive, actualDigest) \<Rightarrow>
         (if actualDigest \<noteq> expectedDigest then Inl DigestMismatch
          else if sw_fault w 42 then Inl (InstallStep 42)
          else case extractApprovedBundle (sw_install w) archive of
            Inl e \<Rightarrow> Inl (BundleRejected e)
          | Inr s \<Rightarrow>
             (if sw_fault w 43 then Inl (InstallStep 43)
              else if sw_fault w 44 then Inl (InstallStep 44)
              else if sw_fault w 45 then Inl (InstallStep 45)
              else Inr s)))"

text \<open>
  Publishing: \<^verbatim>\<open>rename\<close> of a directory succeeds onto nothing or onto an empty directory. 50 is a
  failure of the rename, 51 of the comparison with what exists, 52 to 54 of syncing and closing the two
  directories, 55 of the rename that rolls the publication back. The result tells what is published
  and whether the staging directory still holds the tree.
\<close>

definition empty_directory :: "tree \<Rightarrow> bool" where
  "empty_directory t \<longleftrightarrow> list_all (\<lambda>(p, _). p = []) t"

definition install_publish ::
  "store_world \<Rightarrow> bytes \<Rightarrow> tree \<Rightarrow> (bytes \<Rightarrow> tree option) \<Rightarrow>
   (install_error + bytes) \<times> (bytes \<Rightarrow> tree option) \<times> bool" where
  "install_publish w digest t ids =
     (if sw_fault w 50 \<or> (case ids digest of None \<Rightarrow> False | Some old \<Rightarrow> \<not> empty_directory old)
      then
        (case ids digest of
           None \<Rightarrow> (Inl IdentityUnverified, ids, True)
         | Some old \<Rightarrow>
            (if sw_fault w 51 then (Inl IdentityUnverified, ids, True)
             else if \<not> installedTreesEqual (ie_sha256 (iw_env (sw_install w))) t old
             then (Inl IdentityDiffers, ids, True)
             else (Inr (''sha256/'' @ digest), ids, True)))
      else let published = ids(digest \<mapsto> t) in
        if sw_fault w 52 \<or> sw_fault w 53 \<or> sw_fault w 54
        then (if sw_fault w 55 then (Inl RollbackFailed, published, False)
              else (Inl SyncFailed, ids(digest := None), True))
        else (Inr (''sha256/'' @ digest), published, False))"

text \<open>
  \<open>Install\<close>. The deferred clean-up removes the staging directory unless it was published; 56 is its
  failure, which is an error only when the installation had none.
\<close>

definition Install :: "store_world \<Rightarrow> profile_store \<Rightarrow> (install_error + bytes) \<times> profile_store" where
  "Install w store =
     (case install_checks w of
        Inl e \<Rightarrow> (Inl e, store)
      | Inr (expectedDigest, stageName) \<Rightarrow>
         (case (case install_stage w expectedDigest of
                  Inl e \<Rightarrow> (Inl e, ps_ids store, True)
                | Inr s \<Rightarrow> install_publish w expectedDigest
                    (flat_tree (iw_env (sw_install w)) 0x16D s) (ps_ids store)) of
            (r, ids, staged) \<Rightarrow>
             (if \<not> staged then (r, store\<lparr>ps_ids := ids\<rparr>)
              else if sw_fault w 56
              then (case r of Inl e \<Rightarrow> Inl e | Inr _ \<Rightarrow> Inl (InstallStep 56),
                    store\<lparr>ps_ids := ids, ps_staging := stageName # ps_staging store\<rparr>)
              else (r, store\<lparr>ps_ids := ids\<rparr>))))"

end
