(* ===== verification/BundleProperties.thy ===== *)
theory BundleProperties
  imports ProfileBundle
begin

text \<open>
  The properties of building and installing a Profile Bundle: what an approved bundle contains, what
  the store promises about identities, and that what \<open>Build\<close> publishes is what \<open>Install\<close> accepts.
\<close>

section \<open>An approved bundle\<close>

text \<open>The files of the staged tree match the digests the manifest declares.\<close>

definition component_stored :: "(bytes \<Rightarrow> bytes) \<Rightarrow> (bytes \<times> (bytes \<times> int)) list \<Rightarrow> bundle_component \<Rightarrow> bool" where
  "component_stored sha256 files c \<longleftrightarrow>
     (\<exists>data. map_of files (co_Path c) = Some (data, parseMode (co_Mode c)) \<and> int (length data) = co_Size c \<and>
        co_Digest c = ''sha256:'' @ digestBytes sha256 data)"

lemma extract_components_Inr:
  "extract_components w comps items files = Inr (files', rest) \<Longrightarrow> \<forall>c \<in> set comps. 0 \<le> co_Size c \<Longrightarrow>
   (\<forall>n. map_of files n \<noteq> None \<longrightarrow> map_of files' n = map_of files n) \<and>
   (\<forall>c \<in> set comps. component_stored (ie_sha256 (iw_env w)) files' c) \<and>
   fst ` set files' = fst ` set files \<union> co_Path ` set comps"
proof (induction w comps items files rule: extract_components.induct)
  case (2 w d comps header contents items files)
  let ?data = "take (nat (co_Size d)) contents"
  let ?files = "(co_Path d, (?data, parseMode (co_Mode d))) # files"
  have c: "validateOuterHeader header (co_Path d) (parseMode (co_Mode d)) (co_Size d)"
    "\<not> (iw_component_fault w (co_Path d) \<or> map_of files (co_Path d) \<noteq> None)" "\<not> int (length contents) < co_Size d"
    "''sha256:'' @ digestBytes (ie_sha256 (iw_env w)) ?data = co_Digest d"
    "extract_components w comps items ?files = Inr (files', rest)"
    using "2.prems"(1) by (auto simp: Let_def split: if_splits)
  have ih: "(\<forall>n. map_of ?files n \<noteq> None \<longrightarrow> map_of files' n = map_of ?files n) \<and>
      (\<forall>c \<in> set comps. component_stored (ie_sha256 (iw_env w)) files' c) \<and>
      fst ` set files' = fst ` set ?files \<union> co_Path ` set comps"
    using "2.IH" [OF refl refl refl _ c(2,3) refl] c(1,4,5) "2.prems"(2) by simp
  have "map_of files' (co_Path d) = Some (?data, parseMode (co_Mode d))"
    using ih [THEN conjunct1, rule_format, of "co_Path d"] by simp
  then have "component_stored (ie_sha256 (iw_env w)) files' d"
    using c(3,4) "2.prems"(2) unfolding component_stored_def by (auto simp: min_def)
  moreover have "\<forall>n. map_of files n \<noteq> None \<longrightarrow> map_of files' n = map_of files n"
  proof (intro allI impI)
    fix n assume n: "map_of files n \<noteq> None"
    then have "n \<noteq> co_Path d" using c(2) by auto
    then show "map_of files' n = map_of files n"
      using ih [THEN conjunct1, rule_format, of n] n by simp
  qed
  ultimately show ?case using ih by auto
qed simp_all

definition approved :: "install_world \<Rightarrow> bytes \<Rightarrow> staged \<Rightarrow> bool" where
  "approved w archive s \<longleftrightarrow>
     (\<exists>man lock policyBytes initBytes rootfsBytes es.
        decodeManifest (iw_manifest_codec w) (canonicalJSON (dc_encode (iw_manifest_codec w)) man) = Inr man \<and>
        (\<forall>c \<in> set (slice (mf_Components man)). component_stored (ie_sha256 (iw_env w)) (sg_files s) c) \<and>
        fst ` set (sg_files s) = insert ''manifest.json'' (co_Path ` set bundleV1Components) \<and>
        map_of (sg_files s) ''manifest.json'' = Some (canonicalJSON (dc_encode (iw_manifest_codec w)) man, 0x124) \<and>
        map_of (sg_files s) ''system-call-policy.json'' = Some (policyBytes, 0x124) \<and>
        map_of (sg_files s) ''sandbox-init'' = Some (initBytes, 0x16D) \<and>
        map_of (sg_files s) ''rootfs.tar'' = Some (rootfsBytes, 0x124) \<and>
        map_of (sg_files s) ''profile.lock.json'' = Some (canonicalJSON (dc_encode (iw_lock_codec w)) lock, 0x124) \<and>
        Canonical (iw_scan w) (iw_encode w) policyBytes = Inr policyBytes \<and>
        validateBuildLock (iw_url_parse w) lock = None \<and>
        mf_Target man = bl_Target lock \<and> pythonRuntimeEqual (mf_Python man) (bl_Python lock) \<and>
        rootfs_ok es \<and> unreserved es \<and>
        ie_sha256 (iw_env w) rootfsBytes = ie_sha256 (iw_env w) (ie_tar_write (iw_env w) (rootfs_archive es)) \<and>
        map_of (sg_rootfs s) = installed_tree (iw_env w) 0x16D es initBytes policyBytes)"

lemma manifest_paths:
  assumes "manifest_ok man"
  shows "co_Path ` set (slice (mf_Components man)) = co_Path ` set bundleV1Components"
    and "\<forall>c \<in> set (slice (mf_Components man)). 0 < co_Size c"
    and "\<forall>c \<in> set bundleV1Components. \<exists>d \<in> set (slice (mf_Components man)). co_Path d = co_Path c \<and> co_Mode d = co_Mode c"
proof -
  have l: "list_all2 (\<lambda>want got. co_Path got = co_Path want \<and> co_Mode got = co_Mode want \<and> 0 < co_Size got)
      bundleV1Components (slice (mf_Components man))"
    using assms unfolding manifest_ok_def by (auto elim!: list_all2_mono)
  have "map co_Path (slice (mf_Components man)) = map co_Path bundleV1Components"
    using l by (auto simp: list_all2_conv_all_nth intro!: nth_equalityI)
  then show "co_Path ` set (slice (mf_Components man)) = co_Path ` set bundleV1Components"
    by (metis set_map)
  show "\<forall>c \<in> set (slice (mf_Components man)). 0 < co_Size c"
    using l by (auto simp: list_all2_conv_all_nth in_set_conv_nth)
  show "\<forall>c \<in> set bundleV1Components. \<exists>d \<in> set (slice (mf_Components man)). co_Path d = co_Path c \<and> co_Mode d = co_Mode c"
    using l by (fastforce simp: list_all2_conv_all_nth in_set_conv_nth)
qed

lemma component_paths:
  "co_Path ` set bundleV1Components = {''profile.lock.json'', ''system-call-policy.json'', ''sandbox-init'', ''rootfs.tar''}"
  "map (\<lambda>c. (co_Path c, parseMode (co_Mode c))) bundleV1Components =
     [(''profile.lock.json'', 0x124), (''system-call-policy.json'', 0x124), (''sandbox-init'', 0x16D), (''rootfs.tar'', 0x124)]"
  by (simp_all add: bundleV1Components_def contract_def parseMode_def)

lemma stored_file:
  assumes "\<forall>c \<in> set comps. component_stored h files c"
    and "\<exists>d \<in> set comps. co_Path d = n \<and> co_Mode d = m"
  shows "\<exists>data. map_of files n = Some (data, parseMode m)"
  using assms unfolding component_stored_def by auto

lemma extractApproved_approved:
  assumes "extractApprovedBundle w archive = Inr s"
  shows "approved w archive s"
proof -
  obtain header :: tar_header and contents items man files lock policyBytes where
    mb: "decodeManifest (iw_manifest_codec w) (limit_read (th_Size header + 1) contents) = Inr man"
    and ex: "extract_components w (slice (mf_Components man)) items
        [(''manifest.json'', (limit_read (th_Size header + 1) contents, 0x124))] = Inr (files, [])"
    and docs: "check_bundle_documents w man files = Inr (lock, policyBytes)"
    and rf: "extract_rootfs_component w lock policyBytes files = Inr s"
    using assms
    by (auto simp: extractApprovedBundle_def Let_def
        split: if_splits list.splits tar_item.splits sum.splits prod.splits)
  let ?m = "limit_read (th_Size header + 1) contents" and ?h = "ie_sha256 (iw_env w)"
  have man: "manifest_ok man" "?m = canonicalJSON (dc_encode (iw_manifest_codec w)) man"
    "dc_decode (iw_manifest_codec w) ?m = Some man"
    using mb unfolding decodeManifest_iff by auto
  note mp = manifest_paths [OF man(1)]
  have "\<forall>c \<in> set (slice (mf_Components man)). 0 \<le> co_Size c" using mp(2) by auto
  note x = extract_components_Inr [OF ex this]
  have mfile: "map_of files ''manifest.json'' = Some (?m, 0x124)"
    using x [THEN conjunct1, rule_format, of "''manifest.json''"] by simp
  have st: "\<forall>c \<in> set (slice (mf_Components man)). component_stored ?h files c" using x by blast
  have keys: "fst ` set files = insert ''manifest.json'' (co_Path ` set bundleV1Components)"
    using x mp(1) by simp
  have stored: "\<exists>data. map_of files n = Some (data, md)" if "(n, md) \<in> set (map (\<lambda>c. (co_Path c, parseMode (co_Mode c))) bundleV1Components)" for n md
    using that mp(3) stored_file [OF st, of n] by fastforce
  note stored' = stored [unfolded component_paths(2)]
  obtain initBytes where ini: "map_of files ''sandbox-init'' = Some (initBytes, 0x16D)"
    using stored' [of "''sandbox-init''" "0x16D"] by auto
  obtain rootfsBytes where rfb: "map_of files ''rootfs.tar'' = Some (rootfsBytes, 0x124)"
    using stored' [of "''rootfs.tar''" "0x124"] by auto
  obtain pb where pb: "map_of files ''system-call-policy.json'' = Some (pb, 0x124)"
    using stored' [of "''system-call-policy.json''" "0x124"] by auto
  obtain lb where lb: "map_of files ''profile.lock.json'' = Some (lb, 0x124)"
    using stored' [of "''profile.lock.json''" "0x124"] by auto
  have d: "pb = policyBytes" "Canonical (iw_scan w) (iw_encode w) policyBytes = Inr policyBytes"
    "decodeBuildLock (iw_url_parse w) (iw_lock_codec w) lb = Inr (lock, lb)"
    "mf_Target man = bl_Target lock" "pythonRuntimeEqual (mf_Python man) (bl_Python lock)"
    using docs pb lb unfolding check_bundle_documents_def
    by (auto split: if_splits sum.splits prod.splits)
  have dl: "lb = canonicalJSON (dc_encode (iw_lock_codec w)) lock" "validateBuildLock (iw_url_parse w) lock = None"
    using d(3) by (auto simp: decodeBuildLock_def split: option.splits)
  obtain fs where fs: "extractRootFS (iw_env w) rootfsBytes initBytes policyBytes (py_Entrypoint (bl_Python lock)) = Inr fs"
    "s = \<lparr>sg_files = files, sg_rootfs = fs\<rparr>"
    using rf rfb ini by (auto simp: extract_rootfs_component_def split: sum.splits)
  obtain es where es: "rootfs_ok es" "unreserved es"
    "?h rootfsBytes = ?h (ie_tar_write (iw_env w) (rootfs_archive es))"
    "map_of fs = installed_tree (iw_env w) 0x16D es initBytes policyBytes"
    using extractRootFS_Inr [OF fs(1)] by blast
  have "decodeManifest (iw_manifest_codec w) (canonicalJSON (dc_encode (iw_manifest_codec w)) man) = Inr man"
    using mb man(2) by simp
  then show ?thesis
    unfolding approved_def
    using st keys mfile ini rfb pb lb d dl fs(2) es man(2) by (metis staged.select_convs(1,2))
qed

section \<open>The store\<close>

definition verified_tree :: "store_world \<Rightarrow> bytes \<Rightarrow> tree \<Rightarrow> bool" where
  "verified_tree w digest t \<longleftrightarrow>
     (\<exists>archive s. digestBytes (ie_sha256 (iw_env (sw_install w))) archive = digest \<and>
        approved (sw_install w) archive s \<and> t = flat_tree (iw_env (sw_install w)) 0x16D s)"

lemma installedTreesEqual_refl: "installedTreesEqual h t t"
  by (simp add: installedTreesEqual_def Let_def list.rel_refl)

lemma install_stage_verified:
  "install_stage w digest = Inr s \<Longrightarrow> verified_tree w digest (flat_tree (iw_env (sw_install w)) 0x16D s)"
proof -
  assume "install_stage w digest = Inr s"
  then obtain archive where "digestBytes (ie_sha256 (iw_env (sw_install w))) archive = digest"
    "extractApprovedBundle (sw_install w) archive = Inr s"
    by (auto simp: install_stage_def copyApprovedBundle_def Let_def split: if_splits sum.splits)
  then show ?thesis using extractApproved_approved unfolding verified_tree_def by blast
qed

lemma install_publish_effect:
  assumes "install_publish w digest t ids = (r, ids', b)"
  shows "\<forall>d. ids' d \<noteq> ids d \<longrightarrow> d = digest \<and> (\<forall>old. ids d = Some old \<longrightarrow> empty_directory old) \<and> (ids' d = None \<or> ids' d = Some t)"
    and "\<forall>p. r = Inr p \<longrightarrow> p = ''sha256/'' @ digest \<and>
      (\<exists>t'. ids' digest = Some t' \<and> installedTreesEqual (ie_sha256 (iw_env (sw_install w))) t t')"
  using assms installedTreesEqual_refl
  by (auto simp: install_publish_def Let_def split: if_splits option.splits)

lemma Install_effect:
  assumes "Install w store = (r, store')"
  shows "\<forall>d. ps_ids store' d \<noteq> ps_ids store d \<longrightarrow> d = sw_expected w \<and>
      (\<forall>old. ps_ids store d = Some old \<longrightarrow> empty_directory old) \<and>
      (\<forall>t. ps_ids store' d = Some t \<longrightarrow> verified_tree w d t)"
    and "\<forall>p. r = Inr p \<longrightarrow> p = ''sha256/'' @ sw_expected w \<and>
      (\<exists>t t'. verified_tree w (sw_expected w) t \<and> ps_ids store' (sw_expected w) = Some t' \<and>
         installedTreesEqual (ie_sha256 (iw_env (sw_install w))) t t')"
proof -
  have "(\<forall>d. ps_ids store' d \<noteq> ps_ids store d \<longrightarrow> d = sw_expected w \<and>
      (\<forall>old. ps_ids store d = Some old \<longrightarrow> empty_directory old) \<and>
      (\<forall>t. ps_ids store' d = Some t \<longrightarrow> verified_tree w d t)) \<and>
    (\<forall>p. r = Inr p \<longrightarrow> p = ''sha256/'' @ sw_expected w \<and>
      (\<exists>t t'. verified_tree w (sw_expected w) t \<and> ps_ids store' (sw_expected w) = Some t' \<and>
         installedTreesEqual (ie_sha256 (iw_env (sw_install w))) t t'))"
  proof (cases "install_checks w")
    case (Inl e)
    then show ?thesis using assms by (auto simp: Install_def)
  next
    case (Inr ds)
    then obtain digest stage where c: "install_checks w = Inr (digest, stage)" by (cases ds) auto
    then have dg: "digest = sw_expected w"
      by (auto simp: install_checks_def parseExpectedSHA256_def split: if_splits option.splits)
    show ?thesis
    proof (cases "install_stage w digest")
      case (Inl e)
      then have "ps_ids store' = ps_ids store \<and> (\<exists>e. r = Inl e)"
        using assms c by (auto simp: Install_def split: if_splits)
      then show ?thesis by auto
    next
      case (Inr s)
      let ?t = "flat_tree (iw_env (sw_install w)) 0x16D s"
      obtain r1 ids b where p: "install_publish w digest ?t (ps_ids store) = (r1, ids, b)"
        by (metis prod_cases3)
      have out: "ps_ids store' = ids" "\<forall>q. r = Inr q \<longrightarrow> r1 = Inr q"
        using assms c Inr p by (auto simp: Install_def split: if_splits sum.splits)
      note v = install_stage_verified [OF Inr]
      note e = install_publish_effect [OF p]
      show ?thesis unfolding out(1) dg [symmetric]
      proof (intro conjI allI impI)
        fix d assume d: "ids d \<noteq> ps_ids store d"
        then have x: "d = digest" "\<forall>old. ps_ids store d = Some old \<longrightarrow> empty_directory old"
          "ids d = None \<or> ids d = Some ?t" using e(1) by blast+
        then show "d = digest" "ps_ids store d = Some old \<Longrightarrow> empty_directory old" for old by blast+
        show "verified_tree w d t" if "ids d = Some t" for t using x(1,3) that v by auto
      next
        fix q assume "r = Inr q"
        then have "r1 = Inr q" using out(2) by blast
        then show "q = ''sha256/'' @ digest"
          "\<exists>t t'. verified_tree w digest t \<and> ids digest = Some t' \<and>
             installedTreesEqual (ie_sha256 (iw_env (sw_install w))) t t'"
          using e(2) v by blast+
      qed
    qed
  qed
  then show "\<forall>d. ps_ids store' d \<noteq> ps_ids store d \<longrightarrow> d = sw_expected w \<and>
      (\<forall>old. ps_ids store d = Some old \<longrightarrow> empty_directory old) \<and>
      (\<forall>t. ps_ids store' d = Some t \<longrightarrow> verified_tree w d t)"
    "\<forall>p. r = Inr p \<longrightarrow> p = ''sha256/'' @ sw_expected w \<and>
      (\<exists>t t'. verified_tree w (sw_expected w) t \<and> ps_ids store' (sw_expected w) = Some t' \<and>
         installedTreesEqual (ie_sha256 (iw_env (sw_install w))) t t')"
    by blast+
qed

text \<open>The store as a state machine: any sequence of installations, on any machines and with any bundles.\<close>

inductive store_reachable :: "(bytes \<Rightarrow> bytes) \<Rightarrow> profile_store \<Rightarrow> profile_store \<Rightarrow> bool" for sha256 where
  store_start: "store_reachable sha256 store store"
| store_install: "store_reachable sha256 store0 store \<Longrightarrow> ie_sha256 (iw_env (sw_install w)) = sha256 \<Longrightarrow>
    Install w store = (r, store') \<Longrightarrow> store_reachable sha256 store0 store'"

lemma store_reachable_keeps:
  "store_reachable h store0 store \<Longrightarrow> ps_ids store0 d = Some t \<Longrightarrow> \<not> empty_directory t \<Longrightarrow> ps_ids store d = Some t"
proof (induction rule: store_reachable.induct)
  case (store_install store0 store w r store')
  then show ?case using Install_effect(1) [OF store_install.hyps(3)] by (metis option.inject)
qed simp

lemma store_reachable_verified:
  "store_reachable h store0 store \<Longrightarrow> ps_ids store d = Some t \<Longrightarrow>
   ps_ids store0 d = Some t \<or> (\<exists>w. ie_sha256 (iw_env (sw_install w)) = h \<and> verified_tree w d t)"
proof (induction rule: store_reachable.induct)
  case (store_install store0 store w r store')
  then show ?case using Install_effect(1) [OF store_install.hyps(3)] by metis
qed simp

section \<open>From the build to the store\<close>

text \<open>A part as the build makes it.\<close>

definition good_part :: "(bytes \<Rightarrow> bytes) \<Rightarrow> bundlePart \<Rightarrow> bool" where
  "good_part sha256 p \<longleftrightarrow> co_Size (bp_component p) = int (length (bp_contents p)) \<and>
     co_Digest (bp_component p) = ''sha256:'' @ digestBytes sha256 (bp_contents p)"

definition stored :: "bundlePart \<Rightarrow> bytes \<times> (bytes \<times> int)" where
  "stored p = (co_Path (bp_component p), (bp_contents p, parseMode (co_Mode (bp_component p))))"

definition part_entry :: "bundlePart \<Rightarrow> tar_header \<times> bytes" where
  "part_entry p = (outer_header (co_Path (bp_component p)) (parseMode (co_Mode (bp_component p)))
     (co_Size (bp_component p)), bp_contents p)"

lemma outer_header_valid [simp]: "validateOuterHeader (outer_header n m sz) n m sz" "th_Size (outer_header n m sz) = sz"
  by (simp_all add: validateOuterHeader_def outer_header_def canonicalTarHeader_def)

lemma extract_components_ok:
  "\<forall>p \<in> set parts. good_part (ie_sha256 (iw_env w)) p \<Longrightarrow> \<forall>n. \<not> iw_component_fault w n \<Longrightarrow>
   distinct (map (co_Path \<circ> bp_component) parts) \<Longrightarrow>
   set (map (co_Path \<circ> bp_component) parts) \<inter> fst ` set files = {} \<Longrightarrow>
   extract_components w (map bp_component parts) (archive_items (map part_entry parts)) files =
     Inr (rev (map stored parts) @ files, [])"
proof (induction parts arbitrary: files)
  case (Cons p parts)
  let ?files = "stored p # files"
  have g: "co_Size (bp_component p) = int (length (bp_contents p))"
    "''sha256:'' @ digestBytes (ie_sha256 (iw_env w)) (bp_contents p) = co_Digest (bp_component p)"
    using Cons.prems(1) by (auto simp: good_part_def)
  have free: "map_of files (co_Path (bp_component p)) = None"
    using Cons.prems(4) by (auto simp: map_of_eq_None_iff)
  have "extract_components w (map bp_component parts) (archive_items (map part_entry parts)) ?files =
      Inr (rev (map stored parts) @ ?files, [])"
    by (rule Cons.IH) (use Cons.prems in \<open>auto simp: stored_def\<close>)
  moreover have "archive_items (map part_entry (p # parts)) =
      TarEntry (outer_header (co_Path (bp_component p)) (parseMode (co_Mode (bp_component p))) (co_Size (bp_component p)))
        (bp_contents p) # archive_items (map part_entry parts)"
    by (simp add: archive_items_def part_entry_def)
  ultimately show ?case
    using g free Cons.prems(2) by (simp add: Let_def stored_def)
qed (simp add: archive_items_def)

lemma build_parts_eq:
  "build_parts w l p i r =
     [newMemoryPart (b_sha256 (bw_sources w)) (bundleV1Components ! 0) l,
      newMemoryPart (b_sha256 (bw_sources w)) (bundleV1Components ! 1) p,
      newMemoryPart (b_sha256 (bw_sources w)) (bundleV1Components ! 2) i,
      newMemoryPart (b_sha256 (bw_sources w)) (bundleV1Components ! 3) r]"
  by (simp add: build_parts_def bundleV1Components_def numeral_3_eq_3)

lemma build_parts_good: "p \<in> set (build_parts w l po i r) \<Longrightarrow> good_part (b_sha256 (bw_sources w)) p"
  unfolding build_parts_eq by (auto simp: good_part_def newMemoryPart_def)

lemma build_manifest_ok:
  assumes "validateBuildLock up lock = None" and "\<forall>x. length (b_sha256 (bw_sources w) x) = 32"
    and "l \<noteq> []" "p \<noteq> []" "i \<noteq> []" "r \<noteq> []"
  shows "manifest_ok (build_manifest lock (build_parts w l p i r))"
proof -
  have "bt_OS (bl_Target lock) = ''linux''" "bt_Arch (bl_Target lock) = ''amd64''"
    using assms(1) by (auto simp: validateBuildLock_def split: if_splits)
  then have t: "bl_Target lock = \<lparr>bt_OS = ''linux'', bt_Arch = ''amd64''\<rparr>" by (cases "bl_Target lock") simp
  have d: "parseDigest (''sha256:'' @ digestBytes (b_sha256 (bw_sources w)) x) \<noteq> None" for x
    using parseDigest_encode [of "b_sha256 (bw_sources w) x"] assms(2) by (simp add: digestBytes_def)
  show ?thesis
    using t d assms(3-6) unfolding manifest_ok_def build_manifest_def build_parts_eq
    by (simp add: components_def newMemoryPart_def bundleV1Components_def numeral_3_eq_3)
qed

text \<open>What \<open>Build\<close> read and wrote when it succeeds.\<close>

definition bundle_manifest_bytes :: "build_world \<Rightarrow> buildLock \<Rightarrow> bytes \<Rightarrow> bytes \<Rightarrow> bytes \<Rightarrow> bytes \<Rightarrow> bytes" where
  "bundle_manifest_bytes w lock l p i r =
     canonicalJSON (dc_encode (bw_manifest_codec w)) (build_manifest lock (build_parts w l p i r))"

lemma Build_Inr:
  assumes "Build w out = (Inr digest, out')"
  obtains lock l p i es where
    "readBuildLock w = Inr (lock, l)" "readSystemCallPolicy w = Inr p"
    "readRegularFile maximumInitSize (bw_init w) = Inr i" "i \<noteq> []"
    "collect_rootfs (bw_sources w) lock = Inr es" "out = None"
    "out' = Some (bw_tar_write w (outer_archive
        (bundle_manifest_bytes w lock l p i (bw_tar_write w (rootfs_archive es)))
        (build_parts w l p i (bw_tar_write w (rootfs_archive es)))))"
    "digest = digestBytes (b_sha256 (bw_sources w)) (the out')"
  using assms
  by (auto simp: Build_def writeBundle_def buildRootFS_def bundle_manifest_bytes_def Let_def
      split: if_splits sum.splits prod.splits)

text \<open>
  A bundle of the build is the only thing \<open>Build\<close> ever leaves behind, an existing output is kept, and
  on success the digest is that of the bundle.
\<close>

lemma Build_output:
  assumes "Build w out = (r, out')"
  shows "out \<noteq> None \<Longrightarrow> out' = out \<and> (\<forall>d. r \<noteq> Inr d)"
    and "r = Inr digest \<Longrightarrow> \<exists>bundle. out' = Some bundle \<and> digest = digestBytes (b_sha256 (bw_sources w)) bundle"
    and "r = Inl e \<Longrightarrow> out' = out \<or> out' = bw_race w \<or> bw_fault w 14"
  using assms
  by (auto simp: Build_def writeBundle_def Let_def split: if_splits sum.splits prod.splits)

text \<open>The machine that installs uses the same codecs and digest, and nothing fails on it.\<close>

definition same_codecs :: "build_world \<Rightarrow> install_world \<Rightarrow> bool" where
  "same_codecs w iw \<longleftrightarrow>
     iw_url_parse iw = bw_url_parse w \<and> iw_lock_codec iw = bw_lock_codec w \<and>
     iw_manifest_codec iw = bw_manifest_codec w \<and> iw_scan iw = bw_scan w \<and> iw_encode iw = bw_encode w \<and>
     ie_sha256 (iw_env iw) = b_sha256 (bw_sources w) \<and> ie_tar_write (iw_env iw) = bw_tar_write w \<and>
     (\<forall>x. length (b_sha256 (bw_sources w) x) = 32)"

definition bundle_no_fault :: "install_world \<Rightarrow> bool" where
  "bundle_no_fault iw \<longleftrightarrow> no_fault (iw_env iw) \<and> (\<forall>n. \<not> iw_fault iw n) \<and> (\<forall>n. \<not> iw_component_fault iw n)"

text \<open>
  The documented behaviour of the codecs on the documents and archives at hand: JSON and tar decode
  what they encoded, and an archive in USTAR format has a header block per entry, contents padded to
  blocks and two closing blocks.
\<close>

definition codecs_faithful ::
  "build_world \<Rightarrow> install_world \<Rightarrow> buildLock \<Rightarrow> bytes \<Rightarrow> bytes \<Rightarrow> bytes \<Rightarrow> rootfsBuildEntry list \<Rightarrow> bool" where
  "codecs_faithful w iw lock l p i es \<longleftrightarrow>
     (let rootfs = bw_tar_write w (rootfs_archive es);
          parts = build_parts w l p i rootfs; man = build_manifest lock parts;
          mb = bundle_manifest_bytes w lock l p i rootfs; outer = outer_archive mb parts in
      dc_decode (bw_lock_codec w) l = Some lock \<and> dc_decode (bw_manifest_codec w) mb = Some man \<and>
      (\<forall>v. p = bw_encode w v @ [CHR 0x0A] \<longrightarrow> bw_scan w p = print v) \<and>
      ie_tar_read (iw_env iw) rootfs = archive_items (rootfs_archive es) \<and> rootfs \<noteq> [] \<and>
      ie_tar_read (iw_env iw) (bw_tar_write w outer) = archive_items outer \<and>
      int (length (bw_tar_write w outer)) =
        canonicalOuterTarSize (int (length mb)) (components parts))"

text \<open>The limits that the installation checks and the build does not.\<close>

definition documents_fit :: "build_world \<Rightarrow> buildLock \<Rightarrow> bytes \<Rightarrow> bytes \<Rightarrow> bytes \<Rightarrow> rootfsBuildEntry list \<Rightarrow> bool" where
  "documents_fit w lock l p i es \<longleftrightarrow> int (length p) \<le> maximumPolicySize \<and>
     int (length (bundle_manifest_bytes w lock l p i (bw_tar_write w (rootfs_archive es)))) \<le> maximumPolicySize"

lemma canonicalJSON_nonempty [simp]: "canonicalJSON f v \<noteq> []"
  by (simp add: canonicalJSON_def)

lemma readBuildLock_Inr:
  "readBuildLock w = Inr (lock, l) \<Longrightarrow>
   validateBuildLock (bw_url_parse w) lock = None \<and> l = canonicalJSON (dc_encode (bw_lock_codec w)) lock"
  by (auto simp: readBuildLock_def decodeBuildLock_def split: sum.splits option.splits)

lemma readPolicy_again:
  assumes "readSystemCallPolicy w = Inr p" and "int (length p) \<le> maximumPolicySize"
    and "\<forall>v. p = bw_encode w v @ [CHR 0x0A] \<longrightarrow> bw_scan w p = print v"
  shows "Canonical (bw_scan w) (bw_encode w) p = Inr p" and "p \<noteq> []"
proof -
  obtain raw where raw: "Canonical (bw_scan w) (bw_encode w) raw = Inr p"
    using assms(1) by (auto simp: readSystemCallPolicy_def split: sum.splits)
  then show "p \<noteq> []" by (auto simp: Canonical_def split: sum.splits)
  have "length p \<le> 1048576" using assms(2) by (simp add: bundle_limits)
  then show "Canonical (bw_scan w) (bw_encode w) p = Inr p"
    using canonical_again [OF raw _ assms(3)] by blast
qed

lemma built_documents_accepted:
  assumes sc: "same_codecs w iw" and nf: "bundle_no_fault iw"
    and rl: "readBuildLock w = Inr (lock, l)" and rp: "readSystemCallPolicy w = Inr p" and i: "i \<noteq> []"
    and cf: "codecs_faithful w iw lock l p i es" and fit: "documents_fit w lock l p i es"
  shows "extractApprovedBundle iw (bw_tar_write w (outer_archive
        (bundle_manifest_bytes w lock l p i (bw_tar_write w (rootfs_archive es)))
        (build_parts w l p i (bw_tar_write w (rootfs_archive es))))) =
    (case extractRootFS (iw_env iw) (bw_tar_write w (rootfs_archive es)) i p (py_Entrypoint (bl_Python lock)) of
       Inl e \<Rightarrow> Inl (RootFS e)
     | Inr fs \<Rightarrow> Inr \<lparr>sg_files = rev (map stored (build_parts w l p i (bw_tar_write w (rootfs_archive es)))) @
         [(''manifest.json'', (bundle_manifest_bytes w lock l p i (bw_tar_write w (rootfs_archive es)), 0x124))],
         sg_rootfs = fs\<rparr>)"
proof -
  define r where "r = bw_tar_write w (rootfs_archive es)"
  define parts where "parts = build_parts w l p i r"
  define mb where "mb = bundle_manifest_bytes w lock l p i r"
  define man where "man = build_manifest lock parts"
  let ?files = "rev (map stored parts) @ [(''manifest.json'', (mb, 0x124))]"
  note eqs = r_def [symmetric] parts_def [symmetric] mb_def [symmetric] man_def [symmetric]
  have c: "dc_decode (bw_lock_codec w) l = Some lock" "dc_decode (bw_manifest_codec w) mb = Some man"
    "\<forall>v. p = bw_encode w v @ [CHR 0x0A] \<longrightarrow> bw_scan w p = print v" "r \<noteq> []"
    "ie_tar_read (iw_env iw) (bw_tar_write w (outer_archive mb parts)) = archive_items (outer_archive mb parts)"
    "int (length (bw_tar_write w (outer_archive mb parts))) = canonicalOuterTarSize (int (length mb)) (components parts)"
    using cf unfolding codecs_faithful_def Let_def eqs by auto
  note lk = readBuildLock_Inr [OF rl]
  have f: "int (length p) \<le> maximumPolicySize" "int (length mb) \<le> maximumPolicySize"
    using fit unfolding documents_fit_def eqs by auto
  note pol = readPolicy_again [OF rp f(1) c(3)]
  have h: "\<forall>x. length (b_sha256 (bw_sources w) x) = 32" using sc by (simp add: same_codecs_def)
  have "l \<noteq> []" using lk by simp
  then have ok: "manifest_ok man"
    unfolding man_def parts_def by (rule build_manifest_ok [OF conjunct1 [OF lk] h _ pol(2) i c(4)])
  have mbeq: "mb = canonicalJSON (dc_encode (bw_manifest_codec w)) man"
    unfolding mb_def bundle_manifest_bytes_def man_def parts_def ..
  have dm: "decodeManifest (iw_manifest_codec iw) mb = Inr man"
    unfolding decodeManifest_iff using c(2) ok mbeq sc by (simp add: same_codecs_def)
  have items: "archive_items (outer_archive mb parts) =
      TarEntry (outer_header ''manifest.json'' 0x124 (int (length mb))) mb # archive_items (map part_entry parts)"
    by (simp add: archive_items_def outer_archive_def part_entry_def)
  have paths: "map (co_Path \<circ> bp_component) parts =
      [''profile.lock.json'', ''system-call-policy.json'', ''sandbox-init'', ''rootfs.tar'']"
    by (simp add: parts_def build_parts_eq newMemoryPart_def bundleV1Components_def contract_def numeral_3_eq_3)
  have ex: "extract_components iw (map bp_component parts) (archive_items (map part_entry parts))
      [(''manifest.json'', (mb, 0x124))] = Inr (?files, [])"
    by (rule extract_components_ok)
      (use build_parts_good sc nf paths in \<open>auto simp: parts_def same_codecs_def bundle_no_fault_def\<close>)
  have files: "map_of ?files ''system-call-policy.json'' = Some (p, 0x124)"
    "map_of ?files ''profile.lock.json'' = Some (l, 0x124)" "map_of ?files ''sandbox-init'' = Some (i, 0x16D)"
    "map_of ?files ''rootfs.tar'' = Some (r, 0x124)"
    by (simp_all add: parts_def build_parts_eq stored_def newMemoryPart_def bundleV1Components_def contract_def
        numeral_3_eq_3 parseMode_def)
  have lockdec: "decodeBuildLock (bw_url_parse w) (bw_lock_codec w) l = Inr (lock, l)"
    using c(1) lk by (simp add: decodeBuildLock_def)
  have tgt: "mf_Target man = bl_Target lock" "pythonRuntimeEqual (mf_Python man) (bl_Python lock)"
    by (simp_all add: man_def build_manifest_def pythonRuntimeEqual_iff)
  have docs: "check_bundle_documents iw man ?files = Inr (lock, p)"
    unfolding check_bundle_documents_def files using pol(1) lockdec tgt nf sc
    by (simp add: bundle_no_fault_def same_codecs_def)
  have mbne: "0 < int (length mb)" using mbeq by simp
  have comps: "slice (mf_Components man) = map bp_component parts" "components parts = map bp_component parts"
    by (simp_all add: man_def build_manifest_def components_def)
  have lim: "limit_read (int (length mb) + 1) mb = mb" by (simp add: limit_read_def)
  have "extractApprovedBundle iw (bw_tar_write w (outer_archive mb parts)) = extract_rootfs_component iw lock p ?files"
    unfolding extractApprovedBundle_def c(5) items list.case tar_item.case outer_header_valid lim comps(1)
    using nf f(2) mbne dm ex docs c(6) comps by (simp add: bundle_no_fault_def Let_def)
  then show ?thesis unfolding eqs by (simp only: extract_rootfs_component_def files option.case prod.case)
qed

text \<open>An operator runs \<open>Install\<close> as root, with the digest of the bundle, on a sound store; nothing fails.\<close>

definition store_ready :: "store_world \<Rightarrow> bytes \<Rightarrow> bytes \<Rightarrow> bool" where
  "store_ready sw digest bundle \<longleftrightarrow>
     sw_euid_root sw \<and> sw_bundle_path sw \<noteq> [] \<and> sw_expected sw = digest \<and> is_abs (sw_store_path sw) \<and>
     validateOpenedProfileStore (sw_info sw) = None \<and> ensureStoreDirectory sw ''.staging'' 0x1C0 = None \<and>
     ensureStoreDirectory sw ''sha256'' 0x1ED = None \<and> sw_random sw \<noteq> None \<and> (\<forall>n. \<not> sw_fault sw n) \<and>
     sw_bundle_regular sw \<and> sw_bundle sw = bundle \<and> sw_bundle_size sw = int (length bundle) \<and>
     bundle \<noteq> [] \<and> int (length bundle) \<le> maximumBundleSize"

lemma ready_checks:
  assumes "store_ready sw (digestBytes h bundle) bundle" and "length (h bundle) = 32"
  shows "\<exists>stage. install_checks sw = Inr (digestBytes h bundle, stage)"
proof -
  have p: "parseExpectedSHA256 (digestBytes h bundle) = Some (digestBytes h bundle)"
    using parseExpectedSHA256_encode [OF assms(2)] by (simp add: digestBytes_def)
  have "digestBytes h bundle \<noteq> []" using assms(2) by (simp add: digestBytes_def flip: length_0_conv)
  moreover have "sw_store_path sw \<noteq> []" using assms(1) by (auto simp: store_ready_def is_abs_iff)
  ultimately show ?thesis
    using assms(1) p unfolding install_checks_def store_ready_def by auto
qed

lemma ready_stage:
  assumes "store_ready sw (digestBytes (ie_sha256 (iw_env (sw_install sw))) bundle) bundle"
  shows "install_stage sw (digestBytes (ie_sha256 (iw_env (sw_install sw))) bundle) =
    (case extractApprovedBundle (sw_install sw) bundle of Inl e \<Rightarrow> Inl (BundleRejected e) | Inr s \<Rightarrow> Inr s)"
proof -
  have "limit_read (maximumBundleSize + 1) bundle = bundle"
    using assms by (auto simp: limit_read_def store_ready_def bundle_limits)
  then show ?thesis
    using assms unfolding install_stage_def copyApprovedBundle_def store_ready_def
    by (auto simp: Let_def split: sum.splits)
qed

lemma ready_Install:
  assumes "store_ready sw (digestBytes h bundle) bundle" and "length (h bundle) = 32"
    and "h = ie_sha256 (iw_env (sw_install sw))" and "ps_ids store (digestBytes h bundle) = None"
  shows "Install sw store =
    (case extractApprovedBundle (sw_install sw) bundle of
       Inl e \<Rightarrow> (Inl (BundleRejected e), store)
     | Inr s \<Rightarrow> (Inr (''sha256/'' @ digestBytes h bundle),
         store\<lparr>ps_ids := (ps_ids store)(digestBytes h bundle \<mapsto> flat_tree (iw_env (sw_install sw)) 0x16D s)\<rparr>))"
proof -
  obtain stage where c: "install_checks sw = Inr (digestBytes h bundle, stage)"
    using ready_checks [OF assms(1,2)] by blast
  have nf: "\<not> sw_fault sw n" for n using assms(1) by (simp add: store_ready_def)
  show ?thesis
    using ready_stage [of sw "bundle"] assms(1,3,4) c nf
    by (auto simp: Install_def install_publish_def split: sum.splits)
qed

section \<open>Build, then Install\<close>

text \<open>
  The two programs compose: the checks of the installation are met by what the build has checked, and
  the reserved names are the only thing the build does not look at.
\<close>

lemma build_then_install:
  assumes "Build w out = (Inr digest, Some bundle)"
    and "readBuildLock w = Inr (lock, l)" and "readSystemCallPolicy w = Inr p"
    and "readRegularFile maximumInitSize (bw_init w) = Inr i" and "collect_rootfs (bw_sources w) lock = Inr es"
    and "same_codecs w (sw_install sw)" and "bundle_no_fault (sw_install sw)"
    and "codecs_faithful w (sw_install sw) lock l p i es" and "documents_fit w lock l p i es"
    and "store_ready sw digest bundle" and "ps_ids store digest = None"
  shows "if unreserved es
    then (\<exists>t. Install sw store = (Inr (''sha256/'' @ digest), store\<lparr>ps_ids := (ps_ids store)(digest \<mapsto> t)\<rparr>) \<and>
      (\<exists>s. t = flat_tree (iw_env (sw_install sw)) 0x16D s \<and>
         map_of (sg_rootfs s) = installed_tree (iw_env (sw_install sw)) 0x16D es i p))
    else (\<exists>e. Install sw store = (Inl e, store))"
proof -
  let ?iw = "sw_install sw"
  let ?r = "bw_tar_write w (rootfs_archive es)"
  obtain lock' l' p' i' es' where b: "readBuildLock w = Inr (lock', l')" "readSystemCallPolicy w = Inr p'"
    "readRegularFile maximumInitSize (bw_init w) = Inr i'" "i' \<noteq> []" "collect_rootfs (bw_sources w) lock' = Inr es'"
    "Some bundle = Some (bw_tar_write w (outer_archive
        (bundle_manifest_bytes w lock' l' p' i' (bw_tar_write w (rootfs_archive es')))
        (build_parts w l' p' i' (bw_tar_write w (rootfs_archive es')))))"
    "digest = digestBytes (b_sha256 (bw_sources w)) (the (Some bundle))"
    using Build_Inr [OF assms(1)] by metis
  have same: "lock' = lock" "l' = l" "p' = p" "i' = i" "es' = es" using b(1-3,5) assms(2-5) by auto
  have i: "i \<noteq> []" using b(4) same by simp
  have bdl: "bundle = bw_tar_write w (outer_archive (bundle_manifest_bytes w lock l p i ?r) (build_parts w l p i ?r))"
    using b(6) by (simp add: same)
  have h: "digest = digestBytes (b_sha256 (bw_sources w)) bundle" "b_sha256 (bw_sources w) = ie_sha256 (iw_env ?iw)"
    "length (b_sha256 (bw_sources w) bundle) = 32"
    using b(7) assms(6) by (auto simp: same_codecs_def)
  note inst = ready_Install [OF _ h(3,2), where store = store, folded h(1), OF assms(10,11)]
  note ext = built_documents_accepted [OF assms(6,7,2,3) i assms(8,9), folded bdl]
  note ce = collect_rootfs_ok [OF assms(5)]
  have nf: "no_fault (iw_env ?iw)" using assms(7) by (simp add: bundle_no_fault_def)
  have v: "validateRelativePath (trim_prefix (py_Entrypoint (bl_Python lock)) ''/'')"
    using readBuildLock_Inr [OF assms(2)] by (auto simp: validateBuildLock_def split: if_splits)
  have tr: "ie_tar_read (iw_env ?iw) ?r = archive_items (rootfs_archive es)" "?r = ie_tar_write (iw_env ?iw) (rootfs_archive es)"
    using assms(6,8) by (auto simp: codecs_faithful_def Let_def same_codecs_def)
  note xok = extractRootFS_ok [OF nf ce v tr]
  show ?thesis
  proof (cases "unreserved es")
    case True
    then obtain fs where fs: "extractRootFS (iw_env ?iw) ?r i p (py_Entrypoint (bl_Python lock)) = Inr fs"
      "map_of fs = installed_tree (iw_env ?iw) 0x16D es i p" using xok(1) by blast
    then obtain s where s: "extractApprovedBundle ?iw bundle = Inr s" "sg_rootfs s = fs"
      using ext by auto
    let ?t = "flat_tree (iw_env ?iw) 0x16D s"
    have "Install sw store = (Inr (''sha256/'' @ digest), store\<lparr>ps_ids := (ps_ids store)(digest \<mapsto> ?t)\<rparr>)"
      using inst unfolding s(1) sum.case .
    moreover have "?t = flat_tree (iw_env ?iw) 0x16D s \<and> map_of (sg_rootfs s) = installed_tree (iw_env ?iw) 0x16D es i p"
      using fs(2) s(2) by simp
    ultimately show ?thesis using True by (simp only: if_True) blast
  next
    case False
    then obtain e where "extractRootFS (iw_env ?iw) ?r i p (py_Entrypoint (bl_Python lock)) = Inl e"
      using xok(2) by blast
    then show ?thesis using False inst ext by auto
  qed
qed

end
