(* ===== verification/BundleExample.thy ===== *)
theory BundleExample
  imports BundleProperties
begin

text \<open>
  A concrete bundle, its build and its installation, and the properties of the Profile Bundle with
  their instances on it.
\<close>

section \<open>A small bundle\<close>

definition demo_sha :: "bytes \<Rightarrow> bytes" where
  "demo_sha _ = replicate 32 (CHR ''a'')"

definition demo_input :: lockedInput where
  "demo_input = \<lparr>in_ID = ''base'', in_Kind = ''rootfs-overlay'', in_Version = ''1'', in_Source = ''s'',
     in_Filename = ''f'', in_Size = 1, in_Digest = ''sha256:'' @ hex_encode (demo_sha []),
     in_ArchivePrefix = [], in_Destination = [], in_Include = None, in_Exclude = None\<rparr>"

definition demo_lock :: buildLock where
  "demo_lock = \<lparr>bl_Schema = buildLockSchema, bl_Profile = bundle_profileID,
     bl_Target = \<lparr>bt_OS = ''linux'', bt_Arch = ''amd64''\<rparr>,
     bl_Python = \<lparr>py_Version = ''3'', py_Entrypoint = ''/python'', py_Packages = None\<rparr>,
     bl_Inputs = Some [demo_input]\<rparr>"

definition demo_entry :: rootfsBuildEntry where
  "demo_entry = \<lparr>be_name = ''python'', be_typeFlag = TypeReg, be_mode = 0x16D, be_size = 1,
     be_linkName = [], be_spool = ''p''\<rparr>"

definition demo_url :: url_parser where
  "demo_url _ = Some (''https'', ''host'')"

definition demo_sources :: build_env where
  "demo_sources = \<lparr>b_sha256 = demo_sha,
     b_gunzip = (\<lambda>_. Some [TarEntry (entry_header demo_entry) ''p'']),
     b_source = (\<lambda>_. \<lparr>sf_opens = True, sf_stats = True, sf_regular = True, sf_size = 1, sf_reads = True, sf_contents = ''x''\<rparr>),
     b_spool_fault = (\<lambda>_. False)\<rparr>"

definition demo_file :: "bytes \<Rightarrow> file_obs" where
  "demo_file contents = \<lparr>fo_opens = True, fo_stats = True, fo_lstats = True, fo_opened_regular = True,
     fo_path_regular = True, fo_same = True, fo_size = int (length contents), fo_reads = True, fo_contents = contents\<rparr>"

definition demo_parts :: "bundlePart list" where
  "demo_parts = map2 (newMemoryPart demo_sha) bundleV1Components
     [''l'' @ [CHR 0x0A], ''{}'' @ [CHR 0x0A], ''i'', ''r'']"

definition demo_outer :: "(tar_header \<times> bytes) list" where
  "demo_outer = outer_archive (''m'' @ [CHR 0x0A]) demo_parts"

definition demo_tar_write :: "(tar_header \<times> bytes) list \<Rightarrow> bytes" where
  "demo_tar_write a = (if length a = 1 then ''r'' else replicate 6144 (CHR ''o''))"

definition demo_tar_read :: "bytes \<Rightarrow> tar_item list" where
  "demo_tar_read b = (if b = ''r'' then archive_items (rootfs_archive [demo_entry]) else archive_items demo_outer)"

definition demo_encode :: "json \<Rightarrow> bytes" where
  "demo_encode v = (if v = policy_json example_policy then ''{}'' else ''?'')"

definition demo_build :: build_world where
  "demo_build = \<lparr>bw_options = \<lparr>LockPath = ''a'', SourceCache = ''b'', SystemCallPolicyPath = ''c'', SandboxInitPath = ''d'', OutputPath = ''e''\<rparr>,
     bw_sources = demo_sources, bw_lock = demo_file ''lock'', bw_policy = demo_file ''policy'', bw_init = demo_file ''i'',
     bw_url_parse = demo_url,
     bw_lock_codec = \<lparr>dc_decode = (\<lambda>_. Some demo_lock), dc_encode = (\<lambda>_. ''l'')\<rparr>,
     bw_manifest_codec = \<lparr>dc_decode = (\<lambda>_. Some (build_manifest demo_lock demo_parts)), dc_encode = (\<lambda>_. ''m'')\<rparr>,
     bw_scan = (\<lambda>_. print (policy_json example_policy)), bw_encode = demo_encode,
     bw_tar_write = demo_tar_write, bw_fault = (\<lambda>_. False), bw_race = None\<rparr>"

definition demo_install :: install_world where
  "demo_install = \<lparr>iw_env = \<lparr>ie_fault = (\<lambda>_. False), ie_links = 40, ie_dir_size = (\<lambda>_. 4096), ie_sha256 = demo_sha,
       ie_tar_read = demo_tar_read, ie_tar_write = demo_tar_write\<rparr>,
     iw_fault = (\<lambda>_. False), iw_component_fault = (\<lambda>_. False), iw_url_parse = demo_url,
     iw_lock_codec = bw_lock_codec demo_build, iw_manifest_codec = bw_manifest_codec demo_build,
     iw_scan = bw_scan demo_build, iw_encode = demo_encode\<rparr>"

definition demo_bundle :: bytes where "demo_bundle = replicate 6144 (CHR ''o'')"

definition demo_digest :: bytes where "demo_digest = digestBytes demo_sha demo_bundle"

definition demo_store :: store_world where
  "demo_store = \<lparr>sw_install = demo_install, sw_euid_root = True, sw_bundle_path = ''b'', sw_expected = demo_digest,
     sw_store_path = ''/s'',
     sw_info = Some \<lparr>si_opened_dir = True, si_path_dir = True, si_path_symlink = False, si_opened_dev = 1,
       si_opened_ino = 2, si_path_dev = 1, si_path_ino = 2, si_uid = 0, si_gid = 0, si_perm = 0x1ED\<rparr>,
     sw_mkdir = (\<lambda>_. MkdirExists),
     sw_dir = (\<lambda>name. Some \<lparr>di_is_dir = True, di_perm = (if name = ''sha256'' then 0x1ED else 0x1C0), di_uid = 0, di_gid = 0\<rparr>),
     sw_random = Some ''0123456789abcdef'', sw_fault = (\<lambda>_. False), sw_bundle_regular = True,
     sw_bundle_size = 6144, sw_bundle = demo_bundle\<rparr>"

definition empty_store :: profile_store where
  "empty_store = \<lparr>ps_ids = (\<lambda>_. None), ps_staging = []\<rparr>"

lemma demo_sha_length [simp]: "length (demo_sha x) = 32"
  by (simp add: demo_sha_def)

lemma demo_digest_ok: "parseDigest (''sha256:'' @ hex_encode (demo_sha [])) = Some (hex_encode (demo_sha []))"
  by (rule parseDigest_encode) simp

lemma demo_names:
  "validateRelativePath ''python''" "filepath_base ''f'' = ''f''" "\<not> floating ''1''"
  by code_simp+

lemma demo_lock_valid: "validateBuildLock demo_url demo_lock = None"
proof -
  have "trim_prefix ''/python'' ''/'' = ''python''" "is_abs ''/python''" by code_simp+
  moreover have "validateLockedInput demo_url demo_input = None"
    using demo_names(2,3) demo_digest_ok
    by (simp add: validateLockedInput_def demo_input_def demo_url_def Let_def bundle_limits slice_def)
  ultimately show ?thesis
    using demo_names(1) by (simp add: validateBuildLock_def demo_lock_def slice_def)
qed

lemma demo_readBuildLock: "readBuildLock demo_build = Inr (demo_lock, ''l'' @ [CHR 0x0A])"
  using demo_lock_valid
  by (simp add: readBuildLock_def demo_build_def readRegularFile_def demo_file_def bundle_limits limit_read_def
      decodeBuildLock_def canonicalJSON_def)

lemma demo_readPolicy: "readSystemCallPolicy demo_build = Inr (''{}'' @ [CHR 0x0A])"
proof -
  have "Parse (\<lambda>_. print (policy_json example_policy)) ''policy'' = Inr example_policy"
    unfolding Parse_iff using policy_scannable policy_round_trip [OF example_policy_valid] example_policy_compiles by fastforce
  then show ?thesis
    by (simp add: readSystemCallPolicy_def demo_build_def readRegularFile_def demo_file_def bundle_limits
        limit_read_def Canonical_def demo_encode_def)
qed

lemma demo_readInit: "readRegularFile maximumInitSize (bw_init demo_build) = Inr ''i''"
  by (simp add: demo_build_def readRegularFile_def demo_file_def bundle_limits limit_read_def)

lemma demo_mapping: "mapSourcePath ''python'' demo_input = Inr (Some ''python'')"
proof -
  have "trim_suffix (trim_prefix ''python'' ''./'') ''/'' = ''python''" by code_simp
  then show ?thesis using demo_names(1)
    by (simp add: mapSourcePath_def demo_input_def Let_def slice_def excluded_def)
qed

lemma demo_checks:
  "validateRootFSItemClosure [demo_entry] = None" "validateRootFSEntrypoint [demo_entry] ''/python'' = None"
  by code_simp+

lemma demo_collect: "collect_rootfs demo_sources demo_lock = Inr [demo_entry]"
proof -
  have "readLockedSource demo_sha (b_source demo_sources ''f'') demo_input = Inr ''x''"
    using demo_digest_ok
    by (simp add: readLockedSource_def demo_sources_def demo_input_def limit_read_def digestBytes_def demo_sha_def)
  then have "spoolLockedInput demo_sources demo_input ''/python'' [] zero_budget =
      Inr (True, [demo_entry], \<lparr>scannedItems = 1, scannedBytes = 1, outputItems = 1, outputBytes = 1\<rparr>)"
    using demo_mapping
    by (simp add: spoolLockedInput_def demo_sources_def demo_entry_def entry_header_def canonicalTarHeader_def
        spool_scan_def spool_entry_def zero_budget_def bundle_limits Let_def demo_input_def)
  then show ?thesis
    using demo_checks by (simp add: collect_rootfs_def demo_lock_def slice_def Let_def)
qed

lemma demo_rootfs: "demo_tar_write (rootfs_archive [demo_entry]) = ''r''"
  by (simp add: demo_tar_write_def rootfs_archive_def)

lemma demo_parts_eq: "build_parts demo_build (''l'' @ [CHR 0x0A]) (''{}'' @ [CHR 0x0A]) ''i'' ''r'' = demo_parts"
  by (simp add: build_parts_def demo_parts_def demo_build_def demo_sources_def)

lemma demo_manifest_bytes:
  "bundle_manifest_bytes demo_build demo_lock (''l'' @ [CHR 0x0A]) (''{}'' @ [CHR 0x0A]) ''i'' ''r'' = ''m'' @ [CHR 0x0A]"
  by (simp add: bundle_manifest_bytes_def canonicalJSON_def demo_build_def)

lemma demo_fields:
  "bw_sources demo_build = demo_sources" "bw_tar_write demo_build = demo_tar_write" "\<not> bw_fault demo_build n"
  "b_sha256 demo_sources = demo_sha" "bw_race demo_build = None" "validateBuildOptions (bw_options demo_build)"
  by (simp_all add: demo_build_def demo_sources_def validateBuildOptions_def)

lemma demo_outer_length: "length demo_outer = 5" "demo_tar_write demo_outer = demo_bundle" "demo_bundle \<noteq> ''r''"
proof -
  show "length demo_outer = 5" by (simp add: demo_outer_def outer_archive_def demo_parts_def bundleV1Components_def)
  then show "demo_tar_write demo_outer = demo_bundle" by (simp add: demo_tar_write_def demo_bundle_def)
  have "length demo_bundle \<noteq> length ''r''" by (simp add: demo_bundle_def)
  then show "demo_bundle \<noteq> ''r''" by metis
qed

lemma demo_Build: "Build demo_build None = (Inr demo_digest, Some demo_bundle)"
  using demo_readBuildLock demo_readPolicy demo_readInit demo_collect demo_rootfs demo_parts_eq demo_manifest_bytes
    demo_outer_length(2)
  by (simp add: Build_def buildRootFS_def demo_fields writeBundle_def Let_def demo_digest_def
      demo_outer_def bundle_manifest_bytes_def)

lemma demo_same: "same_codecs demo_build demo_install" "bundle_no_fault demo_install"
  by (simp_all add: same_codecs_def bundle_no_fault_def no_fault_def demo_install_def demo_fields)
    (simp_all add: demo_build_def)

lemma demo_size: "canonicalOuterTarSize 2 (components demo_parts) = 6144"
  by (simp add: canonicalOuterTarSize_def tarEntryStorageSize_def components_def demo_parts_def bundleV1Components_def
      newMemoryPart_def)

lemma demo_scan: "\<forall>v. ''{}'' @ [CHR 0x0A] = bw_encode demo_build v @ [CHR 0x0A] \<longrightarrow> bw_scan demo_build (''{}'' @ [CHR 0x0A]) = print v"
  by (simp add: demo_build_def demo_encode_def)

lemma demo_codecs: "codecs_faithful demo_build demo_install demo_lock (''l'' @ [CHR 0x0A]) (''{}'' @ [CHR 0x0A]) ''i'' [demo_entry]"
  unfolding codecs_faithful_def Let_def demo_fields demo_rootfs demo_parts_eq demo_manifest_bytes demo_outer_def [symmetric]
    demo_outer_length(2)
  using demo_scan demo_outer_length(3) demo_size
  by (simp add: demo_build_def demo_install_def demo_tar_read_def demo_bundle_def)

lemma demo_fit: "documents_fit demo_build demo_lock (''l'' @ [CHR 0x0A]) (''{}'' @ [CHR 0x0A]) ''i'' [demo_entry]"
  unfolding documents_fit_def demo_fields demo_rootfs demo_manifest_bytes by (simp add: bundle_limits)

lemma demo_ready: "store_ready demo_store demo_digest demo_bundle"
  by (simp add: store_ready_def demo_store_def validateOpenedProfileStore_def ensureStoreDirectory_def is_abs_def
      bundle_limits demo_bundle_def flip: length_0_conv)

lemma demo_unreserved: "unreserved [demo_entry]"
  by code_simp

section \<open>Properties\<close>



text \<open>
  C40. Whatever bytes are unpacked as the root filesystem, an installation that succeeds leaves a
  well-typed tree: every node belongs to root and lies in a directory of the tree, directories have mode
  0555 and files 0444 or 0555 and their true size, no file from the archive exceeds the limit, the target of
  every symbolic link stays inside, and there are at most 100007 nodes.
\<close>

theorem installed_root_is_typed:
  assumes "extractRootFS env tarball initBytes policyBytes entrypoint = Inr fs"
  shows "tree_typed fs"
proof -
  obtain es where es: "rootfs_ok es" "unreserved es" "map_of fs = installed_tree env 0x16D es initBytes policyBytes"
    using extractRootFS_Inr [OF assms] by blast
  have "map_of fs [] = Some (dir_node env [] 0x16D)"
    using installed_dir [OF es(1,2), of "[]"] es(3) by simp
  then have "\<exists>r. map_of fs [] = Some r \<and> tn_kind r = KDir" by (simp add: dir_node_def)
  then show ?thesis
    using installed_typed [OF es(3,1,2)] installed_card [OF es(3,1)] unfolding tree_typed_def by blast
qed

lemma demo_extract:
  "\<exists>fs. extractRootFS (iw_env demo_install) ''r'' ''i'' (''{}'' @ [CHR 0x0A]) ''/python'' = Inr fs"
proof -
  have v: "validateRelativePath (trim_prefix ''/python'' ''/'')" by code_simp
  have nf: "no_fault (iw_env demo_install)" using demo_same(2) by (simp add: bundle_no_fault_def)
  have ok: "rootfs_ok [demo_entry]" using collect_rootfs_ok(1) [OF demo_collect] .
  have tr: "ie_tar_read (iw_env demo_install) ''r'' = archive_items (rootfs_archive [demo_entry])"
    "''r'' = ie_tar_write (iw_env demo_install) (rootfs_archive [demo_entry])"
    using demo_rootfs by (simp_all add: demo_install_def demo_tar_read_def)
  show ?thesis using extractRootFS_ok(1) [OF nf ok demo_checks(2) v tr demo_unreserved] by blast
qed

theorem installed_root_is_typed_witness:
  "\<exists>fs. extractRootFS (iw_env demo_install) ''r'' ''i'' (''{}'' @ [CHR 0x0A]) ''/python'' = Inr fs \<and> tree_typed fs"
  using demo_extract installed_root_is_typed by blast


lemma demo_extract_bundle: "\<exists>s. extractApprovedBundle demo_install demo_bundle = Inr s"
  using built_documents_accepted [OF demo_same demo_readBuildLock demo_readPolicy _ demo_codecs demo_fit]
    demo_extract
  unfolding demo_fields demo_rootfs demo_parts_eq demo_manifest_bytes demo_outer_def [symmetric] demo_outer_length(2)
  by (auto simp: demo_lock_def)



lemma demo_Install: "\<exists>t. Install demo_store empty_store =
     (Inr (''sha256/'' @ demo_digest), empty_store\<lparr>ps_ids := (ps_ids empty_store)(demo_digest \<mapsto> t)\<rparr>)"
proof -
  have iw: "sw_install demo_store = demo_install" by (simp add: demo_store_def)
  have sha: "demo_sha = ie_sha256 (iw_env (sw_install demo_store))" by (simp add: iw demo_install_def)
  have none: "ps_ids empty_store (digestBytes demo_sha demo_bundle) = None" by (simp add: empty_store_def)
  from ready_Install [OF demo_ready [unfolded demo_digest_def] demo_sha_length sha none] demo_extract_bundle
  show ?thesis by (auto simp: iw demo_digest_def)
qed


end
