(* ===== verification/JsonStream.thy ===== *)
theory JsonStream
  imports PolicyDocument WorkerCredential
begin

text \<open>
  What the Worker API uses of \<^verbatim>\<open>encoding/json\<close> and \<^verbatim>\<open>encoding/base64\<close> beyond the theories \<open>Codec\<close> and
  \<open>PolicyDocument\<close>: the text \<^verbatim>\<open>json.Marshal\<close> writes, decoding one value in the middle of a token stream
  (\<^verbatim>\<open>Decoder.Decode\<close>), assigning the members of an object to a struct one after another, and padded
  base64; with the lemmas that what is written is read back.

  A setter \<open>json \<Rightarrow> 's \<Rightarrow> 's option\<close> assigns a value to a part of the target: \<open>null\<close> leaves a scalar as it
  is and a value of the wrong type is an error.
\<close>

section \<open>The text of a value\<close>

abbreviation backslash :: char where "backslash \<equiv> CHR 0x5C"
abbreviation quote_char :: char where "quote_char \<equiv> CHR 0x22"

definition escape_char :: "char \<Rightarrow> bytes" where
  "escape_char c =
     (if c = quote_char \<or> c = backslash then [backslash, c]
      else if c = CHR 0x08 then [backslash, CHR ''b''] else if c = CHR 0x0C then [backslash, CHR ''f'']
      else if c = CHR 0x0A then [backslash, CHR ''n''] else if c = CHR 0x0D then [backslash, CHR ''r'']
      else if c = CHR 0x09 then [backslash, CHR ''t'']
      else if byte c < 0x20 \<or> c \<in> set ''<>&''
      then backslash # ''u00'' @ [hex_digit (byte c div 16), hex_digit (byte c mod 16)]
      else [c])"

text \<open>
  U+2028 and U+2029 are escaped as well; the bytes of every other rune beyond ASCII are kept. A string is
  valid UTF-8 here: \<open>json_string\<close> has replaced what is not.
\<close>

definition line_separator :: bytes where "line_separator = [CHR 0xE2, CHR 0x80, CHR 0xA8]"
definition paragraph_separator :: bytes where "paragraph_separator = [CHR 0xE2, CHR 0x80, CHR 0xA9]"

function escape :: "bytes \<Rightarrow> bytes" where
  "escape s =
     (case s of
        [] \<Rightarrow> []
      | c # t \<Rightarrow>
         (if has_prefix s line_separator then backslash # ''u2028'' @ escape (drop 3 s)
          else if has_prefix s paragraph_separator then backslash # ''u2029'' @ escape (drop 3 s)
          else escape_char c @ escape t))"
  by pat_completeness auto
termination by (relation "measure length") auto

declare escape.simps [simp del]

fun commas :: "bytes list \<Rightarrow> bytes" where
  "commas [] = []"
| "commas [x] = x"
| "commas (x # y # zs) = x @ CHR '','' # commas (y # zs)"

definition quoted :: "bytes \<Rightarrow> bytes" where
  "quoted s = quote_char # escape s @ [quote_char]"

fun json_bytes :: "json \<Rightarrow> bytes" where
  "json_bytes (JStr s) = quoted s"
| "json_bytes (JLit l) = l"
| "json_bytes (JArr vs) = CHR ''['' # commas (map json_bytes vs) @ '']''"
| "json_bytes (JObj fs) =
     CHR ''{'' # commas (map (\<lambda>(name, v). quoted name @ CHR '':'' # json_bytes v) fs) @ ''}''"

section \<open>\<open>Decoder.Decode\<close>\<close>

definition tokenPrepareForDecode :: "Decoder \<Rightarrow> json_error + Decoder" where
  "tokenPrepareForDecode dec =
     (case tokenState dec of
        tokenArrayComma \<Rightarrow>
         (case input dec of
            [] \<Rightarrow> Inl ErrEOF
          | c # rest \<Rightarrow> if c \<noteq> Comma then Inl ErrSyntax else Inr (dec\<lparr>tokenState := tokenArrayValue, input := rest\<rparr>))
      | tokenObjectColon \<Rightarrow>
         (case input dec of
            [] \<Rightarrow> Inl ErrEOF
          | c # rest \<Rightarrow> if c \<noteq> Colon then Inl ErrSyntax else Inr (dec\<lparr>tokenState := tokenObjectValue, input := rest\<rparr>))
      | _ \<Rightarrow> Inr dec)"

definition readValue :: "lexeme list \<Rightarrow> json_error + json \<times> lexeme list" where
  "readValue ls =
     (if ls = [] then Inl ErrEOF
      else case parse_value (Suc (length ls)) ls of
        None \<Rightarrow> Inl ErrSyntax
      | Some (v, rest) \<Rightarrow> if json_depth v > 10000 then Inl ErrDepth else Inr (v, rest))"

text \<open>The error, the target and the decoder afterwards.\<close>

definition Decode :: "(json \<Rightarrow> 's \<Rightarrow> 's option) \<Rightarrow> 's \<Rightarrow> Decoder \<Rightarrow> json_error option \<times> 's \<times> Decoder" where
  "Decode setter s dec =
     (case tokenPrepareForDecode dec of
        Inl e \<Rightarrow> (Some e, s, dec)
      | Inr dec1 \<Rightarrow>
         (if \<not> tokenValueAllowed (tokenState dec1) then (Some ErrSyntax, s, dec1)
          else case readValue (input dec1) of
            Inl e \<Rightarrow> (Some e, s, dec1)
          | Inr (v, rest) \<Rightarrow>
             (let dec2 = dec1\<lparr>tokenState := tokenValueEnd (tokenState dec1), input := rest\<rparr> in
              case setter v s of None \<Rightarrow> (Some ErrTarget, s, dec2) | Some s' \<Rightarrow> (None, s', dec2))))"

section \<open>Setters\<close>

definition set_string :: "(bytes \<Rightarrow> 's \<Rightarrow> 's) \<Rightarrow> json \<Rightarrow> 's \<Rightarrow> 's option" where
  "set_string upd v s = (case v of JStr t \<Rightarrow> Some (upd t s) | _ \<Rightarrow> if v = null then Some s else None)"

definition set_int :: "(int \<Rightarrow> 's \<Rightarrow> 's) \<Rightarrow> json \<Rightarrow> 's \<Rightarrow> 's option" where
  "set_int upd v s =
     (case v of JLit l \<Rightarrow> if v = null then Some s else map_option (\<lambda>n. upd n s) (int_literal l) | _ \<Rightarrow> None)"

definition set_uint :: "(u64 \<Rightarrow> 's \<Rightarrow> 's) \<Rightarrow> json \<Rightarrow> 's \<Rightarrow> 's option" where
  "set_uint upd v s =
     (case v of JLit l \<Rightarrow> if v = null then Some s else map_option (\<lambda>n. upd n s) (ParseUint l) | _ \<Rightarrow> None)"

definition set_bool :: "(bool \<Rightarrow> 's \<Rightarrow> 's) \<Rightarrow> json \<Rightarrow> 's \<Rightarrow> 's option" where
  "set_bool upd v s =
     (if v = null then Some s else if v = JLit ''true'' then Some (upd True s)
      else if v = JLit ''false'' then Some (upd False s) else None)"

text \<open>A slice of strings: \<open>null\<close> makes it nil, and a \<open>null\<close> element is the empty string.\<close>

definition set_strings :: "(bytes list \<Rightarrow> 's \<Rightarrow> 's) \<Rightarrow> json \<Rightarrow> 's \<Rightarrow> 's option" where
  "set_strings upd v s =
     (case v of JArr vs \<Rightarrow> map_option (\<lambda>xs. upd xs s) (decode_all string_value vs)
      | _ \<Rightarrow> if v = null then Some (upd [] s) else None)"

text \<open>
  The name of a struct field is matched without regard to case: \<^verbatim>\<open>foldName\<close> maps every rune to the least
  of those that fold together, and besides the letters only U+017F and U+212A fold to ASCII.
\<close>

definition upper_char :: "char \<Rightarrow> char" where
  "upper_char c = (if is_lower c then char_of (byte c - 32) else c)"

function foldName :: "bytes \<Rightarrow> bytes" where
  "foldName s =
     (case s of
        [] \<Rightarrow> []
      | c # t \<Rightarrow>
         (if has_prefix s [CHR 0xC5, CHR 0xBF] then CHR ''S'' # foldName (drop 2 s)
          else if has_prefix s [CHR 0xE2, CHR 0x84, CHR 0xAA] then CHR ''K'' # foldName (drop 3 s)
          else upper_char c # foldName t))"
  by pat_completeness auto
termination by (relation "measure length") auto

declare foldName.simps [simp del]

type_synonym 's setters = "(bytes \<times> (json \<Rightarrow> 's \<Rightarrow> 's option)) list"

definition find_field :: "'s setters \<Rightarrow> bytes \<Rightarrow> (json \<Rightarrow> 's \<Rightarrow> 's option) option" where
  "find_field tags name =
     map_option snd (find (\<lambda>(tag, _). tag = name \<or> foldName tag = foldName name) tags)"

text \<open>A struct with \<^verbatim>\<open>DisallowUnknownFields\<close>: the members are assigned in their order, the last one wins.\<close>

fun assign_members :: "'s setters \<Rightarrow> (bytes \<times> json) list \<Rightarrow> 's \<Rightarrow> 's option" where
  "assign_members tags [] s = Some s"
| "assign_members tags ((name, v) # ms) s =
     (case find_field tags name of
        None \<Rightarrow> None
      | Some setter \<Rightarrow> (case setter v s of None \<Rightarrow> None | Some s' \<Rightarrow> assign_members tags ms s'))"

definition set_struct :: "'s setters \<Rightarrow> json \<Rightarrow> 's \<Rightarrow> 's option" where
  "set_struct tags v s =
     (case v of JObj ms \<Rightarrow> assign_members tags ms s | _ \<Rightarrow> if v = null then Some s else None)"

section \<open>Padded base64 (StdEncoding)\<close>

definition std_char :: "nat \<Rightarrow> char" where
  "std_char n = (if n = 62 then CHR ''+'' else if n = 63 then CHR ''/'' else b64_char n)"

definition std_value :: "char \<Rightarrow> nat option" where
  "std_value c = (if c = CHR ''+'' then Some 62 else if c = CHR ''/'' then Some 63
     else if c = CHR ''-'' \<or> c = CHR ''_'' then None else b64_value c)"

fun std_encode :: "nat list \<Rightarrow> bytes" where
  "std_encode (a # b # c # bs) =
     map std_char [a div 4, (a mod 4) * 16 + b div 16, (b mod 16) * 4 + c div 64, c mod 64] @ std_encode bs"
| "std_encode [a, b] = map std_char [a div 4, (a mod 4) * 16 + b div 16, (b mod 16) * 4] @ ''=''"
| "std_encode [a] = map std_char [a div 4, (a mod 4) * 16] @ ''==''"
| "std_encode [] = []"

text \<open>Groups of four; padding ends the text, and the unused bits of the last group are ignored.\<close>

fun std_decode :: "bytes \<Rightarrow> nat list option" where
  "std_decode (p # q # r # t # s) =
     (case (std_value p, std_value q) of
        (Some a, Some b) \<Rightarrow>
         (if r = CHR ''='' then if t = CHR ''='' \<and> s = [] then Some [a * 4 + b div 16] else None
          else case std_value r of
            None \<Rightarrow> None
          | Some c \<Rightarrow>
             (if t = CHR ''='' then if s = [] then Some [a * 4 + b div 16, (b mod 16) * 16 + c div 4] else None
              else case std_value t of
                None \<Rightarrow> None
              | Some d \<Rightarrow>
                  map_option (\<lambda>ds. (a * 4 + b div 16) # ((b mod 16) * 16 + c div 4) # ((c mod 4) * 64 + d) # ds)
                    (std_decode s)))
      | _ \<Rightarrow> None)"
| "std_decode [] = Some []"
| "std_decode _ = None"

definition StdEncode :: "bytes \<Rightarrow> bytes" where "StdEncode s = std_encode (map byte s)"

definition StdDecode :: "bytes \<Rightarrow> bytes option" where
  "StdDecode s = map_option (map char_of) (std_decode (filter (\<lambda>c. c \<noteq> CHR 0x0A \<and> c \<noteq> CHR 0x0D) s))"

definition set_bytes :: "(bytes \<Rightarrow> 's \<Rightarrow> 's) \<Rightarrow> json \<Rightarrow> 's \<Rightarrow> 's option" where
  "set_bytes upd v s =
     (case v of JStr t \<Rightarrow> map_option (\<lambda>b. upd b s) (StdDecode t) | _ \<Rightarrow> if v = null then Some (upd [] s) else None)"

section \<open>What is written is read back\<close>

lemma b64_values: "b64_value CHR ''-'' = Some 62" "b64_value CHR ''_'' = Some 63" "b64_value CHR ''+'' = None"
  "b64_value CHR ''/'' = None" "b64_value CHR ''='' = None"
  by code_simp+

lemma b64_char_distinct:
  assumes "n < 62"
  shows "b64_char n \<noteq> CHR ''-''" "b64_char n \<noteq> CHR ''_''" "b64_char n \<noteq> CHR ''+''" "b64_char n \<noteq> CHR ''/''" "b64_char n \<noteq> CHR ''=''"
  using b64_value_char(1) [of n] assms b64_values by auto

lemma std_value_char [simp]:
  assumes "n < 64"
  shows "std_value (std_char n) = Some n" "std_char n \<noteq> CHR 0x0A" "std_char n \<noteq> CHR 0x0D" "std_char n \<noteq> CHR ''=''"
proof -
  have "n = 62 \<or> n = 63 \<or> n < 62" using assms by auto
  then show "std_value (std_char n) = Some n" "std_char n \<noteq> CHR 0x0A" "std_char n \<noteq> CHR 0x0D" "std_char n \<noteq> CHR ''=''"
    using b64_char_distinct [of n] b64_value_char [of n] by (auto simp: std_value_def std_char_def)
qed

lemma div_bounds: "a < (256 :: nat) \<Longrightarrow> a div 4 < 64" "a < (256 :: nat) \<Longrightarrow> a div 16 < 16" "a < (256 :: nat) \<Longrightarrow> a div 64 < 4"
  by auto

lemmas group_bounds [simp] = pack_bound [simplified] div_bounds

lemma std_encode_plain: "\<forall>b \<in> set bs. b < 256 \<Longrightarrow> c \<in> set (std_encode bs) \<Longrightarrow> c \<noteq> CHR 0x0A \<and> c \<noteq> CHR 0x0D"
  by (induction bs rule: std_encode.induct) auto

lemma std_decode_encode: "\<forall>b \<in> set bs. b < 256 \<Longrightarrow> std_decode (std_encode bs) = Some bs"
proof (induction bs rule: std_encode.induct)
  case (1 a b c bs)
  then have "b div 16 < 16" "c div 64 < 4" by auto
  then have "((a mod 4) * 16 + b div 16) div 16 = a mod 4" "((a mod 4) * 16 + b div 16) mod 16 = b div 16"
    "((b mod 16) * 4 + c div 64) div 4 = b mod 16" "((b mod 16) * 4 + c div 64) mod 4 = c div 64"
    by auto
  then show ?case using 1 by simp
next
  case (2 a b)
  then have "b div 16 < 16" by auto
  then have "((a mod 4) * 16 + b div 16) div 16 = a mod 4" "((a mod 4) * 16 + b div 16) mod 16 = b div 16" by auto
  then show ?case using 2 by simp
qed simp_all

lemma StdDecode_Encode [simp]: "StdDecode (StdEncode s) = Some s"
proof -
  have "\<forall>b \<in> set (map byte s). b < 256" by simp
  note b = std_encode_plain [OF this] std_decode_encode [OF this]
  have "filter (\<lambda>c. c \<noteq> CHR 0x0A \<and> c \<noteq> CHR 0x0D) (StdEncode s) = StdEncode s"
    using b(1) by (auto simp: StdEncode_def filter_id_conv)
  moreover have "map char_of (map byte s) = s" by (induction s) (auto simp: byte_def)
  ultimately show ?thesis using b(2) by (simp add: StdDecode_def StdEncode_def del: map_map)
qed

end
