(* ===== verification/WorkerAPI.thy ===== *)
theory WorkerAPI
  imports JsonStream WorkerNode
begin

text \<open>
  The HTTPS boundary between Worker Nodes and the Control Plane: the handler (workerapi/server.go) with
  its decoding of requests and of bounded reports (report_decode.go). The stores behind it are those of
  \<open>ExecutionQueue\<close> and \<open>WorkerCredential\<close>. TLS, HTTP framing and the deadline of a request are the
  standard library's; a request is its method, path, Authorization header and body, and \<open>scan\<close> splits a
  body into lexemes. The body is limited before it is decoded, so a body over its limit never ends in the
  end of file that the decoders demand.
\<close>

section \<open>Objects without repeated names (report_decode.go)\<close>

text \<open>
  \<open>fld key s dec\<close> decodes the member \<open>key\<close> into the target \<open>s\<close>. The loop has as much fuel as there are
  lexemes: every round consumes a name.
\<close>

fun object_loop ::
  "nat \<Rightarrow> bytes list \<Rightarrow> (bytes \<Rightarrow> 's \<Rightarrow> Decoder \<Rightarrow> json_error option \<times> 's \<times> Decoder) \<Rightarrow> 's \<Rightarrow> Decoder \<Rightarrow>
   json_error option \<times> 's \<times> Decoder" where
  "object_loop 0 seen fld s dec = (Some ErrFuel, s, dec)"
| "object_loop (Suc n) seen fld s dec =
     (if \<not> More dec then
        (case Codec.Token dec of
           Inl e \<Rightarrow> (Some ErrTarget, s, dec)
         | Inr (t, dec1) \<Rightarrow> if t \<noteq> Delim CHR ''}'' then (Some ErrTarget, s, dec1) else (None, s, dec1))
      else case Codec.Token dec of
        Inl e \<Rightarrow> (Some e, s, dec)
      | Inr (TokString key, dec1) \<Rightarrow>
         (if key \<in> set seen then (Some ErrTarget, s, dec1)
          else case fld key s dec1 of
            (Some e, s1, dec2) \<Rightarrow> (Some e, s1, dec2)
          | (None, s1, dec2) \<Rightarrow> object_loop n (key # seen) fld s1 dec2)
      | Inr (_, dec1) \<Rightarrow> (Some ErrTarget, s, dec1))"

definition object ::
  "(bytes \<Rightarrow> 's \<Rightarrow> Decoder \<Rightarrow> json_error option \<times> 's \<times> Decoder) \<Rightarrow> 's \<Rightarrow> Decoder \<Rightarrow> json_error option \<times> 's \<times> Decoder" where
  "object fld s dec =
     (case Codec.Token dec of
        Inl e \<Rightarrow> (Some ErrTarget, s, dec)
      | Inr (t, dec1) \<Rightarrow>
         (if t \<noteq> Delim CHR ''{'' then (Some ErrTarget, s, dec1)
          else object_loop (Suc (length (input dec1))) [] fld s dec1))"

text \<open>The value behind an object must be the end of the body.\<close>

definition at_end :: "Decoder \<Rightarrow> bool" where
  "at_end dec \<longleftrightarrow> fst (Decode (\<lambda>v s. Some s) () dec) = Some ErrEOF"

definition decode_body ::
  "(bytes \<Rightarrow> lexeme list) \<Rightarrow> int \<Rightarrow> (bytes \<Rightarrow> 's \<Rightarrow> Decoder \<Rightarrow> json_error option \<times> 's \<times> Decoder) \<Rightarrow> 's \<Rightarrow> bytes \<Rightarrow> 's option" where
  "decode_body scan limit fld s payload =
     (if int (length payload) > limit then None
      else case object fld s (NewDecoder (scan payload)) of
        (Some e, _) \<Rightarrow> None
      | (None, s1, dec) \<Rightarrow> if at_end dec then Some s1 else None)"

section \<open>Requests (types.go, \<open>decode\<close>)\<close>

record leaseReference =
  lr_ExecutionID :: bytes
  lr_Generation :: int

record sandboxReference = leaseReference +
  lr_SandboxID :: bytes

record completeRequest = leaseReference +
  cr_Result :: ExecutePythonResult

definition refused :: "'s \<Rightarrow> Decoder \<Rightarrow> json_error option \<times> 's \<times> Decoder" where
  "refused s dec = (Some ErrTarget, s, dec)"

definition capacity_member :: "bytes \<Rightarrow> unit \<Rightarrow> Decoder \<Rightarrow> json_error option \<times> unit \<times> Decoder" where
  "capacity_member key s dec = refused s dec"

definition configure_member :: "bytes \<Rightarrow> int \<Rightarrow> Decoder \<Rightarrow> json_error option \<times> int \<times> Decoder" where
  "configure_member key s dec =
     (if key = ''capacity'' then Decode (set_int (\<lambda>n _. n)) s dec else refused s dec)"

definition claim_member :: "bytes \<Rightarrow> int \<Rightarrow> Decoder \<Rightarrow> json_error option \<times> int \<times> Decoder" where
  "claim_member key s dec =
     (if key = ''wait_ms'' then Decode (set_int (\<lambda>n _. n)) s dec else refused s dec)"

definition lease_member :: "bytes \<Rightarrow> leaseReference \<Rightarrow> Decoder \<Rightarrow> json_error option \<times> leaseReference \<times> Decoder" where
  "lease_member key s dec =
     (if key = ''execution_id'' then Decode (set_string (\<lambda>x. lr_ExecutionID_update (\<lambda>_. x))) s dec
      else if key = ''generation'' then Decode (set_int (\<lambda>x. lr_Generation_update (\<lambda>_. x))) s dec
      else refused s dec)"

definition sandbox_member :: "bytes \<Rightarrow> sandboxReference \<Rightarrow> Decoder \<Rightarrow> json_error option \<times> sandboxReference \<times> Decoder" where
  "sandbox_member key s dec =
     (if key = ''execution_id'' then Decode (set_string (\<lambda>x. lr_ExecutionID_update (\<lambda>_. x))) s dec
      else if key = ''generation'' then Decode (set_int (\<lambda>x. lr_Generation_update (\<lambda>_. x))) s dec
      else if key = ''sandbox_id'' then Decode (set_string (\<lambda>x. lr_SandboxID_update (\<lambda>_. x))) s dec
      else refused s dec)"

section \<open>Bounded reports (report_decode.go)\<close>

definition zero_usage :: ExecutionResourceUsage where
  "zero_usage = \<lparr>OOMEvents = 0, PIDLimitEvents = 0, CPUUsec = 0, CPUThrottledPeriods = 0, CPUThrottledUsec = 0\<rparr>"

definition zero_result :: ExecutePythonResult where
  "zero_result = \<lparr>r_ExecutionID = [], ExitCode = 0, Stdout = [], Stderr = [], Truncated = False, StdoutTruncated = False,
     StderrTruncated = False, TerminalReason = [], ResourceUsage = zero_usage, Outputs = [], OutputError = []\<rparr>"

definition zero_output :: ExtractedOutput where
  "zero_output = \<lparr>Path = [], Size = 0, SHA256 = [], Content = []\<rparr>"

definition boundedText ::
  "(bytes \<Rightarrow> 's \<Rightarrow> 's) \<Rightarrow> ('s \<Rightarrow> bytes) \<Rightarrow> int \<Rightarrow> 's \<Rightarrow> Decoder \<Rightarrow> json_error option \<times> 's \<times> Decoder" where
  "boundedText upd get limit s dec =
     (case Decode (set_string upd) s dec of
        (Some e, s1, dec1) \<Rightarrow> (Some e, s1, dec1)
      | (None, s1, dec1) \<Rightarrow> if int (length (get s1)) > limit then (Some ErrTarget, s1, dec1) else (None, s1, dec1))"

definition output_member :: "bytes \<Rightarrow> ExtractedOutput \<Rightarrow> Decoder \<Rightarrow> json_error option \<times> ExtractedOutput \<times> Decoder" where
  "output_member key s dec =
     (if key = ''path'' then boundedText (\<lambda>x. Path_update (\<lambda>_. x)) Path 1024 s dec
      else if key = ''size'' then Decode (set_int (\<lambda>x. Size_update (\<lambda>_. x))) s dec
      else if key = ''sha256'' then boundedText (\<lambda>x. SHA256_update (\<lambda>_. x)) SHA256 64 s dec
      else if key = ''content'' then Decode (set_bytes (\<lambda>x. Content_update (\<lambda>_. x))) s dec
      else refused s dec)"

fun outputs_loop ::
  "nat \<Rightarrow> int \<Rightarrow> ExtractedOutput list \<Rightarrow> Decoder \<Rightarrow> json_error option \<times> ExtractedOutput list \<times> Decoder" where
  "outputs_loop 0 acc outs dec = (Some ErrFuel, outs, dec)"
| "outputs_loop (Suc n) acc outs dec =
     (if \<not> More dec then
        (case Codec.Token dec of
           Inl e \<Rightarrow> (Some ErrTarget, outs, dec)
         | Inr (t, dec1) \<Rightarrow> if t \<noteq> Delim CHR '']'' then (Some ErrTarget, outs, dec1) else (None, outs, dec1))
      else if length outs = 16 then (Some ErrTarget, outs, dec)
      else case object output_member zero_output dec of
        (Some e, _, dec1) \<Rightarrow> (Some e, outs, dec1)
      | (None, out, dec1) \<Rightarrow>
         (let acc1 = acc + int (length (Content out)) in
          if acc1 > 32 * MiB then (Some ErrTarget, outs, dec1)
          else outputs_loop n acc1 (outs @ [out]) dec1))"

text \<open>\<open>Token\<close> does not tell \<open>null\<close> from the other scalars; the lexeme it consumes does.\<close>

definition next_null :: "Decoder \<Rightarrow> bool" where
  "next_null dec \<longleftrightarrow>
     (case input dec of
        Colon # Scalar l # _ \<Rightarrow> l = ''null''
      | Comma # Scalar l # _ \<Rightarrow> l = ''null''
      | Scalar l # _ \<Rightarrow> l = ''null''
      | _ \<Rightarrow> False)"

definition decodeOutputs ::
  "ExtractedOutput list \<Rightarrow> Decoder \<Rightarrow> json_error option \<times> ExtractedOutput list \<times> Decoder" where
  "decodeOutputs outs dec =
     (case Codec.Token dec of
        Inl e \<Rightarrow> (Some e, outs, dec)
      | Inr (t, dec1) \<Rightarrow>
         (if t = TokOther \<and> next_null dec then (None, outs, dec1)
          else if t \<noteq> Delim CHR ''['' then (Some ErrTarget, outs, dec1)
          else outputs_loop (Suc (length (input dec1))) 0 outs dec1))"

definition usage_setters :: "ExecutionResourceUsage setters" where
  "usage_setters =
     [(''oom_events'', set_uint (\<lambda>x. OOMEvents_update (\<lambda>_. x))),
      (''pid_limit_events'', set_uint (\<lambda>x. PIDLimitEvents_update (\<lambda>_. x))),
      (''cpu_usec'', set_uint (\<lambda>x. CPUUsec_update (\<lambda>_. x))),
      (''cpu_throttled_periods'', set_uint (\<lambda>x. CPUThrottledPeriods_update (\<lambda>_. x))),
      (''cpu_throttled_usec'', set_uint (\<lambda>x. CPUThrottledUsec_update (\<lambda>_. x)))]"

definition set_usage :: "json \<Rightarrow> ExecutePythonResult \<Rightarrow> ExecutePythonResult option" where
  "set_usage v r = map_option (\<lambda>u. r\<lparr>ResourceUsage := u\<rparr>) (set_struct usage_setters v (ResourceUsage r))"

definition result_member :: "bytes \<Rightarrow> ExecutePythonResult \<Rightarrow> Decoder \<Rightarrow> json_error option \<times> ExecutePythonResult \<times> Decoder" where
  "result_member key s dec =
     (if key = ''execution_id'' then Decode (set_string (\<lambda>x. r_ExecutionID_update (\<lambda>_. x))) s dec
      else if key = ''exit_code'' then Decode (set_int (\<lambda>x. ExitCode_update (\<lambda>_. x))) s dec
      else if key = ''stdout'' then boundedText (\<lambda>x. Stdout_update (\<lambda>_. x)) Stdout (24 * MiB) s dec
      else if key = ''stderr'' then boundedText (\<lambda>x. Stderr_update (\<lambda>_. x)) Stderr (24 * MiB) s dec
      else if key = ''truncated'' then Decode (set_bool (\<lambda>x. Truncated_update (\<lambda>_. x))) s dec
      else if key = ''stdout_truncated'' then Decode (set_bool (\<lambda>x. StdoutTruncated_update (\<lambda>_. x))) s dec
      else if key = ''stderr_truncated'' then Decode (set_bool (\<lambda>x. StderrTruncated_update (\<lambda>_. x))) s dec
      else if key = ''terminal_reason'' then Decode (set_string (\<lambda>x. TerminalReason_update (\<lambda>_. x))) s dec
      else if key = ''output_error'' then Decode (set_string (\<lambda>x. OutputError_update (\<lambda>_. x))) s dec
      else if key = ''resource_usage'' then Decode set_usage s dec
      else if key = ''outputs'' then
        (case decodeOutputs (Outputs s) dec of (e, outs, dec1) \<Rightarrow> (e, s\<lparr>Outputs := outs\<rparr>, dec1))
      else refused s dec)"

definition decodeResult :: "ExecutePythonResult \<Rightarrow> Decoder \<Rightarrow> json_error option \<times> ExecutePythonResult \<times> Decoder" where
  "decodeResult = object result_member"

definition complete_member :: "bytes \<Rightarrow> completeRequest \<Rightarrow> Decoder \<Rightarrow> json_error option \<times> completeRequest \<times> Decoder" where
  "complete_member key s dec =
     (if key = ''execution_id'' then Decode (set_string (\<lambda>x. lr_ExecutionID_update (\<lambda>_. x))) s dec
      else if key = ''generation'' then Decode (set_int (\<lambda>x. lr_Generation_update (\<lambda>_. x))) s dec
      else if key = ''result'' then
        (case decodeResult (cr_Result s) dec of (e, r, dec1) \<Rightarrow> (e, s\<lparr>cr_Result := r\<rparr>, dec1))
      else refused s dec)"

definition decodeComplete :: "(bytes \<Rightarrow> lexeme list) \<Rightarrow> bytes \<Rightarrow> completeRequest option" where
  "decodeComplete scan =
     decode_body scan MaximumReportBytes complete_member
       \<lparr>lr_ExecutionID = [], lr_Generation = 0, cr_Result = zero_result\<rparr>"

section \<open>Answers\<close>

datatype response_body = NoBody | Message bytes | Encoded bytes

record http_response =
  h_Status :: nat
  h_Body :: response_body

text \<open>\<open>state\<close> as the text of its column.\<close>

fun state_text :: "exec_state \<Rightarrow> bytes" where
  "state_text Queued = ''queued''"
| "state_text Leased = ''leased''"
| "state_text Recovering = ''recovering''"
| "state_text WorkerLost = ''worker_lost''"
| "state_text Completed = ''completed''"

definition json_bool :: "bool \<Rightarrow> json" where "json_bool b = JLit (if b then ''true'' else ''false'')"

text \<open>The members of types.go with their \<^verbatim>\<open>omitempty\<close>; \<open>tm\<close> is the text of a time.\<close>

definition lease_json :: "(int \<Rightarrow> bytes) \<Rightarrow> Lease \<Rightarrow> json" where
  "lease_json tm l = JObj ([(''execution_id'', json_string (l_ExecutionID l)), (''agent_run_id'', json_string (l_AgentRunID l)),
      (''generation'', json_int (l_Generation l)), (''expires_at'', JStr (tm (l_ExpiresAt l)))] @
     (if l_Source l = [] then [] else [(''source'', json_string (l_Source l))]) @
     (if l_Stdin l = [] then [] else [(''stdin'', json_string (l_Stdin l))]) @
     (if l_OutputPaths l = [] then [] else [(''output_paths'', JArr (map json_string (l_OutputPaths l)))]))"

definition capacity_json :: "Capacity \<Rightarrow> json" where
  "capacity_json c = JObj [(''worker_id'', json_string (c_WorkerID c)), (''configured'', json_int (Configured c)),
     (''occupied'', json_int (Occupied c)), (''available'', json_int (Available c))]"

definition authority_json :: "(int \<Rightarrow> bytes) \<Rightarrow> Authority \<Rightarrow> json" where
  "authority_json tm a = JObj [(''lease'', lease_json tm (a_Lease a)), (''state'', json_string (state_text (a_State a))),
     (''server_time'', JStr (tm (ServerTime a))), (''recovery_until'', JStr (tm (a_RecoveryUntil a)))]"

definition outstanding_json :: "(int \<Rightarrow> bytes) \<Rightarrow> OutstandingExecution \<Rightarrow> json" where
  "outstanding_json tm x = JObj [(''lease'', lease_json tm (o_Lease x)), (''sandbox_id'', json_string (o_SandboxID x)),
     (''state'', json_string (state_text (o_State x))), (''cleanup_unknown'', json_bool (o_CleanupUnknown x))]"

text \<open>\<^verbatim>\<open>json.NewEncoder(w).Encode(v)\<close>.\<close>

definition encoded :: "json \<Rightarrow> http_response" where
  "encoded v = \<lparr>h_Status = 200, h_Body = Encoded (json_bytes v @ [CHR 0x0A])\<rparr>"

definition no_content :: http_response where "no_content = \<lparr>h_Status = 204, h_Body = NoBody\<rparr>"

definition http_Error :: "bytes \<Rightarrow> nat \<Rightarrow> http_response" where
  "http_Error message status = \<lparr>h_Status = status, h_Body = Message (message @ [CHR 0x0A])\<rparr>"

definition error_status :: "store_error \<Rightarrow> nat" where
  "error_status e =
     (if e = ErrUnauthenticated then 401
      else if e = ErrInvalid then 400
      else if e = ErrLease \<or> e = ErrConflict then 409
      else if e = ErrNotFound then 404
      else 503)"

definition StatusText :: "nat \<Rightarrow> bytes" where
  "StatusText status =
     (if status = 401 then ''Unauthorized'' else if status = 400 then ''Bad Request'' else if status = 409 then ''Conflict''
      else if status = 404 then ''Not Found'' else if status = 503 then ''Service Unavailable'' else [])"

definition writeError :: "store_error \<Rightarrow> http_response" where
  "writeError e = (let status = error_status e in http_Error (StatusText status) status)"

section \<open>The handler (server.go)\<close>

record http_request =
  q_Method :: bytes
  q_Path :: bytes
  q_Authorization :: bytes
  q_Body :: bytes

text \<open>The parameters of a Control Plane, and the slots other requests hold when this one arrives.\<close>

record api_env =
  ap_store :: Store
  ap_codec :: codec
  ap_sha256 :: "bytes \<Rightarrow> bytes"
  ap_scan :: "bytes \<Rightarrow> lexeme list"
  ap_time :: "int \<Rightarrow> bytes"

record slots =
  sl_requests :: nat
  sl_reports :: nat

text \<open>
  What the database does during a request: \<open>rq_op\<close> for its operation, and for a report \<open>rq_auth\<close> for the
  authentication before it and \<open>rq_between\<close> for what others change in between. A claim polls: each round
  has its database, the time left when it finds nothing, whether the context ends during the pause, and
  what others change during the pause.
\<close>

record poll =
  pl_env :: dbenv
  pl_left :: int
  pl_cancelled :: bool
  pl_between :: "queue_db \<Rightarrow> queue_db"

record request_env =
  rq_op :: dbenv
  rq_auth :: dbenv
  rq_between :: "queue_db \<Rightarrow> queue_db"
  rq_polls :: "poll list"

text \<open>A cancelled claim writes nothing, which the server completes to an empty answer of status 200.\<close>

fun claim_loop :: "api_env \<Rightarrow> bytes \<Rightarrow> poll list \<Rightarrow> queue_db \<Rightarrow> (http_response \<times> queue_db) option" where
  "claim_loop w token [] db = None"
| "claim_loop w token (p # ps) db =
     (case Claim (ap_store w) (ap_codec w) (ap_sha256 w) (pl_env p) token db of
        (Inl e, db1) \<Rightarrow> Some (writeError e, db1)
      | (Inr (Some lease), db1) \<Rightarrow> Some (encoded (lease_json (ap_time w) lease), db1)
      | (Inr None, db1) \<Rightarrow>
         (if pl_left p \<le> 0 then Some (no_content, db1)
          else if pl_cancelled p then Some (\<lparr>h_Status = 200, h_Body = NoBody\<rparr>, db1)
          else claim_loop w token ps (pl_between p db1)))"

definition serve_claim :: "api_env \<Rightarrow> request_env \<Rightarrow> bytes \<Rightarrow> bytes \<Rightarrow> queue_db \<Rightarrow> (http_response \<times> queue_db) option" where
  "serve_claim w rq token payload db =
     (case decode_body (ap_scan w) 1024 claim_member 0 payload of
        None \<Rightarrow> Some (http_Error ''invalid claim'' 400, db)
      | Some wait \<Rightarrow>
         (if wait < 0 \<or> wait > 25000 then Some (http_Error ''invalid claim'' 400, db)
          else claim_loop w token (rq_polls rq) db))"

text \<open>The answer to an operation: an error, no content, or its encoded result.\<close>

definition answer_unit :: "(store_error + unit) \<times> queue_db \<Rightarrow> http_response \<times> queue_db" where
  "answer_unit r = (case r of (Inl e, db) \<Rightarrow> (writeError e, db) | (Inr _, db) \<Rightarrow> (no_content, db))"

definition answer_json :: "('a \<Rightarrow> json) \<Rightarrow> (store_error + 'a) \<times> queue_db \<Rightarrow> http_response \<times> queue_db" where
  "answer_json f r = (case r of (Inl e, db) \<Rightarrow> (writeError e, db) | (Inr v, db) \<Rightarrow> (encoded (f v), db))"

definition serve_complete :: "api_env \<Rightarrow> slots \<Rightarrow> request_env \<Rightarrow> bytes \<Rightarrow> bytes \<Rightarrow> queue_db \<Rightarrow> http_response \<times> queue_db" where
  "serve_complete w sl rq token payload db =
     (case Authenticate (ap_sha256 w) (rq_auth rq) token (worker_nodes db) of
        (Inl e, _) \<Rightarrow> (writeError e, db)
      | (Inr _, _) \<Rightarrow>
         (if sl_reports sl \<ge> 1 then (http_Error ''report capacity unavailable'' 429, db)
          else case decodeComplete (ap_scan w) payload of
            None \<Rightarrow> (http_Error ''invalid bounded result'' 400, rq_between rq db)
          | Some request \<Rightarrow>
              answer_unit (Complete (ap_codec w) (ap_sha256 w) (rq_op rq) token (lr_ExecutionID request)
                (lr_Generation request) (cr_Result request) (rq_between rq db))))"

definition serve_capacity :: "api_env \<Rightarrow> request_env \<Rightarrow> bytes \<Rightarrow> bytes \<Rightarrow> bytes \<Rightarrow> queue_db \<Rightarrow> http_response \<times> queue_db" where
  "serve_capacity w rq token path payload db =
     (if path = ''/worker/v1/outstanding'' then
        (case decode_body (ap_scan w) 1024 capacity_member () payload of
           None \<Rightarrow> (http_Error ''invalid outstanding request'' 400, db)
         | Some _ \<Rightarrow> answer_json (\<lambda>xs. JArr (map (outstanding_json (ap_time w)) xs))
             (Outstanding (ap_sha256 w) (rq_op rq) token db))
      else if path = ''/worker/v1/capacity'' then
        (case decode_body (ap_scan w) 1024 capacity_member () payload of
           None \<Rightarrow> (http_Error ''invalid capacity request'' 400, db)
         | Some _ \<Rightarrow> answer_json capacity_json (Capacity_op (ap_sha256 w) (rq_op rq) token db))
      else
        (case decode_body (ap_scan w) 1024 configure_member 0 payload of
           None \<Rightarrow> (http_Error ''invalid capacity configuration'' 400, db)
         | Some n \<Rightarrow> answer_unit (ConfigureCapacity (ap_sha256 w) (rq_op rq) token n db)))"

definition serve_sandbox :: "api_env \<Rightarrow> request_env \<Rightarrow> bytes \<Rightarrow> bytes \<Rightarrow> bytes \<Rightarrow> queue_db \<Rightarrow> http_response \<times> queue_db" where
  "serve_sandbox w rq token path payload db =
     (case decode_body (ap_scan w) 1024 sandbox_member \<lparr>lr_ExecutionID = [], lr_Generation = 0, lr_SandboxID = []\<rparr> payload of
        None \<Rightarrow> (http_Error ''invalid Sandbox binding'' 400, db)
      | Some r \<Rightarrow>
         (let xid = lr_ExecutionID r; gen = lr_Generation r; sb = lr_SandboxID r; sha = ap_sha256 w; env = rq_op rq in
          if path = ''/worker/v1/recover'' then
            answer_json (authority_json (ap_time w)) (Recover (ap_store w) sha env token xid gen sb db)
          else if path = ''/worker/v1/heartbeat'' then
            answer_json (authority_json (ap_time w)) (Heartbeat (ap_store w) sha env token xid gen sb db)
          else answer_unit (BindSandbox sha env token xid gen sb db)))"

definition serve_lease :: "api_env \<Rightarrow> request_env \<Rightarrow> bytes \<Rightarrow> bytes \<Rightarrow> bytes \<Rightarrow> queue_db \<Rightarrow> http_response \<times> queue_db" where
  "serve_lease w rq token path payload db =
     (case decode_body (ap_scan w) 1024 lease_member \<lparr>lr_ExecutionID = [], lr_Generation = 0\<rparr> payload of
        None \<Rightarrow> (http_Error ''invalid lease reference'' 400, db)
      | Some r \<Rightarrow>
          answer_unit (if path = ''/worker/v1/release''
            then Release (ap_sha256 w) (rq_op rq) token (lr_ExecutionID r) (lr_Generation r) db
            else Validate (ap_codec w) (ap_sha256 w) (rq_op rq) token (lr_ExecutionID r) (lr_Generation r) db))"

definition worker_routes :: "bytes list" where
  "worker_routes = map (append ''/worker/v1/'') [''claim'', ''validate'', ''complete'', ''release'', ''capacity'', ''configure-capacity'',
     ''bind-sandbox'', ''heartbeat'', ''recover'', ''outstanding'']"

text \<open>\<open>None\<close> is a claim that still waits.\<close>

definition ServeHTTP ::
  "api_env \<Rightarrow> slots \<Rightarrow> request_env \<Rightarrow> http_request \<Rightarrow> queue_db \<Rightarrow> (http_response \<times> queue_db) option" where
  "ServeHTTP w sl rq r db =
     (let path = q_Path r; payload = q_Body r; token = trim_prefix (q_Authorization r) ''Bearer '' in
      if q_Method r \<noteq> ''POST'' then Some (http_Error ''method not allowed'' 405, db)
      else if path \<notin> set worker_routes then Some (http_Error ''404 page not found'' 404, db)
      else if sl_requests sl \<ge> 64 then Some (http_Error ''Worker API busy'' 429, db)
      else if token = [] \<or> token = q_Authorization r \<or> length token > 256 then Some (http_Error ''unauthorized'' 401, db)
      else if path = ''/worker/v1/claim'' then serve_claim w rq token payload db
      else Some (
        if path \<in> {''/worker/v1/outstanding'', ''/worker/v1/capacity'', ''/worker/v1/configure-capacity''}
        then serve_capacity w rq token path payload db
        else if path \<in> {''/worker/v1/bind-sandbox'', ''/worker/v1/heartbeat'', ''/worker/v1/recover''}
        then serve_sandbox w rq token path payload db
        else if path \<in> {''/worker/v1/validate'', ''/worker/v1/release''} then serve_lease w rq token path payload db
        else serve_complete w sl rq token payload db))"

end
