(* ===== verification/WorkerClient.thy ===== *)
theory WorkerClient
  imports WorkerAPI
begin

text \<open>
  The client of the Worker API (workerapi/client.go): its construction, its one request routine and the
  checks on every answer. The transport is an outcome: the request failed, or an answer arrived, perhaps
  cut. \<open>read\<close> is what \<^verbatim>\<open>Decoder.Decode\<close> finds at the front of the body, \<open>parse\<close> is \<^verbatim>\<open>time.Parse\<close>; times
  are counted from Go's zero time.
\<close>

section \<open>Construction\<close>

record parsed_url =
  u_Scheme :: bytes
  u_Host :: bytes
  u_User :: bool
  u_RawQuery :: bytes
  u_Fragment :: bytes
  u_Path :: bytes

record tls_config =
  tc_MinVersion :: nat
  tc_InsecureSkipVerify :: bool
  tc_RootCAs :: "bytes list option"

record http_transport =
  tp_DialTLS :: bool
  tp_DialTLSContext :: bool
  tp_TLSClientConfig :: "tls_config option"

datatype round_tripper = HttpTransport http_transport | OtherTransport

record http_client =
  hc_Timeout :: int
  hc_Transport :: "round_tripper option"
  hc_follows :: bool

record Client =
  baseURL :: bytes
  bearer :: bytes
  client :: http_client

definition VersionTLS12 :: nat where "VersionTLS12 = 0x0303"

definition TrimRight :: "bytes \<Rightarrow> char \<Rightarrow> bytes" where
  "TrimRight s c = rev (dropWhile (\<lambda>d. d = c) (rev s))"

definition NewClient ::
  "parsed_url option \<Rightarrow> http_transport \<Rightarrow> bytes \<Rightarrow> bytes \<Rightarrow> http_client option \<Rightarrow> Client option" where
  "NewClient origin DefaultTransport url tok given =
     (case origin of
        None \<Rightarrow> None
      | Some u \<Rightarrow>
         (if u_Scheme u \<noteq> ''https'' \<or> u_Host u = [] \<or> u_User u \<or> u_RawQuery u \<noteq> [] \<or> u_Fragment u \<noteq> [] \<or>
             (u_Path u \<noteq> [] \<and> u_Path u \<noteq> ''/'') \<or> CHR 0x0D \<in> set tok \<or> CHR 0x0A \<in> set tok \<or> tok = []
          then None
          else let base = (case given of
                   None \<Rightarrow> \<lparr>hc_Timeout = 35 * Second, hc_Transport = None, hc_follows = True\<rparr> | Some c \<Rightarrow> c);
                 timed = (if hc_Timeout base = 0 then base\<lparr>hc_Timeout := 35 * Second\<rparr> else base) in
            case (case hc_Transport timed of None \<Rightarrow> HttpTransport DefaultTransport | Some t \<Rightarrow> t) of
              OtherTransport \<Rightarrow> None
            | HttpTransport t \<Rightarrow>
               (if tp_DialTLS t \<or> tp_DialTLSContext t \<or>
                   (\<exists>c. tp_TLSClientConfig t = Some c \<and> tc_InsecureSkipVerify c) then None
                else let tls = (case tp_TLSClientConfig t of
                     None \<Rightarrow> \<lparr>tc_MinVersion = VersionTLS12, tc_InsecureSkipVerify = False, tc_RootCAs = None\<rparr>
                   | Some c \<Rightarrow> c\<lparr>tc_MinVersion := max (tc_MinVersion c) VersionTLS12\<rparr>) in
                  Some \<lparr>baseURL = TrimRight url CHR ''/'', bearer = tok,
                    client = timed\<lparr>hc_Transport := Some (HttpTransport (t\<lparr>tp_TLSClientConfig := Some tls\<rparr>)),
                      hc_follows := False\<rparr>\<rparr>)))"

section \<open>\<open>post\<close>\<close>

definition post_request :: "Client \<Rightarrow> bytes \<Rightarrow> json \<Rightarrow> http_request" where
  "post_request c route v = \<lparr>q_Method = ''POST'', q_Path = route, q_Authorization = ''Bearer '' @ bearer c, q_Body = json_bytes v\<rparr>"

datatype cut = CutTransport | CutOther

text \<open>
  \<open>DoFailed ctx certificate\<close>: the request failed, with the error of the context if it is done. \<open>Answered\<close>
  has the status, the body, how reading it ended early, and the error of the context after reading.
\<close>

datatype exchange =
    DoFailed "api_error option" bool
  | Answered nat bytes "cut option" "api_error option"

datatype read_outcome = ReadEnd | ReadInvalid | ReadValue json bool

definition maximumResponseBytes :: nat where "maximumResponseBytes = 64 * 1024"

definition read_answer :: "(bytes \<Rightarrow> read_outcome) \<Rightarrow> (json \<Rightarrow> 't option) \<Rightarrow> bytes \<Rightarrow> cut option \<Rightarrow> api_error option \<Rightarrow> api_error + 't" where
  "read_answer read tgt content ended ctx =
     (let payload = take (maximumResponseBytes + 1) content in
      case ctx of
        Some e \<Rightarrow> Inl e
      | None \<Rightarrow>
         (if length payload > maximumResponseBytes then Inl OtherError
          else if ended = Some CutTransport then Inl ErrTransport
          else if ended = Some CutOther then Inl OtherError
          else case read payload of
            ReadEnd \<Rightarrow> Inl ErrTransport
          | ReadInvalid \<Rightarrow> Inl OtherError
          | ReadValue v final \<Rightarrow>
             (case tgt v of
                None \<Rightarrow> Inl OtherError
              | Some t \<Rightarrow> if \<not> final then Inl OtherError else Inr t)))"

definition post :: "(bytes \<Rightarrow> read_outcome) \<Rightarrow> (json \<Rightarrow> 't option) option \<Rightarrow> exchange \<Rightarrow> api_error + nat \<times> 't option" where
  "post read tgt x =
     (case x of
        DoFailed (Some e) _ \<Rightarrow> Inl e
      | DoFailed None certificate \<Rightarrow> if certificate then Inl OtherError else Inl ErrTransport
      | Answered status content ended ctx \<Rightarrow>
         (if status \<noteq> 200 \<and> status \<noteq> 204 then Inl (HTTPError status)
          else if status = 204 then Inr (status, None)
          else case tgt of
            None \<Rightarrow> Inl OtherError
          | Some t \<Rightarrow> (case read_answer read t content ended ctx of Inl e \<Rightarrow> Inl e | Inr v \<Rightarrow> Inr (status, Some v))))"

section \<open>Decoding answers\<close>

definition set_time :: "(bytes \<Rightarrow> int option) \<Rightarrow> (int \<Rightarrow> 's \<Rightarrow> 's) \<Rightarrow> json \<Rightarrow> 's \<Rightarrow> 's option" where
  "set_time parse upd v s =
     (case v of JStr t \<Rightarrow> map_option (\<lambda>n. upd n s) (parse t) | _ \<Rightarrow> if v = null then Some s else None)"

definition zero_lease :: Lease where
  "zero_lease = \<lparr>l_ExecutionID = [], l_AgentRunID = [], l_Generation = 0, l_ExpiresAt = 0, l_Source = [], l_Stdin = [],
     l_OutputPaths = []\<rparr>"

definition lease_setters :: "(bytes \<Rightarrow> int option) \<Rightarrow> Lease setters" where
  "lease_setters parse =
     [(''execution_id'', set_string (\<lambda>x. l_ExecutionID_update (\<lambda>_. x))),
      (''agent_run_id'', set_string (\<lambda>x. l_AgentRunID_update (\<lambda>_. x))),
      (''generation'', set_int (\<lambda>x. l_Generation_update (\<lambda>_. x))),
      (''expires_at'', set_time parse (\<lambda>x. l_ExpiresAt_update (\<lambda>_. x))),
      (''source'', set_string (\<lambda>x. l_Source_update (\<lambda>_. x))),
      (''stdin'', set_string (\<lambda>x. l_Stdin_update (\<lambda>_. x))),
      (''output_paths'', set_strings (\<lambda>x. l_OutputPaths_update (\<lambda>_. x)))]"

definition capacity_setters :: "Capacity setters" where
  "capacity_setters =
     [(''worker_id'', set_string (\<lambda>x. c_WorkerID_update (\<lambda>_. x))),
      (''configured'', set_int (\<lambda>x. Configured_update (\<lambda>_. x))),
      (''occupied'', set_int (\<lambda>x. Occupied_update (\<lambda>_. x))),
      (''available'', set_int (\<lambda>x. Available_update (\<lambda>_. x)))]"

text \<open>The states of an answer are strings until they are checked.\<close>

record authority_reply =
  ar_Lease :: Lease
  ar_State :: bytes
  ar_ServerTime :: int
  ar_RecoveryUntil :: int

definition authority_setters :: "(bytes \<Rightarrow> int option) \<Rightarrow> authority_reply setters" where
  "authority_setters parse =
     [(''lease'', \<lambda>v s. map_option (\<lambda>l. s\<lparr>ar_Lease := l\<rparr>) (set_struct (lease_setters parse) v (ar_Lease s))),
      (''state'', set_string (\<lambda>x. ar_State_update (\<lambda>_. x))),
      (''server_time'', set_time parse (\<lambda>x. ar_ServerTime_update (\<lambda>_. x))),
      (''recovery_until'', set_time parse (\<lambda>x. ar_RecoveryUntil_update (\<lambda>_. x)))]"

record outstanding_reply =
  or_Lease :: Lease
  or_SandboxID :: bytes
  or_State :: bytes
  or_CleanupUnknown :: bool

definition outstanding_setters :: "(bytes \<Rightarrow> int option) \<Rightarrow> outstanding_reply setters" where
  "outstanding_setters parse =
     [(''lease'', \<lambda>v s. map_option (\<lambda>l. s\<lparr>or_Lease := l\<rparr>) (set_struct (lease_setters parse) v (or_Lease s))),
      (''sandbox_id'', set_string (\<lambda>x. or_SandboxID_update (\<lambda>_. x))),
      (''state'', set_string (\<lambda>x. or_State_update (\<lambda>_. x))),
      (''cleanup_unknown'', set_bool (\<lambda>x. or_CleanupUnknown_update (\<lambda>_. x)))]"

definition zero_capacity :: Capacity where
  "zero_capacity = \<lparr>c_WorkerID = [], Configured = 0, Occupied = 0, Available = 0\<rparr>"

definition zero_authority :: authority_reply where
  "zero_authority = \<lparr>ar_Lease = zero_lease, ar_State = [], ar_ServerTime = 0, ar_RecoveryUntil = 0\<rparr>"

definition zero_outstanding :: outstanding_reply where
  "zero_outstanding = \<lparr>or_Lease = zero_lease, or_SandboxID = [], or_State = [], or_CleanupUnknown = False\<rparr>"

text \<open>The slice of outstanding Executions; \<open>null\<close> leaves it nil.\<close>

definition decode_outstanding :: "(bytes \<Rightarrow> int option) \<Rightarrow> json \<Rightarrow> outstanding_reply list option option" where
  "decode_outstanding parse = slice_value (\<lambda>v. set_struct (outstanding_setters parse) v zero_outstanding)"

definition state_of :: "bytes \<Rightarrow> exec_state option" where
  "state_of t = map_of (map (\<lambda>s. (state_text s, s)) [Queued, Leased, Recovering, WorkerLost, Completed]) t"

section \<open>The methods\<close>

record reader =
  rd_read :: "bytes \<Rightarrow> read_outcome"
  rd_parse :: "bytes \<Rightarrow> int option"

definition claim_wait :: "int \<Rightarrow> int option" where
  "claim_wait wait = (if wait < 0 \<or> wait > 25 * Second then None else Some (wait div Millisecond))"

definition claim_reply :: "reader \<Rightarrow> exchange \<Rightarrow> api_error + Lease option" where
  "claim_reply rd x =
     (case post (rd_read rd) (Some (\<lambda>v. set_struct (lease_setters (rd_parse rd)) v zero_lease)) x of
        Inl e \<Rightarrow> Inl e
      | Inr (status, v) \<Rightarrow>
         (if status = 204 then Inr None
          else case v of
            None \<Rightarrow> Inl OtherError
          | Some lease \<Rightarrow>
             (if l_ExecutionID lease = [] \<or> l_AgentRunID lease = [] \<or> l_Generation lease \<le> 0 \<or> l_ExpiresAt lease = 0 \<or>
                 l_Source lease = [] then Inl OtherError else Inr (Some lease))))"

text \<open>\<open>Validate\<close>, \<open>Release\<close>, \<open>ConfigureCapacity\<close>, \<open>BindSandbox\<close> and \<open>Complete\<close> expect no value.\<close>

definition unit_reply :: "reader \<Rightarrow> exchange \<Rightarrow> api_error + unit" where
  "unit_reply rd x = (case post (rd_read rd) (None :: (json \<Rightarrow> unit option) option) x of Inl e \<Rightarrow> Inl e | Inr _ \<Rightarrow> Inr ())"

definition capacity_reply :: "reader \<Rightarrow> exchange \<Rightarrow> api_error + Capacity" where
  "capacity_reply rd x =
     (case post (rd_read rd) (Some (\<lambda>v. set_struct capacity_setters v zero_capacity)) x of
        Inl e \<Rightarrow> Inl e
      | Inr (status, v) \<Rightarrow>
         (let capacity = (case v of None \<Rightarrow> zero_capacity | Some c \<Rightarrow> c) in
          if status \<noteq> 200 \<or> c_WorkerID capacity = [] \<or> Configured capacity < 1 \<or> Configured capacity > 64 \<or>
             Occupied capacity < 0 \<or> Available capacity \<noteq> max 0 (Configured capacity - Occupied capacity)
          then Inl OtherError else Inr capacity))"

definition outstanding_entry :: "outstanding_reply \<Rightarrow> OutstandingExecution option" where
  "outstanding_entry r =
     (let l = or_Lease r in
      if l_ExecutionID l = [] \<or> l_AgentRunID l = [] \<or> l_Generation l \<le> 0 \<or> l_ExpiresAt l = 0 \<or> l_Source l \<noteq> [] \<or>
         l_Stdin l \<noteq> [] \<or> length (l_OutputPaths l) \<noteq> 0 then None
      else if or_State r \<in> {''leased'', ''recovering'', ''worker_lost'', ''completed''} then
        map_option (\<lambda>st. \<lparr>o_Lease = l, o_SandboxID = or_SandboxID r, o_State = st, o_CleanupUnknown = or_CleanupUnknown r\<rparr>)
          (state_of (or_State r))
      else None)"

definition outstanding_list :: "reader \<Rightarrow> exchange \<Rightarrow> api_error + OutstandingExecution list" where
  "outstanding_list rd x =
     (case post (rd_read rd) (Some (decode_outstanding (rd_parse rd))) x of
        Inl e \<Rightarrow> Inl e
      | Inr (status, v) \<Rightarrow>
         (if status \<noteq> 200 then Inl OtherError
          else case v of
            Some (Some rs) \<Rightarrow>
             (if length rs > 64 then Inl OtherError
              else case decode_all outstanding_entry rs of None \<Rightarrow> Inl OtherError | Some xs \<Rightarrow> Inr xs)
          | _ \<Rightarrow> Inl OtherError))"

definition authority_answer :: "reader \<Rightarrow> bytes \<Rightarrow> int \<Rightarrow> exchange \<Rightarrow> api_error + Authority" where
  "authority_answer rd xid gen x =
     (case post (rd_read rd) (Some (\<lambda>v. set_struct (authority_setters (rd_parse rd)) v zero_authority)) x of
        Inl e \<Rightarrow> Inl e
      | Inr (status, v) \<Rightarrow>
         (let a = (case v of None \<Rightarrow> zero_authority | Some a \<Rightarrow> a); l = ar_Lease a in
          if status \<noteq> 200 \<or> l_ExecutionID l \<noteq> xid \<or> l_AgentRunID l = [] \<or> l_Generation l \<noteq> gen \<or> ar_ServerTime a = 0 \<or>
             \<not> ar_RecoveryUntil a > l_ExpiresAt l \<or> (ar_State a \<noteq> ''leased'' \<and> ar_State a \<noteq> ''completed'') \<or>
             (ar_State a = ''leased'' \<and> \<not> l_ExpiresAt l > ar_ServerTime a)
          then Inl OtherError
          else Inr \<lparr>a_Lease = l, a_State = (if ar_State a = ''leased'' then Leased else Completed),
            ServerTime = ar_ServerTime a, a_RecoveryUntil = ar_RecoveryUntil a\<rparr>))"

section \<open>Calls with their requests\<close>

datatype api_call =
    ApiClaim int
  | ApiValidate bytes int
  | ApiRelease bytes int
  | ApiCapacity
  | ApiConfigureCapacity int
  | ApiBindSandbox bytes int bytes
  | ApiOutstanding
  | ApiHeartbeat bytes int bytes
  | ApiRecover bytes int bytes
  | ApiComplete bytes int ExecutePythonResult

definition lease_reference_json :: "bytes \<Rightarrow> int \<Rightarrow> (bytes \<times> json) list" where
  "lease_reference_json xid gen = [(''execution_id'', json_string xid), (''generation'', json_int gen)]"

definition sandbox_reference_json :: "bytes \<Rightarrow> int \<Rightarrow> bytes \<Rightarrow> json" where
  "sandbox_reference_json xid gen sb = JObj (lease_reference_json xid gen @ [(''sandbox_id'', json_string sb)])"

definition usage_json :: "ExecutionResourceUsage \<Rightarrow> json" where
  "usage_json u = JObj [(''oom_events'', json_uint (OOMEvents u)), (''pid_limit_events'', json_uint (PIDLimitEvents u)),
     (''cpu_usec'', json_uint (CPUUsec u)), (''cpu_throttled_periods'', json_uint (CPUThrottledPeriods u)),
     (''cpu_throttled_usec'', json_uint (CPUThrottledUsec u))]"

definition output_json :: "ExtractedOutput \<Rightarrow> json" where
  "output_json x = JObj [(''path'', json_string (Path x)), (''size'', json_int (Size x)), (''sha256'', json_string (SHA256 x)),
     (''content'', JStr (StdEncode (Content x)))]"

definition result_json :: "ExecutePythonResult \<Rightarrow> json" where
  "result_json r = JObj ([(''execution_id'', json_string (r_ExecutionID r)), (''exit_code'', json_int (ExitCode r)),
      (''stdout'', json_string (Stdout r)), (''stderr'', json_string (Stderr r)), (''truncated'', json_bool (Truncated r)),
      (''stdout_truncated'', json_bool (StdoutTruncated r)), (''stderr_truncated'', json_bool (StderrTruncated r)),
      (''terminal_reason'', json_string (TerminalReason r)), (''resource_usage'', usage_json (ResourceUsage r))] @
     (if Outputs r = [] then [] else [(''outputs'', JArr (map output_json (Outputs r)))]) @
     (if OutputError r = [] then [] else [(''output_error'', json_string (OutputError r))]))"

fun call_route :: "api_call \<Rightarrow> bytes" where
  "call_route (ApiClaim _) = ''/worker/v1/claim''"
| "call_route (ApiValidate _ _) = ''/worker/v1/validate''"
| "call_route (ApiRelease _ _) = ''/worker/v1/release''"
| "call_route ApiCapacity = ''/worker/v1/capacity''"
| "call_route (ApiConfigureCapacity _) = ''/worker/v1/configure-capacity''"
| "call_route (ApiBindSandbox _ _ _) = ''/worker/v1/bind-sandbox''"
| "call_route ApiOutstanding = ''/worker/v1/outstanding''"
| "call_route (ApiHeartbeat _ _ _) = ''/worker/v1/heartbeat''"
| "call_route (ApiRecover _ _ _) = ''/worker/v1/recover''"
| "call_route (ApiComplete _ _ _) = ''/worker/v1/complete''"

fun call_json :: "api_call \<Rightarrow> json" where
  "call_json (ApiClaim wait) = JObj [(''wait_ms'', json_int (wait div Millisecond))]"
| "call_json (ApiValidate xid gen) = JObj (lease_reference_json xid gen)"
| "call_json (ApiRelease xid gen) = JObj (lease_reference_json xid gen)"
| "call_json ApiCapacity = JObj []"
| "call_json (ApiConfigureCapacity n) = JObj [(''capacity'', json_int n)]"
| "call_json (ApiBindSandbox xid gen sb) = sandbox_reference_json xid gen sb"
| "call_json ApiOutstanding = JObj []"
| "call_json (ApiHeartbeat xid gen sb) = sandbox_reference_json xid gen sb"
| "call_json (ApiRecover xid gen sb) = sandbox_reference_json xid gen sb"
| "call_json (ApiComplete xid gen r) = JObj (lease_reference_json xid gen @ [(''result'', result_json r)])"

datatype api_reply =
    Acknowledged
  | LeaseReply "Lease option"
  | CapacityReply Capacity
  | OutstandingReply "OutstandingExecution list"
  | AuthorityReply Authority

fun client_reply :: "reader \<Rightarrow> api_call \<Rightarrow> exchange \<Rightarrow> api_error + api_reply" where
  "client_reply rd (ApiClaim _) x = map_sum (\<lambda>e. e) LeaseReply (claim_reply rd x)"
| "client_reply rd ApiCapacity x = map_sum (\<lambda>e. e) CapacityReply (capacity_reply rd x)"
| "client_reply rd ApiOutstanding x = map_sum (\<lambda>e. e) OutstandingReply (outstanding_list rd x)"
| "client_reply rd (ApiHeartbeat xid gen _) x = map_sum (\<lambda>e. e) AuthorityReply (authority_answer rd xid gen x)"
| "client_reply rd (ApiRecover xid gen _) x = map_sum (\<lambda>e. e) AuthorityReply (authority_answer rd xid gen x)"
| "client_reply rd _ x = map_sum (\<lambda>e. e) (\<lambda>_. Acknowledged) (unit_reply rd x)"

text \<open>A call: a wait out of range is refused before anything is sent.\<close>

definition call_request :: "Client \<Rightarrow> api_call \<Rightarrow> http_request option" where
  "call_request c call =
     (if (\<exists>wait. call = ApiClaim wait \<and> claim_wait wait = None) then None
      else Some (post_request c (call_route call) (call_json call)))"

end
