(* ===== verification/WorkerWire.thy ===== *)
theory WorkerWire
  imports WorkerClient
begin

text \<open>
  What one side of the Worker API writes, the other side reads: the requests through the token stream of
  the handler, the answers through the struct decoder of the client. Texts are valid UTF-8 and numbers
  are 64-bit, as they are in Go.
\<close>

section \<open>Reading members of a printed object\<close>

definition reads ::
  "(bytes \<Rightarrow> 's \<Rightarrow> Decoder \<Rightarrow> json_error option \<times> 's \<times> Decoder) \<Rightarrow> bytes \<Rightarrow> json \<Rightarrow> 's \<Rightarrow> 's \<Rightarrow> bool" where
  "reads fld name v s s' \<longleftrightarrow>
     (\<forall>stack r. fld name s (at tokenObjectColon stack (Colon # print v @ r)) = (None, s', at tokenObjectComma stack r))"

fun reads_all ::
  "(bytes \<Rightarrow> 's \<Rightarrow> Decoder \<Rightarrow> json_error option \<times> 's \<times> Decoder) \<Rightarrow> (bytes \<times> json) list \<Rightarrow> 's \<Rightarrow> 's \<Rightarrow> bool" where
  "reads_all fld [] s s' = (s' = s)"
| "reads_all fld ((name, v) # ms) s s' = (\<exists>s1. reads fld name v s s1 \<and> reads_all fld ms s1 s')"

lemma reads_all_append: "reads_all fld (ms @ ns) s s' \<longleftrightarrow> (\<exists>s1. reads_all fld ms s s1 \<and> reads_all fld ns s1 s')"
proof (induction ms arbitrary: s)
  case (Cons m ms)
  show ?case by (cases m) (simp add: Cons.IH, blast)
qed simp

lemma Decode_print:
  assumes "setter v s = Some s'" and "json_depth v \<le> 10000"
  shows "Decode setter s (at tokenObjectColon stack (Colon # print v @ r)) = (None, s', at tokenObjectComma stack r)"
proof -
  have "parse_value (Suc (length (print v @ r))) (print v @ r) = Some (v, r)"
    using value_parsed [of v] unfolding parsed_def by (metis length_append less_Suc_eq_le le_add1)
  moreover have "print v @ r \<noteq> []" using print_starts [of v] by auto
  ultimately have "readValue (print v @ r) = Inr (v, r)"
    using assms(2) by (simp add: readValue_def del: parse_value.simps)
  then show ?thesis
    using assms(1) by (simp add: Decode_def tokenPrepareForDecode_def tokenValueAllowed_def tokenValueEnd_def Let_def)
qed

lemma object_loop_print:
  assumes "reads_all fld ms s s'" and "distinct (map fst ms)" and "set (map fst ms) \<inter> set seen = {}" and "length ms < n"
  shows "object_loop n seen fld s (at (object_state b) (t # stack) (body b (map member ms) @ RBrace # rest)) =
    (None, s', at (tokenValueEnd t) stack rest)"
  using assms
proof (induction ms arbitrary: b n seen s)
  case Nil
  then obtain k where "n = Suc k" by (cases n) auto
  then show ?case using Nil by (simp add: body_simps object_state_def closing_def)
next
  case (Cons m ms)
  obtain name v where m: "m = (name, v)" by force
  obtain k where n: "n = Suc k" using Cons.prems(4) by (cases n) auto
  let ?after = "body False (map member ms) @ RBrace # rest"
  obtain s1 where s1: "reads fld name v s s1" "reads_all fld ms s1 s'" using Cons.prems(1) m by auto
  have inp: "body b (map member (m # ms)) @ RBrace # rest = (if b then [] else [Comma]) @ Str name # Colon # print v @ ?after"
    by (cases b) (simp_all add: body_simps m)
  have key: "More (at (object_state b) (t # stack) ((if b then [] else [Comma]) @ Str name # ls))"
    "Codec.Token (at (object_state b) (t # stack) ((if b then [] else [Comma]) @ Str name # ls)) =
       Inr (TokString name, at tokenObjectColon (t # stack) ls)" for ls
    by (cases b; simp add: object_state_def)+
  have v: "fld name s (at tokenObjectColon (t # stack) (Colon # print v @ ?after)) = (None, s1, at (object_state False) (t # stack) ?after)"
    using s1(1) by (simp add: reads_def object_state_def)
  have "object_loop k (name # seen) fld s1 (at (object_state False) (t # stack) ?after) = (None, s', at (tokenValueEnd t) stack rest)"
    by (rule Cons.IH [OF s1(2)]) (use Cons.prems(2-4) m n in auto)
  then show ?case unfolding n inp using key v Cons.prems(3) m by simp
qed

lemma length_body: "length ms \<le> length (body b (map member ms))"
proof (induction ms arbitrary: b)
  case (Cons m ms)
  show ?case using Cons.IH [of False] by (cases m; cases b) (simp_all add: body_simps)
qed simp

lemma object_print:
  assumes "startable st" and "reads_all fld ms s s'" and "distinct (map fst ms)"
  shows "object fld s (at st stack (lead st @ print (JObj ms) @ rest)) = (None, s', at (tokenValueEnd (ready st)) stack rest)"
proof -
  let ?in = "body True (map member ms) @ RBrace # rest"
  have t: "Codec.Token (at st stack (lead st @ print (JObj ms) @ rest)) = Inr (Delim CHR ''{'', at tokenObjectStart (ready st # stack) ?in)"
    using assms(1) ready_allowed [OF assms(1)] by (simp add: print_eq Token_lead del: print.simps)
  have "object_loop (Suc (length ?in)) [] fld s (at (object_state True) (ready st # stack) ?in) =
     (None, s', at (tokenValueEnd (ready st)) stack rest)"
    using object_loop_print [OF assms(2,3), of "[]" "Suc (length ?in)" True] length_body [of ms True] by simp
  then show ?thesis by (simp add: object_def t object_state_def del: object_loop.simps print.simps)
qed

lemma reads_object:
  assumes "reads_all fld ms s s'" and "distinct (map fst ms)"
  shows "object fld s (at tokenObjectColon stack (Colon # print (JObj ms) @ r)) = (None, s', at tokenObjectComma stack r)"
  using object_print [OF _ assms, of tokenObjectColon stack r]
  by (simp add: startable_def lead_def ready_def tokenValueEnd_def del: print.simps)

lemma decode_body_print:
  assumes "scan payload = print (JObj ms)" and "int (length payload) \<le> limit"
    and "reads_all fld ms s s'" and "distinct (map fst ms)"
  shows "decode_body scan limit fld s payload = Some s'"
proof -
  have o: "object fld s (NewDecoder (scan payload)) = (None, s', at tokenTopValue [] [])"
    using object_print [OF _ assms(3,4), of tokenTopValue "[]" "[]"]
    by (simp add: startable_def lead_def ready_def tokenValueEnd_def NewDecoder_def assms(1) del: print.simps)
  have "at_end (at tokenTopValue [] [])"
    by (simp add: at_end_def Decode_def tokenPrepareForDecode_def tokenValueAllowed_def readValue_def)
  then show ?thesis using assms(2) by (simp add: decode_body_def o)
qed

section \<open>Setters on written values\<close>

lemma json_depth_text [simp]: "json_depth (json_string s) = 0" "json_depth (json_int n) = 0" "json_depth (json_uint w) = 0"
  "json_depth (json_bool b) = 0"
  by (simp_all add: json_string_def json_int_def json_uint_def json_bool_def)

lemma set_string_json [simp]: "utf8_valid t \<Longrightarrow> set_string upd (json_string t) s = Some (upd t s)"
  by (simp add: set_string_def json_string_def json_text_valid)

lemma decimal_cons: obtains c t where "decimal n = c # t" "c \<noteq> CHR ''-''"
  using decimal_not_null [of n] by (cases "decimal n") auto

lemma int_literal_decimal: "int n \<le> 9223372036854775807 \<Longrightarrow> int_literal (decimal n) = Some (int n)"
  by (rule decimal_cons [of n]) (use digits_decimal [of n] in \<open>auto simp: int_literal_def\<close>)

lemma set_int_json [simp]:
  assumes "int64_ok n"
  shows "set_int upd (json_int n) s = Some (upd n s)"
proof (cases "n < 0")
  case True
  obtain c t where d: "decimal (nat (- n)) = c # t" using decimal_cons by metis
  show ?thesis
    using True assms digits_decimal [of "nat (- n)"]
    by (simp add: set_int_def json_int_def null_def int_literal_def int64_ok_def d)
next
  case False
  obtain c t where d: "decimal (nat n) = c # t" "c \<noteq> CHR ''-''" using decimal_cons by metis
  show ?thesis
    using False assms digits_decimal [of "nat n"] decimal_not_null(1) [of "nat n"] d(2)
    by (auto simp: set_int_def json_int_def null_def int_literal_def int64_ok_def d(1))
qed

lemma set_uint_json [simp]: "set_uint upd (json_uint w) s = Some (upd w s)"
  using uint_json [of w] decimal_not_null(1) [of "unat w"]
  by (simp add: set_uint_def uint_value_def json_uint_def null_def)

lemma set_bool_json [simp]: "set_bool upd (json_bool b) s = Some (upd b s)"
  by (simp add: set_bool_def json_bool_def null_def)

lemma set_bytes_json [simp]: "set_bytes upd (JStr (StdEncode b)) s = Some (upd b s)"
  by (simp add: set_bytes_def)

lemma set_strings_json [simp]:
  assumes "\<forall>t \<in> set ts. utf8_valid t"
  shows "set_strings upd (JArr (map json_string ts)) s = Some (upd ts s)"
proof -
  have "decode_all string_value (map json_string ts) = Some ts"
    using assms by (intro decode_all_map) (simp add: string_json)
  then show ?thesis by (simp add: set_strings_def)
qed

lemma set_time_json [simp]: "parse (tm n) = Some n \<Longrightarrow> set_time parse upd (JStr (tm n)) s = Some (upd n s)"
  by (simp add: set_time_def)

section \<open>Requests\<close>

lemma reads_Decode:
  assumes "\<And>s dec. fld name s dec = Decode setter s dec" and "setter v s = Some s'" and "json_depth v \<le> 10000"
  shows "reads fld name v s s'"
  using Decode_print [of setter v s s', OF assms(2,3)] by (simp add: reads_def assms(1))

lemma capacity_request: "reads_all capacity_member [] () ()"
  by simp

lemma configure_request: "int64_ok n \<Longrightarrow> reads_all configure_member [(''capacity'', json_int n)] 0 n"
  by (simp add: reads_Decode [of _ _ "set_int (\<lambda>n _. n)"] configure_member_def)

lemma claim_request: "int64_ok n \<Longrightarrow> reads_all claim_member [(''wait_ms'', json_int n)] 0 n"
  by (simp add: reads_Decode [of _ _ "set_int (\<lambda>n _. n)"] claim_member_def)

lemma lease_request:
  assumes "utf8_valid xid" and "int64_ok gen"
  shows "reads_all lease_member (lease_reference_json xid gen) \<lparr>lr_ExecutionID = [], lr_Generation = 0\<rparr>
    \<lparr>lr_ExecutionID = xid, lr_Generation = gen\<rparr>"
proof -
  have "reads lease_member ''execution_id'' (json_string xid) \<lparr>lr_ExecutionID = [], lr_Generation = 0\<rparr>
      \<lparr>lr_ExecutionID = xid, lr_Generation = 0\<rparr>"
    by (rule reads_Decode [of _ _ "set_string (\<lambda>x. lr_ExecutionID_update (\<lambda>_. x))"]) (simp_all add: lease_member_def assms)
  moreover have "reads lease_member ''generation'' (json_int gen) \<lparr>lr_ExecutionID = xid, lr_Generation = 0\<rparr>
      \<lparr>lr_ExecutionID = xid, lr_Generation = gen\<rparr>"
    by (rule reads_Decode [of _ _ "set_int (\<lambda>x. lr_Generation_update (\<lambda>_. x))"]) (simp_all add: lease_member_def assms)
  ultimately show ?thesis unfolding lease_reference_json_def by auto
qed

lemma sandbox_request:
  assumes "utf8_valid xid" and "int64_ok gen" and "utf8_valid sb"
  shows "reads_all sandbox_member (lease_reference_json xid gen @ [(''sandbox_id'', json_string sb)])
    \<lparr>lr_ExecutionID = [], lr_Generation = 0, lr_SandboxID = []\<rparr> \<lparr>lr_ExecutionID = xid, lr_Generation = gen, lr_SandboxID = sb\<rparr>"
proof -
  have "reads sandbox_member ''execution_id'' (json_string xid) \<lparr>lr_ExecutionID = [], lr_Generation = 0, lr_SandboxID = []\<rparr>
      \<lparr>lr_ExecutionID = xid, lr_Generation = 0, lr_SandboxID = []\<rparr>"
    by (rule reads_Decode [of _ _ "set_string (\<lambda>x. lr_ExecutionID_update (\<lambda>_. x))"]) (simp_all add: sandbox_member_def assms)
  moreover have "reads sandbox_member ''generation'' (json_int gen) \<lparr>lr_ExecutionID = xid, lr_Generation = 0, lr_SandboxID = []\<rparr>
      \<lparr>lr_ExecutionID = xid, lr_Generation = gen, lr_SandboxID = []\<rparr>"
    by (rule reads_Decode [of _ _ "set_int (\<lambda>x. lr_Generation_update (\<lambda>_. x))"]) (simp_all add: sandbox_member_def assms)
  moreover have "reads sandbox_member ''sandbox_id'' (json_string sb) \<lparr>lr_ExecutionID = xid, lr_Generation = gen, lr_SandboxID = []\<rparr>
      \<lparr>lr_ExecutionID = xid, lr_Generation = gen, lr_SandboxID = sb\<rparr>"
    by (rule reads_Decode [of _ _ "set_string (\<lambda>x. lr_SandboxID_update (\<lambda>_. x))"]) (simp_all add: sandbox_member_def assms)
  ultimately show ?thesis unfolding lease_reference_json_def by auto
qed

section \<open>Reports\<close>

lemma reads_all_Cons: "reads fld name v s s1 \<Longrightarrow> reads_all fld ms s1 s' \<Longrightarrow> reads_all fld ((name, v) # ms) s s'"
  by auto

lemma reads_bounded:
  assumes "\<And>s dec. fld name s dec = boundedText upd get limit s dec" and "utf8_valid t" and "int (length t) \<le> limit"
    and "get (upd t s) = t"
  shows "reads fld name (json_string t) s (upd t s)"
  using Decode_print [of "set_string upd" "json_string t" s "upd t s"] assms
  by (simp add: reads_def boundedText_def)

definition output_clean :: "ExtractedOutput \<Rightarrow> bool" where
  "output_clean x \<longleftrightarrow> utf8_valid (Path x) \<and> utf8_valid (SHA256 x) \<and> int64_ok (Size x) \<and>
     int (length (Path x)) \<le> 1024 \<and> int (length (SHA256 x)) \<le> 64"

definition output_members :: "ExtractedOutput \<Rightarrow> (bytes \<times> json) list" where
  "output_members x = [(''path'', json_string (Path x)), (''size'', json_int (Size x)), (''sha256'', json_string (SHA256 x)),
     (''content'', JStr (StdEncode (Content x)))]"

lemma output_json_members: "output_json x = JObj (output_members x)"
  by (simp add: output_json_def output_members_def)

lemma output_reads:
  "utf8_valid t \<Longrightarrow> int (length t) \<le> 1024 \<Longrightarrow> reads output_member ''path'' (json_string t) s (s\<lparr>Path := t\<rparr>)"
  "int64_ok n \<Longrightarrow> reads output_member ''size'' (json_int n) s (s\<lparr>Size := n\<rparr>)"
  "utf8_valid t \<Longrightarrow> int (length t) \<le> 64 \<Longrightarrow> reads output_member ''sha256'' (json_string t) s (s\<lparr>SHA256 := t\<rparr>)"
  "reads output_member ''content'' (JStr (StdEncode t)) s (s\<lparr>Content := t\<rparr>)"
  using reads_bounded [of output_member "''path''" "\<lambda>x. Path_update (\<lambda>_. x)" Path 1024 t s]
    reads_bounded [of output_member "''sha256''" "\<lambda>x. SHA256_update (\<lambda>_. x)" SHA256 64 t s]
    reads_Decode [of output_member "''size''" "set_int (\<lambda>x. Size_update (\<lambda>_. x))" "json_int n" s]
    reads_Decode [of output_member "''content''" "set_bytes (\<lambda>x. Content_update (\<lambda>_. x))" "JStr (StdEncode t)" s]
  by (simp_all add: output_member_def)

lemma output_request: "output_clean x \<Longrightarrow> reads_all output_member (output_members x) zero_output x"
  unfolding output_members_def output_clean_def
  by (rule reads_all_Cons [OF output_reads(1)], simp, simp, rule reads_all_Cons [OF output_reads(2)], simp,
      rule reads_all_Cons [OF output_reads(3)], simp, simp, rule reads_all_Cons [OF output_reads(4)]) (simp add: zero_output_def)

lemma output_object:
  assumes "output_clean x"
  shows "object output_member zero_output (at (array_state b) (t # stack) ((if b then [] else [Comma]) @ print (output_json x) @ rest)) =
    (None, x, at tokenArrayComma (t # stack) rest)"
  using object_print [OF _ output_request [OF assms], of "array_state b" "t # stack" rest]
  by (cases b) (simp_all add: startable_def array_state_def lead_def ready_def tokenValueEnd_def output_json_members output_members_def
    del: print.simps)

lemma outputs_loop_print:
  assumes "\<forall>x \<in> set xs. output_clean x" and "length outs + length xs \<le> 16"
    and "acc + int (sum_list (map (\<lambda>x. length (Content x)) xs)) \<le> 32 * MiB" and "length xs < n"
  shows "outputs_loop n acc outs (at (array_state b) (t # stack) (body b (map print (map output_json xs)) @ RBrack # rest)) =
    (None, outs @ xs, at (tokenValueEnd t) stack rest)"
  using assms
proof (induction xs arbitrary: b n acc outs)
  case Nil
  then obtain k where "n = Suc k" by (cases n) auto
  then show ?case by (simp add: body_simps array_state_def closing_def)
next
  case (Cons x xs)
  obtain k where n: "n = Suc k" using Cons.prems(4) by (cases n) auto
  let ?after = "body False (map print (map output_json xs)) @ RBrack # rest"
  have inp: "body b (map print (map output_json (x # xs))) @ RBrack # rest = (if b then [] else [Comma]) @ print (output_json x) @ ?after"
    by (cases b) (simp_all add: body_simps del: print.simps)
  have more: "More (at (array_state b) (t # stack) ((if b then [] else [Comma]) @ print (output_json x) @ ?after))"
    by (cases b) (simp_all add: output_json_def)
  have o: "object output_member zero_output (at (array_state b) (t # stack) ((if b then [] else [Comma]) @ print (output_json x) @ ?after)) =
      (None, x, at (array_state False) (t # stack) ?after)"
    using output_object [of x b t stack ?after] Cons.prems(1) by (simp add: array_state_def)
  have "outputs_loop k (acc + int (length (Content x))) (outs @ [x]) (at (array_state False) (t # stack) ?after) =
      (None, (outs @ [x]) @ xs, at (tokenValueEnd t) stack rest)"
    by (rule Cons.IH) (use Cons.prems n in auto)
  moreover have "length outs \<noteq> 16" "acc + int (length (Content x)) \<le> 32 * MiB" using Cons.prems(2,3) by auto
  ultimately show ?case unfolding n inp outputs_loop.simps(2) using more o by simp
qed

lemma length_array_body: "length xs \<le> length (body b (map print (map output_json xs)))"
proof (induction xs arbitrary: b)
  case (Cons x xs)
  show ?case using Cons.IH [of False] by (cases b) (simp_all add: body_simps output_json_def)
qed simp

definition report_clean :: "ExecutePythonResult \<Rightarrow> bool" where
  "report_clean r \<longleftrightarrow> utf8_valid (r_ExecutionID r) \<and> utf8_valid (Stdout r) \<and> utf8_valid (Stderr r) \<and>
     utf8_valid (TerminalReason r) \<and> utf8_valid (OutputError r) \<and> int64_ok (ExitCode r) \<and>
     int (length (Stdout r)) \<le> 24 * MiB \<and> int (length (Stderr r)) \<le> 24 * MiB \<and> length (Outputs r) \<le> 16 \<and>
     (\<forall>x \<in> set (Outputs r). output_clean x) \<and> int (sum_list (map (\<lambda>x. length (Content x)) (Outputs r))) \<le> 32 * MiB"

lemma reads_outputs:
  assumes "\<forall>x \<in> set xs. output_clean x" and "length xs \<le> 16"
    and "int (sum_list (map (\<lambda>x. length (Content x)) xs)) \<le> 32 * MiB" and "Outputs s = []"
  shows "reads result_member ''outputs'' (JArr (map output_json xs)) s (s\<lparr>Outputs := xs\<rparr>)"
  unfolding reads_def
proof (intro allI)
  fix stack r
  let ?in = "body True (map print (map output_json xs)) @ RBrack # r"
  have "outputs_loop (Suc (length ?in)) 0 [] (at (array_state True) (tokenObjectValue # stack) ?in) =
      (None, [] @ xs, at (tokenValueEnd tokenObjectValue) stack r)"
    by (rule outputs_loop_print [OF assms(1)]) (use assms(2,3) length_array_body [of xs True] in auto)
  then show "result_member ''outputs'' s (at tokenObjectColon stack (Colon # print (JArr (map output_json xs)) @ r)) =
      (None, s\<lparr>Outputs := xs\<rparr>, at tokenObjectComma stack r)"
    by (simp add: result_member_def decodeOutputs_def next_null_def print_eq tokenValueAllowed_def array_state_def
        tokenValueEnd_def assms(4) del: print.simps outputs_loop.simps)
qed

section \<open>Structs\<close>

lemma find_field_in:
  assumes "distinct (map foldName (map fst tags))" and "(name, setter) \<in> set tags"
  shows "find_field tags name = Some setter"
  using assms
proof (induction tags)
  case (Cons f tags)
  obtain n g where f: "f = (n, g)" by force
  show ?case
  proof (cases "n = name \<or> foldName n = foldName name")
    case True
    then have "(name, setter) \<notin> set tags" using Cons.prems(1) f by (force simp: image_iff)
    then show ?thesis using Cons.prems(2) f by (simp add: find_field_def)
  next
    case False
    then have "find_field (f # tags) name = find_field tags name" "(name, setter) \<in> set tags"
      using Cons.prems(2) f by (auto simp: find_field_def)
    then show ?thesis using Cons.IH Cons.prems(1) by simp
  qed
qed simp

lemma assign_append:
  "assign_members tags (ms @ ns) s = (case assign_members tags ms s of None \<Rightarrow> None | Some s' \<Rightarrow> assign_members tags ns s')"
  by (induction tags ms s rule: assign_members.induct) (auto split: option.splits)

lemma distinct_tags:
  "distinct (map foldName [''oom_events'', ''pid_limit_events'', ''cpu_usec'', ''cpu_throttled_periods'', ''cpu_throttled_usec''])"
  "distinct (map foldName [''execution_id'', ''agent_run_id'', ''generation'', ''expires_at'', ''source'', ''stdin'', ''output_paths''])"
  "distinct (map foldName [''worker_id'', ''configured'', ''occupied'', ''available''])"
  "distinct (map foldName [''lease'', ''state'', ''server_time'', ''recovery_until''])"
  "distinct (map foldName [''lease'', ''sandbox_id'', ''state'', ''cleanup_unknown''])"
  by code_simp+

lemma usage_fields:
  "find_field usage_setters ''oom_events'' = Some (set_uint (\<lambda>x. OOMEvents_update (\<lambda>_. x)))"
  "find_field usage_setters ''pid_limit_events'' = Some (set_uint (\<lambda>x. PIDLimitEvents_update (\<lambda>_. x)))"
  "find_field usage_setters ''cpu_usec'' = Some (set_uint (\<lambda>x. CPUUsec_update (\<lambda>_. x)))"
  "find_field usage_setters ''cpu_throttled_periods'' = Some (set_uint (\<lambda>x. CPUThrottledPeriods_update (\<lambda>_. x)))"
  "find_field usage_setters ''cpu_throttled_usec'' = Some (set_uint (\<lambda>x. CPUThrottledUsec_update (\<lambda>_. x)))"
  by (rule find_field_in, use distinct_tags(1) in \<open>simp add: usage_setters_def\<close>, simp add: usage_setters_def)+

lemma lease_fields:
  "find_field (lease_setters parse) ''execution_id'' = Some (set_string (\<lambda>x. l_ExecutionID_update (\<lambda>_. x)))"
  "find_field (lease_setters parse) ''agent_run_id'' = Some (set_string (\<lambda>x. l_AgentRunID_update (\<lambda>_. x)))"
  "find_field (lease_setters parse) ''generation'' = Some (set_int (\<lambda>x. l_Generation_update (\<lambda>_. x)))"
  "find_field (lease_setters parse) ''expires_at'' = Some (set_time parse (\<lambda>x. l_ExpiresAt_update (\<lambda>_. x)))"
  "find_field (lease_setters parse) ''source'' = Some (set_string (\<lambda>x. l_Source_update (\<lambda>_. x)))"
  "find_field (lease_setters parse) ''stdin'' = Some (set_string (\<lambda>x. l_Stdin_update (\<lambda>_. x)))"
  "find_field (lease_setters parse) ''output_paths'' = Some (set_strings (\<lambda>x. l_OutputPaths_update (\<lambda>_. x)))"
  by (rule find_field_in, use distinct_tags(2) in \<open>simp add: lease_setters_def\<close>, simp add: lease_setters_def)+

lemma capacity_fields:
  "find_field capacity_setters ''worker_id'' = Some (set_string (\<lambda>x. c_WorkerID_update (\<lambda>_. x)))"
  "find_field capacity_setters ''configured'' = Some (set_int (\<lambda>x. Configured_update (\<lambda>_. x)))"
  "find_field capacity_setters ''occupied'' = Some (set_int (\<lambda>x. Occupied_update (\<lambda>_. x)))"
  "find_field capacity_setters ''available'' = Some (set_int (\<lambda>x. Available_update (\<lambda>_. x)))"
  by (rule find_field_in, use distinct_tags(3) in \<open>simp add: capacity_setters_def\<close>, simp add: capacity_setters_def)+

lemma authority_fields:
  "find_field (authority_setters parse) ''lease'' =
     Some (\<lambda>v s. map_option (\<lambda>l. s\<lparr>ar_Lease := l\<rparr>) (set_struct (lease_setters parse) v (ar_Lease s)))"
  "find_field (authority_setters parse) ''state'' = Some (set_string (\<lambda>x. ar_State_update (\<lambda>_. x)))"
  "find_field (authority_setters parse) ''server_time'' = Some (set_time parse (\<lambda>x. ar_ServerTime_update (\<lambda>_. x)))"
  "find_field (authority_setters parse) ''recovery_until'' = Some (set_time parse (\<lambda>x. ar_RecoveryUntil_update (\<lambda>_. x)))"
  by (rule find_field_in, use distinct_tags(4) in \<open>simp add: authority_setters_def\<close>, simp add: authority_setters_def)+

lemma outstanding_fields:
  "find_field (outstanding_setters parse) ''lease'' =
     Some (\<lambda>v s. map_option (\<lambda>l. s\<lparr>or_Lease := l\<rparr>) (set_struct (lease_setters parse) v (or_Lease s)))"
  "find_field (outstanding_setters parse) ''sandbox_id'' = Some (set_string (\<lambda>x. or_SandboxID_update (\<lambda>_. x)))"
  "find_field (outstanding_setters parse) ''state'' = Some (set_string (\<lambda>x. or_State_update (\<lambda>_. x)))"
  "find_field (outstanding_setters parse) ''cleanup_unknown'' = Some (set_bool (\<lambda>x. or_CleanupUnknown_update (\<lambda>_. x)))"
  by (rule find_field_in, use distinct_tags(5) in \<open>simp add: outstanding_setters_def\<close>, simp add: outstanding_setters_def)+

section \<open>The whole report\<close>

lemma usage_struct: "set_struct usage_setters (usage_json u) zero_usage = Some u"
  by (simp add: set_struct_def usage_json_def usage_fields zero_usage_def)

lemma usage_depth: "json_depth (usage_json u) \<le> 10000"
  by (simp add: usage_json_def)

lemma result_reads:
  "utf8_valid t \<Longrightarrow> reads result_member ''execution_id'' (json_string t) r (r\<lparr>r_ExecutionID := t\<rparr>)"
  "int64_ok n \<Longrightarrow> reads result_member ''exit_code'' (json_int n) r (r\<lparr>ExitCode := n\<rparr>)"
  "utf8_valid t \<Longrightarrow> int (length t) \<le> 24 * MiB \<Longrightarrow> reads result_member ''stdout'' (json_string t) r (r\<lparr>Stdout := t\<rparr>)"
  "utf8_valid t \<Longrightarrow> int (length t) \<le> 24 * MiB \<Longrightarrow> reads result_member ''stderr'' (json_string t) r (r\<lparr>Stderr := t\<rparr>)"
  "reads result_member ''truncated'' (json_bool b) r (r\<lparr>Truncated := b\<rparr>)"
  "reads result_member ''stdout_truncated'' (json_bool b) r (r\<lparr>StdoutTruncated := b\<rparr>)"
  "reads result_member ''stderr_truncated'' (json_bool b) r (r\<lparr>StderrTruncated := b\<rparr>)"
  "utf8_valid t \<Longrightarrow> reads result_member ''terminal_reason'' (json_string t) r (r\<lparr>TerminalReason := t\<rparr>)"
  "utf8_valid t \<Longrightarrow> reads result_member ''output_error'' (json_string t) r (r\<lparr>OutputError := t\<rparr>)"
  using reads_bounded [of result_member "''stdout''" "\<lambda>x. Stdout_update (\<lambda>_. x)" Stdout "24 * MiB" t r]
    reads_bounded [of result_member "''stderr''" "\<lambda>x. Stderr_update (\<lambda>_. x)" Stderr "24 * MiB" t r]
    reads_Decode [of result_member "''execution_id''" "set_string (\<lambda>x. r_ExecutionID_update (\<lambda>_. x))" "json_string t" r]
    reads_Decode [of result_member "''exit_code''" "set_int (\<lambda>x. ExitCode_update (\<lambda>_. x))" "json_int n" r]
    reads_Decode [of result_member "''truncated''" "set_bool (\<lambda>x. Truncated_update (\<lambda>_. x))" "json_bool b" r]
    reads_Decode [of result_member "''stdout_truncated''" "set_bool (\<lambda>x. StdoutTruncated_update (\<lambda>_. x))" "json_bool b" r]
    reads_Decode [of result_member "''stderr_truncated''" "set_bool (\<lambda>x. StderrTruncated_update (\<lambda>_. x))" "json_bool b" r]
    reads_Decode [of result_member "''terminal_reason''" "set_string (\<lambda>x. TerminalReason_update (\<lambda>_. x))" "json_string t" r]
    reads_Decode [of result_member "''output_error''" "set_string (\<lambda>x. OutputError_update (\<lambda>_. x))" "json_string t" r]
  by (simp_all add: result_member_def)

lemma reads_usage:
  assumes "ResourceUsage r = zero_usage"
  shows "reads result_member ''resource_usage'' (usage_json u) r (r\<lparr>ResourceUsage := u\<rparr>)"
  by (rule reads_Decode [of _ _ set_usage]) (simp_all add: result_member_def set_usage_def assms usage_struct usage_depth)

definition result_members :: "ExecutePythonResult \<Rightarrow> (bytes \<times> json) list" where
  "result_members r = [(''execution_id'', json_string (r_ExecutionID r)), (''exit_code'', json_int (ExitCode r)),
      (''stdout'', json_string (Stdout r)), (''stderr'', json_string (Stderr r)), (''truncated'', json_bool (Truncated r)),
      (''stdout_truncated'', json_bool (StdoutTruncated r)), (''stderr_truncated'', json_bool (StderrTruncated r)),
      (''terminal_reason'', json_string (TerminalReason r)), (''resource_usage'', usage_json (ResourceUsage r))] @
     (if Outputs r = [] then [] else [(''outputs'', JArr (map output_json (Outputs r)))]) @
     (if OutputError r = [] then [] else [(''output_error'', json_string (OutputError r))])"

lemma result_json_members: "result_json r = JObj (result_members r)"
  by (simp add: result_json_def result_members_def)

lemma result_names: "distinct (map fst (result_members r))"
  by (simp add: result_members_def)

definition plain :: "ExecutePythonResult \<Rightarrow> ExecutePythonResult" where
  "plain r = r\<lparr>Outputs := [], OutputError := []\<rparr>"

lemma plain_request:
  assumes "report_clean r"
  shows "reads_all result_member (take 9 (result_members r)) zero_result (plain r)"
proof -
  have c: "utf8_valid (r_ExecutionID r)" "utf8_valid (Stdout r)" "utf8_valid (Stderr r)" "utf8_valid (TerminalReason r)"
    "int64_ok (ExitCode r)" "int (length (Stdout r)) \<le> 24 * MiB" "int (length (Stderr r)) \<le> 24 * MiB"
    using assms by (simp_all add: report_clean_def)
  have e: "reads_all result_member [] s (plain r)" if "s = plain r" for s using that by simp
  show ?thesis
    unfolding result_members_def
    apply (simp del: reads_all.simps)
    apply (rule reads_all_Cons [OF result_reads(1)], rule c)
    apply (rule reads_all_Cons [OF result_reads(2)], rule c)
    apply (rule reads_all_Cons [OF result_reads(3)], rule c, rule c)
    apply (rule reads_all_Cons [OF result_reads(4)], rule c, rule c)
    apply (rule reads_all_Cons [OF result_reads(5)])
    apply (rule reads_all_Cons [OF result_reads(6)])
    apply (rule reads_all_Cons [OF result_reads(7)])
    apply (rule reads_all_Cons [OF result_reads(8)], rule c)
    apply (rule reads_all_Cons [OF reads_usage], simp add: zero_result_def)
    by (rule e) (simp add: plain_def zero_result_def)
qed

lemma result_request:
  assumes "report_clean r"
  shows "reads_all result_member (result_members r) zero_result r"
proof -
  let ?o = "if Outputs r = [] then [] else [(''outputs'', JArr (map output_json (Outputs r)))]"
  let ?e = "if OutputError r = [] then [] else [(''output_error'', json_string (OutputError r))]"
  have split: "result_members r = take 9 (result_members r) @ ?o @ ?e" by (simp add: result_members_def)
  have outs: "reads_all result_member ?o (plain r) (r\<lparr>OutputError := []\<rparr>)"
    using assms reads_outputs [of "Outputs r" "plain r"] by (auto simp: plain_def report_clean_def)
  have err: "reads_all result_member ?e (r\<lparr>OutputError := []\<rparr>) r"
    using assms result_reads(9) [of "OutputError r" "r\<lparr>OutputError := []\<rparr>"] by (auto simp: report_clean_def)
  show ?thesis
    by (subst split, unfold reads_all_append) (intro exI conjI, rule plain_request [OF assms], rule outs, rule err)
qed

lemma complete_request:
  assumes "utf8_valid xid" and "int64_ok gen" and "report_clean r"
  shows "reads_all complete_member (lease_reference_json xid gen @ [(''result'', result_json r)])
    \<lparr>lr_ExecutionID = [], lr_Generation = 0, cr_Result = zero_result\<rparr> \<lparr>lr_ExecutionID = xid, lr_Generation = gen, cr_Result = r\<rparr>"
proof -
  have xid: "reads complete_member ''execution_id'' (json_string xid) s (s\<lparr>lr_ExecutionID := xid\<rparr>)" for s
    using reads_Decode [of complete_member _ "set_string (\<lambda>x. lr_ExecutionID_update (\<lambda>_. x))"] assms(1)
    by (simp add: complete_member_def)
  have gen: "reads complete_member ''generation'' (json_int gen) s (s\<lparr>lr_Generation := gen\<rparr>)" for s
    using reads_Decode [of complete_member _ "set_int (\<lambda>x. lr_Generation_update (\<lambda>_. x))"] assms(2)
    by (simp add: complete_member_def)
  have res: "reads complete_member ''result'' (result_json r) s (s\<lparr>cr_Result := r\<rparr>)" if "cr_Result s = zero_result" for s
    using reads_object [OF result_request [OF assms(3)] result_names] that
    by (simp add: reads_def complete_member_def decodeResult_def result_json_members del: print.simps)
  show ?thesis
    unfolding lease_reference_json_def append.simps
    by (rule reads_all_Cons [OF xid], rule reads_all_Cons [OF gen], rule reads_all_Cons [OF res]) simp_all
qed

end
