(* ===== verification/WorkerRemote.thy ===== *)
theory WorkerRemote
  imports WorkerWire QueueProperties
begin

text \<open>
  The Worker API as a whole: a call of the client through the request on the wire, the handler, the answer
  on the wire and the checks on it, against the operation of the queue it stands for.
\<close>

section \<open>The operation behind a call\<close>

text \<open>The rounds of a claim that is not cancelled.\<close>

fun claim_rounds :: "api_env \<Rightarrow> bytes \<Rightarrow> poll list \<Rightarrow> queue_db \<Rightarrow> ((store_error + Lease option) \<times> queue_db) option" where
  "claim_rounds w tok [] db = None"
| "claim_rounds w tok (p # ps) db =
     (case Claim (ap_store w) (ap_codec w) (ap_sha256 w) (pl_env p) tok db of
        (Inr None, db1) \<Rightarrow> if pl_left p \<le> 0 then Some (Inr None, db1) else claim_rounds w tok ps (pl_between p db1)
      | r \<Rightarrow> Some r)"

definition tagged :: "('a \<Rightarrow> 'b) \<Rightarrow> (store_error + 'a) \<times> queue_db \<Rightarrow> (store_error + 'b) \<times> queue_db" where
  "tagged f r = (map_sum (\<lambda>e. e) f (fst r), snd r)"

text \<open>A report is authenticated before it is read, and again in its transaction.\<close>

definition complete_operation ::
  "api_env \<Rightarrow> request_env \<Rightarrow> bytes \<Rightarrow> bytes \<Rightarrow> int \<Rightarrow> ExecutePythonResult \<Rightarrow> queue_db \<Rightarrow> (store_error + unit) \<times> queue_db" where
  "complete_operation w rq tok xid gen r db =
     (case Authenticate (ap_sha256 w) (rq_auth rq) tok (worker_nodes db) of
        (Inl e, _) \<Rightarrow> (Inl e, db)
      | (Inr _, _) \<Rightarrow> Complete (ap_codec w) (ap_sha256 w) (rq_op rq) tok xid gen r (rq_between rq db))"

fun call_queue :: "api_env \<Rightarrow> request_env \<Rightarrow> bytes \<Rightarrow> api_call \<Rightarrow> queue_db \<Rightarrow> ((store_error + api_reply) \<times> queue_db) option" where
  "call_queue w rq tok (ApiClaim wait) db = map_option (tagged LeaseReply) (claim_rounds w tok (rq_polls rq) db)"
| "call_queue w rq tok (ApiValidate xid gen) db =
     Some (tagged (\<lambda>_. Acknowledged) (Validate (ap_codec w) (ap_sha256 w) (rq_op rq) tok xid gen db))"
| "call_queue w rq tok (ApiRelease xid gen) db =
     Some (tagged (\<lambda>_. Acknowledged) (Release (ap_sha256 w) (rq_op rq) tok xid gen db))"
| "call_queue w rq tok ApiCapacity db = Some (tagged CapacityReply (Capacity_op (ap_sha256 w) (rq_op rq) tok db))"
| "call_queue w rq tok (ApiConfigureCapacity n) db =
     Some (tagged (\<lambda>_. Acknowledged) (ConfigureCapacity (ap_sha256 w) (rq_op rq) tok n db))"
| "call_queue w rq tok (ApiBindSandbox xid gen sb) db =
     Some (tagged (\<lambda>_. Acknowledged) (BindSandbox (ap_sha256 w) (rq_op rq) tok xid gen sb db))"
| "call_queue w rq tok ApiOutstanding db = Some (tagged OutstandingReply (Outstanding (ap_sha256 w) (rq_op rq) tok db))"
| "call_queue w rq tok (ApiHeartbeat xid gen sb) db =
     Some (tagged AuthorityReply (Heartbeat (ap_store w) (ap_sha256 w) (rq_op rq) tok xid gen sb db))"
| "call_queue w rq tok (ApiRecover xid gen sb) db =
     Some (tagged AuthorityReply (Recover (ap_store w) (ap_sha256 w) (rq_op rq) tok xid gen sb db))"
| "call_queue w rq tok (ApiComplete xid gen r) db = Some (tagged (\<lambda>_. Acknowledged) (complete_operation w rq tok xid gen r db))"

section \<open>The checks of the client\<close>

definition entry_ok :: "OutstandingExecution \<Rightarrow> bool" where
  "entry_ok x \<longleftrightarrow> (let l = o_Lease x in l_ExecutionID l \<noteq> [] \<and> l_AgentRunID l \<noteq> [] \<and> l_Generation l > 0 \<and> l_ExpiresAt l \<noteq> 0 \<and>
     l_Source l = [] \<and> l_Stdin l = [] \<and> l_OutputPaths l = [] \<and> o_State x \<noteq> Queued)"

definition authority_ok :: "bytes \<Rightarrow> int \<Rightarrow> Authority \<Rightarrow> bool" where
  "authority_ok xid gen a \<longleftrightarrow> (let l = a_Lease a in l_ExecutionID l = xid \<and> l_AgentRunID l \<noteq> [] \<and> l_Generation l = gen \<and>
     ServerTime a \<noteq> 0 \<and> a_RecoveryUntil a > l_ExpiresAt l \<and> (a_State a = Leased \<or> a_State a = Completed) \<and>
     (a_State a = Leased \<longrightarrow> l_ExpiresAt l > ServerTime a))"

fun acceptable :: "api_call \<Rightarrow> api_reply \<Rightarrow> bool" where
  "acceptable _ (LeaseReply (Some l)) \<longleftrightarrow> l_ExecutionID l \<noteq> [] \<and> l_AgentRunID l \<noteq> [] \<and> l_Generation l > 0 \<and> l_ExpiresAt l \<noteq> 0 \<and> l_Source l \<noteq> []"
| "acceptable _ (CapacityReply c) \<longleftrightarrow> c_WorkerID c \<noteq> [] \<and> 1 \<le> Configured c \<and> Configured c \<le> 64 \<and> 0 \<le> Occupied c \<and>
     Available c = max 0 (Configured c - Occupied c)"
| "acceptable _ (OutstandingReply xs) \<longleftrightarrow> length xs \<le> 64 \<and> (\<forall>x \<in> set xs. entry_ok x)"
| "acceptable (ApiHeartbeat xid gen _) (AuthorityReply a) \<longleftrightarrow> authority_ok xid gen a"
| "acceptable (ApiRecover xid gen _) (AuthorityReply a) \<longleftrightarrow> authority_ok xid gen a"
| "acceptable _ _ \<longleftrightarrow> True"

definition client_view :: "api_call \<Rightarrow> store_error + api_reply \<Rightarrow> api_error + api_reply" where
  "client_view call r =
     (case r of
        Inl e \<Rightarrow> Inl (HTTPError (error_status e))
      | Inr v \<Rightarrow> if acceptable call v then Inr v else Inl OtherError)"

section \<open>What travels\<close>

definition lease_clean :: "(bytes \<Rightarrow> int option) \<Rightarrow> (int \<Rightarrow> bytes) \<Rightarrow> Lease \<Rightarrow> bool" where
  "lease_clean parse tm l \<longleftrightarrow> utf8_valid (l_ExecutionID l) \<and> utf8_valid (l_AgentRunID l) \<and> utf8_valid (l_Source l) \<and>
     utf8_valid (l_Stdin l) \<and> (\<forall>p \<in> set (l_OutputPaths l). utf8_valid p) \<and> int64_ok (l_Generation l) \<and>
     parse (tm (l_ExpiresAt l)) = Some (l_ExpiresAt l)"

fun reply_clean :: "(bytes \<Rightarrow> int option) \<Rightarrow> (int \<Rightarrow> bytes) \<Rightarrow> api_reply \<Rightarrow> bool" where
  "reply_clean parse tm (LeaseReply (Some l)) \<longleftrightarrow> lease_clean parse tm l"
| "reply_clean parse tm (CapacityReply c) \<longleftrightarrow>
     utf8_valid (c_WorkerID c) \<and> int64_ok (Configured c) \<and> int64_ok (Occupied c) \<and> int64_ok (Available c)"
| "reply_clean parse tm (OutstandingReply xs) \<longleftrightarrow> (\<forall>x \<in> set xs. lease_clean parse tm (o_Lease x) \<and> utf8_valid (o_SandboxID x))"
| "reply_clean parse tm (AuthorityReply a) \<longleftrightarrow> lease_clean parse tm (a_Lease a) \<and>
     parse (tm (ServerTime a)) = Some (ServerTime a) \<and> parse (tm (a_RecoveryUntil a)) = Some (a_RecoveryUntil a)"
| "reply_clean parse tm _ \<longleftrightarrow> True"

fun reply_json :: "(int \<Rightarrow> bytes) \<Rightarrow> api_reply \<Rightarrow> json option" where
  "reply_json tm (LeaseReply l) = map_option (lease_json tm) l"
| "reply_json tm (CapacityReply c) = Some (capacity_json c)"
| "reply_json tm (OutstandingReply xs) = Some (JArr (map (outstanding_json tm) xs))"
| "reply_json tm (AuthorityReply a) = Some (authority_json tm a)"
| "reply_json tm Acknowledged = None"

definition answer_of :: "(int \<Rightarrow> bytes) \<Rightarrow> store_error + api_reply \<Rightarrow> http_response" where
  "answer_of tm r =
     (case r of
        Inl e \<Rightarrow> writeError e
      | Inr v \<Rightarrow> (case reply_json tm v of None \<Rightarrow> no_content | Some j \<Rightarrow> encoded j))"

text \<open>The answer as the client receives it, complete and in time.\<close>

definition delivered :: "http_response \<Rightarrow> exchange" where
  "delivered h = Answered (h_Status h) (case h_Body h of NoBody \<Rightarrow> [] | Message m \<Rightarrow> m | Encoded b \<Rightarrow> b) None None"

text \<open>\<open>delivers\<close>: the body of an answer fits the limit, and reading it finds the encoded value and then the end.\<close>

definition delivers :: "reader \<Rightarrow> json \<Rightarrow> bool" where
  "delivers rd v \<longleftrightarrow> length (json_bytes v) < maximumResponseBytes \<and> rd_read rd (json_bytes v @ [CHR 0x0A]) = ReadValue v True"

definition carried :: "api_env \<Rightarrow> reader \<Rightarrow> store_error + api_reply \<Rightarrow> bool" where
  "carried w rd r \<longleftrightarrow>
     (case r of
        Inl e \<Rightarrow> True
      | Inr v \<Rightarrow> reply_clean (rd_parse rd) (ap_time w) v \<and>
          (case reply_json (ap_time w) v of None \<Rightarrow> True | Some j \<Rightarrow> delivers rd j))"

fun call_clean :: "api_call \<Rightarrow> bool" where
  "call_clean (ApiClaim wait) \<longleftrightarrow> True"
| "call_clean (ApiValidate xid gen) \<longleftrightarrow> utf8_valid xid \<and> int64_ok gen"
| "call_clean (ApiRelease xid gen) \<longleftrightarrow> utf8_valid xid \<and> int64_ok gen"
| "call_clean ApiCapacity \<longleftrightarrow> True"
| "call_clean (ApiConfigureCapacity n) \<longleftrightarrow> int64_ok n"
| "call_clean (ApiBindSandbox xid gen sb) \<longleftrightarrow> utf8_valid xid \<and> int64_ok gen \<and> utf8_valid sb"
| "call_clean ApiOutstanding \<longleftrightarrow> True"
| "call_clean (ApiHeartbeat xid gen sb) \<longleftrightarrow> utf8_valid xid \<and> int64_ok gen \<and> utf8_valid sb"
| "call_clean (ApiRecover xid gen sb) \<longleftrightarrow> utf8_valid xid \<and> int64_ok gen \<and> utf8_valid sb"
| "call_clean (ApiComplete xid gen r) \<longleftrightarrow> utf8_valid xid \<and> int64_ok gen \<and> report_clean r"

definition request_limit :: "api_call \<Rightarrow> int" where
  "request_limit call = (case call of ApiComplete _ _ _ \<Rightarrow> MaximumReportBytes | _ \<Rightarrow> 1024)"

definition sends :: "api_env \<Rightarrow> api_call \<Rightarrow> bool" where
  "sends w call \<longleftrightarrow> ap_scan w (json_bytes (call_json call)) = print (call_json call) \<and>
     int (length (json_bytes (call_json call))) \<le> request_limit call"

text \<open>A call over the wire.\<close>

definition remote_call ::
  "Client \<Rightarrow> reader \<Rightarrow> api_env \<Rightarrow> slots \<Rightarrow> request_env \<Rightarrow> api_call \<Rightarrow> queue_db \<Rightarrow> ((api_error + api_reply) \<times> queue_db) option" where
  "remote_call c rd w sl rq call db =
     (case call_request c call of
        None \<Rightarrow> Some (Inl OtherError, db)
      | Some q \<Rightarrow> map_option (\<lambda>(h, db'). (client_reply rd call (delivered h), db')) (ServeHTTP w sl rq q db))"

section \<open>Reading the answers\<close>

lemma lease_read:
  assumes "lease_clean parse tm l"
  shows "set_struct (lease_setters parse) (lease_json tm l) zero_lease = Some l"
  using assms
  by (simp add: lease_clean_def set_struct_def lease_json_def assign_append lease_fields zero_lease_def)

lemma capacity_read:
  assumes "reply_clean parse tm (CapacityReply c)"
  shows "set_struct capacity_setters (capacity_json c) zero_capacity = Some c"
  using assms by (simp add: set_struct_def capacity_json_def capacity_fields zero_capacity_def)

lemma state_text_utf8 [simp]: "utf8_valid (state_text s)"
proof -
  have "utf8_valid ''queued''" "utf8_valid ''leased''" "utf8_valid ''recovering''" "utf8_valid ''worker_lost''" "utf8_valid ''completed''"
    by code_simp+
  then show ?thesis by (cases s) simp_all
qed

definition authority_sent :: "Authority \<Rightarrow> authority_reply" where
  "authority_sent a = \<lparr>ar_Lease = a_Lease a, ar_State = state_text (a_State a), ar_ServerTime = ServerTime a,
     ar_RecoveryUntil = a_RecoveryUntil a\<rparr>"

lemma authority_read:
  assumes "reply_clean parse tm (AuthorityReply a)"
  shows "set_struct (authority_setters parse) (authority_json tm a) zero_authority = Some (authority_sent a)"
  using assms lease_read [of parse tm "a_Lease a"]
  by (simp add: set_struct_def [of "authority_setters parse"] authority_json_def authority_fields zero_authority_def authority_sent_def)

definition outstanding_sent :: "OutstandingExecution \<Rightarrow> outstanding_reply" where
  "outstanding_sent x = \<lparr>or_Lease = o_Lease x, or_SandboxID = o_SandboxID x, or_State = state_text (o_State x),
     or_CleanupUnknown = o_CleanupUnknown x\<rparr>"

lemma outstanding_read:
  assumes "lease_clean parse tm (o_Lease x)" and "utf8_valid (o_SandboxID x)"
  shows "set_struct (outstanding_setters parse) (outstanding_json tm x) zero_outstanding = Some (outstanding_sent x)"
  using assms(2) lease_read [OF assms(1)]
  by (simp add: set_struct_def [of "outstanding_setters parse"] outstanding_json_def outstanding_fields zero_outstanding_def
      outstanding_sent_def)

lemma outstandings_read:
  assumes "reply_clean parse tm (OutstandingReply xs)"
  shows "decode_outstanding parse (JArr (map (outstanding_json tm) xs)) = Some (Some (map outstanding_sent xs))"
proof -
  let ?f = "\<lambda>v. set_struct (outstanding_setters parse) v zero_outstanding"
  have "decode_all ?f (map (outstanding_json tm) xs) = Some (map outstanding_sent xs)"
    using assms by (induction xs) (simp_all add: outstanding_read)
  then show ?thesis by (simp add: decode_outstanding_def slice_value_def)
qed

lemma state_of_text: "state_of (state_text s) = Some s"
  by (cases s) (simp_all add: state_of_def)

lemma entry_read: "outstanding_entry (outstanding_sent x) = (if entry_ok x then Some x else None)"
  by (cases "o_State x") (auto simp: outstanding_entry_def outstanding_sent_def entry_ok_def Let_def state_of_def)

lemma entries_read:
  "decode_all outstanding_entry (map outstanding_sent xs) = (if \<forall>x \<in> set xs. entry_ok x then Some xs else None)"
  by (induction xs) (simp_all add: entry_read)

lemma post_encoded:
  assumes "delivers rd v" and "tgt v = Some t"
  shows "post (rd_read rd) (Some tgt) (delivered (encoded v)) = Inr (200, Some t)"
proof -
  have "take (maximumResponseBytes + 1) (json_bytes v @ [CHR 0x0A]) = json_bytes v @ [CHR 0x0A]"
    "length (json_bytes v @ [CHR 0x0A]) \<le> maximumResponseBytes"
    using assms(1) unfolding delivers_def by auto
  then show ?thesis
    using assms by (simp add: post_def delivered_def encoded_def read_answer_def delivers_def Let_def del: take_append)
qed

lemma post_no_content: "post rd tgt (delivered no_content) = Inr (204, None)"
  by (simp add: post_def delivered_def no_content_def)

lemma error_status_failure: "error_status e \<noteq> 200" "error_status e \<noteq> 204"
  by (simp_all add: error_status_def)

lemma post_error: "post rd tgt (delivered (writeError e)) = Inl (HTTPError (error_status e))"
  by (simp add: post_def delivered_def writeError_def http_Error_def Let_def error_status_failure)

lemma error_reply: "client_reply rd call (delivered (writeError e)) = Inl (HTTPError (error_status e))"
  by (cases call) (simp_all add: claim_reply_def unit_reply_def capacity_reply_def outstanding_list_def authority_answer_def post_error)

lemma authority_answered:
  assumes "reply_clean (rd_parse rd) tm (AuthorityReply a)" and "delivers rd (authority_json tm a)"
  shows "authority_answer rd xid gen (delivered (encoded (authority_json tm a))) =
    (if authority_ok xid gen a then Inr a else Inl OtherError)"
proof -
  have p: "post (rd_read rd) (Some (\<lambda>v. set_struct (authority_setters (rd_parse rd)) v zero_authority))
      (delivered (encoded (authority_json tm a))) = Inr (200, Some (authority_sent a))"
    by (rule post_encoded [OF assms(2)]) (rule authority_read [OF assms(1)])
  show ?thesis
    by (cases "a_State a") (auto simp: authority_answer_def p authority_sent_def authority_ok_def Let_def)
qed

text \<open>The reply to a call has its kind.\<close>

fun answers :: "api_call \<Rightarrow> api_reply \<Rightarrow> bool" where
  "answers (ApiClaim _) (LeaseReply _) = True"
| "answers ApiCapacity (CapacityReply _) = True"
| "answers ApiOutstanding (OutstandingReply _) = True"
| "answers (ApiHeartbeat _ _ _) (AuthorityReply _) = True"
| "answers (ApiRecover _ _ _) (AuthorityReply _) = True"
| "answers (ApiValidate _ _) Acknowledged = True"
| "answers (ApiRelease _ _) Acknowledged = True"
| "answers (ApiConfigureCapacity _) Acknowledged = True"
| "answers (ApiBindSandbox _ _ _) Acknowledged = True"
| "answers (ApiComplete _ _ _) Acknowledged = True"
| "answers _ _ = False"

lemma reply_read:
  assumes "answers call v" and "reply_clean (rd_parse rd) tm v"
    and "case reply_json tm v of None \<Rightarrow> True | Some j \<Rightarrow> delivers rd j"
  shows "client_reply rd call (delivered (answer_of tm (Inr v))) = client_view call (Inr v)"
proof (cases v)
  case Acknowledged
  then show ?thesis using assms(1)
    by (cases call) (simp_all add: answer_of_def client_view_def unit_reply_def post_no_content)
next
  case (LeaseReply l)
  show ?thesis
  proof (cases l)
    case None
    then show ?thesis using assms(1) LeaseReply
      by (cases call) (simp_all add: answer_of_def client_view_def claim_reply_def post_no_content)
  next
    case (Some x)
    have "post (rd_read rd) (Some (\<lambda>v. set_struct (lease_setters (rd_parse rd)) v zero_lease)) (delivered (encoded (lease_json tm x))) =
        Inr (200, Some x)"
      using assms LeaseReply Some by (intro post_encoded lease_read) auto
    then show ?thesis using assms(1) LeaseReply Some
      by (cases call) (auto simp: answer_of_def client_view_def claim_reply_def)
  qed
next
  case (CapacityReply x)
  have "post (rd_read rd) (Some (\<lambda>v. set_struct capacity_setters v zero_capacity)) (delivered (encoded (capacity_json x))) =
      Inr (200, Some x)"
    using assms CapacityReply by (intro post_encoded capacity_read) auto
  then show ?thesis using assms(1) CapacityReply
    by (cases call) (auto simp: answer_of_def client_view_def capacity_reply_def Let_def)
next
  case (OutstandingReply xs)
  have "post (rd_read rd) (Some (decode_outstanding (rd_parse rd))) (delivered (encoded (JArr (map (outstanding_json tm) xs)))) =
      Inr (200, Some (Some (map outstanding_sent xs)))"
    using assms OutstandingReply by (intro post_encoded outstandings_read) auto
  then show ?thesis using assms(1) OutstandingReply
    by (cases call) (auto simp: answer_of_def client_view_def outstanding_list_def entries_read)
next
  case (AuthorityReply a)
  then show ?thesis using assms authority_answered [of rd tm a]
    by (cases call) (simp_all add: answer_of_def client_view_def)
qed

section \<open>Serving the calls\<close>

lemma answer_unit_tagged:
  "answer_unit r = (answer_of tm (fst (tagged (\<lambda>_. Acknowledged) r)), snd (tagged (\<lambda>_. Acknowledged) r))"
  by (auto simp: answer_unit_def tagged_def answer_of_def split: prod.splits sum.splits)

lemma answer_json_tagged:
  assumes "\<And>v. reply_json tm (f v) = Some (j v)"
  shows "answer_json j r = (answer_of tm (fst (tagged f r)), snd (tagged f r))"
  by (auto simp: answer_json_def tagged_def answer_of_def assms split: prod.splits sum.splits)

lemma claim_rounds_served:
  assumes "\<forall>p \<in> set ps. \<not> pl_cancelled p"
  shows "claim_loop w tok ps db =
    map_option (\<lambda>r. (answer_of (ap_time w) (fst (tagged LeaseReply r)), snd (tagged LeaseReply r))) (claim_rounds w tok ps db)"
  using assms
  by (induction w tok ps db rule: claim_rounds.induct)
    (auto simp: tagged_def answer_of_def split: prod.splits sum.splits option.splits)

lemma sent_decodes:
  assumes "sends w call" and "call_json call = JObj ms" and "reads_all fld ms s s'" and "distinct (map fst ms)"
  shows "decode_body (ap_scan w) (request_limit call) fld s (json_bytes (call_json call)) = Some s'"
  using assms by (intro decode_body_print) (simp_all add: sends_def del: print.simps json_bytes.simps)

lemma claim_wait_ms:
  assumes "claim_wait wait \<noteq> None"
  shows "0 \<le> wait div Millisecond" "wait div Millisecond \<le> 25000" "int64_ok (wait div Millisecond)"
  using assms by (auto simp: claim_wait_def int64_ok_def split: if_splits)

definition admitted :: "Client \<Rightarrow> slots \<Rightarrow> bool" where
  "admitted c sl \<longleftrightarrow> bearer c \<noteq> [] \<and> length (bearer c) \<le> 256 \<and> sl_requests sl < 64 \<and> sl_reports sl = 0"

lemma routed:
  assumes "admitted c sl"
  shows "ServeHTTP w sl rq (post_request c route v) db =
    (if route \<notin> set worker_routes then Some (http_Error ''404 page not found'' 404, db)
     else if route = ''/worker/v1/claim'' then serve_claim w rq (bearer c) (json_bytes v) db
     else Some (
        if route \<in> {''/worker/v1/outstanding'', ''/worker/v1/capacity'', ''/worker/v1/configure-capacity''}
        then serve_capacity w rq (bearer c) route (json_bytes v) db
        else if route \<in> {''/worker/v1/bind-sandbox'', ''/worker/v1/heartbeat'', ''/worker/v1/recover''}
        then serve_sandbox w rq (bearer c) route (json_bytes v) db
        else if route \<in> {''/worker/v1/validate'', ''/worker/v1/release''} then serve_lease w rq (bearer c) route (json_bytes v) db
        else serve_complete w sl rq (bearer c) (json_bytes v) db))"
proof -
  have "bearer c \<noteq> ''Bearer '' @ bearer c" by (metis append_self_conv2 list.distinct(1))
  then show ?thesis using assms by (simp add: ServeHTTP_def post_request_def Let_def admitted_def del: append_Cons)
qed

lemma routes: "call_route call \<in> set worker_routes"
  by (cases call) (simp_all add: worker_routes_def)

lemma served:
  assumes "admitted c sl" and "call_clean call" and "sends w call" and "call_request c call \<noteq> None"
    and "\<forall>p \<in> set (rq_polls rq). \<not> pl_cancelled p"
  shows "ServeHTTP w sl rq (post_request c (call_route call) (call_json call)) db =
    map_option (\<lambda>r. (answer_of (ap_time w) (fst r), snd r)) (call_queue w rq (bearer c) call db)"
proof -
  note d = sent_decodes [OF assms(3)]
  note unit = answer_unit_tagged [of _ "ap_time w"]
  show ?thesis
  proof (cases call)
    case (ApiClaim wait)
    then have w: "claim_wait wait \<noteq> None" using assms(4) by (auto simp: call_request_def split: if_splits)
    then show ?thesis
      using d [OF _ claim_request [of "wait div Millisecond"]] ApiClaim claim_wait_ms [OF w] assms(5)
      by (simp add: routed [OF assms(1)] worker_routes_def serve_claim_def request_limit_def claim_rounds_served option.map_comp comp_def
          del: json_bytes.simps)
  next
    case (ApiValidate xid gen)
    then show ?thesis using d [OF _ lease_request [of xid gen]] assms(2)
      by (simp add: routed [OF assms(1)] worker_routes_def serve_lease_def request_limit_def unit lease_reference_json_def
          del: json_bytes.simps)
  next
    case (ApiRelease xid gen)
    then show ?thesis using d [OF _ lease_request [of xid gen]] assms(2)
      by (simp add: routed [OF assms(1)] worker_routes_def serve_lease_def request_limit_def unit lease_reference_json_def
          del: json_bytes.simps)
  next
    case ApiCapacity
    then show ?thesis using d [OF _ capacity_request]
      by (simp add: routed [OF assms(1)] worker_routes_def serve_capacity_def request_limit_def answer_json_tagged [where f = CapacityReply]
          del: json_bytes.simps)
  next
    case (ApiConfigureCapacity n)
    then show ?thesis using d [OF _ configure_request [of n]] assms(2)
      by (simp add: routed [OF assms(1)] worker_routes_def serve_capacity_def request_limit_def unit del: json_bytes.simps)
  next
    case (ApiBindSandbox xid gen sb)
    then show ?thesis using d [OF _ sandbox_request [of xid gen sb]] assms(2)
      by (simp add: routed [OF assms(1)] worker_routes_def serve_sandbox_def request_limit_def unit sandbox_reference_json_def
          lease_reference_json_def Let_def del: json_bytes.simps)
  next
    case ApiOutstanding
    then show ?thesis using d [OF _ capacity_request]
      by (simp add: routed [OF assms(1)] worker_routes_def serve_capacity_def request_limit_def answer_json_tagged [where f = OutstandingReply]
          del: json_bytes.simps)
  next
    case (ApiHeartbeat xid gen sb)
    then show ?thesis using d [OF _ sandbox_request [of xid gen sb]] assms(2)
      by (simp add: routed [OF assms(1)] worker_routes_def serve_sandbox_def request_limit_def sandbox_reference_json_def
          lease_reference_json_def Let_def answer_json_tagged [where f = AuthorityReply] del: json_bytes.simps)
  next
    case (ApiRecover xid gen sb)
    then show ?thesis using d [OF _ sandbox_request [of xid gen sb]] assms(2)
      by (simp add: routed [OF assms(1)] worker_routes_def serve_sandbox_def request_limit_def sandbox_reference_json_def
          lease_reference_json_def Let_def answer_json_tagged [where f = AuthorityReply] del: json_bytes.simps)
  next
    case (ApiComplete xid gen r)
    have "decodeComplete (ap_scan w) (json_bytes (call_json call)) = Some \<lparr>lr_ExecutionID = xid, lr_Generation = gen, cr_Result = r\<rparr>"
      using d [OF _ complete_request [of xid gen r]] assms(2) ApiComplete
      by (simp add: decodeComplete_def request_limit_def lease_reference_json_def del: json_bytes.simps)
    then show ?thesis using ApiComplete assms(1)
      by (simp add: routed [OF assms(1)] worker_routes_def serve_complete_def complete_operation_def admitted_def unit tagged_def
          answer_of_def del: json_bytes.simps split: prod.splits sum.splits)
  qed
qed

lemma map_sum_Inr: "map_sum f g s = Inr v \<longleftrightarrow> (\<exists>x. s = Inr x \<and> v = g x)"
  by (cases s) auto

lemma queue_answers:
  assumes "call_queue w rq tok call db = Some (Inr v, db')"
  shows "answers call v"
  using assms by (cases call) (auto simp: tagged_def map_sum_Inr)

text \<open>A call is the operation of the queue behind it, seen through the checks of the client.\<close>

lemma remote_call_queue:
  assumes "admitted c sl" and "call_clean call" and "sends w call" and "call_request c call \<noteq> None"
    and "\<forall>p \<in> set (rq_polls rq). \<not> pl_cancelled p"
    and "\<forall>r db'. call_queue w rq (bearer c) call db = Some (r, db') \<longrightarrow> carried w rd r"
  shows "remote_call c rd w sl rq call db =
    map_option (\<lambda>(r, db'). (client_view call r, db')) (call_queue w rq (bearer c) call db)"
proof -
  have q: "call_request c call = Some (post_request c (call_route call) (call_json call))"
    using assms(4) by (auto simp: call_request_def split: if_splits)
  have "client_reply rd call (delivered (answer_of (ap_time w) r)) = client_view call r"
    if "call_queue w rq (bearer c) call db = Some (r, db')" for r db'
  proof (cases r)
    case (Inl e)
    then show ?thesis by (simp add: answer_of_def error_reply client_view_def)
  next
    case (Inr v)
    then show ?thesis using reply_read [of call v rd "ap_time w"] queue_answers [of w rq "bearer c" call db v db'] assms(6) that
      by (simp add: carried_def)
  qed
  then show ?thesis
    by (cases "call_queue w rq (bearer c) call db")
      (auto simp: remote_call_def q served [OF assms(1-5)] simp del: json_bytes.simps)
qed

end
