(* ===== verification/WorkerEnvelope.thy ===== *)
theory WorkerEnvelope
  imports WorkerRemote ControlServer
begin

text \<open>
  What a sound database answers passes every check of the client and fits its 64 KiB: a Worker Node sees
  exactly the outcome of the queue.
\<close>

section \<open>Lengths\<close>

definition member_size :: "bytes \<times> json \<Rightarrow> nat" where
  "member_size m = length (quoted (fst m)) + 2 + length (json_bytes (snd m))"

lemma length_commas: "length (commas xs) = sum_list (map length xs) + (length xs - 1)"
  by (induction xs rule: commas.induct) auto

lemma length_object:
  assumes "fs \<noteq> []"
  shows "length (json_bytes (JObj fs)) = Suc (sum_list (map member_size fs))"
proof -
  have "sum_list (map (length \<circ> (\<lambda>(name, v). quoted name @ CHR '':'' # json_bytes v)) gs) + length gs = sum_list (map member_size gs)" for gs
    by (induction gs) (auto simp: member_size_def)
  from this [of fs] show ?thesis using assms by (cases fs) (auto simp: length_commas)
qed

lemma length_array:
  assumes "\<forall>v \<in> set vs. length (json_bytes v) \<le> b"
  shows "length (json_bytes (JArr vs)) \<le> 2 + length vs * (b + 1)"
proof -
  have "sum_list (map (length \<circ> json_bytes) vs) \<le> length vs * b"
    using assms by (induction vs) auto
  then show ?thesis by (simp add: length_commas algebra_simps)
qed

lemma length_decimal: "n < 10 ^ d \<Longrightarrow> 0 < d \<Longrightarrow> length (decimal n) \<le> d"
proof (induction n arbitrary: d rule: decimal.induct)
  case (1 n)
  show ?case
  proof (cases "n < 10")
    case True
    then show ?thesis using 1(3) by (simp add: decimal.simps [of n])
  next
    case False
    then obtain j where j: "d = Suc j" "0 < j" using 1(2,3) by (cases d; cases "d - 1") auto
    then have "n div 10 < 10 ^ j" using 1(2) by auto
    then show ?thesis using 1(1) [OF False _ j(2)] j False by (simp add: decimal.simps [of n])
  qed
qed

lemma length_json_int:
  assumes "int64_ok n"
  shows "length (json_bytes (json_int n)) \<le> 21"
proof -
  have "nat (- n) < 10 ^ 20" "nat n < 10 ^ 20" using assms by (auto simp: int64_ok_def)
  then show ?thesis using length_decimal [of "nat (- n)" 20] length_decimal [of "nat n" 20] by (auto simp: json_int_def)
qed

text \<open>Identifiers are written as they are.\<close>

definition plain_char :: "char \<Rightarrow> bool" where
  "plain_char c \<longleftrightarrow> is_lower c \<or> is_upper c \<or> is_digit c \<or> c \<in> set ''._-''"

lemma not_plain:
  "\<not> plain_char quote_char" "\<not> plain_char backslash" "\<not> plain_char (CHR ''<'')" "\<not> plain_char (CHR ''>'')"
  "\<not> plain_char (CHR ''&'')" "\<not> plain_char (CHR 0xE2)" "\<not> plain_char (CHR 0x08)" "\<not> plain_char (CHR 0x0C)"
  "\<not> plain_char (CHR 0x0A)" "\<not> plain_char (CHR 0x0D)" "\<not> plain_char (CHR 0x09)"
  by code_simp+

lemma plain_range: "plain_char c \<Longrightarrow> 0x20 \<le> byte c \<and> byte c < 0x80"
  by (auto simp: plain_char_def char_class_defs less_eq_char_def byte_def)

lemma escape_plain_char:
  assumes "plain_char c"
  shows "escape_char c = [c]" and "c \<noteq> CHR 0xE2"
proof -
  have "c \<noteq> d" if "\<not> plain_char d" for d using assms that by auto
  note n = not_plain [THEN this]
  show "c \<noteq> CHR 0xE2" by (rule n)
  show "escape_char c = [c]" using plain_range [OF assms] n unfolding escape_char_def by simp
qed

lemma escape_plain: "\<forall>c \<in> set s. plain_char c \<Longrightarrow> escape s = s"
proof (induction s)
  case (Cons c s)
  have "plain_char c" using Cons.prems by simp
  note escape_plain_char [OF this]
  then show ?case using Cons
    by (subst escape.simps) (simp add: line_separator_def paragraph_separator_def)
qed (simp add: escape.simps)

lemma quoted_plain: "\<forall>c \<in> set s. plain_char c \<Longrightarrow> length (quoted s) = length s + 2"
  by (simp add: quoted_def escape_plain)

lemma reference_plain:
  assumes "reference s"
  shows "\<forall>c \<in> set s. plain_char c" "length s \<le> 64" "s \<noteq> []" "utf8_valid s"
  using assms reference_utf8 by (auto simp: reference_def plain_char_def split: list.splits)

lemma workerID_plain:
  assumes "workerID s"
  shows "\<forall>c \<in> set s. plain_char c" "length s \<le> 64" "s \<noteq> []" "utf8_valid s"
proof -
  show "\<forall>c \<in> set s. plain_char c" and "length s \<le> 64" "s \<noteq> []"
    using assms by (auto simp: workerID_def plain_char_def split: list.splits)
  then show "utf8_valid s" using plain_range by (intro utf8_valid_ascii) blast
qed

lemma quoted_short:
  assumes "\<forall>c \<in> set s. plain_char c" "length s \<le> 64" "utf8_valid s"
  shows "length (json_bytes (json_string s)) \<le> 66"
  using assms quoted_plain [of s] by (simp add: json_string_def json_text_valid)

lemma name_sizes:
  "length (quoted ''execution_id'') = 14" "length (quoted ''agent_run_id'') = 14" "length (quoted ''generation'') = 12"
  "length (quoted ''expires_at'') = 12" "length (quoted ''lease'') = 7" "length (quoted ''sandbox_id'') = 12"
  "length (quoted ''state'') = 7" "length (quoted ''cleanup_unknown'') = 17" "length (quoted ''server_time'') = 13"
  "length (quoted ''recovery_until'') = 16" "length (quoted ''worker_id'') = 11" "length (quoted ''configured'') = 12"
  "length (quoted ''occupied'') = 10" "length (quoted ''available'') = 11"
  by (simp_all add: quoted_plain plain_char_def char_class_defs less_eq_char_def)

lemma state_size: "length (json_bytes (json_string (state_text s))) \<le> 13"
  by (cases s) (simp_all add: json_string_def json_text_valid [OF state_text_utf8, of Queued, simplified]
    json_text_valid [OF state_text_utf8, of Leased, simplified] json_text_valid [OF state_text_utf8, of Recovering, simplified]
    json_text_valid [OF state_text_utf8, of WorkerLost, simplified] json_text_valid [OF state_text_utf8, of Completed, simplified]
    quoted_plain plain_char_def char_class_defs less_eq_char_def)

section \<open>Sound databases\<close>

definition execution_json :: "Execution \<Rightarrow> json" where
  "execution_json e = JObj ([(''execution_id'', json_string (x_ExecutionID e)), (''agent_run_id'', json_string (x_AgentRunID e)),
     (''source'', json_string (x_Source e)), (''stdin'', json_string (x_Stdin e))] @
     (if x_OutputPaths e = [] then [] else [(''output_paths'', JArr (map json_string (x_OutputPaths e)))]))"

definition text_execution :: "Execution \<Rightarrow> bool" where
  "text_execution e \<longleftrightarrow> utf8_valid (x_Source e) \<and> utf8_valid (x_Stdin e) \<and> (\<forall>p \<in> set (x_OutputPaths e). utf8_valid p)"

text \<open>
  The stored document of every row is the JSON text of a request in UTF-8, and decoding gives the request
  back.
\<close>

definition text_db :: "codec \<Rightarrow> queue_db \<Rightarrow> bool" where
  "text_db cd db \<longleftrightarrow> (\<forall>r \<in> set (executions db). \<exists>e. text_execution e \<and> validExecution cd e \<and>
     workload r = marshal_execution cd e \<and> marshal_execution cd e = json_bytes (execution_json e) \<and>
     unmarshal_execution cd (workload r) = Some e)"

definition sound :: "codec \<Rightarrow> queue_db \<Rightarrow> bool" where
  "sound cd db \<longleftrightarrow> db_ok cd db \<and> text_db cd db"

text \<open>A time is after Go's zero time, and its text is short and read back.\<close>

definition time_ok :: "reader \<Rightarrow> api_env \<Rightarrow> int \<Rightarrow> bool" where
  "time_ok rd w t \<longleftrightarrow> t \<noteq> 0 \<and> rd_parse rd (ap_time w t) = Some t \<and> length (quoted (ap_time w t)) \<le> 40"

text \<open>A renewed lease is not over when its renewal is answered.\<close>

fun dated :: "reader \<Rightarrow> api_env \<Rightarrow> api_reply \<Rightarrow> bool" where
  "dated rd w (LeaseReply (Some l)) \<longleftrightarrow> time_ok rd w (l_ExpiresAt l)"
| "dated rd w (OutstandingReply xs) \<longleftrightarrow> (\<forall>x \<in> set xs. time_ok rd w (l_ExpiresAt (o_Lease x)))"
| "dated rd w (AuthorityReply a) \<longleftrightarrow> time_ok rd w (l_ExpiresAt (a_Lease a)) \<and> time_ok rd w (ServerTime a) \<and>
     time_ok rd w (a_RecoveryUntil a) \<and> (a_State a = Leased \<longrightarrow> ServerTime a < l_ExpiresAt (a_Lease a))"
| "dated rd w _ \<longleftrightarrow> True"

text \<open>An answer passes the checks and fits.\<close>

definition fits :: "reader \<Rightarrow> api_env \<Rightarrow> api_call \<Rightarrow> api_reply \<Rightarrow> bool" where
  "fits rd w call v \<longleftrightarrow> acceptable call v \<and> reply_clean (rd_parse rd) (ap_time w) v \<and>
     (case reply_json (ap_time w) v of None \<Rightarrow> True | Some j \<Rightarrow> length (json_bytes j) < maximumResponseBytes)"

section \<open>Claims\<close>

lemma text_json: "utf8_valid s \<Longrightarrow> json_string s = JStr s"
  by (simp add: json_string_def json_text_valid)

text \<open>The lease has the members of the stored request, and two more.\<close>

lemma lease_size:
  assumes "length (json_bytes (execution_json e)) \<le> 60 * 1024" and "int64_ok (l_Generation l)" and "length (quoted (tm (l_ExpiresAt l))) \<le> 40"
    and "l_ExecutionID l = x_ExecutionID e" and "l_AgentRunID l = x_AgentRunID e" and "l_Source l = x_Source e"
    and "l_Stdin l = x_Stdin e" and "l_OutputPaths l = x_OutputPaths e"
  shows "length (json_bytes (lease_json tm l)) < maximumResponseBytes"
  using assms(1,3) length_json_int [OF assms(2)]
  by (simp add: execution_json_def lease_json_def length_object assms(4-) member_size_def name_sizes maximumResponseBytes_def
      split: if_splits del: json_bytes.simps(3,4))

lemma Claim_nothing:
  assumes "Claim s cd sha env tok db = (Inr None, db1)"
  shows "db1 = db"
  using assms Claim_Commit [of sha env tok s cd db]
  by (auto simp: Claim_def run_tx_def split: tx_end.splits commit_outcome.splits if_splits)

lemma claimed_execution:
  assumes "sound cd db" and "Claim s cd sha env tok db = (Inr (Some l), db1)"
  shows "\<exists>e. text_execution e \<and> validExecution cd e \<and> marshal_execution cd e = json_bytes (execution_json e) \<and> l_ExecutionID l = x_ExecutionID e \<and> l_AgentRunID l = x_AgentRunID e \<and>
    l_Generation l = 1 \<and> l_Source l = x_Source e \<and> l_Stdin l = x_Stdin e \<and> l_OutputPaths l = x_OutputPaths e"
proof -
  obtain db' where "with_worker sha env tok (claim_body s cd env) db = Commit (Some l) db'"
    using assms(2) by (auto simp: Claim_def run_tx_def claim_body_def with_worker_def split: tx_end.splits commit_outcome.splits
      sum.splits option.splits prod.splits if_splits)
  from Claim_Commit [OF this] obtain q e where q: "next_queued env db = Some q" "unmarshal_execution cd (workload q) = Some e"
    and l: "l = \<lparr>l_ExecutionID = x_ExecutionID e, l_AgentRunID = x_AgentRunID e, l_Generation = generation q + 1,
      l_ExpiresAt = clock env 1 (x_id q) + lease_interval s, l_Source = x_Source e, l_Stdin = x_Stdin e, l_OutputPaths = x_OutputPaths e\<rparr>"
    by auto
  have m: "q \<in> set (executions db)" "state q = Queued" using next_queued_Some [OF q(1)] by auto
  then have g: "generation q = 0"
    using assms(1) rows_inv row_inv_queued db_okD(1) unfolding sound_def by blast
  obtain e' where e': "text_execution e'" "validExecution cd e'" "marshal_execution cd e' = json_bytes (execution_json e')"
    "unmarshal_execution cd (workload q) = Some e'"
    using assms(1) m(1) unfolding sound_def text_db_def by blast
  then show ?thesis using q(2) l g by (intro exI [of _ e]) simp
qed

lemma claim_fits:
  assumes "sound cd db" and "Claim s cd sha env tok db = (Inr (Some l), db1)"
    and "dated rd w (LeaseReply (Some l))"
  shows "fits rd w (ApiClaim wait) (LeaseReply (Some l))"
proof -
  obtain e where e: "text_execution e" "validExecution cd e" "marshal_execution cd e = json_bytes (execution_json e)" and l: "l_ExecutionID l = x_ExecutionID e" "l_AgentRunID l = x_AgentRunID e"
    "l_Generation l = 1" "l_Source l = x_Source e" "l_Stdin l = x_Stdin e" "l_OutputPaths l = x_OutputPaths e"
    using claimed_execution [OF assms(1,2)] by blast
  have v: "reference (x_ExecutionID e)" "reference (x_AgentRunID e)" "x_Source e \<noteq> []" "length (marshal_execution cd e) \<le> 60 * 1024"
    using e(2) by (auto simp: validExecution_def split: if_splits)
  have t: "time_ok rd w (l_ExpiresAt l)" using assms(3) by simp
  have "length (json_bytes (lease_json (ap_time w) l)) < maximumResponseBytes"
    using lease_size [of e l "ap_time w"] v(4) e(3) l t by (simp add: int64_ok_def time_ok_def)
  then show ?thesis
    using e(1) v(3) l t reference_plain [OF v(1)] reference_plain [OF v(2)]
    by (simp add: fits_def lease_clean_def text_execution_def time_ok_def int64_ok_def)
qed

lemma claim_rounds_fit:
  assumes "claim_rounds w tok ps db = Some (Inr v, db')" and "sound (ap_codec w) db"
    and "\<forall>p \<in> set ps. \<forall>d. sound (ap_codec w) d \<longrightarrow> sound (ap_codec w) (pl_between p d)" and "dated rd w (LeaseReply v)"
  shows "fits rd w (ApiClaim wait) (LeaseReply v)"
  using assms
proof (induction w tok ps db rule: claim_rounds.induct)
  case (2 w tok p ps db)
  obtain r db1 where c: "Claim (ap_store w) (ap_codec w) (ap_sha256 w) (pl_env p) tok db = (r, db1)" by force
  show ?case
  proof (cases r)
    case (Inr l)
    show ?thesis
    proof (cases l)
      case None
      have same: "db1 = db" using c Inr None by (auto intro: Claim_nothing)
      show ?thesis
      proof (cases "pl_left p \<le> 0")
        case True
        then show ?thesis using 2(2) c Inr None by (simp add: fits_def)
      next
        case False
        have s: "sound (ap_codec w) (pl_between p db1)" using 2(3,4) same by simp
        show ?thesis
          by (rule 2(1) [OF c [symmetric] Inr None False _ s _ 2(5)]) (use 2(2,4) c Inr None False in auto)
      qed
    next
      case (Some x)
      then have "v = Some x" using 2(2) c Inr by simp
      then show ?thesis using claim_fits [OF 2(3) c [unfolded Inr Some]] 2(5) by simp
    qed
  qed (use 2(2) c in simp)
qed simp

lemma run_tx_result:
  "run_tx env f db = (Inr v, db1) \<Longrightarrow> f db = Answer v \<and> db1 = db \<or> f db = Commit v db1"
  by (auto simp: run_tx_def split: if_splits tx_end.splits commit_outcome.splits)

section \<open>Capacity, outstanding Executions and authority\<close>

lemma capacity_fits:
  assumes "db_ok cd db" and "Capacity_op sha env tok db = (Inr c, db1)"
  shows "fits rd w ApiCapacity (CapacityReply c)"
proof -
  obtain wk m oc where sel: "select_capacity env wk db = Some (m, oc)" and
    c: "c = \<lparr>c_WorkerID = ID wk, Configured = m, Occupied = oc, Available = max 0 (m - oc)\<rparr>"
    using assms(2) by (auto simp: Capacity_op_def with_worker_def dest!: run_tx_result split: sum.splits option.splits prod.splits)
  obtain n where f: "find (\<lambda>n. w_id n = ID wk) (worker_nodes db) = Some n" and m: "m = sandbox_capacity n" "oc = int (occupied db (ID wk))"
    using sel by (auto simp: select_capacity_def split: if_splits)
  note c = c [unfolded m] and n = conjunct1 [OF find_SomeD [OF f]] conjunct2 [OF find_SomeD [OF f]]
  have b: "workerID (w_id n)" "1 \<le> sandbox_capacity n" "sandbox_capacity n \<le> 64" "int (occupied db (w_id n)) \<le> sandbox_capacity n"
    using assms(1) n(1) by (auto simp: db_ok_def workers_ok_def capacity_ok_def)
  note p = workerID_plain [OF b(1)]
  have i: "int64_ok (Configured c)" "int64_ok (Occupied c)" "int64_ok (Available c)" using b n(2) by (auto simp: c int64_ok_def)
  have "length (json_bytes (capacity_json c)) \<le> 300"
    using quoted_short [OF p(1,2,4)] i [THEN length_json_int]
    by (simp add: capacity_json_def length_object member_size_def name_sizes c n(2) del: json_bytes.simps(3,4))
  then show ?thesis using i p(3,4) b n(2) by (auto simp: fits_def c maximumResponseBytes_def)
qed

text \<open>The reference of a lease: no request, only identifiers and a time.\<close>

definition bare :: "Lease \<Rightarrow> bool" where
  "bare l \<longleftrightarrow> reference (l_ExecutionID l) \<and> reference (l_AgentRunID l) \<and> 0 < l_Generation l \<and> l_Generation l \<le> 1 \<and>
     l_Source l = [] \<and> l_Stdin l = [] \<and> l_OutputPaths l = []"

lemma bare_lease:
  assumes "bare l" and "time_ok rd w (l_ExpiresAt l)"
  shows "lease_clean (rd_parse rd) (ap_time w) l" and "length (json_bytes (lease_json (ap_time w) l)) \<le> 260"
proof -
  have r: "reference (l_ExecutionID l)" "reference (l_AgentRunID l)" "int64_ok (l_Generation l)"
    using assms(1) by (auto simp: bare_def int64_ok_def)
  note p = reference_plain [OF r(1)] reference_plain [OF r(2)]
  show "lease_clean (rd_parse rd) (ap_time w) l"
    using assms p(4,8) r(3) by (simp add: lease_clean_def bare_def time_ok_def)
  show "length (json_bytes (lease_json (ap_time w) l)) \<le> 260"
    using assms quoted_short [OF p(1,2,4)] quoted_short [OF p(5,6,8)] length_json_int [OF r(3)]
    by (simp add: lease_json_def length_object member_size_def name_sizes bare_def time_ok_def del: json_bytes.simps(3,4))
qed

lemma sandbox_text:
  assumes "s = [] \<or> reference s"
  shows "utf8_valid s" and "length (json_bytes (json_string s)) \<le> 66"
proof -
  show "utf8_valid s" using assms reference_utf8 by auto
  have "\<forall>c \<in> set s. plain_char c" "length s \<le> 64" using assms reference_plain by auto
  then show "length (json_bytes (json_string s)) \<le> 66" using quoted_short \<open>utf8_valid s\<close> by blast
qed

lemma outstanding_entry_fits:
  assumes "bare (o_Lease x)" and "time_ok rd w (l_ExpiresAt (o_Lease x))" and "o_SandboxID x = [] \<or> reference (o_SandboxID x)"
    and "o_State x \<noteq> Queued"
  shows "entry_ok x" and "length (json_bytes (outstanding_json (ap_time w) x)) \<le> 400"
proof -
  show "entry_ok x"
    using assms reference_plain(3) by (auto simp: entry_ok_def bare_def time_ok_def Let_def)
  have "length (json_bytes (json_bool (o_CleanupUnknown x))) \<le> 5" by (simp add: json_bool_def)
  then show "length (json_bytes (outstanding_json (ap_time w) x)) \<le> 400"
    using bare_lease(2) [OF assms(1,2)] sandbox_text(2) [OF assms(3)] state_size [of "o_State x"]
    by (simp add: outstanding_json_def length_object member_size_def name_sizes del: json_bytes.simps)
qed

lemma row_bare:
  assumes "rows_ok cd db" and "r \<in> set (executions db)" and "worker_id r = Some own" and "own \<noteq> []"
  shows "bare (lease_ref r t)" and "sandbox_id r = [] \<or> reference (sandbox_id r)" and "state r \<noteq> Queued"
proof -
  have i: "row_inv r" "stored_ok cd r" using assms(1,2) by (auto simp: rows_ok_def)
  show q: "state r \<noteq> Queued" using owner_not_queued [OF i(1)] assms(3,4) by (simp add: coalesce_def)
  have "0 < generation r" "generation r \<le> 1"
    using i(1) q by (cases "state r"; simp add: row_inv_def row_ok_def owned_state_ok_def)+
  then show "bare (lease_ref r t)" using i(2) by (auto simp: bare_def lease_ref_def stored_ok_def validExecution_def split: if_splits)
  show "sandbox_id r = [] \<or> reference (sandbox_id r)" using i(1) by (simp add: row_inv_def row_ok_def)
qed

lemma outstanding_fits:
  assumes "db_ok cd db" and "Outstanding sha env tok db = (Inr xs, db1)" and "dated rd w (OutstandingReply xs)"
  shows "fits rd w ApiOutstanding (OutstandingReply xs)"
proof -
  obtain wk rows where wk: "AuthenticateTx sha env (worker_nodes db) tok = Inr wk" and xs: "xs = map (outstanding_of env) rows"
    and rows: "rows = take 64 (sort_key queued_order
      (filter (\<lambda>r. worker_id r = Some (ID wk) \<and> \<not> capacity_released r) (executions db)))"
    using assms(2) by (auto simp: Outstanding_def with_worker_def Let_def dest!: run_tx_result split: sum.splits if_splits)
  have mem: "r \<in> set (executions db) \<and> worker_id r = Some (ID wk)" if "r \<in> set rows" for r
    using that unfolding rows by (auto dest: in_set_takeD)
  have e: "entry_ok x" "length (json_bytes (outstanding_json (ap_time w) x)) \<le> 400" "bare (o_Lease x)" "utf8_valid (o_SandboxID x)"
    if x: "x \<in> set xs" for x
  proof -
    obtain r where r: "r \<in> set rows" "x = outstanding_of env r" using x xs by auto
    note m = mem [OF r(1)] and own = authenticated_node(1) [OF assms(1) wk]
    note b = row_bare [OF db_okD(1) [OF assms(1)] conjunct1 [OF m] conjunct2 [OF m] own]
    have l: "o_Lease x = lease_ref r (coalesce (lease_expires_at r) 0)" by (simp add: r(2) outstanding_of_def lease_ref_def)
    show bare: "bare (o_Lease x)" unfolding l by (rule b(1))
    have sb: "o_SandboxID x = [] \<or> reference (o_SandboxID x)" using b(2) by (simp add: r(2) outstanding_of_def)
    then show "utf8_valid (o_SandboxID x)" by (rule sandbox_text(1))
    have st: "o_State x \<noteq> Queued" using b(3) by (simp add: r(2) outstanding_of_def observed_state_def)
    have t: "time_ok rd w (l_ExpiresAt (o_Lease x))" using assms(3) x by simp
    show "entry_ok x" "length (json_bytes (outstanding_json (ap_time w) x)) \<le> 400"
      using outstanding_entry_fits [OF bare t sb st] by blast+
  qed
  have len: "length xs \<le> 64" by (simp add: xs rows)
  then have "length xs * 401 \<le> 64 * 401" by (rule mult_le_mono1)
  moreover have "length (json_bytes (JArr (map (outstanding_json (ap_time w)) xs))) \<le> 2 + length xs * 401"
    using length_array [of "map (outstanding_json (ap_time w)) xs" 400] e(2) by (simp del: json_bytes.simps)
  ultimately have "length (json_bytes (JArr (map (outstanding_json (ap_time w)) xs))) < maximumResponseBytes"
    by (simp add: maximumResponseBytes_def del: json_bytes.simps)
  then show ?thesis
    using len e(1,3,4) assms(3) bare_lease(1) by (simp add: fits_def del: json_bytes.simps)
qed

text \<open>What a renewal answers.\<close>

lemma renewed:
  assumes "db_ok cd db" and "renew s sha env tok xid gen sb rc db = (Inr a, db1)"
  shows "bare (a_Lease a) \<and> l_ExecutionID (a_Lease a) = xid \<and> l_Generation (a_Lease a) = gen \<and>
    a_RecoveryUntil a > l_ExpiresAt (a_Lease a) \<and> (a_State a = Leased \<or> a_State a = Completed)"
proof -
  obtain wk where wk: "AuthenticateTx sha env (worker_nodes db) tok = Inr wk" and
    body: "renew_body s env xid gen sb rc wk db = Answer a \<or> renew_body s env xid gen sb rc wk db = Commit a db1"
    using assms(2) by (auto simp: renew_def with_worker_def dest!: run_tx_result split: sum.splits if_splits)
  note own = authenticated_node(1) [OF assms(1) wk] and rows = db_okD(1) [OF assms(1)]
  have bare: "bare (lease_ref r t)" if "r \<in> set (executions db)" "worker_id r = Some (ID wk)" for r t
    by (rule row_bare(1) [OF rows that own])
  let ?P = "renew_where env wk xid gen sb rc"
  show ?thesis
  proof (cases "find (completed_where env wk xid gen sb) (executions db)")
    case (Some r)
    then have r: "r \<in> set (executions db)" "completed_where env wk xid gen sb r" by (auto dest: find_SomeD)
    then obtain l u where "lease_expires_at r = Some l" "recovery_until r = Some u" "l < u" "a = \<lparr>a_Lease = lease_ref r l,
        a_State = Completed, ServerTime = clock env 2 (x_id r), a_RecoveryUntil = u\<rparr>"
      using body Some rows_inv [OF rows r(1)]
      by (auto simp: renew_body_def row_inv_def row_ok_def deadline_ok_def split: if_splits option.splits)
    then show ?thesis using r bare [of r l] by (simp add: completed_where_def lease_ref_def)
  next
    case None
    then obtain r db' where "find ?P (executions db) = Some r" and u: "update_executions ?P (renew_set s env) db = Some db'" and
      a: "a = \<lparr>a_Lease = lease_ref r (clock env 3 (x_id r) + lease_interval s), a_State = Leased, ServerTime = clock env 8 (x_id r),
        a_RecoveryUntil = clock env 4 (x_id r) + recovery_interval s\<rparr>"
      using body by (auto simp: renew_body_def Let_def split: if_splits option.splits)
    then have r: "r \<in> set (executions db)" "?P r" by (auto dest: find_SomeD)
    then have "row_ok (renew_set s env r)" using u by (auto simp: update_executions_def split: if_splits)
    then have "clock env 3 (x_id r) + lease_interval s < clock env 4 (x_id r) + recovery_interval s"
      by (simp add: row_ok_def deadline_ok_def renew_set_def)
    then show ?thesis using r bare [of r] by (simp add: a renew_where_def lease_ref_def)
  qed
qed

lemma authority_fits:
  assumes "db_ok cd db" and "renew s sha env tok xid gen sb rc db = (Inr a, db1)" and "dated rd w (AuthorityReply a)"
  shows "fits rd w (ApiHeartbeat xid gen sb) (AuthorityReply a)" and "fits rd w (ApiRecover xid gen sb) (AuthorityReply a)"
proof -
  note r = renewed [OF assms(1,2)]
  have t: "time_ok rd w (l_ExpiresAt (a_Lease a))" "time_ok rd w (ServerTime a)" "time_ok rd w (a_RecoveryUntil a)"
    using assms(3) by simp_all
  have "authority_ok xid gen a"
    using r assms(3) reference_plain(3) by (auto simp: authority_ok_def bare_def time_ok_def Let_def)
  moreover have "reply_clean (rd_parse rd) (ap_time w) (AuthorityReply a)"
    using bare_lease(1) [OF _ t(1)] r t(2,3) by (simp add: time_ok_def)
  moreover have "length (json_bytes (authority_json (ap_time w) a)) \<le> 500"
    using bare_lease(2) [OF _ t(1)] r t(2,3) state_size [of "a_State a"]
    by (simp add: authority_json_def length_object member_size_def name_sizes time_ok_def del: json_bytes.simps(3,4))
  ultimately show "fits rd w (ApiHeartbeat xid gen sb) (AuthorityReply a)" "fits rd w (ApiRecover xid gen sb) (AuthorityReply a)"
    by (simp_all add: fits_def maximumResponseBytes_def del: json_bytes.simps)
qed

section \<open>Every answer\<close>

lemma map_sum_fst: "map_sum (\<lambda>e. e) f (fst r) = Inr v \<Longrightarrow> \<exists>x d. r = (Inr x, d) \<and> v = f x"
  by (cases r; cases "fst r") auto

definition quiet :: "api_env \<Rightarrow> request_env \<Rightarrow> bool" where
  "quiet w rq \<longleftrightarrow> (\<forall>p \<in> set (rq_polls rq). \<not> pl_cancelled p \<and>
     (\<forall>d. sound (ap_codec w) d \<longrightarrow> sound (ap_codec w) (pl_between p d)))"

lemma queue_fits:
  assumes "call_queue w rq tok call db = Some (Inr v, db')" and "sound (ap_codec w) db"
    and "quiet w rq" and "dated rd w v"
  shows "fits rd w call v"
proof -
  have db: "db_ok (ap_codec w) db" using assms(2) by (simp add: sound_def)
  have ack: "fits rd w call Acknowledged" for call by (cases call) (simp_all add: fits_def)
  show ?thesis
  proof (cases call)
    case (ApiClaim wait)
    then obtain l where "claim_rounds w tok (rq_polls rq) db = Some (Inr l, db')" "v = LeaseReply l"
      using assms(1) by (auto simp: tagged_def map_sum_Inr)
    then show ?thesis using claim_rounds_fit [of w tok "rq_polls rq" db l db' rd wait] assms(2-4) ApiClaim by (simp add: quiet_def)
  next
    case ApiCapacity
    then obtain c d where "Capacity_op (ap_sha256 w) (rq_op rq) tok db = (Inr c, d)" "v = CapacityReply c"
      using assms(1) by (auto simp: tagged_def dest!: map_sum_fst)
    then show ?thesis using capacity_fits [OF db] ApiCapacity by simp
  next
    case ApiOutstanding
    then obtain xs d where "Outstanding (ap_sha256 w) (rq_op rq) tok db = (Inr xs, d)" "v = OutstandingReply xs"
      using assms(1) by (auto simp: tagged_def dest!: map_sum_fst)
    then show ?thesis using outstanding_fits [OF db] ApiOutstanding assms(4) by simp
  next
    case (ApiHeartbeat xid gen sb)
    then obtain a d where "renew (ap_store w) (ap_sha256 w) (rq_op rq) tok xid gen sb False db = (Inr a, d)" "v = AuthorityReply a"
      using assms(1) by (auto simp: tagged_def Heartbeat_def dest!: map_sum_fst)
    then show ?thesis using authority_fits(1) [OF db] ApiHeartbeat assms(4) by simp
  next
    case (ApiRecover xid gen sb)
    then obtain a d where "renew (ap_store w) (ap_sha256 w) (rq_op rq) tok xid gen sb True db = (Inr a, d)" "v = AuthorityReply a"
      using assms(1) by (auto simp: tagged_def Recover_def dest!: map_sum_fst)
    then show ?thesis using authority_fits(2) [OF db] ApiRecover assms(4) by simp
  qed (use assms(1) ack in \<open>auto simp: tagged_def dest!: map_sum_fst\<close>)
qed

text \<open>What the client reads is what the server wrote.\<close>

definition read_back :: "api_env \<Rightarrow> reader \<Rightarrow> store_error + api_reply \<Rightarrow> bool" where
  "read_back w rd r \<longleftrightarrow>
     (case r of
        Inl e \<Rightarrow> True
      | Inr v \<Rightarrow> dated rd w v \<and>
          (case reply_json (ap_time w) v of None \<Rightarrow> True | Some j \<Rightarrow> rd_read rd (json_bytes j @ [CHR 0x0A]) = ReadValue j True))"



section \<open>One claim of the sample Worker\<close>

text \<open>The codec knows one document, the scanner one request and the reader one answer.\<close>

definition wire_codec :: codec where
  "wire_codec = sample_codec\<lparr>marshal_execution := (\<lambda>e. json_bytes (execution_json e)),
     unmarshal_execution := (\<lambda>b. if b = json_bytes (execution_json QueueProperties.sample_execution) then Some QueueProperties.sample_execution else None)\<rparr>"

definition sample_client :: Client where
  "sample_client = \<lparr>baseURL = ''https://cp'', bearer = sample_token,
     client = \<lparr>hc_Timeout = 35 * Second, hc_Transport = None, hc_follows = False\<rparr>\<rparr>"

definition sample_call :: api_call where "sample_call = ApiClaim (25 * Second)"

definition sample_time :: "int \<Rightarrow> bytes" where "sample_time n = decimal (nat n)"

definition sample_reader :: reader where
  "sample_reader = \<lparr>rd_read = (\<lambda>b. if b = json_bytes (lease_json sample_time sample_lease) @ [CHR 0x0A]
     then ReadValue (lease_json sample_time sample_lease) True else ReadInvalid), rd_parse = int_literal\<rparr>"

definition sample_api :: api_env where
  "sample_api = \<lparr>ap_store = sample_store, ap_codec = wire_codec, ap_sha256 = id,
     ap_scan = (\<lambda>b. if b = json_bytes (call_json sample_call) then print (call_json sample_call) else []), ap_time = sample_time\<rparr>"

definition sample_rounds :: request_env where
  "sample_rounds = \<lparr>rq_op = calm 2, rq_auth = calm 2, rq_between = id,
     rq_polls = [\<lparr>pl_env = calm 2, pl_left = 25 * Second, pl_cancelled = False, pl_between = id\<rparr>]\<rparr>"

lemma wire_codec_reads: "unmarshal_execution wire_codec (marshal_execution wire_codec QueueProperties.sample_execution) = Some QueueProperties.sample_execution"
  by (simp add: wire_codec_def)

lemma sample_text: "text_execution QueueProperties.sample_execution"
proof -
  have "utf8_valid ''print()''" "utf8_valid ''out/a.csv''" by code_simp+
  then show ?thesis by (simp add: text_execution_def QueueProperties.sample_execution_def)
qed

lemma wire_valid: "validExecution wire_codec QueueProperties.sample_execution"
proof -
  have "length (json_bytes (execution_json QueueProperties.sample_execution)) \<le> 200" by code_simp
  then show ?thesis using sample_valid by (simp add: validExecution_def wire_codec_def split: if_splits)
qed

lemma queued_sound: "sound wire_codec (queued_db wire_codec)"
proof -
  have "row_inv (new_row wire_codec QueueProperties.sample_execution 0)" by (rule new_row_inv)
  then have "db_ok wire_codec (queued_db wire_codec)"
    using wire_valid sample_node_id
    by (auto simp: db_ok_def queued_db_def workers_ok_def sample_worker_def rows_ok_def capacity_ok_def occupied_def stored_ok_def)
      (auto simp: new_row_def)
  then show ?thesis
    using wire_valid sample_text wire_codec_reads
    by (auto simp: sound_def text_db_def queued_db_def new_row_def wire_codec_def)
qed

lemma sample_lease_time: "time_ok sample_reader sample_api 120000002"
proof -
  have p: "\<forall>c \<in> set (decimal n). plain_char c" for n
    by (induction n rule: decimal.induct) (subst decimal.simps, auto simp: plain_char_def digit_char)
  have "length (decimal 120000002) \<le> 9" by (rule length_decimal) simp_all
  then show ?thesis
    using int_literal_decimal [of 120000002] quoted_plain [OF p, of 120000002]
    by (simp add: time_ok_def sample_reader_def sample_api_def sample_time_def)
qed

lemma sample_sends: "sends sample_api sample_call"
proof -
  have "length (quoted ''wait_ms'') = 9" by code_simp
  then have "length (json_bytes (call_json sample_call)) \<le> 40"
    using length_json_int [of 25000]
    by (simp add: sample_call_def length_object member_size_def int64_ok_def del: json_bytes.simps)
  then show ?thesis by (simp add: sends_def sample_api_def request_limit_def sample_call_def del: json_bytes.simps print.simps)
qed

lemma sample_admitted: "admitted sample_client \<lparr>sl_requests = 3, sl_reports = 0\<rparr>"
proof -
  have "length sample_token = 43"
    using issued_token_valid [of sample_secret] by (simp add: sample_token_def sample_secret_def validToken_def split: if_splits)
  then show ?thesis by (auto simp: admitted_def sample_client_def)
qed

lemma sample_outcome:
  "call_queue sample_api sample_rounds sample_token sample_call (queued_db wire_codec) =
     Some (Inr (LeaseReply (Some sample_lease)), (queued_db wire_codec)\<lparr>executions := [leased_row wire_codec]\<rparr>)"
  using first_claim [OF wire_codec_reads] by (simp add: sample_call_def sample_rounds_def sample_api_def tagged_def)

lemma sample_quiet: "quiet sample_api sample_rounds"
  by (simp add: quiet_def sample_rounds_def)

lemma sample_dated: "dated sample_reader sample_api (LeaseReply (Some sample_lease))"
  using sample_lease_time by (simp add: sample_lease_def)



end
