(* ===== verification/WorkerReport.thy ===== *)
theory WorkerReport
  imports WorkerWire QueueProperties
begin

text \<open>
  The bounds of report_decode.go: what an accepted report holds, what decoding ever holds, and that the
  loops over members and outputs never run out of fuel.
\<close>

section \<open>Every step consumes lexemes\<close>

lemma Token_shorter: "Codec.Token dec = Inr (t, dec1) \<Longrightarrow> length (input dec1) < length (input dec)"
proof (induction dec rule: Token.induct)
  case (1 dec)
  note ih = 1(1-3) and t = 1(4) [unfolded Token.simps [of dec]]
  show ?case
  proof (cases "input dec")
    case (Cons c ls)
    then show ?thesis using t ih [OF refl refl Cons] by (cases c) (auto simp: Let_def closing_def split: if_splits)
  qed (use t in simp)
qed

lemma Token_fuel: "Codec.Token dec \<noteq> Inl ErrFuel"
proof (induction dec rule: Token.induct)
  case (1 dec)
  then show ?case by (subst Token.simps) (auto simp: Let_def split: list.splits lexeme.splits)
qed

lemma parse_shorter:
  "parse_value n ls = Some (v, r) \<Longrightarrow> length r < length ls"
  "members n ls = Some (fs, r) \<Longrightarrow> length r < length ls"
  "elements n ls = Some (vs, r) \<Longrightarrow> length r < length ls"
proof (induction n ls and n ls and n ls arbitrary: v r and fs r and vs r rule: parse_value_members_elements.induct)
  case (2 n ls)
  then show ?case by (fastforce split: list.splits lexeme.splits simp: less_SucI)
next
  case (4 n ls)
  then show ?case by (fastforce split: list.splits lexeme.splits option.splits)
next
  case (6 n ls)
  then show ?case by (fastforce split: list.splits lexeme.splits option.splits)
qed simp_all

lemma prepare_step:
  "tokenPrepareForDecode dec = Inr dec1 \<Longrightarrow> length (input dec1) \<le> length (input dec)"
  "tokenPrepareForDecode dec \<noteq> Inl ErrFuel"
  by (auto simp: tokenPrepareForDecode_def split: tokenState.splits list.splits if_splits)

lemma read_step:
  "readValue ls = Inr (v, r) \<Longrightarrow> length r < length ls"
  "readValue ls \<noteq> Inl ErrFuel"
  by (auto simp: readValue_def split: if_splits option.splits simp del: parse_value.simps dest: parse_shorter(1))

lemma Decode_cases:
  assumes "Decode setter s dec = (e, s', dec1)"
  obtains err where "e = Some err" "err \<noteq> ErrFuel" "s' = s"
  | v where "e = None" "setter v s = Some s'" "length (input dec1) < length (input dec)"
proof (cases "tokenPrepareForDecode dec")
  case (Inl err)
  then show ?thesis using assms prepare_step(2) [of dec] that(1) by (auto simp: Decode_def)
next
  case (Inr d)
  note p = prepare_step(1) [OF Inr]
  show ?thesis
  proof (cases "tokenValueAllowed (tokenState d)")
    case False
    then show ?thesis using assms Inr that(1) by (auto simp: Decode_def)
  next
    case ok: True
    show ?thesis
    proof (cases "readValue (input d)")
      case (Inl err)
      then show ?thesis using assms Inr ok read_step(2) [of "input d"] that(1) by (auto simp: Decode_def)
    next
      case r: (Inr x)
      obtain v rest where x: "x = (v, rest)" by force
      show ?thesis
        using assms Inr ok r x p read_step(1) [OF r [unfolded x]] that
        by (cases "setter v s") (auto simp: Decode_def Let_def)
    qed
  qed
qed

section \<open>Loops\<close>

text \<open>
  A member decoder is \<open>steady\<close> for \<open>After\<close> (what holds of the target after the names seen so far) and \<open>Ever\<close> (what
  holds at every moment): it keeps both, consumes lexemes and never runs out of fuel.
\<close>

definition steady ::
  "(bytes set \<Rightarrow> 's \<Rightarrow> bool) \<Rightarrow> ('s \<Rightarrow> bool) \<Rightarrow> (bytes \<Rightarrow> 's \<Rightarrow> Decoder \<Rightarrow> json_error option \<times> 's \<times> Decoder) \<Rightarrow> bool" where
  "steady After Ever fld \<longleftrightarrow>
     (\<forall>key seen s dec e s' dec1. After seen s \<longrightarrow> key \<notin> seen \<longrightarrow> fld key s dec = (e, s', dec1) \<longrightarrow>
        e \<noteq> Some ErrFuel \<and> Ever s' \<and> (e = None \<longrightarrow> After (insert key seen) s' \<and> length (input dec1) < length (input dec)))"

lemma object_loop_steady:
  assumes "steady After Ever fld" and "object_loop n seen fld s dec = (e, s', dec1)" and "After (set seen) s" and "Ever s"
    and "length (input dec) < n"
  shows "e \<noteq> Some ErrFuel \<and> Ever s' \<and> (e = None \<longrightarrow> (\<exists>names. After names s') \<and> length (input dec1) < length (input dec))"
  using assms(2-)
proof (induction n arbitrary: seen s dec)
  case (Suc n)
  show ?case
  proof (cases "More dec")
    case False
    then show ?thesis using Suc.prems(1-3) by (auto split: sum.splits prod.splits if_splits dest: Token_shorter)
  next
    case more: True
    show ?thesis
    proof (cases "Codec.Token dec")
      case (Inl err)
      then show ?thesis using Suc.prems(1,3) more Token_fuel [of dec] by auto
    next
      case (Inr x)
      obtain t d where x: "x = (t, d)" by force
      note shorter = Token_shorter [OF Inr [unfolded x]]
      show ?thesis
      proof (cases "\<exists>key. t = TokString key \<and> key \<notin> set seen")
        case False
        then show ?thesis using Suc.prems(1,3) more Inr x by (auto split: token.splits if_splits)
      next
        case True
        then obtain key where key: "t = TokString key" "key \<notin> set seen" by blast
        obtain e1 s1 d1 where f: "fld key s d = (e1, s1, d1)" by (cases "fld key s d")
        have st: "e1 \<noteq> Some ErrFuel \<and> Ever s1 \<and> (e1 = None \<longrightarrow> After (insert key (set seen)) s1 \<and> length (input d1) < length (input d))"
          using assms(1) Suc.prems(2) key(2) f unfolding steady_def by blast
        show ?thesis
        proof (cases e1)
          case None
          then have l: "object_loop n (key # seen) fld s1 d1 = (e, s', dec1)"
            using Suc.prems(1) more Inr x key f by simp
          show ?thesis using Suc.IH [OF l] st None shorter Suc.prems(4) by auto
        next
          case (Some err)
          then show ?thesis using Suc.prems(1) more Inr x key f st by auto
        qed
      qed
    qed
  qed
qed simp

lemma object_steady:
  assumes "steady After Ever fld" and "object fld s dec = (e, s', dec1)" and "After {} s" and "Ever s"
  shows "e \<noteq> Some ErrFuel \<and> Ever s' \<and> (e = None \<longrightarrow> (\<exists>names. After names s') \<and> length (input dec1) < length (input dec))"
proof (cases "Codec.Token dec")
  case (Inl err)
  then show ?thesis using assms(2,4) by (auto simp: object_def)
next
  case (Inr x)
  obtain t d where x: "x = (t, d)" by force
  note shorter = Token_shorter [OF Inr [unfolded x]]
  show ?thesis
  proof (cases "t = Delim CHR ''{''")
    case True
    then have "object_loop (Suc (length (input d))) [] fld s d = (e, s', dec1)"
      using assms(2) Inr x by (simp add: object_def del: object_loop.simps)
    from object_loop_steady [OF assms(1) this] show ?thesis using assms(3,4) shorter by auto
  next
    case False
    then show ?thesis using assms(2,4) Inr x by (auto simp: object_def)
  qed
qed

section \<open>Bounds\<close>

definition output_bounded :: "ExtractedOutput \<Rightarrow> bool" where
  "output_bounded x \<longleftrightarrow> length (Path x) \<le> 1024 \<and> length (SHA256 x) \<le> 64"

definition contents_size :: "ExtractedOutput list \<Rightarrow> int" where
  "contents_size xs = int (sum_list (map (\<lambda>x. length (Content x)) xs))"

definition outputs_bounded :: "ExtractedOutput list \<Rightarrow> bool" where
  "outputs_bounded xs \<longleftrightarrow> length xs \<le> 16 \<and> contents_size xs \<le> 32 * MiB \<and> (\<forall>x \<in> set xs. output_bounded x)"

definition report_bounded :: "ExecutePythonResult \<Rightarrow> bool" where
  "report_bounded r \<longleftrightarrow> outputs_bounded (Outputs r) \<and> int (length (Stdout r)) \<le> 24 * MiB \<and> int (length (Stderr r)) \<le> 24 * MiB"

lemma steadyI:
  assumes "\<And>key seen s dec e s' dec1. After seen s \<Longrightarrow> key \<notin> seen \<Longrightarrow> fld key s dec = (e, s', dec1) \<Longrightarrow>
    e \<noteq> Some ErrFuel \<and> Ever s' \<and> (e = None \<longrightarrow> After (insert key seen) s' \<and> length (input dec1) < length (input dec))"
  shows "steady After Ever fld"
  using assms unfolding steady_def by blast

lemma bounded_text:
  assumes "boundedText upd get limit s dec = (e, s', dec1)"
  shows "e \<noteq> Some ErrFuel" and "e = None \<Longrightarrow> int (length (get s')) \<le> limit \<and> length (input dec1) < length (input dec)"
    and "s' = s \<or> (\<exists>v. set_string upd v s = Some s')"
proof -
  obtain e1 s1 d1 where d: "Decode (set_string upd) s dec = (e1, s1, d1)" by (cases "Decode (set_string upd) s dec")
  have "e \<noteq> Some ErrFuel \<and> (e = None \<longrightarrow> int (length (get s')) \<le> limit \<and> length (input dec1) < length (input dec)) \<and>
      (s' = s \<or> (\<exists>v. set_string upd v s = Some s'))"
    using d by (rule Decode_cases) (use assms d in \<open>auto simp: boundedText_def split: if_splits\<close>)
  then show "e \<noteq> Some ErrFuel" and "e = None \<Longrightarrow> int (length (get s')) \<le> limit \<and> length (input dec1) < length (input dec)"
    and "s' = s \<or> (\<exists>v. set_string upd v s = Some s')" by blast+
qed

lemma set_string_cases: "set_string upd v s = Some s' \<Longrightarrow> s' = s \<or> (\<exists>t. s' = upd t s)"
  by (auto simp: set_string_def split: json.splits if_splits)

lemma set_bytes_cases: "set_bytes upd v s = Some s' \<Longrightarrow> \<exists>t. s' = upd t s"
  by (auto simp: set_bytes_def split: json.splits if_splits)

lemma set_int_cases: "set_int upd v s = Some s' \<Longrightarrow> s' = s \<or> (\<exists>n. s' = upd n s)"
  by (auto simp: set_int_def split: json.splits if_splits)

lemma set_bool_cases: "set_bool upd v s = Some s' \<Longrightarrow> s' = s \<or> (\<exists>b. s' = upd b s)"
  by (auto simp: set_bool_def split: if_splits)

lemma set_usage_cases: "set_usage v s = Some s' \<Longrightarrow> \<exists>u. s' = s\<lparr>ResourceUsage := u\<rparr>"
  by (auto simp: set_usage_def)

lemmas setter_cases = set_string_cases set_bytes_cases set_int_cases set_bool_cases set_usage_cases

text \<open>What one member of an output, of a report and of a request does to its target.\<close>

lemma Decode_keeps:
  assumes "Decode setter s dec = (e, s', dec1)" and "\<And>v s'. setter v s = Some s' \<Longrightarrow> K s'" and "K s"
  shows "e \<noteq> Some ErrFuel \<and> K s' \<and> (e = None \<longrightarrow> length (input dec1) < length (input dec))"
  using assms(1) by (rule Decode_cases) (use assms(2,3) in auto)

lemma output_member_steady: "steady (\<lambda>seen x. output_bounded x) (\<lambda>x. True) output_member"
proof (rule steadyI)
  fix key seen x dec e x' dec1
  assume b: "output_bounded x" and m: "output_member key x dec = (e, x', dec1)"
  consider "key = ''path''" "boundedText (\<lambda>x. Path_update (\<lambda>_. x)) Path 1024 x dec = (e, x', dec1)"
    | "key = ''sha256''" "boundedText (\<lambda>x. SHA256_update (\<lambda>_. x)) SHA256 64 x dec = (e, x', dec1)"
    | "key = ''size''" "Decode (set_int (\<lambda>x. Size_update (\<lambda>_. x))) x dec = (e, x', dec1)"
    | "key = ''content''" "Decode (set_bytes (\<lambda>x. Content_update (\<lambda>_. x))) x dec = (e, x', dec1)"
    | "e = Some ErrTarget"
    using m by (auto simp: output_member_def refused_def split: if_splits)
  then show "e \<noteq> Some ErrFuel \<and> True \<and> (e = None \<longrightarrow> output_bounded x' \<and> length (input dec1) < length (input dec))"
  proof cases
    case 1
    then show ?thesis using bounded_text [OF 1(2)] b by (fastforce simp: output_bounded_def dest: setter_cases)
  next
    case 2
    then show ?thesis using bounded_text [OF 2(2)] b by (fastforce simp: output_bounded_def dest: setter_cases)
  next
    case 3
    show ?thesis using Decode_keeps [OF 3(2), of output_bounded] b by (fastforce simp: output_bounded_def dest: setter_cases)
  next
    case 4
    show ?thesis using Decode_keeps [OF 4(2), of output_bounded] b by (fastforce simp: output_bounded_def dest: setter_cases)
  qed simp
qed

lemma outputs_loop_bounded:
  assumes "outputs_loop n acc outs dec = (e, outs', dec1)" and "outputs_bounded outs" and "acc = contents_size outs"
    and "length (input dec) < n"
  shows "e \<noteq> Some ErrFuel \<and> outputs_bounded outs' \<and> (e = None \<longrightarrow> length (input dec1) < length (input dec))"
  using assms
proof (induction n arbitrary: acc outs dec)
  case (Suc n)
  show ?case
  proof (cases "More dec \<and> length outs \<noteq> 16")
    case False
    then show ?thesis using Suc.prems(1,2) by (auto split: sum.splits prod.splits if_splits dest: Token_shorter)
  next
    case more: True
    obtain e1 x d1 where o: "object output_member zero_output dec = (e1, x, d1)" by (cases "object output_member zero_output dec")
    have z: "output_bounded zero_output" by (simp add: output_bounded_def zero_output_def)
    note st = object_steady [OF output_member_steady o z TrueI]
    show ?thesis
    proof (cases "e1 = None \<and> acc + int (length (Content x)) \<le> 32 * MiB")
      case False
      then show ?thesis using Suc.prems(1,2) more o st by (cases e1) (auto simp: Let_def)
    next
      case True
      then have l: "outputs_loop n (acc + int (length (Content x))) (outs @ [x]) d1 = (e, outs', dec1)"
        using Suc.prems(1) more o by (simp add: Let_def)
      have b: "outputs_bounded (outs @ [x])"
        using Suc.prems(2,3) True more st by (auto simp: outputs_bounded_def contents_size_def)
      have c: "acc + int (length (Content x)) = contents_size (outs @ [x])" using Suc.prems(3) by (simp add: contents_size_def)
      show ?thesis using Suc.IH [OF l b c] st True Suc.prems(4) by auto
    qed
  qed
qed simp

lemma decodeOutputs_bounded:
  assumes "decodeOutputs [] dec = (e, outs, dec1)"
  shows "e \<noteq> Some ErrFuel \<and> outputs_bounded outs \<and> (e = None \<longrightarrow> length (input dec1) < length (input dec))"
proof (cases "Codec.Token dec")
  case (Inl err)
  then show ?thesis using assms Token_fuel [of dec] by (auto simp: decodeOutputs_def outputs_bounded_def contents_size_def)
next
  case (Inr x)
  obtain t d where x: "x = (t, d)" by force
  note shorter = Token_shorter [OF Inr [unfolded x]]
  have empty: "outputs_bounded []" "0 = contents_size []" by (simp_all add: outputs_bounded_def contents_size_def)
  show ?thesis
  proof (cases "t = Delim CHR ''[''")
    case True
    then have "outputs_loop (Suc (length (input d))) 0 [] d = (e, outs, dec1)"
      using assms Inr x by (simp add: decodeOutputs_def del: outputs_loop.simps)
    from outputs_loop_bounded [OF this empty] show ?thesis using shorter by auto
  next
    case False
    then show ?thesis using assms Inr x empty(1) shorter by (auto simp: decodeOutputs_def split: if_splits)
  qed
qed

definition report_after :: "bytes set \<Rightarrow> ExecutePythonResult \<Rightarrow> bool" where
  "report_after seen r \<longleftrightarrow> report_bounded r \<and> (''outputs'' \<notin> seen \<longrightarrow> Outputs r = [])"

lemma report_after_other:
  assumes "report_after seen r" and "Outputs r' = Outputs r" and "int (length (Stdout r')) \<le> 24 * MiB"
    and "int (length (Stderr r')) \<le> 24 * MiB"
  shows "report_after (insert key seen) r'"
  using assms by (auto simp: report_after_def report_bounded_def)

lemma report_text:
  assumes "report_after seen r" and "boundedText upd get (24 * MiB) r dec = (e, r', dec1)"
    and "\<And>t r. Outputs (upd t r) = Outputs r" and "\<And>t r. (get = Stdout \<and> Stderr (upd t r) = Stderr r) \<or> (get = Stderr \<and> Stdout (upd t r) = Stdout r)"
  shows "e \<noteq> Some ErrFuel \<and> outputs_bounded (Outputs r') \<and>
    (e = None \<longrightarrow> report_after (insert key seen) r' \<and> length (input dec1) < length (input dec))"
proof -
  note b = bounded_text [OF assms(2)]
  obtain t where t: "r' = r \<or> r' = upd t r" using b(3) set_string_cases by metis
  then have o: "Outputs r' = Outputs r" using assms(3) by auto
  have "report_after (insert key seen) r'" if "e = None"
  proof (rule report_after_other [OF assms(1) o])
    show "int (length (Stdout r')) \<le> 24 * MiB" "int (length (Stderr r')) \<le> 24 * MiB"
      using b(2) [OF that] t assms(1) assms(4) [of t r] by (auto simp: report_after_def report_bounded_def)
  qed
  then show ?thesis using b o assms(1) by (auto simp: report_after_def report_bounded_def)
qed

lemma report_scalar:
  assumes "report_after seen r" and "Decode setter r dec = (e, r', dec1)"
    and "\<And>v r'. setter v r = Some r' \<Longrightarrow> Outputs r' = Outputs r \<and> Stdout r' = Stdout r \<and> Stderr r' = Stderr r"
  shows "e \<noteq> Some ErrFuel \<and> outputs_bounded (Outputs r') \<and>
    (e = None \<longrightarrow> report_after (insert key seen) r' \<and> length (input dec1) < length (input dec))"
proof -
  have k: "e \<noteq> Some ErrFuel \<and> (Outputs r' = Outputs r \<and> Stdout r' = Stdout r \<and> Stderr r' = Stderr r) \<and>
      (e = None \<longrightarrow> length (input dec1) < length (input dec))"
    by (rule Decode_keeps [OF assms(2)]) (use assms(3) in auto)
  then show ?thesis using report_after_other [OF assms(1), of r' key] assms(1) by (auto simp: report_after_def report_bounded_def)
qed

lemma result_member_steady: "steady report_after (\<lambda>r. outputs_bounded (Outputs r)) result_member"
proof (rule steadyI)
  fix key seen r dec e r' dec1
  assume a: "report_after seen r" and new: "key \<notin> seen" and m: "result_member key r dec = (e, r', dec1)"
  note prose = report_text [OF a] and scalar = report_scalar [OF a]
  consider "boundedText (\<lambda>x. Stdout_update (\<lambda>_. x)) Stdout (24 * MiB) r dec = (e, r', dec1)"
    | "boundedText (\<lambda>x. Stderr_update (\<lambda>_. x)) Stderr (24 * MiB) r dec = (e, r', dec1)"
    | "Decode (set_string (\<lambda>x. r_ExecutionID_update (\<lambda>_. x))) r dec = (e, r', dec1)"
    | "Decode (set_int (\<lambda>x. ExitCode_update (\<lambda>_. x))) r dec = (e, r', dec1)"
    | "Decode (set_bool (\<lambda>x. Truncated_update (\<lambda>_. x))) r dec = (e, r', dec1)"
    | "Decode (set_bool (\<lambda>x. StdoutTruncated_update (\<lambda>_. x))) r dec = (e, r', dec1)"
    | "Decode (set_bool (\<lambda>x. StderrTruncated_update (\<lambda>_. x))) r dec = (e, r', dec1)"
    | "Decode (set_string (\<lambda>x. TerminalReason_update (\<lambda>_. x))) r dec = (e, r', dec1)"
    | "Decode (set_string (\<lambda>x. OutputError_update (\<lambda>_. x))) r dec = (e, r', dec1)"
    | "Decode set_usage r dec = (e, r', dec1)"
    | outs where "key = ''outputs''" "decodeOutputs (Outputs r) dec = (e, outs, dec1)" "r' = r\<lparr>Outputs := outs\<rparr>"
    | "e = Some ErrTarget" "r' = r"
    using m by (auto simp: result_member_def refused_def split: if_splits prod.splits)
  then show "e \<noteq> Some ErrFuel \<and> outputs_bounded (Outputs r') \<and>
    (e = None \<longrightarrow> report_after (insert key seen) r' \<and> length (input dec1) < length (input dec))"
  proof cases
    case 1
    then show ?thesis by (rule prose) simp_all
  next
    case 2
    then show ?thesis by (rule prose) simp_all
  next
    case 11
    have "Outputs r = []" using a new 11(1) by (simp add: report_after_def)
    then have "e \<noteq> Some ErrFuel \<and> outputs_bounded outs \<and> (e = None \<longrightarrow> length (input dec1) < length (input dec))"
      using 11(2) by (intro decodeOutputs_bounded) simp
    then show ?thesis using 11(1,3) a by (auto simp: report_after_def report_bounded_def)
  next
    case 12
    then show ?thesis using a by (simp add: report_after_def report_bounded_def)
  qed (erule scalar; auto dest!: setter_cases)+
qed

lemma zero_report: "report_after {} zero_result"
  by (simp add: report_after_def report_bounded_def outputs_bounded_def contents_size_def zero_result_def)

definition request_after :: "bytes set \<Rightarrow> completeRequest \<Rightarrow> bool" where
  "request_after seen q \<longleftrightarrow> report_bounded (cr_Result q) \<and> (''result'' \<notin> seen \<longrightarrow> cr_Result q = zero_result)"

lemma complete_member_steady: "steady request_after (\<lambda>q. outputs_bounded (Outputs (cr_Result q))) complete_member"
proof (rule steadyI)
  fix key seen and q :: completeRequest and dec e q' dec1
  assume a: "request_after seen q" and new: "key \<notin> seen" and m: "complete_member key q dec = (e, q', dec1)"
  have scalar: "e \<noteq> Some ErrFuel \<and> outputs_bounded (Outputs (cr_Result q')) \<and>
      (e = None \<longrightarrow> request_after (insert key seen) q' \<and> length (input dec1) < length (input dec))"
    if d: "Decode setter q dec = (e, q', dec1)" and k: "\<And>v q'. setter v q = Some q' \<Longrightarrow> cr_Result q' = cr_Result q" for setter
  proof -
    have "e \<noteq> Some ErrFuel \<and> cr_Result q' = cr_Result q \<and> (e = None \<longrightarrow> length (input dec1) < length (input dec))"
      by (rule Decode_keeps [OF d]) (use k in auto)
    then show ?thesis using a by (auto simp: request_after_def report_bounded_def)
  qed
  consider "Decode (set_string (\<lambda>x. lr_ExecutionID_update (\<lambda>_. x))) q dec = (e, q', dec1)"
    | "Decode (set_int (\<lambda>x. lr_Generation_update (\<lambda>_. x))) q dec = (e, q', dec1)"
    | r where "key = ''result''" "object result_member (cr_Result q) dec = (e, r, dec1)" "q' = q\<lparr>cr_Result := r\<rparr>"
    | "e = Some ErrTarget" "q' = q"
    using m by (auto simp: complete_member_def refused_def decodeResult_def split: if_splits prod.splits)
  then show "e \<noteq> Some ErrFuel \<and> outputs_bounded (Outputs (cr_Result q')) \<and>
      (e = None \<longrightarrow> request_after (insert key seen) q' \<and> length (input dec1) < length (input dec))"
  proof cases
    case 3
    have z: "cr_Result q = zero_result" using a new 3(1) by (simp add: request_after_def)
    have "e \<noteq> Some ErrFuel \<and> outputs_bounded (Outputs r) \<and>
        (e = None \<longrightarrow> (\<exists>names. report_after names r) \<and> length (input dec1) < length (input dec))"
      by (rule object_steady [OF result_member_steady 3(2)])
        (use zero_report z in \<open>simp_all add: report_after_def report_bounded_def outputs_bounded_def contents_size_def\<close>)
    then show ?thesis using 3(1,3) by (auto simp: request_after_def report_after_def)
  next
    case 4
    then show ?thesis using a by (simp add: request_after_def report_bounded_def)
  qed (erule scalar; auto dest!: setter_cases)+
qed

section \<open>Reports\<close>

definition no_request :: completeRequest where
  "no_request = \<lparr>lr_ExecutionID = [], lr_Generation = 0, cr_Result = zero_result\<rparr>"

lemma no_request_after: "request_after {} no_request" "outputs_bounded (Outputs (cr_Result no_request))"
  using zero_report
  by (simp_all add: request_after_def no_request_def report_after_def report_bounded_def outputs_bounded_def contents_size_def)

text \<open>
  C15. Decoding a report holds at most 16 outputs with at most 32 MiB of contents, whatever its lexemes and
  whether it succeeds or stops at an error in the middle, because a repeated member is refused before its
  value is read; its loops always end by themselves; and a report it accepts is within all its limits: each
  stream at most 24 MiB, paths of at most 1024 and digests of at most 64 bytes.
\<close>

theorem report_decoding_bounded:
  "case object complete_member no_request (NewDecoder ls) of (e, q, dec) \<Rightarrow>
     length (Outputs (cr_Result q)) \<le> 16 \<and> contents_size (Outputs (cr_Result q)) \<le> 32 * MiB \<and>
     (case e of None \<Rightarrow> report_bounded (cr_Result q) | Some failure \<Rightarrow> failure \<noteq> ErrFuel)"
proof -
  obtain e q dec where o: "object complete_member no_request (NewDecoder ls) = (e, q, dec)"
    by (cases "object complete_member no_request (NewDecoder ls)")
  show ?thesis using object_steady [OF complete_member_steady o no_request_after]
    by (auto simp: o outputs_bounded_def request_after_def split: option.splits)
qed

text \<open>So an accepted body has at most 162 MiB and holds a report within its limits.\<close>

lemma accepted_report_is_bounded:
  assumes "decodeComplete scan payload = Some q"
  shows "int (length payload) \<le> MaximumReportBytes \<and> report_bounded (cr_Result q)"
proof -
  obtain dec where o: "object complete_member no_request (NewDecoder (scan payload)) = (None, q, dec)"
    and l: "int (length payload) \<le> MaximumReportBytes"
    using assms by (auto simp: decodeComplete_def decode_body_def no_request_def split: if_splits prod.splits option.splits)
  show ?thesis using object_steady [OF complete_member_steady o no_request_after] l by (auto simp: request_after_def)
qed

lemma sample_report_clean: "report_clean sample_result"
proof -
  have "utf8_valid ''e1''" "utf8_valid ''ok''" "utf8_valid ExecutionExited" "utf8_valid ''out/a.csv''" "utf8_valid (hex_encode ''x'')"
    "length (hex_encode ''x'') = 2"
    by code_simp+
  then show ?thesis by (simp add: report_clean_def sample_result_def output_clean_def int64_ok_def)
qed

lemma accepted_report_is_bounded_example:
  "decodeComplete (\<lambda>_. print (call_json (ApiComplete ''e1'' 1 sample_result))) ''report'' =
     Some \<lparr>lr_ExecutionID = ''e1'', lr_Generation = 1, cr_Result = sample_result\<rparr> \<and> report_bounded sample_result"
proof -
  have "utf8_valid ''e1''" by code_simp
  then have r: "reads_all complete_member (lease_reference_json ''e1'' 1 @ [(''result'', result_json sample_result)])
      \<lparr>lr_ExecutionID = [], lr_Generation = 0, cr_Result = zero_result\<rparr> \<lparr>lr_ExecutionID = ''e1'', lr_Generation = 1, cr_Result = sample_result\<rparr>"
    by (rule complete_request [OF _ _ sample_report_clean]) (simp add: int64_ok_def)
  have d: "decodeComplete (\<lambda>_. print (call_json (ApiComplete ''e1'' 1 sample_result))) ''report'' =
     Some \<lparr>lr_ExecutionID = ''e1'', lr_Generation = 1, cr_Result = sample_result\<rparr>"
    unfolding decodeComplete_def call_json.simps
    by (rule decode_body_print [OF _ _ r]) (simp_all add: MaximumReportBytes_def lease_reference_json_def del: print.simps)
  show ?thesis using accepted_report_is_bounded [OF d] d by simp
qed

end
