(* ===== verification/SandboxBootstrap.thy ===== *)
theory SandboxBootstrap
  imports Attachments Budgets JsonStream "HOL-Library.Monad_Syntax"
begin

text \<open>
  How a Sandbox is closed before untrusted code runs: the bootstrap process builds the mount namespace
  (bootstrap_linux.go, hardening_linux.go).

  The kernel keeps a table of the visible mounts; the system calls change it as mount(2), umount2(2) and
  pivot_root(2) document. Whether a call fails, what \<open>stat\<close>, \<open>statfs\<close> and \<open>openat\<close> answer and what the
  inherited mounts are is an argument. \<open>None\<close> is an error return, which ends the process: no later call
  is made.
\<close>

section \<open>The mount table\<close>

definition MS_RDONLY :: u64 where "MS_RDONLY = 1"
definition MS_NOSUID :: u64 where "MS_NOSUID = 2"
definition MS_NODEV :: u64 where "MS_NODEV = 4"
definition MS_NOEXEC :: u64 where "MS_NOEXEC = 8"
definition MS_SYNCHRONOUS :: u64 where "MS_SYNCHRONOUS = 16"
definition MS_REMOUNT :: u64 where "MS_REMOUNT = 32"
definition MS_MANDLOCK :: u64 where "MS_MANDLOCK = 64"
definition MS_NOATIME :: u64 where "MS_NOATIME = 1024"
definition MS_NODIRATIME :: u64 where "MS_NODIRATIME = 2048"
definition MS_BIND :: u64 where "MS_BIND = 4096"
definition MS_REC :: u64 where "MS_REC = 0x4000"
definition MS_PRIVATE :: u64 where "MS_PRIVATE = 0x40000"
definition MS_RELATIME :: u64 where "MS_RELATIME = 0x200000"

lemmas MS_defs = MS_RDONLY_def MS_NOSUID_def MS_NODEV_def MS_NOEXEC_def MS_SYNCHRONOUS_def MS_REMOUNT_def MS_MANDLOCK_def
  MS_NOATIME_def MS_NODIRATIME_def MS_BIND_def MS_REC_def MS_PRIVATE_def MS_RELATIME_def

datatype origin = Elsewhere | Filesystem bytes bytes | Bound bytes

record mount_row =
  mt_target :: bytes
  mt_origin :: origin
  mt_flags :: u64

record namespace =
  ns_mounts :: "mount_row list"
  ns_private :: bool
  ns_root :: bytes
  ns_cwd :: bytes

text \<open>\<open>under t p\<close>: the path \<open>p\<close> is \<open>t\<close> or below it. A new mount hides what is mounted at or below its target.\<close>

definition under :: "bytes \<Rightarrow> bytes \<Rightarrow> bool" where
  "under t p \<longleftrightarrow> t = ''/'' \<or> p = t \<or> has_prefix p (t @ ''/'')"

definition uncovered :: "bytes \<Rightarrow> mount_row list \<Rightarrow> mount_row list" where
  "uncovered t rows = filter (\<lambda>m. \<not> under t (mt_target m)) rows"

datatype lstat_answer = Missing | LstatFailed | IsDirectory | IsRegular | IsSymlink | IsOther

record device_stat =
  dv_mode :: "32 word"
  dv_rdev :: u64

record boot_env =
  be_pid :: int
  be_euid :: int
  be_page :: int
  be_pipe :: "nat \<Rightarrow> bool option"
  be_same_cwd :: "bool option"
  be_call :: "bytes \<Rightarrow> bytes \<Rightarrow> bool"
  be_mount :: "bytes \<Rightarrow> u64 \<Rightarrow> bool"
  be_flags :: "bytes \<Rightarrow> u64"
  be_lstat :: "bytes \<Rightarrow> lstat_answer"
  be_statfs :: "bytes \<Rightarrow> u64 option"
  be_device :: "bytes \<Rightarrow> nat option"
  be_fstat :: "nat \<Rightarrow> device_stat option"
  be_inherited :: "nat \<Rightarrow> inherited_env"
  be_slash :: "nat option"
  be_attach :: "bytes \<Rightarrow> mount_env"

text \<open>
  \<^verbatim>\<open>mount(2)\<close>. A remount replaces the flags of the mount at the target; a bind mount starts with the
  flags of what it binds.
\<close>

definition Mount :: "boot_env \<Rightarrow> bytes \<Rightarrow> bytes \<Rightarrow> bytes \<Rightarrow> u64 \<Rightarrow> bytes \<Rightarrow> namespace \<Rightarrow> namespace option" where
  "Mount w source tgt fstype flags data ns =
     (if \<not> be_mount w tgt flags then None
      else if flags AND MS_REMOUNT \<noteq> 0 then
        (if tgt \<notin> mt_target ` set (ns_mounts ns) then None
         else Some (ns\<lparr>ns_mounts := map (\<lambda>m. if mt_target m = tgt
                then m\<lparr>mt_flags := flags AND NOT (MS_REMOUNT OR MS_BIND)\<rparr> else m) (ns_mounts ns)\<rparr>))
      else if flags AND MS_PRIVATE \<noteq> 0 then Some (ns\<lparr>ns_private := True\<rparr>)
      else let row = (if flags AND MS_BIND \<noteq> 0
          then \<lparr>mt_target = tgt, mt_origin = Bound source, mt_flags = be_flags w source\<rparr>
          else \<lparr>mt_target = tgt, mt_origin = Filesystem fstype data, mt_flags = flags\<rparr>)
        in Some (ns\<lparr>ns_mounts := row # uncovered tgt (ns_mounts ns)\<rparr>))"

definition Chdir :: "boot_env \<Rightarrow> bytes \<Rightarrow> namespace \<Rightarrow> namespace option" where
  "Chdir w path ns = (if be_call w ''chdir'' path then Some (ns\<lparr>ns_cwd := path\<rparr>) else None)"

text \<open>\<^verbatim>\<open>pivot_root(".", ".")\<close> and the detachment of the old root: what is not below the new root is gone.\<close>

definition PivotRoot :: "boot_env \<Rightarrow> namespace \<Rightarrow> namespace option" where
  "PivotRoot w ns = (if be_call w ''pivot_root'' (ns_cwd ns) then Some (ns\<lparr>ns_root := ns_cwd ns\<rparr>) else None)"

definition inside :: "bytes \<Rightarrow> bytes \<Rightarrow> bytes" where
  "inside root p = (if p = root then ''/'' else drop (length root) p)"

definition DetachOldRoot :: "boot_env \<Rightarrow> namespace \<Rightarrow> namespace option" where
  "DetachOldRoot w ns =
     (if be_call w ''umount'' (ns_cwd ns)
      then Some (ns\<lparr>ns_mounts := map (\<lambda>m. m\<lparr>mt_target := inside (ns_root ns) (mt_target m)\<rparr>)
             (filter (\<lambda>m. under (ns_root ns) (mt_target m)) (ns_mounts ns)), ns_root := ''/''\<rparr>)
      else None)"

section \<open>Devices and kernel views (hardening_linux.go)\<close>

definition makeKernelViewReadOnly :: "boot_env \<Rightarrow> bytes \<Rightarrow> namespace \<Rightarrow> namespace option" where
  "makeKernelViewReadOnly w tgt ns = do {
     flags \<leftarrow> be_statfs w tgt;
     Mount w [] tgt [] ((flags AND (MS_NOSUID OR MS_NODEV OR MS_NOEXEC)) OR MS_BIND OR MS_REMOUNT OR MS_RDONLY OR MS_NOSUID
       OR MS_NOEXEC) [] ns }"

definition S_IFCHR :: "32 word" where "S_IFCHR = 0x2000"

definition bindSandboxDevice :: "boot_env \<Rightarrow> nat \<Rightarrow> bytes \<Rightarrow> u64 \<Rightarrow> namespace \<Rightarrow> namespace option" where
  "bindSandboxDevice w fd tgt minor ns = do {
     info \<leftarrow> be_fstat w fd;
     guard (dv_mode info AND S_IFMT = S_IFCHR \<and> dv_rdev info = (256 OR minor));
     guard (be_call w ''create'' tgt);
     guard (be_call w ''close'' tgt);
     ns1 \<leftarrow> Mount w (''/proc/self/fd/'' @ decimal fd) tgt [] MS_BIND [] ns;
     makeKernelViewReadOnly w tgt ns1 }"

fun device_loop :: "boot_env \<Rightarrow> bytes \<Rightarrow> (bytes \<times> u64) list \<Rightarrow> namespace \<Rightarrow> namespace option" where
  "device_loop w deviceRoot [] ns = Some ns"
| "device_loop w deviceRoot ((name, minor) # devices) ns = do {
     fd \<leftarrow> be_device w name;
     ns1 \<leftarrow> bindSandboxDevice w fd (deviceRoot @ ''/'' @ name) minor ns;
     device_loop w deviceRoot devices ns1 }"

definition prepareSandboxDevices :: "boot_env \<Rightarrow> bytes \<Rightarrow> namespace \<Rightarrow> namespace option" where
  "prepareSandboxDevices w newRoot ns = do {
     guard (be_call w ''open'' ''/dev'');
     ns1 \<leftarrow> Mount w ''tmpfs'' (newRoot @ ''/dev'') ''tmpfs'' (MS_NOSUID OR MS_NODEV OR MS_NOEXEC) ''size=65536,nr_inodes=16,mode=0755'' ns;
     ns2 \<leftarrow> device_loop w (newRoot @ ''/dev'') [(''null'', 3), (''zero'', 5)] ns1;
     makeKernelViewReadOnly w (newRoot @ ''/dev'') ns2 }"

definition proc_directories :: "bytes list" where
  "proc_directories = [''sys'', ''irq'', ''bus'', ''fs'', ''acpi'', ''scsi'']"

definition proc_files :: "bytes list" where
  "proc_files = [''kcore'', ''keys'', ''timer_list'', ''sysrq-trigger'', ''interrupts'', ''kallsyms'', ''slabinfo'', ''vmallocinfo'',
     ''modules'', ''iomem'', ''ioports'', ''sched_debug'']"

fun hide_directories :: "boot_env \<Rightarrow> bytes \<Rightarrow> bytes list \<Rightarrow> namespace \<Rightarrow> namespace option" where
  "hide_directories w newRoot [] ns = Some ns"
| "hide_directories w newRoot (name # entries) ns =
     (let tgt = newRoot @ ''/proc/'' @ name in
      case be_lstat w tgt of
        Missing \<Rightarrow> hide_directories w newRoot entries ns
      | IsDirectory \<Rightarrow> do {
          ns1 \<leftarrow> Mount w ''tmpfs'' tgt ''tmpfs'' (MS_RDONLY OR MS_NOSUID OR MS_NODEV OR MS_NOEXEC) ''size=4096,nr_inodes=1,mode=0555'' ns;
          hide_directories w newRoot entries ns1 }
      | _ \<Rightarrow> None)"

fun hide_files :: "boot_env \<Rightarrow> bytes \<Rightarrow> bytes list \<Rightarrow> namespace \<Rightarrow> namespace option" where
  "hide_files w newRoot [] ns = Some ns"
| "hide_files w newRoot (name # entries) ns =
     (let tgt = newRoot @ ''/proc/'' @ name in
      case be_lstat w tgt of
        Missing \<Rightarrow> hide_files w newRoot entries ns
      | IsRegular \<Rightarrow> do {
          ns1 \<leftarrow> Mount w (newRoot @ ''/dev/null'') tgt [] MS_BIND [] ns;
          ns2 \<leftarrow> makeKernelViewReadOnly w tgt ns1;
          hide_files w newRoot entries ns2 }
      | _ \<Rightarrow> None)"

definition restrictSandboxProc :: "boot_env \<Rightarrow> bytes \<Rightarrow> namespace \<Rightarrow> namespace option" where
  "restrictSandboxProc w newRoot ns = do {
     ns1 \<leftarrow> hide_directories w newRoot proc_directories ns;
     hide_files w newRoot proc_files ns1 }"

section \<open>The bootstrap process (bootstrap_linux.go)\<close>

record bootstrapPolicy =
  bp_Storage :: StorageBudget
  bp_AttachmentNames :: "bytes list"

definition zero_storage :: StorageBudget where
  "zero_storage = \<lparr>WorkspaceBytes = 0, WorkspaceFiles = 0, TemporaryBytes = 0, TemporaryFiles = 0\<rparr>"

definition storage_setters :: "StorageBudget setters" where
  "storage_setters =
     [(''workspace_bytes'', set_int (\<lambda>x. WorkspaceBytes_update (\<lambda>_. x))), (''workspace_files'', set_int (\<lambda>x. WorkspaceFiles_update (\<lambda>_. x))),
      (''temporary_bytes'', set_int (\<lambda>x. TemporaryBytes_update (\<lambda>_. x))), (''temporary_files'', set_int (\<lambda>x. TemporaryFiles_update (\<lambda>_. x)))]"

definition policy_setters :: "bootstrapPolicy setters" where
  "policy_setters =
     [(''storage'', \<lambda>v s. map_option (\<lambda>b. s\<lparr>bp_Storage := b\<rparr>) (set_struct storage_setters v (bp_Storage s))),
      (''attachment_names'', set_strings (\<lambda>x. bp_AttachmentNames_update (\<lambda>_. x)))]"

definition decode_bootstrap_policy :: "(bytes \<Rightarrow> lexeme list) \<Rightarrow> bytes \<Rightarrow> bootstrapPolicy option" where
  "decode_bootstrap_policy scan payload =
     (case decodeStrictJSON scan (\<lambda>v. set_struct policy_setters v \<lparr>bp_Storage = zero_storage, bp_AttachmentNames = []\<rparr>)
         [''storage'', ''attachment_names''] payload of
        Inl _ \<Rightarrow> None | Inr p \<Rightarrow> Some p)"

definition new_root :: bytes where "new_root = ''/tmp/rootfs''"

definition workspace_options :: "StorageBudget \<Rightarrow> bytes" where
  "workspace_options b = ''size='' @ signed_decimal (WorkspaceBytes b) @ '',nr_inodes='' @ signed_decimal (WorkspaceFiles b + 3) @ '',mode=0755''"

definition temporary_options :: "StorageBudget \<Rightarrow> bytes" where
  "temporary_options b = ''size='' @ signed_decimal (TemporaryBytes b) @ '',nr_inodes='' @ signed_decimal (TemporaryFiles b + 1) @
     '',mode=0700,uid=1000,gid=1000''"

text \<open>The rows of the Attachments (\<open>Attachments\<close> has their mounting) in this table.\<close>

definition entry_row :: "bytes \<times> mount_entry \<Rightarrow> mount_row" where
  "entry_row te = (case te of (tgt, e) \<Rightarrow>
     \<lparr>mt_target = tgt,
      mt_origin = (case mounted e of Tmpfs \<Rightarrow> Filesystem ''tmpfs'' ''size=1m,nr_inodes=17,mode=0555'' | BindFD fd \<Rightarrow> Bound (''/proc/self/fd/'' @ decimal fd)),
      mt_flags = (if readonly e then MS_RDONLY else 0) OR (if restricted e then MS_NOSUID OR MS_NODEV OR MS_NOEXEC else 0)\<rparr>)"

definition mount_attachments :: "boot_env \<Rightarrow> bytes \<Rightarrow> openedAttachment list \<Rightarrow> namespace \<Rightarrow> namespace option" where
  "mount_attachments w inputRoot attachments ns = do {
     table \<leftarrow> mountSandboxAttachments (be_attach w) (be_mount w inputRoot (MS_NOSUID OR MS_NODEV OR MS_NOEXEC))
       (be_mount w inputRoot (MS_REMOUNT OR MS_RDONLY OR MS_NOSUID OR MS_NODEV OR MS_NOEXEC)) inputRoot attachments;
     Some (ns\<lparr>ns_mounts := map entry_row table @ uncovered inputRoot (ns_mounts ns)\<rparr>) }"

definition bind_profile :: "boot_env \<Rightarrow> namespace \<Rightarrow> namespace option" where
  "bind_profile w ns = do {
     guard (be_call w ''mkdir'' new_root);
     ns1 \<leftarrow> Mount w ''.'' new_root [] MS_BIND [] ns;
     flags \<leftarrow> be_statfs w new_root;
     Mount w [] new_root [] ((flags AND (MS_NOSUID OR MS_NODEV OR MS_NOEXEC OR MS_NOATIME OR MS_NODIRATIME OR MS_RELATIME OR
       MS_SYNCHRONOUS OR MS_MANDLOCK)) OR MS_BIND OR MS_REMOUNT OR MS_RDONLY OR MS_NOSUID OR MS_NODEV) [] ns1 }"

definition build_workspace :: "boot_env \<Rightarrow> StorageBudget \<Rightarrow> openedAttachment list \<Rightarrow> namespace \<Rightarrow> namespace option" where
  "build_workspace w storage attachments ns = do {
     ns1 \<leftarrow> Mount w ''tmpfs'' (new_root @ ''/workspace'') ''tmpfs'' (MS_NOSUID OR MS_NODEV OR MS_NOEXEC) (workspace_options storage) ns;
     guard (be_call w ''mkdir'' (new_root @ ''/workspace/input''));
     guard (be_call w ''mkdir'' (new_root @ ''/workspace/output''));
     guard (be_call w ''chown'' (new_root @ ''/workspace/output''));
     ns2 \<leftarrow> mount_attachments w (new_root @ ''/workspace/input'') attachments ns1;
     Mount w ''tmpfs'' (new_root @ ''/tmp'') ''tmpfs'' (MS_NOSUID OR MS_NODEV OR MS_NOEXEC) (temporary_options storage) ns2 }"

definition enter_root :: "boot_env \<Rightarrow> namespace \<Rightarrow> namespace option" where
  "enter_root w ns = do {
     ns1 \<leftarrow> Chdir w new_root ns;
     ns2 \<leftarrow> PivotRoot w ns1;
     ns3 \<leftarrow> DetachOldRoot w ns2;
     Chdir w ''/'' ns3 }"

text \<open>\<open>Some\<close> is the namespace in which \<^verbatim>\<open>/sandbox-init\<close> is executed.\<close>

definition RunBootstrap :: "boot_env \<Rightarrow> (bytes \<Rightarrow> lexeme list) \<Rightarrow> bytes \<Rightarrow> namespace \<Rightarrow> namespace option" where
  "RunBootstrap w scan encodedPolicy ns = do {
     guard (be_pid w = 1 \<and> be_euid w = 0);
     policy \<leftarrow> decode_bootstrap_policy scan encodedPolicy;
     guard (storage_validate (be_page w) (bp_Storage policy));
     guard (be_pipe w 3 = Some True \<and> be_pipe w 4 = Some True \<and> be_pipe w 6 = Some True);
     ns1 \<leftarrow> Mount w [] ''/'' [] (MS_REC OR MS_PRIVATE) [] ns;
     guard (be_same_cwd w = Some True);
     attachments \<leftarrow> reopenBootstrapAttachments (be_inherited w) (be_slash w) (bp_AttachmentNames policy);
     guard (be_lstat w ''/tmp'' = IsDirectory);
     ns2 \<leftarrow> Mount w ''tmpfs'' ''/tmp'' ''tmpfs'' (MS_NOSUID OR MS_NODEV) ''size=1m,nr_inodes=16,mode=0700'' ns1;
     ns3 \<leftarrow> bind_profile w ns2;
     ns4 \<leftarrow> build_workspace w (bp_Storage policy) attachments ns3;
     ns5 \<leftarrow> prepareSandboxDevices w new_root ns4;
     ns6 \<leftarrow> Mount w ''proc'' (new_root @ ''/proc'') ''proc'' (MS_RDONLY OR MS_NOSUID OR MS_NODEV OR MS_NOEXEC) [] ns5;
     ns7 \<leftarrow> restrictSandboxProc w new_root ns6;
     ns8 \<leftarrow> enter_root w ns7;
     guard (be_call w ''close'' ''profile-root'');
     guard (be_call w ''exec'' ''/sandbox-init'');
     Some ns8 }"

section \<open>Flags\<close>

lemma flag_tests: "(w :: u64) AND MS_REMOUNT = 0 \<longleftrightarrow> \<not> bit w 5" "w AND MS_PRIVATE = 0 \<longleftrightarrow> \<not> bit w 18" "w AND MS_BIND = 0 \<longleftrightarrow> \<not> bit w 12"
proof -
  have n: "w AND 2 ^ n = 0 \<longleftrightarrow> \<not> bit w n" for n using and_exp_eq_0_iff_not_bit [of w n] by simp
  show "w AND MS_REMOUNT = 0 \<longleftrightarrow> \<not> bit w 5" "w AND MS_PRIVATE = 0 \<longleftrightarrow> \<not> bit w 18" "w AND MS_BIND = 0 \<longleftrightarrow> \<not> bit w 12"
    using n [of 5] n [of 18] n [of 12] by (simp_all add: MS_defs)
qed

definition read_only :: "mount_row \<Rightarrow> bool" where "read_only m \<longleftrightarrow> bit (mt_flags m) 0"
definition no_suid :: "mount_row \<Rightarrow> bool" where "no_suid m \<longleftrightarrow> bit (mt_flags m) 1"
definition no_dev :: "mount_row \<Rightarrow> bool" where "no_dev m \<longleftrightarrow> bit (mt_flags m) 2"
definition no_exec :: "mount_row \<Rightarrow> bool" where "no_exec m \<longleftrightarrow> bit (mt_flags m) 3"

lemmas flag_defs = read_only_def no_suid_def no_dev_def no_exec_def

lemma flag_positions: "bit (mt_flags m) 0 = (mt_flags m AND MS_RDONLY \<noteq> 0)" "bit (mt_flags m) 1 = (mt_flags m AND MS_NOSUID \<noteq> 0)"
  "bit (mt_flags m) 2 = (mt_flags m AND MS_NODEV \<noteq> 0)" "bit (mt_flags m) 3 = (mt_flags m AND MS_NOEXEC \<noteq> 0)"
proof -
  have n: "mt_flags m AND 2 ^ n = 0 \<longleftrightarrow> \<not> bit (mt_flags m) n" for n using and_exp_eq_0_iff_not_bit [of "mt_flags m" n] by simp
  show "bit (mt_flags m) 0 = (mt_flags m AND MS_RDONLY \<noteq> 0)" "bit (mt_flags m) 1 = (mt_flags m AND MS_NOSUID \<noteq> 0)"
    "bit (mt_flags m) 2 = (mt_flags m AND MS_NODEV \<noteq> 0)" "bit (mt_flags m) 3 = (mt_flags m AND MS_NOEXEC \<noteq> 0)"
    using n [of 0] n [of 1] n [of 2] n [of 3] by (simp_all add: MS_defs)
qed

lemma under_refl [simp]: "under t t"
  by (simp add: under_def)

lemma Mount_filesystem:
  assumes "Mount w source t fstype flags data ns = Some ns'" and "\<not> bit flags 5" and "\<not> bit flags 18" and "\<not> bit flags 12"
  shows "ns' = ns\<lparr>ns_mounts := \<lparr>mt_target = t, mt_origin = Filesystem fstype data, mt_flags = flags\<rparr> # uncovered t (ns_mounts ns)\<rparr>"
  using assms by (simp add: Mount_def flag_tests Let_def split: if_splits)

lemma uncovered_target: "m \<in> set (uncovered t rows) \<Longrightarrow> mt_target m \<noteq> t"
  by (auto simp: uncovered_def)

text \<open>A bind mount whose flags are then replaced.\<close>

lemma bind_then_remount:
  assumes "Mount w source t [] MS_BIND [] ns = Some ns1" and "Mount w [] t [] flags [] ns1 = Some ns2" and "bit flags 5"
  shows "ns2 = ns\<lparr>ns_mounts := \<lparr>mt_target = t, mt_origin = Bound source, mt_flags = flags AND NOT (MS_REMOUNT OR MS_BIND)\<rparr> #
    uncovered t (ns_mounts ns)\<rparr>"
proof -
  have b: "\<not> bit MS_BIND 5" "\<not> bit MS_BIND 18" "bit MS_BIND 12" by (simp_all add: MS_defs)
  have "ns1 = ns\<lparr>ns_mounts := \<lparr>mt_target = t, mt_origin = Bound source, mt_flags = be_flags w source\<rparr> # uncovered t (ns_mounts ns)\<rparr>"
    using assms(1) b by (simp add: Mount_def flag_tests Let_def split: if_splits)
  moreover have "map (\<lambda>m. if mt_target m = t then m\<lparr>mt_flags := f\<rparr> else m) (uncovered t rows) = uncovered t rows" for f rows
    by (rule map_idI) (auto dest: uncovered_target)
  ultimately show ?thesis using assms(2,3) by (simp add: Mount_def flag_tests split: if_splits)
qed

definition locked_row :: "bytes \<Rightarrow> bytes \<Rightarrow> mount_row \<Rightarrow> bool" where
  "locked_row t source m \<longleftrightarrow> mt_target m = t \<and> mt_origin m = Bound source \<and> read_only m \<and> no_suid m \<and> no_exec m"

lemma bind_locked:
  assumes "Mount w source t [] MS_BIND [] ns = Some ns1" and "makeKernelViewReadOnly w t ns1 = Some ns2"
  shows "\<exists>m. locked_row t source m \<and> ns2 = ns\<lparr>ns_mounts := m # uncovered t (ns_mounts ns)\<rparr>"
proof -
  obtain st where "Mount w [] t [] ((st AND (MS_NOSUID OR MS_NODEV OR MS_NOEXEC)) OR MS_BIND OR MS_REMOUNT OR MS_RDONLY OR MS_NOSUID
       OR MS_NOEXEC) [] ns1 = Some ns2"
    using assms(2) by (auto simp: makeKernelViewReadOnly_def Option.bind_eq_Some_conv)
  from bind_then_remount [OF assms(1) this] show ?thesis
    by (intro exI [of _ "\<lparr>mt_target = t, mt_origin = Bound source, mt_flags = ((st AND (MS_NOSUID OR MS_NODEV OR MS_NOEXEC)) OR MS_BIND OR
        MS_REMOUNT OR MS_RDONLY OR MS_NOSUID OR MS_NOEXEC) AND NOT (MS_REMOUNT OR MS_BIND)\<rparr>"])
      (simp add: locked_row_def flag_defs MS_defs bit_simps)
qed

section \<open>What is visible\<close>

lemma under_trans: "under t s \<Longrightarrow> under s p \<Longrightarrow> s \<noteq> ''/'' \<Longrightarrow> under t p"
  unfolding under_def by (auto simp: has_prefix_iff)

lemma uncovered_simps [simp]:
  "uncovered t [] = []"
  "uncovered t (m # rows) = (if under t (mt_target m) then uncovered t rows else m # uncovered t rows)"
  "uncovered t (rows @ more_rows) = uncovered t rows @ uncovered t more_rows"
  by (simp_all add: uncovered_def)

text \<open>No mount is at \<open>t\<close> or below.\<close>

definition fresh :: "bytes \<Rightarrow> mount_row list \<Rightarrow> bool" where
  "fresh t rows \<longleftrightarrow> (\<forall>m \<in> set rows. \<not> under t (mt_target m))"

lemma fresh_simps [simp]:
  "fresh t []" "fresh t (m # rows) \<longleftrightarrow> \<not> under t (mt_target m) \<and> fresh t rows"
  "fresh t (rows @ more_rows) \<longleftrightarrow> fresh t rows \<and> fresh t more_rows"
  by (auto simp: fresh_def)

lemma fresh_uncovered: "fresh t rows \<Longrightarrow> uncovered t rows = rows"
  by (simp add: fresh_def uncovered_def filter_id_conv)

lemma fresh_below: "fresh t rows \<Longrightarrow> under t s \<Longrightarrow> s \<noteq> ''/'' \<Longrightarrow> fresh s rows"
  using under_trans by (fastforce simp: fresh_def)

lemma bind_profile_rows:
  assumes "bind_profile w ns = Some ns'"
  shows "\<exists>m. mt_target m = new_root \<and> mt_origin m = Bound ''.'' \<and> read_only m \<and> no_suid m \<and> no_dev m \<and>
    ns' = ns\<lparr>ns_mounts := m # uncovered new_root (ns_mounts ns)\<rparr>"
proof -
  obtain ns1 st where m: "Mount w ''.'' new_root [] MS_BIND [] ns = Some ns1" and
    r: "Mount w [] new_root [] ((st AND (MS_NOSUID OR MS_NODEV OR MS_NOEXEC OR MS_NOATIME OR MS_NODIRATIME OR MS_RELATIME OR
       MS_SYNCHRONOUS OR MS_MANDLOCK)) OR MS_BIND OR MS_REMOUNT OR MS_RDONLY OR MS_NOSUID OR MS_NODEV) [] ns1 = Some ns'"
    using assms by (auto simp: bind_profile_def Option.bind_eq_Some_conv)
  from bind_then_remount [OF m r] show ?thesis
    by (intro exI [of _ "\<lparr>mt_target = new_root, mt_origin = Bound ''.'', mt_flags = ((st AND (MS_NOSUID OR MS_NODEV OR MS_NOEXEC OR
        MS_NOATIME OR MS_NODIRATIME OR MS_RELATIME OR MS_SYNCHRONOUS OR MS_MANDLOCK)) OR MS_BIND OR MS_REMOUNT OR MS_RDONLY OR
        MS_NOSUID OR MS_NODEV) AND NOT (MS_REMOUNT OR MS_BIND)\<rparr>"])
      (simp add: flag_defs MS_defs bit_simps)
qed

definition tmpfs_row :: "bytes \<Rightarrow> bytes \<Rightarrow> u64 \<Rightarrow> mount_row" where
  "tmpfs_row t data flags = \<lparr>mt_target = t, mt_origin = Filesystem ''tmpfs'' data, mt_flags = flags\<rparr>"

definition limited_flags :: u64 where "limited_flags = MS_NOSUID OR MS_NODEV OR MS_NOEXEC"

lemma limited_flags_bits: "\<not> bit limited_flags 5" "\<not> bit limited_flags 18" "\<not> bit limited_flags 12" "\<not> bit limited_flags 0"
  "bit limited_flags 1" "bit limited_flags 2" "bit limited_flags 3"
  by (simp_all add: limited_flags_def MS_defs)

lemma Mount_limited:
  assumes "Mount w ''tmpfs'' t ''tmpfs'' (MS_NOSUID OR MS_NODEV OR MS_NOEXEC) data ns = Some ns'"
  shows "ns' = ns\<lparr>ns_mounts := tmpfs_row t data limited_flags # uncovered t (ns_mounts ns)\<rparr>"
  using Mount_filesystem [OF assms] limited_flags_bits by (simp add: tmpfs_row_def limited_flags_def)

lemma tmpfs_row_simps [simp]: "mt_target (tmpfs_row t data fl) = t" "mt_origin (tmpfs_row t data fl) = Filesystem ''tmpfs'' data"
  "mt_flags (tmpfs_row t data fl) = fl"
  by (simp_all add: tmpfs_row_def)

definition input_dir :: bytes where "input_dir = new_root @ ''/workspace/input''"

definition input_row :: mount_row where
  "input_row = tmpfs_row input_dir ''size=1m,nr_inodes=17,mode=0555'' (MS_RDONLY OR MS_NOSUID OR MS_NODEV OR MS_NOEXEC)"

definition attachment_row :: "openedAttachment \<Rightarrow> mount_row" where
  "attachment_row a = \<lparr>mt_target = input_dir @ ''/'' @ att_name a, mt_origin = Bound (''/proc/self/fd/'' @ decimal (att_file a)),
     mt_flags = MS_RDONLY OR MS_NOSUID OR MS_NODEV OR MS_NOEXEC\<rparr>"

lemma attachment_rows:
  assumes "mount_attachments w input_dir as ns = Some ns'"
  shows "ns' = ns\<lparr>ns_mounts := rev (map attachment_row as) @ input_row # uncovered input_dir (ns_mounts ns)\<rparr>"
proof -
  obtain table where t: "mountSandboxAttachments (be_attach w) (be_mount w input_dir (MS_NOSUID OR MS_NODEV OR MS_NOEXEC))
       (be_mount w input_dir (MS_REMOUNT OR MS_RDONLY OR MS_NOSUID OR MS_NODEV OR MS_NOEXEC)) input_dir as = Some table"
    and n: "ns' = ns\<lparr>ns_mounts := map entry_row table @ uncovered input_dir (ns_mounts ns)\<rparr>"
    using assms by (auto simp: mount_attachments_def Option.bind_eq_Some_conv)
  have "map entry_row table = rev (map attachment_row as) @ [input_row]"
    unfolding mounted_table [OF t]
    by (simp add: rev_map entry_row_def attachment_row_def input_row_def tmpfs_row_def target_of_def comp_def)
  then show ?thesis using n by simp
qed

lemma build_workspace_rows:
  assumes "build_workspace w b as ns = Some ns'" and "fresh (new_root @ ''/workspace'') (ns_mounts ns)" and "fresh (new_root @ ''/tmp'') (ns_mounts ns)"
  shows "ns' = ns\<lparr>ns_mounts := tmpfs_row (new_root @ ''/tmp'') (temporary_options b) limited_flags # rev (map attachment_row as) @
    input_row # tmpfs_row (new_root @ ''/workspace'') (workspace_options b) limited_flags # ns_mounts ns\<rparr>"
proof -
  obtain ns1 ns2 where m1: "Mount w ''tmpfs'' (new_root @ ''/workspace'') ''tmpfs'' (MS_NOSUID OR MS_NODEV OR MS_NOEXEC) (workspace_options b) ns = Some ns1"
    and m2: "mount_attachments w input_dir as ns1 = Some ns2"
    and m3: "Mount w ''tmpfs'' (new_root @ ''/tmp'') ''tmpfs'' (MS_NOSUID OR MS_NODEV OR MS_NOEXEC) (temporary_options b) ns2 = Some ns'"
    using assms(1) by (auto simp: build_workspace_def input_dir_def Option.bind_eq_Some_conv)
  have i: "fresh input_dir (ns_mounts ns)"
    by (rule fresh_below [OF assms(2)]) (simp_all add: under_def input_dir_def new_root_def)
  have a: "uncovered (new_root @ ''/tmp'') (rev (map attachment_row as)) = rev (map attachment_row as)"
    by (rule fresh_uncovered) (auto simp: fresh_def attachment_row_def under_def input_dir_def new_root_def)
  show ?thesis
    unfolding Mount_limited [OF m3] attachment_rows [OF m2] Mount_limited [OF m1]
    using a fresh_uncovered [OF assms(2)] fresh_uncovered [OF assms(3)] fresh_uncovered [OF i]
    by (simp add: under_def input_dir_def input_row_def new_root_def)
qed

text \<open>The descriptor a device was bound from is a character device of its fixed identity.\<close>

definition device_row :: "boot_env \<Rightarrow> bytes \<Rightarrow> u64 \<Rightarrow> mount_row \<Rightarrow> bool" where
  "device_row w name minor m \<longleftrightarrow> (\<exists>fd info. be_device w name = Some fd \<and> be_fstat w fd = Some info \<and>
     dv_mode info AND S_IFMT = S_IFCHR \<and> dv_rdev info = (256 OR minor) \<and>
     locked_row (new_root @ ''/dev/'' @ name) (''/proc/self/fd/'' @ decimal fd) m)"

lemma device_step:
  assumes "be_device w name = Some fd" and "bindSandboxDevice w fd (new_root @ ''/dev/'' @ name) minor ns = Some ns'"
  shows "\<exists>m. device_row w name minor m \<and> ns' = ns\<lparr>ns_mounts := m # uncovered (new_root @ ''/dev/'' @ name) (ns_mounts ns)\<rparr>"
proof -
  obtain info ns1 where i: "be_fstat w fd = Some info" "dv_mode info AND S_IFMT = S_IFCHR" "dv_rdev info = (256 OR minor)"
    and m: "Mount w (''/proc/self/fd/'' @ decimal fd) (new_root @ ''/dev/'' @ name) [] MS_BIND [] ns = Some ns1"
      "makeKernelViewReadOnly w (new_root @ ''/dev/'' @ name) ns1 = Some ns'"
    using assms(2) by (auto simp: bindSandboxDevice_def Option.bind_eq_Some_conv)
  show ?thesis using bind_locked [OF m] i assms(1) by (auto simp: device_row_def)
qed

lemma remount_rows:
  assumes "makeKernelViewReadOnly w t ns = Some ns'"
  shows "\<exists>fl. bit fl 0 \<and> bit fl 1 \<and> bit fl 3 \<and>
    ns' = ns\<lparr>ns_mounts := map (\<lambda>m. if mt_target m = t then m\<lparr>mt_flags := fl\<rparr> else m) (ns_mounts ns)\<rparr>"
proof -
  obtain st where m: "Mount w [] t [] ((st AND (MS_NOSUID OR MS_NODEV OR MS_NOEXEC)) OR MS_BIND OR MS_REMOUNT OR MS_RDONLY OR MS_NOSUID
       OR MS_NOEXEC) [] ns = Some ns'" (is "Mount w [] t [] ?fl [] ns = _")
    using assms by (auto simp: makeKernelViewReadOnly_def Option.bind_eq_Some_conv)
  have "bit ?fl 5" by (simp add: MS_defs bit_simps)
  moreover have "bit (?fl AND NOT (MS_REMOUNT OR MS_BIND)) n" if "n = 0 \<or> n = 1 \<or> n = 3" for n
    using that by (auto simp: MS_defs bit_simps)
  ultimately show ?thesis using m by (intro exI [of _ "?fl AND NOT (MS_REMOUNT OR MS_BIND)"]) (simp add: Mount_def flag_tests split: if_splits)
qed

lemma fresh_targets: "fresh t rows \<Longrightarrow> map (\<lambda>m. if mt_target m = t then f m else m) rows = rows"
  by (rule map_idI) (auto simp: fresh_def)

lemma device_rows:
  assumes "prepareSandboxDevices w new_root ns = Some ns'" and "fresh (new_root @ ''/dev'') (ns_mounts ns)"
  shows "\<exists>zero null fl. device_row w ''null'' 3 null \<and> device_row w ''zero'' 5 zero \<and> bit fl 0 \<and> bit fl 1 \<and> bit fl 3 \<and>
    ns' = ns\<lparr>ns_mounts := zero # null # tmpfs_row (new_root @ ''/dev'') ''size=65536,nr_inodes=16,mode=0755'' fl # ns_mounts ns\<rparr>"
proof -
  obtain ns1 ns2 ns3 fd1 fd2 where
    m: "Mount w ''tmpfs'' (new_root @ ''/dev'') ''tmpfs'' (MS_NOSUID OR MS_NODEV OR MS_NOEXEC) ''size=65536,nr_inodes=16,mode=0755'' ns = Some ns1"
    and d1: "be_device w ''null'' = Some fd1" "bindSandboxDevice w fd1 (new_root @ ''/dev/'' @ ''null'') 3 ns1 = Some ns2"
    and d2: "be_device w ''zero'' = Some fd2" "bindSandboxDevice w fd2 (new_root @ ''/dev/'' @ ''zero'') 5 ns2 = Some ns3"
    and r: "makeKernelViewReadOnly w (new_root @ ''/dev'') ns3 = Some ns'"
    using assms(1) by (auto simp: prepareSandboxDevices_def Option.bind_eq_Some_conv)
  obtain null where null: "device_row w ''null'' 3 null"
    "ns2 = ns1\<lparr>ns_mounts := null # uncovered (new_root @ ''/dev/'' @ ''null'') (ns_mounts ns1)\<rparr>"
    using device_step [OF d1] by blast
  obtain zero where zero: "device_row w ''zero'' 5 zero"
    "ns3 = ns2\<lparr>ns_mounts := zero # uncovered (new_root @ ''/dev/'' @ ''zero'') (ns_mounts ns2)\<rparr>"
    using device_step [OF d2] by blast
  have tg: "mt_target null = new_root @ ''/dev/'' @ ''null''" "mt_target zero = new_root @ ''/dev/'' @ ''zero''"
    using null(1) zero(1) by (auto simp: device_row_def locked_row_def)
  have b: "fresh (new_root @ ''/dev/'' @ ''null'') (ns_mounts ns)" "fresh (new_root @ ''/dev/'' @ ''zero'') (ns_mounts ns)"
    by (rule fresh_below [OF assms(2)]; simp add: under_def new_root_def)+
  obtain fl where "bit fl 0 \<and> bit fl 1 \<and> bit fl 3"
    and e: "ns' = ns3\<lparr>ns_mounts := map (\<lambda>m. if mt_target m = new_root @ ''/dev'' then m\<lparr>mt_flags := fl\<rparr> else m) (ns_mounts ns3)\<rparr>"
    using remount_rows [OF r] by blast
  moreover have "ns_mounts ns3 = zero # null # tmpfs_row (new_root @ ''/dev'') ''size=65536,nr_inodes=16,mode=0755'' limited_flags # ns_mounts ns"
    unfolding zero(2) null(2) Mount_limited [OF m]
    using tg fresh_uncovered [OF assms(2)] fresh_uncovered [OF b(1)] fresh_uncovered [OF b(2)] by (simp add: under_def new_root_def)
  ultimately show ?thesis
    using null(1) zero(1) tg fresh_targets [OF assms(2)]
    by (intro exI [of _ zero] exI [of _ null] exI [of _ fl])
      (simp add: new_root_def tmpfs_row_def zero(2) null(2) Mount_limited [OF m])
qed

definition proc_entry :: "bytes \<Rightarrow> bytes" where "proc_entry name = new_root @ ''/proc/'' @ name"

lemma proc_entries_apart:
  assumes "slash \<notin> set n'" and "n \<noteq> n'"
  shows "\<not> under (proc_entry n) (proc_entry n')"
proof
  assume "under (proc_entry n) (proc_entry n')"
  then have "has_prefix n' (n @ ''/'')" using assms(2) by (simp add: under_def proc_entry_def new_root_def)
  then show False using assms(1) by (auto simp: has_prefix_iff)
qed

definition hidden_directory :: "bytes \<Rightarrow> mount_row" where
  "hidden_directory n = tmpfs_row (proc_entry n) ''size=4096,nr_inodes=1,mode=0555'' (MS_RDONLY OR MS_NOSUID OR MS_NODEV OR MS_NOEXEC)"

lemma hide_directories_rows:
  assumes "hide_directories w new_root ns0 ns = Some ns'" and "distinct ns0" and "\<forall>n \<in> set ns0. slash \<notin> set n"
    and "\<forall>n \<in> set ns0. fresh (proc_entry n) (ns_mounts ns)"
  shows "ns' = ns\<lparr>ns_mounts := rev (map hidden_directory (filter (\<lambda>n. be_lstat w (proc_entry n) \<noteq> Missing) ns0)) @ ns_mounts ns\<rparr>"
  using assms
proof (induction ns0 arbitrary: ns)
  case (Cons n rest)
  show ?case
  proof (cases "be_lstat w (proc_entry n) = Missing")
    case True
    then have "hide_directories w new_root rest ns = Some ns'" using Cons.prems(1) by (simp add: proc_entry_def)
    then show ?thesis using Cons.IH [of ns] Cons.prems(2-4) True by simp
  next
    case False
    then obtain ns1 where m: "Mount w ''tmpfs'' (proc_entry n) ''tmpfs'' (MS_RDONLY OR MS_NOSUID OR MS_NODEV OR MS_NOEXEC)
        ''size=4096,nr_inodes=1,mode=0555'' ns = Some ns1" and r: "hide_directories w new_root rest ns1 = Some ns'"
      using Cons.prems(1) by (auto simp: proc_entry_def Option.bind_eq_Some_conv Let_def split: lstat_answer.splits)
    have n1: "ns1 = ns\<lparr>ns_mounts := hidden_directory n # ns_mounts ns\<rparr>"
      using Mount_filesystem [OF m] fresh_uncovered [of "proc_entry n" "ns_mounts ns"] Cons.prems(4)
      by (simp add: MS_defs hidden_directory_def tmpfs_row_def)
    have "\<not> under (proc_entry n') (mt_target (hidden_directory n))" if "n' \<in> set rest" for n'
      using proc_entries_apart [of n n'] Cons.prems(2,3) that by (auto simp: hidden_directory_def)
    then show ?thesis using Cons.IH [OF r] Cons.prems(2-4) False by (simp add: n1)
  qed
qed simp

lemma hide_files_rows:
  assumes "hide_files w new_root ns0 ns = Some ns'" and "distinct ns0" and "\<forall>n \<in> set ns0. slash \<notin> set n"
    and "\<forall>n \<in> set ns0. fresh (proc_entry n) (ns_mounts ns)"
  shows "\<exists>rows. ns' = ns\<lparr>ns_mounts := rows @ ns_mounts ns\<rparr> \<and>
    (\<forall>m \<in> set rows. \<exists>n. locked_row (proc_entry n) (new_root @ ''/dev/null'') m) \<and>
    mt_target ` set rows = proc_entry ` {n \<in> set ns0. be_lstat w (proc_entry n) \<noteq> Missing}"
  using assms
proof (induction ns0 arbitrary: ns)
  case (Cons n rest)
  show ?case
  proof (cases "be_lstat w (proc_entry n) = Missing")
    case True
    then have "hide_files w new_root rest ns = Some ns'" using Cons.prems(1) by (simp add: proc_entry_def)
    moreover have "{k \<in> set (n # rest). be_lstat w (proc_entry k) \<noteq> Missing} = {k \<in> set rest. be_lstat w (proc_entry k) \<noteq> Missing}"
      using True by auto
    ultimately show ?thesis using Cons.IH [of ns] Cons.prems(2-4) by simp
  next
    case False
    then obtain ns1 ns2 where m: "Mount w (new_root @ ''/dev/null'') (proc_entry n) [] MS_BIND [] ns = Some ns1"
        "makeKernelViewReadOnly w (proc_entry n) ns1 = Some ns2" and r: "hide_files w new_root rest ns2 = Some ns'"
      using Cons.prems(1) by (auto simp: proc_entry_def Option.bind_eq_Some_conv Let_def split: lstat_answer.splits)
    obtain row where row: "locked_row (proc_entry n) (new_root @ ''/dev/null'') row" and n2: "ns2 = ns\<lparr>ns_mounts := row # ns_mounts ns\<rparr>"
      using bind_locked [OF m] fresh_uncovered [of "proc_entry n" "ns_mounts ns"] Cons.prems(4) by auto
    have tg: "mt_target row = proc_entry n" using row by (simp add: locked_row_def)
    have "\<not> under (proc_entry n') (mt_target row)" if "n' \<in> set rest" for n'
      using proc_entries_apart [of n n'] Cons.prems(2,3) that tg by auto
    then obtain rows where "ns' = ns2\<lparr>ns_mounts := rows @ ns_mounts ns2\<rparr>"
      "\<forall>m \<in> set rows. \<exists>n. locked_row (proc_entry n) (new_root @ ''/dev/null'') m"
      "mt_target ` set rows = proc_entry ` {n \<in> set rest. be_lstat w (proc_entry n) \<noteq> Missing}"
      using Cons.IH [OF r] Cons.prems(2-4) by (auto simp: n2)
    moreover have "{k \<in> set (n # rest). be_lstat w (proc_entry k) \<noteq> Missing} = insert n {k \<in> set rest. be_lstat w (proc_entry k) \<noteq> Missing}"
      using False by auto
    ultimately show ?thesis using row tg by (intro exI [of _ "rows @ [row]"]) (auto simp: n2)
  qed
qed simp

section \<open>The closed Sandbox\<close>

definition moved :: "mount_row \<Rightarrow> mount_row" where
  "moved m = m\<lparr>mt_target := inside new_root (mt_target m)\<rparr>"

lemma enter_root_rows:
  assumes "enter_root w ns = Some ns'"
  shows "ns' = ns\<lparr>ns_mounts := map moved (filter (\<lambda>m. under new_root (mt_target m)) (ns_mounts ns)), ns_root := ''/'', ns_cwd := ''/''\<rparr>"
  using assms
  by (auto simp: enter_root_def Chdir_def PivotRoot_def DetachOldRoot_def moved_def Option.bind_eq_Some_conv split: if_splits)

text \<open>Only the Workspace and the temporary directory are writable, within their budget, and nothing can be executed or used as a device there.\<close>

definition closed_row :: "StorageBudget \<Rightarrow> mount_row \<Rightarrow> bool" where
  "closed_row b m \<longleftrightarrow> no_suid m \<and> (if mt_target m = ''/'' then no_dev m else no_exec m) \<and>
     (if mt_target m = ''/workspace'' then no_dev m \<and> mt_origin m = Filesystem ''tmpfs'' (workspace_options b)
      else if mt_target m = ''/tmp'' then no_dev m \<and> mt_origin m = Filesystem ''tmpfs'' (temporary_options b)
      else read_only m)"

lemma under_new_root: "inside new_root (new_root @ p) = (if p = [] then ''/'' else p)"
  by (simp add: inside_def)

lemma proc_names: "distinct (proc_directories @ proc_files)" "\<forall>n \<in> set (proc_directories @ proc_files). slash \<notin> set n"
  by (simp_all add: proc_directories_def proc_files_def)

lemma closed_moved:
  assumes "mt_target m = new_root @ p" and "p \<noteq> []" and "p \<noteq> ''/''" and "p \<noteq> ''/workspace''" and "p \<noteq> ''/tmp''"
    and "read_only m" and "no_suid m" and "no_exec m"
  shows "closed_row b (moved m)"
  using assms by (simp add: closed_row_def moved_def under_new_root flag_defs)

lemma locked_flags_bits: "bit (MS_RDONLY OR MS_NOSUID OR MS_NODEV OR MS_NOEXEC) 0" "bit (MS_RDONLY OR MS_NOSUID OR MS_NODEV OR MS_NOEXEC) 1"
  "bit (MS_RDONLY OR MS_NOSUID OR MS_NODEV OR MS_NOEXEC) 3"
  by (simp_all add: MS_defs bit_simps)

lemma fresh_attachments:
  "fresh (new_root @ ''/dev'') (rev (map attachment_row as))" "fresh (new_root @ ''/proc'') (rev (map attachment_row as))"
  by (auto simp: fresh_def attachment_row_def under_def input_dir_def new_root_def)

lemma proc_entry_below: "under (new_root @ ''/proc'') (proc_entry n)" "proc_entry n \<noteq> ''/''" "\<not> under (proc_entry n) (new_root @ ''/proc'')"
  by (simp_all add: under_def proc_entry_def new_root_def)

text \<open>The last part: /proc is mounted and hidden over rows that have nothing there, and the root is entered.\<close>

lemma proc_rows:
  assumes "Mount w ''proc'' (new_root @ ''/proc'') ''proc'' (MS_RDONLY OR MS_NOSUID OR MS_NODEV OR MS_NOEXEC) [] ns = Some ns1"
    and "restrictSandboxProc w new_root ns1 = Some ns2" and "fresh (new_root @ ''/proc'') (ns_mounts ns)"
  shows "\<exists>proc files. mt_target proc = new_root @ ''/proc'' \<and> read_only proc \<and> no_suid proc \<and> no_exec proc \<and>
    (\<forall>m \<in> set files. \<exists>n. locked_row (proc_entry n) (new_root @ ''/dev/null'') m) \<and>
    mt_target ` set files = proc_entry ` {n \<in> set proc_files. be_lstat w (proc_entry n) \<noteq> Missing} \<and>
    ns2 = ns\<lparr>ns_mounts := files @ rev (map hidden_directory (filter (\<lambda>n. be_lstat w (proc_entry n) \<noteq> Missing) proc_directories)) @
      proc # ns_mounts ns\<rparr>"
proof -
  let ?proc = "\<lparr>mt_target = new_root @ ''/proc'', mt_origin = Filesystem ''proc'' [], mt_flags = MS_RDONLY OR MS_NOSUID OR MS_NODEV OR MS_NOEXEC\<rparr>"
  let ?hidden = "rev (map hidden_directory (filter (\<lambda>n. be_lstat w (proc_entry n) \<noteq> Missing) proc_directories))"
  have n1: "ns1 = ns\<lparr>ns_mounts := ?proc # ns_mounts ns\<rparr>"
    using Mount_filesystem [OF assms(1)] fresh_uncovered [OF assms(3)] by (simp add: MS_defs)
  obtain ns3 where d: "hide_directories w new_root proc_directories ns1 = Some ns3" and f: "hide_files w new_root proc_files ns3 = Some ns2"
    using assms(2) by (auto simp: restrictSandboxProc_def Option.bind_eq_Some_conv)
  have below: "fresh (proc_entry n) (ns_mounts ns1)" for n
    using fresh_below [OF assms(3) proc_entry_below(1,2)] proc_entry_below(3) by (simp add: n1)
  have n3: "ns3 = ns1\<lparr>ns_mounts := ?hidden @ ns_mounts ns1\<rparr>"
    by (rule hide_directories_rows [OF d]) (use proc_names below in auto)
  have apart: "\<not> under (proc_entry n) (proc_entry k)" if "n \<in> set proc_files" "k \<in> set proc_directories" for n k
    using proc_names that by (intro proc_entries_apart) auto
  have "fresh (proc_entry n) (ns_mounts ns3)" if "n \<in> set proc_files" for n
    using below [of n] apart [OF that] by (auto simp: n3 fresh_def hidden_directory_def)
  then obtain files where "ns2 = ns3\<lparr>ns_mounts := files @ ns_mounts ns3\<rparr>"
    "\<forall>m \<in> set files. \<exists>n. locked_row (proc_entry n) (new_root @ ''/dev/null'') m"
    "mt_target ` set files = proc_entry ` {n \<in> set proc_files. be_lstat w (proc_entry n) \<noteq> Missing}"
    using hide_files_rows [OF f] proc_names by auto
  then show ?thesis
    by (intro exI [of _ ?proc] exI [of _ files]) (simp add: n3 n1 flag_defs locked_flags_bits del: One_nat_def)
qed

text \<open>The rows below the new root of a complete bootstrap, before the old root is left.\<close>

definition outer_rows :: "StorageBudget \<Rightarrow> openedAttachment list \<Rightarrow> mount_row \<Rightarrow> mount_row list" where
  "outer_rows b as root = tmpfs_row (new_root @ ''/tmp'') (temporary_options b) limited_flags # rev (map attachment_row as) @
     [input_row, tmpfs_row (new_root @ ''/workspace'') (workspace_options b) limited_flags, root]"

definition root_row :: "mount_row \<Rightarrow> bool" where
  "root_row m \<longleftrightarrow> mt_target m = new_root \<and> read_only m \<and> no_suid m \<and> no_dev m"

definition device_table :: "boot_env \<Rightarrow> mount_row list \<Rightarrow> bool" where
  "device_table w rows \<longleftrightarrow> (\<exists>zero null fl. device_row w ''null'' 3 null \<and> device_row w ''zero'' 5 zero \<and> bit fl 0 \<and> bit fl 1 \<and> bit fl 3 \<and>
     rows = [zero, null, tmpfs_row (new_root @ ''/dev'') ''size=65536,nr_inodes=16,mode=0755'' fl])"

definition proc_table :: "boot_env \<Rightarrow> mount_row list \<Rightarrow> bool" where
  "proc_table w rows \<longleftrightarrow> (\<exists>proc files. mt_target proc = new_root @ ''/proc'' \<and> read_only proc \<and> no_suid proc \<and> no_exec proc \<and>
     (\<forall>m \<in> set files. \<exists>n. locked_row (proc_entry n) (new_root @ ''/dev/null'') m) \<and>
     mt_target ` set files = proc_entry ` {n \<in> set proc_files. be_lstat w (proc_entry n) \<noteq> Missing} \<and>
     rows = files @ rev (map hidden_directory (filter (\<lambda>n. be_lstat w (proc_entry n) \<noteq> Missing) proc_directories)) @ [proc])"

text \<open>The mounts up to the temporary directory, above what the host had outside \<^verbatim>\<open>/tmp\<close>.\<close>

lemma outer_table:
  assumes "Mount w [] ''/'' [] (MS_REC OR MS_PRIVATE) [] ns = Some ns1"
    and "Mount w ''tmpfs'' ''/tmp'' ''tmpfs'' (MS_NOSUID OR MS_NODEV) ''size=1m,nr_inodes=16,mode=0700'' ns1 = Some ns2"
    and "bind_profile w ns2 = Some ns3" and "build_workspace w b as ns3 = Some ns4"
  shows "\<exists>root host. root_row root \<and> (\<forall>q. fresh (new_root @ q) host) \<and>
    ns4 = ns\<lparr>ns_mounts := outer_rows b as root @ host, ns_private := True\<rparr>"
proof -
  let ?out = "uncovered ''/tmp'' (ns_mounts ns)" and ?tmp = "tmpfs_row ''/tmp'' ''size=1m,nr_inodes=16,mode=0700'' (MS_NOSUID OR MS_NODEV)"
  have n1: "ns1 = ns\<lparr>ns_private := True\<rparr>" using assms(1) by (simp add: Mount_def flag_tests MS_defs split: if_splits)
  have n2: "ns2 = ns1\<lparr>ns_mounts := ?tmp # ?out\<rparr>"
    using Mount_filesystem [OF assms(2)] by (simp add: MS_defs n1 tmpfs_row_def)
  have "fresh (new_root @ q) ?out" for q
    by (rule fresh_below [of "''/tmp''"]) (simp_all add: fresh_def uncovered_def under_def new_root_def)
  then have host: "fresh (new_root @ q) (?tmp # ?out)" for q by (simp add: under_def new_root_def)
  obtain root where root: "mt_target root = new_root" "read_only root" "no_suid root" "no_dev root" and n3: "ns3 = ns2\<lparr>ns_mounts := root # ?tmp # ?out\<rparr>"
    using bind_profile_rows [OF assms(3)] fresh_uncovered [OF host [of "[]"]] by (auto simp: n2)
  have base: "fresh (new_root @ q) (ns_mounts ns3)" if "\<not> under (new_root @ q) new_root" for q
    using that host [of q] root(1) by (simp add: n3)
  have "ns4 = ns3\<lparr>ns_mounts := tmpfs_row (new_root @ ''/tmp'') (temporary_options b) limited_flags # rev (map attachment_row as) @
      input_row # tmpfs_row (new_root @ ''/workspace'') (workspace_options b) limited_flags # ns_mounts ns3\<rparr>"
    by (rule build_workspace_rows [OF assms(4)]; rule base; simp add: under_def new_root_def)
  then show ?thesis
    using root host by (intro exI [of _ root] exI [of _ "?tmp # ?out"]) (simp add: root_row_def outer_rows_def n3 n2 n1)
qed

lemma device_rows_table:
  assumes "prepareSandboxDevices w new_root ns = Some ns'" and "fresh (new_root @ ''/dev'') (ns_mounts ns)"
  shows "\<exists>devices. device_table w devices \<and> ns' = ns\<lparr>ns_mounts := devices @ ns_mounts ns\<rparr>"
proof -
  obtain zero null fl where d: "device_row w ''null'' 3 null" "device_row w ''zero'' 5 zero" "bit fl 0" "bit fl 1" "bit fl 3"
    and n: "ns' = ns\<lparr>ns_mounts := zero # null # tmpfs_row (new_root @ ''/dev'') ''size=65536,nr_inodes=16,mode=0755'' fl # ns_mounts ns\<rparr>"
    using device_rows [OF assms] by blast
  show ?thesis
    by (rule exI [of _ "[zero, null, tmpfs_row (new_root @ ''/dev'') ''size=65536,nr_inodes=16,mode=0755'' fl]"])
      (unfold device_table_def append.simps, intro conjI exI, (rule d refl n)+)
qed

lemma proc_rows_table:
  assumes "Mount w ''proc'' (new_root @ ''/proc'') ''proc'' (MS_RDONLY OR MS_NOSUID OR MS_NODEV OR MS_NOEXEC) [] ns = Some ns1"
    and "restrictSandboxProc w new_root ns1 = Some ns2" and "fresh (new_root @ ''/proc'') (ns_mounts ns)"
  shows "\<exists>procs. proc_table w procs \<and> ns2 = ns\<lparr>ns_mounts := procs @ ns_mounts ns\<rparr>"
proof -
  let ?hidden = "rev (map hidden_directory (filter (\<lambda>n. be_lstat w (proc_entry n) \<noteq> Missing) proc_directories))"
  obtain proc files where p: "mt_target proc = new_root @ ''/proc''" "read_only proc" "no_suid proc" "no_exec proc"
    "\<forall>m \<in> set files. \<exists>n. locked_row (proc_entry n) (new_root @ ''/dev/null'') m"
    "mt_target ` set files = proc_entry ` {n \<in> set proc_files. be_lstat w (proc_entry n) \<noteq> Missing}"
    and n: "ns2 = ns\<lparr>ns_mounts := files @ ?hidden @ proc # ns_mounts ns\<rparr>"
    using proc_rows [OF assms] by blast
  have "proc_table w (files @ ?hidden @ [proc])"
    unfolding proc_table_def by (intro exI conjI, (rule p refl)+)
  then show ?thesis using n by (intro exI [of _ "files @ ?hidden @ [proc]"]) simp
qed

lemma bootstrap_rows:
  assumes "RunBootstrap w scan payload ns = Some ns'"
  obtains policy as root devices procs where
    "decode_bootstrap_policy scan payload = Some policy" "storage_validate (be_page w) (bp_Storage policy)"
    "reopenBootstrapAttachments (be_inherited w) (be_slash w) (bp_AttachmentNames policy) = Some as"
    "root_row root" "device_table w devices" "proc_table w procs"
    "ns_private ns'" "ns_root ns' = ''/''" "ns_cwd ns' = ''/''"
    "ns_mounts ns' = map moved (filter (\<lambda>m. under new_root (mt_target m)) (procs @ devices @ outer_rows (bp_Storage policy) as root))"
proof -
  obtain policy as ns1 ns2 ns3 ns4 ns5 ns6 ns7 where p: "decode_bootstrap_policy scan payload = Some policy"
      "storage_validate (be_page w) (bp_Storage policy)" "reopenBootstrapAttachments (be_inherited w) (be_slash w) (bp_AttachmentNames policy) = Some as"
    and m1: "Mount w [] ''/'' [] (MS_REC OR MS_PRIVATE) [] ns = Some ns1"
    and m2: "Mount w ''tmpfs'' ''/tmp'' ''tmpfs'' (MS_NOSUID OR MS_NODEV) ''size=1m,nr_inodes=16,mode=0700'' ns1 = Some ns2"
    and m3: "bind_profile w ns2 = Some ns3" and m4: "build_workspace w (bp_Storage policy) as ns3 = Some ns4"
    and m5: "prepareSandboxDevices w new_root ns4 = Some ns5"
    and m6: "Mount w ''proc'' (new_root @ ''/proc'') ''proc'' (MS_RDONLY OR MS_NOSUID OR MS_NODEV OR MS_NOEXEC) [] ns5 = Some ns6"
    and m7: "restrictSandboxProc w new_root ns6 = Some ns7" and m8: "enter_root w ns7 = Some ns'"
    using assms by (auto simp: RunBootstrap_def Option.bind_eq_Some_conv)
  obtain root host where root: "root_row root" and host: "\<And>q. fresh (new_root @ q) host"
    and n4: "ns4 = ns\<lparr>ns_mounts := outer_rows (bp_Storage policy) as root @ host, ns_private := True\<rparr>"
    using outer_table [OF m1 m2 m3 m4] by blast
  have outer: "fresh (new_root @ ''/dev'') (ns_mounts ns4)" "fresh (new_root @ ''/proc'') (ns_mounts ns4)"
    using fresh_attachments host root
    by (simp_all add: n4 outer_rows_def root_row_def input_row_def input_dir_def under_def new_root_def)
  obtain devices where d: "device_table w devices" and n5: "ns5 = ns4\<lparr>ns_mounts := devices @ ns_mounts ns4\<rparr>"
    using device_rows_table [OF m5 outer(1)] by blast
  have "fresh (new_root @ ''/proc'') devices"
    using d by (auto simp: device_table_def device_row_def locked_row_def under_def new_root_def)
  then have "fresh (new_root @ ''/proc'') (ns_mounts ns5)" using outer(2) by (simp add: n5)
  from proc_rows_table [OF m6 m7 this] obtain procs where pr: "proc_table w procs" and n7: "ns7 = ns5\<lparr>ns_mounts := procs @ ns_mounts ns5\<rparr>"
    by blast
  have "filter (\<lambda>m. under new_root (mt_target m)) host = []" using host [of "[]"] by (simp add: fresh_def filter_empty_conv)
  then have rows: "filter (\<lambda>m. under new_root (mt_target m)) (ns_mounts ns7) =
      filter (\<lambda>m. under new_root (mt_target m)) (procs @ devices @ outer_rows (bp_Storage policy) as root)"
    by (simp add: n7 n5 n4)
  note e = enter_root_rows [OF m8]
  have "ns_private ns7" by (simp add: n7 n5 n4)
  then have state: "ns_private ns'" "ns_root ns' = ''/''" "ns_cwd ns' = ''/''" unfolding e by simp_all
  have mts: "ns_mounts ns' = map moved (filter (\<lambda>m. under new_root (mt_target m)) (ns_mounts ns7))" unfolding e by simp
  show thesis
    by (rule that [OF p root d pr state mts [unfolded rows]])
qed

text \<open>What Init finds: the device nodes, the files of the Attachments, and a cover over every entry of \<^verbatim>\<open>/proc\<close> that is there.\<close>

definition sandbox_targets :: "boot_env \<Rightarrow> openedAttachment list \<Rightarrow> bytes set" where
  "sandbox_targets w as = {''/'', ''/workspace'', ''/workspace/input'', ''/tmp'', ''/dev'', ''/dev/null'', ''/dev/zero'', ''/proc''} \<union>
     (\<lambda>a. ''/workspace/input/'' @ att_name a) ` set as \<union>
     (\<lambda>n. ''/proc/'' @ n) ` {n \<in> set (proc_directories @ proc_files). be_lstat w (proc_entry n) \<noteq> Missing}"

lemma moved_target: "mt_target m = new_root @ p \<Longrightarrow> mt_target (moved m) = (if p = [] then ''/'' else p)"
  by (simp add: moved_def under_new_root)

lemma moved_targets: "\<forall>m \<in> set rows. \<exists>n. mt_target m = proc_entry n \<Longrightarrow> mt_target ` set rows = proc_entry ` N \<Longrightarrow>
  mt_target ` set (map moved rows) = (\<lambda>n. ''/proc/'' @ n) ` N"
proof -
  assume a: "mt_target ` set rows = proc_entry ` N"
  have "mt_target ` set (map moved rows) = inside new_root ` (mt_target ` set rows)" by (simp add: moved_def image_image)
  also have "\<dots> = (\<lambda>n. ''/proc/'' @ n) ` N" unfolding a by (simp add: image_image proc_entry_def under_new_root)
  finally show ?thesis .
qed

lemma device_closed:
  assumes "device_row w name minor m" and "name \<noteq> []"
  shows "closed_row b (moved m)" and "mt_target (moved m) = ''/dev/'' @ name"
proof -
  have m: "mt_target m = new_root @ ''/dev/'' @ name" "read_only m" "no_suid m" "no_exec m"
    using assms(1) by (auto simp: device_row_def locked_row_def)
  show "closed_row b (moved m)" by (rule closed_moved [OF m(1) _ _ _ _ m(2-4)]) simp_all
  show "mt_target (moved m) = ''/dev/'' @ name" using m(1) by (simp add: moved_def under_new_root)
qed

lemma proc_closed:
  assumes "mt_target m = proc_entry n" and "read_only m" and "no_suid m" and "no_exec m"
  shows "closed_row b (moved m)"
  by (rule closed_moved [OF assms(1) [unfolded proc_entry_def] _ _ _ _ assms(2-4)]) simp_all

text \<open>Every row of the three tables is below the new root, closed once moved, and at its place.\<close>

lemma outer_closed:
  assumes "root_row root" and "m \<in> set (outer_rows b as root)"
  shows "closed_row b (moved m) \<and> under new_root (mt_target m)"
proof -
  have u: "under new_root (new_root @ ''/'' @ q)" for q by (simp add: under_def has_prefix_iff)
  consider "m = root" | "m = tmpfs_row (new_root @ ''/tmp'') (temporary_options b) limited_flags"
    | "m = tmpfs_row (new_root @ ''/workspace'') (workspace_options b) limited_flags" | "m = input_row" | a where "m = attachment_row a"
    using assms(2) by (auto simp: outer_rows_def)
  then show ?thesis
  proof cases
    case 4
    show ?thesis using u [of "''workspace/input''"] closed_moved [of m "''/workspace/input''"]
      by (simp add: 4 input_row_def input_dir_def flag_defs locked_flags_bits del: One_nat_def)
  next
    case 5
    show ?thesis using u [of "''workspace/input/'' @ att_name a"] closed_moved [of m "''/workspace/input/'' @ att_name a"]
      by (simp add: 5 attachment_row_def input_dir_def flag_defs locked_flags_bits del: One_nat_def)
  qed (use assms(1) limited_flags_bits u [of "''tmp''"] u [of "''workspace''"] in
        \<open>simp_all add: root_row_def closed_row_def moved_def inside_def flag_defs new_root_def\<close>)
qed

lemma device_table_closed:
  assumes "device_table w rows" and "m \<in> set rows"
  shows "closed_row b (moved m) \<and> under new_root (mt_target m)"
proof -
  obtain zero null fl where d: "device_row w ''null'' 3 null" "device_row w ''zero'' 5 zero" "bit fl 0" "bit fl 1" "bit fl 3"
    "rows = [zero, null, tmpfs_row (new_root @ ''/dev'') ''size=65536,nr_inodes=16,mode=0755'' fl]"
    using assms(1) by (auto simp: device_table_def)
  have "closed_row b (moved (tmpfs_row (new_root @ ''/dev'') ''size=65536,nr_inodes=16,mode=0755'' fl))"
    by (rule closed_moved [of _ "''/dev''"]) (simp_all add: flag_defs d del: One_nat_def)
  moreover have "under new_root (new_root @ ''/dev'' @ q)" for q by (simp add: under_def has_prefix_iff)
  from this [of "[]"] this [of "''/null''"] this [of "''/zero''"]
  have "under new_root (mt_target m)" using assms(2) d(1,2) by (auto simp: d(6) device_row_def locked_row_def)
  ultimately show ?thesis using assms(2) device_closed(1) [OF d(1)] device_closed(1) [OF d(2)] by (auto simp: d(6))
qed

lemma proc_table_closed:
  assumes "proc_table w rows" and "m \<in> set rows"
  shows "closed_row b (moved m) \<and> under new_root (mt_target m)"
proof -
  have u: "under new_root (new_root @ ''/'' @ q)" for q by (simp add: under_def has_prefix_iff)
  have entry: "under new_root (proc_entry n)" for n using u [of "''proc/'' @ n"] by (simp add: proc_entry_def)
  obtain proc files where p: "mt_target proc = new_root @ ''/proc''" "read_only proc" "no_suid proc" "no_exec proc"
    "\<forall>m \<in> set files. \<exists>n. locked_row (proc_entry n) (new_root @ ''/dev/null'') m"
    "rows = files @ rev (map hidden_directory (filter (\<lambda>n. be_lstat w (proc_entry n) \<noteq> Missing) proc_directories)) @ [proc]"
    using assms(1) by (auto simp: proc_table_def)
  consider "m = proc" | n where "mt_target m = proc_entry n" "read_only m" "no_suid m" "no_exec m"
    using assms(2) p(5) unfolding p(6)
    by (auto simp: locked_row_def hidden_directory_def flag_defs locked_flags_bits simp del: One_nat_def)
  then show ?thesis
  proof cases
    case 1
    then show ?thesis using closed_moved [OF p(1) _ _ _ _ p(2-4)] p(1) u [of "''proc''"] by simp
  next
    case 2
    then show ?thesis using proc_closed entry by simp
  qed
qed

lemma table_targets:
  assumes "root_row root" and "device_table w devices" and "proc_table w procs"
  shows "mt_target ` set (map moved (procs @ devices @ outer_rows b as root)) = sandbox_targets w as"
proof -
  have others: "mt_target (moved (tmpfs_row (new_root @ q) data fl)) = (if q = [] then ''/'' else q)" for q data fl
    by (simp add: moved_def under_new_root)
  have inp: "mt_target (moved input_row) = ''/workspace/input''" by (simp add: input_row_def input_dir_def others)
  have o: "mt_target ` set (map moved (outer_rows b as root)) =
      {''/'', ''/workspace'', ''/workspace/input'', ''/tmp''} \<union> (\<lambda>a. ''/workspace/input/'' @ att_name a) ` set as"
  proof -
    have "mt_target (moved root) = ''/''" using assms(1) by (simp add: root_row_def moved_def inside_def)
    moreover have "mt_target ` set (map moved (rev (map attachment_row as))) = (\<lambda>a. ''/workspace/input/'' @ att_name a) ` set as"
      by (auto simp: attachment_row_def input_dir_def moved_def under_new_root image_iff)
    moreover have "mt_target ` set (map moved (outer_rows b as root)) =
        insert (mt_target (moved (tmpfs_row (new_root @ ''/tmp'') (temporary_options b) limited_flags)))
          (mt_target ` set (map moved (rev (map attachment_row as))) \<union> {mt_target (moved input_row),
            mt_target (moved (tmpfs_row (new_root @ ''/workspace'') (workspace_options b) limited_flags)), mt_target (moved root)})"
      unfolding outer_rows_def by (simp only: list.map map_append set_append list.set image_insert image_empty image_Un)
    ultimately show ?thesis unfolding inp others by (simp only: list.distinct if_False) blast
  qed
  obtain zero null fl where dev: "device_row w ''null'' 3 null" "device_row w ''zero'' 5 zero"
    "devices = [zero, null, tmpfs_row (new_root @ ''/dev'') ''size=65536,nr_inodes=16,mode=0755'' fl]"
    using assms(2) unfolding device_table_def by blast
  have "mt_target (moved null) = ''/dev/null''" "mt_target (moved zero) = ''/dev/zero''"
    using device_closed(2) [OF dev(1)] device_closed(2) [OF dev(2)] by simp_all
  then have d: "mt_target ` set (map moved devices) = {''/dev'', ''/dev/null'', ''/dev/zero''}"
    unfolding dev(3) by (simp only: list.map list.set image_insert image_empty others list.distinct if_False) blast
  obtain proc files where p: "mt_target proc = new_root @ ''/proc''" "\<forall>m \<in> set files. \<exists>n. mt_target m = proc_entry n"
    "mt_target ` set files = proc_entry ` {n \<in> set proc_files. be_lstat w (proc_entry n) \<noteq> Missing}"
    "procs = files @ rev (map hidden_directory (filter (\<lambda>n. be_lstat w (proc_entry n) \<noteq> Missing) proc_directories)) @ [proc]"
    using assms(3) by (auto simp: proc_table_def locked_row_def)
  have h: "mt_target ` set (map moved (rev (map hidden_directory ks))) = (\<lambda>n. ''/proc/'' @ n) ` set ks" for ks
    by (auto simp: hidden_directory_def moved_def proc_entry_def under_new_root image_iff)
  have "mt_target (moved proc) = ''/proc''" using p(1) by (simp add: moved_def under_new_root)
  then have "mt_target ` set (map moved procs) = insert ''/proc'' ((\<lambda>n. ''/proc/'' @ n) `
      {n \<in> set (proc_directories @ proc_files). be_lstat w (proc_entry n) \<noteq> Missing})"
    using moved_targets [OF p(2,3)] unfolding p(4) map_append set_append image_Un h by auto
  then show ?thesis unfolding map_append set_append image_Un o d sandbox_targets_def by auto
qed


text \<open>A small Sandbox: no Attachments, a kernel with \<^verbatim>\<open>/proc/sys\<close> and \<^verbatim>\<open>/proc/kcore\<close> only.\<close>

definition sample_policy :: bootstrapPolicy where
  "sample_policy = \<lparr>bp_Storage = \<lparr>WorkspaceBytes = 8, WorkspaceFiles = 5, TemporaryBytes = 4, TemporaryFiles = 3\<rparr>, bp_AttachmentNames = []\<rparr>"

definition sample_policy_json :: json where
  "sample_policy_json = JObj [(''storage'', JObj [(''workspace_bytes'', JLit ''8''), (''workspace_files'', JLit ''5''),
     (''temporary_bytes'', JLit ''4''), (''temporary_files'', JLit ''3'')]), (''attachment_names'', null)]"

definition sample_boot :: boot_env where
  "sample_boot = \<lparr>be_pid = 1, be_euid = 0, be_page = 4, be_pipe = (\<lambda>_. Some True), be_same_cwd = Some True, be_call = (\<lambda>_ _. True),
     be_mount = (\<lambda>_ _. True), be_flags = (\<lambda>_. 0),
     be_lstat = (\<lambda>p. if p \<in> {''/tmp'', ''/tmp/rootfs/proc/sys''} then IsDirectory else if p = ''/tmp/rootfs/proc/kcore'' then IsRegular else Missing),
     be_statfs = (\<lambda>_. Some 4), be_device = (\<lambda>n. if n = ''null'' then Some 8 else if n = ''zero'' then Some 9 else None),
     be_fstat = (\<lambda>fd. Some \<lparr>dv_mode = 0x2000, dv_rdev = (if fd = 8 then 259 else 261)\<rparr>),
     be_inherited = (\<lambda>_. \<lparr>i_stat = None, i_source = None, i_view = (\<lambda>_ _ _. None), i_after = (\<lambda>_. None), i_close = False\<rparr>), be_slash = None,
     be_attach = (\<lambda>_. \<lparr>e_create = True, e_created_close = True, e_bind = True, e_remount = True, e_close = True\<rparr>)\<rparr>"

definition sample_host :: namespace where
  "sample_host = \<lparr>ns_mounts = [\<lparr>mt_target = ''/tmp/rootfs/old'', mt_origin = Elsewhere, mt_flags = 0\<rparr>, \<lparr>mt_target = ''/'', mt_origin = Elsewhere, mt_flags = 0\<rparr>],
     ns_private = False, ns_root = ''/'', ns_cwd = ''/''\<rparr>"

lemma sample_decodes: "decode_bootstrap_policy (\<lambda>_. print sample_policy_json) [] = Some sample_policy"
  by code_simp

lemma sample_boots: "RunBootstrap sample_boot (\<lambda>_. print sample_policy_json) [] sample_host \<noteq> None"
  by code_simp


end
