(* ===== verification/WorkloadLaunch.thy ===== *)
theory WorkloadLaunch
  imports InstalledProfile SandboxInit "HOL-Library.Monad_Syntax"
begin

text \<open>
  What a Workload can inherit: Init gives up what its children could acquire (privileges_linux.go, the
  start of \<open>RunInit\<close>), and the launcher of a Workload drops what is left and installs the filter
  (\<open>RunInitWorkload\<close> in init_linux.go, seccomp_linux.go). The capability sets of a thread change as
  capabilities(7) and prctl(2) document; which call fails is an argument.
\<close>

section \<open>Capabilities (privileges_linux.go)\<close>

text \<open>
  The capability sets of the calling thread as 64-bit words. \<open>pe_known\<close> capabilities exist, \<open>pe_call\<close> says
  whether the numbered call succeeds. \<^verbatim>\<open>capset\<close> takes the ambient capabilities that are no longer
  permitted and inheritable away.
\<close>

record thread =
  th_bounding :: u64
  th_effective :: u64
  th_permitted :: u64
  th_inheritable :: u64
  th_ambient :: u64
  th_no_new_privs :: bool
  th_filter :: "instruction list option"

record privilege_env =
  pe_known :: nat
  pe_call :: "nat \<Rightarrow> bool"

definition capset :: "u64 \<Rightarrow> u64 \<Rightarrow> u64 \<Rightarrow> thread \<Rightarrow> thread" where
  "capset eff perm inh th = th\<lparr>th_effective := eff, th_permitted := perm, th_inheritable := inh,
     th_ambient := th_ambient th AND perm AND inh\<rparr>"

text \<open>Calls \<open>2 c\<close> and \<open>2 c + 1\<close> read and drop capability \<open>c\<close>.\<close>

function drop_bounding :: "privilege_env \<Rightarrow> nat \<Rightarrow> thread \<Rightarrow> thread option" where
  "drop_bounding w c th =
     (if c \<ge> pe_known w then Some th
      else if \<not> pe_call w (2 * c) then None
      else if \<not> pe_call w (2 * c + 1) then None
      else drop_bounding w (c + 1) (th\<lparr>th_bounding := unset_bit c (th_bounding th)\<rparr>))"
  by pat_completeness auto
termination by (relation "measure (\<lambda>(w, c, th). pe_known w - c)") auto

declare drop_bounding.simps [simp del]

definition restrictInitCapabilityInheritance :: "privilege_env \<Rightarrow> thread \<Rightarrow> thread option" where
  "restrictInitCapabilityInheritance w th = do {
     th1 \<leftarrow> drop_bounding w 0 th;
     guard (pe_call w 1000);
     guard (pe_call w 1001);
     guard (pe_call w 1002);
     Some ((capset (th_effective th1) (th_permitted th1) 0 th1)\<lparr>th_ambient := 0\<rparr>) }"

definition dropWorkloadPrivileges :: "privilege_env \<Rightarrow> thread \<Rightarrow> thread option" where
  "dropWorkloadPrivileges w th = do {
     guard (pe_call w 1001);
     guard (pe_call w 1002);
     guard (pe_call w 1003);
     Some ((capset 0 0 0 th)\<lparr>th_ambient := 0, th_no_new_privs := True\<rparr>) }"

section \<open>Starting Init (\<open>RunInit\<close> before its requests)\<close>

record init_env =
  ie_pid :: int
  ie_euid :: int
  ie_egid :: int
  ie_pipe :: "nat \<Rightarrow> bool option"
  ie_privilege :: privilege_env
  ie_write :: bool
  ie_close :: bool

definition start_init :: "init_env \<Rightarrow> thread \<Rightarrow> thread option" where
  "start_init w th = do {
     guard (ie_pid w = 1 \<and> ie_euid w = 0 \<and> ie_egid w = 0);
     th1 \<leftarrow> restrictInitCapabilityInheritance (ie_privilege w) th;
     guard (ie_pipe w 3 = Some True \<and> ie_pipe w 4 = Some True \<and> ie_pipe w 6 = Some True);
     guard (ie_write w);
     guard (ie_close w);
     Some th1 }"

definition RunInit :: "(bytes \<Rightarrow> bytes) \<Rightarrow> init_env \<Rightarrow> (initRequest option \<times> workload_env) list \<Rightarrow> thread
    \<Rightarrow> (thread \<times> initResponse list \<times> bool) option" where
  "RunInit sha256 w rounds th = do {
     th1 \<leftarrow> start_init w th;
     Some (th1, init_rounds sha256 rounds) }"

section \<open>The launcher of a Workload\<close>

text \<open>\<open>le_gate\<close> is what reading one byte from the gate gives; \<open>None\<close> is an error or the end.\<close>

record launch_env =
  le_pid :: int
  le_euid :: int
  le_egid :: int
  le_pipe :: "bool option"
  le_gate :: "char option"
  le_close :: bool
  le_scan :: "bytes \<Rightarrow> lexeme list"
  le_goarch :: bytes
  le_content :: "nat \<Rightarrow> bytes option"
  le_policy :: "(nat \<times> Stat_t option) option"
  le_privilege :: privilege_env
  le_seccomp :: bool

definition installWorkloadSystemCallFilter :: "launch_env \<Rightarrow> instruction list \<Rightarrow> thread \<Rightarrow> thread option" where
  "installWorkloadSystemCallFilter w compiled th = do {
     guard (length compiled \<noteq> 0 \<and> length compiled \<le> 4096);
     guard (le_seccomp w);
     Some (th\<lparr>th_filter := Some compiled\<rparr>) }"

definition initWorkloadEnvironment :: "bytes list" where
  "initWorkloadEnvironment =
     [''HOME=/workspace/output'', ''TMPDIR=/tmp'', ''PATH=/opt/python/bin'', ''GOMAXPROCS=1'',
      ''GODEBUG=containermaxprocs=0,updatemaxprocs=0'']"

record execution_image =
  ex_path :: bytes
  ex_argv :: "bytes list"
  ex_env :: "bytes list"
  ex_thread :: thread

definition RunInitWorkload :: "launch_env \<Rightarrow> bytes \<Rightarrow> thread \<Rightarrow> execution_image option" where
  "RunInitWorkload w source th = do {
     guard (\<not> (le_pid w = 1 \<or> le_euid w \<noteq> 1000 \<or> le_egid w \<noteq> 1000));
     guard (le_pipe w = Some True);
     guard (le_gate w = Some CHR ''G'');
     guard (le_close w);
     compiled \<leftarrow> workloadSystemCallFilter (le_scan w) (le_goarch w) (le_content w) (le_policy w);
     th1 \<leftarrow> dropWorkloadPrivileges (le_privilege w) th;
     th2 \<leftarrow> installWorkloadSystemCallFilter w compiled th1;
     Some \<lparr>ex_path = ''/opt/python/bin/python3'', ex_argv = [''python3'', ''-I'', ''-B'', ''-c'', source],
       ex_env = initWorkloadEnvironment, ex_thread = th2\<rparr> }"

section \<open>What a Workload is started with\<close>

lemma drop_bounding_result:
  assumes "drop_bounding w c th = Some th'"
  shows "\<exists>b. th' = th\<lparr>th_bounding := b\<rparr> \<and> (\<forall>n. bit b n \<longleftrightarrow> bit (th_bounding th) n \<and> \<not> (c \<le> n \<and> n < pe_known w))"
  using assms
proof (induction w c th rule: drop_bounding.induct)
  case (1 w c th)
  show ?case
  proof (cases "c \<ge> pe_known w")
    case True
    then show ?thesis using 1(2) by (intro exI [of _ "th_bounding th"]) (auto simp: drop_bounding.simps [of w c])
  next
    case False
    let ?th = "th\<lparr>th_bounding := unset_bit c (th_bounding th)\<rparr>"
    have calls: "pe_call w (2 * c)" "pe_call w (2 * c + 1)" and r: "drop_bounding w (c + 1) ?th = Some th'"
      using 1(2) False by (simp_all add: drop_bounding.simps [of w c] split: if_splits)
    obtain b where t: "th' = ?th\<lparr>th_bounding := b\<rparr>"
      and b: "bit b n \<longleftrightarrow> bit (th_bounding ?th) n \<and> \<not> (c + 1 \<le> n \<and> n < pe_known w)" for n
      using 1(1) [OF False] calls r by blast
    have "bit b n \<longleftrightarrow> bit (th_bounding th) n \<and> \<not> (c \<le> n \<and> n < pe_known w)" for n
      using b [of n] False by (auto simp: bit_unset_bit_iff)
    then show ?thesis unfolding t by (intro exI [of _ b]) simp
  qed
qed

text \<open>Init keeps what it has and leaves nothing to inherit.\<close>

lemma restricted_init:
  assumes "restrictInitCapabilityInheritance w th = Some th'"
  shows "th_inheritable th' = 0 \<and> th_ambient th' = 0 \<and> th_effective th' = th_effective th \<and> th_permitted th' = th_permitted th \<and>
    (\<forall>c < pe_known w. \<not> bit (th_bounding th') c)"
proof -
  obtain th1 where d: "drop_bounding w 0 th = Some th1" and e: "th' = (capset (th_effective th1) (th_permitted th1) 0 th1)\<lparr>th_ambient := 0\<rparr>"
    using assms by (auto simp: restrictInitCapabilityInheritance_def Option.bind_eq_Some_conv)
  obtain b where "th1 = th\<lparr>th_bounding := b\<rparr>" and "\<forall>n. bit b n \<longleftrightarrow> bit (th_bounding th) n \<and> \<not> (0 \<le> n \<and> n < pe_known w)"
    using drop_bounding_result [OF d] by blast
  then show ?thesis using e by (simp add: capset_def)
qed

lemma filter_in_force:
  assumes "workloadSystemCallFilter scan goarch content policy_file = Some prog"
  shows "\<exists>fd stat data p. policy_file = Some (fd, Some stat) \<and> is_regular stat \<and> Perm stat = mode_0444 \<and>
    st_Size stat = int (length data) \<and> read_limited content fd = Some data \<and> Parse scan data = Inr p \<and>
    (\<forall>d a. bpf_run d a prog = Some (if policy_permits p d then seccompReturnAllow else denial p))"
proof -
  obtain fd stat data p where f: "policy_file = Some (fd, Some stat)" "is_regular stat" "Perm stat = mode_0444"
      "st_Size stat = int (length data)" "read_limited content fd = Some data" "Parse scan data = Inr p" "Compile goarch p = Inr prog"
    using assms unfolding workloadSystemCallFilter_def by (auto split: option.splits if_splits sum.splits) metis
  then show ?thesis using filter_decides [OF f(7)] by blast
qed

text \<open>The permitted set after execve(2) of a file with these capabilities, as capabilities(7) states it; all ones stands for a root file.\<close>

definition permitted_after_exec :: "u64 \<Rightarrow> u64 \<Rightarrow> thread \<Rightarrow> u64" where
  "permitted_after_exec file_permitted file_inheritable th =
     (th_inheritable th AND file_inheritable) OR (file_permitted AND th_bounding th) OR th_ambient th"

text \<open>
  C9. A Workload starts with no authority. When Init has started and forks the launcher, which keeps the
  bounding set, then the image the launcher executes is Python on the given source, it was released
  through its gate, its thread holds no capability, can gain no privilege, and no file it executes can
  give it a capability the kernel knows; and every system call is decided by a filter of 1 to 4096
  instructions that permits exactly what the validated policy of the Profile permits.
\<close>

theorem workload_starts_confined:
  assumes "RunInit sha256 iw rounds th = Some (init_thread, answers)"
    and "th_bounding child = th_bounding init_thread"
    and "RunInitWorkload lw source child = Some started"
  shows "le_gate lw = Some CHR ''G'' \<and> le_euid lw = 1000 \<and> le_egid lw = 1000 \<and>
    ex_path started = ''/opt/python/bin/python3'' \<and> ex_argv started = [''python3'', ''-I'', ''-B'', ''-c'', source] \<and>
    th_effective (ex_thread started) = 0 \<and> th_permitted (ex_thread started) = 0 \<and> th_no_new_privs (ex_thread started) \<and>
    (\<forall>file_permitted file_inheritable. \<forall>c < pe_known (ie_privilege iw).
       \<not> bit (permitted_after_exec file_permitted file_inheritable (ex_thread started)) c) \<and>
    (\<exists>prog p data fd stat. th_filter (ex_thread started) = Some prog \<and> 0 < length prog \<and> length prog \<le> 4096 \<and>
       le_policy lw = Some (fd, Some stat) \<and> read_limited (le_content lw) fd = Some data \<and> Parse (le_scan lw) data = Inr p \<and>
       (\<forall>d a. bpf_run d a prog = Some (if policy_permits p d then seccompReturnAllow else denial p)))"
proof -
  have "restrictInitCapabilityInheritance (ie_privilege iw) th = Some init_thread"
    using assms(1) by (auto simp: RunInit_def start_init_def Option.bind_eq_Some_conv)
  then have b: "\<forall>c < pe_known (ie_privilege iw). \<not> bit (th_bounding child) c" using restricted_init assms(2) by simp
  obtain prog where g: "le_gate lw = Some CHR ''G''" "le_euid lw = 1000" "le_egid lw = 1000"
    and f: "workloadSystemCallFilter (le_scan lw) (le_goarch lw) (le_content lw) (le_policy lw) = Some prog" "prog \<noteq> []" "length prog \<le> 4096"
    and i: "started = \<lparr>ex_path = ''/opt/python/bin/python3'', ex_argv = [''python3'', ''-I'', ''-B'', ''-c'', source], ex_env = initWorkloadEnvironment,
      ex_thread = (capset 0 0 0 child)\<lparr>th_ambient := 0, th_no_new_privs := True, th_filter := Some prog\<rparr>\<rparr>"
    using assms(3) by (auto simp: RunInitWorkload_def dropWorkloadPrivileges_def installWorkloadSystemCallFilter_def Option.bind_eq_Some_conv)
  have "\<not> bit (permitted_after_exec fp fi (ex_thread started)) c" if "c < pe_known (ie_privilege iw)" for fp fi c
    using b that by (simp add: i permitted_after_exec_def capset_def bit_simps)
  moreover have "\<exists>p data fd stat. le_policy lw = Some (fd, Some stat) \<and> read_limited (le_content lw) fd = Some data \<and> Parse (le_scan lw) data = Inr p \<and>
       (\<forall>d a. bpf_run d a prog = Some (if policy_permits p d then seccompReturnAllow else denial p))"
    using filter_in_force [OF f(1)] by blast
  moreover have "th_filter (ex_thread started) = Some prog" "th_effective (ex_thread started) = 0" "th_permitted (ex_thread started) = 0"
    "th_no_new_privs (ex_thread started)" "ex_path started = ''/opt/python/bin/python3''" "ex_argv started = [''python3'', ''-I'', ''-B'', ''-c'', source]"
    by (simp_all add: i capset_def)
  moreover have "0 < length prog" using f(2) by simp
  ultimately show ?thesis using g f(3) by blast
qed

text \<open>A kernel with three capabilities, an Init that reads no request, and the launcher of an installed Profile.\<close>

definition sample_kernel :: privilege_env where
  "sample_kernel = \<lparr>pe_known = 3, pe_call = (\<lambda>_. True)\<rparr>"

definition sample_thread :: thread where
  "sample_thread = \<lparr>th_bounding = 7, th_effective = 7, th_permitted = 7, th_inheritable = 1, th_ambient = 1, th_no_new_privs = False, th_filter = None\<rparr>"

definition sample_init :: init_env where
  "sample_init = \<lparr>ie_pid = 1, ie_euid = 0, ie_egid = 0, ie_pipe = (\<lambda>_. Some True), ie_privilege = sample_kernel, ie_write = True, ie_close = True\<rparr>"

definition sample_launch :: launch_env where
  "sample_launch = \<lparr>le_pid = 2, le_euid = 1000, le_egid = 1000, le_pipe = Some True, le_gate = Some CHR ''G'', le_close = True,
     le_scan = sample_scan, le_goarch = ''amd64'', le_content = InstalledProfile.sample_content, le_policy = Some (12, Some (sample_file mode_0444)),
     le_privilege = sample_kernel, le_seccomp = True\<rparr>"

lemma sample_init_starts: "\<exists>init_thread. RunInit h sample_init [] sample_thread = Some (init_thread, [], True)"
  by (simp add: RunInit_def start_init_def sample_init_def sample_kernel_def sample_thread_def restrictInitCapabilityInheritance_def
    capset_def drop_bounding.simps)

lemma example_policy_fits: "\<exists>prog. Compile ''amd64'' example_policy = Inr prog \<and> length prog = 30"
  using compiled_run [OF validate_rules_valid [OF validate_rules_elems [OF example_policy_valid]]]
    isize_policy [OF validate_rules_valid [OF validate_rules_elems [OF example_policy_valid]]]
  by (auto simp: Compile_def example_policy_valid example_policy_size maximumInstructions_def split: if_splits)

lemma sample_launches: "\<exists>started. RunInitWorkload sample_launch source child = Some started"
proof -
  obtain prog where c: "Compile ''amd64'' example_policy = Inr prog" "length prog = 30" using example_policy_fits by blast
  have p: "Parse sample_scan ''{}'' = Inr example_policy"
    unfolding Parse_iff sample_scan_def using policy_scannable policy_round_trip [OF example_policy_valid] c(1) by fastforce
  have "is_regular (sample_file mode_0444)" "Perm (sample_file mode_0444) = mode_0444" "st_Size (sample_file mode_0444) = 2"
    by (simp_all add: is_regular_def Perm_def sample_modes)
  then have "workloadSystemCallFilter sample_scan ''amd64'' InstalledProfile.sample_content (Some (12, Some (sample_file mode_0444))) = Some prog"
    using p c(1) by (simp add: workloadSystemCallFilter_def read_limited_def InstalledProfile.sample_content_def)
  moreover have "prog \<noteq> []" using c(2) by auto
  ultimately show ?thesis using c(2)
    by (simp add: RunInitWorkload_def sample_launch_def sample_kernel_def dropWorkloadPrivileges_def installWorkloadSystemCallFilter_def)
qed

theorem workload_starts_confined_witness:
  "\<exists>init_thread started. RunInit sample_hash sample_init [] sample_thread = Some (init_thread, [], True) \<and>
     RunInitWorkload sample_launch ''print(1)'' (sample_thread\<lparr>th_bounding := th_bounding init_thread\<rparr>) = Some started \<and>
     th_no_new_privs (ex_thread started) \<and> \<not> bit (permitted_after_exec 7 7 (ex_thread started)) 2"
proof -
  obtain init_thread where i: "RunInit sample_hash sample_init [] sample_thread = Some (init_thread, [], True)"
    using sample_init_starts by blast
  let ?child = "sample_thread\<lparr>th_bounding := th_bounding init_thread\<rparr>"
  obtain started where s: "RunInitWorkload sample_launch ''print(1)'' ?child = Some started" using sample_launches by blast
  have k: "2 < pe_known (ie_privilege sample_init)" by (simp add: sample_init_def sample_kernel_def)
  have "th_bounding ?child = th_bounding init_thread" by simp
  from workload_starts_confined [OF i this s] i s k show ?thesis by blast
qed

end
