(* ===== verification/Cgroups.thy ===== *)
theory Cgroups
  imports ControlServer PolicyDocument
begin

text \<open>
  The control groups of a Sandbox (cgroup_linux.go): the budget group with its confirmed limits, the group
  of Init and the group of the current Execution, and their removal.

  The kernel keeps a table of groups, newest first, each with the inode of its parent, the values its
  files hold and its processes. \<^verbatim>\<open>mkdir\<close>, \<^verbatim>\<open>rmdir\<close> and the writes to \<^verbatim>\<open>cgroup.procs\<close> and \<^verbatim>\<open>cgroup.kill\<close> change
  it as the cgroup v2 interface documents. Which system call fails, what a file keeps of a written value,
  when a killed process is gone and how long a sleep lasts are arguments.
\<close>

section \<open>The control group filesystem\<close>

record cg_node =
  cn_inode :: nat
  cn_parent :: nat
  cn_name :: bytes
  cn_files :: "(bytes \<times> bytes) list"
  cn_procs :: "(bytes \<times> bool) list"

text \<open>A process is its decimal identifier and whether it was killed.\<close>

record cgroupfs =
  cf_nodes :: "cg_node list"
  cf_next :: nat

text \<open>
  \<open>ce_call op inode name\<close>: the system call on this entry of this directory succeeds. In the loop of
  \<open>killAndWait\<close>, the \<open>r\<close>-th read of group \<open>i\<close> succeeds by \<open>ce_poll i r\<close>, the killed processes \<open>ce_exits i r\<close> have
  left before it, and the sleep after it takes \<open>ce_delay i r\<close> milliseconds more than it asked for.
\<close>

record cg_env =
  ce_pid :: nat
  ce_random :: "nat \<Rightarrow> bytes"
  ce_euid :: "32 word"
  ce_info :: "root_info option"
  ce_opens :: bool
  ce_root :: nat
  ce_statfs :: "int option"
  ce_call :: "bytes \<Rightarrow> nat \<Rightarrow> bytes \<Rightarrow> bool"
  ce_controllers :: "nat \<Rightarrow> bytes"
  ce_store :: "bytes \<Rightarrow> bytes \<Rightarrow> bytes"
  ce_poll :: "nat \<Rightarrow> nat \<Rightarrow> bool"
  ce_exits :: "nat \<Rightarrow> nat \<Rightarrow> bytes \<Rightarrow> bool"
  ce_delay :: "nat \<Rightarrow> nat \<Rightarrow> nat"

definition live :: "cgroupfs \<Rightarrow> nat \<Rightarrow> bool" where
  "live fs i \<longleftrightarrow> (\<exists>n \<in> set (cf_nodes fs). cn_inode n = i)"

definition find_node :: "cgroupfs \<Rightarrow> nat \<Rightarrow> cg_node option" where
  "find_node fs i = find (\<lambda>n. cn_inode n = i) (cf_nodes fs)"

definition child :: "cgroupfs \<Rightarrow> nat \<Rightarrow> bytes \<Rightarrow> cg_node option" where
  "child fs p name = find (\<lambda>n. cn_parent n = p \<and> cn_name n = name) (cf_nodes fs)"

definition change :: "nat set \<Rightarrow> (cg_node \<Rightarrow> cg_node) \<Rightarrow> cgroupfs \<Rightarrow> cgroupfs" where
  "change A f fs = fs\<lparr>cf_nodes := map (\<lambda>n. if cn_inode n \<in> A then f n else n) (cf_nodes fs)\<rparr>"

text \<open>A group and everything below it: a parent is older than its children, so it comes later in the table.\<close>

fun below :: "nat \<Rightarrow> cg_node list \<Rightarrow> nat list" where
  "below i [] = []"
| "below i (n # ns) = (let older = below i ns in if cn_inode n = i \<or> cn_parent n \<in> set older then cn_inode n # older else older)"

definition subtree :: "cgroupfs \<Rightarrow> nat \<Rightarrow> nat set" where
  "subtree fs i = set (below i (cf_nodes fs))"

definition populated :: "cgroupfs \<Rightarrow> nat \<Rightarrow> bool" where
  "populated fs i \<longleftrightarrow> (\<exists>n \<in> set (cf_nodes fs). cn_inode n \<in> subtree fs i \<and> cn_procs n \<noteq> [])"

definition mkdir :: "cg_env \<Rightarrow> nat \<Rightarrow> bytes \<Rightarrow> cgroupfs \<Rightarrow> (nat \<times> cgroupfs) option" where
  "mkdir w p name fs =
     (if \<not> ce_call w ''mkdir'' p name \<or> \<not> live fs p \<or> child fs p name \<noteq> None then None
      else Some (cf_next fs, fs\<lparr>cf_nodes := \<lparr>cn_inode = cf_next fs, cn_parent = p, cn_name = name, cn_files = [], cn_procs = []\<rparr> # cf_nodes fs,
          cf_next := Suc (cf_next fs)\<rparr>))"

text \<open>A group with processes or with groups below it cannot be removed.\<close>

definition rmdir :: "cg_env \<Rightarrow> nat \<Rightarrow> bytes \<Rightarrow> cgroupfs \<Rightarrow> cgroupfs option" where
  "rmdir w p name fs =
     (case child fs p name of
        None \<Rightarrow> None
      | Some n \<Rightarrow>
         (if \<not> ce_call w ''rmdir'' p name \<or> cn_procs n \<noteq> [] \<or> (\<exists>c \<in> set (cf_nodes fs). cn_parent c = cn_inode n) then None
          else Some (fs\<lparr>cf_nodes := filter (\<lambda>c. cn_inode c \<noteq> cn_inode n) (cf_nodes fs)\<rparr>)))"

definition ReadFile :: "cg_env \<Rightarrow> nat \<Rightarrow> bytes \<Rightarrow> cgroupfs \<Rightarrow> bytes option" where
  "ReadFile w i name fs =
     (if \<not> ce_call w ''read'' i name then None
      else case find_node fs i of
        None \<Rightarrow> None
      | Some n \<Rightarrow>
         (if name = ''cgroup.controllers'' then Some (ce_controllers w i)
          else map_option (\<lambda>v. v @ [CHR 0x0A]) (map_of (cn_files n) name)))"

definition events_text :: "cgroupfs \<Rightarrow> nat \<Rightarrow> bytes" where
  "events_text fs i = (if populated fs i then ''populated 1'' else ''populated 0'') @ CHR 0x0A # ''frozen 0'' @ [CHR 0x0A]"

definition write_effect :: "cg_env \<Rightarrow> nat \<Rightarrow> bytes \<Rightarrow> bytes \<Rightarrow> cgroupfs \<Rightarrow> cgroupfs" where
  "write_effect w i name v fs =
     (if name = ''cgroup.kill'' then change (subtree fs i) (cn_procs_update (map (\<lambda>(pid, _). (pid, True)))) fs
      else if name = ''cgroup.procs'' then
        change {i} (cn_procs_update (\<lambda>ps. (v, False) # ps)) (change UNIV (cn_procs_update (filter (\<lambda>(pid, _). pid \<noteq> v))) fs)
      else change {i} (cn_files_update (\<lambda>fl. (name, ce_store w name v) # fl)) fs)"

definition writeCgroupValue :: "cg_env \<Rightarrow> nat \<Rightarrow> bytes \<Rightarrow> bytes \<Rightarrow> cgroupfs \<Rightarrow> bool \<times> cgroupfs" where
  "writeCgroupValue w i name v fs =
     (if \<not> live fs i \<or> \<not> ce_call w ''open'' i name then (False, fs)
      else if \<not> ce_call w ''write'' i name then (False, fs)
      else (True, write_effect w i name v fs))"

section \<open>Groups of a Sandbox\<close>

text \<open>\<open>gr_parent\<close> is \<open>None\<close> after \<open>close\<close>; \<open>gr_directory\<close> is the identity of the directory that was created.\<close>

record cgroup =
  gr_parent :: "nat option"
  gr_group :: "nat option"
  gr_name :: bytes
  gr_directory :: "nat option"

definition cgroup_name :: "cg_env \<Rightarrow> nat \<Rightarrow> bytes" where
  "cgroup_name w root = ''sandboxd-'' @ decimal (ce_pid w) @ ''-'' @ ce_random w root"

definition newCgroup :: "cg_env \<Rightarrow> nat \<Rightarrow> cgroupfs \<Rightarrow> cgroup option \<times> bool \<times> cgroupfs" where
  "newCgroup w root fs =
     (if \<not> ce_call w ''openroot'' root ''.'' then (None, False, fs)
      else let name = cgroup_name w root in
      case mkdir w root name fs of
        None \<Rightarrow> (None, False, fs)
      | Some (i, fs1) \<Rightarrow>
         (let created = \<lparr>gr_parent = Some root, gr_group = None, gr_name = name, gr_directory = None\<rparr> in
          if \<not> ce_call w ''lstat'' root name then (Some created, False, fs1)
          else let created = created\<lparr>gr_directory := Some i\<rparr> in
          if \<not> ce_call w ''openroot'' root name then (Some created, False, fs1)
          else (Some (created\<lparr>gr_group := Some i\<rparr>), ce_call w ''open'' i ''cgroup.kill'' \<and> ce_call w ''close'' i ''cgroup.kill'', fs1)))"

definition contains_text :: "bytes \<Rightarrow> bytes \<Rightarrow> bool" where
  "contains_text s t \<longleftrightarrow> (\<exists>r \<in> set [0..<Suc (length s)]. has_prefix (drop r s) t)"

definition enableCgroupControllers :: "cg_env \<Rightarrow> nat \<Rightarrow> cgroupfs \<Rightarrow> bool \<times> cgroupfs" where
  "enableCgroupControllers w i fs =
     (case ReadFile w i ''cgroup.controllers'' fs of
        None \<Rightarrow> (False, fs)
      | Some contents \<Rightarrow>
         (let available = '' '' @ join_with (CHR '' '') (Fields contents) @ '' '' in
          if \<exists>controller \<in> set [''cpu'', ''memory'', ''pids'']. \<not> contains_text available ('' '' @ controller @ '' '') then (False, fs)
          else writeCgroupValue w i ''cgroup.subtree_control'' ''+cpu +memory +pids'' fs))"

definition set_value :: "cg_env \<Rightarrow> nat \<Rightarrow> bytes \<Rightarrow> bytes \<Rightarrow> cgroupfs \<Rightarrow> bool \<times> cgroupfs" where
  "set_value w i name v fs =
     (case writeCgroupValue w i name v fs of
        (False, fs1) \<Rightarrow> (False, fs1)
      | (True, fs1) \<Rightarrow>
         (case ReadFile w i name fs1 of
            None \<Rightarrow> (False, fs1)
          | Some actual \<Rightarrow> (join_with (CHR '' '') (Fields actual) = v, fs1)))"

definition attach :: "cg_env \<Rightarrow> nat \<Rightarrow> nat \<Rightarrow> cgroupfs \<Rightarrow> bool \<times> cgroupfs" where
  "attach w i pid fs = writeCgroupValue w i ''cgroup.procs'' (decimal pid) fs"

section \<open>Killing and removing\<close>

definition reap_killed :: "(bytes \<Rightarrow> bool) \<Rightarrow> nat \<Rightarrow> cgroupfs \<Rightarrow> cgroupfs" where
  "reap_killed gone i fs = change (subtree fs i) (cn_procs_update (filter (\<lambda>(pid, killed). \<not> (killed \<and> gone pid)))) fs"

function kill_loop :: "cg_env \<Rightarrow> nat \<Rightarrow> nat \<Rightarrow> nat \<Rightarrow> cgroupfs \<Rightarrow> bool \<times> cgroupfs" where
  "kill_loop w i r elapsed fs =
     (let fs1 = reap_killed (ce_exits w i r) i fs in
      if \<not> ce_poll w i r \<or> \<not> live fs1 i then (False, fs1)
      else if ''populated 0'' \<in> set (split_on (CHR 0x0A) (events_text fs1 i)) then (True, fs1)
      else if elapsed > 3000 then (False, fs1)
      else kill_loop w i (Suc r) (elapsed + 10 + ce_delay w i r) fs1)"
  by pat_completeness auto
termination by (relation "measure (\<lambda>(w, i, r, elapsed, fs). 3001 - elapsed)") auto

declare kill_loop.simps [simp del]

definition killAndWait :: "cg_env \<Rightarrow> nat \<Rightarrow> cgroupfs \<Rightarrow> bool \<times> cgroupfs" where
  "killAndWait w i fs =
     (case writeCgroupValue w i ''cgroup.kill'' ''1'' fs of
        (False, fs1) \<Rightarrow> (False, fs1)
      | (True, fs1) \<Rightarrow> kill_loop w i 0 0 fs1)"

definition close_group :: "cg_env \<Rightarrow> cgroup \<Rightarrow> cgroupfs \<Rightarrow> bool \<times> cgroup \<times> cgroupfs" where
  "close_group w g fs =
     (case gr_parent g of
        None \<Rightarrow> (True, g, fs)
      | Some p \<Rightarrow>
         (case (if ce_call w ''lstat'' p (gr_name g) then child fs p (gr_name g) else None) of
            None \<Rightarrow> (False, g, fs)
          | Some current \<Rightarrow>
             (if gr_directory g \<noteq> Some (cn_inode current) then (False, g, fs)
              else case (case gr_group g of None \<Rightarrow> (True, fs) | Some i \<Rightarrow> killAndWait w i fs) of
                (False, fs1) \<Rightarrow> (False, g, fs1)
              | (True, fs1) \<Rightarrow>
                 (case rmdir w p (gr_name g) fs1 of
                    None \<Rightarrow> (False, g, fs1)
                  | Some fs2 \<Rightarrow> (True, g\<lparr>gr_parent := None\<rparr>, fs2)))))"

record sandboxCgroups =
  sc_budget :: "cgroup option"
  sc_init :: "cgroup option"
  sc_execution :: "cgroup option"

definition close_slot :: "cg_env \<Rightarrow> cgroup option \<Rightarrow> cgroupfs \<Rightarrow> bool \<times> cgroup option \<times> cgroupfs" where
  "close_slot w slot fs =
     (case slot of
        None \<Rightarrow> (True, None, fs)
      | Some g \<Rightarrow> (case close_group w g fs of (ok, g', fs1) \<Rightarrow> (ok, Some g', fs1)))"

definition close_tree :: "cg_env \<Rightarrow> sandboxCgroups \<Rightarrow> cgroupfs \<Rightarrow> bool \<times> sandboxCgroups \<times> cgroupfs" where
  "close_tree w t fs =
     (case close_slot w (sc_execution t) fs of (ok1, e, fs1) \<Rightarrow>
        let t1 = t\<lparr>sc_execution := e\<rparr> in
        if \<not> ok1 then (False, t1, fs1)
        else case close_slot w (sc_init t1) fs1 of (ok2, i, fs2) \<Rightarrow>
          let t2 = t1\<lparr>sc_init := i\<rparr> in
          if \<not> ok2 then (False, t2, fs2)
          else case close_slot w (sc_budget t2) fs2 of (ok3, b, fs3) \<Rightarrow> (ok3, t2\<lparr>sc_budget := b\<rparr>, fs3))"

section \<open>Creating\<close>

definition budget_settings :: "ResourceBudget \<Rightarrow> (bytes \<times> bytes) list" where
  "budget_settings budget =
     [(''cpu.max'', signed_decimal (CPUMillis budget * 100) @ '' 100000''), (''memory.max'', signed_decimal (MemoryBytes budget)),
      (''memory.swap.max'', signed_decimal (SwapBytes budget)), (''pids.max'', signed_decimal (PIDs budget))]"

fun set_all :: "cg_env \<Rightarrow> nat \<Rightarrow> (bytes \<times> bytes) list \<Rightarrow> cgroupfs \<Rightarrow> bool \<times> cgroupfs" where
  "set_all w i [] fs = (True, fs)"
| "set_all w i ((name, v) # settings) fs =
     (case set_value w i name v fs of
        (False, fs1) \<Rightarrow> (False, fs1)
      | (True, fs1) \<Rightarrow> set_all w i settings fs1)"

text \<open>\<^verbatim>\<open>0x63677270\<close> is the magic number of cgroup v2.\<close>

definition newSandboxCgroups :: "cg_env \<Rightarrow> bytes \<Rightarrow> ResourceBudget \<Rightarrow> cgroupfs \<Rightarrow> sandboxCgroups option \<times> bool \<times> cgroupfs" where
  "newSandboxCgroups w directory budget fs =
     (if \<not> is_abs directory then (None, False, fs)
      else if \<not> openRuntimeOwnedRoot (ce_euid w) (ce_info w) (ce_opens w) then (None, False, fs)
      else if ce_statfs w \<noteq> Some 0x63677270 then (None, False, fs)
      else case enableCgroupControllers w (ce_root w) fs of
        (False, fs1) \<Rightarrow> (None, False, fs1)
      | (True, fs1) \<Rightarrow>
         (case newCgroup w (ce_root w) fs1 of
            (b, False, fs2) \<Rightarrow> (Some \<lparr>sc_budget = b, sc_init = None, sc_execution = None\<rparr>, False, fs2)
          | (b, True, fs2) \<Rightarrow>
             (let tree = \<lparr>sc_budget = b, sc_init = None, sc_execution = None\<rparr>; i = the (gr_group (the b)) in
              case set_all w i (budget_settings budget) fs2 of
                (False, fs3) \<Rightarrow> (Some tree, False, fs3)
              | (True, fs3) \<Rightarrow>
                 (case enableCgroupControllers w i fs3 of
                    (False, fs4) \<Rightarrow> (Some tree, False, fs4)
                  | (True, fs4) \<Rightarrow>
                     (case newCgroup w i fs4 of (g, ok, fs5) \<Rightarrow> (Some (tree\<lparr>sc_init := g\<rparr>), ok, fs5))))))"

section \<open>What the operations leave alone\<close>

text \<open>The directories, with their parent and name.\<close>

definition dirs :: "cgroupfs \<Rightarrow> (nat \<times> nat \<times> bytes) list" where
  "dirs fs = map (\<lambda>n. (cn_inode n, cn_parent n, cn_name n)) (cf_nodes fs)"

definition same_dirs :: "cgroupfs \<Rightarrow> cgroupfs \<Rightarrow> bool" where
  "same_dirs fs fs' \<longleftrightarrow> dirs fs' = dirs fs \<and> cf_next fs' = cf_next fs"

text \<open>Outside \<open>A\<close>, no group changes.\<close>

definition kept :: "nat set \<Rightarrow> cgroupfs \<Rightarrow> cgroupfs \<Rightarrow> bool" where
  "kept A fs fs' \<longleftrightarrow> same_dirs fs fs' \<and> (\<forall>n \<in> set (cf_nodes fs). cn_inode n \<notin> A \<longrightarrow> n \<in> set (cf_nodes fs'))"

lemma same_dirs_refl [simp]: "same_dirs fs fs"
  by (simp add: same_dirs_def)

lemma same_dirs_trans [trans]: "same_dirs a b \<Longrightarrow> same_dirs b c \<Longrightarrow> same_dirs a c"
  by (simp add: same_dirs_def)

lemma kept_refl [simp]: "kept A fs fs"
  by (simp add: kept_def)

lemma kept_trans: "kept A a b \<Longrightarrow> kept A b c \<Longrightarrow> kept A a c"
  by (auto simp: kept_def intro: same_dirs_trans)

lemma kept_change:
  assumes "\<And>n. cn_inode (f n) = cn_inode n" and "\<And>n. cn_parent (f n) = cn_parent n" and "\<And>n. cn_name (f n) = cn_name n"
  shows "kept A fs (change A f fs)"
  by (auto simp: kept_def same_dirs_def dirs_def change_def assms intro: rev_image_eqI)

lemma below_shape: "map (\<lambda>n. (cn_inode n, cn_parent n)) ns = map (\<lambda>n. (cn_inode n, cn_parent n)) ms \<Longrightarrow> below i ns = below i ms"
proof (induction ns arbitrary: ms)
  case (Cons n ns)
  then obtain m rest where m: "ms = m # rest" by (cases ms) simp_all
  have e: "cn_inode n = cn_inode m" "cn_parent n = cn_parent m" using Cons.prems by (simp_all add: m)
  have "below i ns = below i rest" by (rule Cons.IH) (use Cons.prems in \<open>simp add: m\<close>)
  then show ?case by (simp only: m below.simps e)
qed simp

lemma subtree_same: "same_dirs fs fs' \<Longrightarrow> subtree fs' i = subtree fs i"
proof -
  assume "same_dirs fs fs'"
  then have "map (\<lambda>(j, p, _). (j, p)) (dirs fs') = map (\<lambda>(j, p, _). (j, p)) (dirs fs)" by (simp add: same_dirs_def)
  then show ?thesis unfolding subtree_def by (intro arg_cong [where f = set] below_shape) (simp add: dirs_def comp_def)
qed

lemma live_dirs: "live fs i \<longleftrightarrow> i \<in> fst ` set (dirs fs)"
  by (auto simp: live_def dirs_def image_iff)

lemma child_dirs: "map_option cn_inode (child fs p name) = map_option fst (find (\<lambda>(i, q, m). q = p \<and> m = name) (dirs fs))"
proof -
  have "map_option cn_inode (find (\<lambda>n. cn_parent n = p \<and> cn_name n = name) ns) =
      map_option fst (find (\<lambda>(i, q, m). q = p \<and> m = name) (map (\<lambda>n. (cn_inode n, cn_parent n, cn_name n)) ns))" for ns
    by (induction ns) simp_all
  then show ?thesis by (simp add: child_def dirs_def)
qed

lemma kept_kill_loop: "kill_loop w i r elapsed fs = (ok, fs') \<Longrightarrow> kept (subtree fs i) fs fs'"
proof (induction w i r elapsed fs rule: kill_loop.induct)
  case (1 w i r elapsed fs)
  let ?fs = "reap_killed (ce_exits w i r) i fs"
  have rp: "kept (subtree fs i) fs ?fs" unfolding reap_killed_def by (rule kept_change) simp_all
  have s: "subtree ?fs i = subtree fs i" using rp subtree_same unfolding kept_def by blast
  show ?case
  proof (cases "\<not> ce_poll w i r \<or> \<not> live ?fs i \<or> ''populated 0'' \<in> set (split_on (CHR 0x0A) (events_text ?fs i)) \<or> elapsed > 3000")
    case True
    then have "fs' = ?fs" using 1(2) by (auto simp: kill_loop.simps [of w i r] Let_def split: if_splits)
    then show ?thesis using rp by simp
  next
    case False
    then have "kill_loop w i (Suc r) (elapsed + 10 + ce_delay w i r) ?fs = (ok, fs')"
      using 1(2) by (simp add: kill_loop.simps [of w i r] Let_def)
    then have "kept (subtree ?fs i) ?fs fs'" using 1(1) False by blast
    then show ?thesis using rp s kept_trans by metis
  qed
qed

lemma kept_write:
  assumes "writeCgroupValue w i name v fs = (ok, fs')" and "name \<noteq> ''cgroup.procs''"
  shows "kept (if name = ''cgroup.kill'' then subtree fs i else {i}) fs fs'"
  using assms by (auto simp: writeCgroupValue_def write_effect_def intro: kept_change split: if_splits)

lemma same_write: "writeCgroupValue w i name v fs = (ok, fs') \<Longrightarrow> same_dirs fs fs'"
proof -
  have c: "same_dirs fs (change A f fs)" if "\<And>n. cn_inode (f n) = cn_inode n" "\<And>n. cn_parent (f n) = cn_parent n" "\<And>n. cn_name (f n) = cn_name n" for A f fs
    using kept_change [of f A fs] that by (simp add: kept_def)
  have p: "same_dirs fs (write_effect w i name v fs)"
    unfolding write_effect_def by (auto intro!: c intro: same_dirs_trans [OF c c])
  assume "writeCgroupValue w i name v fs = (ok, fs')"
  then show ?thesis using p by (auto simp: writeCgroupValue_def split: if_splits)
qed

lemma kept_killAndWait: "killAndWait w i fs = (ok, fs') \<Longrightarrow> kept (subtree fs i) fs fs'"
proof -
  assume a: "killAndWait w i fs = (ok, fs')"
  obtain b fs1 where w: "writeCgroupValue w i ''cgroup.kill'' ''1'' fs = (b, fs1)" by fastforce
  have kp: "kept (subtree fs i) fs fs1" using kept_write [OF w] by simp
  then have "subtree fs1 i = subtree fs i" using subtree_same unfolding kept_def by blast
  then show ?thesis using a w kp kept_kill_loop kept_trans unfolding killAndWait_def by (cases b) (auto, metis)
qed

lemma same_set_value: "set_value w i name v fs = (ok, fs') \<Longrightarrow> same_dirs fs fs'"
  unfolding set_value_def using same_write by (fastforce split: prod.splits bool.splits option.splits)

lemma same_enable: "enableCgroupControllers w i fs = (ok, fs') \<Longrightarrow> same_dirs fs fs'"
  unfolding enableCgroupControllers_def using same_write by (auto simp: Let_def split: option.splits if_splits)

lemma same_set_all: "set_all w i settings fs = (ok, fs') \<Longrightarrow> same_dirs fs fs'"
proof (induction settings arbitrary: fs)
  case (Cons s settings)
  obtain name v where s: "s = (name, v)" by fastforce
  obtain b fs1 where v: "set_value w i name v fs = (b, fs1)" by fastforce
  show ?case using Cons same_set_value [OF v] v s by (cases b) (auto intro: same_dirs_trans)
qed simp

text \<open>\<open>killAndWait\<close> always returns (its clock advances by every sleep), and success means that nothing runs below the group.\<close>

lemma populated_text: "''populated 0'' \<in> set (split_on (CHR 0x0A) (events_text fs i)) \<longleftrightarrow> \<not> populated fs i"
  by (simp add: events_text_def)

lemma killed_group_is_empty: "killAndWait w i fs = (True, fs') \<Longrightarrow> \<not> populated fs' i"
proof -
  have "kill_loop w i r elapsed fs = (True, fs') \<Longrightarrow> \<not> populated fs' i" for r elapsed fs
  proof (induction w i r elapsed fs rule: kill_loop.induct)
    case (1 w i r elapsed fs)
    let ?fs = "reap_killed (ce_exits w i r) i fs"
    show ?case
    proof (cases "\<not> ce_poll w i r \<or> \<not> live ?fs i \<or> ''populated 0'' \<in> set (split_on (CHR 0x0A) (events_text ?fs i)) \<or> elapsed > 3000")
      case True
      then show ?thesis using 1(2) by (auto simp: kill_loop.simps [of w i r] Let_def populated_text split: if_splits)
    next
      case False
      then have "kill_loop w i (Suc r) (elapsed + 10 + ce_delay w i r) ?fs = (True, fs')"
        using 1(2) by (simp add: kill_loop.simps [of w i r] Let_def)
      then show ?thesis using 1(1) False by blast
    qed
  qed
  then show "killAndWait w i fs = (True, fs') \<Longrightarrow> \<not> populated fs' i" by (auto simp: killAndWait_def split: prod.splits bool.splits)
qed

section \<open>Creating and closing a group\<close>

text \<open>The table lists every group once, newest first, below an older parent.\<close>

definition well_formed :: "cgroupfs \<Rightarrow> bool" where
  "well_formed fs \<longleftrightarrow> sorted_wrt (>) (map fst (dirs fs)) \<and> (\<forall>(i, p, name) \<in> set (dirs fs). p < i \<and> i < cf_next fs)"

lemma well_formed_same: "same_dirs fs fs' \<Longrightarrow> well_formed fs' = well_formed fs"
  by (simp add: well_formed_def same_dirs_def)

text \<open>What a new group is: a directory of its own, whose identity may not have been observed.\<close>

definition group_at :: "cgroup \<Rightarrow> nat \<Rightarrow> nat \<Rightarrow> bool" where
  "group_at g p i \<longleftrightarrow> gr_parent g = Some p \<and> gr_directory g \<in> {None, Some i} \<and> gr_group g \<in> {None, Some i}"

lemma newCgroup_result:
  assumes "newCgroup w root fs = (c, ok, fs')" and "well_formed fs"
  shows "(c = None \<and> \<not> ok \<and> fs' = fs) \<or>
    (\<exists>g i. c = Some g \<and> group_at g root i \<and> (ok \<longrightarrow> gr_group g = Some i) \<and> dirs fs' = (i, root, gr_name g) # dirs fs \<and>
       cf_nodes fs' = \<lparr>cn_inode = i, cn_parent = root, cn_name = gr_name g, cn_files = [], cn_procs = []\<rparr> # cf_nodes fs \<and>
       i = cf_next fs \<and> root < i \<and> well_formed fs')"
proof (cases "c = None")
  case True
  then show ?thesis using assms(1) by (auto simp: newCgroup_def Let_def split: if_splits option.splits)
next
  case False
  let ?name = "cgroup_name w root" and ?i = "cf_next fs"
  let ?fs = "fs\<lparr>cf_nodes := \<lparr>cn_inode = ?i, cn_parent = root, cn_name = ?name, cn_files = [], cn_procs = []\<rparr> # cf_nodes fs, cf_next := Suc ?i\<rparr>"
  obtain i fs1 where "mkdir w root ?name fs = Some (i, fs1)"
    using assms(1) False by (auto simp: newCgroup_def Let_def split: if_splits option.splits)
  then have m: "mkdir w root ?name fs = Some (?i, ?fs)" and l: "live fs root" by (auto simp: mkdir_def split: if_splits)
  obtain g where g: "c = Some g" "group_at g root ?i" "gr_name g = ?name" "ok \<longrightarrow> gr_group g = Some ?i" "fs' = ?fs"
    using assms(1) False unfolding newCgroup_def Let_def m by (auto simp: group_at_def split: if_splits)
  have r: "root < ?i" using l assms(2) by (auto simp: live_dirs well_formed_def)
  have d: "dirs ?fs = (?i, root, ?name) # dirs fs" by (simp add: dirs_def)
  have "well_formed ?fs" using assms(2) r by (auto simp: well_formed_def d)
  then show ?thesis using g r d by (intro disjI2 exI [of _ g] exI [of _ ?i]) simp
qed

lemma rmdir_result:
  assumes "rmdir w p name fs = Some fs'"
  obtains n where "child fs p name = Some n" "cn_procs n = []" "dirs fs' = filter (\<lambda>d. fst d \<noteq> cn_inode n) (dirs fs)"
    "cf_nodes fs' = filter (\<lambda>c. cn_inode c \<noteq> cn_inode n) (cf_nodes fs)" "cf_next fs' = cf_next fs"
proof -
  obtain n where n: "child fs p name = Some n" "cn_procs n = []" "fs' = fs\<lparr>cf_nodes := filter (\<lambda>c. cn_inode c \<noteq> cn_inode n) (cf_nodes fs)\<rparr>"
    using assms by (auto simp: rmdir_def split: option.splits if_splits)
  then show thesis using that by (simp add: dirs_def filter_map comp_def)
qed

text \<open>
  Closing a group either ends with its own directory removed, or keeps the group and every directory.
  Nothing outside the group and what is below it changes.
\<close>

lemma close_group_result:
  assumes "close_group w g fs = (ok, g', fs')" and "group_at g p i"
  shows "(\<not> ok \<and> g' = g \<and> kept (subtree fs i) fs fs') \<or>
    (ok \<and> g' = g\<lparr>gr_parent := None\<rparr> \<and> gr_directory g = Some i \<and> cf_next fs' = cf_next fs \<and>
       dirs fs' = filter (\<lambda>d. fst d \<noteq> i) (dirs fs) \<and> (\<forall>n \<in> set (cf_nodes fs). cn_inode n \<notin> insert i (subtree fs i) \<longrightarrow> n \<in> set (cf_nodes fs')))"
proof -
  let ?current = "if ce_call w ''lstat'' p (gr_name g) then child fs p (gr_name g) else None"
  have p: "gr_parent g = Some p" using assms(2) by (simp add: group_at_def)
  show ?thesis
  proof (cases "\<exists>n. ?current = Some n \<and> gr_directory g = Some (cn_inode n)")
    case False
    then have "close_group w g fs = (False, g, fs)" unfolding close_group_def p by (auto split: option.splits)
    then show ?thesis using assms(1) by simp
  next
    case True
    then obtain n where n: "?current = Some n" "gr_directory g = Some (cn_inode n)" by blast
    then have i: "cn_inode n = i" "gr_directory g = Some i" and c: "child fs p (gr_name g) = Some n"
      using assms(2) by (auto simp: group_at_def split: if_splits)
    obtain b fs1 where st: "(case gr_group g of None \<Rightarrow> (True, fs) | Some i \<Rightarrow> killAndWait w i fs) = (b, fs1)" by fastforce
    have kp: "kept (subtree fs i) fs fs1" using st assms(2) kept_killAndWait by (auto simp: group_at_def)
    have e: "close_group w g fs = (if \<not> b then (False, g, fs1)
        else case rmdir w p (gr_name g) fs1 of None \<Rightarrow> (False, g, fs1) | Some fs2 \<Rightarrow> (True, g\<lparr>gr_parent := None\<rparr>, fs2))"
      unfolding close_group_def p option.case n(1) st using n(2) by (simp split: bool.splits)
    show ?thesis
    proof (cases "b \<and> rmdir w p (gr_name g) fs1 \<noteq> None")
      case False
      then have "close_group w g fs = (False, g, fs1)" unfolding e by auto
      then show ?thesis using assms(1) kp by simp
    next
      case True
      then obtain fs2 where b: b and rm: "rmdir w p (gr_name g) fs1 = Some fs2" by blast
      have fin: "ok" "g' = g\<lparr>gr_parent := None\<rparr>" "fs' = fs2" using assms(1) b rm unfolding e by simp_all
      obtain m where m: "child fs1 p (gr_name g) = Some m" "dirs fs2 = filter (\<lambda>d. fst d \<noteq> cn_inode m) (dirs fs1)"
        "cf_nodes fs2 = filter (\<lambda>c. cn_inode c \<noteq> cn_inode m) (cf_nodes fs1)" "cf_next fs2 = cf_next fs1"
        by (rule rmdir_result [OF rm])
      have same: "dirs fs1 = dirs fs" "cf_next fs1 = cf_next fs" using kp by (simp_all add: kept_def same_dirs_def)
      have "map_option cn_inode (child fs1 p (gr_name g)) = map_option cn_inode (child fs p (gr_name g))"
        by (simp only: child_dirs same(1))
      then have "cn_inode m = i" using c m(1) i(1) by simp
      then show ?thesis using fin m same i(2) kp by (auto simp: kept_def)
    qed
  qed
qed

lemma close_group_again: "close_group w g fs = (True, g', fs') \<Longrightarrow> close_group v g' fs2 = (True, g', fs2)"
proof -
  assume "close_group w g fs = (True, g', fs')"
  then have "gr_parent g' = None"
    by (cases "gr_parent g") (auto simp: close_group_def split: option.splits if_splits prod.splits bool.splits)
  then show ?thesis by (simp add: close_group_def)
qed

section \<open>The life of a Sandbox\<close>

text \<open>The directories a slot of the tree stands for.\<close>

definition slot_dirs :: "cgroup option \<Rightarrow> (nat \<times> nat \<times> bytes) list \<Rightarrow> bool" where
  "slot_dirs slot ds \<longleftrightarrow> (case slot of
       None \<Rightarrow> ds = []
     | Some g \<Rightarrow> (case gr_parent g of
         None \<Rightarrow> ds = []
       | Some p \<Rightarrow> \<exists>i. group_at g p i \<and> ds = [(i, p, gr_name g)]))"

text \<open>The table is the one before the Sandbox, below the groups of the Sandbox.\<close>

definition owns :: "cgroupfs \<Rightarrow> sandboxCgroups \<Rightarrow> cgroupfs \<Rightarrow> bool" where
  "owns base t fs \<longleftrightarrow> well_formed base \<and> well_formed fs \<and> cf_next base \<le> cf_next fs \<and>
     (\<exists>e n b. slot_dirs (sc_execution t) e \<and> slot_dirs (sc_init t) n \<and> slot_dirs (sc_budget t) b \<and>
        dirs fs = e @ n @ b @ dirs base \<and> (\<forall>d \<in> set (e @ n @ b). cf_next base \<le> fst d))"

lemma owns_same: "owns base t fs \<Longrightarrow> same_dirs fs fs' \<Longrightarrow> owns base t fs'"
  using well_formed_same [of fs fs'] unfolding owns_def by (simp add: same_dirs_def)

lemma below_older: "\<forall>n \<in> set ns. cn_inode n \<noteq> i \<Longrightarrow> below i ns = []"
  by (induction ns) simp_all

lemma below_append: "below i ms = [] \<Longrightarrow> set (below i (ns @ ms)) \<subseteq> cn_inode ` set ns"
  by (induction ns) (auto simp: Let_def)

lemma subtree_new:
  assumes "dirs fs = new @ dirs base" and "i \<notin> fst ` set (dirs base)" and "well_formed fs"
  shows "subtree fs i \<subseteq> fst ` set new"
proof -
  obtain ns ms where n: "cf_nodes fs = ns @ ms" "new = map (\<lambda>n. (cn_inode n, cn_parent n, cn_name n)) ns"
      "dirs base = map (\<lambda>n. (cn_inode n, cn_parent n, cn_name n)) ms"
    using assms(1) unfolding dirs_def map_eq_append_conv by blast
  have "\<forall>m \<in> set ms. cn_inode m \<noteq> i" using assms(2) by (force simp: n(3))
  then show ?thesis using below_append [OF below_older, of ms i ns] by (simp add: subtree_def n(1,2) image_image)
qed

text \<open>Closing the slot whose directory is on top.\<close>

lemma close_slot_result:
  assumes "close_slot w slot fs = (ok, slot', fs')" and "slot_dirs slot ds" and "dirs fs = ds @ rest" and "well_formed fs"
    and "rest = lower @ dirs base" and "\<forall>d \<in> set (ds @ lower). cf_next base \<le> fst d" and "well_formed base" and "cf_next base \<le> cf_next fs"
  shows "(\<forall>n \<in> set (cf_nodes fs). cn_inode n \<in> fst ` set (dirs base) \<longrightarrow> n \<in> set (cf_nodes fs')) \<and> cf_next fs' = cf_next fs \<and> well_formed fs' \<and>
    (if ok then slot_dirs slot' [] \<and> dirs fs' = rest \<and> (\<forall>v fs2. close_slot v slot' fs2 = (True, slot', fs2))
     else slot_dirs slot' ds \<and> dirs fs' = dirs fs)"
proof (cases "ds = []")
  case True
  then have "close_slot w slot fs = (True, slot, fs) \<and> (\<forall>v fs2. close_slot v slot fs2 = (True, slot, fs2))"
    using assms(2) by (auto simp: slot_dirs_def close_slot_def close_group_def split: option.splits)
  then show ?thesis using assms True by auto
next
  case False
  then obtain g p i where g: "slot = Some g" "group_at g p i" "ds = [(i, p, gr_name g)]" and gp: "gr_parent g = Some p"
    using assms(2) by (auto simp: slot_dirs_def split: option.splits)
  obtain g' where c: "close_group w g fs = (ok, g', fs')" and s': "slot' = Some g'"
    using assms(1) g(1) by (auto simp: close_slot_def split: prod.splits)
  have new: "i \<notin> fst ` set (dirs base)"
    using assms(6,7) by (force simp: g(3) well_formed_def)
  have "subtree fs i \<subseteq> fst ` set (ds @ lower)"
    by (rule subtree_new) (use assms(3-5) new in simp_all)
  moreover have "fst ` set (ds @ lower) \<inter> fst ` set (dirs base) = {}"
    using assms(6,7) by (fastforce simp: well_formed_def)
  ultimately have apart: "insert i (subtree fs i) \<inter> fst ` set (dirs base) = {}" using new by blast
  show ?thesis
  proof (cases ok)
    case True
    then have r: "g' = g\<lparr>gr_parent := None\<rparr>" "cf_next fs' = cf_next fs" "dirs fs' = filter (\<lambda>d. fst d \<noteq> i) (dirs fs)"
      "\<forall>n \<in> set (cf_nodes fs). cn_inode n \<notin> insert i (subtree fs i) \<longrightarrow> n \<in> set (cf_nodes fs')"
      using close_group_result [OF c g(2)] by simp_all
    have top: "\<forall>d \<in> set rest. fst d < i" using assms(3,4) by (auto simp: well_formed_def g(3))
    then have "filter (\<lambda>d. fst d \<noteq> i) rest = rest" by (intro filter_True) auto
    then have d: "dirs fs' = rest" using r(3) assms(3) by (simp add: g(3))
    have "well_formed fs'" using assms(3,4) r(2) d by (auto simp: well_formed_def sorted_wrt_append)
    moreover have "close_slot v slot' fs2 = (True, slot', fs2)" for v fs2
      unfolding s' close_slot_def using close_group_again c True by simp
    moreover have "slot_dirs slot' []" by (simp add: slot_dirs_def s' r(1))
    moreover have "\<forall>n \<in> set (cf_nodes fs). cn_inode n \<in> fst ` set (dirs base) \<longrightarrow> n \<in> set (cf_nodes fs')" using r(4) apart by blast
    ultimately show ?thesis using True r(2) d by simp
  next
    case False
    then have r: "g' = g" "kept (subtree fs i) fs fs'" using close_group_result [OF c g(2)] by simp_all
    then have "same_dirs fs fs'" by (simp add: kept_def)
    moreover have "\<forall>n \<in> set (cf_nodes fs). cn_inode n \<in> fst ` set (dirs base) \<longrightarrow> n \<in> set (cf_nodes fs')"
      using r(2) apart unfolding kept_def by blast
    ultimately show ?thesis using False r(1) s' g(1) assms(2,4) well_formed_same [of fs fs'] by (simp add: same_dirs_def)
  qed
qed

text \<open>Closing the whole tree, from any state it owns.\<close>

definition holds_dir :: "sandboxCgroups \<Rightarrow> nat \<times> nat \<times> bytes \<Rightarrow> bool" where
  "holds_dir t d \<longleftrightarrow> (\<exists>g. Some g \<in> {sc_execution t, sc_init t, sc_budget t} \<and> gr_parent g = Some (fst (snd d)) \<and> gr_name g = snd (snd d))"

lemma slot_held: "slot_dirs slot ds \<Longrightarrow> d \<in> set ds \<Longrightarrow> \<exists>g. slot = Some g \<and> gr_parent g = Some (fst (snd d)) \<and> gr_name g = snd (snd d)"
  by (auto simp: slot_dirs_def group_at_def split: option.splits)

lemma owns_held:
  assumes "owns base t fs" and "d \<in> set (dirs fs)" and "d \<notin> set (dirs base)"
  shows "holds_dir t d"
proof -
  obtain e n b where s: "slot_dirs (sc_execution t) e" "slot_dirs (sc_init t) n" "slot_dirs (sc_budget t) b" "dirs fs = e @ n @ b @ dirs base"
    using assms(1) unfolding owns_def by blast
  then have "d \<in> set e \<or> d \<in> set n \<or> d \<in> set b" using assms(2,3) by simp
  then show ?thesis using slot_held [OF s(1)] slot_held [OF s(2)] slot_held [OF s(3)] unfolding holds_dir_def by (metis insertCI)
qed

lemma close_tree_result:
  assumes "close_tree w t fs = (ok, t', fs')" and "owns base t fs"
  shows "owns base t' fs' \<and> (ok \<longrightarrow> dirs fs' = dirs base \<and> (\<forall>v. close_tree v t' fs' = (True, t', fs'))) \<and>
    (\<forall>n \<in> set (cf_nodes fs). cn_inode n \<in> fst ` set (dirs base) \<longrightarrow> n \<in> set (cf_nodes fs'))"
proof -
  obtain e n b where s: "slot_dirs (sc_execution t) e" "slot_dirs (sc_init t) n" "slot_dirs (sc_budget t) b"
      "dirs fs = e @ n @ b @ dirs base" "\<forall>d \<in> set (e @ n @ b). cf_next base \<le> fst d"
    and wf: "well_formed base" "well_formed fs" "cf_next base \<le> cf_next fs"
    using assms(2) by (auto simp: owns_def)
  let ?keeps = "\<lambda>a b. \<forall>n \<in> set (cf_nodes a). cn_inode n \<in> fst ` set (dirs base) \<longrightarrow> n \<in> set (cf_nodes b)"
  obtain ok1 e' fs1 where c1: "close_slot w (sc_execution t) fs = (ok1, e', fs1)" by (metis surj_pair)
  note r1 = close_slot_result [OF c1 s(1,4) wf(2), of "n @ b" base]
  have k1: "?keeps fs fs1" "cf_next fs1 = cf_next fs" "well_formed fs1"
    and d1: "if ok1 then slot_dirs e' [] \<and> dirs fs1 = n @ b @ dirs base \<and> (\<forall>v fs2. close_slot v e' fs2 = (True, e', fs2))
      else slot_dirs e' e \<and> dirs fs1 = dirs fs"
    using r1 s(5) wf by simp_all
  show ?thesis
  proof (cases ok1)
    case False
    then have x: "ok = False" "t' = t\<lparr>sc_execution := e'\<rparr>" "fs' = fs1" using assms(1) by (simp_all add: close_tree_def c1)
    have "owns base t' fs'" unfolding owns_def x
      using d1 False s wf k1 by (intro conjI exI [of _ e] exI [of _ n] exI [of _ b]) simp_all
    then show ?thesis using x k1 by simp
  next
    case ok1: True
    obtain ok2 n' fs2 where c2: "close_slot w (sc_init t) fs1 = (ok2, n', fs2)" by (metis surj_pair)
    have f1: "dirs fs1 = n @ b @ dirs base" "slot_dirs e' []" "\<And>v fs2. close_slot v e' fs2 = (True, e', fs2)" using d1 ok1 by simp_all
    note r2 = close_slot_result [OF c2 s(2) f1(1) k1(3), of b base]
    have k2: "?keeps fs1 fs2" "cf_next fs2 = cf_next fs1" "well_formed fs2"
      and d2: "if ok2 then slot_dirs n' [] \<and> dirs fs2 = b @ dirs base \<and> (\<forall>v fs2. close_slot v n' fs2 = (True, n', fs2))
        else slot_dirs n' n \<and> dirs fs2 = dirs fs1"
      using r2 s(5) wf k1(2) by simp_all
    have k12: "?keeps fs fs2" using k1(1) k2(1) by blast
    show ?thesis
    proof (cases ok2)
      case False
      then have x: "ok = False" "t' = t\<lparr>sc_execution := e', sc_init := n'\<rparr>" "fs' = fs2"
        using assms(1) ok1 by (simp_all add: close_tree_def c1 c2)
      have "owns base t' fs'" unfolding owns_def x
        using d2 False f1 s wf k1 k2 by (intro conjI exI [of _ "[]"] exI [of _ n] exI [of _ b]) simp_all
      then show ?thesis using x k12 by simp
    next
      case ok2: True
      obtain ok3 b' fs3 where c3: "close_slot w (sc_budget t) fs2 = (ok3, b', fs3)" by (metis surj_pair)
      have f2: "dirs fs2 = b @ dirs base" "slot_dirs n' []" "\<And>v fs2. close_slot v n' fs2 = (True, n', fs2)" using d2 ok2 by simp_all
      note r3 = close_slot_result [OF c3 s(3) f2(1) k2(3), of "[]" base]
      have k3: "?keeps fs2 fs3" "cf_next fs3 = cf_next fs2" "well_formed fs3"
        and d3: "if ok3 then slot_dirs b' [] \<and> dirs fs3 = dirs base \<and> (\<forall>v fs2. close_slot v b' fs2 = (True, b', fs2))
          else slot_dirs b' b \<and> dirs fs3 = dirs fs2"
        using r3 s(5) wf k1(2) k2(2) by simp_all
      have x: "ok = ok3" "t' = t\<lparr>sc_execution := e', sc_init := n', sc_budget := b'\<rparr>" "fs' = fs3"
        using assms(1) ok1 ok2 by (simp_all add: close_tree_def c1 c2 c3)
      have "owns base t' fs'" unfolding owns_def x
        using d3 f1 f2 s wf k1 k2 k3 by (intro conjI exI [of _ "[]"] exI [of _ "if ok3 then [] else b"]) (simp_all split: if_splits)
      moreover have "close_tree v t' fs' = (True, t', fs')" if ok for v
        using that d3 f1(3) f2(3) unfolding x by (simp add: close_tree_def)
      moreover have "?keeps fs fs'" using k12 k3(1) x(3) by blast
      ultimately show ?thesis using d3 x by simp
    qed
  qed
qed

text \<open>Adding a group.\<close>

lemma new_slot:
  assumes "newCgroup w root fs = (c, ok, fs')" and "well_formed fs"
  shows "well_formed fs' \<and> cf_next fs \<le> cf_next fs' \<and> (\<exists>ds. slot_dirs c ds \<and> dirs fs' = ds @ dirs fs \<and> (\<forall>d \<in> set ds. cf_next fs \<le> fst d)) \<and>
    (ok \<longrightarrow> c \<noteq> None)"
  using newCgroup_result [OF assms]
proof (elim disjE exE conjE)
  assume "c = None" "\<not> ok" "fs' = fs"
  then show ?thesis using assms(2) by (simp add: slot_dirs_def)
next
  fix g i
  assume g: "c = Some g" "group_at g root i" "dirs fs' = (i, root, gr_name g) # dirs fs" "i = cf_next fs" "well_formed fs'"
  have "slot_dirs c [(i, root, gr_name g)]" using g(1,2) by (auto simp: slot_dirs_def group_at_def)
  moreover have "cf_next fs \<le> cf_next fs'" using g(3-5) by (auto simp: well_formed_def)
  ultimately show ?thesis using g by (intro conjI exI [of _ "[(i, root, gr_name g)]"]) simp_all
qed

lemma owns_new_budget:
  assumes "newCgroup w root fs = (c, ok, fs')" and "well_formed fs"
  shows "owns fs \<lparr>sc_budget = c, sc_init = None, sc_execution = None\<rparr> fs'"
proof -
  obtain ds where "slot_dirs c ds" "dirs fs' = ds @ dirs fs" "\<forall>d \<in> set ds. cf_next fs \<le> fst d" using new_slot [OF assms] by blast
  then show ?thesis using new_slot [OF assms] assms(2) unfolding owns_def
    by (intro conjI exI [of _ "[]"] exI [of _ ds]) (simp_all add: slot_dirs_def)
qed

lemma owns_new_init:
  assumes "newCgroup w root fs = (c, ok, fs')" and "owns base t fs" and "sc_init t = None" and "sc_execution t = None"
  shows "owns base (t\<lparr>sc_init := c\<rparr>) fs'"
proof -
  obtain b where b: "slot_dirs (sc_budget t) b" "dirs fs = b @ dirs base" "\<forall>d \<in> set b. cf_next base \<le> fst d"
      and wf: "well_formed base" "well_formed fs" "cf_next base \<le> cf_next fs"
    using assms(2-4) by (auto simp: owns_def slot_dirs_def)
  obtain ds where "slot_dirs c ds" "dirs fs' = ds @ dirs fs" "\<forall>d \<in> set ds. cf_next fs \<le> fst d" using new_slot [OF assms(1) wf(2)] by blast
  then show ?thesis using new_slot [OF assms(1) wf(2)] b wf assms(4) unfolding owns_def
    by (intro conjI exI [of _ "[]"] exI [of _ ds] exI [of _ b]) (auto simp: slot_dirs_def)
qed

lemma owns_new_execution:
  assumes "newCgroup w root fs = (c, ok, fs')" and "owns base t fs" and "sc_execution t = None"
  shows "owns base (t\<lparr>sc_execution := c\<rparr>) fs'"
proof -
  obtain n b where b: "slot_dirs (sc_init t) n" "slot_dirs (sc_budget t) b" "dirs fs = n @ b @ dirs base" "\<forall>d \<in> set (n @ b). cf_next base \<le> fst d"
      and wf: "well_formed base" "well_formed fs" "cf_next base \<le> cf_next fs"
    using assms(2,3) by (auto simp: owns_def slot_dirs_def)
  obtain ds where "slot_dirs c ds" "dirs fs' = ds @ dirs fs" "\<forall>d \<in> set ds. cf_next fs \<le> fst d" using new_slot [OF assms(1) wf(2)] by blast
  then show ?thesis using new_slot [OF assms(1) wf(2)] b wf unfolding owns_def
    by (intro conjI exI [of _ ds] exI [of _ n] exI [of _ b]) auto
qed

lemma owns_close_execution:
  assumes "close_group w e fs = (ok, e', fs')" and "owns base t fs" and "sc_execution t = Some e"
  shows "owns base (t\<lparr>sc_execution := if ok then None else Some e'\<rparr>) fs'"
proof -
  obtain x n b where s: "slot_dirs (sc_execution t) x" "slot_dirs (sc_init t) n" "slot_dirs (sc_budget t) b"
      "dirs fs = x @ n @ b @ dirs base" "\<forall>d \<in> set (x @ n @ b). cf_next base \<le> fst d"
    and wf: "well_formed base" "well_formed fs" "cf_next base \<le> cf_next fs"
    using assms(2) by (auto simp: owns_def)
  have c: "close_slot w (sc_execution t) fs = (ok, Some e', fs')" using assms(1,3) by (simp add: close_slot_def)
  have r: "cf_next fs' = cf_next fs" "well_formed fs'" "if ok then dirs fs' = n @ b @ dirs base else slot_dirs (Some e') x \<and> dirs fs' = dirs fs"
    using close_slot_result [OF c s(1,4) wf(2), of "n @ b" base] s(5) wf by (simp_all split: if_splits)
  have "slot_dirs (if ok then None else Some e') (if ok then [] else x)" using r(3) by (simp add: slot_dirs_def split: if_splits)
  then show ?thesis unfolding owns_def
    using r s wf by (intro conjI exI [of _ "if ok then [] else x"] exI [of _ n] exI [of _ b]) (simp_all split: if_splits)
qed

lemma owns_created:
  assumes "newSandboxCgroups w directory budget base = (Some t, ok, fs)" and "well_formed base"
  shows "owns base t fs \<and> sc_execution t = None"
proof -
  obtain fs1 where e: "enableCgroupControllers w (ce_root w) base = (True, fs1)"
    using assms(1) by (auto simp: newSandboxCgroups_def split: if_splits prod.splits bool.splits)
  have s1: "same_dirs base fs1" by (rule same_enable [OF e])
  have wf1: "well_formed fs1" using well_formed_same [OF s1] assms(2) by simp
  have lift: "owns base u gs" if "owns fs1 u gs" for u gs
    using that s1 assms(2) by (simp add: owns_def same_dirs_def)
  have go: "is_abs directory" "openRuntimeOwnedRoot (ce_euid w) (ce_info w) (ce_opens w)" "ce_statfs w = Some 0x63677270"
    using assms(1) by (auto simp: newSandboxCgroups_def split: if_splits)
  obtain b okb fs2 where b: "newCgroup w (ce_root w) fs1 = (b, okb, fs2)" by (metis surj_pair)
  let ?tree = "\<lparr>sc_budget = b, sc_init = None, sc_execution = None\<rparr>" and ?i = "the (gr_group (the b))"
  have o2: "owns base ?tree fs2" by (rule lift [OF owns_new_budget [OF b wf1]])
  obtain oks fs3 where s: "set_all w ?i (budget_settings budget) fs2 = (oks, fs3)" by (metis surj_pair)
  have o3: "owns base ?tree fs3" by (rule owns_same [OF o2 same_set_all [OF s]])
  obtain oke fs4 where e2: "enableCgroupControllers w ?i fs3 = (oke, fs4)" by (metis surj_pair)
  have o4: "owns base ?tree fs4" by (rule owns_same [OF o3 same_enable [OF e2]])
  obtain g okg fs5 where g: "newCgroup w ?i fs4 = (g, okg, fs5)" by (metis surj_pair)
  have o5: "owns base (?tree\<lparr>sc_init := g\<rparr>) fs5" by (rule owns_new_init [OF g o4]) simp_all
  have "newSandboxCgroups w directory budget base = (if \<not> okb then (Some ?tree, False, fs2) else if \<not> oks then (Some ?tree, False, fs3)
      else if \<not> oke then (Some ?tree, False, fs4) else (Some (?tree\<lparr>sc_init := g\<rparr>), okg, fs5))"
    using go by (cases okb; cases oks; cases oke) (simp_all add: newSandboxCgroups_def e b s e2 g Let_def)
  then show ?thesis using assms(1) o2 o3 o4 o5 by (auto split: if_splits)
qed

text \<open>
  What a Sandbox does with its groups (execution_linux.go): its tree, whether an Execution has its group,
  and whether another Execution may start. Any failure, or the loss of Init, ends the Sandbox: only its
  tear-down closes the tree. Processes come and go in every group.
\<close>

type_synonym sandbox_state = "sandboxCgroups \<times> bool \<times> bool \<times> cgroupfs"

inductive cgroup_step :: "sandbox_state \<Rightarrow> sandbox_state \<Rightarrow> bool" where
  execution: "sc_budget t = Some b \<Longrightarrow> gr_group b = Some i \<Longrightarrow> newCgroup w i fs = (e, ok, fs') \<Longrightarrow>
     cgroup_step (t, False, True, fs) (t\<lparr>sc_execution := e\<rparr>, True, ok, fs')"
| oom_group: "sc_execution t = Some e \<Longrightarrow> gr_group e = Some i \<Longrightarrow> set_value w i ''memory.oom.group'' ''1'' fs = (ok, fs') \<Longrightarrow>
     cgroup_step (t, True, True, fs) (t, True, ok, fs')"
| attached: "sc_execution t = Some e \<Longrightarrow> gr_group e = Some i \<Longrightarrow> attach w i pid fs = (ok, fs') \<Longrightarrow>
     cgroup_step (t, True, True, fs) (t, True, ok, fs')"
| killed: "sc_execution t = Some e \<Longrightarrow> gr_group e = Some i \<Longrightarrow> killAndWait w i fs = (ok, fs') \<Longrightarrow>
     cgroup_step (t, True, True, fs) (t, True, ok, fs')"
| finished: "sc_execution t = Some e \<Longrightarrow> close_group w e fs = (ok, e', fs') \<Longrightarrow>
     cgroup_step (t, True, True, fs) (t\<lparr>sc_execution := if ok then None else Some e'\<rparr>, \<not> ok, ok, fs')"
| lost: "cgroup_step (t, busy, True, fs) (t, busy, False, fs)"
| processes: "cgroup_step (t, busy, alive, fs) (t, busy, alive, change UNIV (\<lambda>n. n\<lparr>cn_procs := ps (cn_inode n)\<rparr>) fs)"

inductive_cases cgroup_stepE: "cgroup_step (t, busy, alive, fs) s"

definition sandbox_owns :: "cgroupfs \<Rightarrow> sandbox_state \<Rightarrow> bool" where
  "sandbox_owns base s = (case s of (t, busy, alive, fs) \<Rightarrow> owns base t fs \<and> (alive \<and> \<not> busy \<longrightarrow> sc_execution t = None))"

lemma sandbox_owns_same:
  "sandbox_owns base (t, busy, True, fs) \<Longrightarrow> same_dirs fs fs' \<Longrightarrow> sandbox_owns base (t, busy, ok, fs')"
  "sandbox_owns base (t, busy, ok, fs) \<Longrightarrow> same_dirs fs fs' \<Longrightarrow> sandbox_owns base (t, busy, ok, fs')"
  using owns_same by (auto simp: sandbox_owns_def)

lemma sandbox_owns_step: "cgroup_step s s' \<Longrightarrow> sandbox_owns base s \<Longrightarrow> sandbox_owns base s'"
proof (induction rule: cgroup_step.induct)
  case (execution t b i w fs e ok fs')
  then show ?case using owns_new_execution [OF execution(3)] by (simp add: sandbox_owns_def)
next
  case (oom_group t e i w fs ok fs')
  then show ?case using sandbox_owns_same(1) same_set_value by blast
next
  case (attached t e i w pid fs ok fs')
  then show ?case using sandbox_owns_same(1) same_write unfolding attach_def by blast
next
  case (killed t e i w fs ok fs')
  then show ?case using sandbox_owns_same(1) kept_killAndWait unfolding kept_def by blast
next
  case (finished t e w fs ok e' fs')
  then show ?case using owns_close_execution [OF finished(2)] by (auto simp: sandbox_owns_def)
next
  case (lost t busy fs)
  then show ?case by (simp add: sandbox_owns_def)
next
  case (processes t busy alive fs ps)
  have "same_dirs fs (change UNIV (\<lambda>n. n\<lparr>cn_procs := ps (cn_inode n)\<rparr>) fs)"
    using kept_change [of "\<lambda>n. n\<lparr>cn_procs := ps (cn_inode n)\<rparr>" UNIV fs] by (simp add: kept_def)
  then show ?case using processes sandbox_owns_same(2) by blast
qed

lemma sandbox_owns_run: "cgroup_step\<^sup>*\<^sup>* s s' \<Longrightarrow> sandbox_owns base s \<Longrightarrow> sandbox_owns base s'"
  by (induction rule: rtranclp_induct) (auto intro: sandbox_owns_step)


section \<open>The limits\<close>

lemma confirmed_value:
  assumes "set_value w i name v fs = (True, fs')" and "name \<noteq> ''cgroup.controllers''" and "name \<noteq> ''cgroup.kill''" and "name \<noteq> ''cgroup.procs''"
  shows "(\<exists>n x. find_node fs' i = Some n \<and> map_of (cn_files n) name = Some x \<and> join_with (CHR '' '') (Fields (x @ [CHR 0x0A])) = v) \<and>
    fs' = change {i} (cn_files_update (\<lambda>fl. (name, ce_store w name v) # fl)) fs"
proof -
  obtain fs1 where w: "writeCgroupValue w i name v fs = (True, fs1)"
    using assms(1) by (auto simp: set_value_def split: prod.splits bool.splits)
  then obtain actual where "ReadFile w i name fs1 = Some actual" "join_with (CHR '' '') (Fields actual) = v" "fs' = fs1"
    using assms(1) by (auto simp: set_value_def split: option.splits)
  moreover have "fs1 = change {i} (cn_files_update (\<lambda>fl. (name, ce_store w name v) # fl)) fs"
    using w assms(3,4) by (simp add: writeCgroupValue_def write_effect_def split: if_splits)
  ultimately show ?thesis using assms(2) by (auto simp: ReadFile_def split: if_splits option.splits)
qed

definition confirmed :: "cgroupfs \<Rightarrow> nat \<Rightarrow> bytes \<times> bytes \<Rightarrow> bool" where
  "confirmed fs i s \<longleftrightarrow> (\<exists>n x. find_node fs i = Some n \<and> map_of (cn_files n) (fst s) = Some x \<and>
     join_with (CHR '' '') (Fields (x @ [CHR 0x0A])) = snd s)"

lemma find_change_files:
  "find_node (change {i} (cn_files_update f) fs) i = map_option (cn_files_update f) (find_node fs i)"
proof -
  have "find (\<lambda>n. cn_inode n = i) (map (\<lambda>n. if cn_inode n = i then cn_files_update f n else n) ns) =
      map_option (cn_files_update f) (find (\<lambda>n. cn_inode n = i) ns)" for ns
    by (induction ns) auto
  then show ?thesis by (simp add: find_node_def change_def)
qed

lemma confirmed_other: "confirmed fs i s \<Longrightarrow> name \<noteq> fst s \<Longrightarrow> confirmed (change {i} (cn_files_update (\<lambda>fl. (name, y) # fl)) fs) i s"
  by (auto simp: confirmed_def find_change_files)

definition plain_files :: "(bytes \<times> bytes) list \<Rightarrow> bool" where
  "plain_files settings \<longleftrightarrow> distinct (map fst settings) \<and>
     set (map fst settings) \<inter> {''cgroup.controllers'', ''cgroup.kill'', ''cgroup.procs''} = {}"

lemma set_all_confirmed:
  assumes "set_all w i settings fs = (True, fs')" and "plain_files (done_settings @ settings)" and "\<forall>s \<in> set done_settings. confirmed fs i s"
  shows "\<forall>s \<in> set (done_settings @ settings). confirmed fs' i s"
  using assms
proof (induction settings arbitrary: fs done_settings)
  case (Cons s settings)
  obtain name v where s: "s = (name, v)" by fastforce
  obtain fs1 where v: "set_value w i name v fs = (True, fs1)" and r: "set_all w i settings fs1 = (True, fs')"
    using Cons.prems(1) by (auto simp: s split: prod.splits bool.splits)
  have name: "name \<noteq> ''cgroup.controllers''" "name \<noteq> ''cgroup.kill''" "name \<noteq> ''cgroup.procs''" "\<forall>d \<in> set done_settings. name \<noteq> fst d"
    using Cons.prems(2) by (auto simp: plain_files_def s image_iff)
  note c = confirmed_value [OF v name(1-3)]
  have "\<forall>d \<in> set (done_settings @ [s]). confirmed fs1 i d"
  proof -
    have "confirmed fs1 i (name, v)" unfolding confirmed_def fst_conv snd_conv by (rule conjunct1 [OF c])
    moreover have "confirmed fs1 i d" if "d \<in> set done_settings" for d
      using c confirmed_other name(4) Cons.prems(3) that by blast
    ultimately show ?thesis by (auto simp: s)
  qed
  then show ?case using Cons.IH [OF r, of "done_settings @ [s]"] Cons.prems(2) by simp
qed simp

lemma settings_plain: "plain_files (budget_settings budget)"
  by (simp add: plain_files_def budget_settings_def)

lemma confirmed_new:
  assumes "newCgroup w root fs = (g, ok, fs')" and "well_formed fs" and "confirmed fs i s"
  shows "confirmed fs' i s"
proof -
  have "i \<in> fst ` set (dirs fs)" using assms(3) by (auto simp: confirmed_def find_node_def find_Some_iff live_dirs [symmetric] live_def)
  then have "i < cf_next fs" using assms(2) by (auto simp: well_formed_def)
  then have "find_node fs' i = find_node fs i" using newCgroup_result [OF assms(1,2)] by (auto simp: find_node_def)
  then show ?thesis using assms(3) by (simp add: confirmed_def)
qed

text \<open>
  C11. A Sandbox only starts inside its limits. When the creation of its groups succeeds, the budget group is
  a new group directly below the configured root on a cgroup v2 filesystem, the kernel has confirmed the
  CPU quota, the memory, swap and process limits of the Resource Budget in it, and the group of Init is a
  new, empty group below it; no group that existed before is moved or removed.
\<close>

theorem sandbox_starts_limited:
  assumes "newSandboxCgroups w directory budget fs = (tree, True, fs')" and "well_formed fs"
  shows "\<exists>t b i n j. tree = Some t \<and> sc_budget t = Some b \<and> gr_group b = Some i \<and> sc_init t = Some n \<and> gr_group n = Some j \<and>
    sc_execution t = None \<and> ce_statfs w = Some 0x63677270 \<and>
    dirs fs' = (j, i, gr_name n) # (i, ce_root w, gr_name b) # dirs fs \<and>
    (\<forall>s \<in> {(''cpu.max'', signed_decimal (CPUMillis budget * 100) @ '' 100000''), (''memory.max'', signed_decimal (MemoryBytes budget)),
       (''memory.swap.max'', signed_decimal (SwapBytes budget)), (''pids.max'', signed_decimal (PIDs budget))}. confirmed fs' i s) \<and>
    (\<exists>d. find_node fs' j = Some d \<and> cn_procs d = [])"
proof -
  obtain fs1 where e: "enableCgroupControllers w (ce_root w) fs = (True, fs1)" and m: "ce_statfs w = Some 0x63677270"
    using assms(1) by (auto simp: newSandboxCgroups_def Let_def split: if_splits prod.splits bool.splits)
  have s1: "same_dirs fs fs1" and wf1: "well_formed fs1" using same_enable [OF e] well_formed_same assms(2) by blast+
  obtain b fs2 where b: "newCgroup w (ce_root w) fs1 = (b, True, fs2)"
    using assms(1) e by (auto simp: newSandboxCgroups_def Let_def split: if_splits prod.splits bool.splits)
  obtain g i where g: "b = Some g" "gr_group g = Some i" "dirs fs2 = (i, ce_root w, gr_name g) # dirs fs1" and wf2: "well_formed fs2"
    using newCgroup_result [OF b wf1] by auto
  obtain fs3 where v: "set_all w i (budget_settings budget) fs2 = (True, fs3)"
    using assms(1) e b g by (auto simp: newSandboxCgroups_def Let_def split: if_splits prod.splits bool.splits)
  obtain fs4 where e2: "enableCgroupControllers w i fs3 = (True, fs4)"
    using assms(1) e b g v by (auto simp: newSandboxCgroups_def Let_def split: if_splits prod.splits bool.splits)
  obtain n where n: "newCgroup w i fs4 = (n, True, fs')" "tree = Some \<lparr>sc_budget = b, sc_init = n, sc_execution = None\<rparr>"
    using assms(1) e b g v e2 by (auto simp: newSandboxCgroups_def Let_def split: if_splits prod.splits)
  have s4: "same_dirs fs2 fs3" "same_dirs fs3 fs4" using same_set_all [OF v] same_enable [OF e2] by blast+
  have wf4: "well_formed fs4" using wf2 s4 well_formed_same by blast
  obtain h j where h: "n = Some h" "gr_group h = Some j" "dirs fs' = (j, i, gr_name h) # dirs fs4"
      "cf_nodes fs' = \<lparr>cn_inode = j, cn_parent = i, cn_name = gr_name h, cn_files = [], cn_procs = []\<rparr> # cf_nodes fs4"
    using newCgroup_result [OF n(1) wf4] by auto
  have c3: "\<forall>s \<in> set (budget_settings budget). confirmed fs3 i s"
    using set_all_confirmed [OF v, of "[]"] settings_plain by simp
  have f4: "fs4 = change {i} (cn_files_update (\<lambda>fl. (''cgroup.subtree_control'', ce_store w ''cgroup.subtree_control'' ''+cpu +memory +pids'') # fl)) fs3"
    using e2 by (auto simp: enableCgroupControllers_def Let_def writeCgroupValue_def write_effect_def split: option.splits if_splits)
  have "confirmed fs' i s" if "s \<in> set (budget_settings budget)" for s
  proof -
    have "''cgroup.subtree_control'' \<noteq> fst s" using that by (auto simp: budget_settings_def)
    then have "confirmed fs4 i s" unfolding f4 using c3 that confirmed_other by blast
    then show ?thesis by (rule confirmed_new [OF n(1) wf4])
  qed
  moreover have "\<exists>d. find_node fs' j = Some d \<and> cn_procs d = []" by (simp add: find_node_def h(4))
  moreover have "dirs fs' = (j, i, gr_name h) # (i, ce_root w, gr_name g) # dirs fs"
    using h(3) g(3) s1 s4 by (simp add: same_dirs_def)
  ultimately show ?thesis using g h(1,2) n(2) m
    by (intro exI [of _ "\<lparr>sc_budget = b, sc_init = n, sc_execution = None\<rparr>"] exI [of _ g] exI [of _ i] exI [of _ h] exI [of _ j])
      (simp add: budget_settings_def)
qed

text \<open>A host with one delegated group, and a small budget.\<close>

definition sample_group_budget :: ResourceBudget where
  "sample_group_budget = DefaultResourceBudget\<lparr>CPUMillis := 10, MemoryBytes := 16, SwapBytes := 0, PIDs := 4\<rparr>"

definition sample_groups :: cgroupfs where
  "sample_groups = \<lparr>cf_nodes = [\<lparr>cn_inode = 1, cn_parent = 0, cn_name = ''delegated'', cn_files = [], cn_procs = []\<rparr>], cf_next = 2\<rparr>"

definition sample_group_env :: cg_env where
  "sample_group_env = \<lparr>ce_pid = 7, ce_random = (\<lambda>_. ''R''), ce_euid = 0, ce_info = Some \<lparr>is_link = False, r_stat = sample_dir mode_0755\<rparr>,
     ce_opens = True, ce_root = 1, ce_statfs = Some 0x63677270, ce_call = (\<lambda>_ _ _. True), ce_controllers = (\<lambda>_. ''cpu io memory pids''),
     ce_store = (\<lambda>_ v. v), ce_poll = (\<lambda>_ _. True), ce_exits = (\<lambda>_ _ _. True), ce_delay = (\<lambda>_ _. 0)\<rparr>"

definition sample_tree :: "sandboxCgroups option \<times> bool \<times> cgroupfs" where
  "sample_tree = newSandboxCgroups sample_group_env ''/sys'' sample_group_budget sample_groups"

lemma sample_groups_well_formed: "well_formed sample_groups"
  by (simp add: well_formed_def sample_groups_def dirs_def)

definition sample_sandbox :: "sandboxCgroups" where "sample_sandbox = the (fst sample_tree)"
definition sample_budget_inode :: nat where "sample_budget_inode = the (gr_group (the (sc_budget sample_sandbox)))"
definition sample_execution_group :: "cgroup option \<times> bool \<times> cgroupfs" where
  "sample_execution_group = newCgroup (sample_group_env\<lparr>ce_random := (\<lambda>_. ''S'')\<rparr>) sample_budget_inode (snd (snd sample_tree))"
definition sample_execution_inode :: nat where "sample_execution_inode = the (gr_group (the (fst sample_execution_group)))"
definition sample_attached :: "bool \<times> cgroupfs" where
  "sample_attached = attach sample_group_env sample_execution_inode 5 (snd (snd sample_execution_group))"

lemma sample_tree_created: "fst (snd sample_tree)" "fst sample_tree \<noteq> None" "sc_budget sample_sandbox \<noteq> None"
  "gr_group (the (sc_budget sample_sandbox)) \<noteq> None"
  by code_simp+

lemma sample_execution_started: "fst (snd sample_execution_group)" "fst sample_execution_group \<noteq> None"
  "gr_group (the (fst sample_execution_group)) \<noteq> None" "fst sample_attached" "populated (snd sample_attached) sample_execution_inode"
  by code_simp+

lemma sample_sandbox_closes:
  "fst (close_tree sample_group_env (sample_sandbox\<lparr>sc_execution := fst sample_execution_group\<rparr>) (snd sample_attached))"
  by code_simp

lemma sample_group_run:
  "cgroup_step\<^sup>*\<^sup>* (sample_sandbox, False, True, snd (snd sample_tree))
     (sample_sandbox\<lparr>sc_execution := fst sample_execution_group\<rparr>, True, True, snd sample_attached)"
proof -
  obtain b where b: "sc_budget sample_sandbox = Some b" "gr_group b = Some sample_budget_inode"
    using sample_tree_created(3,4) by (auto simp: sample_budget_inode_def)
  obtain e where e: "fst sample_execution_group = Some e" "gr_group e = Some sample_execution_inode"
    using sample_execution_started(2,3) by (auto simp: sample_execution_inode_def)
  have n: "newCgroup (sample_group_env\<lparr>ce_random := (\<lambda>_. ''S'')\<rparr>) sample_budget_inode (snd (snd sample_tree)) =
      (fst sample_execution_group, True, snd (snd sample_execution_group))"
    using sample_execution_started(1) by (metis sample_execution_group_def prod.collapse)
  have at: "attach sample_group_env sample_execution_inode 5 (snd (snd sample_execution_group)) = (True, snd sample_attached)"
    using sample_execution_started(4) by (metis sample_attached_def prod.collapse)
  have "cgroup_step (sample_sandbox\<lparr>sc_execution := fst sample_execution_group\<rparr>, True, True, snd (snd sample_execution_group))
      (sample_sandbox\<lparr>sc_execution := fst sample_execution_group\<rparr>, True, True, snd sample_attached)"
    by (rule cgroup_step.attached [OF _ e(2) at]) (simp add: e(1))
  then show ?thesis using cgroup_step.execution [OF b n] by (meson converse_rtranclp_into_rtranclp rtranclp.rtrancl_refl)
qed

theorem sandbox_starts_limited_witness:
  "\<exists>t fs'. newSandboxCgroups sample_group_env ''/sys'' sample_group_budget sample_groups = (Some t, True, fs') \<and>
     (\<exists>i. confirmed fs' i (''pids.max'', signed_decimal 4))"
proof -
  have c: "newSandboxCgroups sample_group_env ''/sys'' sample_group_budget sample_groups = (Some sample_sandbox, True, snd (snd sample_tree))"
    using sample_tree_created(1,2) by (metis sample_tree_def sample_sandbox_def option.collapse prod.collapse)
  then show ?thesis using sandbox_starts_limited [OF c sample_groups_well_formed] by (auto simp: sample_group_budget_def)
qed


section \<open>A group whose directory was not observed\<close>

text \<open>
  \<open>newCgroup\<close> returns a group on partial creation so that the tear-down can retry its cleanup. When the \<open>Lstat\<close>
  after the \<open>Mkdir\<close> fails, no retry can succeed: \<open>close\<close> requires the identity that was never recorded.
\<close>

lemma unobserved_group_is_never_closed:
  assumes "newCgroup w root fs = (Some g, ok, fs')" and "\<not> ce_call w ''lstat'' root (cgroup_name w root)"
  shows "\<not> ok \<and> (\<exists>i. dirs fs' = (i, root, gr_name g) # dirs fs) \<and> (\<forall>v gs. close_group v g gs = (False, g, gs))"
proof -
  obtain i fs1 where m: "mkdir w root (cgroup_name w root) fs = Some (i, fs1)"
    using assms(1) by (auto simp: newCgroup_def Let_def split: if_splits option.splits)
  have g: "g = \<lparr>gr_parent = Some root, gr_group = None, gr_name = cgroup_name w root, gr_directory = None\<rparr>" "\<not> ok" "fs' = fs1"
    using assms m by (auto simp: newCgroup_def Let_def split: if_splits)
  have "dirs fs1 = (i, root, cgroup_name w root) # dirs fs" using m by (auto simp: mkdir_def dirs_def split: if_splits)
  then show ?thesis using g by (simp add: close_group_def split: option.split)
qed

end
