(* ===== verification/Spec2Isabelle.thy ===== *)
theory Spec2Isabelle
  imports SupervisorProperties QueueOperations SandboxInit ControlServer Migrations BundleExample
    WorkerEnvelope WorkerReport SandboxBootstrap WorkloadLaunch Cgroups
begin

text \<open>
  A verification development for the sandboxed agent platform of this repository.

  \<^bold>\<open>The program.\<close> A Control Plane keeps Executions (Python workloads of agent runs) in PostgreSQL and leases
  them to Worker Nodes over HTTPS. A Worker Node asks a local, privileged Sandbox Supervisor to create a
  Sandbox from an installed Runtime Profile, to execute one workload in it and to destroy it. Inside the
  Sandbox a trusted Init process starts the workload under a seccomp filter compiled from the System Call
  Policy of the Profile, captures its output within budgets and extracts the declared files. Runtime
  Profiles are built from locked inputs into a Profile Bundle and installed, verified, into a store.

  \<^bold>\<open>The theories.\<close> Paths are below \<^verbatim>\<open>src/internal\<close>; a definition has the name of the Go function it models,
  a loop of a function is a function of its own next to it.

  \<^item> \<open>Prelude\<close>, \<open>Identifiers\<close>: byte strings, results as sums, string functions of the Go library; the
    reference grammars and path rules that all parts check.
  \<^item> \<open>Database\<close>, \<open>WorkerCredential\<close> (\<^verbatim>\<open>workercredential/store.go\<close>), \<open>ExecutionQueue\<close>
    (\<^verbatim>\<open>executionqueue/store.go, capacity.go, recovery.go, results.go, legacy_cleanup.go\<close>): the two stores as
    transactions on tables, with \<open>QueueInvariant\<close>, \<open>QueueProperties\<close> and \<open>QueueOperations\<close> for what holds
    in every interleaving (capacity, ownership, finality of states, well-formed rows) and of every single
    operation (first in first out, idempotent reports, authority of renewals, refusals change nothing).
  \<^item> \<open>Migrations\<close> (\<^verbatim>\<open>migrations/migrate.go\<close>, \<^verbatim>\<open>executionqueue/health.go\<close>): schema migrations; the history
    accounts for the database, an edited source is refused.
  \<^item> \<open>SysPolicy\<close>, \<open>SysAsm\<close>, \<open>SysFilter\<close>, \<open>SysCorrect\<close> (\<^verbatim>\<open>systemcallpolicy/policy.go, numbers.go, compile.go,
    compile_linux.go\<close>): the policy, its compiler, the BPF machine, and the proof that the compiled filter
    decides every system call as the policy says. \<open>PolicyDocument\<close> (\<^verbatim>\<open>policy.go\<close>): its JSON document.
  \<^item> \<open>Codec\<close> (\<^verbatim>\<open>sandboxsupervisor/codec_linux.go\<close>), \<open>Framing\<close> (\<^verbatim>\<open>framing_linux.go\<close>), \<open>Protocol\<close>
    (\<^verbatim>\<open>protocol.go\<close>): strict JSON over the token interface of the decoder, frames, protocol types.
  \<^item> \<open>Budgets\<close> (\<^verbatim>\<open>resource_budget_linux.go, storage_budget_linux.go, extraction_budget_linux.go\<close>),
    \<open>ResultStore\<close> (\<^verbatim>\<open>results_linux.go\<close>), \<open>OutputExtraction\<close> (\<^verbatim>\<open>extraction_linux.go\<close>), \<open>ExecutionRun\<close>
    (\<^verbatim>\<open>execution_linux.go\<close> and the counters of \<^verbatim>\<open>cgroup_linux.go\<close>), \<open>SandboxInit\<close> (\<^verbatim>\<open>init_linux.go\<close>): one Execution.
  \<^item> \<open>Supervisor\<close>, \<open>SupervisorInvariant\<close>, \<open>SupervisorProperties\<close> (\<^verbatim>\<open>creation_linux.go, lifecycle_linux.go,
    inspection_linux.go\<close>): the Sandboxes as a heap of objects under interleaved critical sections.
  \<^item> \<open>InstalledProfile\<close> (\<^verbatim>\<open>profile_init_linux.go, seccomp_linux.go\<close>), \<open>Attachments\<close>
    (\<^verbatim>\<open>attachments_linux.go\<close>): what a Sandbox loads and mounts.
  \<^item> \<open>SandboxBootstrap\<close> (\<^verbatim>\<open>bootstrap_linux.go, hardening_linux.go\<close>): the mounts of a Sandbox, step by step, and
    that the finished namespace is closed. \<open>WorkloadLaunch\<close> (\<^verbatim>\<open>privileges_linux.go\<close>, the start of Init and the
    launcher in \<^verbatim>\<open>init_linux.go, seccomp_linux.go\<close>): that a Workload starts without authority, under the filter.
    \<open>Cgroups\<close> (\<^verbatim>\<open>cgroup_linux.go\<close>): the control groups of a Sandbox, that their limits are confirmed and that
    nothing is left behind.
  \<^item> \<open>ControlServer\<close> (\<^verbatim>\<open>server_linux.go, client_linux.go, roots_linux.go\<close>): the control protocol end to end.
  \<^item> \<open>WorkerNode\<close> (\<^verbatim>\<open>worker/worker_linux.go, recovery_linux.go\<close>): the rounds of a Worker Node.
  \<^item> \<open>JsonStream\<close>, \<open>WorkerAPI\<close> (\<^verbatim>\<open>workerapi/server.go, report_decode.go, types.go\<close>), \<open>WorkerClient\<close>
    (\<^verbatim>\<open>workerapi/client.go\<close>): the HTTPS boundary between the two. \<open>WorkerWire\<close> shows that each side reads what
    the other writes, \<open>WorkerRemote\<close> and \<open>WorkerEnvelope\<close> that a call has the outcome of the queue operation
    behind it and that every answer fits the client, \<open>WorkerReport\<close> the bounds of decoding a report.
  \<^item> \<open>BundleLock\<close>, \<open>BundleBuild\<close>, \<open>RootFSInstall\<close>, \<open>RootFSCorrect\<close>, \<open>ProfileBundle\<close>, \<open>BundleProperties\<close>,
    \<open>BundleExample\<close> (\<^verbatim>\<open>profilebundle/types.go, build.go, install_linux.go\<close>): building and installing Profile
    Bundles, what an installed tree is, and that what is built installs.

  \<^bold>\<open>How the code is modelled.\<close> A Go struct is a record, a Go error a sum, a map an association list or a
  function; the state of a component is passed explicitly, and a loop is a recursive function. Integers are
  words where their wrap-around matters (BPF instructions, system call arguments, counters, identity
  ranges) and integers with the checks of the code elsewhere. What the code asks of the kernel, the
  database, a peer or a library outside \<^verbatim>\<open>src\<close> is an argument: outcomes of system calls, statements, clocks
  and connections are inputs over which the theorems quantify. SHA-256, the lexical scanner of JSON, tar,
  gzip and URL parsing are function arguments; where a theorem needs them to be faithful it says so for the
  values it uses, and its witness gives concrete ones.

  \<^bold>\<open>Fuel and bounds.\<close> The JSON walks take the number of lexemes plus one, and \<open>strict_decoding\<close> shows that
  this is never used up; the loops over members and outputs of a report take the number of remaining lexemes
  plus one, which \<open>report_decoding_bounded\<close> shows to suffice. The entrypoint loops run the 40 steps of the code. A name inside an \<^verbatim>\<open>os.Root\<close> is
  resolved with a limit on the links it follows, a parameter, as a second measure beside the length of the
  path. Loops that wait for a peer (\<open>retry\<close>, \<open>report_loop\<close>, \<open>heartbeatLoop\<close>) consume the list of answers
  they receive, \<open>None\<close> is a loop that still waits, and \<open>reporting_terminates\<close> bounds the only one with a budget.

  \<open>killAndWait\<close> needs no fuel: every sleep advances its clock by at least 10 ms towards the deadline.

  \<^bold>\<open>Kernel objects.\<close> Mounts, capabilities and control groups are tables that the system calls change as their
  manual pages document; the bytes of mounted filesystems, signals, pipes and the creation of processes
  enter by their outcomes only.

  \<^bold>\<open>Not modelled.\<close> The accept loop and deadlines of the Supervisor's socket and the goroutines and timers of
  a Worker Node schedule modelled operations; their interleavings are the arbitrary sequences over which
  the theorems quantify. The command line programs (\<^verbatim>\<open>src/cmd\<close>) parse flags and call modelled
  operations, and the laboratory \<^verbatim>\<open>runtimelab\<close> is an experiment beside the system. Files for other systems
  (\<^verbatim>\<open>*_unsupported.go\<close>, \<^verbatim>\<open>*_windows.go\<close>) only report that they are unsupported.
\<close>

end
